(* ===== verification/Oat_Prelude.thy ===== *)
theory Oat_Prelude
  imports Main "HOL-Library.AList" "HOL-Library.List_Lexorder" "HOL-Library.Char_ord"
    "HOL-Library.Sublist"
begin

section \<open>Prelude: Python values, errors, dictionaries and text\<close>

text \<open>
  What every component of the model shares. Python strings are modelled by their UTF-8
  bytes (\<open>char list\<close>): comparing them by bytes is comparing them by code points, and the
  canonical encoder of the program writes non-ASCII text unescaped. A \<open>dict\<close> is an
  association list in insertion order (\<open>AList.update\<close> replaces in place or appends, as
  Python does), a raised exception is the \<open>Inl\<close> of a sum.
\<close>

subsection \<open>Collections of facts\<close>

named_theorems res_simps \<open>evaluation of the error monad\<close>
named_theorems dict_simps \<open>lookup and update in dictionaries\<close>

subsection \<open>Exceptions and results\<close>

text \<open>
  One constructor per exception class the modelled code raises. The classes that derive from
  \<open>ValueError\<close> in the source (a handler for \<open>ValueError\<close> catches them) are collected
  by \<open>is_value_error\<close>.
\<close>

datatype py_exn =
    KeyError string
  | ValueError string
  | TypeError string
  | AssertionError
  | RuntimeError string
  | IntegrityError string
  | IndexError
  | OverflowError
  | StatisticsError
  | NotImplementedError
  | AttributeError string
  | FileNotFoundError string
  | IsADirectoryError string
  | ActionNormalizationError string
  | FalsifierError string
  | ScenarioError string
  | BindingError string
  | ReplayError string
  | TransportError string
  | ProviderFailure string
  | GenerationError string
  | ProvenanceMismatch string
  | SequenceGateError string
  | ProviderTerminalError string
  | ProviderBudgetStop string
  | HTTPException string
  | SystemExit string

fun is_value_error :: "py_exn \<Rightarrow> bool" where
  "is_value_error (ValueError _) = True"
| "is_value_error (ActionNormalizationError _) = True"
| "is_value_error (FalsifierError _) = True"
| "is_value_error (ScenarioError _) = True"
| "is_value_error (BindingError _) = True"
| "is_value_error (ReplayError _) = True"
| "is_value_error _ = False"

type_synonym 'a res = "py_exn + 'a"

definition bindE :: "'a res \<Rightarrow> ('a \<Rightarrow> 'b res) \<Rightarrow> 'b res" where
  "bindE m f = (case m of Inl e \<Rightarrow> Inl e | Inr x \<Rightarrow> f x)"

lemma bindE_simps [simp, res_simps]:
  "bindE (Inl e) f = Inl e"
  "bindE (Inr x) f = f x"
  by (simp_all add: bindE_def)

lemma bindE_Inr_iff [res_simps]:
  "bindE m f = Inr y \<longleftrightarrow> (\<exists>x. m = Inr x \<and> f x = Inr y)"
  by (cases m) auto

lemma bindE_Inl_iff [res_simps]:
  "bindE m f = Inl e \<longleftrightarrow> m = Inl e \<or> (\<exists>x. m = Inr x \<and> f x = Inl e)"
  by (cases m) auto

lemma bindE_assoc: "bindE (bindE m f) g = bindE m (\<lambda>x. bindE (f x) g)"
  by (cases m) auto

text \<open>A comprehension \<open>[f(x) for x in xs]\<close> whose body may raise.\<close>

fun mapE :: "('a \<Rightarrow> 'b res) \<Rightarrow> 'a list \<Rightarrow> 'b list res" where
  "mapE f [] = Inr []"
| "mapE f (x # xs) = bindE (f x) (\<lambda>y. bindE (mapE f xs) (\<lambda>ys. Inr (y # ys)))"

lemma mapE_Inr: "(\<And>x. x \<in> set xs \<Longrightarrow> f x = Inr (g x)) \<Longrightarrow> mapE f xs = Inr (map g xs)"
  by (induction xs) auto

lemma if_Inl_iff: "(if b then Inl e else x) = Inr y \<longleftrightarrow> \<not> b \<and> x = Inr y"
  by simp

lemma mapE_InrD: "mapE f xs = Inr ys \<Longrightarrow> list_all2 (\<lambda>x y. f x = Inr y) xs ys"
  by (induction xs arbitrary: ys) (auto simp: bindE_Inr_iff)

lemma mapE_Inr_ex: "(\<exists>ys. mapE f xs = Inr ys) \<longleftrightarrow> (\<forall>x \<in> set xs. \<exists>y. f x = Inr y)"
  by (induction xs) (auto simp: bindE_Inr_iff)

subsection \<open>Dictionaries\<close>

type_synonym ('k, 'v) dict = "('k \<times> 'v) list"

definition dict_get :: "('k, 'v) dict \<Rightarrow> 'k \<Rightarrow> 'v option" where
  "dict_get d k = map_of d k"

definition dict_set :: "'k \<Rightarrow> 'v \<Rightarrow> ('k, 'v) dict \<Rightarrow> ('k, 'v) dict" where
  "dict_set k v d = AList.update k v d"

definition dict_index :: "(string, 'v) dict \<Rightarrow> string \<Rightarrow> 'v res" where
  "dict_index d k = (case dict_get d k of None \<Rightarrow> Inl (KeyError k) | Some v \<Rightarrow> Inr v)"

lemma dict_get_Nil [simp, dict_simps]: "dict_get [] k = None"
  by (simp add: dict_get_def)

lemma dict_get_Cons [simp, dict_simps]:
  "dict_get ((k', v) # d) k = (if k = k' then Some v else dict_get d k)"
  by (auto simp: dict_get_def)

lemma dict_get_set [simp, dict_simps]:
  "dict_get (dict_set k v d) k' = (if k' = k then Some v else dict_get d k')"
  by (simp add: dict_get_def dict_set_def update_conv')

lemma dict_index_Inr_iff: "dict_index d k = Inr v \<longleftrightarrow> dict_get d k = Some v"
  by (simp add: dict_index_def split: option.split)

lemma dict_get_None_iff: "dict_get d k = None \<longleftrightarrow> k \<notin> fst ` set d"
  by (simp add: dict_get_def map_of_eq_None_iff)

lemma dict_get_SomeD: "dict_get d k = Some v \<Longrightarrow> (k, v) \<in> set d"
  by (simp add: dict_get_def map_of_SomeD)

lemma dict_set_keys: "fst ` set (dict_set k v d) = insert k (fst ` set d)"
  by (simp add: dict_set_def dom_update)

lemma dict_get_append:
  "dict_get (d @ e) k = (case dict_get d k of None \<Rightarrow> dict_get e k | Some v \<Rightarrow> Some v)"
  by (simp add: dict_get_def map_add_def split: option.splits)

lemma dict_get_map_snd:
  "dict_get (map (\<lambda>(k, v). (k, f v)) d) k = map_option f (dict_get d k)"
  by (induction d) auto

lemma dict_get_filter:
  "dict_get (filter (\<lambda>(k, v). P k) d) k = (if P k then dict_get d k else None)"
  by (induction d) auto

subsection \<open>Decimal numerals\<close>

text \<open>\<open>str(n)\<close> of a Python int, by repeated division.\<close>

definition digit_char :: "nat \<Rightarrow> char" where
  "digit_char d = char_of (48 + d)"

fun str_of_nat :: "nat \<Rightarrow> string" where
  "str_of_nat n = (if n < 10 then [digit_char n] else str_of_nat (n div 10) @ [digit_char (n mod 10)])"

declare str_of_nat.simps [simp del]

definition str_of_int :: "int \<Rightarrow> string" where
  "str_of_int i = (if i < 0 then CHR ''-'' # str_of_nat (nat (- i)) else str_of_nat (nat i))"

definition digit_val :: "char \<Rightarrow> nat" where
  "digit_val c = of_char c - 48"

definition is_digit :: "char \<Rightarrow> bool" where
  "is_digit c \<longleftrightarrow> (48 :: nat) \<le> of_char c \<and> (of_char c :: nat) \<le> 57"

definition nat_of_digits :: "string \<Rightarrow> nat" where
  "nat_of_digits cs = foldl (\<lambda>a c. 10 * a + digit_val c) 0 cs"

lemma of_char_digit_char: "d < 10 \<Longrightarrow> (of_char (digit_char d) :: nat) = 48 + d"
  by (simp add: digit_char_def)

lemma digit_char_digit [simp]: "d < 10 \<Longrightarrow> is_digit (digit_char d)"
  by (simp add: is_digit_def of_char_digit_char)

lemma digit_val_digit_char [simp]: "d < 10 \<Longrightarrow> digit_val (digit_char d) = d"
  by (simp add: digit_val_def of_char_digit_char)

lemma str_of_nat_nonempty [simp]: "str_of_nat n \<noteq> []"
  by (subst str_of_nat.simps) simp

lemma str_of_nat_digits: "\<forall>c \<in> set (str_of_nat n). is_digit c"
proof (induction n rule: str_of_nat.induct)
  case (1 n)
  then show ?case by (subst str_of_nat.simps) auto
qed

lemma nat_of_digits_str_of_nat [simp]: "nat_of_digits (str_of_nat n) = n"
proof (induction n rule: str_of_nat.induct)
  case (1 n)
  show ?case
  proof (cases "n < 10")
    case True
    then show ?thesis by (subst str_of_nat.simps) (simp add: nat_of_digits_def)
  next
    case False
    with "1.IH" show ?thesis by (subst str_of_nat.simps) (simp add: nat_of_digits_def)
  qed
qed

lemma str_of_nat_inject [simp]: "str_of_nat m = str_of_nat n \<longleftrightarrow> m = n"
  by (metis nat_of_digits_str_of_nat)

lemma is_digit_not_minus [simp]: "\<not> is_digit (CHR ''-'')"
  by (simp add: is_digit_def)

lemma str_of_nat_not_minus: "str_of_nat n \<noteq> CHR ''-'' # s"
  using str_of_nat_digits [of n] by auto

lemma str_of_int_inject [simp]: "str_of_int i = str_of_int j \<longleftrightarrow> i = j"
  using str_of_nat_not_minus str_of_nat_not_minus [symmetric]
  by (auto simp: str_of_int_def split: if_splits)

subsection \<open>Text\<close>

text \<open>\<open>sep.join(xs)\<close>.\<close>

fun join :: "string \<Rightarrow> string list \<Rightarrow> string" where
  "join sep [] = []"
| "join sep [x] = x"
| "join sep (x # y # ys) = x @ sep @ join sep (y # ys)"

lemma join_Cons: "xs \<noteq> [] \<Longrightarrow> join sep (x # xs) = x @ sep @ join sep xs"
  by (cases xs) auto

text \<open>\<open>s.startswith(p)\<close> and \<open>p in s\<close>.\<close>

definition starts_with :: "string \<Rightarrow> string \<Rightarrow> bool" where
  "starts_with s p \<longleftrightarrow> take (length p) s = p"

lemma starts_with_iff: "starts_with s p \<longleftrightarrow> prefix p s"
  by (metis append_eq_conv_conj prefix_def starts_with_def)

fun contains_str :: "string \<Rightarrow> string \<Rightarrow> bool" where
  "contains_str p [] = (p = [])"
| "contains_str p (c # s) = (starts_with (c # s) p \<or> contains_str p s)"

lemma contains_str_iff: "contains_str p s \<longleftrightarrow> sublist p s"
  by (induction s) (auto simp: starts_with_iff sublist_Cons_right)

text \<open>\<open>sorted(xs)\<close> of a set given by a list of its members.\<close>

definition sorted_set :: "('a :: linorder) list \<Rightarrow> 'a list" where
  "sorted_set xs = sort (remdups xs)"

lemma sorted_set_props [simp]:
  "set (sorted_set xs) = set xs" "sorted (sorted_set xs)" "distinct (sorted_set xs)"
  by (simp_all add: sorted_set_def)

lemma sorted_set_eq_iff: "sorted_set xs = sorted_set ys \<longleftrightarrow> set xs = set ys"
  by (metis sorted_distinct_set_unique sorted_set_props)

lemma sorted_set_Nil_iff [simp]: "sorted_set xs = [] \<longleftrightarrow> xs = []"
  by (metis set_empty sorted_set_props(1))

text \<open>
  Lower-casing and white space as Python does them on ASCII text; a byte of a non-ASCII
  character is left alone.
\<close>

definition lower_char :: "char \<Rightarrow> char" where
  "lower_char c = (let n = of_char c :: nat in if 65 \<le> n \<and> n \<le> 90 then char_of (n + 32) else c)"

definition lower :: "string \<Rightarrow> string" where
  "lower s = map lower_char s"

definition is_space :: "char \<Rightarrow> bool" where
  "is_space c \<longleftrightarrow> (let n = of_char c :: nat in (9 \<le> n \<and> n \<le> 13) \<or> (28 \<le> n \<and> n \<le> 32))"

definition strip_ws :: "string \<Rightarrow> string" where
  "strip_ws s = rev (dropWhile is_space (rev (dropWhile is_space s)))"

text \<open>\<open>s.split(c)\<close> for a one-character separator.\<close>

fun split_on :: "char \<Rightarrow> string \<Rightarrow> string list" where
  "split_on c [] = [[]]"
| "split_on c (x # xs) =
     (if x = c then [] # split_on c xs
      else (case split_on c xs of [] \<Rightarrow> [[x]] | w # ws \<Rightarrow> (x # w) # ws))"

lemma split_on_nonempty [simp]: "split_on c s \<noteq> []"
  by (induction s) (auto split: list.splits)

lemma split_on_append: "split_on c (a @ c # b) = split_on c a @ split_on c b"
proof (induction a)
  case (Cons x a)
  then show ?case by (cases "split_on c a") (auto split: list.split)
qed simp

lemma split_on_no_sep: "c \<notin> set s \<Longrightarrow> split_on c s = [s]"
  by (induction s) auto

lemma split_on_line: "c \<notin> set a \<Longrightarrow> split_on c (a @ c # b) = a # split_on c b"
  by (simp add: split_on_append split_on_no_sep)

end
