(* ===== verification/Hash_Lib.thy ===== *)
theory Hash_Lib
  imports Oat_Prelude "HOL-Library.Word"
begin

unbundle bit_operations_syntax

section \<open>SHA-256 and HMAC, as hashlib and hmac compute them\<close>

text \<open>
  The program hashes with the standard library only: \<open>hashlib.sha256(b).hexdigest()\<close> and
  \<open>hmac.new(key, msg, sha256).hexdigest()\<close>. Both are written out here over 32-bit words
  (FIPS 180-4, RFC 2104), so that digests are functions of the model and not parameters. No
  theorem assumes that SHA-256 is injective: where a digest stands for the object it was
  computed from, the conclusion names the pair of messages that would be a collision.
\<close>

type_synonym w32 = "32 word"

text \<open>
  The constants are what the standard says they are: the first 32 bits of the fractional parts
  of the cube roots of the first sixty-four primes, and of the square roots of the first eight.
\<close>

definition primes_below :: "nat \<Rightarrow> nat list" where
  "primes_below m = filter (\<lambda>n. list_all (\<lambda>d. \<not> d dvd n) [2..<n]) [2..<m]"

definition int_root :: "nat \<Rightarrow> nat \<Rightarrow> nat" where
  "int_root k n = fold (\<lambda>i r. if (r + 2 ^ i) ^ k \<le> n then r + 2 ^ i else r) (rev [0..<40]) 0"

definition root_bits :: "nat \<Rightarrow> nat \<Rightarrow> w32" where
  "root_bits k p = word_of_nat (int_root k (p * 2 ^ (32 * k)))"

definition sha_K :: "w32 list" where
  "sha_K = map (root_bits 3) (primes_below 312)"

type_synonym sha_state = "w32 \<times> w32 \<times> w32 \<times> w32 \<times> w32 \<times> w32 \<times> w32 \<times> w32"

definition sha_init :: sha_state where
  "sha_init = (root_bits 2 2, root_bits 2 3, root_bits 2 5, root_bits 2 7,
               root_bits 2 11, root_bits 2 13, root_bits 2 17, root_bits 2 19)"

definition rotr :: "nat \<Rightarrow> w32 \<Rightarrow> w32" where
  "rotr n x = drop_bit n x OR push_bit (32 - n) x"

text \<open>The message schedule: the first \<open>n\<close> words that the sliding window of sixteen yields.\<close>

fun sha_schedule :: "nat \<Rightarrow> w32 list \<Rightarrow> w32 list" where
  "sha_schedule 0 ws = []"
| "sha_schedule (Suc n) ws =
     (let w1 = ws ! 1; w14 = ws ! 14;
          s0 = rotr 7 w1 XOR rotr 18 w1 XOR drop_bit 3 w1;
          s1 = rotr 17 w14 XOR rotr 19 w14 XOR drop_bit 10 w14
      in ws ! 0 # sha_schedule n (tl ws @ [ws ! 0 + s0 + ws ! 9 + s1]))"

fun sha_round :: "sha_state \<Rightarrow> w32 \<times> w32 \<Rightarrow> sha_state" where
  "sha_round (a, b, c, d, e, f, g, h) (k, w) =
     (let S1 = rotr 6 e XOR rotr 11 e XOR rotr 25 e;
          ch = (e AND f) XOR (NOT e AND g);
          t1 = h + S1 + ch + k + w;
          S0 = rotr 2 a XOR rotr 13 a XOR rotr 22 a;
          maj = (a AND b) XOR (a AND c) XOR (b AND c)
      in (t1 + (S0 + maj), a, b, c, d + t1, e, f, g))"

fun sha_add :: "sha_state \<Rightarrow> sha_state \<Rightarrow> sha_state" where
  "sha_add (a, b, c, d, e, f, g, h) (a', b', c', d', e', f', g', h') =
     (a + a', b + b', c + c', d + d', e + e', f + f', g + g', h + h')"

definition sha_block :: "sha_state \<Rightarrow> w32 list \<Rightarrow> sha_state" where
  "sha_block s ws = sha_add s (foldl sha_round s (zip sha_K (sha_schedule 64 ws)))"

text \<open>Bytes to big-endian words, and the padding of the message to whole blocks.\<close>

fun words_of_bytes :: "nat list \<Rightarrow> w32 list" where
  "words_of_bytes (a # b # c # d # bs) =
     word_of_nat (((a * 256 + b) * 256 + c) * 256 + d) # words_of_bytes bs"
| "words_of_bytes _ = []"

definition be_bytes :: "nat \<Rightarrow> nat \<Rightarrow> nat list" where
  "be_bytes k n = map (\<lambda>i. n div 256 ^ i mod 256) (rev [0..<k])"

definition sha_pad :: "nat list \<Rightarrow> nat list" where
  "sha_pad bs =
     (let l = length bs
      in bs @ [128] @ replicate ((119 - l mod 64) mod 64) 0 @ be_bytes 8 (8 * l))"

function sha_blocks :: "sha_state \<Rightarrow> w32 list \<Rightarrow> sha_state" where
  "sha_blocks s ws =
     (if length ws < 16 then s else sha_blocks (sha_block s (take 16 ws)) (drop 16 ws))"
  by pat_completeness auto
termination
  by (relation "measure (\<lambda>(s, ws). length ws)") auto

declare sha_blocks.simps [simp del]

definition sha_digest_bytes :: "nat list \<Rightarrow> nat list" where
  "sha_digest_bytes bs =
     (case sha_blocks sha_init (words_of_bytes (sha_pad bs)) of
        (a, b, c, d, e, f, g, h) \<Rightarrow>
          concat (map (\<lambda>w. be_bytes 4 (unat w)) [a, b, c, d, e, f, g, h]))"

definition hex_digit :: "nat \<Rightarrow> char" where
  "hex_digit n = (if n < 10 then char_of (48 + n) else char_of (87 + n))"

definition hex_of_bytes :: "nat list \<Rightarrow> string" where
  "hex_of_bytes bs = concat (map (\<lambda>b. [hex_digit (b div 16), hex_digit (b mod 16)]) bs)"

definition bytes_of_str :: "string \<Rightarrow> nat list" where
  "bytes_of_str s = map of_char s"

definition sha256_hex :: "string \<Rightarrow> string" where
  "sha256_hex s = hex_of_bytes (sha_digest_bytes (bytes_of_str s))"

text \<open>\<open>int.from_bytes(sha256(s).digest()[:k], "big")\<close>.\<close>

definition sha256_prefix_int :: "nat \<Rightarrow> string \<Rightarrow> nat" where
  "sha256_prefix_int k s = foldl (\<lambda>a b. 256 * a + b) 0 (take k (sha_digest_bytes (bytes_of_str s)))"

definition hmac_sha256_hex :: "string \<Rightarrow> string \<Rightarrow> string" where
  "hmac_sha256_hex key msg =
     (let k0 = bytes_of_str key;
          k1 = (if 64 < length k0 then sha_digest_bytes k0 else k0);
          k = k1 @ replicate (64 - length k1) 0;
          inner = sha_digest_bytes (map (\<lambda>b. b XOR 54) k @ bytes_of_str msg)
      in hex_of_bytes (sha_digest_bytes (map (\<lambda>b. b XOR 92) k @ inner)))"

text \<open>A pair of different messages with the same digest.\<close>

definition sha256_collision :: "string \<Rightarrow> string \<Rightarrow> bool" where
  "sha256_collision x y \<longleftrightarrow> x \<noteq> y \<and> sha256_hex x = sha256_hex y"

lemma sha256_eqD: "sha256_hex x = sha256_hex y \<Longrightarrow> x = y \<or> sha256_collision x y"
  by (simp add: sha256_collision_def)

subsection \<open>Shape of a digest\<close>

lemma length_be_bytes [simp]: "length (be_bytes k n) = k"
  by (simp add: be_bytes_def)

lemma length_hex_of_bytes [simp]: "length (hex_of_bytes bs) = 2 * length bs"
  by (induction bs) (auto simp: hex_of_bytes_def)

lemma length_sha_digest_bytes [simp]: "length (sha_digest_bytes bs) = 32"
  by (simp add: sha_digest_bytes_def split: prod.split)

lemma length_sha256_hex [simp]: "length (sha256_hex s) = 64"
  by (simp add: sha256_hex_def)

lemma be_bytes_bound: "b \<in> set (be_bytes k n) \<Longrightarrow> b < 256"
  by (auto simp: be_bytes_def)

lemma sha_digest_bytes_bound: "b \<in> set (sha_digest_bytes bs) \<Longrightarrow> b < 256"
  by (auto simp: sha_digest_bytes_def dest: be_bytes_bound split: prod.splits)

definition is_hex :: "char \<Rightarrow> bool" where
  "is_hex c \<longleftrightarrow> is_digit c \<or> ((97 :: nat) \<le> of_char c \<and> (of_char c :: nat) \<le> 102)"

lemma hex_digit_is_hex: "n < 16 \<Longrightarrow> is_hex (hex_digit n)"
  by (auto simp: is_hex_def hex_digit_def is_digit_def)

lemma sha256_hex_is_hex: "c \<in> set (sha256_hex s) \<Longrightarrow> is_hex c"
  unfolding sha256_hex_def hex_of_bytes_def
  using sha_digest_bytes_bound
  by (fastforce intro!: hex_digit_is_hex)

text \<open>The padded message is a whole number of 64-byte blocks.\<close>

lemma sha_pad_blocks: "length (sha_pad bs) mod 64 = 0"
proof -
  define r where "r = length bs mod 64"
  have r: "r < 64" by (simp add: r_def)
  then have "(r + 1 + (119 - r) mod 64 + 8) mod 64 = 0"
    by (cases "r \<le> 55") (auto simp: mod_if)
  moreover have "length (sha_pad bs) mod 64 = (r + (1 + (119 - r) mod 64 + 8)) mod 64"
    unfolding r_def mod_add_left_eq by (simp add: sha_pad_def Let_def)
  ultimately show ?thesis by (simp add: ac_simps)
qed

end
