(* ===== verification/Canonical.thy ===== *)
theory Canonical
  imports Hash_Lib
begin

section \<open>Canonical encoding and digests\<close>

text \<open>
  The JSON values the program digests, \<open>strip_noncanonical\<close>, \<open>canonical_bytes\<close>
  (\<open>json.dumps\<close> with sorted keys, minimal separators and no ASCII escaping) and the
  digests over them (\<open>oat/canonical.py\<close>, \<open>oat/digest.py\<close>). The main result is that the
  canonical encoding determines the value up to the order of keys, so that equal digests mean
  equal evidence or an explicit SHA-256 collision. Floats are not modelled: no float reaches a
  canonical digest of the program.
\<close>

subsection \<open>Values\<close>

datatype json =
    JNull
  | JBool bool
  | JInt int
  | JStr string
  | JList "json list"
  | JTuple "json list"
  | JObj "(string \<times> json) list"

definition NONCANONICAL_KEYS :: "string list" where
  "NONCANONICAL_KEYS = [''runtime'']"

definition CANONICAL_FORM :: string where
  "CANONICAL_FORM = ''oat-canonical-json/1''"

text \<open>
  A tuple is neither a \<open>dict\<close> nor a \<open>list\<close>: \<open>strip_noncanonical\<close> returns it as it is.
\<close>

fun strip_noncanonical :: "json \<Rightarrow> json" where
  "strip_noncanonical (JObj kvs) =
     JObj (map (\<lambda>(k, v). (k, strip_noncanonical v))
             (filter (\<lambda>(k, v). k \<notin> set NONCANONICAL_KEYS) kvs))"
| "strip_noncanonical (JList xs) = JList (map strip_noncanonical xs)"
| "strip_noncanonical v = v"

subsection \<open>The encoder\<close>

definition hex4 :: "nat \<Rightarrow> string" where
  "hex4 n = [CHR ''0'', CHR ''0'', hex_digit (n div 16 mod 16), hex_digit (n mod 16)]"

definition esc_char :: "char \<Rightarrow> string" where
  "esc_char c =
     (let n = of_char c :: nat in
      if n = 34 then [CHR 0x5C, CHR 0x22]
      else if n = 92 then [CHR 0x5C, CHR 0x5C]
      else if n = 10 then [CHR 0x5C, CHR ''n'']
      else if n = 13 then [CHR 0x5C, CHR ''r'']
      else if n = 9 then [CHR 0x5C, CHR ''t'']
      else if n = 12 then [CHR 0x5C, CHR ''f'']
      else if n = 8 then [CHR 0x5C, CHR ''b'']
      else if n < 32 then [CHR 0x5C, CHR ''u''] @ hex4 n
      else [c])"

definition enc_str :: "string \<Rightarrow> string" where
  "enc_str s = [CHR 0x22] @ concat (map esc_char s) @ [CHR 0x22]"

fun dumps :: "json \<Rightarrow> string" where
  "dumps JNull = ''null''"
| "dumps (JBool b) = (if b then ''true'' else ''false'')"
| "dumps (JInt i) = str_of_int i"
| "dumps (JStr s) = enc_str s"
| "dumps (JList xs) = ''['' @ join '','' (map dumps xs) @ '']''"
| "dumps (JTuple xs) = ''['' @ join '','' (map dumps xs) @ '']''"
| "dumps (JObj kvs) =
     ''{'' @ join '','' (map (\<lambda>(k, e). enc_str k @ '':'' @ e)
                    (sort_key fst (map (\<lambda>(k, v). (k, dumps v)) kvs))) @ ''}''"

definition canonical_bytes :: "json \<Rightarrow> string" where
  "canonical_bytes v = dumps (strip_noncanonical v)"

text \<open>Text is modelled by its UTF-8 bytes, so decoding the bytes gives the same list.\<close>

definition canonical_text :: "json \<Rightarrow> string" where
  "canonical_text v = canonical_bytes v"

subsection \<open>Digests\<close>

definition DIGEST_ALGORITHM :: string where
  "DIGEST_ALGORITHM = ''sha256''"

definition digest_bytes :: "string \<Rightarrow> string" where
  "digest_bytes data = DIGEST_ALGORITHM @ '':'' @ sha256_hex data"

definition digest_object :: "json \<Rightarrow> string" where
  "digest_object v = digest_bytes (canonical_bytes v)"

text \<open>
  A file system is the list of the files below a root, by their POSIX path and content, each
  with a flag for being a regular file.
\<close>

record file_entry =
  fe_path :: string
  fe_is_file :: bool
  fe_content :: string

definition digest_file :: "file_entry \<Rightarrow> string" where
  "digest_file f = digest_bytes (fe_content f)"

definition path_parts :: "string \<Rightarrow> string list" where
  "path_parts p = split_on (CHR ''/'') p"

text \<open>\<open>Path.suffix\<close>: from the last dot of the name, unless that dot starts or ends it.\<close>

definition path_suffix :: "string \<Rightarrow> string" where
  "path_suffix p =
     (let name = last (path_parts p);
          tail = rev (takeWhile (\<lambda>c. c \<noteq> CHR ''.'') (rev name))
      in if length tail = length name \<or> length tail + 1 = length name \<or> tail = [] then []
         else CHR ''.'' # tail)"

definition digest_source_tree :: "string \<Rightarrow> file_entry list \<Rightarrow> string list \<Rightarrow> string" where
  "digest_source_tree root files sufs =
     digest_object (JObj [(''tree'', JList (map
        (\<lambda>f. JObj [(''path'', JStr (fe_path f)), (''digest'', JStr (digest_file f))])
        (filter (\<lambda>f. fe_is_file f \<and> path_suffix (fe_path f) \<in> set sufs
                     \<and> ''__pycache__'' \<notin> set (path_parts root @ path_parts (fe_path f)))
           (sort_key (\<lambda>f. path_parts (fe_path f)) files))))])"

subsection \<open>Normal forms\<close>

text \<open>
  What the encoder reads of a value: tuples are lists, the items of an object are sorted by
  key. Two values with the same normal form are encoded alike.
\<close>

fun nf :: "json \<Rightarrow> json" where
  "nf (JList xs) = JList (map nf xs)"
| "nf (JTuple xs) = JList (map nf xs)"
| "nf (JObj kvs) = JObj (sort_key fst (map (\<lambda>(k, v). (k, nf v)) kvs))"
| "nf v = v"

definition canonical_form :: "json \<Rightarrow> json" where
  "canonical_form v = nf (strip_noncanonical v)"

lemma insort_key_map_snd:
  "insort_key fst (k, f v) (map (\<lambda>(k, v). (k, f v)) xs)
     = map (\<lambda>(k, v). (k, f v)) (insort_key fst (k, v) xs)"
  by (induction xs) auto

lemma sort_key_map_snd:
  "sort_key fst (map (\<lambda>(k, v). (k, f v)) kvs) = map (\<lambda>(k, v). (k, f v)) (sort_key fst kvs)"
  by (induction kvs) (auto simp: insort_key_map_snd)

definition enc_item :: "string \<times> json \<Rightarrow> string" where
  "enc_item kv = enc_str (fst kv) @ '':'' @ dumps (snd kv)"

lemma dumps_JObj:
  "dumps (JObj kvs) = ''{'' @ join '','' (map enc_item (sort_key fst kvs)) @ ''}''"
proof -
  have "map (\<lambda>(k, e). enc_str k @ '':'' @ e) (map (\<lambda>(k, v). (k, dumps v)) xs) = map enc_item xs" for xs
    by (induction xs) (auto simp: enc_item_def)
  then show ?thesis by (simp only: dumps.simps(7) sort_key_map_snd)
qed

lemma nf_JObj: "nf (JObj kvs) = JObj (map (\<lambda>(k, v). (k, nf v)) (sort_key fst kvs))"
  by (simp add: sort_key_map_snd)

declare dumps.simps(7) [simp del] nf.simps(3) [simp del]

subsection \<open>Unique decoding\<close>

text \<open>What may follow a value inside a document: nothing, or a separator.\<close>

definition delimited :: "string \<Rightarrow> bool" where
  "delimited s \<longleftrightarrow> s = [] \<or> hd s \<in> {CHR '','', CHR '']'', CHR ''}''}"

lemma delimited_simps [simp]:
  "delimited []" "delimited (CHR '','' # s)" "delimited (CHR '']'' # s)" "delimited (CHR ''}'' # s)"
  by (simp_all add: delimited_def)

text \<open>Reading one escaped character back.\<close>

definition hex_val :: "char \<Rightarrow> nat" where
  "hex_val c = (let n = of_char c :: nat in if n < 58 then n - 48 else n - 87)"

fun unesc :: "string \<Rightarrow> (char \<times> string) option" where
  "unesc [] = None"
| "unesc (c # s) =
     (if c \<noteq> CHR 0x5C then Some (c, s)
      else (case s of
              [] \<Rightarrow> None
            | d # s' \<Rightarrow>
                if d = CHR ''n'' then Some (CHR 0x0A, s')
                else if d = CHR ''r'' then Some (CHR 0x0D, s')
                else if d = CHR ''t'' then Some (CHR 0x09, s')
                else if d = CHR ''f'' then Some (CHR 0x0C, s')
                else if d = CHR ''b'' then Some (CHR 0x08, s')
                else if d = CHR ''u'' then
                  Some (char_of (16 * hex_val (s' ! 2) + hex_val (s' ! 3)), drop 4 s')
                else Some (d, s')))"

lemma hex_val_hex_digit: "n < 16 \<Longrightarrow> hex_val (hex_digit n) = n"
  by (simp add: hex_val_def hex_digit_def)

lemma char_eq_of_char: "c = d \<longleftrightarrow> (of_char c :: nat) = of_char d"
  by simp

lemma char_of_escapes:
  "char_of (34 :: nat) = CHR 0x22" "char_of (92 :: nat) = CHR 0x5C" "char_of (10 :: nat) = CHR 0x0A"
  "char_of (13 :: nat) = CHR 0x0D" "char_of (9 :: nat) = CHR 0x09" "char_of (12 :: nat) = CHR 0x0C"
  "char_of (8 :: nat) = CHR 0x08"
  by (simp_all add: char_eq_of_char del: of_char_eq_iff)

lemma unesc_esc_char: "unesc (esc_char c @ s) = Some (c, s)"
proof -
  define n where "n = (of_char c :: nat)"
  have c: "c = char_of n" by (simp add: n_def)
  have n: "n < 256" by (simp add: n_def)
  have hex: "16 * hex_val (hex_digit (n div 16 mod 16)) + hex_val (hex_digit (n mod 16)) = n" if "n < 32"
    using that by (simp add: hex_val_hex_digit)
  from n consider "n = 34" | "n = 92" | "n = 10" | "n = 13" | "n = 9" | "n = 12" | "n = 8"
    | (ctl) "n < 32" "n \<notin> {8, 9, 10, 12, 13}" | (plain) "32 \<le> n" "n \<noteq> 34" "n \<noteq> 92"
    by (cases "n < 32") auto
  then show ?thesis
  proof cases
    case ctl
    then show ?thesis
      using hex by (simp add: esc_char_def hex4_def c)
  next
    case plain
    then have "c \<noteq> CHR 0x5C" by (auto simp: n_def)
    with plain show ?thesis by (simp add: esc_char_def n_def [symmetric])
  qed (simp_all add: esc_char_def c char_of_escapes)
qed

lemma esc_char_inject: "esc_char c @ s = esc_char d @ t \<Longrightarrow> c = d \<and> s = t"
  by (metis Pair_inject option.inject unesc_esc_char)

lemma esc_char_not_quote: "esc_char c @ s \<noteq> CHR 0x22 # t"
proof -
  have "hd (esc_char c) \<noteq> CHR 0x22" and "esc_char c \<noteq> []"
    by (auto simp: esc_char_def Let_def)
  then show ?thesis by (cases "esc_char c") auto
qed

lemma esc_body_inject:
  "concat (map esc_char a) @ CHR 0x22 # s = concat (map esc_char b) @ CHR 0x22 # t \<Longrightarrow> a = b \<and> s = t"
proof (induction a arbitrary: b)
  case Nil
  then show ?case
    using esc_char_not_quote by (cases b) (auto, metis)
next
  case (Cons c a)
  show ?case
  proof (cases b)
    case Nil
    with Cons.prems show ?thesis using esc_char_not_quote by auto
  next
    case (Cons d b')
    with Cons.prems have
      "esc_char c @ (concat (map esc_char a) @ CHR 0x22 # s)
         = esc_char d @ (concat (map esc_char b') @ CHR 0x22 # t)" by simp
    from esc_char_inject [OF this] Cons Cons.IH show ?thesis by auto
  qed
qed

lemma enc_str_inject: "enc_str a @ s = enc_str b @ t \<Longrightarrow> a = b \<and> s = t"
  by (rule esc_body_inject) (simp add: enc_str_def)

lemma str_of_nat_unique:
  assumes "str_of_nat m @ s = str_of_nat n @ t" "delimited s" "delimited t"
  shows "m = n \<and> s = t"
proof -
  have tw: "takeWhile is_digit (str_of_nat k @ u) = str_of_nat k" if "delimited u" for k u
    using str_of_nat_digits [of k] that
    by (cases u) (auto simp: takeWhile_append delimited_def is_digit_def)
  have "str_of_nat m = takeWhile is_digit (str_of_nat m @ s)"
    using tw [OF assms(2)] by simp
  also have "\<dots> = takeWhile is_digit (str_of_nat n @ t)" by (simp only: assms(1))
  also have "\<dots> = str_of_nat n" using tw [OF assms(3)] by simp
  finally show ?thesis using assms(1) by simp
qed

lemma str_of_int_unique:
  assumes "str_of_int i @ s = str_of_int j @ t" "delimited s" "delimited t"
  shows "i = j \<and> s = t"
proof -
  have hd: "hd (str_of_nat n @ u) \<noteq> CHR ''-''" for n u
    using str_of_nat_digits [of n] str_of_nat_nonempty [of n]
    by (cases "str_of_nat n") auto
  have neg: "CHR ''-'' # u \<noteq> str_of_nat n @ v" "str_of_nat n @ v \<noteq> CHR ''-'' # u" for n u v
    using hd [of n v] by (metis list.sel(1))+
  from assms show ?thesis
    by (auto simp: str_of_int_def neg dest: str_of_nat_unique split: if_splits)
qed

text \<open>The first character of an encoding tells the kind of value.\<close>

lemma str_of_int_head: "\<exists>c r. str_of_int i = c # r \<and> (is_digit c \<or> c = CHR ''-'')"
proof (cases "str_of_nat (nat i)")
  case (Cons c r)
  then show ?thesis using str_of_nat_digits [of "nat i"] by (auto simp: str_of_int_def)
qed simp

definition json_head :: "json \<Rightarrow> char set" where
  "json_head v = (case v of
      JNull \<Rightarrow> {CHR ''n''} | JBool b \<Rightarrow> {if b then CHR ''t'' else CHR ''f''}
    | JInt _ \<Rightarrow> insert (CHR ''-'') {c. is_digit c} | JStr _ \<Rightarrow> {CHR 0x22}
    | JList _ \<Rightarrow> {CHR ''[''} | JTuple _ \<Rightarrow> {CHR ''[''} | JObj _ \<Rightarrow> {CHR ''{''})"

lemma dumps_head: "\<exists>c r. dumps v = c # r \<and> c \<in> json_head v"
proof (cases v)
  case (JInt i)
  then show ?thesis using str_of_int_head [of i] by (auto simp: json_head_def)
qed (auto simp: json_head_def enc_str_def dumps_JObj)

lemma dumps_head_not_close: "dumps v @ s \<noteq> CHR '']'' # t"
  using dumps_head [of v] by (cases v) (auto simp: json_head_def is_digit_def)

definition decodes :: "json \<Rightarrow> bool" where
  "decodes v \<longleftrightarrow> (\<forall>w s t. delimited s \<longrightarrow> delimited t \<longrightarrow> dumps v @ s = dumps w @ t
                    \<longrightarrow> nf v = nf w \<and> s = t)"

lemma join_map_Cons:
  "join '','' (map f (x # xs)) @ r =
     f x @ (case xs of [] \<Rightarrow> r | _ \<Rightarrow> '','' @ join '','' (map f xs) @ r)"
  by (cases xs) auto

lemma join_rest_delimited:
  "delimited r \<Longrightarrow> delimited (case xs of [] \<Rightarrow> r | _ \<Rightarrow> '','' @ join '','' (map f xs) @ r)"
  by (cases xs) auto

lemma list_decode:
  assumes "\<forall>x \<in> set xs. \<forall>y s t. delimited s \<longrightarrow> delimited t \<longrightarrow> f x @ s = f y @ t
             \<longrightarrow> g x = g y \<and> s = t"
    and close: "\<And>x s t. f x @ s \<noteq> c # t" "\<And>s. delimited (c # s)" "c \<noteq> CHR '',''"
    and "join '','' (map f xs) @ c # s = join '','' (map f ys) @ c # t"
  shows "map g xs = map g ys \<and> s = t"
  using assms(1,5)
proof (induction xs arbitrary: ys)
  case Nil
  then show ?case
    using close(1) [symmetric] by (cases ys) (auto simp: join_map_Cons simp del: list.map(2))
next
  case (Cons x xs)
  show ?case
  proof (cases ys)
    case Nil
    with Cons.prems show ?thesis
      using close(1) by (auto simp: join_map_Cons simp del: list.map(2))
  next
    case (Cons y ys')
    let ?r = "\<lambda>zs u. case zs of [] \<Rightarrow> c # u | _ \<Rightarrow> '','' @ join '','' (map f zs) @ c # u"
    have "f x @ ?r xs s = f y @ ?r ys' t"
      using Cons.prems(2) unfolding Cons join_map_Cons .
    moreover have d: "delimited (?r xs s)" "delimited (?r ys' t)"
      using close(2) by (auto intro!: join_rest_delimited)
    ultimately have *: "g x = g y" "?r xs s = ?r ys' t"
      using Cons.prems(1) by auto
    from *(2) close(3) have "join '','' (map f xs) @ c # s = join '','' (map f ys') @ c # t"
      by (cases xs; cases ys') (simp_all del: list.map(2))
    moreover have "\<forall>x \<in> set xs. \<forall>y s t. delimited s \<longrightarrow> delimited t \<longrightarrow> f x @ s = f y @ t
        \<longrightarrow> g x = g y \<and> s = t"
      using Cons.prems(1) by (meson list.set_intros(2))
    ultimately have "map g xs = map g ys' \<and> s = t" by (intro Cons.IH)
    with *(1) Cons show ?thesis by (simp only: list.map simp_thms)
  qed
qed

lemma enc_item_decode:
  assumes "decodes v" "delimited s" "delimited t" "enc_item (k, v) @ s = enc_item (k', w) @ t"
  shows "k = k' \<and> nf v = nf w \<and> s = t"
proof -
  from assms(4) have "enc_str k @ ('':'' @ dumps v @ s) = enc_str k' @ ('':'' @ dumps w @ t)"
    by (simp add: enc_item_def)
  from enc_str_inject [OF this] assms(1-3) show ?thesis by (auto simp: decodes_def)
qed

lemma decodes_list:
  assumes "\<forall>x \<in> set xs. decodes x"
    and "''['' @ join '','' (map dumps xs) @ '']'' @ s = ''['' @ join '','' (map dumps ys) @ '']'' @ t"
  shows "map nf xs = map nf ys \<and> s = t"
proof (rule list_decode [where f = dumps and c = "CHR '']''"])
  show "\<forall>x \<in> set xs. \<forall>y s t. delimited s \<longrightarrow> delimited t \<longrightarrow> dumps x @ s = dumps y @ t
          \<longrightarrow> nf x = nf y \<and> s = t"
    using assms(1) unfolding decodes_def by blast
  show "join '','' (map dumps xs) @ CHR '']'' # s = join '','' (map dumps ys) @ CHR '']'' # t"
    using assms(2) by simp
qed (simp_all add: dumps_head_not_close)

lemma decodes_obj:
  assumes "\<forall>kv \<in> set kvs. decodes (snd kv)"
    and "dumps (JObj kvs) @ s = dumps (JObj kvs') @ t"
  shows "nf (JObj kvs) = nf (JObj kvs') \<and> s = t"
proof -
  have "map (\<lambda>(k, v). (k, nf v)) (sort_key fst kvs) = map (\<lambda>(k, v). (k, nf v)) (sort_key fst kvs')
          \<and> s = t"
  proof (rule list_decode [where f = enc_item and c = "CHR ''}''"])
    show "\<forall>x \<in> set (sort_key fst kvs). \<forall>y s t. delimited s \<longrightarrow> delimited t
            \<longrightarrow> enc_item x @ s = enc_item y @ t
            \<longrightarrow> (case x of (k, v) \<Rightarrow> (k, nf v)) = (case y of (k, v) \<Rightarrow> (k, nf v)) \<and> s = t"
    proof (intro ballI allI impI)
      fix x y :: "string \<times> json" and s t
      assume "x \<in> set (sort_key fst kvs)" "delimited s" "delimited t" "enc_item x @ s = enc_item y @ t"
      with assms(1) enc_item_decode [of "snd x" s t "fst x" "fst y" "snd y"]
      show "(case x of (k, v) \<Rightarrow> (k, nf v)) = (case y of (k, v) \<Rightarrow> (k, nf v)) \<and> s = t"
        by (simp add: case_prod_beta)
    qed
    show "join '','' (map enc_item (sort_key fst kvs)) @ CHR ''}'' # s
            = join '','' (map enc_item (sort_key fst kvs')) @ CHR ''}'' # t"
      using assms(2) by (simp add: dumps_JObj)
  qed (auto simp: enc_item_def enc_str_def)
  then show ?thesis by (simp add: nf_JObj)
qed

lemma decodesI:
  assumes "\<And>w s t. dumps v @ s = dumps w @ t \<Longrightarrow> json_head v \<inter> json_head w \<noteq> {}
             \<Longrightarrow> delimited s \<Longrightarrow> delimited t \<Longrightarrow> nf v = nf w \<and> s = t"
  shows "decodes v"
  unfolding decodes_def
proof (intro allI impI)
  fix w s t
  assume d: "delimited s" "delimited t" and eq: "dumps v @ s = dumps w @ t"
  obtain c r c' r' where "dumps v = c # r" "c \<in> json_head v" "dumps w = c' # r'" "c' \<in> json_head w"
    using dumps_head [of v] dumps_head [of w] by blast
  with eq have "json_head v \<inter> json_head w \<noteq> {}" by auto
  with assms eq d show "nf v = nf w \<and> s = t" by blast
qed

lemma decodes_all: "decodes v"
proof (induction v)
  case JNull
  show ?case
  proof (rule decodesI)
    fix w s t
    assume "dumps JNull @ s = dumps w @ t" "json_head JNull \<inter> json_head w \<noteq> {}"
    then show "nf JNull = nf w \<and> s = t"
      by (cases w) (auto simp: json_head_def is_digit_def split: if_splits)
  qed
next
  case (JBool b)
  show ?case
  proof (rule decodesI)
    fix w s t
    assume "dumps (JBool b) @ s = dumps w @ t" "json_head (JBool b) \<inter> json_head w \<noteq> {}"
    then show "nf (JBool b) = nf w \<and> s = t"
      by (cases w) (auto simp: json_head_def is_digit_def split: if_splits)
  qed
next
  case (JInt i)
  show ?case
  proof (rule decodesI)
    fix w s t
    assume "dumps (JInt i) @ s = dumps w @ t" "json_head (JInt i) \<inter> json_head w \<noteq> {}"
      "delimited s" "delimited t"
    then show "nf (JInt i) = nf w \<and> s = t"
      by (cases w) (auto simp: json_head_def is_digit_def dest: str_of_int_unique split: if_splits)
  qed
next
  case (JStr a)
  show ?case
  proof (rule decodesI)
    fix w s t
    assume "dumps (JStr a) @ s = dumps w @ t" "json_head (JStr a) \<inter> json_head w \<noteq> {}"
    then show "nf (JStr a) = nf w \<and> s = t"
      by (cases w) (auto simp: json_head_def is_digit_def dest: enc_str_inject split: if_splits)
  qed
next
  case (JList xs)
  show ?case
  proof (rule decodesI)
    fix w s t
    assume "dumps (JList xs) @ s = dumps w @ t" "json_head (JList xs) \<inter> json_head w \<noteq> {}"
    then show "nf (JList xs) = nf w \<and> s = t"
      using decodes_list [of xs s _ t] JList
      by (cases w) (auto simp: json_head_def is_digit_def split: if_splits)
  qed
next
  case (JTuple xs)
  show ?case
  proof (rule decodesI)
    fix w s t
    assume "dumps (JTuple xs) @ s = dumps w @ t" "json_head (JTuple xs) \<inter> json_head w \<noteq> {}"
    then show "nf (JTuple xs) = nf w \<and> s = t"
      using decodes_list [of xs s _ t] JTuple
      by (cases w) (auto simp: json_head_def is_digit_def split: if_splits)
  qed
next
  case (JObj kvs)
  then have dec: "\<forall>kv \<in> set kvs. decodes (snd kv)" by (auto intro: snds.intros)
  show ?case
  proof (rule decodesI)
    fix w s t
    assume "dumps (JObj kvs) @ s = dumps w @ t" "json_head (JObj kvs) \<inter> json_head w \<noteq> {}"
    then show "nf (JObj kvs) = nf w \<and> s = t"
      using decodes_obj [OF dec, of s _ t]
      by (cases w) (auto simp: json_head_def is_digit_def split: if_splits)
  qed
qed

subsection \<open>The encoding determines the value\<close>

lemma sort_key_sorted: "sorted (map f xs) \<Longrightarrow> sort_key f xs = xs"
  by (induction xs) (auto simp: insort_is_Cons)

lemma dumps_nf [simp]: "dumps (nf v) = dumps v"
proof (induction v)
  case (JObj kvs)
  let ?s = "sort_key fst kvs"
  have "sort_key fst (map (\<lambda>(k, v). (k, nf v)) ?s) = map (\<lambda>(k, v). (k, nf v)) ?s"
    by (rule sort_key_sorted) (simp add: comp_def case_prod_beta')
  moreover have "map enc_item (map (\<lambda>(k, v). (k, nf v)) ?s) = map enc_item ?s"
    using JObj by (auto simp: enc_item_def intro: snds.intros)
  ultimately show ?case by (simp only: nf_JObj dumps_JObj)
qed (simp_all cong: map_cong)

theorem canonical_bytes_inject_iff:
  "canonical_bytes v = canonical_bytes w \<longleftrightarrow> canonical_form v = canonical_form w"
proof
  assume "canonical_bytes v = canonical_bytes w"
  then have "dumps (strip_noncanonical v) @ [] = dumps (strip_noncanonical w) @ []"
    by (simp add: canonical_bytes_def)
  with decodes_all [of "strip_noncanonical v"] show "canonical_form v = canonical_form w"
    unfolding decodes_def canonical_form_def using delimited_simps(1) by blast
next
  assume "canonical_form v = canonical_form w"
  then show "canonical_bytes v = canonical_bytes w"
    unfolding canonical_bytes_def canonical_form_def by (metis dumps_nf)
qed

subsection \<open>Sealing: what a digest over an encoding promises\<close>

text \<open>
  The interface of every seal of the program: a digest over an encoding that determines the
  form of the object. Equal seals are equal forms or an explicit collision; equal forms are
  equal seals.
\<close>

locale sealing =
  fixes encode :: "'v \<Rightarrow> string" and form :: "'v \<Rightarrow> 'f" and seal :: "'v \<Rightarrow> string"
  assumes encode_iff: "encode v = encode w \<longleftrightarrow> form v = form w"
    and seal_iff: "seal v = seal w \<longleftrightarrow> sha256_hex (encode v) = sha256_hex (encode w)"
begin

lemma seal_binds:
  "seal v = seal w \<Longrightarrow> form v = form w \<or> sha256_collision (encode v) (encode w)"
  using encode_iff [of v w] by (simp add: seal_iff sha256_collision_def)

lemma seal_stable: "form v = form w \<Longrightarrow> seal v = seal w"
  using encode_iff [of v w] by (simp add: seal_iff)

lemma seal_tamper:
  "form v \<noteq> form w \<Longrightarrow> \<not> sha256_collision (encode v) (encode w) \<Longrightarrow> seal v \<noteq> seal w"
  using seal_binds by blast

end

lemma digest_bytes_eq_iff: "digest_bytes a = digest_bytes b \<longleftrightarrow> sha256_hex a = sha256_hex b"
  by (simp add: digest_bytes_def)

interpretation obj_seal: sealing canonical_bytes canonical_form digest_object
  by unfold_locales (simp_all add: canonical_bytes_inject_iff digest_object_def digest_bytes_eq_iff)

interpretation file_seal: sealing fe_content fe_content digest_file
  by unfold_locales (simp_all add: digest_file_def digest_bytes_eq_iff)

lemma length_digest [simp]: "length (digest_object v) = 71" "length (digest_bytes b) = 71"
  by (simp_all add: digest_object_def digest_bytes_def DIGEST_ALGORITHM_def)

lemma digest_nonempty [simp]: "digest_object v \<noteq> []"
  by (metis length_digest(1) list.size(3) zero_neq_numeral)

subsection \<open>What is outside the digest domain\<close>

lemma strip_idem [simp]: "strip_noncanonical (strip_noncanonical v) = strip_noncanonical v"
proof (induction v)
  case (JObj kvs)
  then have "\<forall>kv \<in> set kvs. strip_noncanonical (strip_noncanonical (snd kv)) = strip_noncanonical (snd kv)"
    by (auto intro: snds.intros)
  then show ?case by (induction kvs) auto
qed (simp_all cong: map_cong)

lemma strip_dict_set_runtime:
  "strip_noncanonical (JObj (dict_set ''runtime'' r kvs))
     = strip_noncanonical (JObj (filter (\<lambda>(k, v). k \<noteq> ''runtime'') kvs))"
  unfolding dict_set_def by (induction kvs) (auto simp: NONCANONICAL_KEYS_def)

lemma strip_filter_runtime:
  "strip_noncanonical (JObj (filter (\<lambda>(k, v). k \<noteq> ''runtime'') kvs)) = strip_noncanonical (JObj kvs)"
  by (induction kvs) (auto simp: NONCANONICAL_KEYS_def)

text \<open>Whatever the runtime subtree of an object holds, its digest is the same.\<close>

lemma digest_runtime_irrelevant:
  "digest_object (JObj (dict_set ''runtime'' r kvs)) = digest_object (JObj kvs)"
  unfolding digest_object_def canonical_bytes_def
  by (simp only: strip_dict_set_runtime strip_filter_runtime)

text \<open>The order in which a dictionary was filled does not reach the digest.\<close>

lemma sort_key_perm_distinct:
  assumes "distinct (map fst xs)" "set xs = set ys" "distinct (map fst ys)"
  shows "sort_key fst xs = sort_key fst (ys :: (string \<times> 'a) list)"
proof -
  have inj: "inj_on fst (set xs)" using assms(1) by (simp add: distinct_map)
  let ?a = "sort_key fst xs" and ?b = "sort_key fst ys"
  have "map fst ?a = map fst ?b"
    using assms
    by (intro sorted_distinct_set_unique) (auto simp: distinct_map intro: inj_on_subset)
  then have "list_all2 (\<lambda>a b. fst a = fst b) ?a ?b"
    by (simp add: list_all2_conv_all_nth list_eq_iff_nth_eq)
  then show ?thesis
    using inj assms(2)
    by (auto simp: list_all2_conv_all_nth intro!: nth_equalityI)
       (metis (no_types, lifting) inj_on_eq_iff nth_mem prod.collapse set_sort length_sort)
qed

subsection \<open>Fields of a sealed object\<close>

lemma dict_get_insort: "dict_get (insort_key fst (k, v) xs) j = dict_get ((k, v) # xs) j"
  by (induction xs) auto

lemma dict_get_sort_key [simp]: "dict_get (sort_key fst xs) j = dict_get xs j"
proof (induction xs)
  case (Cons x xs)
  then show ?case by (cases x) (simp add: dict_get_insort)
qed simp

text \<open>Objects with the same canonical form agree, field by field, outside the runtime key.\<close>

lemma canonical_form_field:
  assumes "canonical_form (JObj a) = canonical_form (JObj b)" "k \<notin> set NONCANONICAL_KEYS"
  shows "map_option canonical_form (dict_get a k) = map_option canonical_form (dict_get b k)"
proof -
  have *: "map_option canonical_form (dict_get c k)
      = dict_get (map (\<lambda>(k, v). (k, nf v)) (sort_key fst (map (\<lambda>(k, v). (k, strip_noncanonical v))
          (filter (\<lambda>(k, v). k \<notin> set NONCANONICAL_KEYS) c)))) k" for c
    using assms(2)
    by (simp add: dict_get_map_snd dict_get_filter option.map_comp comp_def canonical_form_def [abs_def])
  from assms(1) show ?thesis unfolding * by (simp add: canonical_form_def nf_JObj)
qed

lemma canonical_form_JStr [simp]: "canonical_form (JStr s) = JStr s"
  and canonical_form_JInt [simp]: "canonical_form (JInt i) = JInt i"
  and canonical_form_JBool [simp]: "canonical_form (JBool b) = JBool b"
  and canonical_form_JNull [simp]: "canonical_form JNull = JNull"
  by (simp_all add: canonical_form_def)

lemma canonical_form_JList: "canonical_form (JList xs) = JList (map canonical_form xs)"
  by (simp add: canonical_form_def)

subsection \<open>Properties\<close>

text \<open>Two JSON values have the same digest exactly when they are the same value up to the
  order of keys, tuples read as lists and runtime subtrees removed, or else their encodings are an
  explicit SHA-256 collision.\<close>

theorem digest_binds_content:
  "digest_object v = digest_object w \<longleftrightarrow>
     canonical_form v = canonical_form w \<or> sha256_collision (canonical_bytes v) (canonical_bytes w)"
  unfolding obj_seal.seal_iff sha256_collision_def canonical_bytes_inject_iff [symmetric] by auto

text \<open>A runtime subtree is outside the digest domain wherever it sits: setting it at the top
  of an object, or in an object below any key, leaves the digest as it was.\<close>

theorem digest_ignores_runtime:
  "digest_object (JObj (dict_set ''runtime'' r kvs)) = digest_object (JObj kvs)
   \<and> digest_object (JObj (dict_set k (JObj (dict_set ''runtime'' r d)) kvs))
     = digest_object (JObj (dict_set k (JObj d) kvs))"
proof -
  have s: "strip_noncanonical (JObj (dict_set ''runtime'' r c)) = strip_noncanonical (JObj c)" for r c
    by (simp only: strip_dict_set_runtime strip_filter_runtime)
  have "strip_noncanonical (JObj (dict_set k v kvs)) = strip_noncanonical (JObj (dict_set k w kvs))"
    if "strip_noncanonical v = strip_noncanonical w" for v w
    unfolding dict_set_def using that by (induction kvs) auto
  from this [OF s] s show ?thesis by (simp only: digest_object_def canonical_bytes_def)
qed

end
