(* ===== verification/Py_Json.thy ===== *)
theory Py_Json
  imports Canonical
begin

section \<open>Python operations on JSON values\<close>

text \<open>
  What the program does with parsed documents: \<open>d.get(k)\<close>, \<open>d[k]\<close>, \<open>bool(x)\<close>,
  \<open>str(x)\<close>, \<open>repr(x)\<close>, \<open>int(x)\<close> and \<open>==\<close>. Non-ASCII characters are taken
  as printable by \<open>repr\<close>.
\<close>

subsection \<open>Dictionaries\<close>

fun jget :: "json \<Rightarrow> string \<Rightarrow> json option" where
  "jget (JObj kvs) k = dict_get kvs k"
| "jget _ k = None"

definition jget_or :: "json \<Rightarrow> string \<Rightarrow> json \<Rightarrow> json" where
  "jget_or d k x = (case jget d k of None \<Rightarrow> x | Some v \<Rightarrow> v)"

fun jindex :: "json \<Rightarrow> string \<Rightarrow> json res" where
  "jindex (JObj kvs) k = dict_index kvs k"
| "jindex _ k = Inl (TypeError ''indices'')"

lemma jindex_Inr_iff: "jindex d k = Inr v \<longleftrightarrow> jget d k = Some v"
  by (cases d) (auto simp: dict_index_Inr_iff)

fun jitems :: "json \<Rightarrow> (string \<times> json) list" where
  "jitems (JObj kvs) = kvs"
| "jitems _ = []"

fun is_JObj :: "json \<Rightarrow> bool" where
  "is_JObj (JObj _) = True"
| "is_JObj _ = False"

fun is_JList :: "json \<Rightarrow> bool" where
  "is_JList (JList _) = True"
| "is_JList _ = False"

definition JOptStr :: "string option \<Rightarrow> json" where
  "JOptStr s = (case s of None \<Rightarrow> JNull | Some x \<Rightarrow> JStr x)"

definition JStrs :: "string list \<Rightarrow> json" where
  "JStrs xs = JList (map JStr xs)"

lemma JStrs_inject [simp]: "JStrs xs = JStrs ys \<longleftrightarrow> xs = ys"
  by (simp add: JStrs_def inj_map_eq_map inj_def)

lemma JOptStr_inject [simp]: "JOptStr a = JOptStr b \<longleftrightarrow> a = b"
  by (simp add: JOptStr_def split: option.splits)

subsection \<open>Truth value\<close>

fun truthy :: "json \<Rightarrow> bool" where
  "truthy JNull = False"
| "truthy (JBool b) = b"
| "truthy (JInt i) = (i \<noteq> 0)"
| "truthy (JStr s) = (s \<noteq> [])"
| "truthy (JList xs) = (xs \<noteq> [])"
| "truthy (JTuple xs) = (xs \<noteq> [])"
| "truthy (JObj kvs) = (kvs \<noteq> [])"

subsection \<open>Text of a value\<close>

definition repr_char :: "char \<Rightarrow> char \<Rightarrow> string" where
  "repr_char q c =
     (let n = of_char c :: nat in
      if c = q \<or> n = 92 then [CHR 0x5C, c]
      else if n = 10 then [CHR 0x5C, CHR ''n'']
      else if n = 13 then [CHR 0x5C, CHR ''r'']
      else if n = 9 then [CHR 0x5C, CHR ''t'']
      else if n < 32 \<or> n = 127 then [CHR 0x5C, CHR ''x'', hex_digit (n div 16), hex_digit (n mod 16)]
      else [c])"

definition repr_str :: "string \<Rightarrow> string" where
  "repr_str s =
     (let q = (if CHR 0x27 \<in> set s \<and> CHR 0x22 \<notin> set s then CHR 0x22 else CHR 0x27)
      in [q] @ concat (map (repr_char q) s) @ [q])"

fun py_repr :: "json \<Rightarrow> string" where
  "py_repr JNull = ''None''"
| "py_repr (JBool b) = (if b then ''True'' else ''False'')"
| "py_repr (JInt i) = str_of_int i"
| "py_repr (JStr s) = repr_str s"
| "py_repr (JList xs) = ''['' @ join '', '' (map py_repr xs) @ '']''"
| "py_repr (JTuple xs) =
     (case xs of [x] \<Rightarrow> ''('' @ py_repr x @ '',)''
      | _ \<Rightarrow> ''('' @ join '', '' (map py_repr xs) @ '')'')"
| "py_repr (JObj kvs) =
     ''{'' @ join '', '' (map (\<lambda>(k, v). repr_str k @ '': '' @ py_repr v) kvs) @ ''}''"

definition py_str :: "json \<Rightarrow> string" where
  "py_str v = (case v of JStr s \<Rightarrow> s | _ \<Rightarrow> py_repr v)"

lemma py_str_JStr [simp]: "py_str (JStr s) = s"
  by (simp add: py_str_def)

definition py_str_opt :: "json option \<Rightarrow> string" where
  "py_str_opt v = py_str (case v of None \<Rightarrow> JNull | Some x \<Rightarrow> x)"

subsection \<open>Integers\<close>

text \<open>
  \<open>int(s)\<close> of a string: white space around it, a sign, digits with single underscores
  between them.
\<close>

fun digits_ok :: "bool \<Rightarrow> string \<Rightarrow> bool" where
  "digits_ok prev [] = prev"
| "digits_ok prev (c # s) =
     (if is_digit c then digits_ok True s
      else c = CHR ''_'' \<and> prev \<and> digits_ok False s)"

definition parse_digits :: "string \<Rightarrow> int option" where
  "parse_digits s = (if digits_ok False s then Some (int (nat_of_digits (filter is_digit s))) else None)"

definition parse_int :: "string \<Rightarrow> int option" where
  "parse_int s =
     (case strip_ws s of
        [] \<Rightarrow> None
      | c # r \<Rightarrow>
          if c = CHR ''-'' then map_option uminus (parse_digits r)
          else if c = CHR ''+'' then parse_digits r
          else parse_digits (c # r))"

fun py_int :: "json \<Rightarrow> int res" where
  "py_int (JInt i) = Inr i"
| "py_int (JBool b) = Inr (if b then 1 else 0)"
| "py_int (JStr s) =
     (case parse_int s of None \<Rightarrow> Inl (ValueError ''invalid literal for int()'') | Some i \<Rightarrow> Inr i)"
| "py_int _ = Inl (TypeError ''int() argument'')"

subsection \<open>Equality\<close>

text \<open>
  Python's \<open>==\<close>: a boolean equals the integer it stands for, dictionaries compare without
  order.
\<close>

fun py_eq :: "json \<Rightarrow> json \<Rightarrow> bool" where
  "py_eq (JBool a) (JInt j) = (j = (if a then 1 else 0))"
| "py_eq (JInt i) (JBool b) = (i = (if b then 1 else 0))"
| "py_eq (JList xs) (JList ys) = list_all2 py_eq xs ys"
| "py_eq (JTuple xs) (JTuple ys) = list_all2 py_eq xs ys"
| "py_eq (JObj a) (JObj b) =
     (length a = length b \<and>
      list_all (\<lambda>(k, v). case dict_get b k of None \<Rightarrow> False | Some w \<Rightarrow> py_eq v w) a)"
| "py_eq v w = (v = w)"

lemma py_eq_JStr [simp]: "py_eq (JStr a) v \<longleftrightarrow> v = JStr a"
  by (cases v) auto

subsection \<open>Fields of a document\<close>

text \<open>
  \<open>int(d[k])\<close>, \<open>str(d[k])\<close>, \<open>d.get(k, x)\<close> of a value that may not be a dictionary, \<open>dict(v)\<close>
  (of a dictionary or an empty sequence; a sequence of pairs is taken for an error), and an
  \<open>except KeyError\<close> handler.
\<close>

definition catch_key_error :: "(string \<Rightarrow> py_exn) \<Rightarrow> 'a res \<Rightarrow> 'a res" where
  "catch_key_error h m = (case m of Inl (KeyError k) \<Rightarrow> Inl (h k) | _ \<Rightarrow> m)"

definition int_field :: "json \<Rightarrow> string \<Rightarrow> int res" where
  "int_field d k = bindE (jindex d k) py_int"

definition str_field :: "json \<Rightarrow> string \<Rightarrow> string res" where
  "str_field d k = bindE (jindex d k) (\<lambda>v. Inr (py_str v))"

definition attr_get :: "json \<Rightarrow> string \<Rightarrow> json \<Rightarrow> json res" where
  "attr_get d k x = (if is_JObj d then Inr (jget_or d k x) else Inl (AttributeError ''get''))"

definition py_dict :: "json \<Rightarrow> (string \<times> json) list res" where
  "py_dict v = (case v of JObj kvs \<Rightarrow> Inr kvs | JList [] \<Rightarrow> Inr [] | JTuple [] \<Rightarrow> Inr [] | JStr [] \<Rightarrow> Inr []
     | _ \<Rightarrow> Inl (TypeError ''dict()''))"

lemma py_dict_JObj [simp]: "py_dict (JObj kvs) = Inr kvs"
  by (simp add: py_dict_def)

lemma py_dict_Inr_iff:
  "py_dict f = Inr c \<longleftrightarrow> f = JObj c \<or> c = [] \<and> f \<in> {JList [], JTuple [], JStr []}"
  by (cases f) (auto simp: py_dict_def split: list.splits)

end
