(* ===== verification/Authority.thy ===== *)
theory Authority
  imports Py_Json "HOL-Library.Multiset"
begin

section \<open>Authority: epochs over logical time and delegation chains\<close>

text \<open>
  \<open>oat/authority/current_state.py\<close> (epochs, their status lookup, the ordered store and the
  lookup at a tick) and \<open>oat/authority/delegation.py\<close> (chains and the non-amplification
  rule). Logical ticks and epochs are unbounded Python integers.
\<close>

subsection \<open>Authority states\<close>

record authority_state =
  as_epoch :: int
  as_effective_from :: int
  as_active :: "string list"
  as_revoked :: "string list"
  as_superseded :: "string list"

definition authority_state_dict :: "authority_state \<Rightarrow> json" where
  "authority_state_dict s = JObj [
     (''epoch'', JInt (as_epoch s)),
     (''effective_from'', JInt (as_effective_from s)),
     (''active_grants'', JStrs (as_active s)),
     (''revoked_grants'', JStrs (as_revoked s)),
     (''superseded_grants'', JStrs (as_superseded s))]"

definition authority_state_digest :: "authority_state \<Rightarrow> string" where
  "authority_state_digest s = digest_object (authority_state_dict s)"

definition status_of :: "authority_state \<Rightarrow> string \<Rightarrow> string" where
  "status_of s grant =
     (if grant \<in> set (as_revoked s) then ''REVOKED''
      else if grant \<in> set (as_superseded s) then ''SUPERSEDED''
      else if grant \<in> set (as_active s) then ''ACTIVE''
      else ''UNKNOWN_GRANT'')"

lemma status_of_ACTIVE_iff:
  "status_of s g = ''ACTIVE'' \<longleftrightarrow>
     g \<in> set (as_active s) \<and> g \<notin> set (as_revoked s) \<and> g \<notin> set (as_superseded s)"
  by (simp add: status_of_def)

subsection \<open>The store of epochs\<close>

type_synonym authority_store = "authority_state list"

definition store_add :: "authority_state \<Rightarrow> authority_store \<Rightarrow> authority_store" where
  "store_add s epochs = sort_key as_effective_from (epochs @ [s])"

fun store_at_loop :: "int \<Rightarrow> authority_state option \<Rightarrow> authority_state list \<Rightarrow> authority_state option" where
  "store_at_loop tick candidate [] = candidate"
| "store_at_loop tick candidate (s # ss) =
     (if as_effective_from s \<le> tick then store_at_loop tick (Some s) ss else candidate)"

definition store_at :: "authority_store \<Rightarrow> int \<Rightarrow> authority_state option" where
  "store_at epochs tick = store_at_loop tick None epochs"

definition store_dict :: "authority_store \<Rightarrow> json" where
  "store_dict epochs = JObj [(''epochs'', JList (map authority_state_dict epochs))]"

text \<open>The invariant of the store and what the operations do to it.\<close>

definition store_ok :: "authority_store \<Rightarrow> bool" where
  "store_ok epochs \<longleftrightarrow> sorted (map as_effective_from epochs)"

lemma store_ok_Nil [simp]: "store_ok []"
  by (simp add: store_ok_def)

lemma store_ok_add [simp]: "store_ok (store_add s epochs)"
  by (simp add: store_ok_def store_add_def)

lemma set_store_add [simp]: "set (store_add s epochs) = insert s (set epochs)"
  by (auto simp: store_add_def)

lemma store_at_loop_spec:
  "store_at_loop tick c ss =
     (case takeWhile (\<lambda>s. as_effective_from s \<le> tick) ss of [] \<Rightarrow> c | xs \<Rightarrow> Some (last xs))"
  by (induction ss arbitrary: c) (auto split: list.splits)

lemma store_at_takeWhile:
  "store_at epochs tick =
     (let xs = takeWhile (\<lambda>s. as_effective_from s \<le> tick) epochs in if xs = [] then None else Some (last xs))"
  by (simp add: store_at_def store_at_loop_spec Let_def split: list.split)

lemma takeWhile_sorted_filter:
  "sorted (map f xs) \<Longrightarrow> takeWhile (\<lambda>x. f x \<le> (t :: int)) xs = filter (\<lambda>x. f x \<le> t) xs"
proof (induction xs)
  case (Cons a xs)
  then have "filter (\<lambda>x. f x \<le> t) xs = []" if "\<not> f a \<le> t"
    using that by (fastforce simp: filter_empty_conv)
  with Cons show ?case by simp
qed simp

text \<open>On an ordered store the loop with its early exit is the last epoch not after the tick.\<close>

lemma store_at_spec:
  assumes "store_ok epochs"
  shows "store_at epochs tick =
    (let xs = filter (\<lambda>s. as_effective_from s \<le> tick) epochs in if xs = [] then None else Some (last xs))"
  using assms by (simp add: store_at_takeWhile takeWhile_sorted_filter store_ok_def)

lemma store_at_None_iff:
  "store_ok epochs \<Longrightarrow> store_at epochs tick = None \<longleftrightarrow> (\<forall>s \<in> set epochs. tick < as_effective_from s)"
  by (auto simp: store_at_spec Let_def filter_empty_conv not_le)

lemma last_filter_max:
  "sorted (map f xs) \<Longrightarrow> filter P xs \<noteq> [] \<Longrightarrow> x \<in> set xs \<Longrightarrow> P x \<Longrightarrow> f x \<le> (f (last (filter P xs)) :: int)"
proof (induction xs)
  case (Cons a xs)
  show ?case
  proof (cases "filter P xs = []")
    case True
    with Cons.prems show ?thesis by (auto simp: filter_empty_conv split: if_splits)
  next
    case False
    then have "last (filter P xs) \<in> set xs" by (metis filter_is_subset last_in_set subsetD)
    with Cons False show ?thesis by (auto split: if_splits)
  qed
qed simp

lemma store_at_SomeD:
  assumes "store_ok epochs" "store_at epochs tick = Some s"
  shows "s \<in> set epochs" "as_effective_from s \<le> tick"
    "\<And>r. r \<in> set epochs \<Longrightarrow> as_effective_from r \<le> tick \<Longrightarrow> as_effective_from r \<le> as_effective_from s"
proof -
  let ?xs = "filter (\<lambda>s. as_effective_from s \<le> tick) epochs"
  from assms have ne: "?xs \<noteq> []" and s: "s = last ?xs"
    by (auto simp: store_at_spec Let_def split: if_splits)
  then have "s \<in> set ?xs" by (metis last_in_set)
  then show "s \<in> set epochs" "as_effective_from s \<le> tick" by auto
  show "as_effective_from r \<le> as_effective_from s"
    if "r \<in> set epochs" "as_effective_from r \<le> tick" for r
    using last_filter_max [of as_effective_from epochs _ r] assms(1) ne that
    unfolding s store_ok_def by blast
qed

text \<open>An epoch that starts after a tick does not change what was in force at that tick.\<close>

lemma filter_insort_key: 
  "\<not> P x \<Longrightarrow> filter P (insort_key f x xs) = filter P xs"
  by (induction xs) auto

lemma filter_sort_snoc:
  "sorted (map f xs) \<Longrightarrow> \<not> P x \<Longrightarrow> filter P (sort_key f (xs @ [x])) = filter P xs"
  for f :: "'a \<Rightarrow> int"
proof (induction xs)
  case (Cons a xs)
  then have "filter P (insort_key f a (sort_key f (xs @ [x]))) = filter P (a # xs)"
    if "\<forall>y \<in> set (filter P xs). f a \<le> f y"
  proof -
    have "filter P (sort_key f (xs @ [x])) = filter P xs" using Cons by simp
    moreover have "filter P (insort_key f a ys) = (if P a then insort_key f a (filter P ys) else filter P ys)"
      if "sorted (map f ys)" for ys
      using that by (simp add: filter_insort filter_insort_key)
    ultimately show ?thesis using that by (simp add: insort_is_Cons)
  qed
  with Cons.prems show ?case by simp
qed simp

lemma store_at_add_future:
  assumes "store_ok epochs" "tick < as_effective_from s"
  shows "store_at (store_add s epochs) tick = store_at epochs tick"
proof -
  have "filter (\<lambda>s. as_effective_from s \<le> tick) (store_add s epochs)
          = filter (\<lambda>s. as_effective_from s \<le> tick) epochs"
    using assms unfolding store_add_def store_ok_def by (intro filter_sort_snoc) auto
  then show ?thesis using assms(1) by (simp add: store_at_spec)
qed

subsection \<open>The interface of a lookup at a tick\<close>

text \<open>
  What the sink and the verifier use of the store: a lookup that returns an epoch in force and
  is not changed by epochs that start later. The history of a past commit can be judged again
  after the store has grown.
\<close>

locale epoch_lookup =
  fixes ok :: "'st \<Rightarrow> bool" and add :: "'e \<Rightarrow> 'st \<Rightarrow> 'st" and at_tick :: "'st \<Rightarrow> int \<Rightarrow> 'e option"
    and start :: "'e \<Rightarrow> int" and members :: "'st \<Rightarrow> 'e set"
  assumes ok_add: "ok st \<Longrightarrow> ok (add e st)"
    and in_force: "ok st \<Longrightarrow> at_tick st t = Some e \<Longrightarrow> e \<in> members st \<and> start e \<le> t"
    and latest: "ok st \<Longrightarrow> at_tick st t = Some e \<Longrightarrow> r \<in> members st \<Longrightarrow> start r \<le> t \<Longrightarrow> start r \<le> start e"
    and uncovered: "ok st \<Longrightarrow> at_tick st t = None \<Longrightarrow> r \<in> members st \<Longrightarrow> t < start r"
    and future: "ok st \<Longrightarrow> t < start e \<Longrightarrow> at_tick (add e st) t = at_tick st t"
begin

lemma ok_adds: "ok st \<Longrightarrow> ok (fold add es st)"
  by (induction es arbitrary: st) (auto intro: ok_add)

lemma future_adds: "ok st \<Longrightarrow> \<forall>e \<in> set es. t < start e \<Longrightarrow> at_tick (fold add es st) t = at_tick st t"
  by (induction es arbitrary: st) (simp_all add: future ok_add)

lemma start_mono:
  "ok st \<Longrightarrow> t \<le> t' \<Longrightarrow> at_tick st t = Some e \<Longrightarrow> at_tick st t' = Some e' \<Longrightarrow> start e \<le> start e'"
  using in_force latest by (meson order_trans)

lemma covered_later: "ok st \<Longrightarrow> t \<le> t' \<Longrightarrow> at_tick st t = Some e \<Longrightarrow> \<exists>e'. at_tick st t' = Some e'"
  using in_force uncovered by (metis not_le option.exhaust order_trans)

end

interpretation epochs: epoch_lookup store_ok store_add store_at as_effective_from set
proof unfold_locales
  fix st :: authority_store and t :: int and e r :: authority_state
  show "store_ok st \<Longrightarrow> store_ok (store_add e st)" by simp
  show "store_ok st \<Longrightarrow> store_at st t = Some e \<Longrightarrow> e \<in> set st \<and> as_effective_from e \<le> t"
    using store_at_SomeD by blast
  show "store_ok st \<Longrightarrow> store_at st t = Some e \<Longrightarrow> r \<in> set st \<Longrightarrow> as_effective_from r \<le> t
          \<Longrightarrow> as_effective_from r \<le> as_effective_from e"
    using store_at_SomeD(3) by blast
  show "store_ok st \<Longrightarrow> store_at st t = None \<Longrightarrow> r \<in> set st \<Longrightarrow> t < as_effective_from r"
    by (simp add: store_at_None_iff)
  show "store_ok st \<Longrightarrow> t < as_effective_from e \<Longrightarrow> store_at (store_add e st) t = store_at st t"
    by (rule store_at_add_future)
qed

subsection \<open>Delegation\<close>

record delegation_link =
  dl_delegator :: string
  dl_delegate :: string
  dl_scope :: "string list"

definition delegation_link_dict :: "delegation_link \<Rightarrow> json" where
  "delegation_link_dict l = JObj [
     (''delegator'', JStr (dl_delegator l)), (''delegate'', JStr (dl_delegate l)),
     (''scope'', JStrs (dl_scope l))]"

record delegation_chain =
  dc_root :: string
  dc_links :: "delegation_link list"

definition delegation_chain_dict :: "delegation_chain \<Rightarrow> json" where
  "delegation_chain_dict c = JObj [
     (''root'', JStr (dc_root c)), (''links'', JList (map delegation_link_dict (dc_links c)))]"

definition terminal_principal :: "delegation_chain \<Rightarrow> string" where
  "terminal_principal c = (if dc_links c \<noteq> [] then dl_delegate (last (dc_links c)) else dc_root c)"

text \<open>
  The loop over the links: the reason of the early return, or the scope held after the last
  link.
\<close>

fun delegation_loop ::
  "nat \<Rightarrow> string \<Rightarrow> string set option \<Rightarrow> delegation_link list \<Rightarrow> string + string set option" where
  "delegation_loop i expected held [] = Inr held"
| "delegation_loop i expected held (l # ls) =
     (if dl_delegator l \<noteq> expected then Inl (''DELEGATION_CHAIN_BROKEN_AT_LINK_'' @ str_of_nat i)
      else (let scope = set (dl_scope l) in
            if (case held of None \<Rightarrow> False | Some h \<Rightarrow> \<not> scope \<subseteq> h)
            then Inl (''DELEGATION_AMPLIFIED_AT_LINK_'' @ str_of_nat i)
            else delegation_loop (Suc i) (dl_delegate l) (Some scope) ls))"

definition validate_delegation :: "delegation_chain \<Rightarrow> string \<Rightarrow> string \<Rightarrow> bool \<times> string" where
  "validate_delegation chain acting required =
     (if dc_links chain = [] then
        (if dc_root chain \<noteq> acting then (False, ''DELEGATION_ROOT_IS_NOT_ACTING_PRINCIPAL'')
         else (True, ''NO_DELEGATION''))
      else (case delegation_loop 0 (dc_root chain) None (dc_links chain) of
              Inl reason \<Rightarrow> (False, reason)
            | Inr held \<Rightarrow>
                if terminal_principal chain \<noteq> acting
                then (False, ''DELEGATION_TERMINAL_IS_NOT_ACTING_PRINCIPAL'')
                else if (case held of None \<Rightarrow> True | Some h \<Rightarrow> required \<notin> h)
                then (False, ''DELEGATION_SCOPE_INSUFFICIENT'')
                else (True, ''DELEGATION_VALID'')))"

text \<open>What a valid chain is: it starts at the root, each link starts where the last one ended,
  and no link claims more than the one before it.\<close>

fun chain_from :: "string \<Rightarrow> delegation_link list \<Rightarrow> bool" where
  "chain_from p [] = True"
| "chain_from p (l # ls) = (dl_delegator l = p \<and> chain_from (dl_delegate l) ls)"

fun scopes_shrink :: "delegation_link list \<Rightarrow> bool" where
  "scopes_shrink (l # l' # ls) = (set (dl_scope l') \<subseteq> set (dl_scope l) \<and> scopes_shrink (l' # ls))"
| "scopes_shrink _ = True"

lemma delegation_loop_Inr_iff:
  "delegation_loop i p held ls = Inr r \<longleftrightarrow>
     chain_from p ls \<and> scopes_shrink ls
     \<and> (case (held, ls) of (Some h, l # _) \<Rightarrow> set (dl_scope l) \<subseteq> h | _ \<Rightarrow> True)
     \<and> r = (if ls = [] then held else Some (set (dl_scope (last ls))))"
proof (induction i p held ls rule: delegation_loop.induct)
  case (2 i expected held l ls)
  then show ?case by (cases ls) (auto simp: Let_def split: option.splits)
qed (auto split: option.splits)

lemma validate_delegation_iff:
  "fst (validate_delegation chain acting required) \<longleftrightarrow>
     (if dc_links chain = [] then dc_root chain = acting
      else chain_from (dc_root chain) (dc_links chain) \<and> scopes_shrink (dc_links chain)
           \<and> dl_delegate (last (dc_links chain)) = acting
           \<and> required \<in> set (dl_scope (last (dc_links chain))))"
proof (cases "dc_links chain = []")
  case False
  let ?ls = "dc_links chain"
  have iff: "delegation_loop 0 (dc_root chain) None ?ls = Inr r \<longleftrightarrow>
      chain_from (dc_root chain) ?ls \<and> scopes_shrink ?ls \<and> r = Some (set (dl_scope (last ?ls)))" for r
    using False by (simp add: delegation_loop_Inr_iff)
  show ?thesis
  proof (cases "delegation_loop 0 (dc_root chain) None ?ls")
    case (Inl e)
    with iff [of "Some (set (dl_scope (last ?ls)))"] False show ?thesis
      by (auto simp: validate_delegation_def)
  next
    case (Inr r)
    with iff [of r] False show ?thesis
      by (auto simp: validate_delegation_def terminal_principal_def)
  qed
qed (simp add: validate_delegation_def)

lemma scopes_shrink_last:
  "scopes_shrink ls \<Longrightarrow> l \<in> set ls \<Longrightarrow> set (dl_scope (last ls)) \<subseteq> set (dl_scope l)"
proof (induction ls arbitrary: l rule: scopes_shrink.induct)
  case (1 k k' ls)
  then have "set (dl_scope (last (k' # ls))) \<subseteq> set (dl_scope m)" if "m \<in> set (k' # ls)" for m
    using that by auto
  with 1 show ?case by fastforce
qed auto

subsection \<open>Properties\<close>

lemma sort_key_snoc_stable: "sort_key f (sort_key f xs @ [x]) = sort_key f (xs @ [x])"
proof (rule properties_for_sort_key)
  fix k
  have eq: "(\<lambda>y. f k = f y) = (\<lambda>y. f y = f k)" by (simp add: fun_eq_iff eq_commute)
  show "filter (\<lambda>y. f k = f y) (sort_key f (xs @ [x])) = filter (\<lambda>y. f k = f y) (sort_key f xs @ [x])"
    unfolding eq by (simp only: sort_key_stable filter_append)
qed simp_all

lemma fold_store_add: "fold store_add es (sort_key as_effective_from xs) = sort_key as_effective_from (xs @ es)"
proof (induction es arbitrary: xs)
  case (Cons e es)
  have "store_add e (sort_key as_effective_from xs) = sort_key as_effective_from (xs @ [e])"
    by (simp add: store_add_def sort_key_snoc_stable)
  with Cons [of "xs @ [e]"] show ?case by simp
qed simp

lemma sorted_last_max: "sorted (map f xs) \<Longrightarrow> x \<in> set xs \<Longrightarrow> f x \<le> f (last xs)"
  by (induction xs) auto

text \<open>The last element of an ordered list is the last of those with the greatest key.\<close>

lemma last_sorted_ties:
  "sorted (map f xs) \<Longrightarrow> xs \<noteq> [] \<Longrightarrow> last (filter (\<lambda>x. f x = f (last xs)) xs) = last xs"
  by (induction xs rule: rev_induct) auto

lemma last_sort_key:
  assumes "xs \<noteq> []"
  shows "last (sort_key f xs) = last (filter (\<lambda>x. f x = Max (f ` set xs)) xs)"
proof -
  let ?s = "sort_key f xs"
  have "f (last ?s) = Max (f ` set xs)"
  proof (rule Max_eqI [symmetric])
    show "f (last ?s) \<in> f ` set xs" using assms by (metis image_eqI last_in_set length_0_conv length_sort set_sort)
    show "y \<le> f (last ?s)" if "y \<in> f ` set xs" for y
      using that sorted_last_max [of f ?s] by auto
  qed simp
  moreover have "last (filter (\<lambda>x. f x = f (last ?s)) ?s) = last ?s"
    using assms by (intro last_sorted_ties) (simp_all, metis length_0_conv length_sort)
  ultimately show ?thesis by (simp add: sort_key_stable)
qed

text \<open>However a store was filled, looking up a tick returns the epoch in force: of the added
  epochs that start no later, one with the latest start, and the one added last among equals;
  nothing only when every epoch starts later.\<close>

theorem store_lookup_correct:
  "store_at (fold store_add es []) tick =
     (let begun = filter (\<lambda>e. as_effective_from e \<le> tick) es in
      if begun = [] then None
      else Some (last (filter (\<lambda>e. as_effective_from e = Max (as_effective_from ` set begun)) begun)))"
proof -
  let ?P = "\<lambda>e. as_effective_from e \<le> tick"
  have st: "fold store_add es [] = sort_key as_effective_from es"
    using fold_store_add [of es "[]"] by simp
  have "store_at (sort_key as_effective_from es) tick =
      (let xs = sort_key as_effective_from (filter ?P es) in if xs = [] then None else Some (last xs))"
    by (subst store_at_spec) (simp_all add: store_ok_def filter_sort)
  also have "\<dots> = (let begun = filter ?P es in if begun = [] then None
      else Some (last (filter (\<lambda>e. as_effective_from e = Max (as_effective_from ` set begun)) begun)))"
  proof (cases "filter ?P es = []")
    case False
    then have "sort_key as_effective_from (filter ?P es) \<noteq> []"
      by (metis length_0_conv length_sort)
    with False last_sort_key [OF False, of as_effective_from] show ?thesis by (simp only: Let_def if_False)
  qed simp
  finally show ?thesis by (simp only: st)
qed

text \<open>Authority history does not change under a growing store: once the store is ordered,
  adding any number of epochs that start after a tick leaves the lookup at that tick, and the
  order, as they were.\<close>

theorem authority_history_stable:
  assumes "store_ok st" "\<forall>e \<in> set es. tick < as_effective_from e"
  shows "store_ok (fold store_add es st) \<and> store_at (fold store_add es st) tick = store_at st tick"
  using assms epochs.ok_adds epochs.future_adds by blast

definition demo_epoch :: "int \<Rightarrow> int \<Rightarrow> authority_state" where
  "demo_epoch n t = \<lparr>as_epoch = n, as_effective_from = t, as_active = [''g''], as_revoked = [],
     as_superseded = []\<rparr>"

lemma authority_history_stable_witness:
  "store_at (fold store_add [demo_epoch 2 50, demo_epoch 3 20] [demo_epoch 1 0]) 10
     = store_at [demo_epoch 1 0] 10"
proof -
  have "store_ok [demo_epoch 1 0]" "\<forall>e \<in> set [demo_epoch 2 50, demo_epoch 3 20]. 10 < as_effective_from e"
    by (simp_all add: store_ok_def demo_epoch_def)
  from authority_history_stable [OF this] show ?thesis by blast
qed

text \<open>A delegation is accepted exactly when the acting principal is the root, with no link, or
  the chain starts at the root, joins up, ends at the acting principal, never widens a scope and
  still holds the required scope at its end.\<close>

theorem delegation_accepted_iff:
  "fst (validate_delegation chain acting required) \<longleftrightarrow>
     (if dc_links chain = [] then dc_root chain = acting
      else chain_from (dc_root chain) (dc_links chain) \<and> scopes_shrink (dc_links chain)
           \<and> dl_delegate (last (dc_links chain)) = acting
           \<and> required \<in> set (dl_scope (last (dc_links chain))))"
  by (rule validate_delegation_iff)

text \<open>C9: Delegation never amplifies: in an accepted chain every link, from the root down, held the
  scope that is used at the end.\<close>

theorem delegation_never_amplifies:
  assumes "fst (validate_delegation chain acting required)" "l \<in> set (dc_links chain)"
  shows "required \<in> set (dl_scope l)"
proof -
  from assms(2) have "dc_links chain \<noteq> []" by auto
  with assms(1) have "scopes_shrink (dc_links chain)" "required \<in> set (dl_scope (last (dc_links chain)))"
    by (simp_all add: validate_delegation_iff)
  with scopes_shrink_last [OF _ assms(2)] show ?thesis by blast
qed

definition demo_chain :: delegation_chain where
  "demo_chain = \<lparr>dc_root = ''cfo'', dc_links = [
     \<lparr>dl_delegator = ''cfo'', dl_delegate = ''controller'', dl_scope = [''view'', ''transfer'']\<rparr>,
     \<lparr>dl_delegator = ''controller'', dl_delegate = ''bot'', dl_scope = [''transfer'']\<rparr>]\<rparr>"

lemma delegation_never_amplifies_witness:
  "''transfer'' \<in> set (dl_scope (hd (dc_links demo_chain)))"
proof -
  have "fst (validate_delegation demo_chain ''bot'' ''transfer'')"
    by (simp add: validate_delegation_iff demo_chain_def)
  then show ?thesis
    by (rule delegation_never_amplifies) (simp add: demo_chain_def)
qed

end
