(* ===== verification/Action_Model.thy ===== *)
theory Action_Model
  imports Py_Json
begin

section \<open>Actions, commits and receipts\<close>

text \<open>
  \<open>oat/consequence/canonical.py\<close> (exact-action normalisation and digest) and
  \<open>oat/consequence/model.py\<close> (sinks, normalised actions, commit events, receipts and the
  sink's state).
\<close>

subsection \<open>Exact actions\<close>

type_synonym action = "(string \<times> json) list"

definition EXACT_ACTION_FIELDS :: "string list" where
  "EXACT_ACTION_FIELDS = [''action_type'', ''target'', ''parameters'', ''quantity'', ''unit'',
     ''principal_id'', ''sink_id'', ''tenant_id'', ''release_id'']"

definition normalize_action :: "action \<Rightarrow> action res" where
  "normalize_action action =
     (let missing = filter (\<lambda>f. dict_get action f = None) EXACT_ACTION_FIELDS in
      if missing \<noteq> [] then
        Inl (ActionNormalizationError
               (''missing exact-action fields: '' @ join '', '' (sort missing)))
      else Inr (map (\<lambda>f. (f, the (dict_get action f))) EXACT_ACTION_FIELDS))"

definition exact_action_digest :: "action \<Rightarrow> string res" where
  "exact_action_digest action = bindE (normalize_action action) (\<lambda>a. Inr (digest_object (JObj a)))"

lemma normalize_action_total_iff:
  "(\<exists>a. normalize_action action = Inr a) \<longleftrightarrow> (\<forall>f \<in> set EXACT_ACTION_FIELDS. dict_get action f \<noteq> None)"
  by (auto simp: normalize_action_def Let_def filter_empty_conv)

lemma dict_get_map_keys:
  "dict_get (map (\<lambda>f. (f, g f)) fs) k = (if k \<in> set fs then Some (g k) else None)"
  by (induction fs) auto

lemma normalize_action_get:
  assumes "normalize_action action = Inr a"
  shows "dict_get a k = (if k \<in> set EXACT_ACTION_FIELDS then dict_get action k else None)"
proof -
  from assms have all: "\<forall>f \<in> set EXACT_ACTION_FIELDS. dict_get action f \<noteq> None"
    and a: "a = map (\<lambda>f. (f, the (dict_get action f))) EXACT_ACTION_FIELDS"
    by (auto simp: normalize_action_def Let_def filter_empty_conv split: if_splits)
  show ?thesis unfolding a using all by (auto simp: dict_get_map_keys)
qed

lemma normalize_action_idem:
  "normalize_action action = Inr a \<Longrightarrow> normalize_action a = Inr a"
  by (auto simp: normalize_action_def Let_def filter_empty_conv dict_get_map_keys split: if_splits)

lemma exact_fields_canonical: "f \<in> set EXACT_ACTION_FIELDS \<Longrightarrow> f \<notin> set NONCANONICAL_KEYS"
  by (auto simp: EXACT_ACTION_FIELDS_def NONCANONICAL_KEYS_def)

subsection \<open>Sinks and normalised actions\<close>

definition NON_APPLICABLE :: string where
  "NON_APPLICABLE = ''NOT_APPLICABLE''"

record protected_sink =
  ps_sink_id :: string
  ps_description :: string

record normalized_action =
  na_action_type :: string
  na_target :: string
  na_parameters :: "(string \<times> json) list"
  na_quantity :: json
  na_unit :: string
  na_principal_id :: string
  na_sink_id :: string
  na_tenant_id :: string
  na_release_id :: string

definition normalized_action_dict :: "normalized_action \<Rightarrow> action res" where
  "normalized_action_dict a = normalize_action [
     (''action_type'', JStr (na_action_type a)), (''target'', JStr (na_target a)),
     (''parameters'', JObj (na_parameters a)), (''quantity'', na_quantity a),
     (''unit'', JStr (na_unit a)), (''principal_id'', JStr (na_principal_id a)),
     (''sink_id'', JStr (na_sink_id a)), (''tenant_id'', JStr (na_tenant_id a)),
     (''release_id'', JStr (na_release_id a))]"

definition normalized_action_digest :: "normalized_action \<Rightarrow> string res" where
  "normalized_action_digest a = bindE (normalized_action_dict a) exact_action_digest"

subsection \<open>Commits, receipts and the state of a sink\<close>

record commit_event =
  ce_commit_id :: string
  ce_sink_id :: string
  ce_route_id :: string
  ce_tenant_id :: string
  ce_principal_id :: string
  ce_agent_id :: string
  ce_release_id :: string
  ce_action_digest :: string
  ce_normalized_action :: action
  ce_committed_at :: int
  ce_authorization_ref :: "string option"
  ce_authority_state_ref :: "string option"
  ce_idempotency_key :: string
  ce_trace_ref :: string

definition commit_event_dict :: "commit_event \<Rightarrow> json" where
  "commit_event_dict c = JObj [
     (''commit_id'', JStr (ce_commit_id c)),
     (''sink_id'', JStr (ce_sink_id c)),
     (''route_id'', JStr (ce_route_id c)),
     (''tenant_id'', JStr (ce_tenant_id c)),
     (''principal_id'', JStr (ce_principal_id c)),
     (''agent_id'', JStr (ce_agent_id c)),
     (''release_id'', JStr (ce_release_id c)),
     (''action_digest'', JStr (ce_action_digest c)),
     (''normalized_action'', JObj (ce_normalized_action c)),
     (''committed_at'', JInt (ce_committed_at c)),
     (''authorization_ref'', JOptStr (ce_authorization_ref c)),
     (''authority_state_ref'', JOptStr (ce_authority_state_ref c)),
     (''idempotency_key'', JStr (ce_idempotency_key c)),
     (''trace_ref'', JStr (ce_trace_ref c))]"

definition protects :: "protected_sink \<Rightarrow> commit_event \<Rightarrow> bool" where
  "protects s c \<longleftrightarrow> ce_sink_id c = ps_sink_id s"

record consequence_receipt =
  cr_receipt_id :: string
  cr_commit_id :: string
  cr_sink_id :: string
  cr_route_id :: string
  cr_observed_at :: int
  cr_action_digest :: string
  cr_observer :: string

definition receipt_dict :: "consequence_receipt \<Rightarrow> json" where
  "receipt_dict r = JObj [
     (''receipt_id'', JStr (cr_receipt_id r)), (''commit_id'', JStr (cr_commit_id r)),
     (''sink_id'', JStr (cr_sink_id r)), (''route_id'', JStr (cr_route_id r)),
     (''observed_at'', JInt (cr_observed_at r)), (''action_digest'', JStr (cr_action_digest r)),
     (''observer'', JStr (cr_observer r))]"

record sink_state =
  ss_commits :: "commit_event list"
  ss_receipts :: "consequence_receipt list"

definition sink_state_dict :: "sink_state \<Rightarrow> json" where
  "sink_state_dict s = JObj [
     (''commits'', JList (map commit_event_dict (ss_commits s))),
     (''receipts'', JList (map receipt_dict (ss_receipts s)))]"

lemma normalized_action_dict_total: "\<exists>d. normalized_action_dict a = Inr d"
  unfolding normalized_action_dict_def normalize_action_total_iff
  by (simp add: EXACT_ACTION_FIELDS_def)

subsection \<open>Properties\<close>

text \<open>C7: An exact-action digest binds all nine fields: two complete actions with the same digest
  have canonically equal values in every exact-action field, or their encodings collide.\<close>

theorem exact_action_binding:
  assumes "exact_action_digest a = Inr d" "exact_action_digest b = Inr d"
  shows "(\<forall>f \<in> set EXACT_ACTION_FIELDS. \<exists>v w. dict_get a f = Some v \<and> dict_get b f = Some w
            \<and> canonical_form v = canonical_form w)
    \<or> (\<exists>x y. normalize_action a = Inr x \<and> normalize_action b = Inr y
            \<and> sha256_collision (canonical_bytes (JObj x)) (canonical_bytes (JObj y)))"
proof -
  from assms obtain x y where n: "normalize_action a = Inr x" "normalize_action b = Inr y"
    and d: "digest_object (JObj x) = digest_object (JObj y)"
    by (auto simp: exact_action_digest_def bindE_Inr_iff)
  have get: "dict_get x f = dict_get a f" "dict_get y f = dict_get b f"
    "dict_get a f \<noteq> None" "dict_get b f \<noteq> None"
    if "f \<in> set EXACT_ACTION_FIELDS" for f
    using n that normalize_action_total_iff [of a] normalize_action_total_iff [of b]
    by (auto simp: normalize_action_get [OF n(1)] normalize_action_get [OF n(2)])
  from obj_seal.seal_binds [OF d] show ?thesis
  proof
    assume "canonical_form (JObj x) = canonical_form (JObj y)"
    from canonical_form_field [OF this] get exact_fields_canonical show ?thesis
      by (intro disjI1) (fastforce simp: option.map_sel)
  qed (use n in blast)
qed

lemma exact_action_binding_witness:
  "let a = map (\<lambda>f. (f, JStr f)) EXACT_ACTION_FIELDS in
     exact_action_digest a = Inr (digest_object (JObj a))
     \<and> ((\<forall>f \<in> set EXACT_ACTION_FIELDS. \<exists>v w. dict_get a f = Some v \<and> dict_get a f = Some w
            \<and> canonical_form v = canonical_form w)
       \<or> (\<exists>x y. normalize_action a = Inr x \<and> normalize_action a = Inr y
            \<and> sha256_collision (canonical_bytes (JObj x)) (canonical_bytes (JObj y))))"
proof -
  let ?a = "map (\<lambda>f. (f, JStr f)) EXACT_ACTION_FIELDS"
  have d: "exact_action_digest ?a = Inr (digest_object (JObj ?a))"
    by (simp add: exact_action_digest_def normalize_action_def EXACT_ACTION_FIELDS_def)
  from exact_action_binding [OF d d] d show ?thesis by (simp only: Let_def simp_thms)
qed

text \<open>What the digest does not bind: the encoder drops a runtime key at any depth, so a runtime
  entry among the parameters of an action can change without changing its exact-action digest.\<close>

theorem runtime_parameter_not_bound:
  assumes "dict_get a ''parameters'' = Some (JObj ps)" "exact_action_digest a = Inr d"
  shows "exact_action_digest (dict_set ''parameters'' (JObj (dict_set ''runtime'' r ps)) a) = Inr d"
proof -
  let ?b = "dict_set ''parameters'' (JObj (dict_set ''runtime'' r ps)) a"
  let ?val = "\<lambda>a f. the (dict_get a f)"
  from assms(2) have total: "\<forall>f \<in> set EXACT_ACTION_FIELDS. dict_get a f \<noteq> None"
    using normalize_action_total_iff [of a] by (auto simp: exact_action_digest_def bindE_Inr_iff)
  have norm: "normalize_action c = Inr (map (\<lambda>f. (f, ?val c f)) EXACT_ACTION_FIELDS)"
    if "\<forall>f \<in> set EXACT_ACTION_FIELDS. dict_get c f \<noteq> None" for c
    using that by (auto simp: normalize_action_def Let_def filter_empty_conv)
  have s: "strip_noncanonical (?val ?b f) = strip_noncanonical (?val a f)" for f
  proof (cases "f = ''parameters''")
    case True
    have "strip_noncanonical (JObj (dict_set ''runtime'' r ps)) = strip_noncanonical (JObj ps)"
      by (simp only: strip_dict_set_runtime strip_filter_runtime)
    with True assms(1) show ?thesis by (simp only: dict_get_set option.sel refl if_True)
  qed (simp only: dict_get_set if_False)
  have "strip_noncanonical (JObj (map (\<lambda>f. (f, ?val ?b f)) fs))
      = strip_noncanonical (JObj (map (\<lambda>f. (f, ?val a f)) fs))" for fs
    by (induction fs) (simp_all add: s del: dict_get_set)
  moreover have "\<forall>f \<in> set EXACT_ACTION_FIELDS. dict_get ?b f \<noteq> None" using total by simp
  ultimately show ?thesis
    using assms(2) by (simp only: exact_action_digest_def norm [OF total] norm bindE_simps
        digest_object_def canonical_bytes_def)
qed

lemma runtime_parameter_not_bound_witness:
  "let a = dict_set ''parameters'' (JObj [(''memo'', JStr ''m'')]) (map (\<lambda>f. (f, JStr f)) EXACT_ACTION_FIELDS);
       b = dict_set ''parameters'' (JObj [(''memo'', JStr ''m''), (''runtime'', JInt 7)]) a
   in exact_action_digest b = exact_action_digest a \<and> a \<noteq> b"
proof -
  let ?a = "dict_set ''parameters'' (JObj [(''memo'', JStr ''m'')]) (map (\<lambda>f. (f, JStr f)) EXACT_ACTION_FIELDS)"
  let ?b = "dict_set ''parameters'' (JObj [(''memo'', JStr ''m''), (''runtime'', JInt 7)]) ?a"
  have p: "dict_get ?a ''parameters'' = Some (JObj [(''memo'', JStr ''m'')])" by simp
  obtain d where d: "exact_action_digest ?a = Inr d"
    by (simp add: exact_action_digest_def normalize_action_def EXACT_ACTION_FIELDS_def dict_set_def)
  have "exact_action_digest ?b = Inr d"
    using runtime_parameter_not_bound [OF p d, of "JInt 7"] by (simp add: dict_set_def [of "''runtime''"])
  moreover have "dict_get ?a ''parameters'' \<noteq> dict_get ?b ''parameters''" by simp
  ultimately show ?thesis using d by (simp only: Let_def) metis
qed

end
