(* ===== verification/Authorization.thy ===== *)
theory Authorization
  imports Authority Action_Model
begin

section \<open>Authorizations and the ValidAuthorization relation\<close>

text \<open>
  \<open>oat/authority/authorization.py\<close>: the authorization artifact, the issuer that signs it
  and counts its uses, and \<open>validate_authorization\<close>, which reports every binding dimension
  separately. Fields the dataclasses declare as strings are strings; where the code passes
  \<open>None\<close> for missing evidence the model has an option. \<open>hmac.compare_digest\<close> is
  equality: it raises on non-ASCII text, which no integrity value made by \<open>sign\<close> contains.
\<close>

subsection \<open>Reports\<close>

datatype outcome = BOUND | MISMATCH | UNDETERMINED | DECLARED_NON_APPLICABLE

definition outcome_str :: "outcome \<Rightarrow> string" where
  "outcome_str x = (case x of BOUND \<Rightarrow> ''BOUND'' | MISMATCH \<Rightarrow> ''MISMATCH''
     | UNDETERMINED \<Rightarrow> ''UNDETERMINED'' | DECLARED_NON_APPLICABLE \<Rightarrow> ''DECLARED_NON_APPLICABLE'')"

record dimension_result =
  dr_dimension :: string
  dr_outcome :: outcome
  dr_detail :: string

definition dim :: "string \<Rightarrow> outcome \<Rightarrow> string \<Rightarrow> dimension_result" where
  "dim d x detail = \<lparr>dr_dimension = d, dr_outcome = x, dr_detail = detail\<rparr>"

definition dimension_result_dict :: "dimension_result \<Rightarrow> json" where
  "dimension_result_dict r = JObj [(''dimension'', JStr (dr_dimension r)),
     (''outcome'', JStr (outcome_str (dr_outcome r))), (''detail'', JStr (dr_detail r))]"

type_synonym validation_report = "dimension_result list"

definition report_dict :: "validation_report \<Rightarrow> json" where
  "report_dict rs = JObj [(''dimensions'', JList (map dimension_result_dict rs))]"

definition mismatches :: "validation_report \<Rightarrow> dimension_result list" where
  "mismatches rs = filter (\<lambda>r. dr_outcome r = MISMATCH) rs"

definition undetermined :: "validation_report \<Rightarrow> dimension_result list" where
  "undetermined rs = filter (\<lambda>r. dr_outcome r = UNDETERMINED) rs"

definition report_valid :: "validation_report \<Rightarrow> bool" where
  "report_valid rs \<longleftrightarrow> mismatches rs = [] \<and> undetermined rs = []"

lemma dim_simps [simp]:
  "dr_dimension (dim d x t) = d" "dr_outcome (dim d x t) = x" "dr_detail (dim d x t) = t"
  by (simp_all add: dim_def)

lemma report_valid_iff:
  "report_valid rs \<longleftrightarrow> (\<forall>r \<in> set rs. dr_outcome r = BOUND \<or> dr_outcome r = DECLARED_NON_APPLICABLE)"
proof -
  have "(x \<noteq> MISMATCH \<and> x \<noteq> UNDETERMINED) = (x = BOUND \<or> x = DECLARED_NON_APPLICABLE)" for x
    by (cases x) auto
  then show ?thesis
    by (auto simp: report_valid_def mismatches_def undetermined_def filter_empty_conv)
qed

subsection \<open>The artifact\<close>

record authorization =
  au_authorization_id :: string
  au_grant_id :: string
  au_decision :: string
  au_tenant_id :: string
  au_principal_id :: string
  au_agent_id :: string
  au_release_id :: string
  au_action_digest :: string
  au_sink_id :: string
  au_scope :: string
  au_authority_state_digest :: string
  au_not_before :: int
  au_not_after :: int
  au_idempotency_key :: string
  au_max_uses :: int
  au_delegation :: "delegation_chain option"
  au_integrity :: string

definition authorization_payload :: "authorization \<Rightarrow> (string \<times> json) list" where
  "authorization_payload a = [
     (''authorization_id'', JStr (au_authorization_id a)),
     (''grant_id'', JStr (au_grant_id a)),
     (''decision'', JStr (au_decision a)),
     (''tenant_id'', JStr (au_tenant_id a)),
     (''principal_id'', JStr (au_principal_id a)),
     (''agent_id'', JStr (au_agent_id a)),
     (''release_id'', JStr (au_release_id a)),
     (''action_digest'', JStr (au_action_digest a)),
     (''sink_id'', JStr (au_sink_id a)),
     (''scope'', JStr (au_scope a)),
     (''authority_state_digest'', JStr (au_authority_state_digest a)),
     (''not_before'', JInt (au_not_before a)),
     (''not_after'', JInt (au_not_after a)),
     (''idempotency_key'', JStr (au_idempotency_key a)),
     (''max_uses'', JInt (au_max_uses a)),
     (''delegation'', case au_delegation a of None \<Rightarrow> JStr NON_APPLICABLE
                        | Some c \<Rightarrow> delegation_chain_dict c)]"

definition authorization_dict :: "authorization \<Rightarrow> json" where
  "authorization_dict a =
     JObj (dict_set ''integrity'' (JStr (au_integrity a)) (authorization_payload a))"

definition authorization_digest :: "authorization \<Rightarrow> string" where
  "authorization_digest a = digest_object (authorization_dict a)"

definition token_digest :: "authorization \<Rightarrow> string" where
  "token_digest a = authorization_digest a"

subsection \<open>The issuer\<close>

record issuer =
  is_secret :: string
  is_uses :: "(string, int) dict"

definition new_issuer :: "string \<Rightarrow> issuer" where
  "new_issuer secret = \<lparr>is_secret = secret, is_uses = []\<rparr>"

definition authorization_mac :: "issuer \<Rightarrow> authorization \<Rightarrow> string" where
  "authorization_mac i a =
     ''hmac-sha256:'' @ hmac_sha256_hex (is_secret i) (digest_object (JObj (authorization_payload a)))"

definition sign :: "issuer \<Rightarrow> authorization \<Rightarrow> authorization" where
  "sign i a = a\<lparr>au_integrity := authorization_mac i a\<rparr>"

definition verify_integrity :: "issuer \<Rightarrow> authorization \<Rightarrow> bool" where
  "verify_integrity i a \<longleftrightarrow> authorization_mac i a = au_integrity a"

definition use_count :: "issuer \<Rightarrow> string \<Rightarrow> int" where
  "use_count i k = (case dict_get (is_uses i) k of None \<Rightarrow> 0 | Some n \<Rightarrow> n)"

definition record_use :: "issuer \<Rightarrow> string \<Rightarrow> issuer \<times> int" where
  "record_use i k =
     (let i' = i\<lparr>is_uses := dict_set k (use_count i k + 1) (is_uses i)\<rparr> in (i', use_count i' k))"

lemma payload_integrity [simp]: "authorization_payload (a\<lparr>au_integrity := m\<rparr>) = authorization_payload a"
  by (simp add: authorization_payload_def)

lemma verify_sign [simp]: "verify_integrity i (sign i a)"
  by (simp add: verify_integrity_def sign_def authorization_mac_def)

lemma record_use_simps [simp]:
  "is_secret (fst (record_use i k)) = is_secret i"
  "use_count (fst (record_use i k)) k' = (if k' = k then use_count i k + 1 else use_count i k')"
  "snd (record_use i k) = use_count i k + 1"
  by (simp_all add: record_use_def use_count_def Let_def)

lemma authorization_mac_secret: "is_secret i = is_secret j \<Longrightarrow> authorization_mac i = authorization_mac j"
  by (simp add: authorization_mac_def fun_eq_iff)

lemma verify_integrity_record_use [simp]:
  "verify_integrity (fst (record_use i k)) = verify_integrity i"
  by (simp add: verify_integrity_def fun_eq_iff authorization_mac_def)

subsection \<open>ValidAuthorization\<close>

definition cmp_dim :: "string \<Rightarrow> string option \<Rightarrow> string option \<Rightarrow> dimension_result" where
  "cmp_dim d expected actual =
     (if expected = Some NON_APPLICABLE then dim d DECLARED_NON_APPLICABLE ''declared inapplicable''
      else (case (expected, actual) of
              (Some e, Some v) \<Rightarrow>
                if e = v then dim d BOUND []
                else dim d MISMATCH (''expected '' @ repr_str e @ '', observed '' @ repr_str v)
            | _ \<Rightarrow> dim d UNDETERMINED ''value missing from evidence''))"

definition integrity_dim :: "issuer option \<Rightarrow> authorization \<Rightarrow> dimension_result" where
  "integrity_dim iss a =
     (case iss of
        None \<Rightarrow> dim ''authorization_integrity'' UNDETERMINED ''no issuer to verify with''
      | Some i \<Rightarrow> if verify_integrity i a then dim ''authorization_integrity'' BOUND []
                  else dim ''authorization_integrity'' MISMATCH ''integrity check failed'')"

definition interval_dim :: "authorization \<Rightarrow> commit_event \<Rightarrow> dimension_result" where
  "interval_dim a c =
     (if ce_committed_at c < au_not_before a
      then dim ''validity_interval'' MISMATCH ''commit before not_before''
      else if ce_committed_at c > au_not_after a
      then dim ''validity_interval'' MISMATCH ''commit after not_after''
      else dim ''validity_interval'' BOUND [])"

definition authority_dims :: "authority_state option \<Rightarrow> authorization \<Rightarrow> dimension_result list" where
  "authority_dims st a =
     (case st of
        None \<Rightarrow> [dim ''authority_state_at_commit'' UNDETERMINED ''no authority state for commit tick'',
                 dim ''revocation_state'' UNDETERMINED ''authority state unavailable'']
      | Some s \<Rightarrow>
          [cmp_dim ''authority_state_at_commit'' (Some (au_authority_state_digest a))
             (Some (authority_state_digest s)),
           (let status = status_of s (au_grant_id a) in
            if status = ''ACTIVE'' then dim ''revocation_state'' BOUND []
            else dim ''revocation_state'' MISMATCH (''grant is '' @ status))])"

definition delegation_dims :: "authorization \<Rightarrow> commit_event \<Rightarrow> dimension_result list" where
  "delegation_dims a c =
     (case au_delegation a of
        None \<Rightarrow> [dim ''delegation_chain'' DECLARED_NON_APPLICABLE ''no delegation in force'',
                 dim ''non_amplification'' DECLARED_NON_APPLICABLE ''no delegation in force'']
      | Some chain \<Rightarrow>
          (case validate_delegation chain (ce_principal_id c) (au_scope a) of
             (ok, reason) \<Rightarrow>
               [if ok then dim ''delegation_chain'' BOUND []
                else dim ''delegation_chain'' MISMATCH reason,
                if starts_with reason ''DELEGATION_AMPLIFIED''
                then dim ''non_amplification'' MISMATCH reason
                else dim ''non_amplification'' BOUND []]))"

definition use_dim :: "int option \<Rightarrow> authorization \<Rightarrow> dimension_result" where
  "use_dim prior a =
     (case prior of
        None \<Rightarrow> dim ''authorization_use_count'' UNDETERMINED ''use count not recorded''
      | Some n \<Rightarrow>
          if n > au_max_uses a
          then dim ''authorization_use_count'' MISMATCH
                 (''used '' @ str_of_int n @ '' times, max '' @ str_of_int (au_max_uses a))
          else dim ''authorization_use_count'' BOUND [])"

definition correlation_dim :: "string option \<Rightarrow> authorization \<Rightarrow> dimension_result" where
  "correlation_dim token a =
     (case token of
        None \<Rightarrow> dim ''commit_authorization_correlation'' UNDETERMINED ''no correlation telemetry''
      | Some t \<Rightarrow> cmp_dim ''commit_authorization_correlation'' (Some (authorization_digest a)) (Some t))"

definition validate_authorization ::
  "authorization option \<Rightarrow> commit_event \<Rightarrow> authority_state option \<Rightarrow> issuer option
     \<Rightarrow> int option \<Rightarrow> string option \<Rightarrow> validation_report" where
  "validate_authorization authorization c at_commit iss prior token =
     (case authorization of
        None \<Rightarrow> [dim ''authorization_present'' MISMATCH ''no authorization artifact'']
      | Some a \<Rightarrow>
          [if au_decision a = ''ALLOW'' then dim ''positive_decision'' BOUND []
           else dim ''positive_decision'' MISMATCH (''decision is '' @ repr_str (au_decision a)),
           cmp_dim ''tenant'' (Some (au_tenant_id a)) (Some (ce_tenant_id c)),
           cmp_dim ''principal'' (Some (au_principal_id a)) (Some (ce_principal_id c)),
           cmp_dim ''agent_identity'' (Some (au_agent_id a)) (Some (ce_agent_id c)),
           cmp_dim ''release_identity'' (Some (au_release_id a)) (Some (ce_release_id c)),
           cmp_dim ''exact_action_digest'' (Some (au_action_digest a)) (Some (ce_action_digest c)),
           cmp_dim ''protected_sink'' (Some (au_sink_id a)) (Some (ce_sink_id c)),
           cmp_dim ''idempotency_binding'' (Some (au_idempotency_key a)) (Some (ce_idempotency_key c)),
           if au_scope a \<noteq> [] then dim ''normalized_action_scope'' BOUND []
           else dim ''normalized_action_scope'' UNDETERMINED ''no scope recorded'',
           integrity_dim iss a,
           interval_dim a c]
          @ authority_dims at_commit a
          @ delegation_dims a c
          @ [use_dim prior a, correlation_dim token a])"

subsection \<open>The abstract relation\<close>

text \<open>
  What the report decides, as one conjunction: a field is bound when it equals the observed
  value or is declared inapplicable in the authorization.
\<close>

definition bound_to :: "string \<Rightarrow> string \<Rightarrow> bool" where
  "bound_to e v \<longleftrightarrow> e = NON_APPLICABLE \<or> e = v"

definition authorizes ::
  "authorization \<Rightarrow> commit_event \<Rightarrow> authority_state \<Rightarrow> issuer \<Rightarrow> int \<Rightarrow> string \<Rightarrow> bool" where
  "authorizes a c s i uses token \<longleftrightarrow>
     au_decision a = ''ALLOW''
     \<and> bound_to (au_tenant_id a) (ce_tenant_id c)
     \<and> bound_to (au_principal_id a) (ce_principal_id c)
     \<and> bound_to (au_agent_id a) (ce_agent_id c)
     \<and> bound_to (au_release_id a) (ce_release_id c)
     \<and> bound_to (au_action_digest a) (ce_action_digest c)
     \<and> bound_to (au_sink_id a) (ce_sink_id c)
     \<and> bound_to (au_idempotency_key a) (ce_idempotency_key c)
     \<and> au_scope a \<noteq> []
     \<and> verify_integrity i a
     \<and> au_not_before a \<le> ce_committed_at c \<and> ce_committed_at c \<le> au_not_after a
     \<and> bound_to (au_authority_state_digest a) (authority_state_digest s)
     \<and> status_of s (au_grant_id a) = ''ACTIVE''
     \<and> (case au_delegation a of None \<Rightarrow> True
         | Some chain \<Rightarrow> fst (validate_delegation chain (ce_principal_id c) (au_scope a)))
     \<and> uses \<le> au_max_uses a
     \<and> token = authorization_digest a"

definition good :: "dimension_result \<Rightarrow> bool" where
  "good r \<longleftrightarrow> dr_outcome r = BOUND \<or> dr_outcome r = DECLARED_NON_APPLICABLE"

lemma good_dim [simp]: "good (dim d x t) \<longleftrightarrow> x = BOUND \<or> x = DECLARED_NON_APPLICABLE"
  by (simp add: good_def)

lemma report_valid_good: "report_valid rs \<longleftrightarrow> list_all good rs"
  by (simp add: report_valid_iff list_all_iff good_def)

lemma good_cmp [simp]: "good (cmp_dim d (Some e) (Some v)) \<longleftrightarrow> bound_to e v"
  by (simp add: cmp_dim_def bound_to_def)

lemma good_integrity: "good (integrity_dim iss a) \<longleftrightarrow> (\<exists>i. iss = Some i \<and> verify_integrity i a)"
  by (simp add: integrity_dim_def split: option.split)

lemma good_interval:
  "good (interval_dim a c) \<longleftrightarrow> au_not_before a \<le> ce_committed_at c \<and> ce_committed_at c \<le> au_not_after a"
  by (auto simp: interval_dim_def)

lemma good_authority:
  "list_all good (authority_dims st a) \<longleftrightarrow>
     (\<exists>s. st = Some s \<and> bound_to (au_authority_state_digest a) (authority_state_digest s)
          \<and> status_of s (au_grant_id a) = ''ACTIVE'')"
  by (auto simp: authority_dims_def Let_def split: option.split)

lemma not_amplified_if_valid:
  "validate_delegation chain p sc = (True, reason) \<Longrightarrow> \<not> starts_with reason ''DELEGATION_AMPLIFIED''"
  by (auto simp: validate_delegation_def starts_with_def split: if_splits sum.splits option.splits)

lemma good_delegation:
  "list_all good (delegation_dims a c) \<longleftrightarrow>
     (case au_delegation a of None \<Rightarrow> True
      | Some chain \<Rightarrow> fst (validate_delegation chain (ce_principal_id c) (au_scope a)))"
  using not_amplified_if_valid
  by (auto simp: delegation_dims_def split: option.split prod.split)

lemma good_use: "good (use_dim prior a) \<longleftrightarrow> (\<exists>n. prior = Some n \<and> n \<le> au_max_uses a)"
  by (auto simp: use_dim_def split: option.split)

lemma digest_not_marker [simp]: "digest_object v \<noteq> NON_APPLICABLE" "NON_APPLICABLE \<noteq> digest_object v"
proof -
  have "length NON_APPLICABLE \<noteq> 71" by (simp add: NON_APPLICABLE_def)
  then show "digest_object v \<noteq> NON_APPLICABLE" "NON_APPLICABLE \<noteq> digest_object v"
    using length_digest(1) by metis+
qed

lemma good_correlation: "good (correlation_dim token a) \<longleftrightarrow> token = Some (authorization_digest a)"
  by (auto simp: correlation_dim_def bound_to_def authorization_digest_def split: option.split)

lemmas good_simps = good_integrity good_interval good_authority good_delegation good_use good_correlation

lemma report_valid_authorizes:
  "report_valid (validate_authorization (Some a) c st iss prior token) \<longleftrightarrow>
     (\<exists>s i n t. st = Some s \<and> iss = Some i \<and> prior = Some n \<and> token = Some t
        \<and> authorizes a c s i n t)"
  unfolding report_valid_good validate_authorization_def authorizes_def
  by (simp add: good_simps) blast

lemma report_valid_present:
  "report_valid (validate_authorization au c st iss prior token) \<Longrightarrow> \<exists>a. au = Some a"
  by (cases au) (auto simp: validate_authorization_def report_valid_good)

text \<open>Missing evidence only ever weakens the report of a presented authorization.\<close>

lemma missing_evidence_never_valid:
  "st = None \<or> iss = None \<or> prior = None \<or> token = None
     \<Longrightarrow> \<not> report_valid (validate_authorization au c st iss prior token)"
  using report_valid_present report_valid_authorizes by blast

text \<open>Every presented authorization is judged on the same seventeen dimensions, in this order.\<close>

definition DIMENSIONS :: "string list" where
  "DIMENSIONS = [''positive_decision'', ''tenant'', ''principal'', ''agent_identity'',
     ''release_identity'', ''exact_action_digest'', ''protected_sink'', ''idempotency_binding'',
     ''normalized_action_scope'', ''authorization_integrity'', ''validity_interval'',
     ''authority_state_at_commit'', ''revocation_state'', ''delegation_chain'',
     ''non_amplification'', ''authorization_use_count'', ''commit_authorization_correlation'']"

lemma cmp_dim_dimension [simp]: "dr_dimension (cmp_dim d e v) = d"
  by (simp add: cmp_dim_def split: option.split)

lemma validate_dimensions:
  "map dr_dimension (validate_authorization (Some a) c st iss prior token) = DIMENSIONS"
  by (simp add: validate_authorization_def integrity_dim_def interval_dim_def authority_dims_def
      delegation_dims_def use_dim_def correlation_dim_def DIMENSIONS_def Let_def
      split: option.split prod.split)

subsection \<open>What a signature binds\<close>

lemma canonical_form_JStrs [simp]: "canonical_form (JStrs xs) = JStrs xs"
  by (simp add: JStrs_def canonical_form_JList comp_def)

lemma canonical_link_inject:
  assumes "canonical_form (delegation_link_dict l) = canonical_form (delegation_link_dict m)"
  shows "l = (m :: delegation_link)"
  using canonical_form_field [of _ _ "''delegator''", OF assms [unfolded delegation_link_dict_def]]
    canonical_form_field [of _ _ "''delegate''", OF assms [unfolded delegation_link_dict_def]]
    canonical_form_field [of _ _ "''scope''", OF assms [unfolded delegation_link_dict_def]]
  by (simp add: NONCANONICAL_KEYS_def)

lemma map_inject_on:
  "map f xs = map f ys \<Longrightarrow> (\<And>x y. f x = f y \<Longrightarrow> x = y) \<Longrightarrow> xs = ys"
  by (metis injI inj_map_eq_map)

lemma canonical_chain_inject:
  assumes "canonical_form (delegation_chain_dict c) = canonical_form (delegation_chain_dict d)"
  shows "c = (d :: delegation_chain)"
proof -
  note f = assms [unfolded delegation_chain_dict_def]
  have "dc_root c = dc_root d"
    using canonical_form_field [OF f, of "''root''"] by (simp add: NONCANONICAL_KEYS_def)
  moreover have "map (\<lambda>l. canonical_form (delegation_link_dict l)) (dc_links c)
      = map (\<lambda>l. canonical_form (delegation_link_dict l)) (dc_links d)"
    using canonical_form_field [OF f, of "''links''"]
    by (simp add: NONCANONICAL_KEYS_def canonical_form_JList comp_def)
  then have "dc_links c = dc_links d"
    by (rule map_inject_on) (rule canonical_link_inject)
  ultimately show ?thesis by simp
qed

lemma payload_field:
  assumes "canonical_form (JObj (authorization_payload a)) = canonical_form (JObj (authorization_payload b))"
    and "k \<noteq> ''runtime''"
  shows "map_option canonical_form (dict_get (authorization_payload a) k)
    = map_option canonical_form (dict_get (authorization_payload b) k)"
  using canonical_form_field [OF assms(1)] assms(2) by (simp add: NONCANONICAL_KEYS_def)

lemma payload_inject:
  assumes "canonical_form (JObj (authorization_payload a)) = canonical_form (JObj (authorization_payload b))"
  shows "a\<lparr>au_integrity := m\<rparr> = b\<lparr>au_integrity := m\<rparr>"
proof -
  note f = payload_field [OF assms]
  have "au_authorization_id a = au_authorization_id b" "au_grant_id a = au_grant_id b"
    using f [of "''authorization_id''"] f [of "''grant_id''"] by (simp_all add: authorization_payload_def)
  moreover have "au_decision a = au_decision b" "au_tenant_id a = au_tenant_id b"
    using f [of "''decision''"] f [of "''tenant_id''"] by (simp_all add: authorization_payload_def)
  moreover have "au_principal_id a = au_principal_id b" "au_agent_id a = au_agent_id b"
    using f [of "''principal_id''"] f [of "''agent_id''"] by (simp_all add: authorization_payload_def)
  moreover have "au_release_id a = au_release_id b" "au_action_digest a = au_action_digest b"
    using f [of "''release_id''"] f [of "''action_digest''"] by (simp_all add: authorization_payload_def)
  moreover have "au_sink_id a = au_sink_id b" "au_scope a = au_scope b"
    using f [of "''sink_id''"] f [of "''scope''"] by (simp_all add: authorization_payload_def)
  moreover have "au_authority_state_digest a = au_authority_state_digest b" "au_not_before a = au_not_before b"
    using f [of "''authority_state_digest''"] f [of "''not_before''"]
    by (simp_all add: authorization_payload_def)
  moreover have "au_not_after a = au_not_after b" "au_idempotency_key a = au_idempotency_key b"
    using f [of "''not_after''"] f [of "''idempotency_key''"] by (simp_all add: authorization_payload_def)
  moreover have "au_max_uses a = au_max_uses b"
    using f [of "''max_uses''"] by (simp add: authorization_payload_def)
  moreover have "au_delegation a = au_delegation b"
  proof -
    have kind: "canonical_form (delegation_chain_dict c) \<noteq> JStr s" for c s
      by (simp add: delegation_chain_dict_def canonical_form_def nf_JObj)
    show ?thesis
      using f [of "''delegation''"] kind
      by (auto simp: authorization_payload_def intro: canonical_chain_inject split: option.splits)
        (metis kind)+
  qed
  ultimately show ?thesis by (simp add: authorization.equality)
qed

definition hmac_collision :: "string \<Rightarrow> string \<Rightarrow> string \<Rightarrow> bool" where
  "hmac_collision key x y \<longleftrightarrow> x \<noteq> y \<and> hmac_sha256_hex key x = hmac_sha256_hex key y"

lemma signature_transplant:
  assumes "verify_integrity i (b\<lparr>au_integrity := au_integrity (sign i a)\<rparr>)"
  shows "b\<lparr>au_integrity := au_integrity (sign i a)\<rparr> = sign i a
    \<or> sha256_collision (canonical_bytes (JObj (authorization_payload a)))
        (canonical_bytes (JObj (authorization_payload b)))
    \<or> hmac_collision (is_secret i) (digest_object (JObj (authorization_payload a)))
        (digest_object (JObj (authorization_payload b)))"
proof -
  let ?p = "\<lambda>a. JObj (authorization_payload a)"
  from assms have "hmac_sha256_hex (is_secret i) (digest_object (?p a))
      = hmac_sha256_hex (is_secret i) (digest_object (?p b))"
    by (simp add: verify_integrity_def sign_def authorization_mac_def)
  then consider "digest_object (?p a) = digest_object (?p b)"
    | "hmac_collision (is_secret i) (digest_object (?p a)) (digest_object (?p b))"
    by (auto simp: hmac_collision_def)
  then show ?thesis
  proof cases
    case 1
    from obj_seal.seal_binds [OF this] payload_inject [of a b "authorization_mac i a"]
    show ?thesis by (auto simp: sign_def)
  qed simp
qed

subsection \<open>Properties\<close>

text \<open>C6: A presented authorization is reported valid exactly when all of the evidence is there and
  it authorizes the commit: a positive decision, every identity field bound, an intact signature,
  the tick inside the interval, the epoch in force the recorded one with the grant active, a
  delegation that holds, uses within the limit and the correlated token its own digest.\<close>

theorem valid_authorization_iff:
  "report_valid (validate_authorization au c st iss prior token) \<longleftrightarrow>
     (\<exists>a s i n t. au = Some a \<and> st = Some s \<and> iss = Some i \<and> prior = Some n \<and> token = Some t
        \<and> authorizes a c s i n t)"
proof (cases au)
  case None
  then show ?thesis using report_valid_present [of None c st iss prior token] by auto
qed (simp add: report_valid_authorizes)

text \<open>A report on a presented authorization covers the seventeen binding dimensions, each once
  and in a fixed order, whatever the evidence; only a missing artifact is reported on its own.\<close>

theorem report_covers_dimensions:
  "map dr_dimension (validate_authorization au c st iss prior token) =
     (case au of None \<Rightarrow> [''authorization_present''] | Some _ \<Rightarrow> DIMENSIONS)
   \<and> distinct DIMENSIONS \<and> length DIMENSIONS = 17"
proof (intro conjI)
  show "map dr_dimension (validate_authorization au c st iss prior token) =
     (case au of None \<Rightarrow> [''authorization_present''] | Some _ \<Rightarrow> DIMENSIONS)"
    by (cases au) (simp add: validate_authorization_def, simp only: validate_dimensions option.case)
  show "distinct DIMENSIONS" by (simp add: DIMENSIONS_def)
  show "length DIMENSIONS = 17" by (simp add: DIMENSIONS_def)
qed

text \<open>A signature cannot be moved: an artifact that verifies under the integrity value made for
  another one is that other one, or its payload collides with it under SHA-256 or under the
  keyed digest.\<close>

theorem signature_binds_artifact:
  assumes "verify_integrity i b" "au_integrity b = au_integrity (sign i a)"
  shows "b = sign i a
    \<or> sha256_collision (canonical_bytes (JObj (authorization_payload a)))
        (canonical_bytes (JObj (authorization_payload b)))
    \<or> hmac_collision (is_secret i) (digest_object (JObj (authorization_payload a)))
        (digest_object (JObj (authorization_payload b)))"
proof -
  have b: "b\<lparr>au_integrity := au_integrity (sign i a)\<rparr> = b" by (simp flip: assms(2))
  show ?thesis using signature_transplant [where i = i and a = a and b = b] assms(1) unfolding b by blast
qed

definition demo_authorization :: authorization where
  "demo_authorization = \<lparr>au_authorization_id = ''a1'', au_grant_id = ''g'', au_decision = ''ALLOW'',
     au_tenant_id = ''t'', au_principal_id = ''p'', au_agent_id = ''ag'', au_release_id = ''r'',
     au_action_digest = ''d'', au_sink_id = ''s'', au_scope = ''pay'', au_authority_state_digest = ''e'',
     au_not_before = 0, au_not_after = 9, au_idempotency_key = ''k'', au_max_uses = 1,
     au_delegation = None, au_integrity = []\<rparr>"

lemma signature_binds_artifact_witness:
  "let i = new_issuer ''secret''; a = demo_authorization; b = sign i a in
     verify_integrity i b
     \<and> (b = sign i a
    \<or> sha256_collision (canonical_bytes (JObj (authorization_payload a)))
        (canonical_bytes (JObj (authorization_payload b)))
    \<or> hmac_collision (is_secret i) (digest_object (JObj (authorization_payload a)))
        (digest_object (JObj (authorization_payload b))))"
  using signature_binds_artifact [OF verify_sign [of "new_issuer ''secret''" demo_authorization] refl]
  by simp

end
