(* ===== verification/Commit_Gate.thy ===== *)
theory Commit_Gate
  imports Action_Model
begin

section \<open>The interface of a commit gate\<close>

text \<open>
  Two components of the program put a ledger behind an interlock: the in-memory payment sink
  (\<open>PaymentLedgerSink.submit\<close>) and the SQLite host (\<open>HostSinkIntegration.guarded\<close>).
  What their clients rely on is stated once, as a locale: an admitted request appends exactly
  its commit, spends a fresh idempotency key and was justified in the state it met; a refused
  request changes neither the ledger nor the spent keys. The lemmas inside are about any
  sequence of requests.
\<close>

locale commit_gate =
  fixes submit :: "'s \<Rightarrow> 'r \<Rightarrow> 's \<times> 'd"
    and admitted :: "'d \<Rightarrow> bool"
    and ledger :: "'s \<Rightarrow> commit_event list"
    and spent :: "'s \<Rightarrow> string set"
    and commit_of :: "'s \<Rightarrow> 'r \<Rightarrow> commit_event"
    and justified :: "'s \<Rightarrow> 'r \<Rightarrow> bool"
  assumes admit_ledger: "admitted (snd (submit s r)) \<Longrightarrow> ledger (fst (submit s r)) = ledger s @ [commit_of s r]"
    and admit_spent: "admitted (snd (submit s r)) \<Longrightarrow>
          spent (fst (submit s r)) = insert (ce_idempotency_key (commit_of s r)) (spent s)"
    and admit_fresh: "admitted (snd (submit s r)) \<Longrightarrow> ce_idempotency_key (commit_of s r) \<notin> spent s"
    and admit_justified: "admitted (snd (submit s r)) \<Longrightarrow> justified s r"
    and refuse_ledger: "\<not> admitted (snd (submit s r)) \<Longrightarrow> ledger (fst (submit s r)) = ledger s"
    and refuse_spent: "\<not> admitted (snd (submit s r)) \<Longrightarrow> spent (fst (submit s r)) = spent s"
begin

lemma step_ledger:
  "ledger (fst (submit s r)) = ledger s @ (if admitted (snd (submit s r)) then [commit_of s r] else [])"
  by (simp add: admit_ledger refuse_ledger)

lemma step_spent_mono: "spent s \<subseteq> spent (fst (submit s r))"
  using admit_spent refuse_spent by (metis subset_insertI subset_refl)

lemma run_spent_mono: "spent s \<subseteq> spent (fold (\<lambda>r s. fst (submit s r)) rs s)"
proof (induction rs arbitrary: s)
  case (Cons r rs)
  then show ?case using step_spent_mono [of s r] by (auto intro: subset_trans)
qed simp

text \<open>The ledger only grows.\<close>

lemma run_ledger_extends: "\<exists>cs. ledger (fold (\<lambda>r s. fst (submit s r)) rs s) = ledger s @ cs"
proof (induction rs arbitrary: s)
  case (Cons r rs)
  from Cons [of "fst (submit s r)"] show ?case by (auto simp: step_ledger)
qed simp

text \<open>No idempotency key is ever committed twice.\<close>

lemma step_keys_once:
  assumes "distinct (map ce_idempotency_key (ledger s))"
    and "ce_idempotency_key ` set (ledger s) \<subseteq> spent s"
  shows "distinct (map ce_idempotency_key (ledger (fst (submit s r))))
    \<and> ce_idempotency_key ` set (ledger (fst (submit s r))) \<subseteq> spent (fst (submit s r))"
proof (cases "admitted (snd (submit s r))")
  case True
  from admit_fresh [OF this] assms show ?thesis
    by (auto simp: admit_ledger [OF True] admit_spent [OF True])
next
  case False
  with assms show ?thesis by (simp add: refuse_ledger refuse_spent)
qed

lemma run_keys_once:
  assumes "distinct (map ce_idempotency_key (ledger s))"
    and "ce_idempotency_key ` set (ledger s) \<subseteq> spent s"
  shows "distinct (map ce_idempotency_key (ledger (fold (\<lambda>r s. fst (submit s r)) rs s)))"
  using assms
proof (induction rs arbitrary: s)
  case (Cons r rs)
  from step_keys_once [OF Cons.prems, of r] Cons.IH [of "fst (submit s r)"] show ?case by simp
qed simp

text \<open>Once a key is admitted, every later request that carries it is refused.\<close>

lemma replay_refused:
  assumes "admitted (snd (submit s r))"
    and "s' = fold (\<lambda>r s. fst (submit s r)) rs (fst (submit s r))"
    and "ce_idempotency_key (commit_of s' r') = ce_idempotency_key (commit_of s r)"
  shows "\<not> admitted (snd (submit s' r'))"
proof
  assume "admitted (snd (submit s' r'))"
  then have "ce_idempotency_key (commit_of s r) \<notin> spent s'"
    using admit_fresh assms(3) by metis
  moreover have "ce_idempotency_key (commit_of s r) \<in> spent (fst (submit s r))"
    using admit_spent [OF assms(1)] by simp
  ultimately show False using run_spent_mono assms(2) by blast
qed

text \<open>Every commit of a run was justified in the state its request met.\<close>

lemma run_commits_justified:
  assumes "c \<in> set (ledger (fold (\<lambda>r s. fst (submit s r)) rs s))" "c \<notin> set (ledger s)"
  shows "\<exists>rs1 r rs2. rs = rs1 @ r # rs2
    \<and> c = commit_of (fold (\<lambda>r s. fst (submit s r)) rs1 s) r
    \<and> justified (fold (\<lambda>r s. fst (submit s r)) rs1 s) r"
  using assms
proof (induction rs arbitrary: s)
  case (Cons r rs)
  let ?s = "fst (submit s r)"
  show ?case
  proof (cases "c \<in> set (ledger ?s)")
    case True
    with Cons.prems(2) have "admitted (snd (submit s r))" "c = commit_of s r"
      by (auto simp: step_ledger split: if_splits)
    with admit_justified show ?thesis by (intro exI [of _ "[]"]) auto
  next
    case False
    from Cons.IH [OF _ this] Cons.prems(1) obtain rs1 r' rs2 where
      "rs = rs1 @ r' # rs2" "c = commit_of (fold (\<lambda>r s. fst (submit s r)) rs1 ?s) r'"
      "justified (fold (\<lambda>r s. fst (submit s r)) rs1 ?s) r'" by auto
    then show ?thesis by (intro exI [of _ "r # rs1"]) auto
  qed
qed simp

end

subsection \<open>A gate with a way around it\<close>

text \<open>
  The sink and the host also have a path that commits without the interlock. A run mixes
  guarded requests (\<open>Inl\<close>) and requests on that path (\<open>Inr\<close>).
\<close>

locale bypassed_gate = commit_gate +
  fixes bypass :: "'s \<Rightarrow> 'r \<Rightarrow> 's" and bypass_commit :: "'s \<Rightarrow> 'r \<Rightarrow> commit_event"
  assumes bypass_ledger: "ledger (bypass s r) = ledger s \<or> ledger (bypass s r) = ledger s @ [bypass_commit s r]"
begin

lemma mixed_run_commits:
  assumes "c \<in> set (ledger (fold (\<lambda>r s. case r of Inl g \<Rightarrow> fst (submit s g) | Inr b \<Rightarrow> bypass s b) rs s))"
    and "c \<notin> set (ledger s)"
  shows "\<exists>rs1 r rs2. rs = rs1 @ r # rs2 \<and>
    (let s' = fold (\<lambda>r s. case r of Inl g \<Rightarrow> fst (submit s g) | Inr b \<Rightarrow> bypass s b) rs1 s in
       case r of Inl g \<Rightarrow> c = commit_of s' g \<and> justified s' g | Inr b \<Rightarrow> c = bypass_commit s' b)"
  using assms
proof (induction rs arbitrary: s)
  case (Cons r rs)
  let ?step = "\<lambda>r s. case r of Inl g \<Rightarrow> fst (submit s g) | Inr b \<Rightarrow> bypass s b"
  show ?case
  proof (cases "c \<in> set (ledger (?step r s))")
    case True
    show ?thesis
    proof (cases r)
      case (Inl g)
      with True Cons.prems(2) have "admitted (snd (submit s g))" "c = commit_of s g"
        by (auto simp: step_ledger split: if_splits)
      with admit_justified Inl show ?thesis by (intro exI [of _ "[]"]) auto
    next
      case (Inr b)
      with True Cons.prems(2) bypass_ledger [of s b] have "c = bypass_commit s b" by auto
      with Inr show ?thesis by (intro exI [of _ "[]"]) auto
    qed
  next
    case False
    from Cons.IH [OF _ this] Cons.prems(1) obtain rs1 r' rs2 where
      *: "rs = rs1 @ r' # rs2" "let s' = fold ?step rs1 (?step r s) in
         case r' of Inl g \<Rightarrow> c = commit_of s' g \<and> justified s' g | Inr b \<Rightarrow> c = bypass_commit s' b"
      by auto
    then show ?thesis by (intro exI [of _ "r # rs1"] exI [of _ r'] exI [of _ rs2]) simp
  qed
qed simp

end

end
