(* ===== verification/Payment_Sink.thy ===== *)
theory Payment_Sink
  imports Authorization Commit_Gate
begin

section \<open>The protected sink, its interlock and its observer\<close>

text \<open>
  \<open>oat/consequence/sink.py\<close>: the guarded entry \<open>submit\<close>, the unguarded entry
  \<open>commit_unguarded\<close> and the shared \<open>_commit\<close>. The sink holds the store of authority
  epochs and the issuer by reference; here they are fields of its state.
\<close>

definition ADMITTED :: string where "ADMITTED = ''ADMITTED''"
definition REFUSED :: string where "REFUSED = ''REFUSED''"

record interlock_decision =
  il_outcome :: string
  il_reason :: string
  il_dimensions :: "(string \<times> json) list"

definition interlock_decision_dict :: "interlock_decision \<Rightarrow> json" where
  "interlock_decision_dict d = JObj [(''outcome'', JStr (il_outcome d)),
     (''reason'', JStr (il_reason d)), (''dimensions'', JObj (il_dimensions d))]"

record route_observation =
  ro_route_id :: string
  ro_observed_at :: int
  ro_admitted :: bool
  ro_committed :: bool
  ro_commit_id :: "string option"

definition route_observation_dict :: "route_observation \<Rightarrow> json" where
  "route_observation_dict r = JObj [(''route_id'', JStr (ro_route_id r)),
     (''observed_at'', JInt (ro_observed_at r)), (''admitted'', JBool (ro_admitted r)),
     (''committed'', JBool (ro_committed r)), (''commit_id'', JOptStr (ro_commit_id r))]"

record payment_sink =
  pk_sink :: protected_sink
  pk_authority :: authority_store
  pk_issuer :: issuer
  pk_state :: sink_state
  pk_route_log :: "route_observation list"
  pk_interlock_log :: "interlock_decision list"
  pk_seen :: "string set"

definition new_payment_sink :: "protected_sink \<Rightarrow> authority_store \<Rightarrow> issuer \<Rightarrow> payment_sink" where
  "new_payment_sink sink authority i = \<lparr>pk_sink = sink, pk_authority = authority, pk_issuer = i,
     pk_state = \<lparr>ss_commits = [], ss_receipts = []\<rparr>, pk_route_log = [], pk_interlock_log = [],
     pk_seen = {}\<rparr>"

subsection \<open>Committing\<close>

text \<open>\<open>f"{n:04d}"\<close>.\<close>

definition pad4 :: "nat \<Rightarrow> string" where
  "pad4 n = (let s = str_of_nat n in replicate (4 - length s) (CHR ''0'') @ s)"

definition commit_receipt :: "nat \<Rightarrow> commit_event \<Rightarrow> consequence_receipt" where
  "commit_receipt n c = \<lparr>cr_receipt_id = ''receipt-'' @ pad4 n, cr_commit_id = ce_commit_id c,
     cr_sink_id = ce_sink_id c, cr_route_id = ce_route_id c, cr_observed_at = ce_committed_at c,
     cr_action_digest = ce_action_digest c, cr_observer = ''sink-independent-observer''\<rparr>"

definition do_commit :: "commit_event \<Rightarrow> payment_sink \<Rightarrow> payment_sink" where
  "do_commit c s =
     (let st = pk_state s in
      s\<lparr>pk_state := \<lparr>ss_commits = ss_commits st @ [c],
           ss_receipts = ss_receipts st @ [commit_receipt (length (ss_receipts st) + 1) c]\<rparr>,
        pk_route_log := pk_route_log s @
          [\<lparr>ro_route_id = ce_route_id c, ro_observed_at = ce_committed_at c, ro_admitted = True,
            ro_committed = True, ro_commit_id = Some (ce_commit_id c)\<rparr>]\<rparr>)"

definition refuse :: "commit_event \<Rightarrow> interlock_decision \<Rightarrow> payment_sink \<Rightarrow> payment_sink" where
  "refuse c d s =
     s\<lparr>pk_interlock_log := pk_interlock_log s @ [d],
       pk_route_log := pk_route_log s @
         [\<lparr>ro_route_id = ce_route_id c, ro_observed_at = ce_committed_at c, ro_admitted = False,
           ro_committed = False, ro_commit_id = None\<rparr>]\<rparr>"

definition submit_report ::
  "payment_sink \<Rightarrow> commit_event \<Rightarrow> authorization option \<Rightarrow> string option \<Rightarrow> validation_report" where
  "submit_report s c au token =
     validate_authorization au c (store_at (pk_authority s) (ce_committed_at c)) (Some (pk_issuer s))
       (map_option (\<lambda>a. use_count (pk_issuer s) (au_authorization_id a) + 1) au) token"

definition failed_dimensions :: "validation_report \<Rightarrow> string list" where
  "failed_dimensions report =
     map dr_dimension (if mismatches report \<noteq> [] then mismatches report else undetermined report)"

definition submit ::
  "payment_sink \<Rightarrow> commit_event \<Rightarrow> authorization option \<Rightarrow> string option
     \<Rightarrow> payment_sink \<times> interlock_decision" where
  "submit s c au token =
     (let report = submit_report s c au token in
      if ce_idempotency_key c \<in> pk_seen s then
        (let d = \<lparr>il_outcome = REFUSED, il_reason = ''IDEMPOTENCY_REPLAY'',
                  il_dimensions = [(''idempotency_key'', JStr (ce_idempotency_key c))]\<rparr>
         in (refuse c d s, d))
      else if \<not> report_valid report then
        (let d = \<lparr>il_outcome = REFUSED, il_reason = ''BINDING_NOT_SATISFIED'',
                  il_dimensions = [(''failed_dimensions'', JStrs (failed_dimensions report))]\<rparr>
         in (refuse c d s, d))
      else
        (let d = \<lparr>il_outcome = ADMITTED, il_reason = ''ALL_BINDINGS_SATISFIED'', il_dimensions = []\<rparr>;
             i = fst (record_use (pk_issuer s) (au_authorization_id (the au)));
             s' = s\<lparr>pk_issuer := i, pk_seen := insert (ce_idempotency_key c) (pk_seen s),
                    pk_interlock_log := pk_interlock_log s @ [d]\<rparr>
         in (do_commit c s', d)))"

definition commit_unguarded :: "payment_sink \<Rightarrow> commit_event \<Rightarrow> payment_sink" where
  "commit_unguarded s c = do_commit c (s\<lparr>pk_seen := insert (ce_idempotency_key c) (pk_seen s)\<rparr>)"

definition payment_sink_dict :: "payment_sink \<Rightarrow> json" where
  "payment_sink_dict s = JObj [(''sink_id'', JStr (ps_sink_id (pk_sink s))),
     (''state'', sink_state_dict (pk_state s)),
     (''route_observations'', JList (map route_observation_dict (pk_route_log s))),
     (''interlock_decisions'', JList (map interlock_decision_dict (pk_interlock_log s)))]"

definition presented_digest :: "authorization \<Rightarrow> string" where
  "presented_digest a = token_digest a"

subsection \<open>What the operations do\<close>

lemma outcomes_differ [simp]: "REFUSED \<noteq> ADMITTED" "ADMITTED \<noteq> REFUSED"
  by (simp_all add: ADMITTED_def REFUSED_def)

lemma do_commit_simps [simp]:
  "pk_sink (do_commit c s) = pk_sink s"
  "pk_authority (do_commit c s) = pk_authority s"
  "pk_issuer (do_commit c s) = pk_issuer s"
  "pk_seen (do_commit c s) = pk_seen s"
  "pk_interlock_log (do_commit c s) = pk_interlock_log s"
  "ss_commits (pk_state (do_commit c s)) = ss_commits (pk_state s) @ [c]"
  "ss_receipts (pk_state (do_commit c s))
     = ss_receipts (pk_state s) @ [commit_receipt (length (ss_receipts (pk_state s)) + 1) c]"
  by (simp_all add: do_commit_def Let_def)

lemma refuse_simps [simp]:
  "pk_sink (refuse c d s) = pk_sink s"
  "pk_authority (refuse c d s) = pk_authority s"
  "pk_issuer (refuse c d s) = pk_issuer s"
  "pk_seen (refuse c d s) = pk_seen s"
  "pk_state (refuse c d s) = pk_state s"
  by (simp_all add: refuse_def)

text \<open>A request is justified when some authorization covers it in the state it meets.\<close>

definition submit_justified ::
  "payment_sink \<Rightarrow> commit_event \<Rightarrow> authorization option \<Rightarrow> string option \<Rightarrow> bool" where
  "submit_justified s c au token \<longleftrightarrow>
     (\<exists>a st t. au = Some a \<and> store_at (pk_authority s) (ce_committed_at c) = Some st \<and> token = Some t
        \<and> authorizes a c st (pk_issuer s) (use_count (pk_issuer s) (au_authorization_id a) + 1) t)"

lemma submit_report_valid_iff: "report_valid (submit_report s c au token) \<longleftrightarrow> submit_justified s c au token"
proof (cases au)
  case None
  then show ?thesis
    using report_valid_present by (force simp: submit_report_def submit_justified_def)
next
  case (Some a)
  then show ?thesis by (simp add: submit_report_def submit_justified_def report_valid_authorizes)
qed

text \<open>The guarded entry admits exactly the justified requests whose key is fresh.\<close>

lemma submit_admitted_iff:
  "il_outcome (snd (submit s c au token)) = ADMITTED \<longleftrightarrow>
     ce_idempotency_key c \<notin> pk_seen s \<and> submit_justified s c au token"
  by (simp add: submit_def Let_def submit_report_valid_iff)

lemma submit_admitted:
  assumes "ce_idempotency_key c \<notin> pk_seen s" "submit_justified s c au token"
  shows "fst (submit s c au token) = do_commit c (s\<lparr>
      pk_issuer := fst (record_use (pk_issuer s) (au_authorization_id (the au))),
      pk_seen := insert (ce_idempotency_key c) (pk_seen s),
      pk_interlock_log := pk_interlock_log s @ [snd (submit s c au token)]\<rparr>)"
  using assms by (simp add: submit_def Let_def submit_report_valid_iff)

lemma submit_refused:
  assumes "\<not> (ce_idempotency_key c \<notin> pk_seen s \<and> submit_justified s c au token)"
  shows "fst (submit s c au token) = refuse c (snd (submit s c au token)) s"
  using assms by (auto simp: submit_def Let_def submit_report_valid_iff)

subsection \<open>The sink is a bypassed gate\<close>

type_synonym sink_request = "commit_event \<times> authorization option \<times> string option"

definition sink_step :: "payment_sink \<Rightarrow> sink_request \<Rightarrow> payment_sink \<times> interlock_decision" where
  "sink_step s r = (case r of (c, au, token) \<Rightarrow> submit s c au token)"

interpretation sink_gate: bypassed_gate
  sink_step "\<lambda>d. il_outcome d = ADMITTED" "\<lambda>s. ss_commits (pk_state s)" pk_seen
  "\<lambda>s r. fst r" "\<lambda>s r. submit_justified s (fst r) (fst (snd r)) (snd (snd r))"
  "\<lambda>s r. commit_unguarded s (fst r)" "\<lambda>s r. fst r"
  by unfold_locales
    (auto simp: sink_step_def submit_admitted_iff submit_admitted submit_refused commit_unguarded_def
       split: prod.splits)

subsection \<open>The invariant of the sink\<close>

text \<open>
  Every commit has a receipt from the observer with its identifier, sink, tick and digest, and
  every committed key has been marked as seen.
\<close>

definition receipt_matches :: "consequence_receipt \<Rightarrow> commit_event \<Rightarrow> bool" where
  "receipt_matches r c \<longleftrightarrow> cr_commit_id r = ce_commit_id c \<and> cr_sink_id r = ce_sink_id c
     \<and> cr_route_id r = ce_route_id c \<and> cr_observed_at r = ce_committed_at c
     \<and> cr_action_digest r = ce_action_digest c"

definition sink_inv :: "payment_sink \<Rightarrow> bool" where
  "sink_inv s \<longleftrightarrow>
     list_all2 receipt_matches (ss_receipts (pk_state s)) (ss_commits (pk_state s))
     \<and> ce_idempotency_key ` set (ss_commits (pk_state s)) \<subseteq> pk_seen s
     \<and> map ro_commit_id (filter ro_committed (pk_route_log s))
         = map (\<lambda>c. Some (ce_commit_id c)) (ss_commits (pk_state s))"

lemma sink_inv_new [simp]: "sink_inv (new_payment_sink sink authority i)"
  by (simp add: sink_inv_def new_payment_sink_def)

lemma receipt_matches_new [simp]: "receipt_matches (commit_receipt n c) c"
  by (simp add: receipt_matches_def commit_receipt_def)

lemma sink_inv_do_commit:
  "sink_inv s \<Longrightarrow> ce_idempotency_key c \<in> pk_seen s \<Longrightarrow> sink_inv (do_commit c s)"
  by (simp add: sink_inv_def list_all2_appendI) (simp add: do_commit_def Let_def)

lemma sink_inv_refuse: "sink_inv s \<Longrightarrow> sink_inv (refuse c d s)"
  by (simp add: sink_inv_def) (simp add: refuse_def)

lemma sink_inv_update:
  "sink_inv s \<Longrightarrow> pk_seen s \<subseteq> K \<Longrightarrow> sink_inv (s\<lparr>pk_issuer := i, pk_seen := K, pk_interlock_log := l\<rparr>)"
  by (auto simp: sink_inv_def)

lemma sink_inv_submit: "sink_inv s \<Longrightarrow> sink_inv (fst (submit s c au token))"
  by (cases "ce_idempotency_key c \<notin> pk_seen s \<and> submit_justified s c au token")
    (auto simp: submit_admitted submit_refused
       intro!: sink_inv_do_commit sink_inv_update sink_inv_refuse)

lemma sink_inv_unguarded: "sink_inv s \<Longrightarrow> sink_inv (commit_unguarded s c)"
  unfolding commit_unguarded_def
  by (rule sink_inv_do_commit) (auto simp: sink_inv_def)

subsection \<open>Properties\<close>

text \<open>The guarded entry admits a request exactly when its idempotency key is fresh and a valid
  authorization covers it. An admitted request appends its commit and a receipt, spends its key
  and one use of its authorization; a refused request leaves the ledger, the receipts, the keys
  and the use counts as they were. Either way exactly one route observation is recorded.\<close>

theorem submit_behaviour:
  "(il_outcome (snd (submit s c au token)) = ADMITTED \<longleftrightarrow>
      ce_idempotency_key c \<notin> pk_seen s \<and> submit_justified s c au token)
   \<and> (let s' = fst (submit s c au token) in
      length (pk_route_log s') = length (pk_route_log s) + 1
      \<and> (if il_outcome (snd (submit s c au token)) = ADMITTED
         then ss_commits (pk_state s') = ss_commits (pk_state s) @ [c]
           \<and> ss_receipts (pk_state s')
               = ss_receipts (pk_state s) @ [commit_receipt (length (ss_receipts (pk_state s)) + 1) c]
           \<and> pk_seen s' = insert (ce_idempotency_key c) (pk_seen s)
           \<and> (\<forall>k. use_count (pk_issuer s') k = use_count (pk_issuer s) k
                + (if k = au_authorization_id (the au) then 1 else 0))
         else pk_state s' = pk_state s \<and> pk_seen s' = pk_seen s \<and> pk_issuer s' = pk_issuer s))"
proof (cases "ce_idempotency_key c \<notin> pk_seen s \<and> submit_justified s c au token")
  case True
  then have "length (pk_route_log (fst (submit s c au token))) = length (pk_route_log s) + 1"
    by (simp add: submit_admitted) (simp add: do_commit_def Let_def)
  with True show ?thesis by (simp add: submit_admitted_iff submit_admitted Let_def)
next
  case False
  have "length (pk_route_log (fst (submit s c au token))) = length (pk_route_log s) + 1"
    by (subst submit_refused [OF False]) (simp add: refuse_def)
  moreover from False have "il_outcome (snd (submit s c au token)) \<noteq> ADMITTED"
    by (simp add: submit_admitted_iff)
  ultimately show ?thesis
    using False submit_refused [OF False] by (metis (no_types, lifting) refuse_simps(3-5) submit_admitted_iff)
qed

text \<open>A run of the sink mixes guarded requests with commits on an unguarded path.\<close>

definition sink_run :: "(sink_request + sink_request) list \<Rightarrow> payment_sink \<Rightarrow> payment_sink" where
  "sink_run rs s = fold (\<lambda>r s. case r of Inl g \<Rightarrow> fst (sink_step s g)
                                  | Inr b \<Rightarrow> commit_unguarded s (fst b)) rs s"

lemma sink_run_Inl: "sink_run (map Inl rs) s = fold (\<lambda>r s. fst (sink_step s r)) rs s"
  unfolding sink_run_def by (induction rs arbitrary: s) auto

text \<open>Guarded requests never commit an idempotency key twice: after any sequence of them the
  keys of the ledger are pairwise different.\<close>

theorem guarded_keys_commit_once:
  "distinct (map ce_idempotency_key (ss_commits (pk_state
     (sink_run (map Inl rs) (new_payment_sink sink authority i)))))"
  unfolding sink_run_Inl by (rule sink_gate.run_keys_once) (simp_all add: new_payment_sink_def)

text \<open>A replay is refused: after a request was admitted, and whatever guarded requests came in
  between, a request with the same idempotency key is not admitted.\<close>

theorem replay_is_refused:
  assumes "il_outcome (snd (submit s c au token)) = ADMITTED"
    and "ce_idempotency_key c' = ce_idempotency_key c"
  shows "il_outcome (snd (submit (sink_run (map Inl rs) (fst (submit s c au token))) c' au' token')) = REFUSED"
proof -
  let ?s = "sink_run (map Inl rs) (fst (submit s c au token))"
  have "\<not> il_outcome (snd (sink_step ?s (c', au', token'))) = ADMITTED"
  proof (rule sink_gate.replay_refused)
    show "il_outcome (snd (sink_step s (c, au, token))) = ADMITTED"
      using assms(1) by (simp add: sink_step_def)
    show "?s = fold (\<lambda>r s. fst (sink_step s r)) rs (fst (sink_step s (c, au, token)))"
      by (simp add: sink_run_Inl sink_step_def)
  qed (use assms(2) in simp)
  then show ?thesis by (simp add: sink_step_def submit_def Let_def split: if_splits)
qed

text \<open>C3: Every commit of a run from a new sink was either made by a guarded request that a valid
  authorization covered, with the sink in the state that request met, or by a request on the
  unguarded path.\<close>

theorem commits_are_justified_or_bypass:
  assumes "c \<in> set (ss_commits (pk_state (sink_run rs (new_payment_sink sink authority i))))"
  shows "\<exists>rs1 r rs2. rs = rs1 @ r # rs2 \<and>
    (let s = sink_run rs1 (new_payment_sink sink authority i) in
       case r of Inl (c', au, token) \<Rightarrow> c' = c \<and> submit_justified s c au token
               | Inr (c', au, token) \<Rightarrow> c' = c)"
proof -
  let ?n = "new_payment_sink sink authority i"
  have "c \<notin> set (ss_commits (pk_state ?n))" by (simp add: new_payment_sink_def)
  from sink_gate.mixed_run_commits [OF assms [unfolded sink_run_def] this]
  obtain rs1 r rs2 where *: "rs = rs1 @ r # rs2"
    "let s' = sink_run rs1 ?n in
       case r of Inl g \<Rightarrow> c = fst g \<and> submit_justified s' (fst g) (fst (snd g)) (snd (snd g))
       | Inr b \<Rightarrow> c = fst b"
    unfolding sink_run_def by blast
  then show ?thesis
    by (intro exI [of _ rs1] exI [of _ r] exI [of _ rs2]) (auto simp: Let_def split: sum.splits)
qed

lemma sink_inv_run: "sink_inv s \<Longrightarrow> sink_inv (sink_run rs s)"
  unfolding sink_run_def
  by (induction rs arbitrary: s)
    (auto intro: sink_inv_submit sink_inv_unguarded simp: sink_step_def split: sum.split prod.split)

text \<open>The observer sees every commit, on either path: after any run of a new sink there is one
  receipt per commit, in order and with its identifiers, tick and digest, every committed key is
  marked as seen, and the committed route observations are those of the ledger.\<close>

theorem observer_witnesses_every_commit:
  "sink_inv (sink_run rs (new_payment_sink sink authority i))"
  by (rule sink_inv_run) simp

lemma sink_run_extends: "set (ss_commits (pk_state s)) \<subseteq> set (ss_commits (pk_state (sink_run rs s)))"
proof (induction rs arbitrary: s)
  case Nil
  show ?case by (simp add: sink_run_def)
next
  case (Cons r rs)
  let ?t = "case r of Inl g \<Rightarrow> fst (sink_step s g) | Inr b \<Rightarrow> commit_unguarded s (fst b)"
  have "set (ss_commits (pk_state s)) \<subseteq> set (ss_commits (pk_state ?t))"
    by (auto simp: sink_gate.step_ledger commit_unguarded_def split: sum.split)
  moreover have "sink_run (r # rs) s = sink_run rs ?t" by (simp add: sink_run_def)
  ultimately show ?case using Cons.IH [of ?t] by auto
qed

text \<open>The uses a run spends are the commits it admitted.\<close>

definition uses_of :: "string \<Rightarrow> payment_sink \<Rightarrow> int" where
  "uses_of k s = use_count (pk_issuer s) k"

lemma unguarded_issuer [simp]: "pk_issuer (commit_unguarded s c) = pk_issuer s"
  by (simp add: commit_unguarded_def)

lemma step_uses_bounded:
  assumes "\<forall>a. au = Some a \<longrightarrow> au_authorization_id a = k \<longrightarrow> au_max_uses a \<le> m" "uses_of k s \<le> m"
  shows "uses_of k (fst (submit s c au token)) \<le> m"
proof (cases "ce_idempotency_key c \<notin> pk_seen s \<and> submit_justified s c au token")
  case True
  then obtain a where a: "au = Some a" "use_count (pk_issuer s) (au_authorization_id a) + 1 \<le> au_max_uses a"
    by (auto simp: submit_justified_def authorizes_def)
  have "uses_of k (fst (submit s c au token)) = uses_of k s + (if k = au_authorization_id a then 1 else 0)"
    using True a(1) by (simp add: submit_admitted uses_of_def)
  with a assms show ?thesis by (force simp: uses_of_def)
next
  case False
  then have "pk_issuer (fst (submit s c au token)) = pk_issuer s"
    by (metis refuse_simps(3) submit_refused)
  with assms(2) show ?thesis by (simp add: uses_of_def)
qed

text \<open>C8: The use limit holds over any run: when the presented authorizations with an identifier allow
  at most m uses, no run of a new sink counts more than m uses of it.\<close>

theorem uses_stay_within_limit:
  assumes "\<forall>r \<in> set rs. \<forall>a. (case r of Inl g \<Rightarrow> fst (snd g) | Inr b \<Rightarrow> None) = Some a
             \<longrightarrow> au_authorization_id a = k \<longrightarrow> au_max_uses a \<le> m"
    and "0 \<le> m"
  shows "use_count (pk_issuer (sink_run rs (new_payment_sink sink authority (new_issuer secret)))) k \<le> m"
proof -
  have "uses_of k (sink_run rs s) \<le> m" if "uses_of k s \<le> m" for s
    unfolding sink_run_def using assms(1) that
  proof (induction rs arbitrary: s)
    case (Cons r rs)
    have "uses_of k (case r of Inl g \<Rightarrow> fst (sink_step s g) | Inr b \<Rightarrow> commit_unguarded s (fst b)) \<le> m"
    proof (cases r)
      case (Inl g)
      with Cons.prems show ?thesis
        by (auto simp: sink_step_def intro!: step_uses_bounded split: prod.split)
    next
      case (Inr b)
      with Cons.prems(2) show ?thesis by (simp add: uses_of_def)
    qed
    with Cons show ?case by simp
  qed simp
  from this [unfolded uses_of_def] assms(2) show ?thesis
    by (simp add: new_payment_sink_def new_issuer_def use_count_def)
qed

end
