(* ===== verification/Path_Sets.thy ===== *)
theory Path_Sets
  imports Payment_Sink
begin

section \<open>Declared and observed routes\<close>

text \<open>
  \<open>oat/paths/inventory.py\<close> (the declaration), \<open>oat/paths/observations.py\<close> (what the
  sink's telemetry shows) and \<open>oat/paths/discovery.py\<close> (the two differences). A
  \<open>frozenset\<close> of route ids is a list read as a set; it is only ever sorted or compared.
\<close>

record declared_path =
  dp_route_id :: string
  dp_description :: string
  dp_guarded :: bool

type_synonym path_inventory = "declared_path list"

definition declared_path_dict :: "declared_path \<Rightarrow> json" where
  "declared_path_dict p = JObj [(''route_id'', JStr (dp_route_id p)),
     (''description'', JStr (dp_description p)), (''guarded'', JBool (dp_guarded p))]"

definition inventory_dict :: "path_inventory \<Rightarrow> json" where
  "inventory_dict ps = JObj [(''declared_paths'', JList (map declared_path_dict ps))]"

definition route_ids :: "path_inventory \<Rightarrow> string list" where
  "route_ids ps = map dp_route_id ps"

subsection \<open>Observations\<close>

record observed_path =
  op_route_id :: string
  op_arrivals :: int
  op_commits :: int

definition observed_path_dict :: "observed_path \<Rightarrow> json" where
  "observed_path_dict p = JObj [(''route_id'', JStr (op_route_id p)),
     (''arrivals'', JInt (op_arrivals p)), (''commits'', JInt (op_commits p))]"

definition dict_incr :: "string \<Rightarrow> (string, int) dict \<Rightarrow> (string, int) dict" where
  "dict_incr k d = dict_set k ((case dict_get d k of None \<Rightarrow> 0 | Some n \<Rightarrow> n) + 1) d"

fun count_routes ::
  "(string, int) dict \<Rightarrow> (string, int) dict \<Rightarrow> route_observation list
     \<Rightarrow> (string, int) dict \<times> (string, int) dict" where
  "count_routes arrivals commits [] = (arrivals, commits)"
| "count_routes arrivals commits (r # rs) =
     count_routes (dict_incr (ro_route_id r) arrivals)
       (if ro_committed r then dict_incr (ro_route_id r) commits else commits) rs"

definition observations_from_log :: "route_observation list \<Rightarrow> observed_path list" where
  "observations_from_log log =
     (case count_routes [] [] log of (arrivals, commits) \<Rightarrow>
        map (\<lambda>k. \<lparr>op_route_id = k, op_arrivals = the (dict_get arrivals k),
                   op_commits = (case dict_get commits k of None \<Rightarrow> 0 | Some n \<Rightarrow> n)\<rparr>)
          (sorted_set (map fst arrivals)))"

definition observations_from_sink :: "payment_sink \<Rightarrow> observed_path list" where
  "observations_from_sink s = observations_from_log (pk_route_log s)"

subsection \<open>Reconciliation\<close>

record path_reconciliation =
  pr_declared :: "string list"
  pr_observed :: "string list"
  pr_unknown_observed :: "string list"
  pr_unexercised_declared :: "string list"

definition reconciliation_dict :: "path_reconciliation \<Rightarrow> json" where
  "reconciliation_dict r = JObj [(''declared_path_set'', JStrs (pr_declared r)),
     (''observed_path_set'', JStrs (pr_observed r)),
     (''unknown_observed_paths'', JStrs (pr_unknown_observed r)),
     (''unexercised_declared_paths'', JStrs (pr_unexercised_declared r))]"

definition reconcile :: "path_inventory \<Rightarrow> observed_path list \<Rightarrow> path_reconciliation" where
  "reconcile inventory observations =
     (let declared = route_ids inventory; observed = map op_route_id observations in
      \<lparr>pr_declared = sorted_set declared, pr_observed = sorted_set observed,
       pr_unknown_observed = sorted_set (filter (\<lambda>r. r \<notin> set declared) observed),
       pr_unexercised_declared = sorted_set (filter (\<lambda>r. r \<notin> set observed) declared)\<rparr>)"

subsection \<open>The counts are the counts of the log\<close>

definition cnt :: "string \<Rightarrow> (string, int) dict \<Rightarrow> int" where
  "cnt k d = (case dict_get d k of None \<Rightarrow> 0 | Some n \<Rightarrow> n)"

lemma cnt_incr [simp]: "cnt k (dict_incr k' d) = (if k = k' then cnt k d + 1 else cnt k d)"
  by (simp add: cnt_def dict_incr_def)

lemma keys_incr [simp]: "fst ` set (dict_incr k d) = insert k (fst ` set d)"
  by (simp add: dict_incr_def dict_set_keys)

lemma count_routes_spec:
  assumes "count_routes a c rs = (a', c')"
  shows "cnt k a' = cnt k a + int (length (filter (\<lambda>r. ro_route_id r = k) rs))"
    and "cnt k c' = cnt k c + int (length (filter (\<lambda>r. ro_route_id r = k \<and> ro_committed r) rs))"
    and "fst ` set a' = fst ` set a \<union> ro_route_id ` set rs"
  using assms by (induction a c rs arbitrary: a' c' rule: count_routes.induct) (auto split: if_splits)

lemma observations_from_log_spec:
  "observations_from_log log = map (\<lambda>k. \<lparr>op_route_id = k,
       op_arrivals = int (length (filter (\<lambda>r. ro_route_id r = k) log)),
       op_commits = int (length (filter (\<lambda>r. ro_route_id r = k \<and> ro_committed r) log))\<rparr>)
     (sorted_set (map ro_route_id log))"
proof -
  obtain a c where ac: "count_routes [] [] log = (a, c)" by (metis surj_pair)
  note spec = count_routes_spec [OF ac]
  have keys: "sorted_set (map fst a) = sorted_set (map ro_route_id log)"
    using spec(3) by (simp add: sorted_set_eq_iff)
  have "the (dict_get a k) = cnt k a" if "k \<in> set (sorted_set (map ro_route_id log))" for k
  proof -
    from that spec(3) have "k \<in> fst ` set a" by auto
    then obtain n where "dict_get a k = Some n" using dict_get_None_iff [of a k] by auto
    then show ?thesis by (simp add: cnt_def)
  qed
  then show ?thesis
    using spec(1,2) by (auto simp: observations_from_log_def ac keys cnt_def)
qed

lemma reconcile_simps [simp]:
  "set (pr_declared (reconcile dps obs)) = dp_route_id ` set dps"
  "set (pr_observed (reconcile dps obs)) = op_route_id ` set obs"
  "set (pr_unknown_observed (reconcile dps obs)) = op_route_id ` set obs - dp_route_id ` set dps"
  "set (pr_unexercised_declared (reconcile dps obs)) = dp_route_id ` set dps - op_route_id ` set obs"
  by (auto simp: reconcile_def Let_def route_ids_def)

lemma no_unknown_iff:
  "pr_unknown_observed (reconcile dps obs) = [] \<longleftrightarrow> op_route_id ` set obs \<subseteq> dp_route_id ` set dps"
  by (metis Diff_eq_empty_iff reconcile_simps(3) set_empty)

lemma observed_routes [simp]: "op_route_id ` set (observations_from_log log) = ro_route_id ` set log"
  by (auto simp: observations_from_log_spec image_iff)

subsection \<open>Properties\<close>

text \<open>The observations derived from a sink's telemetry list every route that was seen once, in
  order, with the number of its arrivals and of its commits; and reconciling them with an inventory
  gives exactly the undeclared routes that were seen and the declared ones that were not.\<close>

theorem routes_reconciled:
  "map op_route_id (observations_from_sink s) = sorted_set (map ro_route_id (pk_route_log s))
   \<and> (\<forall>p \<in> set (observations_from_sink s).
        op_arrivals p = int (length (filter (\<lambda>r. ro_route_id r = op_route_id p) (pk_route_log s)))
        \<and> op_commits p = int (length (filter (\<lambda>r. ro_route_id r = op_route_id p \<and> ro_committed r)
                                (pk_route_log s))))
   \<and> pr_unknown_observed (reconcile paths (observations_from_sink s))
       = sorted_set (filter (\<lambda>k. k \<notin> set (route_ids paths)) (map ro_route_id (pk_route_log s)))
   \<and> pr_unexercised_declared (reconcile paths (observations_from_sink s))
       = sorted_set (filter (\<lambda>k. k \<notin> set (map ro_route_id (pk_route_log s))) (route_ids paths))"
  by (auto simp: observations_from_sink_def observations_from_log_spec comp_def reconcile_def Let_def
      sorted_set_eq_iff)

end
