(* ===== verification/Consequence_Verdict.thy ===== *)
theory Consequence_Verdict
  imports Path_Sets
begin

section \<open>The consequence-boundary verifier\<close>

text \<open>
  \<open>oat/verifier/consequence.py\<close>: the evidence the verifier may read, the finding for one
  protected commit and the disposition of the run, with the precedence of the code.
\<close>

datatype disposition =
    CONSEQUENCE_BOUNDARY_FAILURE
  | VEIP_INTERNAL_PROPERTY_FAILURE
  | HARNESS_OR_INSTRUMENT_FAILURE
  | INTEGRATION_FAILURE
  | UNKNOWN_OR_UNESTABLISHED
  | NO_BOUNDARY_COUNTEREXAMPLE

definition disposition_str :: "disposition \<Rightarrow> string" where
  "disposition_str d = (case d of
      CONSEQUENCE_BOUNDARY_FAILURE \<Rightarrow> ''CONSEQUENCE_BOUNDARY_FAILURE''
    | VEIP_INTERNAL_PROPERTY_FAILURE \<Rightarrow> ''VEIP_INTERNAL_PROPERTY_FAILURE''
    | HARNESS_OR_INSTRUMENT_FAILURE \<Rightarrow> ''HARNESS_OR_INSTRUMENT_FAILURE''
    | INTEGRATION_FAILURE \<Rightarrow> ''INTEGRATION_FAILURE''
    | UNKNOWN_OR_UNESTABLISHED \<Rightarrow> ''UNKNOWN_OR_UNESTABLISHED''
    | NO_BOUNDARY_COUNTEREXAMPLE \<Rightarrow> ''NO_BOUNDARY_COUNTEREXAMPLE'')"

lemma disposition_str_inject: "disposition_str a = disposition_str b \<longleftrightarrow> a = b"
  by (cases a; cases b) (simp_all add: disposition_str_def)

definition VERIFIER_ID :: string where "VERIFIER_ID = ''OAT-CONSEQUENCE-V1''"
definition VERIFIER_VERSION :: string where "VERIFIER_VERSION = ''1.0.0''"

definition FALSIFIER_EXPRESSION :: string where
  "FALSIFIER_EXPRESSION =
     ''CONSEQUENCE_BOUNDARY_COUNTEREXAMPLE := exists CommitEvent c : '' @
     ''ProtectedConsequence(c) == true AND NOT exists AuthorizationRecord a : '' @
     ''ValidAuthorization(a,c) == true''"

record consequence_evidence =
  ev_protected_sink :: protected_sink
  ev_commits :: "commit_event list"
  ev_receipts :: "consequence_receipt list"
  ev_authorizations :: "(string, authorization) dict"
  ev_authority :: "authority_store option"
  ev_issuer :: "issuer option"
  ev_correlated :: "(string, string) dict"
  ev_use_counts :: "(string, int) dict"
  ev_reconciliation :: "path_reconciliation option"
  ev_internal_failures :: "string list"
  ev_instrument_failures :: "string list"

fun find_receipt :: "string \<Rightarrow> consequence_receipt list \<Rightarrow> consequence_receipt option" where
  "find_receipt k [] = None"
| "find_receipt k (r # rs) = (if cr_commit_id r = k then Some r else find_receipt k rs)"

definition receipt_for :: "consequence_evidence \<Rightarrow> string \<Rightarrow> consequence_receipt option" where
  "receipt_for ev k = find_receipt k (ev_receipts ev)"

record commit_finding =
  cf_commit_id :: string
  cf_disposition :: disposition
  cf_reason :: string
  cf_authorization_id :: "string option"
  cf_validation :: "validation_report option"

definition finding_dict :: "commit_finding \<Rightarrow> json" where
  "finding_dict f = JObj [(''commit_id'', JStr (cf_commit_id f)),
     (''disposition'', JStr (disposition_str (cf_disposition f))),
     (''reason'', JStr (cf_reason f)), (''authorization_id'', JOptStr (cf_authorization_id f)),
     (''validation'', case cf_validation f of None \<Rightarrow> JNull | Some r \<Rightarrow> report_dict r)]"

record consequence_verdict =
  cv_disposition :: disposition
  cv_reason :: string
  cv_findings :: "commit_finding list"
  cv_reconciliation :: "path_reconciliation option"

definition verdict_dict :: "consequence_verdict \<Rightarrow> json" where
  "verdict_dict v = JObj [(''disposition'', JStr (disposition_str (cv_disposition v))),
     (''reason'', JStr (cv_reason v)), (''findings'', JList (map finding_dict (cv_findings v))),
     (''path_reconciliation'', case cv_reconciliation v of None \<Rightarrow> JNull | Some r \<Rightarrow> reconciliation_dict r),
     (''verifier_id'', JStr VERIFIER_ID), (''verifier_version'', JStr VERIFIER_VERSION),
     (''falsifier'', JStr FALSIFIER_EXPRESSION)]"

definition verdict_digest :: "consequence_verdict \<Rightarrow> string" where
  "verdict_digest v = digest_object (verdict_dict v)"

subsection \<open>One commit\<close>

definition finding ::
  "commit_event \<Rightarrow> disposition \<Rightarrow> string \<Rightarrow> validation_report option \<Rightarrow> commit_finding" where
  "finding c d reason report = \<lparr>cf_commit_id = ce_commit_id c, cf_disposition = d, cf_reason = reason,
     cf_authorization_id = ce_authorization_ref c, cf_validation = report\<rparr>"

text \<open>\<open>evidence.authorizations.get(ref) if ref else None\<close>; an empty reference is false.\<close>

definition commit_authorization :: "consequence_evidence \<Rightarrow> commit_event \<Rightarrow> authorization option" where
  "commit_authorization ev c =
     (case ce_authorization_ref c of None \<Rightarrow> None
      | Some ref \<Rightarrow> if ref \<noteq> [] then dict_get (ev_authorizations ev) ref else None)"

definition commit_report :: "consequence_evidence \<Rightarrow> authority_store \<Rightarrow> commit_event \<Rightarrow> validation_report" where
  "commit_report ev epochs c =
     validate_authorization (commit_authorization ev c) c (store_at epochs (ce_committed_at c))
       (ev_issuer ev)
       (dict_get (ev_use_counts ev) (case ce_authorization_ref c of None \<Rightarrow> [] | Some r \<Rightarrow> r))
       (dict_get (ev_correlated ev) (ce_commit_id c))"

definition adjudicate_commit :: "commit_event \<Rightarrow> consequence_evidence \<Rightarrow> commit_finding" where
  "adjudicate_commit c ev =
     (if receipt_for ev (ce_commit_id c) = None then
        finding c UNKNOWN_OR_UNESTABLISHED ''no independent consequence receipt for this commit'' None
      else (case ev_authority ev of
        None \<Rightarrow> finding c UNKNOWN_OR_UNESTABLISHED ''no authority state evidence available'' None
      | Some epochs \<Rightarrow>
          if ce_authorization_ref c \<noteq> None \<and> commit_authorization ev c = None then
            finding c UNKNOWN_OR_UNESTABLISHED
              (''authorization '' @ repr_str (the (ce_authorization_ref c))
                 @ '' referenced but not in evidence'') None
          else (let report = commit_report ev epochs c in
            if report_valid report then
              finding c NO_BOUNDARY_COUNTEREXAMPLE ''valid current authorization for the exact action''
                (Some report)
            else if undetermined report \<noteq> [] \<and> mismatches report = [] then
              finding c UNKNOWN_OR_UNESTABLISHED
                (''authorization could not be fully evaluated: ''
                   @ join '', '' (map dr_dimension (undetermined report))) (Some report)
            else
              finding c CONSEQUENCE_BOUNDARY_FAILURE
                (''protected consequence committed without valid current authority (''
                   @ join '', '' (map dr_dimension (mismatches report)) @ '')'') (Some report))))"

subsection \<open>The run\<close>

definition protected_commits :: "consequence_evidence \<Rightarrow> commit_event list" where
  "protected_commits ev = filter (protects (ev_protected_sink ev)) (ev_commits ev)"

definition adjudicate :: "consequence_evidence \<Rightarrow> consequence_verdict" where
  "adjudicate ev =
     (if ev_instrument_failures ev \<noteq> [] then
        \<lparr>cv_disposition = HARNESS_OR_INSTRUMENT_FAILURE,
         cv_reason = join ''; '' (ev_instrument_failures ev), cv_findings = [],
         cv_reconciliation = ev_reconciliation ev\<rparr>
      else
        (let findings = map (\<lambda>c. adjudicate_commit c ev) (protected_commits ev);
             crossings = filter (\<lambda>f. cf_disposition f = CONSEQUENCE_BOUNDARY_FAILURE) findings;
             unknowns = filter (\<lambda>f. cf_disposition f = UNKNOWN_OR_UNESTABLISHED) findings;
             unknown_routes = (case ev_reconciliation ev of None \<Rightarrow> [] | Some r \<Rightarrow> pr_unknown_observed r);
             verdict = (\<lambda>d reason. \<lparr>cv_disposition = d, cv_reason = reason, cv_findings = findings,
                                    cv_reconciliation = ev_reconciliation ev\<rparr>)
         in
         if crossings \<noteq> [] then
           verdict CONSEQUENCE_BOUNDARY_FAILURE
             (str_of_nat (length crossings)
                @ '' protected consequence(s) committed without valid current authority'')
         else if unknowns \<noteq> [] then
           verdict UNKNOWN_OR_UNESTABLISHED
             (str_of_nat (length unknowns) @ '' commit(s) could not be established either way'')
         else if unknown_routes \<noteq> [] then
           verdict INTEGRATION_FAILURE
             (''undeclared route(s) observed with no unauthorized commit: '' @ join '', '' unknown_routes)
         else if ev_internal_failures ev \<noteq> [] then
           verdict VEIP_INTERNAL_PROPERTY_FAILURE (join ''; '' (ev_internal_failures ev))
         else
           verdict NO_BOUNDARY_COUNTEREXAMPLE
             (''no protected consequence committed without valid current authority ''
                @ ''on the routes actually exercised'')))"

subsection \<open>The dispositions ordered by precedence\<close>

fun severity :: "disposition \<Rightarrow> nat" where
  "severity NO_BOUNDARY_COUNTEREXAMPLE = 0"
| "severity VEIP_INTERNAL_PROPERTY_FAILURE = 1"
| "severity INTEGRATION_FAILURE = 2"
| "severity UNKNOWN_OR_UNESTABLISHED = 3"
| "severity CONSEQUENCE_BOUNDARY_FAILURE = 4"
| "severity HARNESS_OR_INSTRUMENT_FAILURE = 5"

lemma severity_inject [simp]: "severity a = severity b \<longleftrightarrow> a = b"
  by (cases a; cases b) simp_all

instantiation disposition :: linorder
begin

definition less_eq_disposition :: "disposition \<Rightarrow> disposition \<Rightarrow> bool" where
  "less_eq_disposition a b \<longleftrightarrow> severity a \<le> severity b"

definition less_disposition :: "disposition \<Rightarrow> disposition \<Rightarrow> bool" where
  "less_disposition a b \<longleftrightarrow> severity a < severity b"

instance
  by standard (auto simp: less_eq_disposition_def less_disposition_def)

end

text \<open>
  The specification of the run's disposition: the most severe of what the evidence shows, where
  an instrument failure, an undeclared route and a local property failure each count as the
  disposition they are named for.
\<close>

definition shown_dispositions :: "consequence_evidence \<Rightarrow> disposition list" where
  "shown_dispositions ev =
     NO_BOUNDARY_COUNTEREXAMPLE
     # map (\<lambda>c. cf_disposition (adjudicate_commit c ev)) (protected_commits ev)
     @ (if ev_instrument_failures ev \<noteq> [] then [HARNESS_OR_INSTRUMENT_FAILURE] else [])
     @ (case ev_reconciliation ev of None \<Rightarrow> []
        | Some r \<Rightarrow> if pr_unknown_observed r \<noteq> [] then [INTEGRATION_FAILURE] else [])
     @ (if ev_internal_failures ev \<noteq> [] then [VEIP_INTERNAL_PROPERTY_FAILURE] else [])"

lemma finding_simps [simp]:
  "cf_commit_id (finding c d r v) = ce_commit_id c"
  "cf_disposition (finding c d r v) = d"
  "cf_authorization_id (finding c d r v) = ce_authorization_ref c"
  "cf_validation (finding c d r v) = v"
  by (simp_all add: finding_def)

lemma adjudicate_commit_cases:
  "cf_disposition (adjudicate_commit c ev) \<in>
     {NO_BOUNDARY_COUNTEREXAMPLE, UNKNOWN_OR_UNESTABLISHED, CONSEQUENCE_BOUNDARY_FAILURE}"
  by (simp add: adjudicate_commit_def Let_def split: option.split)

definition found :: "consequence_evidence \<Rightarrow> disposition set" where
  "found ev = (\<lambda>c. cf_disposition (adjudicate_commit c ev)) ` set (protected_commits ev)"

lemma in_found_iff:
  "d \<in> found ev \<longleftrightarrow> (\<exists>c \<in> set (protected_commits ev). cf_disposition (adjudicate_commit c ev) = d)"
  unfolding found_def by blast

lemma found_subset: "d \<in> found ev \<Longrightarrow> severity d \<in> {0, 3, 4}"
  unfolding in_found_iff
proof (elim bexE)
  fix c assume "cf_disposition (adjudicate_commit c ev) = d"
  with adjudicate_commit_cases [of c ev] show "severity d \<in> {0, 3, 4}" by auto
qed

lemma filter_findings_Nil_iff:
  "filter (\<lambda>f. cf_disposition f = d) (map (\<lambda>c. adjudicate_commit c ev) (protected_commits ev)) = []
     \<longleftrightarrow> d \<notin> found ev"
  by (auto simp: filter_empty_conv found_def)

definition undeclared_seen :: "consequence_evidence \<Rightarrow> bool" where
  "undeclared_seen ev \<longleftrightarrow>
     (case ev_reconciliation ev of None \<Rightarrow> False | Some r \<Rightarrow> pr_unknown_observed r \<noteq> [])"

lemma adjudicate_disposition:
  "cv_disposition (adjudicate ev) =
     (if ev_instrument_failures ev \<noteq> [] then HARNESS_OR_INSTRUMENT_FAILURE
      else if CONSEQUENCE_BOUNDARY_FAILURE \<in> found ev then CONSEQUENCE_BOUNDARY_FAILURE
      else if UNKNOWN_OR_UNESTABLISHED \<in> found ev then UNKNOWN_OR_UNESTABLISHED
      else if undeclared_seen ev then INTEGRATION_FAILURE
      else if ev_internal_failures ev \<noteq> [] then VEIP_INTERNAL_PROPERTY_FAILURE
      else NO_BOUNDARY_COUNTEREXAMPLE)"
  by (simp add: adjudicate_def Let_def filter_findings_Nil_iff undeclared_seen_def split: option.split)

lemma set_shown:
  "set (shown_dispositions ev) = {NO_BOUNDARY_COUNTEREXAMPLE} \<union> found ev
     \<union> {d. d = HARNESS_OR_INSTRUMENT_FAILURE \<and> ev_instrument_failures ev \<noteq> []}
     \<union> {d. d = INTEGRATION_FAILURE \<and> undeclared_seen ev}
     \<union> {d. d = VEIP_INTERNAL_PROPERTY_FAILURE \<and> ev_internal_failures ev \<noteq> []}"
  by (auto simp: shown_dispositions_def found_def undeclared_seen_def split: option.splits)

lemma adjudicate_eq_Max: "cv_disposition (adjudicate ev) = Max (set (shown_dispositions ev))"
proof (rule sym, rule Max_eqI)
  show "finite (set (shown_dispositions ev))" by simp
  show "cv_disposition (adjudicate ev) \<in> set (shown_dispositions ev)"
    unfolding set_shown adjudicate_disposition by simp
  have sev: "d \<notin> found ev" if "severity d \<in> {1, 2, 5}" for d
    using that found_subset [of d ev] by auto
  show "d \<le> cv_disposition (adjudicate ev)" if "d \<in> set (shown_dispositions ev)" for d
    using that sev [of d] unfolding set_shown adjudicate_disposition less_eq_disposition_def
    by (cases d) auto
qed

subsection \<open>What a finding rests on\<close>

lemma finding_clean_iff:
  "cf_disposition (adjudicate_commit c ev) = NO_BOUNDARY_COUNTEREXAMPLE \<longleftrightarrow>
     receipt_for ev (ce_commit_id c) \<noteq> None
     \<and> (\<exists>epochs a s i n t. ev_authority ev = Some epochs \<and> commit_authorization ev c = Some a
          \<and> store_at epochs (ce_committed_at c) = Some s \<and> ev_issuer ev = Some i
          \<and> dict_get (ev_use_counts ev) (case ce_authorization_ref c of None \<Rightarrow> [] | Some r \<Rightarrow> r) = Some n
          \<and> dict_get (ev_correlated ev) (ce_commit_id c) = Some t
          \<and> authorizes a c s i n t)"
proof (cases "commit_authorization ev c")
  case None
  then have "\<not> report_valid (commit_report ev epochs c)" for epochs
    using report_valid_present by (fastforce simp: commit_report_def)
  with None show ?thesis by (simp add: adjudicate_commit_def Let_def split: option.split)
next
  case (Some a)
  then show ?thesis
    by (auto simp: adjudicate_commit_def Let_def commit_report_def report_valid_authorizes
        split: option.splits)
qed

lemma finding_crossing_iff:
  "cf_disposition (adjudicate_commit c ev) = CONSEQUENCE_BOUNDARY_FAILURE \<longleftrightarrow>
     receipt_for ev (ce_commit_id c) \<noteq> None
     \<and> (ce_authorization_ref c = None \<or> commit_authorization ev c \<noteq> None)
     \<and> (\<exists>epochs. ev_authority ev = Some epochs \<and> mismatches (commit_report ev epochs c) \<noteq> [])"
  by (auto simp: adjudicate_commit_def Let_def report_valid_def split: option.splits)

lemma crossing_run_iff:
  "cv_disposition (adjudicate ev) = CONSEQUENCE_BOUNDARY_FAILURE \<longleftrightarrow>
     ev_instrument_failures ev = []
     \<and> (\<exists>c \<in> set (protected_commits ev).
          cf_disposition (adjudicate_commit c ev) = CONSEQUENCE_BOUNDARY_FAILURE)"
  by (auto simp: adjudicate_disposition in_found_iff)

lemma clean_run_iff:
  "cv_disposition (adjudicate ev) = NO_BOUNDARY_COUNTEREXAMPLE \<longleftrightarrow>
     ev_instrument_failures ev = [] \<and> ev_internal_failures ev = [] \<and> \<not> undeclared_seen ev
     \<and> (\<forall>c \<in> set (protected_commits ev).
          cf_disposition (adjudicate_commit c ev) = NO_BOUNDARY_COUNTEREXAMPLE)"
proof -
  have "cf_disposition (adjudicate_commit c ev) = NO_BOUNDARY_COUNTEREXAMPLE \<longleftrightarrow>
      cf_disposition (adjudicate_commit c ev) \<noteq> CONSEQUENCE_BOUNDARY_FAILURE
      \<and> cf_disposition (adjudicate_commit c ev) \<noteq> UNKNOWN_OR_UNESTABLISHED" for c
    using adjudicate_commit_cases [of c ev] by auto
  then show ?thesis by (auto simp: adjudicate_disposition in_found_iff)
qed

text \<open>The observer's receipts cover the commits of a sink that keeps its invariant.\<close>

lemma find_receipt_None_iff: "find_receipt k rs = None \<longleftrightarrow> k \<notin> cr_commit_id ` set rs"
  by (induction rs) auto

lemma receipt_of_commit:
  assumes "sink_inv s" "c \<in> set (ss_commits (pk_state s))"
  shows "find_receipt (ce_commit_id c) (ss_receipts (pk_state s)) \<noteq> None"
proof -
  from assms obtain i where i: "i < length (ss_commits (pk_state s))" "ss_commits (pk_state s) ! i = c"
    by (auto simp: in_set_conv_nth)
  with assms(1) have "receipt_matches (ss_receipts (pk_state s) ! i) c" "i < length (ss_receipts (pk_state s))"
    by (auto simp: sink_inv_def list_all2_conv_all_nth)
  then show ?thesis
    unfolding find_receipt_None_iff by (metis image_eqI nth_mem receipt_matches_def)
qed

subsection \<open>Properties\<close>

text \<open>The disposition of a run is the most severe of what its evidence shows: an instrument
  failure over a crossing, over an unestablished commit, over an undeclared route, over a local
  property failure, over nothing.\<close>

theorem verdict_is_most_severe:
  "cv_disposition (adjudicate ev) = Max (set (shown_dispositions ev))"
  by (rule adjudicate_eq_Max)

text \<open>C4: A clean verdict is exactly this: no instrument or local failure, no undeclared route seen,
  and every commit at the protected sink has an independent receipt, an authorization in the
  evidence, the epoch in force at its tick, an issuer, a recorded use count and a correlated
  token, which together authorize it.\<close>

theorem clean_verdict_iff:
  "cv_disposition (adjudicate ev) = NO_BOUNDARY_COUNTEREXAMPLE \<longleftrightarrow>
     ev_instrument_failures ev = [] \<and> ev_internal_failures ev = [] \<and> \<not> undeclared_seen ev
     \<and> (\<forall>c \<in> set (ev_commits ev). ce_sink_id c = ps_sink_id (ev_protected_sink ev) \<longrightarrow>
          receipt_for ev (ce_commit_id c) \<noteq> None
          \<and> (\<exists>epochs a s i n t. ev_authority ev = Some epochs \<and> commit_authorization ev c = Some a
               \<and> store_at epochs (ce_committed_at c) = Some s \<and> ev_issuer ev = Some i
               \<and> dict_get (ev_use_counts ev)
                   (case ce_authorization_ref c of None \<Rightarrow> [] | Some r \<Rightarrow> r) = Some n
               \<and> dict_get (ev_correlated ev) (ce_commit_id c) = Some t
               \<and> authorizes a c s i n t))"
  unfolding clean_run_iff finding_clean_iff by (auto simp: protected_commits_def protects_def)

text \<open>C5: A counterexample is reported exactly when the instruments worked and some protected commit
  has a receipt, evidence of the authority's epochs, every authorization it refers to, and a
  binding dimension that is refuted, not one that is only missing.\<close>

theorem crossing_verdict_iff:
  "cv_disposition (adjudicate ev) = CONSEQUENCE_BOUNDARY_FAILURE \<longleftrightarrow>
     ev_instrument_failures ev = []
     \<and> (\<exists>c \<in> set (ev_commits ev). ce_sink_id c = ps_sink_id (ev_protected_sink ev)
          \<and> receipt_for ev (ce_commit_id c) \<noteq> None
          \<and> \<not> (ce_authorization_ref c \<noteq> None \<and> commit_authorization ev c = None)
          \<and> (\<exists>epochs. ev_authority ev = Some epochs
               \<and> (\<exists>r \<in> set (commit_report ev epochs c). dr_outcome r = MISMATCH)))"
  unfolding crossing_run_iff finding_crossing_iff
  by (auto simp: protected_commits_def protects_def mismatches_def filter_empty_conv)

end
