(* ===== verification/Evidence_Graph.thy ===== *)
theory Evidence_Graph
  imports Py_Json "HOL-Library.Product_Lexorder"
begin

section \<open>The evidence graph of one commit\<close>

text \<open>
  \<open>oat/evidence/graph.py\<close>: nodes and edges of a commit chain, the audit of the material
  edges and the assembly from the evidence that was collected.
\<close>

definition REQUIRED_EDGES :: "(string \<times> string) list" where
  "REQUIRED_EDGES = [
     (''agent'', ''principal''),
     (''principal'', ''route''),
     (''route'', ''attempted_action''),
     (''attempted_action'', ''authorization_decision''),
     (''authorization_decision'', ''authorization_artifact''),
     (''authorization_artifact'', ''authority_state_at_issue''),
     (''authority_state_at_issue'', ''authority_state_at_commit''),
     (''authority_state_at_commit'', ''sink_decision''),
     (''sink_decision'', ''committed_consequence''),
     (''committed_consequence'', ''independent_receipt''),
     (''independent_receipt'', ''verifier_trace''),
     (''verifier_trace'', ''disposition'')]"

record evidence_graph =
  eg_nodes :: "(string, json) dict"
  eg_edges :: "(string \<times> string) list"

definition empty_graph :: evidence_graph where
  "empty_graph = \<lparr>eg_nodes = [], eg_edges = []\<rparr>"

definition add_node :: "string \<Rightarrow> json \<Rightarrow> evidence_graph \<Rightarrow> evidence_graph" where
  "add_node kind payload g = g\<lparr>eg_nodes := dict_set kind payload (eg_nodes g)\<rparr>"

definition add_edge :: "string \<times> string \<Rightarrow> evidence_graph \<Rightarrow> evidence_graph" where
  "add_edge e g = (if e \<in> set (eg_edges g) then g else g\<lparr>eg_edges := eg_edges g @ [e]\<rparr>)"

definition edge_json :: "string \<times> string \<Rightarrow> json" where
  "edge_json e = JStrs [fst e, snd e]"

definition graph_dict :: "evidence_graph \<Rightarrow> json" where
  "graph_dict g = JObj [
     (''nodes'', JObj (map (\<lambda>k. (k, the (dict_get (eg_nodes g) k))) (sort (map fst (eg_nodes g))))),
     (''edges'', JList (map edge_json (sort (eg_edges g))))]"

definition graph_digest :: "evidence_graph \<Rightarrow> string" where
  "graph_digest g = digest_object (graph_dict g)"

subsection \<open>The audit\<close>

record graph_audit =
  ga_present :: "(string \<times> string) list"
  ga_missing :: "(string \<times> string) list"

definition audit_complete :: "graph_audit \<Rightarrow> bool" where
  "audit_complete a \<longleftrightarrow> ga_missing a = []"

definition graph_audit_dict :: "graph_audit \<Rightarrow> json" where
  "graph_audit_dict a = JObj [(''present_edges'', JList (map edge_json (ga_present a))),
     (''missing_edges'', JList (map edge_json (ga_missing a))),
     (''complete'', JBool (audit_complete a))]"

definition audit :: "evidence_graph \<Rightarrow> graph_audit" where
  "audit g = \<lparr>ga_present = filter (\<lambda>e. e \<in> set (eg_edges g)) REQUIRED_EDGES,
              ga_missing = filter (\<lambda>e. e \<notin> set (eg_edges g)) REQUIRED_EDGES\<rparr>"

subsection \<open>Assembly\<close>

text \<open>What may have been collected; \<open>None\<close> is evidence that was not.\<close>

record graph_input =
  gi_agent_id :: string
  gi_principal_id :: string
  gi_route_id :: string
  gi_action_digest :: string
  gi_authorization :: "json option"
  gi_authority_at_issue :: "json option"
  gi_authority_at_commit :: "json option"
  gi_sink_decision :: "json option"
  gi_commit :: "json option"
  gi_receipt :: "json option"
  gi_verifier_trace :: "json option"
  gi_disposition :: "string option"

definition optional_nodes :: "graph_input \<Rightarrow> (string \<times> json option) list" where
  "optional_nodes x = [
     (''authorization_decision'',
        case gi_authorization x of None \<Rightarrow> None
        | Some a \<Rightarrow> if truthy a then Some (JObj [(''decision'', jget_or a ''decision'' JNull)]) else None),
     (''authorization_artifact'', gi_authorization x),
     (''authority_state_at_issue'', gi_authority_at_issue x),
     (''authority_state_at_commit'', gi_authority_at_commit x),
     (''sink_decision'', gi_sink_decision x),
     (''committed_consequence'', gi_commit x),
     (''independent_receipt'', gi_receipt x),
     (''verifier_trace'', gi_verifier_trace x),
     (''disposition'',
        case gi_disposition x of None \<Rightarrow> None
        | Some d \<Rightarrow> if d \<noteq> [] then Some (JObj [(''disposition'', JStr d)]) else None)]"

definition base_graph :: "graph_input \<Rightarrow> evidence_graph" where
  "base_graph x =
     add_edge (''route'', ''attempted_action'') (add_edge (''principal'', ''route'')
       (add_edge (''agent'', ''principal'')
         (add_node ''attempted_action'' (JObj [(''action_digest'', JStr (gi_action_digest x))])
           (add_node ''route'' (JObj [(''route_id'', JStr (gi_route_id x))])
             (add_node ''principal'' (JObj [(''principal_id'', JStr (gi_principal_id x))])
               (add_node ''agent'' (JObj [(''agent_id'', JStr (gi_agent_id x))]) empty_graph))))))"

definition add_optional :: "string \<times> json option \<Rightarrow> evidence_graph \<Rightarrow> evidence_graph" where
  "add_optional kp g = (case snd kp of None \<Rightarrow> g | Some payload \<Rightarrow> add_node (fst kp) payload g)"

definition connect :: "string \<times> string \<Rightarrow> evidence_graph \<Rightarrow> evidence_graph" where
  "connect e g = (if dict_get (eg_nodes g) (fst e) \<noteq> None \<and> dict_get (eg_nodes g) (snd e) \<noteq> None
                  then add_edge e g else g)"

definition build_graph :: "graph_input \<Rightarrow> evidence_graph" where
  "build_graph x = fold connect REQUIRED_EDGES (fold add_optional (optional_nodes x) (base_graph x))"

subsection \<open>What the graph shows\<close>

definition has_node :: "evidence_graph \<Rightarrow> string \<Rightarrow> bool" where
  "has_node g k \<longleftrightarrow> dict_get (eg_nodes g) k \<noteq> None"

lemma has_node_add [simp]: "has_node (add_node k p g) j \<longleftrightarrow> j = k \<or> has_node g j"
  by (simp add: has_node_def add_node_def)

lemma edges_add [simp]:
  "set (eg_edges (add_edge e g)) = insert e (set (eg_edges g))"
  "eg_nodes (add_edge e g) = eg_nodes g"
  "eg_edges (add_node k p g) = eg_edges g"
  by (auto simp: add_edge_def add_node_def)

lemma has_node_add_edge [simp]: "has_node (add_edge e g) = has_node g"
  by (simp add: has_node_def fun_eq_iff)

lemma connect_nodes [simp]: "has_node (connect e g) = has_node g"
  by (simp add: connect_def)

lemma connect_edges:
  "set (eg_edges (connect e g)) =
     set (eg_edges g) \<union> (if has_node g (fst e) \<and> has_node g (snd e) then {e} else {})"
  by (auto simp: connect_def has_node_def)

lemma fold_connect:
  "has_node (fold connect es g) = has_node g"
  "set (eg_edges (fold connect es g)) =
     set (eg_edges g) \<union> {e \<in> set es. has_node g (fst e) \<and> has_node g (snd e)}"
  by (induction es arbitrary: g) (auto simp: connect_edges)

lemma add_optional_has_node [simp]:
  "has_node (add_optional kp g) j \<longleftrightarrow> (j = fst kp \<and> snd kp \<noteq> None) \<or> has_node g j"
  by (auto simp: add_optional_def split: option.split)

lemma fold_optional:
  "has_node (fold add_optional kps g) j \<longleftrightarrow> (\<exists>p. (j, Some p) \<in> set kps) \<or> has_node g j"
  "eg_edges (fold add_optional kps g) = eg_edges g"
  by (induction kps arbitrary: g) (auto simp: add_optional_def split: option.splits)

lemma base_graph_simps [simp]:
  "has_node (base_graph x) j \<longleftrightarrow> j \<in> {''agent'', ''principal'', ''route'', ''attempted_action''}"
  "set (eg_edges (base_graph x)) = {(''agent'', ''principal''), (''principal'', ''route''),
     (''route'', ''attempted_action'')}"
  by (auto simp: base_graph_def empty_graph_def has_node_def [of "\<lparr>eg_nodes = [], eg_edges = []\<rparr>"])

lemma build_graph_node:
  "has_node (build_graph x) j \<longleftrightarrow>
     j \<in> {''agent'', ''principal'', ''route'', ''attempted_action''}
     \<or> (\<exists>p. (j, Some p) \<in> set (optional_nodes x))"
  by (auto simp: build_graph_def fold_connect fold_optional)

text \<open>The edges are the required ones whose two endpoints were collected.\<close>

lemma build_graph_edges:
  "set (eg_edges (build_graph x)) =
     {e \<in> set REQUIRED_EDGES. has_node (build_graph x) (fst e) \<and> has_node (build_graph x) (snd e)}"
proof -
  have "set (eg_edges (base_graph x)) \<subseteq>
      {e \<in> set REQUIRED_EDGES. has_node (base_graph x) (fst e) \<and> has_node (base_graph x) (snd e)}"
    by (simp add: REQUIRED_EDGES_def)
  then show ?thesis
    by (auto simp: build_graph_def fold_connect fold_optional)
qed

lemma audit_build:
  "set (ga_missing (audit (build_graph x))) =
     {e \<in> set REQUIRED_EDGES. \<not> (has_node (build_graph x) (fst e) \<and> has_node (build_graph x) (snd e))}"
  by (auto simp: audit_def build_graph_edges)

lemma audit_partition:
  "set (ga_present (audit g)) \<union> set (ga_missing (audit g)) = set REQUIRED_EDGES"
  "set (ga_present (audit g)) \<inter> set (ga_missing (audit g)) = {}"
  by (auto simp: audit_def)

lemma audit_complete_iff:
  "audit_complete (audit (build_graph x)) \<longleftrightarrow>
     (\<forall>kp \<in> set (optional_nodes x). snd kp \<noteq> None)"
proof -
  have "audit_complete (audit (build_graph x)) \<longleftrightarrow>
      (\<forall>e \<in> set REQUIRED_EDGES. has_node (build_graph x) (fst e) \<and> has_node (build_graph x) (snd e))"
    unfolding audit_complete_def using audit_build [of x] by (metis (no_types, lifting) Collect_empty_eq set_empty)
  also have "\<dots> \<longleftrightarrow> (\<forall>k \<in> fst ` set (optional_nodes x). has_node (build_graph x) k)"
    by (simp add: REQUIRED_EDGES_def build_graph_node optional_nodes_def)
  also have "\<dots> \<longleftrightarrow> (\<forall>kp \<in> set (optional_nodes x). snd kp \<noteq> None)"
    by (simp add: build_graph_node optional_nodes_def eq_commute [of "Some _"])
  finally show ?thesis .
qed

subsection \<open>Properties\<close>

text \<open>The audit of an assembled graph is exact: an edge is present when both its endpoints were
  collected and missing otherwise, and the graph is complete exactly when no piece of evidence was
  left out.\<close>

theorem graph_audit_exact:
  "set (ga_present (audit (build_graph x))) =
     {e \<in> set REQUIRED_EDGES. has_node (build_graph x) (fst e) \<and> has_node (build_graph x) (snd e)}
   \<and> set (ga_missing (audit (build_graph x))) = set REQUIRED_EDGES - set (ga_present (audit (build_graph x)))
   \<and> (audit_complete (audit (build_graph x)) \<longleftrightarrow> (\<forall>kp \<in> set (optional_nodes x). snd kp \<noteq> None))"
  using audit_complete_iff [of x] by (auto simp: audit_def build_graph_edges)

end
