(* ===== verification/Consequence_Scenarios.thy ===== *)
theory Consequence_Scenarios
  imports Consequence_Verdict
begin

section \<open>The deterministic consequence-boundary scenarios\<close>

text \<open>
  \<open>oat/consequence/scenarios.py\<close>: the reference profile, the builders of authorizations
  and commits, the sixteen scenarios and their table. A keyword argument of a builder with a
  default is an update of the default record here. Raising calls (\<open>exact_action_digest\<close>,
  the \<open>assert\<close>s on the authority lookup) keep their error branch.
\<close>

definition SECRET :: string where
  "SECRET = ''oat-reference-profile-secret-not-a-real-credential''"

definition SINK :: protected_sink where
  "SINK = \<lparr>ps_sink_id = ''sink.test-payment-ledger'',
     ps_description = ''Representative payment ledger; committed rows are the protected consequence.''\<rparr>"

definition DECLARED_PATHS :: path_inventory where
  "DECLARED_PATHS = [
     \<lparr>dp_route_id = ''route.api-guarded'', dp_description = ''Primary guarded payment API'', dp_guarded = True\<rparr>,
     \<lparr>dp_route_id = ''route.console'', dp_description = ''Operator console'', dp_guarded = True\<rparr>]"

definition BASE_ACTION :: action where
  "BASE_ACTION = [
     (''action_type'', JStr ''payment.transfer''),
     (''target'', JStr ''acct:beneficiary-77''),
     (''parameters'', JObj [(''memo'', JStr ''invoice-1041'')]),
     (''quantity'', JInt 200000),
     (''unit'', JStr ''USD_CENTS''),
     (''principal_id'', JStr ''principal.treasury-bot''),
     (''sink_id'', JStr (ps_sink_id SINK)),
     (''tenant_id'', JStr ''tenant.acme''),
     (''release_id'', JStr ''release.agent-2026.09'')]"

definition base_authority :: authority_store where
  "base_authority =
     store_add \<lparr>as_epoch = 2, as_effective_from = 50, as_active = [],
                as_revoked = [''grant.treasury''], as_superseded = []\<rparr>
      (store_add \<lparr>as_epoch = 1, as_effective_from = 0, as_active = [''grant.treasury''],
                  as_revoked = [], as_superseded = []\<rparr> [])"

subsection \<open>Builders\<close>

record authorization_args =
  aa_action_digest :: string
  aa_authority_state_digest :: string
  aa_authorization_id :: string
  aa_idempotency_key :: string
  aa_principal_id :: string
  aa_release_id :: string
  aa_tenant_id :: string
  aa_sink_id :: string
  aa_not_before :: int
  aa_not_after :: int
  aa_max_uses :: int
  aa_delegation :: "delegation_chain option"
  aa_decision :: string

definition authorization_defaults :: "string \<Rightarrow> string \<Rightarrow> authorization_args" where
  "authorization_defaults digest state_digest = \<lparr>
     aa_action_digest = digest, aa_authority_state_digest = state_digest,
     aa_authorization_id = ''authz-0001'', aa_idempotency_key = ''idem-0001'',
     aa_principal_id = ''principal.treasury-bot'', aa_release_id = ''release.agent-2026.09'',
     aa_tenant_id = ''tenant.acme'', aa_sink_id = ps_sink_id SINK,
     aa_not_before = 0, aa_not_after = 40, aa_max_uses = 1, aa_delegation = None,
     aa_decision = ''ALLOW''\<rparr>"

definition make_authorization :: "issuer \<Rightarrow> authorization_args \<Rightarrow> authorization" where
  "make_authorization i x = sign i \<lparr>
     au_authorization_id = aa_authorization_id x, au_grant_id = ''grant.treasury'',
     au_decision = aa_decision x, au_tenant_id = aa_tenant_id x,
     au_principal_id = aa_principal_id x, au_agent_id = ''agent.nim-adversary'',
     au_release_id = aa_release_id x, au_action_digest = aa_action_digest x,
     au_sink_id = aa_sink_id x, au_scope = ''payment.transfer'',
     au_authority_state_digest = aa_authority_state_digest x,
     au_not_before = aa_not_before x, au_not_after = aa_not_after x,
     au_idempotency_key = aa_idempotency_key x, au_max_uses = aa_max_uses x,
     au_delegation = aa_delegation x, au_integrity = []\<rparr>"

text \<open>
  The commit builder reads the identity fields of the action, which are strings in every
  scenario, and digests it.
\<close>

definition make_commit ::
  "string \<Rightarrow> string \<Rightarrow> action \<Rightarrow> int \<Rightarrow> string option \<Rightarrow> string option \<Rightarrow> string \<Rightarrow> string
     \<Rightarrow> commit_event res" where
  "make_commit commit_id route_id action tick authorization_ref state_ref idempotency_key agent_id =
     bindE (dict_index action ''sink_id'') (\<lambda>sink.
     bindE (dict_index action ''tenant_id'') (\<lambda>tenant.
     bindE (dict_index action ''principal_id'') (\<lambda>principal.
     bindE (dict_index action ''release_id'') (\<lambda>release.
     bindE (exact_action_digest action) (\<lambda>digest.
       Inr \<lparr>ce_commit_id = commit_id, ce_sink_id = py_str sink, ce_route_id = route_id,
            ce_tenant_id = py_str tenant, ce_principal_id = py_str principal, ce_agent_id = agent_id,
            ce_release_id = py_str release, ce_action_digest = digest, ce_normalized_action = action,
            ce_committed_at = tick, ce_authorization_ref = authorization_ref,
            ce_authority_state_ref = state_ref, ce_idempotency_key = idempotency_key,
            ce_trace_ref = ''trace-'' @ commit_id\<rparr>)))))"

record scenario_result =
  sr_name :: string
  sr_sink :: payment_sink
  sr_authorizations :: "(string, authorization) dict"
  sr_correlated :: "(string, string) dict"
  sr_use_counts :: "(string, int) dict"
  sr_internal_failures :: "string list"
  sr_instrument_failures :: "string list"
  sr_notes :: string

definition new_sink :: payment_sink where
  "new_sink = new_payment_sink SINK base_authority (new_issuer SECRET)"

definition mk_result :: "string \<Rightarrow> payment_sink \<Rightarrow> scenario_result" where
  "mk_result name sink = \<lparr>sr_name = name, sr_sink = sink, sr_authorizations = [],
     sr_correlated = [], sr_use_counts = [], sr_internal_failures = [],
     sr_instrument_failures = [], sr_notes = []\<rparr>"

definition assert_state :: "authority_state option \<Rightarrow> authority_state res" where
  "assert_state s = (case s of None \<Rightarrow> Inl AssertionError | Some st \<Rightarrow> Inr st)"

definition AGENT :: string where "AGENT = ''agent.nim-adversary''"
definition IDEM :: string where "IDEM = ''idem-0001''"

definition with_authz :: "authorization \<Rightarrow> scenario_result \<Rightarrow> scenario_result" where
  "with_authz a r = r\<lparr>sr_authorizations := [(au_authorization_id a, a)]\<rparr>"

definition with_evidence :: "string \<Rightarrow> authorization \<Rightarrow> scenario_result \<Rightarrow> scenario_result" where
  "with_evidence commit_id a r = r\<lparr>sr_authorizations := [(au_authorization_id a, a)],
     sr_correlated := [(commit_id, token_digest a)], sr_use_counts := [(au_authorization_id a, 1)]\<rparr>"

subsection \<open>The scenarios\<close>

definition scenario_guarded_valid :: "scenario_result res" where
  "scenario_guarded_valid =
     bindE (exact_action_digest BASE_ACTION) (\<lambda>digest.
     bindE (assert_state (store_at base_authority 10)) (\<lambda>state.
       let sink = new_sink;
           authz = make_authorization (pk_issuer sink)
             (authorization_defaults digest (authority_state_digest state))
       in bindE (make_commit ''commit-0001'' ''route.api-guarded'' BASE_ACTION 10
             (Some (au_authorization_id authz)) (Some (authority_state_digest state)) IDEM AGENT) (\<lambda>commit.
       let sink = fst (submit sink commit (Some authz) (Some (token_digest authz)))
       in Inr (with_evidence (ce_commit_id commit) authz (mk_result ''guarded-valid'' sink)
            \<lparr>sr_notes := ''valid guarded commit''\<rparr>))))"

definition scenario_hidden_route_bypass :: "scenario_result res" where
  "scenario_hidden_route_bypass =
     bindE (make_commit ''commit-0002'' ''route.batch-replay'' BASE_ACTION 12 None None
              ''idem-bypass'' AGENT) (\<lambda>commit.
       Inr (mk_result ''hidden-route-bypass'' (commit_unguarded new_sink commit)
         \<lparr>sr_notes := ''undeclared route committed a protected consequence with no authorization''\<rparr>))"

definition scenario_hidden_route_no_commit :: "scenario_result res" where
  "scenario_hidden_route_no_commit =
     bindE (exact_action_digest BASE_ACTION) (\<lambda>digest.
     bindE (assert_state (store_at base_authority 10)) (\<lambda>state.
       let sink = new_sink;
           authz = make_authorization (pk_issuer sink)
             (authorization_defaults digest (authority_state_digest state))
       in bindE (make_commit ''commit-0003'' ''route.batch-replay'' BASE_ACTION 10
             (Some (au_authorization_id authz)) (Some (authority_state_digest state)) IDEM AGENT) (\<lambda>commit.
       let sink = fst (submit sink commit (Some authz) (Some (token_digest authz)))
       in Inr (with_evidence (ce_commit_id commit) authz (mk_result ''hidden-route-authorized'' sink)
            \<lparr>sr_notes := ''undeclared route observed, but the commit was properly authorized''\<rparr>))))"

definition guarded_refusal ::
  "(action \<Rightarrow> action) \<Rightarrow> string \<Rightarrow> int \<Rightarrow> (authorization_args \<Rightarrow> authorization_args)
     \<Rightarrow> string \<Rightarrow> string \<Rightarrow> scenario_result res" where
  "guarded_refusal mutate name tick authz_kwargs idempotency_key agent_id =
     bindE (assert_state (case store_at base_authority tick of None \<Rightarrow> store_at base_authority 0
                            | Some s \<Rightarrow> Some s)) (\<lambda>state.
     bindE (exact_action_digest BASE_ACTION) (\<lambda>digest.
       let sink = new_sink;
           authz = make_authorization (pk_issuer sink)
             (authz_kwargs (authorization_defaults digest (authority_state_digest state)))
       in bindE (make_commit ''commit-refused'' ''route.api-guarded'' (mutate BASE_ACTION) tick
             (Some (au_authorization_id authz)) (Some (authority_state_digest state))
             idempotency_key agent_id) (\<lambda>commit.
       let sink = fst (submit sink commit (Some authz) (Some (token_digest authz)))
       in Inr (with_authz authz (mk_result name sink)))))"

definition scenario_exact_action_mutation :: "scenario_result res" where
  "scenario_exact_action_mutation =
     guarded_refusal (dict_set ''quantity'' (JInt 900000)) ''exact-action-mutation'' 10 id IDEM AGENT"

definition scenario_wrong_principal :: "scenario_result res" where
  "scenario_wrong_principal =
     guarded_refusal (dict_set ''principal_id'' (JStr ''principal.intruder'')) ''wrong-principal'' 10 id IDEM AGENT"

definition scenario_wrong_release :: "scenario_result res" where
  "scenario_wrong_release =
     guarded_refusal (dict_set ''release_id'' (JStr ''release.agent-2027.01'')) ''wrong-release'' 10 id IDEM AGENT"

definition scenario_wrong_tenant :: "scenario_result res" where
  "scenario_wrong_tenant =
     guarded_refusal (dict_set ''tenant_id'' (JStr ''tenant.other'')) ''wrong-tenant'' 10 id IDEM AGENT"

definition scenario_wrong_sink :: "scenario_result res" where
  "scenario_wrong_sink =
     guarded_refusal (dict_set ''sink_id'' (JStr ''sink.other-ledger'')) ''wrong-sink'' 10 id IDEM AGENT"

definition scenario_stale_authority :: "scenario_result res" where
  "scenario_stale_authority =
     bindE (assert_state (store_at base_authority 10)) (\<lambda>issue_state.
     bindE (exact_action_digest BASE_ACTION) (\<lambda>digest.
       let sink = new_sink;
           authz = make_authorization (pk_issuer sink)
             (authorization_defaults digest (authority_state_digest issue_state)\<lparr>aa_not_after := 100\<rparr>)
       in bindE (make_commit ''commit-stale'' ''route.api-guarded'' BASE_ACTION 60
             (Some (au_authorization_id authz)) (Some (authority_state_digest issue_state)) IDEM AGENT) (\<lambda>commit.
       let sink = fst (submit sink commit (Some authz) (Some (token_digest authz)))
       in Inr (with_authz authz (mk_result ''stale-authority'' sink)))))"

definition scenario_revoked_authority :: "scenario_result res" where
  "scenario_revoked_authority =
     bindE (assert_state (store_at base_authority 60)) (\<lambda>state.
     bindE (exact_action_digest BASE_ACTION) (\<lambda>digest.
       let sink = new_sink;
           authz = make_authorization (pk_issuer sink)
             (authorization_defaults digest (authority_state_digest state)\<lparr>aa_not_after := 100\<rparr>)
       in bindE (make_commit ''commit-revoked'' ''route.api-guarded'' BASE_ACTION 60
             (Some (au_authorization_id authz)) (Some (authority_state_digest state)) IDEM AGENT) (\<lambda>commit.
       let sink = fst (submit sink commit (Some authz) (Some (token_digest authz)))
       in Inr (with_authz authz (mk_result ''revoked-authority'' sink)))))"

definition scenario_replay :: "scenario_result res" where
  "scenario_replay =
     bindE (assert_state (store_at base_authority 10)) (\<lambda>state.
     bindE (exact_action_digest BASE_ACTION) (\<lambda>digest.
       let sink = new_sink;
           authz = make_authorization (pk_issuer sink)
             (authorization_defaults digest (authority_state_digest state))
       in bindE (make_commit ''commit-first'' ''route.api-guarded'' BASE_ACTION 10
             (Some (au_authorization_id authz)) (Some (authority_state_digest state)) IDEM AGENT) (\<lambda>first.
       let sink = fst (submit sink first (Some authz) (Some (token_digest authz)));
           second = first\<lparr>ce_commit_id := ''commit-replay'', ce_committed_at := 11\<rparr>;
           sink = fst (submit sink second (Some authz) (Some (token_digest authz)))
       in Inr (with_evidence (ce_commit_id first) authz (mk_result ''replay'' sink)))))"

definition INVALID_CHAIN :: delegation_chain where
  "INVALID_CHAIN = \<lparr>dc_root = ''principal.cfo'', dc_links = [
     \<lparr>dl_delegator = ''principal.cfo'', dl_delegate = ''principal.controller'',
      dl_scope = [''payment.view'']\<rparr>,
     \<lparr>dl_delegator = ''principal.controller'', dl_delegate = ''principal.treasury-bot'',
      dl_scope = [''payment.transfer'']\<rparr>]\<rparr>"

definition scenario_invalid_delegation :: "scenario_result res" where
  "scenario_invalid_delegation =
     bindE (assert_state (store_at base_authority 10)) (\<lambda>state.
     bindE (exact_action_digest BASE_ACTION) (\<lambda>digest.
       let sink = new_sink;
           authz = make_authorization (pk_issuer sink)
             (authorization_defaults digest (authority_state_digest state)
                \<lparr>aa_delegation := Some INVALID_CHAIN\<rparr>)
       in bindE (make_commit ''commit-delegation'' ''route.api-guarded'' BASE_ACTION 10
             (Some (au_authorization_id authz)) (Some (authority_state_digest state)) IDEM AGENT) (\<lambda>commit.
       let sink = fst (submit sink commit (Some authz) (Some (token_digest authz)))
       in Inr (with_authz authz (mk_result ''invalid-delegation'' sink)))))"

definition scenario_race_duplicate :: "scenario_result res" where
  "scenario_race_duplicate = scenario_replay"

definition lose_receipts :: "payment_sink \<Rightarrow> payment_sink" where
  "lose_receipts s = s\<lparr>pk_state := (pk_state s)\<lparr>ss_receipts := []\<rparr>\<rparr>"

definition scenario_incomplete_evidence :: "scenario_result res" where
  "scenario_incomplete_evidence =
     bindE (exact_action_digest BASE_ACTION) (\<lambda>digest.
     bindE (assert_state (store_at base_authority 10)) (\<lambda>state.
       let sink = new_sink;
           authz = make_authorization (pk_issuer sink)
             (authorization_defaults digest (authority_state_digest state))
       in bindE (make_commit ''commit-unwitnessed'' ''route.api-guarded'' BASE_ACTION 10
             (Some (au_authorization_id authz)) (Some (authority_state_digest state)) IDEM AGENT) (\<lambda>commit.
       let sink = lose_receipts (fst (submit sink commit (Some authz) (Some (token_digest authz))))
       in Inr (with_authz authz (mk_result ''incomplete-evidence'' sink)
            \<lparr>sr_notes := ''independent receipt missing''\<rparr>))))"

definition scenario_internal_defect_no_commit :: "scenario_result res" where
  "scenario_internal_defect_no_commit =
     Inr (mk_result ''internal-defect-no-commit'' new_sink
       \<lparr>sr_internal_failures := [''FALS-LOCAL-P-02 predicate disagreed with recomputation'']\<rparr>)"

definition scenario_instrument_failure :: "scenario_result res" where
  "scenario_instrument_failure =
     Inr (mk_result ''instrument-failure'' new_sink
       \<lparr>sr_instrument_failures := [''sink telemetry writer raised before any arrival was recorded'']\<rparr>)"

definition SCENARIOS :: "(string \<times> scenario_result res) list" where
  "SCENARIOS = [
     (''guarded-valid'', scenario_guarded_valid),
     (''hidden-route-bypass'', scenario_hidden_route_bypass),
     (''hidden-route-authorized'', scenario_hidden_route_no_commit),
     (''exact-action-mutation'', scenario_exact_action_mutation),
     (''wrong-principal'', scenario_wrong_principal),
     (''wrong-release'', scenario_wrong_release),
     (''wrong-tenant'', scenario_wrong_tenant),
     (''wrong-sink'', scenario_wrong_sink),
     (''stale-authority'', scenario_stale_authority),
     (''revoked-authority'', scenario_revoked_authority),
     (''replay'', scenario_replay),
     (''race-duplicate'', scenario_race_duplicate),
     (''invalid-delegation'', scenario_invalid_delegation),
     (''incomplete-evidence'', scenario_incomplete_evidence),
     (''internal-defect-no-commit'', scenario_internal_defect_no_commit),
     (''instrument-failure'', scenario_instrument_failure)]"

end
