(* ===== verification/Consequence_Replay.thy ===== *)
theory Consequence_Replay
  imports Consequence_Scenarios Evidence_Graph
begin

section \<open>Deterministic runs, their packages and their replay\<close>

text \<open>
  \<open>oat/evidence/replay.py\<close>: the verifier input assembled from a scenario, the evidence
  graphs, the sealed package of a run, its verification and its replay. Reading and writing the
  package file is left out; a package here is the parsed document.
\<close>

definition RUN_FORM :: string where
  "RUN_FORM = ''oat-consequence-run/1''"

definition evidence_from_scenario :: "scenario_result \<Rightarrow> consequence_evidence" where
  "evidence_from_scenario sc =
     \<lparr>ev_protected_sink = pk_sink (sr_sink sc),
      ev_commits = ss_commits (pk_state (sr_sink sc)),
      ev_receipts = ss_receipts (pk_state (sr_sink sc)),
      ev_authorizations = sr_authorizations sc,
      ev_authority = Some (pk_authority (sr_sink sc)),
      ev_issuer = Some (pk_issuer (sr_sink sc)),
      ev_correlated = sr_correlated sc,
      ev_use_counts = sr_use_counts sc,
      ev_reconciliation = Some (reconcile DECLARED_PATHS (observations_from_sink (sr_sink sc))),
      ev_internal_failures = sr_internal_failures sc,
      ev_instrument_failures = sr_instrument_failures sc\<rparr>"

subsection \<open>The graphs\<close>

text \<open>\<open>by_commit\<close> is a comprehension: a later finding for the same commit replaces it.\<close>

definition findings_by_commit :: "consequence_verdict \<Rightarrow> (string, commit_finding) dict" where
  "findings_by_commit v = fold (\<lambda>f d. dict_set (cf_commit_id f) f d) (cv_findings v) []"

definition commit_graph_input :: "scenario_result \<Rightarrow> consequence_verdict \<Rightarrow> commit_event \<Rightarrow> graph_input" where
  "commit_graph_input sc v c =
     (let authz = (case ce_authorization_ref c of None \<Rightarrow> None
                   | Some ref \<Rightarrow> if ref \<noteq> [] then dict_get (sr_authorizations sc) ref else None);
          receipt = find_receipt (ce_commit_id c) (ss_receipts (pk_state (sr_sink sc)));
          at_commit = store_at (pk_authority (sr_sink sc)) (ce_committed_at c);
          fnd = dict_get (findings_by_commit v) (ce_commit_id c);
          log = pk_interlock_log (sr_sink sc)
      in \<lparr>gi_agent_id = ce_agent_id c, gi_principal_id = ce_principal_id c,
          gi_route_id = ce_route_id c, gi_action_digest = ce_action_digest c,
          gi_authorization = map_option authorization_dict authz,
          gi_authority_at_issue =
            (if authz \<noteq> None then map_option authority_state_dict at_commit else None),
          gi_authority_at_commit = map_option authority_state_dict at_commit,
          gi_sink_decision = (if log \<noteq> [] then Some (interlock_decision_dict (last log)) else None),
          gi_commit = Some (commit_event_dict c),
          gi_receipt = map_option receipt_dict receipt,
          gi_verifier_trace = map_option finding_dict fnd,
          gi_disposition = map_option (\<lambda>f. disposition_str (cf_disposition f)) fnd\<rparr>)"

definition graphs :: "scenario_result \<Rightarrow> consequence_verdict \<Rightarrow> json list" where
  "graphs sc v = map (\<lambda>c. let g = build_graph (commit_graph_input sc v c) in
       JObj [(''commit_id'', JStr (ce_commit_id c)), (''graph'', graph_dict g),
             (''audit'', graph_audit_dict (audit g)), (''graph_digest'', JStr (graph_digest g))])
     (ss_commits (pk_state (sr_sink sc)))"

subsection \<open>Packages\<close>

definition sealed :: "(string \<times> json) list \<Rightarrow> (string \<times> json) list" where
  "sealed package = dict_set ''evidence_digest'' (JStr (digest_object (JObj package))) package"

definition scenario_package :: "string \<Rightarrow> scenario_result \<Rightarrow> (string \<times> json) list" where
  "scenario_package name sc =
     (let v = adjudicate (evidence_from_scenario sc) in sealed [
        (''run_form'', JStr RUN_FORM),
        (''scenario'', JStr name),
        (''notes'', JStr (sr_notes sc)),
        (''status'', JStr ''METHOD_DEVELOPMENT_ONLY''),
        (''claim_bearing_use'', JStr ''PROHIBITED''),
        (''provider_run_occurred'', JBool False),
        (''sink'', payment_sink_dict (sr_sink sc)),
        (''authority'', store_dict (pk_authority (sr_sink sc))),
        (''authorizations'', JObj (map (\<lambda>(k, a). (k, authorization_dict a))
                                (sort_key fst (sr_authorizations sc)))),
        (''verdict'', verdict_dict v),
        (''evidence_graphs'', JList (graphs sc v))])"

definition run_scenario :: "string \<Rightarrow> (string \<times> json) list res" where
  "run_scenario name =
     (case dict_get SCENARIOS name of
        None \<Rightarrow> Inl (KeyError (''unknown scenario '' @ repr_str name @ ''; known: ''
                 @ join '', '' (sort (map fst SCENARIOS))))
      | Some sc \<Rightarrow> bindE sc (\<lambda>s. Inr (scenario_package name s)))"

definition verify_package :: "(string \<times> json) list \<Rightarrow> bool \<times> string" where
  "verify_package package =
     (let stored = dict_get package ''evidence_digest'';
          body = filter (\<lambda>(k, v). k \<noteq> ''evidence_digest'') package;
          recomputed = digest_object (JObj body)
      in if stored \<noteq> Some (JStr recomputed) then
           (False, ''evidence digest mismatch: stored '' @ py_str_opt stored
              @ '', recomputed '' @ recomputed)
         else (True, ''evidence digest matches''))"

definition replay_scenario :: "string \<Rightarrow> json \<Rightarrow> (bool \<times> string) res" where
  "replay_scenario name package =
     bindE (run_scenario name) (\<lambda>fresh.
     bindE (dict_index fresh ''verdict'') (\<lambda>fv.
     bindE (jindex fv ''disposition'') (\<lambda>fd.
     bindE (jindex package ''verdict'') (\<lambda>pv.
     bindE (jindex pv ''disposition'') (\<lambda>pd.
       if \<not> py_eq fd pd then
         Inr (False, ''disposition changed: '' @ py_str pd @ '' -> '' @ py_str fd)
       else
         bindE (dict_index fresh ''evidence_digest'') (\<lambda>fe.
         bindE (jindex package ''evidence_digest'') (\<lambda>pe.
           if \<not> py_eq fe pe then Inr (False, ''evidence digest is not reproducible'')
           else Inr (True, ''replay reproduced the disposition and digest exactly''))))))))"

end
