(* ===== verification/Scenario_Outcomes.thy ===== *)
theory Scenario_Outcomes
  imports Consequence_Replay
begin

section \<open>What the deterministic scenarios come to\<close>

text \<open>
  The scenarios are closed runs of the sink, so their dispositions are computed, with the
  digests left opaque: two equal digests are equal whatever SHA-256 is, and the one scenario
  that rests on two digests being different carries the collision that would refute it.
\<close>

definition epoch1 :: authority_state where
  "epoch1 = \<lparr>as_epoch = 1, as_effective_from = 0, as_active = [''grant.treasury''],
             as_revoked = [], as_superseded = []\<rparr>"

definition epoch2 :: authority_state where
  "epoch2 = \<lparr>as_epoch = 2, as_effective_from = 50, as_active = [],
             as_revoked = [''grant.treasury''], as_superseded = []\<rparr>"

lemma base_authority_epochs: "base_authority = [epoch1, epoch2]"
  by (simp add: base_authority_def store_add_def epoch1_def epoch2_def)

lemma base_authority_at [simp]:
  "store_at base_authority 0 = Some epoch1" "store_at base_authority 10 = Some epoch1"
  "store_at base_authority 11 = Some epoch1" "store_at base_authority 12 = Some epoch1"
  "store_at base_authority 60 = Some epoch2"
  by (simp_all add: base_authority_epochs store_at_def epoch1_def epoch2_def)

lemma status_epoch [simp]:
  "status_of epoch1 ''grant.treasury'' = ''ACTIVE''"
  "status_of epoch2 ''grant.treasury'' = ''REVOKED''"
  by (simp_all add: status_of_def epoch1_def epoch2_def)

lemma assert_state_Some [simp]: "assert_state (Some s) = Inr s"
  by (simp add: assert_state_def)

subsection \<open>Building\<close>

lemma normalize_BASE [simp]: "normalize_action BASE_ACTION = Inr BASE_ACTION"
  by (simp add: normalize_action_def EXACT_ACTION_FIELDS_def BASE_ACTION_def)

definition base_digest :: string where
  "base_digest = digest_object (JObj BASE_ACTION)"

lemma digest_BASE [simp]: "exact_action_digest BASE_ACTION = Inr base_digest"
  by (simp add: exact_action_digest_def base_digest_def)

text \<open>An update of a field of a normalised action keeps every field, and their order.\<close>

lemma update_map_keys:
  "k \<in> set ks \<Longrightarrow> distinct ks \<Longrightarrow>
     AList.update k v (map (\<lambda>f. (f, g f)) ks) = map (\<lambda>f. (f, if f = k then v else g f)) ks"
  by (induction ks) (auto simp: map_eq_conv)

lemma distinct_fields [simp]: "distinct EXACT_ACTION_FIELDS"
  by (simp add: EXACT_ACTION_FIELDS_def)

lemma normalize_set:
  assumes "normalize_action a = Inr a" "f \<in> set EXACT_ACTION_FIELDS"
  shows "normalize_action (dict_set f v a) = Inr (dict_set f v a)"
proof -
  from assms(1) have a: "a = map (\<lambda>f. (f, the (dict_get a f))) EXACT_ACTION_FIELDS"
    and all: "\<forall>f \<in> set EXACT_ACTION_FIELDS. dict_get a f \<noteq> None"
    by (auto simp: normalize_action_def Let_def filter_empty_conv split: if_splits)
  have "dict_set f v a = map (\<lambda>k. (k, if k = f then v else the (dict_get a k))) EXACT_ACTION_FIELDS"
    by (subst a) (simp only: dict_set_def update_map_keys [OF assms(2) distinct_fields])
  moreover have "filter (\<lambda>k. dict_get (dict_set f v a) k = None) EXACT_ACTION_FIELDS = []"
    using all by (auto simp: filter_empty_conv)
  moreover have "map (\<lambda>k. (k, the (dict_get (dict_set f v a) k))) EXACT_ACTION_FIELDS
      = map (\<lambda>k. (k, if k = f then v else the (dict_get a k))) EXACT_ACTION_FIELDS"
    by (rule map_cong) simp_all
  ultimately show ?thesis by (simp add: normalize_action_def)
qed

lemma identity_fields [simp]:
  "''quantity'' \<in> set EXACT_ACTION_FIELDS" "''principal_id'' \<in> set EXACT_ACTION_FIELDS"
  "''release_id'' \<in> set EXACT_ACTION_FIELDS" "''tenant_id'' \<in> set EXACT_ACTION_FIELDS"
  "''sink_id'' \<in> set EXACT_ACTION_FIELDS"
  by (simp_all add: EXACT_ACTION_FIELDS_def)

definition ref_commit ::
  "string \<Rightarrow> string \<Rightarrow> action \<Rightarrow> int \<Rightarrow> string option \<Rightarrow> string option \<Rightarrow> string \<Rightarrow> string \<Rightarrow> commit_event" where
  "ref_commit k route action tick aref sref idem agent =
     \<lparr>ce_commit_id = k, ce_sink_id = py_str (the (dict_get action ''sink_id'')), ce_route_id = route,
      ce_tenant_id = py_str (the (dict_get action ''tenant_id'')),
      ce_principal_id = py_str (the (dict_get action ''principal_id'')), ce_agent_id = agent,
      ce_release_id = py_str (the (dict_get action ''release_id'')),
      ce_action_digest = digest_object (JObj action), ce_normalized_action = action,
      ce_committed_at = tick, ce_authorization_ref = aref, ce_authority_state_ref = sref,
      ce_idempotency_key = idem, ce_trace_ref = ''trace-'' @ k\<rparr>"

lemma make_commit_ref:
  assumes "normalize_action action = Inr action"
  shows "make_commit k route action tick aref sref idem agent
    = Inr (ref_commit k route action tick aref sref idem agent)"
proof -
  have get: "\<exists>v. dict_get action f = Some v" if "f \<in> set EXACT_ACTION_FIELDS" for f
    using normalize_action_total_iff [of action] assms that by auto
  obtain w x y z where "dict_get action ''sink_id'' = Some w" "dict_get action ''tenant_id'' = Some x"
    "dict_get action ''principal_id'' = Some y" "dict_get action ''release_id'' = Some z"
    using get identity_fields by meson
  then show ?thesis
    by (simp add: make_commit_def ref_commit_def dict_index_def exact_action_digest_def assms)
qed

lemma made_authorization_simps [simp]:
  "au_authorization_id (make_authorization i x) = aa_authorization_id x"
  "au_grant_id (make_authorization i x) = ''grant.treasury''"
  "au_decision (make_authorization i x) = aa_decision x"
  "au_tenant_id (make_authorization i x) = aa_tenant_id x"
  "au_principal_id (make_authorization i x) = aa_principal_id x"
  "au_agent_id (make_authorization i x) = AGENT"
  "au_release_id (make_authorization i x) = aa_release_id x"
  "au_action_digest (make_authorization i x) = aa_action_digest x"
  "au_sink_id (make_authorization i x) = aa_sink_id x"
  "au_scope (make_authorization i x) = ''payment.transfer''"
  "au_authority_state_digest (make_authorization i x) = aa_authority_state_digest x"
  "au_not_before (make_authorization i x) = aa_not_before x"
  "au_not_after (make_authorization i x) = aa_not_after x"
  "au_idempotency_key (make_authorization i x) = aa_idempotency_key x"
  "au_max_uses (make_authorization i x) = aa_max_uses x"
  "au_delegation (make_authorization i x) = aa_delegation x"
  by (simp_all add: make_authorization_def sign_def AGENT_def)

lemma made_authorization_verifies [simp]: "verify_integrity i (make_authorization i x)"
  unfolding make_authorization_def by (rule verify_sign)

lemma new_sink_simps [simp]:
  "pk_sink new_sink = SINK" "pk_authority new_sink = base_authority"
  "pk_issuer new_sink = new_issuer SECRET" "pk_seen new_sink = {}"
  "pk_state new_sink = \<lparr>ss_commits = [], ss_receipts = []\<rparr>"
  "pk_route_log new_sink = []" "pk_interlock_log new_sink = []"
  by (simp_all add: new_sink_def new_payment_sink_def)

lemma use_count_new [simp]: "use_count (new_issuer s) k = 0"
  by (simp add: use_count_def new_issuer_def)

subsection \<open>Submitting to the reference sink\<close>

lemma defaults_simps [simp]:
  "aa_action_digest (authorization_defaults d e) = d"
  "aa_authority_state_digest (authorization_defaults d e) = e"
  "aa_authorization_id (authorization_defaults d e) = ''authz-0001''"
  "aa_idempotency_key (authorization_defaults d e) = IDEM"
  "aa_principal_id (authorization_defaults d e) = ''principal.treasury-bot''"
  "aa_release_id (authorization_defaults d e) = ''release.agent-2026.09''"
  "aa_tenant_id (authorization_defaults d e) = ''tenant.acme''"
  "aa_sink_id (authorization_defaults d e) = ''sink.test-payment-ledger''"
  "aa_not_before (authorization_defaults d e) = 0"
  "aa_not_after (authorization_defaults d e) = 40"
  "aa_max_uses (authorization_defaults d e) = 1"
  "aa_delegation (authorization_defaults d e) = None"
  "aa_decision (authorization_defaults d e) = ''ALLOW''"
  by (simp_all add: authorization_defaults_def IDEM_def SINK_def)

lemma BASE_fields [simp]:
  "dict_get BASE_ACTION ''sink_id'' = Some (JStr ''sink.test-payment-ledger'')"
  "dict_get BASE_ACTION ''tenant_id'' = Some (JStr ''tenant.acme'')"
  "dict_get BASE_ACTION ''principal_id'' = Some (JStr ''principal.treasury-bot'')"
  "dict_get BASE_ACTION ''release_id'' = Some (JStr ''release.agent-2026.09'')"
  "dict_get BASE_ACTION ''quantity'' = Some (JInt 200000)"
  by (simp_all add: BASE_ACTION_def SINK_def)

lemma ref_commit_simps [simp]:
  "ce_commit_id (ref_commit k r a n aref sref idem ag) = k"
  "ce_sink_id (ref_commit k r a n aref sref idem ag) = py_str (the (dict_get a ''sink_id''))"
  "ce_route_id (ref_commit k r a n aref sref idem ag) = r"
  "ce_tenant_id (ref_commit k r a n aref sref idem ag) = py_str (the (dict_get a ''tenant_id''))"
  "ce_principal_id (ref_commit k r a n aref sref idem ag) = py_str (the (dict_get a ''principal_id''))"
  "ce_release_id (ref_commit k r a n aref sref idem ag) = py_str (the (dict_get a ''release_id''))"
  "ce_agent_id (ref_commit k r a n aref sref idem ag) = ag"
  "ce_action_digest (ref_commit k r a n aref sref idem ag) = digest_object (JObj a)"
  "ce_committed_at (ref_commit k r a n aref sref idem ag) = n"
  "ce_authorization_ref (ref_commit k r a n aref sref idem ag) = aref"
  "ce_idempotency_key (ref_commit k r a n aref sref idem ag) = idem"
  by (simp_all add: ref_commit_def)

definition the_str :: "action \<Rightarrow> string \<Rightarrow> string" where
  "the_str a f = py_str (the (dict_get a f))"

lemma bound_to_plain: "e \<noteq> NON_APPLICABLE \<Longrightarrow> bound_to e v \<longleftrightarrow> e = v"
  by (simp add: bound_to_def)

text \<open>The reference authorization covers a commit exactly when the commit is the base one.\<close>

lemma ref_authorizes:
  "authorizes (make_authorization i (authorization_defaults base_digest (authority_state_digest s)
       \<lparr>aa_not_after := na, aa_delegation := dl\<rparr>))
     (ref_commit k r a n aref sref idem ag) s' i u
     (token_digest (make_authorization i (authorization_defaults base_digest (authority_state_digest s)
       \<lparr>aa_not_after := na, aa_delegation := dl\<rparr>)))
   \<longleftrightarrow> ''tenant.acme'' = the_str a ''tenant_id''
     \<and> ''principal.treasury-bot'' = the_str a ''principal_id''
     \<and> AGENT = ag \<and> ''release.agent-2026.09'' = the_str a ''release_id''
     \<and> base_digest = digest_object (JObj a)
     \<and> ''sink.test-payment-ledger'' = the_str a ''sink_id'' \<and> IDEM = idem
     \<and> 0 \<le> n \<and> n \<le> na \<and> authority_state_digest s = authority_state_digest s'
     \<and> status_of s' ''grant.treasury'' = ''ACTIVE''
     \<and> (case dl of None \<Rightarrow> True
        | Some c \<Rightarrow> fst (validate_delegation c (the_str a ''principal_id'') ''payment.transfer''))
     \<and> u \<le> 1"
proof -
  have plain: "''tenant.acme'' \<noteq> NON_APPLICABLE" "''principal.treasury-bot'' \<noteq> NON_APPLICABLE"
    "AGENT \<noteq> NON_APPLICABLE" "''release.agent-2026.09'' \<noteq> NON_APPLICABLE"
    "''sink.test-payment-ledger'' \<noteq> NON_APPLICABLE" "IDEM \<noteq> NON_APPLICABLE"
    by (simp_all add: NON_APPLICABLE_def AGENT_def IDEM_def)
  have digests: "base_digest \<noteq> NON_APPLICABLE" "authority_state_digest s \<noteq> NON_APPLICABLE"
    by (simp_all add: base_digest_def authority_state_digest_def)
  show ?thesis
    by (cases dl) (simp_all add: authorizes_def bound_to_plain plain digests token_digest_def the_str_def)
qed

subsection \<open>Dispositions\<close>

definition run_disposition :: "scenario_result \<Rightarrow> disposition" where
  "run_disposition sc = cv_disposition (adjudicate (evidence_from_scenario sc))"

lemma evidence_simps [simp]:
  "ev_protected_sink (evidence_from_scenario sc) = pk_sink (sr_sink sc)"
  "ev_commits (evidence_from_scenario sc) = ss_commits (pk_state (sr_sink sc))"
  "ev_receipts (evidence_from_scenario sc) = ss_receipts (pk_state (sr_sink sc))"
  "ev_authorizations (evidence_from_scenario sc) = sr_authorizations sc"
  "ev_authority (evidence_from_scenario sc) = Some (pk_authority (sr_sink sc))"
  "ev_issuer (evidence_from_scenario sc) = Some (pk_issuer (sr_sink sc))"
  "ev_correlated (evidence_from_scenario sc) = sr_correlated sc"
  "ev_use_counts (evidence_from_scenario sc) = sr_use_counts sc"
  "ev_internal_failures (evidence_from_scenario sc) = sr_internal_failures sc"
  "ev_instrument_failures (evidence_from_scenario sc) = sr_instrument_failures sc"
  by (simp_all add: evidence_from_scenario_def)

lemma undeclared_iff:
  "undeclared_seen (evidence_from_scenario sc) \<longleftrightarrow>
     \<not> ro_route_id ` set (pk_route_log (sr_sink sc)) \<subseteq> dp_route_id ` set DECLARED_PATHS"
  by (simp add: undeclared_seen_def evidence_from_scenario_def no_unknown_iff observations_from_sink_def)

lemma declared_routes: "dp_route_id ` set DECLARED_PATHS = {''route.api-guarded'', ''route.console''}"
  by (simp add: DECLARED_PATHS_def)

lemma no_commit_disposition:
  assumes "ss_commits (pk_state (sr_sink sc)) = []"
  shows "run_disposition sc =
    (if sr_instrument_failures sc \<noteq> [] then HARNESS_OR_INSTRUMENT_FAILURE
     else if undeclared_seen (evidence_from_scenario sc) then INTEGRATION_FAILURE
     else if sr_internal_failures sc \<noteq> [] then VEIP_INTERNAL_PROPERTY_FAILURE
     else NO_BOUNDARY_COUNTEREXAMPLE)"
  using assms by (simp add: run_disposition_def adjudicate_disposition in_found_iff protected_commits_def)

lemma one_commit_disposition:
  assumes "ss_commits (pk_state (sr_sink sc)) = [c]" "protects (pk_sink (sr_sink sc)) c"
    "sr_instrument_failures sc = []" "sr_internal_failures sc = []"
  shows "run_disposition sc =
    (let d = cf_disposition (adjudicate_commit c (evidence_from_scenario sc)) in
     if d \<noteq> NO_BOUNDARY_COUNTEREXAMPLE then d
     else if undeclared_seen (evidence_from_scenario sc) then INTEGRATION_FAILURE
     else NO_BOUNDARY_COUNTEREXAMPLE)"
  using assms adjudicate_commit_cases [of c "evidence_from_scenario sc"]
  by (auto simp: run_disposition_def adjudicate_disposition in_found_iff protected_commits_def Let_def)

text \<open>A run that only refused on the guarded route shows nothing.\<close>

lemma refused_disposition:
  assumes "\<not> (ce_idempotency_key c \<notin> pk_seen s \<and> submit_justified s c au token)"
    and "s = new_sink" "ce_route_id c = ''route.api-guarded''"
  shows "run_disposition (with_authz a (mk_result name (fst (submit s c au token))))
    = NO_BOUNDARY_COUNTEREXAMPLE"
proof -
  have "pk_state (fst (submit s c au token)) = pk_state s"
    "pk_route_log (fst (submit s c au token)) = pk_route_log s @
       [\<lparr>ro_route_id = ce_route_id c, ro_observed_at = ce_committed_at c, ro_admitted = False,
         ro_committed = False, ro_commit_id = None\<rparr>]"
    using submit_refused [OF assms(1)] by (simp_all add: refuse_def)
  then show ?thesis
    using assms(2,3)
    by (simp add: no_commit_disposition with_authz_def mk_result_def undeclared_iff declared_routes)
qed

definition ref_auth :: "authority_state \<Rightarrow> int \<Rightarrow> delegation_chain option \<Rightarrow> authorization" where
  "ref_auth s na dl = make_authorization (new_issuer SECRET)
     (authorization_defaults base_digest (authority_state_digest s)
        \<lparr>aa_not_after := na, aa_delegation := dl\<rparr>)"

lemma fold_ref_auth:
  "make_authorization (new_issuer SECRET) (authorization_defaults base_digest (authority_state_digest s))
     = ref_auth s 40 None"
  "make_authorization (new_issuer SECRET)
     (authorization_defaults base_digest (authority_state_digest s)\<lparr>aa_not_after := na\<rparr>)
     = ref_auth s na None"
  "make_authorization (new_issuer SECRET)
     (authorization_defaults base_digest (authority_state_digest s)\<lparr>aa_delegation := dl\<rparr>)
     = ref_auth s 40 dl"
  by (simp_all add: ref_auth_def authorization_defaults_def)

lemma ref_auth_simps [simp]:
  "au_authorization_id (ref_auth s na dl) = ''authz-0001''"
  by (simp add: ref_auth_def)

lemma ref_justified:
  "submit_justified new_sink (ref_commit k r a n aref sref idem ag) (Some (ref_auth s na dl))
     (Some (token_digest (ref_auth s na dl)))
   \<longleftrightarrow> (\<exists>s'. store_at base_authority n = Some s'
     \<and> authorizes (ref_auth s na dl) (ref_commit k r a n aref sref idem ag) s' (new_issuer SECRET) 1
         (token_digest (ref_auth s na dl)))"
  by (simp add: submit_justified_def)

lemmas ref_authorizes' = ref_authorizes [where i = "new_issuer SECRET", folded ref_auth_def]

lemma refused_outcome:
  assumes "\<not> (\<exists>s'. store_at base_authority n = Some s'
     \<and> authorizes (ref_auth s na dl) (ref_commit k ''route.api-guarded'' a n aref sref IDEM AGENT) s'
         (new_issuer SECRET) 1 (token_digest (ref_auth s na dl)))"
  shows "run_disposition (with_authz (ref_auth s na dl) (mk_result name (fst
     (submit new_sink (ref_commit k ''route.api-guarded'' a n aref sref IDEM AGENT)
        (Some (ref_auth s na dl)) (Some (token_digest (ref_auth s na dl))))))) = NO_BOUNDARY_COUNTEREXAMPLE"
  using assms by (intro refused_disposition) (simp_all add: ref_justified)

lemma the_str_set: "the_str (dict_set f v a) g = (if g = f then py_str v else the_str a g)"
  by (simp add: the_str_def)

lemma the_str_BASE [simp]:
  "the_str BASE_ACTION ''sink_id'' = ''sink.test-payment-ledger''"
  "the_str BASE_ACTION ''tenant_id'' = ''tenant.acme''"
  "the_str BASE_ACTION ''principal_id'' = ''principal.treasury-bot''"
  "the_str BASE_ACTION ''release_id'' = ''release.agent-2026.09''"
  by (simp_all add: the_str_def)

lemma guarded_refusal_outcome:
  assumes "store_at base_authority n = Some s" "f \<in> set EXACT_ACTION_FIELDS"
    and "\<not> authorizes (ref_auth s 40 None)
       (ref_commit ''commit-refused'' ''route.api-guarded'' (dict_set f v BASE_ACTION) n
          (Some ''authz-0001'') (Some (authority_state_digest s)) IDEM AGENT) s
       (new_issuer SECRET) 1 (token_digest (ref_auth s 40 None))"
  shows "bindE (guarded_refusal (dict_set f v) name n id IDEM AGENT) (\<lambda>sc. Inr (run_disposition sc))
    = Inr NO_BOUNDARY_COUNTEREXAMPLE"
  using assms
  by (simp add: guarded_refusal_def make_commit_ref normalize_set fold_ref_auth Let_def refused_outcome)

lemma identity_refused:
  assumes "f \<in> set EXACT_ACTION_FIELDS" "the_str (dict_set f v BASE_ACTION) f \<noteq> the_str BASE_ACTION f"
    and "f \<in> {''principal_id'', ''release_id'', ''tenant_id'', ''sink_id''}"
  shows "bindE (guarded_refusal (dict_set f v) name 10 id IDEM AGENT) (\<lambda>sc. Inr (run_disposition sc))
    = Inr NO_BOUNDARY_COUNTEREXAMPLE"
proof (rule guarded_refusal_outcome)
  show "\<not> authorizes (ref_auth epoch1 40 None)
     (ref_commit ''commit-refused'' ''route.api-guarded'' (dict_set f v BASE_ACTION) 10
        (Some ''authz-0001'') (Some (authority_state_digest epoch1)) IDEM AGENT) epoch1
     (new_issuer SECRET) 1 (token_digest (ref_auth epoch1 40 None))"
    using assms(3,2) by (elim insertE emptyE) (simp_all add: ref_authorizes' the_str_set)
qed (simp_all add: assms(1))

lemma refused_outcomes:
  "bindE scenario_wrong_principal (\<lambda>sc. Inr (run_disposition sc)) = Inr NO_BOUNDARY_COUNTEREXAMPLE"
  "bindE scenario_wrong_release (\<lambda>sc. Inr (run_disposition sc)) = Inr NO_BOUNDARY_COUNTEREXAMPLE"
  "bindE scenario_wrong_tenant (\<lambda>sc. Inr (run_disposition sc)) = Inr NO_BOUNDARY_COUNTEREXAMPLE"
  "bindE scenario_wrong_sink (\<lambda>sc. Inr (run_disposition sc)) = Inr NO_BOUNDARY_COUNTEREXAMPLE"
  by (simp_all add: scenario_wrong_principal_def scenario_wrong_release_def scenario_wrong_tenant_def
      scenario_wrong_sink_def identity_refused the_str_set)

lemma mutation_outcome:
  "bindE scenario_exact_action_mutation (\<lambda>sc. Inr (run_disposition sc)) = Inr NO_BOUNDARY_COUNTEREXAMPLE
   \<or> digest_object (JObj BASE_ACTION) = digest_object (JObj (dict_set ''quantity'' (JInt 900000) BASE_ACTION))"
proof (rule disjCI)
  assume "digest_object (JObj BASE_ACTION)
      \<noteq> digest_object (JObj (dict_set ''quantity'' (JInt 900000) BASE_ACTION))"
  then show "bindE scenario_exact_action_mutation (\<lambda>sc. Inr (run_disposition sc))
      = Inr NO_BOUNDARY_COUNTEREXAMPLE"
    unfolding scenario_exact_action_mutation_def
    by (intro guarded_refusal_outcome [where s = epoch1])
      (simp_all add: ref_authorizes' base_digest_def)
qed

lemma late_outcomes:
  "bindE scenario_stale_authority (\<lambda>sc. Inr (run_disposition sc)) = Inr NO_BOUNDARY_COUNTEREXAMPLE"
  "bindE scenario_revoked_authority (\<lambda>sc. Inr (run_disposition sc)) = Inr NO_BOUNDARY_COUNTEREXAMPLE"
  by (simp_all add: scenario_stale_authority_def scenario_revoked_authority_def make_commit_ref
      fold_ref_auth Let_def refused_outcome ref_authorizes')

lemma INVALID_CHAIN_invalid: "\<not> fst (validate_delegation INVALID_CHAIN p sc)"
  by (simp add: validate_delegation_iff INVALID_CHAIN_def)

lemma delegation_outcome:
  "bindE scenario_invalid_delegation (\<lambda>sc. Inr (run_disposition sc)) = Inr NO_BOUNDARY_COUNTEREXAMPLE"
  by (simp add: scenario_invalid_delegation_def make_commit_ref fold_ref_auth Let_def refused_outcome
      ref_authorizes' INVALID_CHAIN_invalid)

text \<open>The base commit, submitted with the base authorization at tick 10.\<close>

definition base_commit :: "string \<Rightarrow> string \<Rightarrow> commit_event" where
  "base_commit k route = ref_commit k route BASE_ACTION 10 (Some ''authz-0001'')
     (Some (authority_state_digest epoch1)) IDEM AGENT"

abbreviation base_auth :: authorization where
  "base_auth \<equiv> ref_auth epoch1 40 None"

definition base_run :: "string \<Rightarrow> string \<Rightarrow> payment_sink" where
  "base_run k route = fst (submit new_sink (base_commit k route) (Some base_auth)
     (Some (token_digest base_auth)))"

lemma base_authorizes:
  "is_secret i = SECRET \<Longrightarrow> u \<le> 1 \<Longrightarrow>
     authorizes base_auth (base_commit k route) epoch1 i u (token_digest base_auth)"
proof -
  assume *: "is_secret i = SECRET" "u \<le> 1"
  have "authorizes base_auth (base_commit k route) epoch1 (new_issuer SECRET) u (token_digest base_auth)"
    using *(2) by (simp add: base_commit_def ref_authorizes' base_digest_def [symmetric])
  moreover have "verify_integrity i = verify_integrity (new_issuer SECRET)"
    using authorization_mac_secret [of i "new_issuer SECRET"] *(1)
    by (simp add: verify_integrity_def fun_eq_iff new_issuer_def)
  ultimately show ?thesis by (simp add: authorizes_def)
qed

lemma base_commit_simps [simp]:
  "ce_commit_id (base_commit k r) = k" "ce_route_id (base_commit k r) = r"
  "ce_idempotency_key (base_commit k r) = IDEM" "ce_committed_at (base_commit k r) = 10"
  "ce_authorization_ref (base_commit k r) = Some ''authz-0001''"
  "protects SINK (base_commit k r)"
  by (simp_all add: base_commit_def protects_def SINK_def)

lemma base_run_simps [simp]:
  "pk_sink (base_run k r) = SINK" "pk_authority (base_run k r) = base_authority"
  "is_secret (pk_issuer (base_run k r)) = SECRET" "pk_seen (base_run k r) = {IDEM}"
  "ss_commits (pk_state (base_run k r)) = [base_commit k r]"
  "ss_receipts (pk_state (base_run k r)) = [commit_receipt 1 (base_commit k r)]"
  "ro_route_id ` set (pk_route_log (base_run k r)) = {r}"
proof -
  have "submit_justified new_sink (base_commit k r) (Some base_auth) (Some (token_digest base_auth))"
    using base_authorizes [of "new_issuer SECRET" 1 k r]
    by (simp add: submit_justified_def new_issuer_def [of SECRET] use_count_def)
  from submit_admitted [OF _ this] have run: "base_run k r = do_commit (base_commit k r) (new_sink\<lparr>
      pk_issuer := fst (record_use (pk_issuer new_sink) ''authz-0001''),
      pk_seen := {IDEM},
      pk_interlock_log := [snd (submit new_sink (base_commit k r) (Some base_auth) (Some (token_digest base_auth)))]\<rparr>)"
    by (simp add: base_run_def)
  show "pk_sink (base_run k r) = SINK" "pk_authority (base_run k r) = base_authority"
    "is_secret (pk_issuer (base_run k r)) = SECRET" "pk_seen (base_run k r) = {IDEM}"
    "ss_commits (pk_state (base_run k r)) = [base_commit k r]"
    "ss_receipts (pk_state (base_run k r)) = [commit_receipt 1 (base_commit k r)]"
    unfolding run by (simp_all add: new_issuer_def)
  show "ro_route_id ` set (pk_route_log (base_run k r)) = {r}"
    unfolding run by (simp add: do_commit_def Let_def)
qed

lemma base_finding_clean:
  assumes "pk_sink s = SINK" "pk_authority s = base_authority" "is_secret (pk_issuer s) = SECRET"
    "ss_receipts (pk_state s) = [commit_receipt 1 (base_commit k r)]"
  shows "cf_disposition (adjudicate_commit (base_commit k r)
    (evidence_from_scenario (with_evidence k base_auth (mk_result name s)))) = NO_BOUNDARY_COUNTEREXAMPLE"
  unfolding finding_clean_iff using assms base_authorizes [of "pk_issuer s" 1 k r]
  by (simp add: receipt_for_def commit_receipt_def with_evidence_def mk_result_def
      commit_authorization_def)

lemma run_disposition_notes [simp]: "run_disposition (sc\<lparr>sr_notes := n\<rparr>) = run_disposition sc"
  by (simp add: run_disposition_def evidence_from_scenario_def)

lemma base_run_disposition:
  assumes "ss_commits (pk_state s) = [base_commit k r]" "pk_sink s = SINK" "pk_authority s = base_authority"
    "is_secret (pk_issuer s) = SECRET" "ss_receipts (pk_state s) = [commit_receipt 1 (base_commit k r)]"
    "ro_route_id ` set (pk_route_log s) = {r}"
  shows "run_disposition (with_evidence k base_auth (mk_result name s)) =
    (if r \<in> {''route.api-guarded'', ''route.console''} then NO_BOUNDARY_COUNTEREXAMPLE else INTEGRATION_FAILURE)"
  using assms base_finding_clean [OF assms(2-5)]
  by (subst one_commit_disposition [where c = "base_commit k r"])
    (simp_all add: undeclared_iff declared_routes with_evidence_def mk_result_def)

lemma valid_outcomes:
  "bindE scenario_guarded_valid (\<lambda>sc. Inr (run_disposition sc)) = Inr NO_BOUNDARY_COUNTEREXAMPLE"
  "bindE scenario_hidden_route_no_commit (\<lambda>sc. Inr (run_disposition sc)) = Inr INTEGRATION_FAILURE"
  by (simp_all add: scenario_guarded_valid_def scenario_hidden_route_no_commit_def make_commit_ref
      fold_ref_auth Let_def base_commit_def [symmetric] base_run_def [symmetric] base_run_disposition)

lemma second_submit:
  assumes "ce_idempotency_key c = IDEM"
  shows "pk_state (fst (submit (base_run k r) c au t)) = pk_state (base_run k r)"
    "pk_sink (fst (submit (base_run k r) c au t)) = SINK"
    "pk_authority (fst (submit (base_run k r) c au t)) = base_authority"
    "is_secret (pk_issuer (fst (submit (base_run k r) c au t))) = SECRET"
    "ro_route_id ` set (pk_route_log (fst (submit (base_run k r) c au t))) = {r, ce_route_id c}"
proof -
  have run: "fst (submit (base_run k r) c au t) = refuse c (snd (submit (base_run k r) c au t)) (base_run k r)"
    using assms by (intro submit_refused) simp
  show "pk_state (fst (submit (base_run k r) c au t)) = pk_state (base_run k r)"
    "pk_sink (fst (submit (base_run k r) c au t)) = SINK"
    "pk_authority (fst (submit (base_run k r) c au t)) = base_authority"
    "is_secret (pk_issuer (fst (submit (base_run k r) c au t))) = SECRET"
    by (subst run, simp)+
  show "ro_route_id ` set (pk_route_log (fst (submit (base_run k r) c au t))) = {r, ce_route_id c}"
    by (subst run) (simp add: refuse_def insert_commute)
qed

lemma replay_outcome:
  "bindE scenario_replay (\<lambda>sc. Inr (run_disposition sc)) = Inr NO_BOUNDARY_COUNTEREXAMPLE"
  by (simp add: scenario_replay_def make_commit_ref fold_ref_auth Let_def base_commit_def [symmetric]
      base_run_def [symmetric] base_run_disposition second_submit)

lemma unwitnessed_outcome:
  "bindE scenario_incomplete_evidence (\<lambda>sc. Inr (run_disposition sc)) = Inr UNKNOWN_OR_UNESTABLISHED"
proof -
  let ?s = "lose_receipts (base_run ''commit-unwitnessed'' ''route.api-guarded'')"
  let ?c = "base_commit ''commit-unwitnessed'' ''route.api-guarded''"
  have "run_disposition (with_authz base_auth (mk_result name ?s)) = UNKNOWN_OR_UNESTABLISHED" for name
    by (subst one_commit_disposition [where c = ?c])
      (simp_all add: with_authz_def mk_result_def lose_receipts_def adjudicate_commit_def
        receipt_for_def)
  then show ?thesis
    by (simp add: scenario_incomplete_evidence_def make_commit_ref fold_ref_auth Let_def
        base_commit_def [symmetric] base_run_def [symmetric])
qed

lemma bypass_outcome:
  "bindE scenario_hidden_route_bypass (\<lambda>sc. Inr (run_disposition sc)) = Inr CONSEQUENCE_BOUNDARY_FAILURE"
proof -
  let ?c = "ref_commit ''commit-0002'' ''route.batch-replay'' BASE_ACTION 12 None None ''idem-bypass'' AGENT"
  have "mismatches (commit_report ev epochs ?c) \<noteq> []" for ev epochs
    by (simp add: commit_report_def commit_authorization_def validate_authorization_def mismatches_def)
  then have "cf_disposition (adjudicate_commit ?c
      (evidence_from_scenario (mk_result name (commit_unguarded new_sink ?c))))
    = CONSEQUENCE_BOUNDARY_FAILURE" for name
    by (simp add: finding_crossing_iff receipt_for_def mk_result_def commit_unguarded_def
        commit_receipt_def)
  then have "run_disposition (mk_result name (commit_unguarded new_sink ?c))
      = CONSEQUENCE_BOUNDARY_FAILURE" for name
    by (subst one_commit_disposition [where c = ?c])
      (simp_all add: mk_result_def commit_unguarded_def protects_def SINK_def)
  then show ?thesis by (simp add: scenario_hidden_route_bypass_def make_commit_ref)
qed

lemma no_run_outcomes:
  "bindE scenario_internal_defect_no_commit (\<lambda>sc. Inr (run_disposition sc))
     = Inr VEIP_INTERNAL_PROPERTY_FAILURE"
  "bindE scenario_instrument_failure (\<lambda>sc. Inr (run_disposition sc))
     = Inr HARNESS_OR_INSTRUMENT_FAILURE"
  by (simp_all add: scenario_internal_defect_no_commit_def scenario_instrument_failure_def
      no_commit_disposition mk_result_def undeclared_iff)

lemma mutated_digest:
  "digest_object (JObj BASE_ACTION) = digest_object (JObj (dict_set ''quantity'' (JInt 900000) BASE_ACTION))
     \<Longrightarrow> sha256_collision (canonical_bytes (JObj BASE_ACTION))
       (canonical_bytes (JObj (dict_set ''quantity'' (JInt 900000) BASE_ACTION)))"
proof -
  assume "digest_object (JObj BASE_ACTION)
    = digest_object (JObj (dict_set ''quantity'' (JInt 900000) BASE_ACTION))"
  from obj_seal.seal_binds [OF this] show ?thesis
    using canonical_form_field [of BASE_ACTION "dict_set ''quantity'' (JInt 900000) BASE_ACTION" "''quantity''"]
    by (auto simp: NONCANONICAL_KEYS_def)
qed

lemmas scenario_outcomes = valid_outcomes bypass_outcome refused_outcomes late_outcomes replay_outcome
  delegation_outcome unwitnessed_outcome no_run_outcomes

subsection \<open>The table\<close>

definition EXPECTED_DISPOSITIONS :: "(string \<times> disposition) list" where
  "EXPECTED_DISPOSITIONS = [
     (''guarded-valid'', NO_BOUNDARY_COUNTEREXAMPLE),
     (''hidden-route-bypass'', CONSEQUENCE_BOUNDARY_FAILURE),
     (''hidden-route-authorized'', INTEGRATION_FAILURE),
     (''exact-action-mutation'', NO_BOUNDARY_COUNTEREXAMPLE),
     (''wrong-principal'', NO_BOUNDARY_COUNTEREXAMPLE),
     (''wrong-release'', NO_BOUNDARY_COUNTEREXAMPLE),
     (''wrong-tenant'', NO_BOUNDARY_COUNTEREXAMPLE),
     (''wrong-sink'', NO_BOUNDARY_COUNTEREXAMPLE),
     (''stale-authority'', NO_BOUNDARY_COUNTEREXAMPLE),
     (''revoked-authority'', NO_BOUNDARY_COUNTEREXAMPLE),
     (''replay'', NO_BOUNDARY_COUNTEREXAMPLE),
     (''race-duplicate'', NO_BOUNDARY_COUNTEREXAMPLE),
     (''invalid-delegation'', NO_BOUNDARY_COUNTEREXAMPLE),
     (''incomplete-evidence'', UNKNOWN_OR_UNESTABLISHED),
     (''internal-defect-no-commit'', VEIP_INTERNAL_PROPERTY_FAILURE),
     (''instrument-failure'', HARNESS_OR_INSTRUMENT_FAILURE)]"

text \<open>Every deterministic scenario runs to completion and comes to the disposition it was
  written to show. Only the exact-action mutation rests on the digest: it could differ only if
  the two actions were an explicit SHA-256 collision.\<close>

theorem scenario_dispositions:
  "map (\<lambda>(name, sc). (name, bindE sc (\<lambda>s. Inr (run_disposition s)))) SCENARIOS
     = map (\<lambda>(name, d). (name, Inr d)) EXPECTED_DISPOSITIONS
   \<or> sha256_collision (canonical_bytes (JObj BASE_ACTION))
       (canonical_bytes (JObj (dict_set ''quantity'' (JInt 900000) BASE_ACTION)))"
  using mutation_outcome mutated_digest
  by (simp add: SCENARIOS_def EXPECTED_DISPOSITIONS_def scenario_race_duplicate_def scenario_outcomes)
    metis

subsection \<open>Packages\<close>

definition package_body :: "(string \<times> json) list \<Rightarrow> (string \<times> json) list" where
  "package_body p = filter (\<lambda>(k, v). k \<noteq> ''evidence_digest'') p"

lemma verify_package_iff:
  "fst (verify_package p) \<longleftrightarrow>
     dict_get p ''evidence_digest'' = Some (JStr (digest_object (JObj (package_body p))))"
  by (simp add: verify_package_def package_body_def Let_def)

lemma filter_update: "filter (\<lambda>(k, v). k \<noteq> j) (AList.update j x p) = filter (\<lambda>(k, v). k \<noteq> j) p"
  by (induction p) auto

lemma package_body_sealed: "package_body (sealed p) = package_body p"
  by (simp add: sealed_def package_body_def dict_set_def filter_update)

lemma package_body_id: "''evidence_digest'' \<notin> fst ` set p \<Longrightarrow> package_body p = p"
  unfolding package_body_def by (auto simp: filter_id_conv image_iff)

lemma sealed_verifies: "''evidence_digest'' \<notin> fst ` set p \<Longrightarrow> fst (verify_package (sealed p))"
  unfolding verify_package_iff package_body_sealed by (simp add: package_body_id sealed_def)

text \<open>A stored package that verifies is the one that was sealed: two packages that verify
  under the same recorded digest have the same evidence, or their bodies are a SHA-256
  collision.\<close>

theorem verified_package_binds:
  assumes "fst (verify_package p)" "fst (verify_package q)"
    and "dict_get p ''evidence_digest'' = dict_get q ''evidence_digest''"
  shows "canonical_form (JObj (package_body p)) = canonical_form (JObj (package_body q))
    \<or> sha256_collision (canonical_bytes (JObj (package_body p))) (canonical_bytes (JObj (package_body q)))"
  using assms by (intro obj_seal.seal_binds) (simp add: verify_package_iff)

lemma verified_package_binds_witness:
  "let p = sealed [(''scenario'', JStr ''replay'')] in
     fst (verify_package p)
     \<and> (canonical_form (JObj (package_body p)) = canonical_form (JObj (package_body p))
        \<or> sha256_collision (canonical_bytes (JObj (package_body p))) (canonical_bytes (JObj (package_body p))))"
proof -
  let ?p = "sealed [(''scenario'', JStr ''replay'')]"
  have v: "fst (verify_package ?p)" by (rule sealed_verifies) simp
  from verified_package_binds [OF v v refl] v show ?thesis by simp
qed

text \<open>What a replay compares: the recorded disposition and the recorded digest.\<close>

lemma run_scenario_fields:
  assumes "run_scenario name = Inr p"
  obtains sc where "dict_get SCENARIOS name = Some (Inr sc)"
    "p = scenario_package name sc"
    "dict_get p ''verdict'' = Some (verdict_dict (adjudicate (evidence_from_scenario sc)))"
    "dict_get p ''evidence_digest'' = Some (JStr (digest_object (JObj (package_body p))))"
proof -
  from assms obtain sc where sc: "dict_get SCENARIOS name = Some (Inr sc)" "p = scenario_package name sc"
    by (auto simp: run_scenario_def res_simps split: option.splits)
  then have "dict_get p ''verdict'' = Some (verdict_dict (adjudicate (evidence_from_scenario sc)))"
    by (simp add: scenario_package_def Let_def sealed_def)
  moreover have "fst (verify_package p)"
    unfolding sc(2) scenario_package_def Let_def by (rule sealed_verifies) simp
  ultimately show ?thesis using that sc by (simp add: verify_package_iff)
qed

lemma verdict_dict_disposition:
  "jindex (verdict_dict v) ''disposition'' = Inr (JStr (disposition_str (cv_disposition v)))"
  by (simp add: verdict_dict_def dict_index_def)

text \<open>C10: A run always verifies, and a replay accepts a package exactly when it records the
  disposition and the evidence digest that the scenario produces again.\<close>

theorem replay_accepts_iff:
  assumes "run_scenario name = Inr p"
  shows "fst (verify_package p) \<and>
    ((\<exists>msg. replay_scenario name (JObj q) = Inr (True, msg)) \<longleftrightarrow>
      (\<exists>v. dict_get q ''verdict'' = Some v
         \<and> jget v ''disposition'' = jget (the (dict_get p ''verdict'')) ''disposition''
         \<and> dict_get q ''evidence_digest'' = dict_get p ''evidence_digest''))"
proof -
  from assms obtain sc where f: "dict_get p ''verdict'' = Some (verdict_dict (adjudicate (evidence_from_scenario sc)))"
    "dict_get p ''evidence_digest'' = Some (JStr (digest_object (JObj (package_body p))))"
    by (rule run_scenario_fields)
  have d: "jget (verdict_dict v) ''disposition'' = Some (JStr (disposition_str (cv_disposition v)))" for v
    using verdict_dict_disposition jindex_Inr_iff by blast
  show ?thesis
    using f d by (auto simp: replay_scenario_def assms dict_index_Inr_iff verify_package_iff
        bindE_Inr_iff jindex_Inr_iff split: if_splits)
qed

lemma replay_accepts_iff_witness:
  "\<exists>p. run_scenario ''internal-defect-no-commit'' = Inr p \<and> fst (verify_package p)"
proof -
  have "\<exists>p. run_scenario ''internal-defect-no-commit'' = Inr p"
    by (simp add: run_scenario_def SCENARIOS_def scenario_internal_defect_no_commit_def)
  then show ?thesis using replay_accepts_iff by blast
qed

subsection \<open>Witnesses on the reference run\<close>

lemma base_admitted:
  "il_outcome (snd (submit new_sink (base_commit k r) (Some base_auth) (Some (token_digest base_auth)))) = ADMITTED"
  using base_authorizes [of "new_issuer SECRET" 1 k r]
  by (simp add: submit_admitted_iff submit_justified_def new_issuer_def [of SECRET] use_count_def)

lemma replay_is_refused_witness:
  "il_outcome (snd (submit (sink_run (map Inl []) (base_run ''c1'' ''route.api-guarded''))
     (base_commit ''c2'' ''route.console'') (Some base_auth) (Some (token_digest base_auth)))) = REFUSED"
  unfolding base_run_def by (rule replay_is_refused [OF base_admitted]) simp

lemma commits_are_justified_or_bypass_witness:
  "\<exists>rs1 r rs2. [Inr (base_commit ''c1'' ''route.batch'', None, None)] = rs1 @ r # rs2 \<and>
    (let s = sink_run rs1 (new_payment_sink SINK base_authority (new_issuer SECRET)) in
       case r of Inl (c', au, token) \<Rightarrow> c' = base_commit ''c1'' ''route.batch'' \<and> submit_justified s (base_commit ''c1'' ''route.batch'') au token
               | Inr (c', au, token) \<Rightarrow> c' = base_commit ''c1'' ''route.batch'')"
  by (rule commits_are_justified_or_bypass)
    (simp add: sink_run_def commit_unguarded_def)

lemma uses_stay_within_limit_witness:
  "use_count (pk_issuer (sink_run
     [Inl (base_commit ''c1'' ''route.api-guarded'', Some base_auth, Some (token_digest base_auth)),
      Inl ((base_commit ''c2'' ''route.api-guarded'')\<lparr>ce_idempotency_key := ''k2''\<rparr>,
           Some base_auth, Some (token_digest base_auth))]
     (new_payment_sink SINK base_authority (new_issuer SECRET)))) ''authz-0001'' \<le> 1"
  by (rule uses_stay_within_limit) (simp_all add: ref_auth_def)

lemma routes_reconciled_witness:
  "map op_route_id (observations_from_sink (base_run ''c1'' ''route.batch''))
     = sorted_set (map ro_route_id (pk_route_log (base_run ''c1'' ''route.batch'')))
   \<and> pr_unknown_observed (reconcile DECLARED_PATHS (observations_from_sink (base_run ''c1'' ''route.batch'')))
     = [''route.batch'']"
proof -
  have "set (filter (\<lambda>k. k \<notin> set (route_ids DECLARED_PATHS)) (map ro_route_id (pk_route_log (base_run ''c1'' ''route.batch''))))
      = {''route.batch''}"
  proof -
    have "set (route_ids DECLARED_PATHS) = {''route.api-guarded'', ''route.console''}"
      by (simp add: route_ids_def DECLARED_PATHS_def)
    then show ?thesis by (simp only: set_filter set_map base_run_simps(7)) auto
  qed
  then have "sorted_set (filter (\<lambda>k. k \<notin> set (route_ids DECLARED_PATHS))
      (map ro_route_id (pk_route_log (base_run ''c1'' ''route.batch'')))) = sorted_set [''route.batch'']"
    by (simp add: sorted_set_eq_iff)
  with routes_reconciled [of "base_run ''c1'' ''route.batch''" DECLARED_PATHS] show ?thesis
    by (simp add: sorted_set_def)
qed

definition base_evidence :: consequence_evidence where
  "base_evidence = evidence_from_scenario (with_evidence ''c1'' base_auth
     (mk_result ''guarded-valid'' (base_run ''c1'' ''route.api-guarded'')))"

lemma base_evidence_clean: "cv_disposition (adjudicate base_evidence) = NO_BOUNDARY_COUNTEREXAMPLE"
  using base_run_disposition [of "base_run ''c1'' ''route.api-guarded''" "''c1''" "''route.api-guarded''"]
  by (simp add: run_disposition_def base_evidence_def)

lemma base_evidence_simps [simp]:
  "ev_commits base_evidence = [base_commit ''c1'' ''route.api-guarded'']"
  "ev_protected_sink base_evidence = SINK"
  by (simp_all add: base_evidence_def with_evidence_def mk_result_def)

lemma clean_verdict_iff_witness:
  "ce_sink_id (base_commit ''c1'' ''route.api-guarded'') = ps_sink_id SINK
   \<and> receipt_for base_evidence ''c1'' \<noteq> None
   \<and> (\<exists>a. commit_authorization base_evidence (base_commit ''c1'' ''route.api-guarded'') = Some a)"
proof -
  have k: "ce_sink_id (base_commit ''c1'' ''route.api-guarded'') = ps_sink_id SINK"
    by (simp add: base_commit_def SINK_def)
  from clean_verdict_iff [of base_evidence] base_evidence_clean k show ?thesis by auto
qed

lemma graph_audit_exact_witness:
  "audit_complete (audit (build_graph (commit_graph_input
      (mk_result ''x'' (commit_unguarded new_sink (base_commit ''c1'' ''r'')))
      (adjudicate base_evidence) (base_commit ''c1'' ''r'')))) = False"
proof -
  let ?x = "commit_graph_input (mk_result ''x'' (commit_unguarded new_sink (base_commit ''c1'' ''r'')))
      (adjudicate base_evidence) (base_commit ''c1'' ''r'')"
  have "(''authorization_artifact'', None) \<in> set (optional_nodes ?x)"
    by (simp add: optional_nodes_def commit_graph_input_def mk_result_def Let_def)
  with graph_audit_exact [of ?x] show ?thesis by fastforce
qed

end
