(* ===== verification/Rb001.thy ===== *)
theory Rb001
  imports Py_Json
begin

section \<open>The RB-001 reference boundary and its falsifier\<close>

text \<open>
  \<open>oat/reference_boundaries/rb001.py\<close>: a frozen authority, one point of the search space, the
  three enforcement paths and the observable trace of a run; \<open>oat/falsifiers/rb001.py\<close>: the
  predicate trace over a recorded trace. Ticks are Python integers. A search space that is not
  a JSON object is an error here; the scenario schema does not admit one.
\<close>

definition BOUNDARY_ID :: string where "BOUNDARY_ID = ''RB-001''"
definition BOUNDARY_VERSION :: string where "BOUNDARY_VERSION = ''0.1.0''"
definition STATUS_ACTIVE :: string where "STATUS_ACTIVE = ''ACTIVE''"
definition STATUS_REVOKED :: string where "STATUS_REVOKED = ''REVOKED''"
definition ENFORCEMENT_CHECK_ONCE_CACHED :: string where
  "ENFORCEMENT_CHECK_ONCE_CACHED = ''CHECK_ONCE_CACHED''"
definition ENFORCEMENT_STALE_PROPAGATION :: string where
  "ENFORCEMENT_STALE_PROPAGATION = ''STALE_PROPAGATION''"
definition ENFORCEMENT_RECHECK_AT_COMMIT :: string where
  "ENFORCEMENT_RECHECK_AT_COMMIT = ''RECHECK_AT_COMMIT''"
definition ENFORCEMENT_PATHS :: "string list" where
  "ENFORCEMENT_PATHS = [ENFORCEMENT_CHECK_ONCE_CACHED, ENFORCEMENT_STALE_PROPAGATION,
     ENFORCEMENT_RECHECK_AT_COMMIT]"

subsection \<open>Inputs\<close>

record authority_input =
  ai_subject :: string
  ai_resource :: string
  ai_max_quantity :: int
  ai_unit :: string
  ai_valid_from :: int
  ai_valid_until :: int
  ai_status :: string

definition authority_input_from_dict :: "json \<Rightarrow> authority_input res" where
  "authority_input_from_dict d =
     catch_key_error (\<lambda>k. ScenarioError (''authority input missing field: '' @ repr_str k))
       (bindE (str_field d ''subject'') (\<lambda>subject.
        bindE (str_field d ''resource_or_beneficiary'') (\<lambda>resource.
        bindE (int_field d ''max_quantity'') (\<lambda>max_quantity.
        bindE (str_field d ''unit'') (\<lambda>unit.
        bindE (int_field d ''valid_from'') (\<lambda>valid_from.
        bindE (int_field d ''valid_until'') (\<lambda>valid_until.
          Inr \<lparr>ai_subject = subject, ai_resource = resource, ai_max_quantity = max_quantity,
               ai_unit = unit, ai_valid_from = valid_from, ai_valid_until = valid_until,
               ai_status = py_str (jget_or d ''status'' (JStr STATUS_ACTIVE))\<rparr>)))))))"

definition authority_input_dict :: "authority_input \<Rightarrow> json" where
  "authority_input_dict a = JObj [
     (''subject'', JStr (ai_subject a)), (''resource_or_beneficiary'', JStr (ai_resource a)),
     (''max_quantity'', JInt (ai_max_quantity a)), (''unit'', JStr (ai_unit a)),
     (''valid_from'', JInt (ai_valid_from a)), (''valid_until'', JInt (ai_valid_until a)),
     (''status'', JStr (ai_status a))]"

record variation =
  va_check_tick :: int
  va_revocation_tick :: int
  va_commit_tick :: int
  va_propagation_delay :: int
  va_retry_index :: int
  va_duplicate_request :: bool

definition variation_dict :: "variation \<Rightarrow> json" where
  "variation_dict v = JObj [
     (''check_tick'', JInt (va_check_tick v)), (''commit_tick'', JInt (va_commit_tick v)),
     (''duplicate_request'', JBool (va_duplicate_request v)),
     (''propagation_delay'', JInt (va_propagation_delay v)),
     (''retry_index'', JInt (va_retry_index v)), (''revocation_tick'', JInt (va_revocation_tick v))]"

record rb_scenario =
  rs_scenario_id :: string
  rs_enforcement_path :: string
  rs_authority :: authority_input
  rs_action_quantity :: int
  rs_execution_identity :: string
  rs_baseline :: variation
  rs_search_space :: "(string \<times> json) list"

definition rb_scenario_from_dict :: "json \<Rightarrow> authority_input \<Rightarrow> rb_scenario res" where
  "rb_scenario_from_dict d authority =
     bindE (str_field d ''enforcement_path'') (\<lambda>path.
       if path \<notin> set ENFORCEMENT_PATHS then
         Inl (ScenarioError (''unknown enforcement_path: '' @ path))
       else
         bindE (jindex d ''baseline'') (\<lambda>base.
         bindE (str_field d ''scenario_id'') (\<lambda>scenario_id.
         bindE (int_field d ''action_quantity'') (\<lambda>quantity.
         bindE (str_field d ''execution_identity'') (\<lambda>identity.
         bindE (int_field base ''check_tick'') (\<lambda>check.
         bindE (int_field base ''revocation_tick'') (\<lambda>revocation.
         bindE (int_field base ''commit_tick'') (\<lambda>commit.
         bindE (py_int (jget_or base ''propagation_delay'' (JInt 0))) (\<lambda>delay.
         bindE (py_dict (jget_or d ''search_space'' (JObj []))) (\<lambda>space.
           Inr \<lparr>rs_scenario_id = scenario_id, rs_enforcement_path = path, rs_authority = authority,
                rs_action_quantity = quantity, rs_execution_identity = identity,
                rs_baseline = \<lparr>va_check_tick = check, va_revocation_tick = revocation,
                  va_commit_tick = commit, va_propagation_delay = delay, va_retry_index = 0,
                  va_duplicate_request = False\<rparr>,
                rs_search_space = space\<rparr>))))))))))"

subsection \<open>Running a scenario\<close>

definition authority_effective_status :: "authority_input \<Rightarrow> int \<Rightarrow> int \<Rightarrow> string" where
  "authority_effective_status a revocation_tick at_tick =
     (if at_tick \<ge> revocation_tick then STATUS_REVOKED
      else if at_tick < ai_valid_from a \<or> at_tick > ai_valid_until a then STATUS_REVOKED
      else ai_status a)"

definition observed_status :: "rb_scenario \<Rightarrow> variation \<Rightarrow> int \<Rightarrow> string \<times> int \<times> string" where
  "observed_status sc v commit_tick =
     (if rs_enforcement_path sc = ENFORCEMENT_CHECK_ONCE_CACHED then
        (authority_effective_status (rs_authority sc) (va_revocation_tick v) (va_check_tick v),
         va_check_tick v, ''CACHED_DECISION'')
      else if rs_enforcement_path sc = ENFORCEMENT_STALE_PROPAGATION then
        (let replica_tick = commit_tick - va_propagation_delay v in
         (authority_effective_status (rs_authority sc) (va_revocation_tick v) replica_tick,
          replica_tick, ''LAGGING_REPLICA''))
      else
        (authority_effective_status (rs_authority sc) (va_revocation_tick v) commit_tick,
         commit_tick, ''AUTHORITATIVE_SOURCE''))"

text \<open>The closure \<open>emit\<close> appends an event that carries its own index.\<close>

definition emit :: "int \<Rightarrow> string \<Rightarrow> (string \<times> json) list \<Rightarrow> json list \<Rightarrow> json list" where
  "emit tick event payload events = events @ [JObj ([(''seq'', JInt (int (length events))),
     (''tick'', JInt tick), (''event'', JStr event)] @ payload)]"

definition commit_tick_of :: "variation \<Rightarrow> int" where
  "commit_tick_of v = va_commit_tick v + va_retry_index v"

definition check_status_of :: "rb_scenario \<Rightarrow> variation \<Rightarrow> string" where
  "check_status_of sc v =
     authority_effective_status (rs_authority sc) (va_revocation_tick v) (va_check_tick v)"

definition within_limit :: "rb_scenario \<Rightarrow> bool" where
  "within_limit sc \<longleftrightarrow> rs_action_quantity sc \<le> ai_max_quantity (rs_authority sc)"

definition check_decision :: "rb_scenario \<Rightarrow> variation \<Rightarrow> string" where
  "check_decision sc v =
     (if check_status_of sc v = STATUS_ACTIVE \<and> within_limit sc then ''ALLOW'' else ''DENY'')"

definition commit_allowed :: "rb_scenario \<Rightarrow> variation \<Rightarrow> bool" where
  "commit_allowed sc v \<longleftrightarrow>
     fst (observed_status sc v (commit_tick_of v)) = STATUS_ACTIVE \<and> within_limit sc
     \<and> check_decision sc v = ''ALLOW''"

definition trace_events :: "rb_scenario \<Rightarrow> variation \<Rightarrow> json list" where
  "trace_events sc v =
     (let a = rs_authority sc; commit_tick = commit_tick_of v;
          events = emit (va_check_tick v) ''action_proposed''
            [(''subject'', JStr (ai_subject a)), (''beneficiary'', JStr (ai_resource a)),
             (''quantity'', JInt (rs_action_quantity sc)), (''unit'', JStr (ai_unit a))] [];
          events = emit (va_check_tick v) ''authorization_checked''
            [(''authority_status_observed'', JStr (check_status_of sc v)),
             (''within_quantity_limit'', JBool (within_limit sc)),
             (''decision'', JStr (check_decision sc v)),
             (''read_source'', JStr ''AUTHORITATIVE_SOURCE'')] events;
          events = emit (va_revocation_tick v) ''authority_transition''
            [(''from_status'', JStr STATUS_ACTIVE), (''to_status'', JStr STATUS_REVOKED),
             (''effective_tick'', JInt (va_revocation_tick v)),
             (''accepted_by'', JStr ''AUTHORITY_SOURCE'')] events;
          events = (if va_duplicate_request v
                    then emit commit_tick ''commit_requested''
                           [(''retry_index'', JInt (va_retry_index v)), (''duplicate'', JBool True)] events
                    else events);
          events = emit commit_tick ''commit_requested''
            [(''retry_index'', JInt (va_retry_index v)), (''duplicate'', JBool False)] events
      in case observed_status sc v commit_tick of (observed, observed_at, read_source) \<Rightarrow>
           let allowed = commit_allowed sc v;
               events = emit commit_tick ''commit_decision''
                 [(''enforcement_path'', JStr (rs_enforcement_path sc)),
                  (''authority_status_used'', JStr observed),
                  (''authority_status_observed_at_tick'', JInt observed_at),
                  (''read_source'', JStr read_source), (''allowed'', JBool allowed)] events
           in emit commit_tick ''consequence_committed''
                [(''committed'', JBool allowed),
                 (''quantity'', JInt (if allowed then rs_action_quantity sc else 0)),
                 (''unit'', JStr (ai_unit a)), (''beneficiary'', JStr (ai_resource a))] events)"

definition execute :: "rb_scenario \<Rightarrow> variation \<Rightarrow> json" where
  "execute sc v = JObj [
     (''trace_form'', JStr ''oat-observable-trace/1''),
     (''boundary_id'', JStr BOUNDARY_ID), (''boundary_version'', JStr BOUNDARY_VERSION),
     (''scenario_id'', JStr (rs_scenario_id sc)),
     (''execution_identity'', JStr (rs_execution_identity sc)),
     (''enforcement_path'', JStr (rs_enforcement_path sc)),
     (''authority_input'', authority_input_dict (rs_authority sc)),
     (''variation'', variation_dict v),
     (''commit_tick'', JInt (commit_tick_of v)),
     (''authority_effective_at_commit'',
        JStr (authority_effective_status (rs_authority sc) (va_revocation_tick v) (commit_tick_of v))),
     (''events'', JList (trace_events sc v))]"

subsection \<open>The falsifier\<close>

definition FALSIFIER_ID :: string where "FALSIFIER_ID = ''OAT-FALSIFIER-RB-001''"
definition FALSIFIER_VERSION :: string where "FALSIFIER_VERSION = ''0.1.0''"
definition SUPPORTED_VERSIONS :: "string list" where "SUPPORTED_VERSIONS = [''0.1.0'']"

definition EXPRESSION :: string where
  "EXPRESSION =
     ''counterexample := committed(payment) AND authority_effective_at(commit_time) == REVOKED''"

definition DEFINITION :: json where
  "DEFINITION = JObj [
     (''id'', JStr FALSIFIER_ID), (''version'', JStr FALSIFIER_VERSION),
     (''expression'', JStr EXPRESSION),
     (''predicates'', JList [
        JObj [(''name'', JStr ''committed''),
              (''reads'', JStr ''events[event=consequence_committed].committed''),
              (''requires'', JBool True)],
        JObj [(''name'', JStr ''authority_effective_at_commit_is_revoked''),
              (''reads'', JStr ''authority_effective_at_commit''),
              (''requires'', JStr STATUS_REVOKED)]]),
     (''combinator'', JStr ''AND'')]"

definition falsifier_digest :: string where
  "falsifier_digest = digest_object DEFINITION"

definition falsifier_identity :: json where
  "falsifier_identity = JObj [(''id'', JStr FALSIFIER_ID), (''version'', JStr FALSIFIER_VERSION),
     (''digest'', JStr falsifier_digest)]"

definition is_commit_event :: "json \<Rightarrow> bool" where
  "is_commit_event e \<longleftrightarrow> is_JObj e \<and> jget e ''event'' = Some (JStr ''consequence_committed'')"

definition trace_commit_event :: "json \<Rightarrow> json res" where
  "trace_commit_event trace =
     (if \<not> is_JObj trace then Inl (AttributeError ''get'')
      else (case jget trace ''events'' of
        Some (JList events) \<Rightarrow>
          (case filter is_commit_event events of
             [e] \<Rightarrow> Inr e
           | es \<Rightarrow> Inl (FalsifierError (''expected exactly one consequence_committed event, found ''
                      @ str_of_nat (length es))))
      | _ \<Rightarrow> Inl (FalsifierError ''trace has no events list'')))"

definition jget_null :: "json \<Rightarrow> string \<Rightarrow> json" where
  "jget_null d k = jget_or d k JNull"

definition falsifier_evaluate :: "json \<Rightarrow> json res" where
  "falsifier_evaluate trace =
     bindE (trace_commit_event trace) (\<lambda>event.
       let committed = truthy (jget_null event ''committed'');
           effective = py_str (jget_or trace ''authority_effective_at_commit'' (JStr []));
           revoked = (effective = STATUS_REVOKED)
       in Inr (JObj [
            (''falsifier'', falsifier_identity), (''expression'', JStr EXPRESSION),
            (''predicate_trace'', JList [
               JObj [(''predicate'', JStr ''committed''),
                     (''operand'', JObj [(''committed'', JBool committed),
                                         (''seq'', jget_null event ''seq'')]),
                     (''result'', JBool committed)],
               JObj [(''predicate'', JStr ''authority_effective_at_commit_is_revoked''),
                     (''operand'', JObj [(''authority_effective_at_commit'', JStr effective),
                                         (''commit_tick'', jget_null trace ''commit_tick'')]),
                     (''result'', JBool revoked)]]),
            (''counterexample'', JBool (committed \<and> revoked))]))"

subsection \<open>What a run comes to\<close>

lemma paths_differ [simp]:
  "ENFORCEMENT_CHECK_ONCE_CACHED \<noteq> ENFORCEMENT_STALE_PROPAGATION"
  "ENFORCEMENT_CHECK_ONCE_CACHED \<noteq> ENFORCEMENT_RECHECK_AT_COMMIT"
  "ENFORCEMENT_STALE_PROPAGATION \<noteq> ENFORCEMENT_RECHECK_AT_COMMIT"
  "ENFORCEMENT_STALE_PROPAGATION \<noteq> ENFORCEMENT_CHECK_ONCE_CACHED"
  "ENFORCEMENT_RECHECK_AT_COMMIT \<noteq> ENFORCEMENT_CHECK_ONCE_CACHED"
  "ENFORCEMENT_RECHECK_AT_COMMIT \<noteq> ENFORCEMENT_STALE_PROPAGATION"
  by (simp_all add: ENFORCEMENT_CHECK_ONCE_CACHED_def ENFORCEMENT_STALE_PROPAGATION_def
      ENFORCEMENT_RECHECK_AT_COMMIT_def)

lemma statuses_differ [simp]: "STATUS_REVOKED \<noteq> STATUS_ACTIVE" "STATUS_ACTIVE \<noteq> STATUS_REVOKED"
  by (simp_all add: STATUS_ACTIVE_def STATUS_REVOKED_def)

text \<open>The window of a grant: inside its validity and before its revocation.\<close>

definition in_window :: "authority_input \<Rightarrow> int \<Rightarrow> int \<Rightarrow> bool" where
  "in_window a revocation t \<longleftrightarrow> ai_valid_from a \<le> t \<and> t \<le> ai_valid_until a \<and> t < revocation"

lemma effective_status:
  "authority_effective_status a r t = (if in_window a r t then ai_status a else STATUS_REVOKED)"
  by (auto simp: authority_effective_status_def in_window_def)

text \<open>The tick at which the authority is read for the commit, per path.\<close>

definition read_tick :: "rb_scenario \<Rightarrow> variation \<Rightarrow> int" where
  "read_tick sc v =
     (if rs_enforcement_path sc = ENFORCEMENT_CHECK_ONCE_CACHED then va_check_tick v
      else if rs_enforcement_path sc = ENFORCEMENT_STALE_PROPAGATION
      then commit_tick_of v - va_propagation_delay v
      else commit_tick_of v)"

lemma observed_status_read:
  "fst (observed_status sc v (commit_tick_of v))
     = authority_effective_status (rs_authority sc) (va_revocation_tick v) (read_tick sc v)"
  by (simp add: observed_status_def read_tick_def Let_def)

lemma allow_not_deny [simp]: "''DENY'' \<noteq> ''ALLOW''" "''ALLOW'' \<noteq> ''DENY''"
  by simp_all

lemma commit_allowed_iff:
  "commit_allowed sc v \<longleftrightarrow> within_limit sc \<and> ai_status (rs_authority sc) = STATUS_ACTIVE
     \<and> in_window (rs_authority sc) (va_revocation_tick v) (va_check_tick v)
     \<and> in_window (rs_authority sc) (va_revocation_tick v) (read_tick sc v)"
  unfolding commit_allowed_def observed_status_read check_decision_def check_status_of_def effective_status
  by (auto split: if_split)

lemma is_commit_event_emit:
  "is_commit_event (JObj ([(''seq'', n), (''tick'', m), (''event'', JStr e)] @ payload))
     \<longleftrightarrow> e = ''consequence_committed''"
  by (simp add: is_commit_event_def)

lemma filter_emit:
  "filter is_commit_event (emit t e payload events) = filter is_commit_event events @
     (if e = ''consequence_committed'' then [JObj ([(''seq'', JInt (int (length events))),
     (''tick'', JInt t), (''event'', JStr e)] @ payload)] else [])"
  unfolding emit_def filter_append by (simp only: filter.simps is_commit_event_emit append_Nil2 split: if_split)

text \<open>Whatever the variation, the trace holds one commit event, which says what was allowed.\<close>

lemma trace_commit_event_execute:
  "\<exists>e. trace_commit_event (execute sc v) = Inr e
     \<and> jget e ''committed'' = Some (JBool (commit_allowed sc v))"
proof -
  have "\<exists>e. filter is_commit_event (trace_events sc v) = [e]
      \<and> jget e ''committed'' = Some (JBool (commit_allowed sc v))"
    unfolding trace_events_def Let_def
    by (cases "observed_status sc v (commit_tick_of v)") (simp add: filter_emit split: if_split)
  then show ?thesis by (auto simp: trace_commit_event_def execute_def)
qed

definition run_counterexample :: "rb_scenario \<Rightarrow> variation \<Rightarrow> bool res" where
  "run_counterexample sc v =
     bindE (falsifier_evaluate (execute sc v)) (\<lambda>ev. bindE (jindex ev ''counterexample'') (\<lambda>b. Inr (truthy b)))"

lemma run_counterexample_eq:
  "run_counterexample sc v = Inr (commit_allowed sc v
     \<and> authority_effective_status (rs_authority sc) (va_revocation_tick v) (commit_tick_of v) = STATUS_REVOKED)"
proof -
  from trace_commit_event_execute [of sc v] obtain e where e: "trace_commit_event (execute sc v) = Inr e"
    "jget e ''committed'' = Some (JBool (commit_allowed sc v))" by blast
  have "jget_or (execute sc v) ''authority_effective_at_commit'' (JStr [])
      = JStr (authority_effective_status (rs_authority sc) (va_revocation_tick v) (commit_tick_of v))"
    by (simp add: jget_or_def execute_def)
  with e show ?thesis
    by (simp add: run_counterexample_def falsifier_evaluate_def Let_def dict_index_def
        jget_null_def jget_or_def [of e])
qed

subsection \<open>Properties\<close>

text \<open>Running a scenario and evaluating its trace never fails, and the falsifier fires exactly when
  the quantity was within the limit, the grant was active at the check and at the tick the
  enforcement path read it, but no longer at the commit: the cached decision reads the check tick,
  the lagging replica the commit tick less its delay, the recheck the commit tick itself.\<close>

theorem rb001_counterexample_iff:
  "\<exists>b. run_counterexample sc v = Inr b \<and>
     (b \<longleftrightarrow> rs_action_quantity sc \<le> ai_max_quantity (rs_authority sc)
        \<and> ai_status (rs_authority sc) = STATUS_ACTIVE
        \<and> in_window (rs_authority sc) (va_revocation_tick v) (va_check_tick v)
        \<and> in_window (rs_authority sc) (va_revocation_tick v) (read_tick sc v)
        \<and> \<not> in_window (rs_authority sc) (va_revocation_tick v) (va_commit_tick v + va_retry_index v))"
  by (auto simp: run_counterexample_eq commit_allowed_iff within_limit_def effective_status commit_tick_of_def)

text \<open>C25: Rechecking at the consequence boundary is safe: on that path no authority, no quantity and no
  variation, with any retries, delays, duplicates or tick order, is a counterexample.\<close>

theorem recheck_at_commit_is_safe:
  assumes "rs_enforcement_path sc = ENFORCEMENT_RECHECK_AT_COMMIT"
  shows "run_counterexample sc v = Inr False"
  using assms by (auto simp: run_counterexample_eq commit_allowed_iff effective_status read_tick_def)

definition demo_rb_authority :: authority_input where
  "demo_rb_authority = \<lparr>ai_subject = ''s'', ai_resource = ''r'', ai_max_quantity = 100, ai_unit = ''USD'',
     ai_valid_from = 0, ai_valid_until = 100, ai_status = STATUS_ACTIVE\<rparr>"

definition demo_rb_scenario :: "string \<Rightarrow> rb_scenario" where
  "demo_rb_scenario path = \<lparr>rs_scenario_id = ''RB-001-X'', rs_enforcement_path = path,
     rs_authority = demo_rb_authority, rs_action_quantity = 50, rs_execution_identity = ''e'',
     rs_baseline = \<lparr>va_check_tick = 10, va_revocation_tick = 20, va_commit_tick = 21,
       va_propagation_delay = 0, va_retry_index = 0, va_duplicate_request = False\<rparr>,
     rs_search_space = []\<rparr>"

lemma recheck_at_commit_is_safe_witness:
  "run_counterexample (demo_rb_scenario ENFORCEMENT_RECHECK_AT_COMMIT)
     (rs_baseline (demo_rb_scenario ENFORCEMENT_RECHECK_AT_COMMIT)) = Inr False"
  by (rule recheck_at_commit_is_safe) (simp add: demo_rb_scenario_def)

lemma cached_decision_fires:
  "run_counterexample (demo_rb_scenario ENFORCEMENT_CHECK_ONCE_CACHED)
     (rs_baseline (demo_rb_scenario ENFORCEMENT_CHECK_ONCE_CACHED)) = Inr True"
  by (simp add: run_counterexample_eq commit_allowed_iff effective_status read_tick_def within_limit_def
      in_window_def demo_rb_scenario_def demo_rb_authority_def commit_tick_of_def)

end
