(* ===== verification/Adversaries.thy ===== *)
theory Adversaries
  imports Rb001
begin

section \<open>Adversaries\<close>

text \<open>
  \<open>oat/adversaries/base.py\<close>, \<open>deterministic.py\<close> and \<open>provider.py\<close>. A generator is
  modelled by the list of what it would yield, in order; an exception raised while it runs is
  the \<open>Inl\<close> at the place where it is raised, so a consumer that stops early does not see it.
  The provider's answer is a string from a transport: the unconfigured one or the scripted,
  offline one of the source.
\<close>

subsection \<open>The deterministic grid\<close>

definition DEFAULT_MAX_CANDIDATES :: int where
  "DEFAULT_MAX_CANDIDATES = 4096"

text \<open>The \<open>DIMENSIONS\<close> of \<open>deterministic.py\<close>, in the order of the dictionary.\<close>

definition AXES :: "(string \<times> json list) list" where
  "AXES = [(''check_tick'', [JInt 10]), (''revocation_tick'', [JInt 20]), (''commit_offset'', [JInt 1]),
     (''propagation_delay'', [JInt 0]), (''retry_index'', [JInt 0]),
     (''duplicate_request'', [JBool False])]"

definition axis_of :: "(string \<times> json) list \<Rightarrow> string \<times> json list \<Rightarrow> (string \<times> json list) res" where
  "axis_of space d =
     (case dict_get space (fst d) of
        None \<Rightarrow> Inr (fst d, sort_key py_repr (snd d))
      | Some (JList values) \<Rightarrow>
          if values = [] then Inl (ValueError (''search_space.'' @ fst d @ '' must be a non-empty list''))
          else Inr (fst d, sort_key py_repr values)
      | Some _ \<Rightarrow> Inl (ValueError (''search_space.'' @ fst d @ '' must be a non-empty list'')))"

definition axes :: "rb_scenario \<Rightarrow> (string \<times> json list) list res" where
  "axes sc = mapE (axis_of (rs_search_space sc)) AXES"

definition variation_at :: "(string \<times> json) list \<Rightarrow> variation res" where
  "variation_at point =
     bindE (int_field (JObj point) ''revocation_tick'') (\<lambda>revocation.
     bindE (int_field (JObj point) ''check_tick'') (\<lambda>check.
     bindE (int_field (JObj point) ''commit_offset'') (\<lambda>offset.
     bindE (int_field (JObj point) ''propagation_delay'') (\<lambda>delay.
     bindE (int_field (JObj point) ''retry_index'') (\<lambda>retry.
     bindE (jindex (JObj point) ''duplicate_request'') (\<lambda>dup.
       Inr \<lparr>va_check_tick = check, va_revocation_tick = revocation,
            va_commit_tick = revocation + offset, va_propagation_delay = delay,
            va_retry_index = retry, va_duplicate_request = truthy dup\<rparr>))))))"

text \<open>
  \<open>itertools.product\<close> varies the last axis fastest, as \<open>product_lists\<close> does. The count is
  tested after each yield.
\<close>

definition grid_points :: "(string \<times> json list) list \<Rightarrow> (string \<times> json) list list" where
  "grid_points ax = (let names = sort (map fst ax) in
     map (\<lambda>c. zip names c) (product_lists (map (\<lambda>k. the (dict_get ax k)) names)))"

definition grid_propose :: "int \<Rightarrow> rb_scenario \<Rightarrow> variation res list" where
  "grid_propose max_candidates sc =
     (case axes sc of
        Inl e \<Rightarrow> [Inl e]
      | Inr ax \<Rightarrow> take (max 1 (nat max_candidates)) (map variation_at (grid_points ax)))"

definition grid_identity :: "int \<Rightarrow> (string \<times> json) list" where
  "grid_identity max_candidates = [
     (''id'', JStr ''OAT-ADVERSARY-DETERMINISTIC''), (''version'', JStr ''0.1.0''),
     (''kind'', JStr ''local-deterministic''), (''strategy'', JStr ''ordered-grid-search''),
     (''max_candidates'', JInt max_candidates)]"

subsection \<open>The provider seam\<close>

definition NOT_EXPOSED :: string where
  "NOT_EXPOSED = ''NOT_EXPOSED_BY_PROVIDER''"

datatype transport = UnconfiguredTransport | ScriptedTransport "string list" nat

definition transport_is_live :: "transport \<Rightarrow> bool" where
  "transport_is_live t = (case t of UnconfiguredTransport \<Rightarrow> False | ScriptedTransport _ _ \<Rightarrow> False)"

definition transport_name :: "transport \<Rightarrow> string" where
  "transport_name t = (case t of UnconfiguredTransport \<Rightarrow> ''unconfigured''
     | ScriptedTransport _ _ \<Rightarrow> ''scripted-offline'')"

definition transport_complete :: "transport \<Rightarrow> string \<Rightarrow> transport \<times> string res" where
  "transport_complete t prompt =
     (case t of
        UnconfiguredTransport \<Rightarrow> (t, Inl (TransportError
          (''No provider transport is configured: no endpoint and no credentials. '' @
           ''An adversary run cannot be performed, and must not be reported as if '' @ ''it had been.'')))
      | ScriptedTransport responses i \<Rightarrow>
          if i \<ge> length responses then (t, Inl (TransportError ''scripted transport exhausted''))
          else (ScriptedTransport responses (Suc i), Inr (responses ! i)))"

record provider_adversary =
  pa_transport :: transport
  pa_config :: "(string \<times> json) list"

definition provider_run_occurred :: "provider_adversary \<Rightarrow> bool" where
  "provider_run_occurred p = transport_is_live (pa_transport p)"

definition provider_identity :: "provider_adversary \<Rightarrow> (string \<times> json) list" where
  "provider_identity p = [
     (''id'', JStr ''OAT-ADVERSARY-PROVIDER''), (''version'', JStr ''0.2.0''), (''kind'', JStr ''provider''),
     (''transport'', JStr (transport_name (pa_transport p))),
     (''provider_run_occurred'', JBool (provider_run_occurred p)),
     (''model'', jget_or (JObj (pa_config p)) ''model'' (JStr NOT_EXPOSED)),
     (''endpoint'', jget_or (JObj (pa_config p)) ''endpoint'' (JStr NOT_EXPOSED)),
     (''config_digest'', JStr (digest_object (JObj (pa_config p))))]"

definition provider_prompt :: "rb_scenario \<Rightarrow> string" where
  "provider_prompt sc = ''scenario='' @ rs_scenario_id sc @ '' enforcement_path='' @ rs_enforcement_path sc
     @ '' search_space='' @ py_repr (JStrs (sort (map fst (rs_search_space sc))))"

text \<open>\<open>str.splitlines()\<close> on its ASCII line boundaries.\<close>

definition is_line_break :: "char \<Rightarrow> bool" where
  "is_line_break c \<longleftrightarrow> (let n = of_char c :: nat in (10 \<le> n \<and> n \<le> 13) \<or> (28 \<le> n \<and> n \<le> 30))"

fun splitlines :: "string \<Rightarrow> string list" where
  "splitlines [] = []"
| "splitlines (c # s) =
     (if c = CHR 0x0D \<and> (case s of [] \<Rightarrow> False | d # _ \<Rightarrow> d = CHR 0x0A) then [] # splitlines (tl s)
      else if is_line_break c then [] # splitlines s
      else (case splitlines s of [] \<Rightarrow> [[c]] | l # ls \<Rightarrow> (c # l) # ls))"

definition csv_parts :: "string \<Rightarrow> string list" where
  "csv_parts line = filter (\<lambda>p. p \<noteq> []) (map strip_ws (split_on (CHR '','') line))"

fun parse_ints :: "string list \<Rightarrow> int list option" where
  "parse_ints [] = Some []"
| "parse_ints (p # ps) =
     (case parse_int p of None \<Rightarrow> None | Some i \<Rightarrow> map_option ((#) i) (parse_ints ps))"

definition parse_line :: "string \<Rightarrow> variation option" where
  "parse_line line =
     (let parts = csv_parts line in
      if length parts < 3 then None
      else (case parse_ints (if length parts \<ge> 5 then take 5 parts else take 3 parts) of
              None \<Rightarrow> None
            | Some ns \<Rightarrow> Some \<lparr>va_check_tick = ns ! 0, va_revocation_tick = ns ! 1, va_commit_tick = ns ! 2,
                va_propagation_delay = (if length ns > 3 then ns ! 3 else 0),
                va_retry_index = (if length ns > 4 then ns ! 4 else 0),
                va_duplicate_request = (if length parts > 5 then lower (parts ! 5) = ''true'' else False)\<rparr>))"

definition parse_response :: "string \<Rightarrow> variation list" where
  "parse_response raw = List.map_filter parse_line (splitlines raw)"

definition provider_propose ::
  "provider_adversary \<Rightarrow> rb_scenario \<Rightarrow> provider_adversary \<times> variation res list" where
  "provider_propose p sc =
     (case transport_complete (pa_transport p) (provider_prompt sc) of
        (t, Inl e) \<Rightarrow> (p\<lparr>pa_transport := t\<rparr>, [Inl e])
      | (t, Inr raw) \<Rightarrow> (p\<lparr>pa_transport := t\<rparr>, map Inr (parse_response raw)))"

subsection \<open>The candidates stay in the declared space\<close>

lemma axis_of_Inr:
  assumes "axis_of space d = Inr ax" "snd d \<noteq> []"
  shows "fst ax = fst d" "snd ax \<noteq> []" "sorted (map py_repr (snd ax))"
    "set (snd ax) = set (case dict_get space (fst d) of Some (JList vs) \<Rightarrow> vs | _ \<Rightarrow> snd d)"
proof -
  have ne: "sort_key py_repr xs \<noteq> []" if "xs \<noteq> []" for xs
    using that by (metis length_0_conv length_sort)
  show "fst ax = fst d" "snd ax \<noteq> []" "sorted (map py_repr (snd ax))"
    "set (snd ax) = set (case dict_get space (fst d) of Some (JList vs) \<Rightarrow> vs | _ \<Rightarrow> snd d)"
    using assms by (auto simp: axis_of_def ne split: option.splits json.splits if_splits)
qed

subsection \<open>Reading a candidate back\<close>

text \<open>Writing a variation the way the response format names its fields.\<close>

definition csv_variation :: "variation \<Rightarrow> string" where
  "csv_variation v = join '','' [str_of_int (va_check_tick v), str_of_int (va_revocation_tick v),
     str_of_int (va_commit_tick v), str_of_int (va_propagation_delay v), str_of_int (va_retry_index v),
     if va_duplicate_request v then ''true'' else ''false'']"

definition plain_text :: "string \<Rightarrow> bool" where
  "plain_text s \<longleftrightarrow> s \<noteq> [] \<and> (\<forall>c \<in> set s. \<not> is_space c \<and> \<not> is_line_break c \<and> c \<noteq> CHR '','')"

lemma is_digit_plain: "is_digit c \<Longrightarrow> \<not> is_space c \<and> \<not> is_line_break c \<and> c \<noteq> CHR '','' \<and> c \<noteq> CHR ''-'' \<and> c \<noteq> CHR ''+'' \<and> c \<noteq> CHR ''_''"
  by (auto simp: is_digit_def is_space_def is_line_break_def Let_def)

lemma plain_str_of_nat: "plain_text (str_of_nat n)"
  using str_of_nat_digits [of n] is_digit_plain str_of_nat_nonempty by (auto simp only: plain_text_def)

lemma plain_Cons: "plain_text s \<Longrightarrow> plain_text (CHR ''-'' # s)"
  by (simp add: plain_text_def is_space_def is_line_break_def)

lemma plain_str_of_int [simp]: "plain_text (str_of_int i)"
  by (simp add: str_of_int_def plain_str_of_nat plain_Cons)

lemma plain_flags [simp]: "plain_text ''true''" "plain_text ''false''"
  by (simp_all add: plain_text_def is_space_def is_line_break_def)

lemma strip_plain: "plain_text s \<Longrightarrow> strip_ws s = s"
proof -
  assume p: "plain_text s"
  have "dropWhile is_space s = s" using p by (cases s) (auto simp: plain_text_def)
  moreover have "dropWhile is_space (rev s) = rev s"
    using p by (cases "rev s") (auto simp: plain_text_def)
  ultimately show ?thesis by (simp add: strip_ws_def)
qed

lemma split_join_plain:
  "xs \<noteq> [] \<Longrightarrow> list_all plain_text xs \<Longrightarrow> split_on (CHR '','') (join '','' xs) = xs"
proof (induction xs)
  case (Cons x xs)
  then have "CHR '','' \<notin> set x" by (auto simp: plain_text_def)
  with Cons show ?case by (cases xs) (simp_all add: split_on_no_sep split_on_line)
qed simp

lemma csv_parts_join: "xs \<noteq> [] \<Longrightarrow> list_all plain_text xs \<Longrightarrow> csv_parts (join '','' xs) = xs"
proof -
  assume *: "xs \<noteq> []" "list_all plain_text xs"
  have "map strip_ws xs = xs" using *(2) by (induction xs) (auto simp: strip_plain)
  moreover have "filter (\<lambda>p. p \<noteq> []) xs = xs"
    using *(2) by (auto simp: filter_id_conv list_all_iff plain_text_def)
  ultimately show ?thesis using split_join_plain [OF *] by (simp add: csv_parts_def)
qed

lemma digits_ok_digits: "list_all is_digit s \<Longrightarrow> s \<noteq> [] \<Longrightarrow> digits_ok b s"
proof -
  have "list_all is_digit s \<Longrightarrow> digits_ok True s" for s by (induction s) auto
  then show "list_all is_digit s \<Longrightarrow> s \<noteq> [] \<Longrightarrow> digits_ok b s" by (cases s) auto
qed

lemma parse_digits_nat: "parse_digits (str_of_nat n) = Some (int n)"
proof -
  have "list_all is_digit (str_of_nat n)" using str_of_nat_digits [of n] by (simp add: list_all_iff)
  moreover from this have "filter is_digit (str_of_nat n) = str_of_nat n"
    by (simp add: list_all_iff)
  ultimately show ?thesis by (simp add: parse_digits_def digits_ok_digits)
qed

lemma parse_str_of_int [simp]: "parse_int (str_of_int i) = Some i"
proof -
  obtain c r where cr: "str_of_nat (nat i) = c # r" by (cases "str_of_nat (nat i)") auto
  then have "is_digit c" using str_of_nat_digits [of "nat i"] by auto
  then have "c \<noteq> CHR ''-''" "c \<noteq> CHR ''+''" using is_digit_plain by auto
  then show ?thesis
    using cr parse_digits_nat [of "nat i"]
    by (simp add: parse_int_def strip_plain) (auto simp: str_of_int_def parse_digits_nat)
qed

lemma lower_true: "lower ''true'' = ''true''" "lower ''false'' = ''false''"
  by (simp_all add: lower_def lower_char_def)

lemma parse_csv_variation: "parse_line (csv_variation v) = Some v"
  unfolding parse_line_def csv_variation_def
  by (subst csv_parts_join) (simp_all add: lower_true)

lemma is_line_break_plain: "plain_text s \<Longrightarrow> c \<in> set s \<Longrightarrow> \<not> is_line_break c"
  by (auto simp: plain_text_def)

lemma splitlines_line:
  "list_all (\<lambda>c. \<not> is_line_break c) s \<Longrightarrow> s \<noteq> [] \<Longrightarrow> splitlines (s @ CHR 0x0A # t) = s # splitlines t"
proof (induction s)
  case (Cons c s)
  then have c: "\<not> is_line_break c" "c \<noteq> CHR 0x0D" by (auto simp: is_line_break_def)
  show ?case
  proof (cases s)
    case Nil
    with c show ?thesis by (simp add: is_line_break_def)
  next
    case (Cons d s')
    with c Cons.IH Cons.prems show ?thesis by simp
  qed
qed simp

lemma set_join: "c \<in> set (join '','' xs) \<Longrightarrow> c = CHR '','' \<or> (\<exists>x \<in> set xs. c \<in> set x)"
  by (induction xs rule: induct_list012) auto

lemma join_one_line:
  assumes "list_all plain_text xs"
  shows "list_all (\<lambda>c. \<not> is_line_break c) (join '','' xs)"
  unfolding list_all_iff
proof
  fix c assume "c \<in> set (join '','' xs)"
  from set_join [OF this] show "\<not> is_line_break c"
  proof
    assume "c = CHR '',''"
    then show ?thesis by (simp add: is_line_break_def)
  next
    assume "\<exists>x \<in> set xs. c \<in> set x"
    with assms(1) show ?thesis by (auto simp: list_all_iff dest: is_line_break_plain)
  qed
qed

lemma csv_one_line: "list_all (\<lambda>c. \<not> is_line_break c) (csv_variation v)" "csv_variation v \<noteq> []"
proof -
  show "list_all (\<lambda>c. \<not> is_line_break c) (csv_variation v)"
    unfolding csv_variation_def by (rule join_one_line) simp
  show "csv_variation v \<noteq> []" by (simp add: csv_variation_def)
qed

subsection \<open>Properties\<close>

text \<open>A provider's answer is read back exactly: one line per variation, with all six fields, parses
  to those variations in that order, and a line that does not parse is dropped without disturbing
  the others.\<close>

theorem provider_response_roundtrip:
  "parse_response (concat (map (\<lambda>v. csv_variation v @ [CHR 0x0A]) vs)) = vs
   \<and> parse_response (''not,a,variation'' @ [CHR 0x0A] @ concat (map (\<lambda>v. csv_variation v @ [CHR 0x0A]) vs)) = vs"
proof -
  have rt: "parse_response (concat (map (\<lambda>v. csv_variation v @ [CHR 0x0A]) vs)) = vs" for vs
  proof (induction vs)
    case Nil
    show ?case by (simp add: parse_response_def map_filter_simps)
  next
    case (Cons v vs)
    have "splitlines (concat (map (\<lambda>v. csv_variation v @ [CHR 0x0A]) (v # vs)))
        = csv_variation v # splitlines (concat (map (\<lambda>v. csv_variation v @ [CHR 0x0A]) vs))"
      using splitlines_line [OF csv_one_line] by simp
    with Cons show ?case by (simp add: parse_response_def map_filter_simps parse_csv_variation)
  qed
  have junk: "parse_line ''not,a,variation'' = None"
    by (simp add: parse_line_def csv_parts_def strip_ws_def is_space_def parse_int_def parse_digits_def
        is_digit_def Let_def)
  have "splitlines (''not,a,variation'' @ CHR 0x0A # t) = ''not,a,variation'' # splitlines t" for t
    by (rule splitlines_line) (simp_all add: is_line_break_def)
  with junk rt [of vs] show ?thesis by (simp add: parse_response_def map_filter_simps)
qed

text \<open>Four fields are not read as the format promises: a line with a propagation delay and nothing
  after it parses to a variation whose delay is zero.\<close>

theorem fourth_field_is_dropped:
  "parse_line (join '','' (map str_of_int [check, revocation, commit, delay])) =
     Some \<lparr>va_check_tick = check, va_revocation_tick = revocation, va_commit_tick = commit,
       va_propagation_delay = 0, va_retry_index = 0, va_duplicate_request = False\<rparr>"
  unfolding parse_line_def by (subst csv_parts_join) simp_all

text \<open>The values the adversary may use for a dimension: what the scenario lists, or the default.\<close>

definition axis_values :: "rb_scenario \<Rightarrow> string \<Rightarrow> json list" where
  "axis_values sc k = (case dict_get (rs_search_space sc) k of Some (JList vs) \<Rightarrow> vs
     | _ \<Rightarrow> the (dict_get AXES k))"

lemma dict_get_rel:
  "list_all2 (\<lambda>d a. fst a = fst d \<and> P d a) ds as \<Longrightarrow> dict_get ds k = Some x \<Longrightarrow>
     \<exists>y. dict_get as k = Some y \<and> P (k, x) (k, y)"
  by (induction ds as rule: list_all2_induct) (auto split: if_splits)

definition listed :: "(string \<times> json) list \<Rightarrow> string \<times> json list \<Rightarrow> json list" where
  "listed space d = (case dict_get space (fst d) of Some (JList vs) \<Rightarrow> vs | _ \<Rightarrow> snd d)"

lemma axes_rel:
  assumes "axes sc = Inr ax"
  shows "list_all2 (\<lambda>d a. fst a = fst d \<and> set (snd a) = set (listed (rs_search_space sc) d)) AXES ax"
proof -
  have "list_all (\<lambda>d. snd d \<noteq> []) AXES" by (simp add: AXES_def)
  moreover have "list_all2 (\<lambda>d a. axis_of (rs_search_space sc) d = Inr a) AXES ax"
    using mapE_InrD assms unfolding axes_def by blast
  ultimately show ?thesis
    using axis_of_Inr(1,4) unfolding listed_def list_all2_conv_all_nth list_all_length by metis
qed

lemma axes_get:
  assumes "axes sc = Inr ax"
  shows "map fst ax = map fst AXES"
    "k \<in> fst ` set AXES \<Longrightarrow> set (the (dict_get ax k)) = set (axis_values sc k)"
proof -
  note rel = axes_rel [OF assms]
  then show "map fst ax = map fst AXES"
    by (simp add: list_all2_conv_all_nth list_eq_iff_nth_eq)
  show "set (the (dict_get ax k)) = set (axis_values sc k)" if k: "k \<in> fst ` set AXES"
  proof -
    from k dict_get_None_iff [of AXES k] obtain x where x: "dict_get AXES k = Some x" by auto
    have l: "listed (rs_search_space sc) (k, x) = axis_values sc k"
      unfolding listed_def axis_values_def x fst_conv snd_conv option.sel ..
    from dict_get_rel [OF rel x] obtain y where
      "dict_get ax k = Some y" "set (snd (k, y)) = set (listed (rs_search_space sc) (k, x))" by blast
    then show ?thesis by (simp only: l snd_conv option.sel)
  qed
qed

lemma zip_keys: "length c = length ks \<Longrightarrow> fst ` set (zip ks c) = set ks"
  by (metis map_fst_zip set_map)

lemma product_lists_zip:
  "c \<in> set (product_lists (map f ks)) \<Longrightarrow> length c = length ks"
  "c \<in> set (product_lists (map f ks)) \<Longrightarrow> (k, v) \<in> set (zip ks c) \<Longrightarrow> v \<in> set (f k)"
  by (induction ks arbitrary: c) auto

lemma grid_point_get:
  assumes "axes sc = Inr ax" "p \<in> set (grid_points ax)" "k \<in> fst ` set AXES"
  shows "\<exists>v. dict_get p k = Some v \<and> v \<in> set (axis_values sc k)"
proof -
  let ?ks = "sort (map fst ax)"
  from assms(2) obtain c where c: "p = zip ?ks c" "c \<in> set (product_lists (map (\<lambda>k. the (dict_get ax k)) ?ks))"
    by (auto simp: grid_points_def Let_def)
  note len = product_lists_zip(1) [OF c(2)] and mem = product_lists_zip(2) [OF c(2)]
  have keys: "map fst ax = map fst AXES" by (rule axes_get(1) [OF assms(1)])
  have "k \<in> set ?ks" using assms(3) by (simp add: keys)
  with len have "dict_get p k \<noteq> None" by (simp add: c(1) dict_get_None_iff zip_keys)
  then obtain v where v: "dict_get p k = Some v" by blast
  with mem dict_get_SomeD [OF v] c(1) axes_get(2) [OF assms(1,3)] show ?thesis by blast
qed

text \<open>The deterministic adversary never leaves the declared space: every variation it proposes takes
  each of its coordinates from the values the scenario lists for that dimension, or from the
  default, commits at an offset from the revocation, and no more than the candidate limit are
  proposed, but always at least one when the limit is zero or less.\<close>

theorem grid_stays_in_space:
  assumes "Inr v \<in> set (grid_propose m sc)"
  shows "length (grid_propose m sc) \<le> max 1 (nat m)
   \<and> (\<exists>c \<in> set (axis_values sc ''check_tick''). py_int c = Inr (va_check_tick v))
   \<and> (\<exists>r \<in> set (axis_values sc ''revocation_tick''). \<exists>off \<in> set (axis_values sc ''commit_offset'').
        \<exists>i. py_int r = Inr (va_revocation_tick v) \<and> py_int off = Inr i
            \<and> va_commit_tick v = va_revocation_tick v + i)
   \<and> (\<exists>d \<in> set (axis_values sc ''propagation_delay''). py_int d = Inr (va_propagation_delay v))
   \<and> (\<exists>t \<in> set (axis_values sc ''retry_index''). py_int t = Inr (va_retry_index v))
   \<and> (\<exists>b \<in> set (axis_values sc ''duplicate_request''). truthy b = va_duplicate_request v)"
proof -
  from assms obtain ax where ax: "axes sc = Inr ax" by (auto simp: grid_propose_def split: sum.splits)
  with assms have "Inr v \<in> set (map variation_at (grid_points ax))"
    by (auto simp: grid_propose_def dest: in_set_takeD)
  then obtain p where p: "p \<in> set (grid_points ax)" "variation_at p = Inr v" by auto
  note get = grid_point_get [OF ax p(1)]
  obtain c where c: "dict_get p ''check_tick'' = Some c" "c \<in> set (axis_values sc ''check_tick'')"
    using get [of "''check_tick''"] by (auto simp: AXES_def)
  obtain r where r: "dict_get p ''revocation_tick'' = Some r" "r \<in> set (axis_values sc ''revocation_tick'')"
    using get [of "''revocation_tick''"] by (auto simp: AXES_def)
  obtain off where off: "dict_get p ''commit_offset'' = Some off" "off \<in> set (axis_values sc ''commit_offset'')"
    using get [of "''commit_offset''"] by (auto simp: AXES_def)
  obtain d where d: "dict_get p ''propagation_delay'' = Some d" "d \<in> set (axis_values sc ''propagation_delay'')"
    using get [of "''propagation_delay''"] by (auto simp: AXES_def)
  obtain t where t: "dict_get p ''retry_index'' = Some t" "t \<in> set (axis_values sc ''retry_index'')"
    using get [of "''retry_index''"] by (auto simp: AXES_def)
  obtain b where b: "dict_get p ''duplicate_request'' = Some b" "b \<in> set (axis_values sc ''duplicate_request'')"
    using get [of "''duplicate_request''"] by (auto simp: AXES_def)
  have "py_int c = Inr (va_check_tick v) \<and> py_int r = Inr (va_revocation_tick v)
    \<and> (\<exists>i. py_int off = Inr i \<and> va_commit_tick v = va_revocation_tick v + i)
    \<and> py_int d = Inr (va_propagation_delay v) \<and> py_int t = Inr (va_retry_index v)
    \<and> truthy b = va_duplicate_request v"
    using p(2) c(1) r(1) off(1) d(1) t(1) b(1)
    by (simp add: variation_at_def int_field_def dict_index_def bindE_Inr_iff) (elim exE conjE, hypsubst, simp)
  moreover have "length (grid_propose m sc) \<le> max 1 (nat m)" by (simp add: grid_propose_def ax)
  ultimately show ?thesis using c(2) r(2) off(2) d(2) t(2) b(2) by blast
qed

lemma grid_stays_in_space_witness:
  "grid_propose 0 (demo_rb_scenario ENFORCEMENT_CHECK_ONCE_CACHED)
     = [Inr \<lparr>va_check_tick = 10, va_revocation_tick = 20, va_commit_tick = 21,
         va_propagation_delay = 0, va_retry_index = 0, va_duplicate_request = False\<rparr>]
   \<and> (\<exists>c \<in> set (axis_values (demo_rb_scenario ENFORCEMENT_CHECK_ONCE_CACHED) ''check_tick''). py_int c = Inr 10)"
proof -
  let ?sc = "demo_rb_scenario ENFORCEMENT_CHECK_ONCE_CACHED"
  let ?v = "\<lparr>va_check_tick = 10, va_revocation_tick = 20, va_commit_tick = 21,
         va_propagation_delay = 0, va_retry_index = 0, va_duplicate_request = False\<rparr>"
  have "axes ?sc = Inr AXES" by (simp add: axes_def AXES_def axis_of_def demo_rb_scenario_def)
  then have *: "grid_propose 0 ?sc = [Inr ?v]"
    by (simp add: grid_propose_def grid_points_def AXES_def variation_at_def int_field_def dict_index_def)
  from grid_stays_in_space [of ?v 0 ?sc] * show ?thesis by simp
qed

end
