(* ===== verification/V1_Verifier.thy ===== *)
theory V1_Verifier
  imports Adversaries
begin

section \<open>The V1 verifier\<close>

text \<open>
  \<open>oat/verifier/v1.py\<close>, with the constants of \<open>oat/__init__.py\<close> and the runtime metadata of
  \<open>oat/manifest.py\<close>. What is not the program's own is a parameter, collected in a record: the
  JSON schema validator (the \<open>jsonschema\<close> library over the schema files), the interpreter and
  host, the source tree of the checkout, the witness schema and the bytes of the boundary module.
  Method calls on a value that is not a dictionary raise, as in the source.
\<close>

definition RUN_MODE :: string where "RUN_MODE = ''METHOD_DEVELOPMENT_ONLY''"
definition CLAIM_BEARING_USE :: string where "CLAIM_BEARING_USE = ''PROHIBITED''"

definition CLAIM_CEILING :: string where
  "CLAIM_CEILING =
     ''A deterministic local instrument reproduced a documented synthetic '' @
     ''authorization failure class (RB-001) under frozen scenario conditions. '' @
     ''This supports no claim about VEIP, OAuth, any agent system, any vendor, '' @
     ''or any deployed system.''"

definition OAT_VERSION :: string where "OAT_VERSION = ''0.1.0''"

subsection \<open>The environment\<close>

record oat_env =
  oe_validate :: "json \<Rightarrow> string \<Rightarrow> string list"
  oe_python_version :: string
  oe_python_implementation :: string
  oe_platform_system :: string
  oe_interpreter :: string
  oe_source_root :: string
  oe_source_files :: "file_entry list"
  oe_witness_schema :: "(string \<times> json) list"
  oe_boundary_module :: file_entry

text \<open>\<open>meta.update(extra)\<close>, key by key.\<close>

definition dict_update :: "(string \<times> json) list \<Rightarrow> (string \<times> json) list \<Rightarrow> (string \<times> json) list" where
  "dict_update extra d = fold (\<lambda>(k, v) d. dict_set k v d) extra d"

definition runtime_metadata :: "oat_env \<Rightarrow> (string \<times> json) list \<Rightarrow> (string \<times> json) list" where
  "runtime_metadata env extra =
     (let meta = dict_update extra [
            (''python_version'', JStr (oe_python_version env)),
            (''python_implementation'', JStr (oe_python_implementation env)),
            (''platform_system'', JStr (oe_platform_system env)),
            (''oat_version'', JStr OAT_VERSION),
            (''verifier_source_tree_digest'',
               JStr (digest_source_tree (oe_source_root env) (oe_source_files env) [''.py'']))]
      in dict_set ''environment_digest'' (JStr (digest_object (JObj meta))) meta)"

subsection \<open>Vocabulary\<close>

definition V1_ID :: string where "V1_ID = ''OAT-V1''"
definition V1_VERSION :: string where "V1_VERSION = ''0.1.0''"
definition DISPOSITION_COUNTEREXAMPLE :: string where "DISPOSITION_COUNTEREXAMPLE = ''COUNTEREXAMPLE_CONFIRMED''"
definition DISPOSITION_NO_COUNTEREXAMPLE :: string where "DISPOSITION_NO_COUNTEREXAMPLE = ''NO_COUNTEREXAMPLE''"
definition DISPOSITION_REJECTED :: string where "DISPOSITION_REJECTED = ''REJECTED''"
definition REJECT_SCHEMA_INVALID :: string where "REJECT_SCHEMA_INVALID = ''WITNESS_SCHEMA_INVALID''"
definition REJECT_MANIFEST_BINDING :: string where "REJECT_MANIFEST_BINDING = ''MANIFEST_BINDING_MISMATCH''"
definition REJECT_SCENARIO_IDENTITY :: string where "REJECT_SCENARIO_IDENTITY = ''SCENARIO_IDENTITY_MISMATCH''"
definition REJECT_TAMPERED_BYTES :: string where "REJECT_TAMPERED_BYTES = ''CANONICAL_BYTES_TAMPERED''"
definition REJECT_FALSIFIER_UNSUPPORTED :: string where "REJECT_FALSIFIER_UNSUPPORTED = ''FALSIFIER_VERSION_UNSUPPORTED''"
definition REJECT_FALSIFIER_IDENTITY :: string where "REJECT_FALSIFIER_IDENTITY = ''FALSIFIER_IDENTITY_MISMATCH''"
definition REJECT_CLAIM_MISMATCH :: string where "REJECT_CLAIM_MISMATCH = ''CLAIMED_EVALUATION_MISMATCH''"
definition REJECT_UNEVALUABLE :: string where "REJECT_UNEVALUABLE = ''TRACE_NOT_EVALUABLE''"

definition v1_identity :: json where
  "v1_identity = JObj [(''id'', JStr V1_ID), (''version'', JStr V1_VERSION)]"

subsection \<open>Results\<close>

record verdict_parts =
  vp_rejection :: "string option"
  vp_detail :: "string list"
  vp_trace :: json
  vp_result :: "bool option"

definition no_parts :: verdict_parts where
  "no_parts = \<lparr>vp_rejection = None, vp_detail = [], vp_trace = JList [], vp_result = None\<rparr>"

definition v1_evidence :: "string \<Rightarrow> json \<Rightarrow> verdict_parts \<Rightarrow> (string \<times> json) list" where
  "v1_evidence disposition witness p = [
     (''canonical_form'', JStr CANONICAL_FORM),
     (''run_mode'', JStr RUN_MODE),
     (''claim_bearing_use'', JStr CLAIM_BEARING_USE),
     (''claim_ceiling'', JStr CLAIM_CEILING),
     (''scenario_id'', JStr (py_str (jget_or witness ''scenario_id'' (JStr [])))),
     (''boundary_id'', JStr (py_str (jget_or witness ''boundary_id'' (JStr [])))),
     (''manifest_digest'', JStr (py_str (jget_or witness ''manifest_digest'' (JStr [])))),
     (''witness_digest'', JStr (digest_object witness)),
     (''falsifier'', jget_or witness ''falsifier'' (JObj [])),
     (''verifier'', v1_identity),
     (''disposition'', JStr disposition),
     (''rejection_reason'', JOptStr (vp_rejection p)),
     (''predicate_trace'', vp_trace p),
     (''computational_result'', case vp_result p of None \<Rightarrow> JNull | Some b \<Rightarrow> JBool b)]"

definition v1_result :: "oat_env \<Rightarrow> string \<Rightarrow> json \<Rightarrow> verdict_parts \<Rightarrow> json res" where
  "v1_result env disposition witness p =
     (if \<not> is_JObj witness then Inl (AttributeError ''get'')
      else (let evidence = v1_evidence disposition witness p in
        Inr (JObj ([(''result_form'', JStr ''oat-verifier-result/1'')] @ evidence @
          [(''detail'', JStrs (vp_detail p)), (''evidence_digest'', JStr (digest_object (JObj evidence))),
           (''runtime'', JObj (runtime_metadata env []))]))))"

definition reject :: "oat_env \<Rightarrow> json \<Rightarrow> string \<Rightarrow> string list \<Rightarrow> json res" where
  "reject env witness reason detail =
     v1_result env DISPOSITION_REJECTED witness (no_parts\<lparr>vp_rejection := Some reason, vp_detail := detail\<rparr>)"

subsection \<open>Verification\<close>

definition v1_conclude :: "oat_env \<Rightarrow> json \<Rightarrow> json \<Rightarrow> json res" where
  "v1_conclude env witness evaluation =
     bindE (attr_get witness ''claimed_evaluation'' (JObj [])) (\<lambda>claimed.
     bindE (attr_get claimed ''counterexample'' JNull) (\<lambda>claim.
     bindE (jindex evaluation ''counterexample'') (\<lambda>computed.
     bindE (jindex evaluation ''predicate_trace'') (\<lambda>ptrace.
       if truthy claim \<noteq> truthy computed then
         v1_result env DISPOSITION_REJECTED witness
           \<lparr>vp_rejection = Some REJECT_CLAIM_MISMATCH,
            vp_detail = [''adversary claim contradicts recomputed falsifier result''],
            vp_trace = ptrace, vp_result = Some (truthy computed)\<rparr>
       else
         v1_result env (if truthy computed then DISPOSITION_COUNTEREXAMPLE else DISPOSITION_NO_COUNTEREXAMPLE)
           witness \<lparr>vp_rejection = None, vp_detail = [], vp_trace = ptrace,
                    vp_result = Some (truthy computed)\<rparr>))))"

definition v1_check_trace :: "oat_env \<Rightarrow> json \<Rightarrow> json res" where
  "v1_check_trace env witness =
     bindE (jindex witness ''trace'') (\<lambda>trace.
       let trace_errors = oe_validate env trace ''observable-trace'' in
       if trace_errors \<noteq> [] then reject env witness REJECT_SCHEMA_INVALID trace_errors
       else bindE (str_field witness ''trace_digest'') (\<lambda>bound.
         if digest_object trace \<noteq> bound then
           reject env witness REJECT_TAMPERED_BYTES
             [''recomputed trace digest does not match the witness-bound digest'']
         else bindE (attr_get trace ''scenario_id'' (JStr [])) (\<lambda>tsid.
           bindE (str_field witness ''scenario_id'') (\<lambda>wsid.
             if py_str tsid \<noteq> wsid then
               reject env witness REJECT_SCENARIO_IDENTITY
                 [''trace scenario identity does not match witness scenario identity'']
             else (case falsifier_evaluate trace of
                 Inl (FalsifierError m) \<Rightarrow> reject env witness REJECT_UNEVALUABLE [m]
               | Inl e \<Rightarrow> Inl e
               | Inr evaluation \<Rightarrow> v1_conclude env witness evaluation)))))"

definition v1_target :: "json option \<Rightarrow> string option \<Rightarrow> string option res" where
  "v1_target expected_manifest expected_scenario_id =
     (case (expected_scenario_id, expected_manifest) of
        (Some t, _) \<Rightarrow> Inr (Some t)
      | (None, None) \<Rightarrow> Inr None
      | (None, Some m) \<Rightarrow> bindE (jindex m ''scenario'') (\<lambda>sc. bindE (str_field sc ''id'') (\<lambda>i. Inr (Some i))))"

definition v1_check_scenario :: "oat_env \<Rightarrow> json \<Rightarrow> json option \<Rightarrow> string option \<Rightarrow> json res" where
  "v1_check_scenario env witness expected_manifest expected_scenario_id =
     bindE (v1_target expected_manifest expected_scenario_id) (\<lambda>target.
       case target of
         None \<Rightarrow> v1_check_trace env witness
       | Some t \<Rightarrow> bindE (jindex witness ''scenario_id'') (\<lambda>sid.
           if py_str sid \<noteq> t then
             reject env witness REJECT_SCENARIO_IDENTITY
               [''witness scenario '' @ py_repr sid @ '' != target '' @ repr_str t]
           else v1_check_trace env witness))"

definition v1_check_manifest :: "oat_env \<Rightarrow> json \<Rightarrow> json option \<Rightarrow> string option \<Rightarrow> json res" where
  "v1_check_manifest env witness expected_manifest expected_scenario_id =
     (case expected_manifest of
        None \<Rightarrow> v1_check_scenario env witness expected_manifest expected_scenario_id
      | Some m \<Rightarrow> bindE (jindex witness ''manifest_digest'') (\<lambda>bound.
          if py_str bound \<noteq> digest_object m then
            reject env witness REJECT_MANIFEST_BINDING
              [''bound '' @ py_str bound @ '' != manifest '' @ digest_object m]
          else v1_check_scenario env witness expected_manifest expected_scenario_id))"

definition v1_verify :: "oat_env \<Rightarrow> json \<Rightarrow> json option \<Rightarrow> string option \<Rightarrow> json res" where
  "v1_verify env witness expected_manifest expected_scenario_id =
     (let schema_errors = oe_validate env witness ''witness'' in
      if schema_errors \<noteq> [] then reject env witness REJECT_SCHEMA_INVALID schema_errors
      else bindE (jindex witness ''falsifier'') (\<lambda>f. bindE (py_dict f) (\<lambda>claim.
        if py_str (jget_or (JObj claim) ''version'' (JStr [])) \<notin> set SUPPORTED_VERSIONS then
          reject env witness REJECT_FALSIFIER_UNSUPPORTED
            [''unsupported falsifier version: '' @ py_repr (jget_or (JObj claim) ''version'' JNull)]
        else if \<not> py_eq (JObj claim) falsifier_identity then
          reject env witness REJECT_FALSIFIER_IDENTITY
            [''witness falsifier '' @ py_str (JObj claim) @ '' != local '' @ py_str falsifier_identity]
        else v1_check_manifest env witness expected_manifest expected_scenario_id)))"

subsection \<open>What a result says\<close>

definition says :: "json res \<Rightarrow> string \<Rightarrow> bool" where
  "says m d \<longleftrightarrow> (\<exists>r. m = Inr r \<and> jget r ''disposition'' = Some (JStr d))"

lemma dispositions_differ [simp]:
  "DISPOSITION_REJECTED \<noteq> DISPOSITION_COUNTEREXAMPLE" "DISPOSITION_REJECTED \<noteq> DISPOSITION_NO_COUNTEREXAMPLE"
  "DISPOSITION_COUNTEREXAMPLE \<noteq> DISPOSITION_NO_COUNTEREXAMPLE" "DISPOSITION_COUNTEREXAMPLE \<noteq> DISPOSITION_REJECTED"
  "DISPOSITION_NO_COUNTEREXAMPLE \<noteq> DISPOSITION_REJECTED" "DISPOSITION_NO_COUNTEREXAMPLE \<noteq> DISPOSITION_COUNTEREXAMPLE"
  by (simp_all add: DISPOSITION_REJECTED_def DISPOSITION_COUNTEREXAMPLE_def DISPOSITION_NO_COUNTEREXAMPLE_def)

lemma says_result [simp]: "says (v1_result env d' w p) d \<longleftrightarrow> is_JObj w \<and> d = d'"
  by (auto simp: says_def v1_result_def v1_evidence_def Let_def)

lemma says_reject [simp]: "says (reject env w reason detail) d \<longleftrightarrow> is_JObj w \<and> d = DISPOSITION_REJECTED"
  by (simp add: reject_def)

lemma says_Inl [simp]: "\<not> says (Inl e) d"
  by (simp add: says_def)

lemma says_bindE [simp]: "says (bindE m f) d \<longleftrightarrow> (\<exists>x. m = Inr x \<and> says (f x) d)"
  by (cases m) auto

lemma evaluate_fields:
  assumes "falsifier_evaluate trace = Inr ev"
  obtains b where "jindex ev ''counterexample'' = Inr (JBool b)" "\<exists>p. jindex ev ''predicate_trace'' = Inr p"
  using assms by (auto simp: falsifier_evaluate_def bindE_Inr_iff Let_def dict_index_def)

text \<open>The conditions of an accepted witness, in the order the verifier checks them.\<close>

definition v1_accepts :: "oat_env \<Rightarrow> json \<Rightarrow> json option \<Rightarrow> string option \<Rightarrow> json \<Rightarrow> bool \<Rightarrow> bool" where
  "v1_accepts env w m sid trace b \<longleftrightarrow>
     oe_validate env w ''witness'' = []
     \<and> (\<exists>f. jindex w ''falsifier'' = Inr (JObj f)
          \<and> py_str (jget_or (JObj f) ''version'' (JStr [])) \<in> set SUPPORTED_VERSIONS
          \<and> py_eq (JObj f) falsifier_identity)
     \<and> (case m of None \<Rightarrow> True | Some mm \<Rightarrow> str_field w ''manifest_digest'' = Inr (digest_object mm))
     \<and> (\<exists>target. v1_target m sid = Inr target
          \<and> (case target of None \<Rightarrow> True | Some t \<Rightarrow> str_field w ''scenario_id'' = Inr t))
     \<and> jindex w ''trace'' = Inr trace
     \<and> oe_validate env trace ''observable-trace'' = []
     \<and> str_field w ''trace_digest'' = Inr (digest_object trace)
     \<and> (\<exists>t. attr_get trace ''scenario_id'' (JStr []) = Inr t \<and> str_field w ''scenario_id'' = Inr (py_str t))
     \<and> (\<exists>ev. falsifier_evaluate trace = Inr ev \<and> jindex ev ''counterexample'' = Inr (JBool b))
     \<and> (\<exists>claimed c. attr_get w ''claimed_evaluation'' (JObj []) = Inr claimed
          \<and> attr_get claimed ''counterexample'' JNull = Inr c \<and> truthy c = b)"

lemma jindex_Inr_JObj: "jindex w k = Inr v \<Longrightarrow> is_JObj w"
  by (cases w) auto

lemma says_conclude:
  assumes "falsifier_evaluate trace = Inr ev" "is_JObj w" "d \<noteq> DISPOSITION_REJECTED"
  shows "says (v1_conclude env w ev) d \<longleftrightarrow>
    (\<exists>b. jindex ev ''counterexample'' = Inr (JBool b)
      \<and> d = (if b then DISPOSITION_COUNTEREXAMPLE else DISPOSITION_NO_COUNTEREXAMPLE)
      \<and> (\<exists>claimed c. attr_get w ''claimed_evaluation'' (JObj []) = Inr claimed
          \<and> attr_get claimed ''counterexample'' JNull = Inr c \<and> truthy c = b))"
proof -
  from assms(1) obtain b p where "jindex ev ''counterexample'' = Inr (JBool b)" "jindex ev ''predicate_trace'' = Inr p"
    by (rule evaluate_fields) blast
  then show ?thesis
    using assms(2,3) unfolding v1_conclude_def
    by (auto split: if_splits)
qed

lemma says_check_trace:
  assumes "d \<noteq> DISPOSITION_REJECTED"
  shows "says (v1_check_trace env w) d \<longleftrightarrow>
    (\<exists>trace b. d = (if b then DISPOSITION_COUNTEREXAMPLE else DISPOSITION_NO_COUNTEREXAMPLE)
     \<and> jindex w ''trace'' = Inr trace
     \<and> oe_validate env trace ''observable-trace'' = []
     \<and> str_field w ''trace_digest'' = Inr (digest_object trace)
     \<and> (\<exists>t. attr_get trace ''scenario_id'' (JStr []) = Inr t \<and> str_field w ''scenario_id'' = Inr (py_str t))
     \<and> (\<exists>ev. falsifier_evaluate trace = Inr ev \<and> jindex ev ''counterexample'' = Inr (JBool b))
     \<and> (\<exists>claimed c. attr_get w ''claimed_evaluation'' (JObj []) = Inr claimed
          \<and> attr_get claimed ''counterexample'' JNull = Inr c \<and> truthy c = b))"
proof (cases "jindex w ''trace''")
  case (Inr trace)
  note w = jindex_Inr_JObj [OF Inr]
  show ?thesis
  proof (cases "falsifier_evaluate trace")
    case (Inl e)
    then have "\<not> says (v1_check_trace env w) d"
      using assms Inr by (cases e) (auto simp: v1_check_trace_def Let_def split: if_splits)
    with Inl Inr show ?thesis by auto
  next
    case ev: (Inr ev)
    show ?thesis
      using assms Inr by (auto simp: v1_check_trace_def Let_def ev says_conclude [OF ev w assms] split: if_splits)
  qed
qed (simp add: v1_check_trace_def)

lemma v1_says_iff:
  assumes "d \<noteq> DISPOSITION_REJECTED"
  shows "says (v1_verify env w m sid) d \<longleftrightarrow>
    (\<exists>trace b. d = (if b then DISPOSITION_COUNTEREXAMPLE else DISPOSITION_NO_COUNTEREXAMPLE)
       \<and> v1_accepts env w m sid trace b)"
proof -
  have none: "py_str (jget_or (JObj []) ''version'' (JStr [])) \<notin> set SUPPORTED_VERSIONS"
    by (simp add: jget_or_def SUPPORTED_VERSIONS_def)
  have scen: "says (v1_check_scenario env w m sid) d \<longleftrightarrow>
      (\<exists>target. v1_target m sid = Inr target
        \<and> (case target of None \<Rightarrow> True | Some t \<Rightarrow> str_field w ''scenario_id'' = Inr t))
      \<and> says (v1_check_trace env w) d"
    using assms by (auto simp: v1_check_scenario_def str_field_def bindE_Inr_iff split: option.splits if_splits)
  have man: "says (v1_check_manifest env w m sid) d \<longleftrightarrow>
      (case m of None \<Rightarrow> True | Some mm \<Rightarrow> str_field w ''manifest_digest'' = Inr (digest_object mm))
      \<and> says (v1_check_scenario env w m sid) d"
    using assms by (auto simp: v1_check_manifest_def str_field_def bindE_Inr_iff split: option.splits if_splits)
  have ver: "says (v1_verify env w m sid) d \<longleftrightarrow>
      oe_validate env w ''witness'' = []
      \<and> (\<exists>f. jindex w ''falsifier'' = Inr (JObj f)
          \<and> py_str (jget_or (JObj f) ''version'' (JStr [])) \<in> set SUPPORTED_VERSIONS
          \<and> py_eq (JObj f) falsifier_identity)
      \<and> says (v1_check_manifest env w m sid) d"
    using assms none by (auto simp: v1_verify_def Let_def bindE_Inr_iff py_dict_Inr_iff split: if_splits)
  show ?thesis
    unfolding ver man scen says_check_trace [OF assms] v1_accepts_def by blast
qed

subsection \<open>The host does not reach the evidence\<close>

text \<open>
  Two computations agree when they raise the same error or return the results of one verdict,
  which differ in the runtime metadata of their hosts only.
\<close>

definition agree :: "oat_env \<Rightarrow> oat_env \<Rightarrow> json \<Rightarrow> json res \<Rightarrow> json res \<Rightarrow> bool" where
  "agree env env' w m m' \<longleftrightarrow> (\<exists>e. m = Inl e \<and> m' = Inl e)
     \<or> (\<exists>d p. m = v1_result env d w p \<and> m' = v1_result env' d w p)"

lemma agree_Inl: "agree env env' w (Inl e) (Inl e)"
  by (simp add: agree_def)

lemma agree_result: "agree env env' w (v1_result env d w p) (v1_result env' d w p)"
  by (auto simp: agree_def)

lemma agree_reject: "agree env env' w (reject env w reason detail) (reject env' w reason detail)"
  unfolding reject_def by (rule agree_result)

lemma agree_bind: "(\<And>x. agree env env' w (f x) (g x)) \<Longrightarrow> agree env env' w (bindE m f) (bindE m g)"
  by (cases m) (simp_all add: agree_Inl)

lemma agree_if:
  "agree env env' w a b \<Longrightarrow> agree env env' w a' b' \<Longrightarrow>
     agree env env' w (if c then a else a') (if c then b else b')"
  by simp

lemma agree_option:
  "agree env env' w a b \<Longrightarrow> (\<And>x. agree env env' w (f x) (g x)) \<Longrightarrow>
     agree env env' w (case t of None \<Rightarrow> a | Some x \<Rightarrow> f x) (case t of None \<Rightarrow> b | Some x \<Rightarrow> g x)"
  by (cases t) simp_all

lemmas agree_intros = agree_bind agree_if agree_option agree_result agree_reject

lemma agree_conclude: "agree env env' w (v1_conclude env w ev) (v1_conclude env' w ev)"
  unfolding v1_conclude_def by (intro agree_intros)

lemma agree_evaluation:
  "agree env env' w
     (case ev of Inl (FalsifierError m) \<Rightarrow> reject env w r [m] | Inl e \<Rightarrow> Inl e | Inr x \<Rightarrow> v1_conclude env w x)
     (case ev of Inl (FalsifierError m) \<Rightarrow> reject env' w r [m] | Inl e \<Rightarrow> Inl e | Inr x \<Rightarrow> v1_conclude env' w x)"
proof (cases ev)
  case (Inl e)
  then show ?thesis by (cases e) (simp_all add: agree_Inl agree_reject)
next
  case (Inr x)
  then show ?thesis using agree_conclude by simp
qed

lemma agree_verify:
  assumes "oe_validate env = oe_validate env'"
  shows "agree env env' w (v1_verify env w m sid) (v1_verify env' w m sid)"
  unfolding v1_verify_def v1_check_manifest_def v1_check_scenario_def v1_check_trace_def Let_def assms
  by (intro agree_intros agree_evaluation)

lemma strip_runtime_last:
  "strip_noncanonical (JObj (xs @ [(''runtime'', r)])) = strip_noncanonical (JObj xs)"
  by (simp add: NONCANONICAL_KEYS_def)

lemma result_canonical_bytes:
  "bindE (v1_result env d w p) (\<lambda>r. Inr (canonical_bytes r))
     = bindE (v1_result env' d w p) (\<lambda>r. Inr (canonical_bytes r))"
proof -
  have "canonical_bytes (JObj ([a] @ ev @ [x, y, (''runtime'', r)]))
      = canonical_bytes (JObj ([a] @ ev @ [x, y, (''runtime'', r')]))" for a ev x y r r'
    using strip_runtime_last [of "[a] @ ev @ [x, y]" r] strip_runtime_last [of "[a] @ ev @ [x, y]" r']
    by (simp only: canonical_bytes_def append.assoc append_Cons append_Nil)
  then show ?thesis by (simp add: v1_result_def Let_def)
qed

lemma agree_canonical_bytes:
  "agree env env' w m m' \<Longrightarrow>
     bindE m (\<lambda>r. Inr (canonical_bytes r)) = bindE m' (\<lambda>r. Inr (canonical_bytes r))"
  unfolding agree_def using result_canonical_bytes by fastforce

lemma v1_result_fields:
  assumes "v1_result env d w p = Inr r"
  shows "jindex r ''disposition'' = Inr (JStr d)"
    "jindex r ''evidence_digest'' = Inr (JStr (digest_object (JObj (v1_evidence d w p))))"
    "jindex r ''computational_result'' = Inr (case vp_result p of None \<Rightarrow> JNull | Some b \<Rightarrow> JBool b)"
    "jindex r ''predicate_trace'' = Inr (vp_trace p)"
    "jindex r ''witness_digest'' = Inr (JStr (digest_object w))"
    "jindex r ''rejection_reason'' = Inr (JOptStr (vp_rejection p))"
  using assms by (auto simp: v1_result_def v1_evidence_def Let_def dict_index_def split: if_splits)

subsection \<open>Properties\<close>

text \<open>C23: The verifier reports a counterexample, or its absence, exactly when the witness passed every
  check: the schema, the falsifier's version and identity, the manifest digest, the scenario
  identity, the digest of its trace, the trace's own scenario, and a claim that agrees with the
  falsifier's value recomputed from the trace, which alone decides which of the two it is.\<close>

theorem v1_verdict_iff:
  "(says (v1_verify env w m sid) DISPOSITION_COUNTEREXAMPLE \<longleftrightarrow> (\<exists>trace. v1_accepts env w m sid trace True))
   \<and> (says (v1_verify env w m sid) DISPOSITION_NO_COUNTEREXAMPLE \<longleftrightarrow> (\<exists>trace. v1_accepts env w m sid trace False))"
  by (auto simp: v1_says_iff)

text \<open>A tampered trace cannot be judged: two witnesses bound to the same trace digest that the verifier
  does not reject hold canonically equal traces, or the traces are a SHA-256 collision.\<close>

theorem v1_binds_trace:
  assumes "says (v1_verify env w m sid) d" "says (v1_verify env' w' m' sid') d'"
    and "d \<noteq> DISPOSITION_REJECTED" "d' \<noteq> DISPOSITION_REJECTED"
    and "str_field w ''trace_digest'' = str_field w' ''trace_digest''"
    and "jindex w ''trace'' = Inr trace" "jindex w' ''trace'' = Inr trace'"
  shows "canonical_form trace = canonical_form trace'
    \<or> sha256_collision (canonical_bytes trace) (canonical_bytes trace')"
proof -
  from assms(1,3,6) have "str_field w ''trace_digest'' = Inr (digest_object trace)"
    by (auto simp: v1_says_iff v1_accepts_def)
  moreover from assms(2,4,7) have "str_field w' ''trace_digest'' = Inr (digest_object trace')"
    by (auto simp: v1_says_iff v1_accepts_def)
  ultimately show ?thesis using assms(5) by (intro obj_seal.seal_binds) simp
qed

text \<open>The verdict does not depend on where it is computed: on hosts whose schema validation agrees, the
  verifier raises the same error or returns results with the same canonical bytes, whatever the
  interpreter, the platform and the source tree.\<close>

theorem v1_host_independent:
  assumes "oe_validate env = oe_validate env'"
  shows "bindE (v1_verify env w m sid) (\<lambda>r. Inr (canonical_bytes r))
    = bindE (v1_verify env' w m sid) (\<lambda>r. Inr (canonical_bytes r))"
  by (rule agree_canonical_bytes [OF agree_verify [OF assms]])

end
