(* ===== verification/Trial.thy ===== *)
theory Trial
  imports V1_Verifier
begin

section \<open>Trial adjudication\<close>

text \<open>
  \<open>oat/trial.py\<close>: an adversary's assertion, the frozen scope, the budget, and the adjudication
  of one attack attempt from the results of one or more verifier evaluations. A \<open>frozenset\<close> is
  a list read as a set. Results are parsed documents.
\<close>

datatype trial_disposition =
    COUNTEREXAMPLE_VALIDATED
  | NOT_A_COUNTEREXAMPLE
  | UNEVALUABLE
  | OUTSIDE_SCOPE
  | VERIFIER_CONFLICT
  | COVERAGE_LIMITED

definition trial_disposition_str :: "trial_disposition \<Rightarrow> string" where
  "trial_disposition_str d = (case d of
      COUNTEREXAMPLE_VALIDATED \<Rightarrow> ''COUNTEREXAMPLE_VALIDATED''
    | NOT_A_COUNTEREXAMPLE \<Rightarrow> ''NOT_A_COUNTEREXAMPLE''
    | UNEVALUABLE \<Rightarrow> ''UNEVALUABLE''
    | OUTSIDE_SCOPE \<Rightarrow> ''OUTSIDE_SCOPE''
    | VERIFIER_CONFLICT \<Rightarrow> ''VERIFIER_CONFLICT''
    | COVERAGE_LIMITED \<Rightarrow> ''COVERAGE_LIMITED'')"

definition supported_dispositions :: "string list" where
  "supported_dispositions = map trial_disposition_str [COUNTEREXAMPLE_VALIDATED, NOT_A_COUNTEREXAMPLE,
     UNEVALUABLE, OUTSIDE_SCOPE, VERIFIER_CONFLICT, COVERAGE_LIMITED]"

definition UNEVALUABLE_REASONS :: "string list" where
  "UNEVALUABLE_REASONS = [REJECT_SCHEMA_INVALID, REJECT_TAMPERED_BYTES, REJECT_MANIFEST_BINDING,
     REJECT_SCENARIO_IDENTITY, REJECT_FALSIFIER_UNSUPPORTED, REJECT_FALSIFIER_IDENTITY,
     REJECT_UNEVALUABLE, REJECT_CLAIM_MISMATCH]"

record adversary_assertion =
  aa_attack_id :: string
  aa_property_id :: string
  aa_claimed_violation :: bool
  aa_hypothesis :: string
  aa_adversary_identity :: "(string \<times> json) list"

definition assertion_dict :: "adversary_assertion \<Rightarrow> json" where
  "assertion_dict a = JObj [(''attack_id'', JStr (aa_attack_id a)),
     (''property_id'', JStr (aa_property_id a)), (''claimed_violation'', JBool (aa_claimed_violation a)),
     (''hypothesis'', JStr (aa_hypothesis a)), (''adversary_identity'', JObj (aa_adversary_identity a))]"

definition assert_finding ::
  "provider_adversary \<Rightarrow> string \<Rightarrow> string \<Rightarrow> bool \<Rightarrow> string \<Rightarrow> adversary_assertion" where
  "assert_finding p attack property claimed hypothesis =
     \<lparr>aa_attack_id = attack, aa_property_id = property, aa_claimed_violation = claimed,
      aa_hypothesis = hypothesis, aa_adversary_identity = provider_identity p\<rparr>"

record trial_scope =
  ts_property_ids :: "string list"
  ts_families :: "string list"

definition scope_covers :: "trial_scope \<Rightarrow> string \<Rightarrow> bool" where
  "scope_covers s p \<longleftrightarrow> p \<in> set (ts_property_ids s)"

record budget_state =
  bs_attempts_used :: int
  bs_attempts_allowed :: int
  bs_families_attempted :: "string list"

definition budget_exhausted :: "budget_state \<Rightarrow> bool" where
  "budget_exhausted b \<longleftrightarrow> bs_attempts_used b \<ge> bs_attempts_allowed b"

definition families_untested :: "budget_state \<Rightarrow> trial_scope \<Rightarrow> string list" where
  "families_untested b s = filter (\<lambda>f. f \<notin> set (bs_families_attempted b)) (ts_families s)"

subsection \<open>The record\<close>

definition verifier_entry :: "json \<Rightarrow> json res" where
  "verifier_entry r =
     bindE (str_field r ''disposition'') (\<lambda>d.
     bindE (attr_get r ''rejection_reason'' JNull) (\<lambda>reason.
     bindE (str_field r ''evidence_digest'') (\<lambda>e.
     bindE (str_field r ''witness_digest'') (\<lambda>w.
       Inr (JObj [(''disposition'', JStr d), (''rejection_reason'', reason),
                  (''evidence_digest'', JStr e), (''witness_digest'', JStr w)])))))"

definition budget_dict :: "budget_state option \<Rightarrow> json" where
  "budget_dict b = (case b of None \<Rightarrow> JNull | Some b \<Rightarrow> JObj [
     (''attempts_used'', JInt (bs_attempts_used b)), (''attempts_allowed'', JInt (bs_attempts_allowed b)),
     (''exhausted'', JBool (budget_exhausted b)),
     (''families_attempted'', JStrs (sorted_set (bs_families_attempted b)))])"

definition trial_record ::
  "adversary_assertion \<Rightarrow> json list \<Rightarrow> trial_disposition \<Rightarrow> string list \<Rightarrow> budget_state option
     \<Rightarrow> trial_scope \<Rightarrow> json res" where
  "trial_record a results d reasoning budget scope =
     bindE (mapE verifier_entry results) (\<lambda>entries.
       let body = [
         (''adjudication_form'', JStr ''oat-trial-adjudication/1''),
         (''run_mode'', JStr RUN_MODE),
         (''claim_bearing_use'', JStr CLAIM_BEARING_USE),
         (''claim_ceiling'', JStr CLAIM_CEILING),
         (''attack_id'', JStr (aa_attack_id a)),
         (''property_id'', JStr (aa_property_id a)),
         (''disposition'', JStr (trial_disposition_str d)),
         (''reasoning'', JStrs reasoning),
         (''adversary_assertion'', assertion_dict a),
         (''verifier_results'', JList entries),
         (''scope'', JObj [(''in_scope_property_ids'', JStrs (sorted_set (ts_property_ids scope))),
                           (''declared_attack_families'', JStrs (sorted_set (ts_families scope)))]),
         (''budget'', budget_dict budget)]
       in Inr (JObj (dict_set ''adjudication_digest'' (JStr (digest_object (JObj body))) body)))"

subsection \<open>Adjudication\<close>

definition verdict_disposition :: "string \<Rightarrow> trial_disposition" where
  "verdict_disposition verdict =
     (if verdict = DISPOSITION_REJECTED then UNEVALUABLE
      else if verdict = DISPOSITION_COUNTEREXAMPLE then COUNTEREXAMPLE_VALIDATED
      else NOT_A_COUNTEREXAMPLE)"

definition verdict_reason :: "string \<Rightarrow> string list \<Rightarrow> string" where
  "verdict_reason verdict reasons =
     (if verdict = DISPOSITION_REJECTED then
        ''verifier could not evaluate the witness: '' @ py_repr (JStrs (sorted_set reasons))
      else if verdict = DISPOSITION_COUNTEREXAMPLE then ''verifier recomputed the falsifier and it fired''
      else ''verifier recomputed the falsifier and it did not fire'')"

text \<open>The downgrade of a negative result by what the search did not cover.\<close>

definition coverage ::
  "trial_disposition \<Rightarrow> budget_state option \<Rightarrow> trial_scope \<Rightarrow> trial_disposition \<times> string list" where
  "coverage d budget scope =
     (case budget of
        Some b \<Rightarrow>
          if d = NOT_A_COUNTEREXAMPLE \<and> (budget_exhausted b \<or> families_untested b scope \<noteq> []) then
            (COVERAGE_LIMITED,
             (if budget_exhausted b then
                [''attempt budget exhausted ('' @ str_of_int (bs_attempts_used b) @ ''/''
                   @ str_of_int (bs_attempts_allowed b) @ '')''] else [])
             @ (if families_untested b scope \<noteq> [] then
                  [''declared families never attempted: ''
                     @ py_repr (JStrs (sorted_set (families_untested b scope)))] else []))
          else (d, [])
      | None \<Rightarrow> (d, []))"

definition uncredited :: "adversary_assertion \<Rightarrow> trial_disposition \<Rightarrow> string list" where
  "uncredited a d =
     (if aa_claimed_violation a \<and> d \<noteq> COUNTEREXAMPLE_VALIDATED then
        [''adversary asserted a violation; the verifier did not validate it. '' @
         ''The assertion is recorded, not credited.''] else [])"

definition trial_adjudicate ::
  "adversary_assertion \<Rightarrow> json list \<Rightarrow> trial_scope \<Rightarrow> budget_state option \<Rightarrow> json res" where
  "trial_adjudicate a results scope budget =
     (if results = [] then Inl (ValueError ''adjudication requires at least one verifier result'')
      else if \<not> scope_covers scope (aa_property_id a) then
        trial_record a results OUTSIDE_SCOPE
          [''property '' @ repr_str (aa_property_id a) @ '' is not in the frozen in-scope register'']
          budget scope
      else bindE (mapE (\<lambda>r. str_field r ''disposition'') results) (\<lambda>computed.
        if length (remdups computed) > 1 then
          trial_record a results VERIFIER_CONFLICT
            [''independent verifier evaluations disagree: '' @ py_repr (JStrs (sorted_set computed))]
            budget scope
        else bindE (mapE (\<lambda>r. attr_get r ''rejection_reason'' JNull) results) (\<lambda>reasons.
          let verdict = hd computed; d = verdict_disposition verdict in
          case coverage d budget scope of (d', limits) \<Rightarrow>
            trial_record a results d'
              ([verdict_reason verdict (map py_str reasons)] @ limits @ uncredited a d') budget scope)))"

subsection \<open>What an adjudication says\<close>

definition adjudicated :: "json res \<Rightarrow> trial_disposition \<Rightarrow> bool" where
  "adjudicated m d \<longleftrightarrow> (\<exists>r. m = Inr r \<and> jget r ''disposition'' = Some (JStr (trial_disposition_str d)))"

lemma trial_disposition_str_inject [simp]:
  "trial_disposition_str a = trial_disposition_str b \<longleftrightarrow> a = b"
  by (cases a; cases b) (simp_all add: trial_disposition_str_def)

text \<open>A result with the three fields the record needs.\<close>

definition result_ok :: "json \<Rightarrow> bool" where
  "result_ok r \<longleftrightarrow> (\<exists>e. verifier_entry r = Inr e)"

lemma mapE_ok_iff: "(\<exists>ys. mapE f xs = Inr ys) \<longleftrightarrow> (\<forall>x \<in> set xs. \<exists>y. f x = Inr y)"
  by (induction xs) (auto simp: bindE_Inr_iff)

lemma adjudicated_record [simp]:
  "adjudicated (trial_record a rs d' why b s) d \<longleftrightarrow> (\<forall>r \<in> set rs. result_ok r) \<and> d = d'"
proof -
  have "adjudicated (trial_record a rs d' why b s) d \<longleftrightarrow> (\<exists>es. mapE verifier_entry rs = Inr es) \<and> d = d'"
    by (cases "mapE verifier_entry rs") (auto simp: adjudicated_def trial_record_def Let_def)
  then show ?thesis by (simp add: mapE_ok_iff result_ok_def)
qed

lemma adjudicated_Inl [simp]: "\<not> adjudicated (Inl e) d"
  by (simp add: adjudicated_def)

definition result_disposition :: "json \<Rightarrow> string" where
  "result_disposition r = (case str_field r ''disposition'' of Inl _ \<Rightarrow> [] | Inr d \<Rightarrow> d)"

lemma result_ok_fields:
  assumes "result_ok r"
  shows "str_field r ''disposition'' = Inr (result_disposition r)"
    "attr_get r ''rejection_reason'' JNull = Inr (jget_or r ''rejection_reason'' JNull)"
  using assms by (auto simp: result_ok_def verifier_entry_def bindE_Inr_iff result_disposition_def
      attr_get_def split: if_splits)

lemma remdups_length_1: "length (remdups xs) > 1 \<longleftrightarrow> (\<exists>x \<in> set xs. \<exists>y \<in> set xs. x \<noteq> y)"
proof -
  have "length (remdups xs) > 1 \<longleftrightarrow> card (set xs) > 1" by (simp add: length_remdups_card_conv)
  also have "\<dots> \<longleftrightarrow> (\<exists>x \<in> set xs. \<exists>y \<in> set xs. x \<noteq> y)"
    by (metis List.finite_set card_le_Suc0_iff_eq One_nat_def not_le)
  finally show ?thesis .
qed

lemma disagree_iff:
  "Suc 0 < length (remdups (map f xs)) \<longleftrightarrow> (\<exists>x \<in> set xs. \<exists>y \<in> set xs. f x \<noteq> f y)"
  using remdups_length_1 [of "map f xs"] by simp

text \<open>The disposition as one case distinction.\<close>

definition trial_spec :: "adversary_assertion \<Rightarrow> json list \<Rightarrow> trial_scope \<Rightarrow> budget_state option \<Rightarrow> trial_disposition" where
  "trial_spec a rs scope budget =
     (if aa_property_id a \<notin> set (ts_property_ids scope) then OUTSIDE_SCOPE
      else if (\<exists>x \<in> set rs. \<exists>y \<in> set rs. result_disposition x \<noteq> result_disposition y) then VERIFIER_CONFLICT
      else if result_disposition (hd rs) = DISPOSITION_REJECTED then UNEVALUABLE
      else if result_disposition (hd rs) = DISPOSITION_COUNTEREXAMPLE then COUNTEREXAMPLE_VALIDATED
      else (case budget of
              Some b \<Rightarrow> if bs_attempts_allowed b \<le> bs_attempts_used b
                          \<or> \<not> set (ts_families scope) \<subseteq> set (bs_families_attempted b)
                        then COVERAGE_LIMITED else NOT_A_COUNTEREXAMPLE
            | None \<Rightarrow> NOT_A_COUNTEREXAMPLE))"

lemma untested_Nil_iff: "families_untested b s = [] \<longleftrightarrow> set (ts_families s) \<subseteq> set (bs_families_attempted b)"
  by (auto simp: families_untested_def filter_empty_conv)

lemma coverage_fst:
  "fst (coverage (verdict_disposition v) budget scope) =
     (if v = DISPOSITION_REJECTED then UNEVALUABLE
      else if v = DISPOSITION_COUNTEREXAMPLE then COUNTEREXAMPLE_VALIDATED
      else (case budget of
              Some b \<Rightarrow> if bs_attempts_allowed b \<le> bs_attempts_used b
                          \<or> \<not> set (ts_families scope) \<subseteq> set (bs_families_attempted b)
                        then COVERAGE_LIMITED else NOT_A_COUNTEREXAMPLE
            | None \<Rightarrow> NOT_A_COUNTEREXAMPLE))"
  by (auto simp: coverage_def verdict_disposition_def budget_exhausted_def untested_Nil_iff split: option.split)

lemma adjudicated_spec:
  assumes "rs \<noteq> []" "\<forall>r \<in> set rs. result_ok r"
  shows "adjudicated (trial_adjudicate a rs scope budget) d \<longleftrightarrow> d = trial_spec a rs scope budget"
proof -
  have comp: "mapE (\<lambda>r. str_field r ''disposition'') rs = Inr (map result_disposition rs)"
    using assms(2) by (intro mapE_Inr) (simp add: result_ok_fields)
  have reas: "mapE (\<lambda>r. attr_get r ''rejection_reason'' JNull) rs = Inr (map (\<lambda>r. jget_or r ''rejection_reason'' JNull) rs)"
    using assms(2) by (intro mapE_Inr) (simp add: result_ok_fields)
  have hd: "hd (map result_disposition rs) = result_disposition (hd rs)" using assms(1) by (simp add: hd_map)
  have one: "1 < length (remdups (map result_disposition rs)) \<longleftrightarrow>
      (\<exists>x \<in> set rs. \<exists>y \<in> set rs. result_disposition x \<noteq> result_disposition y)"
    using disagree_iff [of result_disposition rs] by simp
  let ?v = "result_disposition (hd rs)"
  obtain d' limits where cov: "coverage (verdict_disposition ?v) budget scope = (d', limits)" by fastforce
  then have d': "d' = fst (coverage (verdict_disposition ?v) budget scope)" by simp
  have "(\<forall>r \<in> set rs. result_ok r) = True" using assms(2) by simp
  note ok = adjudicated_record this simp_thms and not_empty = assms(1)
  consider "\<not> scope_covers scope (aa_property_id a)"
    | "scope_covers scope (aa_property_id a)" "\<exists>x \<in> set rs. \<exists>y \<in> set rs. result_disposition x \<noteq> result_disposition y"
    | "scope_covers scope (aa_property_id a)" "\<not> (\<exists>x \<in> set rs. \<exists>y \<in> set rs. result_disposition x \<noteq> result_disposition y)"
    by blast
  then show ?thesis
  proof cases
    case 1
    then have "trial_spec a rs scope budget = OUTSIDE_SCOPE" by (simp add: trial_spec_def scope_covers_def)
    with 1 show ?thesis by (simp add: trial_adjudicate_def not_empty ok)
  next
    case 2
    then have "trial_spec a rs scope budget = VERIFIER_CONFLICT" by (simp add: trial_spec_def scope_covers_def)
    with 2 show ?thesis by (simp only: trial_adjudicate_def not_empty if_False comp bindE_simps one if_True
          not_True_eq_False ok)
  next
    case 3
    then have "trial_spec a rs scope budget = d'"
      unfolding d' coverage_fst trial_spec_def scope_covers_def by (simp only: if_False not_not if_True not_True_eq_False)
    with 3 show ?thesis
      by (simp only: trial_adjudicate_def not_empty if_False comp reas bindE_simps one
          not_True_eq_False hd Let_def cov prod.case ok)
  qed
qed

subsection \<open>Properties\<close>

text \<open>Adjudicating well-formed verifier results always succeeds and gives exactly one disposition,
  which depends on the frozen scope, the verifiers' agreement, their verdict and the coverage of
  the search: never on what the adversary claimed.\<close>

theorem trial_disposition_computed:
  assumes "rs \<noteq> []" "\<forall>r \<in> set rs. result_ok r"
  shows "adjudicated (trial_adjudicate a rs scope budget) (trial_spec a rs scope budget)
   \<and> adjudicated (trial_adjudicate (a\<lparr>aa_claimed_violation := c, aa_hypothesis := h\<rparr>) rs scope budget)
       (trial_spec a rs scope budget)"
proof -
  have "trial_spec (a\<lparr>aa_claimed_violation := c, aa_hypothesis := h\<rparr>) rs scope budget = trial_spec a rs scope budget"
    by (simp add: trial_spec_def)
  then show ?thesis by (simp add: adjudicated_spec [OF assms])
qed

text \<open>An assertion is only credited by recomputation: a counterexample is validated exactly when the
  property is in the frozen scope and every verifier evaluation confirmed it, and a clean negative
  stands only when none did, the budget was not used up and every declared family was attempted.\<close>

theorem trial_validation_iff:
  assumes "rs \<noteq> []" "\<forall>r \<in> set rs. result_ok r"
  shows "(adjudicated (trial_adjudicate a rs scope budget) COUNTEREXAMPLE_VALIDATED \<longleftrightarrow>
      aa_property_id a \<in> set (ts_property_ids scope)
      \<and> (\<forall>r \<in> set rs. result_disposition r = DISPOSITION_COUNTEREXAMPLE))
   \<and> (adjudicated (trial_adjudicate a rs scope (Some b)) NOT_A_COUNTEREXAMPLE \<longrightarrow>
      (\<forall>r \<in> set rs. result_disposition r \<notin> {DISPOSITION_COUNTEREXAMPLE, DISPOSITION_REJECTED})
      \<and> bs_attempts_used b < bs_attempts_allowed b
      \<and> set (ts_families scope) \<subseteq> set (bs_families_attempted b))"
proof -
  have hd: "hd rs \<in> set rs" using assms(1) by simp
  have all: "(\<forall>r \<in> set rs. P (result_disposition r)) \<longleftrightarrow> P (result_disposition (hd rs))"
    if "\<not> (\<exists>x \<in> set rs. \<exists>y \<in> set rs. result_disposition x \<noteq> result_disposition y)" for P
    using that hd by metis
  let ?D = "\<exists>x \<in> set rs. \<exists>y \<in> set rs. result_disposition x \<noteq> result_disposition y"
  have validated: "COUNTEREXAMPLE_VALIDATED = trial_spec a rs scope budget \<longleftrightarrow>
      aa_property_id a \<in> set (ts_property_ids scope)
      \<and> (\<forall>r \<in> set rs. result_disposition r = DISPOSITION_COUNTEREXAMPLE)"
  proof (cases ?D)
    case True
    then have "\<not> (\<forall>r \<in> set rs. result_disposition r = DISPOSITION_COUNTEREXAMPLE)" by metis
    moreover have "trial_spec a rs scope budget \<in> {OUTSIDE_SCOPE, VERIFIER_CONFLICT}"
      using True by (simp add: trial_spec_def)
    ultimately show ?thesis by (metis insert_iff singletonD trial_disposition.distinct(5,7))
  next
    case False
    note u = all [OF False, of "\<lambda>d. d = DISPOSITION_COUNTEREXAMPLE"]
    show ?thesis unfolding u trial_spec_def using False
      by (simp only: if_False split: if_split option.split) simp
  qed
  have clean: "(\<forall>r \<in> set rs. result_disposition r \<notin> {DISPOSITION_COUNTEREXAMPLE, DISPOSITION_REJECTED})
      \<and> bs_attempts_used b < bs_attempts_allowed b \<and> set (ts_families scope) \<subseteq> set (bs_families_attempted b)"
    if "NOT_A_COUNTEREXAMPLE = trial_spec a rs scope (Some b)"
  proof -
    have no: "\<not> ?D"
    proof
      assume ?D
      then have "trial_spec a rs scope (Some b) \<in> {OUTSIDE_SCOPE, VERIFIER_CONFLICT}"
        by (simp add: trial_spec_def)
      with that show False by (metis insert_iff singletonD trial_disposition.distinct(13,15))
    qed
    note u = all [OF no, of "\<lambda>d. d \<notin> {DISPOSITION_COUNTEREXAMPLE, DISPOSITION_REJECTED}"]
    from that show ?thesis unfolding u trial_spec_def using no
      by (simp only: if_False option.case split: if_splits) auto
  qed
  show ?thesis
    unfolding adjudicated_spec [OF assms] by (rule conjI [OF validated impI [OF clean]])
qed

definition demo_result :: "string \<Rightarrow> json" where
  "demo_result d = JObj [(''disposition'', JStr d), (''evidence_digest'', JStr ''e''), (''witness_digest'', JStr ''w'')]"

lemma demo_result_ok [simp]: "result_ok (demo_result d)" "result_disposition (demo_result d) = d"
  by (simp_all add: result_ok_def verifier_entry_def str_field_def demo_result_def dict_index_def attr_get_def
      result_disposition_def)

definition demo_assertion :: adversary_assertion where
  "demo_assertion = \<lparr>aa_attack_id = ''A'', aa_property_id = ''P1'', aa_claimed_violation = True,
     aa_hypothesis = [], aa_adversary_identity = []\<rparr>"

definition demo_scope :: trial_scope where
  "demo_scope = \<lparr>ts_property_ids = [''P1''], ts_families = [''F1'']\<rparr>"

lemma trial_disposition_computed_witness:
  "adjudicated (trial_adjudicate demo_assertion [demo_result DISPOSITION_NO_COUNTEREXAMPLE] demo_scope
     (Some \<lparr>bs_attempts_used = 3, bs_attempts_allowed = 3, bs_families_attempted = [''F1'']\<rparr>)) COVERAGE_LIMITED"
proof -
  let ?b = "Some \<lparr>bs_attempts_used = 3, bs_attempts_allowed = 3, bs_families_attempted = [''F1'']\<rparr>"
  have "trial_spec demo_assertion [demo_result DISPOSITION_NO_COUNTEREXAMPLE] demo_scope ?b = COVERAGE_LIMITED"
    by (simp add: trial_spec_def demo_assertion_def demo_scope_def)
  with trial_disposition_computed [of "[demo_result DISPOSITION_NO_COUNTEREXAMPLE]" demo_assertion demo_scope ?b]
  show ?thesis by simp
qed

lemma trial_validation_iff_witness:
  "\<not> adjudicated (trial_adjudicate demo_assertion [demo_result DISPOSITION_NO_COUNTEREXAMPLE] demo_scope None)
     COUNTEREXAMPLE_VALIDATED
   \<and> adjudicated (trial_adjudicate demo_assertion [demo_result DISPOSITION_COUNTEREXAMPLE] demo_scope None)
     COUNTEREXAMPLE_VALIDATED"
  using trial_validation_iff [of "[demo_result DISPOSITION_NO_COUNTEREXAMPLE]" demo_assertion demo_scope None]
    trial_validation_iff [of "[demo_result DISPOSITION_COUNTEREXAMPLE]" demo_assertion demo_scope None]
  by (simp add: demo_assertion_def demo_scope_def)

end
