(* ===== verification/Pipeline.thy ===== *)
theory Pipeline
  imports Trial
begin

section \<open>The trial pipeline: manifest, search, witness, run and replay\<close>

text \<open>
  \<open>oat/manifest.py\<close>, \<open>oat/witness.py\<close>, \<open>oat/pipeline.py\<close> and \<open>oat/replay.py\<close>. The
  documents of a scenario directory are given parsed, by their name relative to it; the run
  directory of the checksum file is a list of files. Writing files, and locating the scenario of
  a recorded run, are left out: a replay is given the package it loads.
\<close>

subsection \<open>Scenario packages\<close>

type_synonym documents = "(string, json) dict"

record scenario_package_rec =
  sp_name :: string
  sp_scenario_doc :: json
  sp_manifest_doc :: json
  sp_authority_doc :: json
  sp_scenario :: rb_scenario

definition scenario_digest :: "scenario_package_rec \<Rightarrow> string" where
  "scenario_digest p = digest_object (sp_scenario_doc p)"

definition manifest_digest :: "scenario_package_rec \<Rightarrow> string" where
  "manifest_digest p = digest_object (sp_manifest_doc p)"

definition authority_digest :: "scenario_package_rec \<Rightarrow> string" where
  "authority_digest p = digest_object (sp_authority_doc p)"

definition read_json :: "documents \<Rightarrow> string \<Rightarrow> json res" where
  "read_json docs name = (case dict_get docs name of None \<Rightarrow> Inl (FileNotFoundError name) | Some d \<Rightarrow> Inr d)"

definition load_scenario_package :: "oat_env \<Rightarrow> documents \<Rightarrow> string \<Rightarrow> scenario_package_rec res" where
  "load_scenario_package env docs name =
     (if dict_get docs name = None then Inl (BindingError (''scenario not found: '' @ name))
      else
        bindE (read_json docs name) (\<lambda>scenario_doc.
        bindE (attr_get scenario_doc ''authority_ref'' (JStr ''authority.json'')) (\<lambda>aref.
        bindE (read_json docs (py_str aref)) (\<lambda>authority_doc.
          let authority_errors = oe_validate env authority_doc ''authority-input'' in
          if authority_errors \<noteq> [] then
            Inl (BindingError (''authority input is schema-invalid: '' @ py_repr (JStrs authority_errors)))
          else
            bindE (attr_get scenario_doc ''manifest_ref'' (JStr ''manifest.json'')) (\<lambda>mref.
            bindE (read_json docs (py_str mref)) (\<lambda>manifest_doc.
            bindE (attr_get manifest_doc ''boundary_id'' (JStr [])) (\<lambda>family.
              let declared = py_str (jget_or scenario_doc ''boundary_id'' (JStr [])) in
              if declared \<noteq> py_str family then
                Inl (BindingError (''scenario boundary '' @ repr_str declared
                  @ '' does not match family manifest '' @ py_repr (jget_or manifest_doc ''boundary_id'' JNull)))
              else
                bindE (authority_input_from_dict authority_doc) (\<lambda>authority.
                bindE (rb_scenario_from_dict scenario_doc authority) (\<lambda>sc.
                  Inr \<lparr>sp_name = name, sp_scenario_doc = scenario_doc, sp_manifest_doc = manifest_doc,
                       sp_authority_doc = authority_doc, sp_scenario = sc\<rparr>)))))))))"

subsection \<open>The run manifest\<close>

definition target_identity :: "oat_env \<Rightarrow> json" where
  "target_identity env = JObj [
     (''boundary_id'', JStr BOUNDARY_ID), (''boundary_version'', JStr BOUNDARY_VERSION),
     (''module'', JStr ''oat.reference_boundaries.rb001''),
     (''code_digest'', JStr (digest_file (oe_boundary_module env)))]"

definition formalism_identity :: "oat_env \<Rightarrow> json \<Rightarrow> json res" where
  "formalism_identity env falsifier =
     bindE (str_field (JObj (oe_witness_schema env)) ''$id'') (\<lambda>schema_id.
       Inr (JObj [
         (''name'', JStr ''oat-rb001-observable''),
         (''version'', JStr ''0.1.0''),
         (''canonicalization'', JStr CANONICAL_FORM),
         (''semantics'', JStr ''observable-first; logical ticks; ground-truth authority state''),
         (''witness_schema'', JObj [(''id'', JStr schema_id),
            (''digest'', JStr (digest_object (JObj (oe_witness_schema env))))]),
         (''falsifier'', falsifier),
         (''protocol_adapter'', JNull),
         (''protocol_adapter_absent_reason'', JStr ''RB-001 is synthetic and protocol-free'')]))"

definition build_run_manifest ::
  "oat_env \<Rightarrow> scenario_package_rec \<Rightarrow> json \<Rightarrow> (string \<times> json) list \<Rightarrow> (string \<times> json) list res" where
  "build_run_manifest env p falsifier adversary =
     bindE (formalism_identity env falsifier) (\<lambda>formalism. Inr [
       (''manifest_form'', JStr ''oat-run-manifest/1''),
       (''canonical_form'', JStr CANONICAL_FORM),
       (''run_mode'', JStr RUN_MODE),
       (''claim_bearing_use'', JStr CLAIM_BEARING_USE),
       (''claim_ceiling'', JStr CLAIM_CEILING),
       (''boundary'', JObj [
          (''id'', JStr (py_str (jget_or (sp_manifest_doc p) ''boundary_id'' (JStr [])))),
          (''version'', JStr (py_str (jget_or (sp_manifest_doc p) ''boundary_version'' (JStr []))))]),
       (''scenario'', JObj [
          (''id'', JStr (rs_scenario_id (sp_scenario p))),
          (''name'', JStr (sp_name p)),
          (''digest'', JStr (scenario_digest p)),
          (''enforcement_path'', JStr (rs_enforcement_path (sp_scenario p)))]),
       (''target'', target_identity env),
       (''formalism'', formalism),
       (''scenario_manifest_digest'', JStr (manifest_digest p)),
       (''authority_digest'', JStr (authority_digest p)),
       (''falsifier'', falsifier),
       (''adversary'', JObj adversary),
       (''verifier'', JObj [(''id'', JStr ''OAT-V1''), (''version'', JStr ''0.1.0'')]),
       (''runtime'', JObj (runtime_metadata env [(''interpreter'', JStr (oe_interpreter env))]))])"

subsection \<open>The search\<close>

text \<open>
  The loop over what the adversary yields. A step that raises ends the search with that error;
  the first counterexample ends it with a result; otherwise the first candidate is kept.
\<close>

type_synonym candidate = "json \<times> json \<times> nat"

definition transcript_entry :: "nat \<Rightarrow> variation \<Rightarrow> json \<Rightarrow> json \<Rightarrow> json res" where
  "transcript_entry i v trace evaluation =
     bindE (jindex trace ''authority_effective_at_commit'') (\<lambda>effective.
     bindE (jindex evaluation ''counterexample'') (\<lambda>c.
       Inr (JObj [(''index'', JInt (int i)), (''variation'', variation_dict v),
         (''authority_effective_at_commit'', effective), (''counterexample'', JBool (truthy c)),
         (''trace_digest'', JStr (digest_object trace))])))"

fun search_loop ::
  "rb_scenario \<Rightarrow> nat \<Rightarrow> candidate option \<Rightarrow> json list \<Rightarrow> variation res list
     \<Rightarrow> (candidate \<times> json list) res" where
  "search_loop sc i first transcript [] =
     (case first of None \<Rightarrow> Inl (ValueError ''adversary proposed no candidates'')
      | Some c \<Rightarrow> Inr (c, transcript))"
| "search_loop sc i first transcript (p # ps) =
     bindE p (\<lambda>v.
       let trace = execute sc v in
       bindE (falsifier_evaluate trace) (\<lambda>evaluation.
       bindE (transcript_entry i v trace evaluation) (\<lambda>entry.
       bindE (jindex evaluation ''counterexample'') (\<lambda>c.
         let transcript = transcript @ [entry];
             first = (case first of None \<Rightarrow> Some (trace, evaluation, i) | Some f \<Rightarrow> Some f)
         in if truthy c then Inr ((trace, evaluation, i), transcript)
            else search_loop sc (Suc i) first transcript ps))))"

definition search :: "rb_scenario \<Rightarrow> variation res list \<Rightarrow> (candidate \<times> json list) res" where
  "search sc proposals = search_loop sc 0 None [] proposals"

subsection \<open>The witness\<close>

definition build_witness ::
  "json \<Rightarrow> json \<Rightarrow> json \<Rightarrow> (string \<times> json) list \<Rightarrow> json list \<Rightarrow> int \<Rightarrow> (string \<times> json) list res" where
  "build_witness run_manifest trace claimed adversary transcript selected =
     bindE (jindex run_manifest ''scenario'') (\<lambda>sc. bindE (str_field sc ''id'') (\<lambda>sid.
     bindE (jindex run_manifest ''boundary'') (\<lambda>bd. bindE (str_field bd ''id'') (\<lambda>bid.
     bindE (jindex run_manifest ''falsifier'') (\<lambda>fj. bindE (py_dict fj) (\<lambda>fals.
       Inr [
         (''witness_form'', JStr ''oat-witness/1''),
         (''canonical_form'', JStr CANONICAL_FORM),
         (''run_mode'', JStr RUN_MODE),
         (''claim_bearing_use'', JStr CLAIM_BEARING_USE),
         (''scenario_id'', JStr sid),
         (''boundary_id'', JStr bid),
         (''manifest_digest'', JStr (digest_object run_manifest)),
         (''falsifier'', JObj fals),
         (''adversary'', JObj adversary),
         (''search'', JObj [
            (''candidates_explored'', JInt (int (length transcript))),
            (''selected_candidate_index'', JInt selected),
            (''transcript'', JList transcript)]),
         (''trace'', trace),
         (''trace_digest'', JStr (digest_object trace)),
         (''claimed_evaluation'', claimed)]))))))"

definition witness_digest :: "json \<Rightarrow> string" where
  "witness_digest w = digest_object w"

definition variation_of :: "json \<Rightarrow> variation res" where
  "variation_of witness =
     bindE (jindex witness ''trace'') (\<lambda>trace. bindE (jindex trace ''variation'') (\<lambda>d.
     bindE (int_field d ''check_tick'') (\<lambda>check.
     bindE (int_field d ''revocation_tick'') (\<lambda>revocation.
     bindE (int_field d ''commit_tick'') (\<lambda>commit.
     bindE (int_field d ''propagation_delay'') (\<lambda>delay.
     bindE (int_field d ''retry_index'') (\<lambda>retry.
     bindE (jindex d ''duplicate_request'') (\<lambda>dup.
       Inr \<lparr>va_check_tick = check, va_revocation_tick = revocation, va_commit_tick = commit,
            va_propagation_delay = delay, va_retry_index = retry,
            va_duplicate_request = truthy dup\<rparr>))))))))"

subsection \<open>A run\<close>

record oat_run =
  or_scenario_id :: string
  or_expected_disposition :: json
  or_manifest :: json
  or_witness :: json
  or_result :: json

text \<open>\<open>run_manifest["runtime"]["scenario_source"] = path\<close>; the runtime subtree is an object.\<close>

definition set_scenario_source :: "string \<Rightarrow> (string \<times> json) list \<Rightarrow> (string \<times> json) list" where
  "set_scenario_source path m =
     dict_set ''runtime'' (JObj (dict_set ''scenario_source'' (JStr path)
        (jitems (jget_or (JObj m) ''runtime'' JNull)))) m"

definition run_pipeline ::
  "oat_env \<Rightarrow> documents \<Rightarrow> string \<Rightarrow> string \<Rightarrow> (string \<times> json) list \<Rightarrow> (rb_scenario \<Rightarrow> variation res list)
     \<Rightarrow> oat_run res" where
  "run_pipeline env docs path name adversary propose =
     bindE (load_scenario_package env docs name) (\<lambda>p.
     bindE (build_run_manifest env p falsifier_identity adversary) (\<lambda>m0.
       let m = set_scenario_source path m0 in
       bindE (search (sp_scenario p) (propose (sp_scenario p))) (\<lambda>((trace, evaluation, i), transcript).
       bindE (build_witness (JObj m) trace evaluation adversary transcript (int i)) (\<lambda>w.
       bindE (v1_verify env (JObj w) (Some (JObj m)) None) (\<lambda>result.
         Inr \<lparr>or_scenario_id = rs_scenario_id (sp_scenario p),
              or_expected_disposition = jget_or (sp_scenario_doc p) ''expected_disposition'' JNull,
              or_manifest = JObj m, or_witness = JObj w, or_result = result\<rparr>)))))"

subsection \<open>Checksums\<close>

text \<open>A run directory: the files in it by name. The checksum file itself is not covered.\<close>

definition SUMS_NAME :: string where "SUMS_NAME = ''SHA256SUMS.json''"

definition sums_of :: "file_entry list \<Rightarrow> (string \<times> json) list" where
  "sums_of files = [
     (''sums_form'', JStr ''oat-sha256sums/1''),
     (''run_mode'', JStr RUN_MODE),
     (''claim_bearing_use'', JStr CLAIM_BEARING_USE),
     (''files'', JObj (map (\<lambda>f. (fe_path f, JStr (digest_file f)))
        (filter (\<lambda>f. fe_is_file f \<and> fe_path f \<noteq> SUMS_NAME) (sort_key fe_path files))))]"

fun find_file :: "file_entry list \<Rightarrow> string \<Rightarrow> file_entry option" where
  "find_file [] name = None"
| "find_file (f # fs) name = (if fe_path f = name then Some f else find_file fs name)"

definition sum_complaint :: "file_entry list \<Rightarrow> string \<times> json \<Rightarrow> string list" where
  "sum_complaint files e =
     (case find_file files (fst e) of
        None \<Rightarrow> [fst e @ '': missing'']
      | Some f \<Rightarrow>
          if \<not> fe_is_file f then [fst e @ '': missing'']
          else if \<not> py_eq (JStr (digest_file f)) (snd e)
          then [fst e @ '': '' @ digest_file f @ '' != '' @ py_str (snd e)] else [])"

record sums_report =
  sm_ok :: bool
  sm_detail :: "string list"
  sm_checked :: nat

definition verify_sha256sums :: "file_entry list \<Rightarrow> json option \<Rightarrow> sums_report res" where
  "verify_sha256sums files sums =
     (case sums of
        None \<Rightarrow> Inr \<lparr>sm_ok = False, sm_detail = [''SHA256SUMS.json is missing''], sm_checked = 0\<rparr>
      | Some doc \<Rightarrow> bindE (jindex doc ''files'') (\<lambda>fs. bindE (py_dict fs) (\<lambda>recorded.
          let detail = concat (map (sum_complaint files) (sort_key fst recorded)) in
          Inr \<lparr>sm_ok = (detail = []), sm_detail = detail, sm_checked = length recorded\<rparr>)))"

subsection \<open>Replay\<close>


text \<open>
  The replay of a recorded run: the witness's variation is executed again on the loaded scenario,
  without the adversary, and the verifier runs again. A recorded
  transcript that is not a list is an error.
\<close>

definition replay_run ::
  "oat_env \<Rightarrow> rb_scenario \<Rightarrow> json \<Rightarrow> json \<Rightarrow> json \<Rightarrow> json res" where
  "replay_run env sc manifest recorded_witness recorded_result =
     bindE (variation_of recorded_witness) (\<lambda>v.
       let trace = execute sc v in
       bindE (falsifier_evaluate trace) (\<lambda>evaluation.
       bindE (jindex recorded_witness ''adversary'') (\<lambda>aj. bindE (py_dict aj) (\<lambda>adversary.
       bindE (jindex recorded_witness ''search'') (\<lambda>s.
       bindE (jindex s ''transcript'') (\<lambda>tj.
       bindE (int_field s ''selected_candidate_index'') (\<lambda>selected.
       bindE (case tj of JList ts \<Rightarrow> Inr ts | _ \<Rightarrow> Inl (TypeError ''list()'')) (\<lambda>transcript.
       bindE (build_witness manifest trace evaluation adversary transcript selected) (\<lambda>w.
       bindE (v1_verify env (JObj w) (Some manifest) None) (\<lambda>result.
       bindE (str_field recorded_witness ''trace_digest'') (\<lambda>rtd.
       bindE (str_field result ''evidence_digest'') (\<lambda>evd.
       bindE (str_field recorded_result ''evidence_digest'') (\<lambda>revd.
       bindE (str_field result ''disposition'') (\<lambda>d.
       bindE (str_field recorded_result ''disposition'') (\<lambda>rd.
       bindE (jindex manifest ''scenario'') (\<lambda>ms. bindE (str_field ms ''id'') (\<lambda>sid.
       bindE (jindex result ''disposition'') (\<lambda>dj.
       bindE (jindex result ''computational_result'') (\<lambda>cr.
       bindE (jindex result ''evidence_digest'') (\<lambda>ej.
       bindE (jindex result ''predicate_trace'') (\<lambda>pt.
         let trace_match = (digest_object trace = rtd);
             witness_match = (digest_object (JObj w) = digest_object recorded_witness);
             evidence_match = (evd = revd);
             disposition_match = (d = rd)
         in Inr (JObj [
           (''replay_form'', JStr ''oat-replay-result/1''),
           (''run_mode'', JStr RUN_MODE),
           (''claim_bearing_use'', JStr CLAIM_BEARING_USE),
           (''scenario_id'', JStr sid),
           (''adversary_used'', JBool False),
           (''recorded_trace_digest'', JStr rtd),
           (''recomputed_trace_digest'', JStr (digest_object trace)),
           (''trace_match'', JBool trace_match),
           (''witness_match'', JBool witness_match),
           (''recorded_evidence_digest'', JStr revd),
           (''recomputed_evidence_digest'', JStr evd),
           (''evidence_digest_match'', JBool evidence_match),
           (''recorded_disposition'', JStr rd),
           (''disposition'', JStr d),
           (''disposition_match'', JBool disposition_match),
           (''canonical_result_digest'', JStr (digest_object (JObj [
              (''disposition'', dj), (''computational_result'', cr),
              (''evidence_digest'', ej), (''predicate_trace'', pt)]))),
           (''replay_ok'', JBool (trace_match \<and> witness_match \<and> evidence_match \<and> disposition_match)),
           (''runtime'', JObj (runtime_metadata env []))]))))))))))))))))))))))"

definition canonical_replay_bytes :: "json \<Rightarrow> string" where
  "canonical_replay_bytes r = canonical_bytes r"

subsection \<open>What the search finds\<close>

definition is_cex :: "rb_scenario \<Rightarrow> variation \<Rightarrow> bool" where
  "is_cex sc v \<longleftrightarrow> run_counterexample sc v = Inr True"

lemma evaluate_execute:
  "\<exists>ev. falsifier_evaluate (execute sc v) = Inr ev
     \<and> jindex ev ''counterexample'' = Inr (JBool (is_cex sc v))"
proof -
  from run_counterexample_eq [of sc v] obtain ev b where
    ev: "falsifier_evaluate (execute sc v) = Inr ev" "jindex ev ''counterexample'' = Inr b"
    by (auto simp: run_counterexample_def bindE_Inr_iff)
  from ev(1) obtain b' where "jindex ev ''counterexample'' = Inr (JBool b')"
    by (rule evaluate_fields) blast
  with ev show ?thesis by (auto simp: is_cex_def run_counterexample_def)
qed

definition evaluation_of :: "rb_scenario \<Rightarrow> variation \<Rightarrow> json" where
  "evaluation_of sc v = projr (falsifier_evaluate (execute sc v))"

lemma evaluation_of_eq [simp]:
  "falsifier_evaluate (execute sc v) = Inr (evaluation_of sc v)"
  "jindex (evaluation_of sc v) ''counterexample'' = Inr (JBool (is_cex sc v))"
  using evaluate_execute [of sc v] by (auto simp: evaluation_of_def)

definition entry_of :: "rb_scenario \<Rightarrow> nat \<Rightarrow> variation \<Rightarrow> json" where
  "entry_of sc i v = JObj [(''index'', JInt (int i)), (''variation'', variation_dict v),
     (''authority_effective_at_commit'',
        JStr (authority_effective_status (rs_authority sc) (va_revocation_tick v) (commit_tick_of v))),
     (''counterexample'', JBool (is_cex sc v)), (''trace_digest'', JStr (digest_object (execute sc v)))]"

lemma transcript_entry_execute [simp]:
  "transcript_entry i v (execute sc v) (evaluation_of sc v) = Inr (entry_of sc i v)"
proof -
  have "jindex (execute sc v) ''authority_effective_at_commit'' = Inr (JStr (authority_effective_status
      (rs_authority sc) (va_revocation_tick v) (commit_tick_of v)))"
    by (simp add: execute_def dict_index_def)
  then show ?thesis by (simp add: transcript_entry_def entry_of_def)
qed

definition cand :: "rb_scenario \<Rightarrow> variation list \<Rightarrow> nat \<Rightarrow> candidate" where
  "cand sc vs k = (execute sc (vs ! k), evaluation_of sc (vs ! k), k)"

definition entries :: "rb_scenario \<Rightarrow> nat \<Rightarrow> variation list \<Rightarrow> json list" where
  "entries sc i vs = map (\<lambda>(j, v). entry_of sc j v) (enumerate i vs)"

text \<open>The number of candidates before the first counterexample.\<close>

definition before_cex :: "rb_scenario \<Rightarrow> variation list \<Rightarrow> nat" where
  "before_cex sc vs = length (takeWhile (\<lambda>v. \<not> is_cex sc v) vs)"

lemma entries_Cons: "entries sc i (v # vs) = entry_of sc i v # entries sc (Suc i) vs"
  by (simp add: entries_def)

lemma search_loop_spec:
  "search_loop sc i first ts (map Inr vs) =
     (if before_cex sc vs < length vs
      then (let k = before_cex sc vs; v = vs ! k in
            Inr ((execute sc v, evaluation_of sc v, i + k), ts @ entries sc i (take (Suc k) vs)))
      else (case (first, vs) of
              (None, []) \<Rightarrow> Inl (ValueError ''adversary proposed no candidates'')
            | (None, v # _) \<Rightarrow> Inr ((execute sc v, evaluation_of sc v, i), ts @ entries sc i vs)
            | (Some c, _) \<Rightarrow> Inr (c, ts @ entries sc i vs)))"
proof (induction vs arbitrary: i first ts)
  case Nil
  then show ?case by (simp add: before_cex_def entries_def split: option.split)
next
  case (Cons v vs)
  show ?case
  proof (cases "is_cex sc v")
    case True
    then show ?thesis by (simp add: before_cex_def Let_def entries_def)
  next
    case False
    then have b: "before_cex sc (v # vs) = Suc (before_cex sc vs)" by (simp add: before_cex_def)
    have step: "search_loop sc i first ts (map Inr (v # vs))
        = search_loop sc (Suc i) (case first of None \<Rightarrow> Some (execute sc v, evaluation_of sc v, i) | Some f \<Rightarrow> Some f)
            (ts @ [entry_of sc i v]) (map Inr vs)"
      using False by (simp add: Let_def)
    show ?thesis
      unfolding step Cons b by (simp add: entries_Cons Let_def split: option.split)
  qed
qed

lemma search_spec:
  assumes "vs \<noteq> []"
  shows "search sc (map Inr vs) =
    (let k = before_cex sc vs in
     if k < length vs then Inr (cand sc vs k, entries sc 0 (take (Suc k) vs))
     else Inr (cand sc vs 0, entries sc 0 vs))"
  unfolding search_def search_loop_spec cand_def Let_def using assms
  by (cases vs) (simp_all only: option.case list.case prod.case add_0 append_Nil nth_Cons_0 simp_thms list.distinct)

text \<open>What is kept is a counterexample exactly when there is one.\<close>

lemma kept_candidate:
  assumes "vs \<noteq> []"
  shows "\<exists>j ts. j < length vs \<and> search sc (map Inr vs) = Inr (cand sc vs j, ts)
    \<and> (is_cex sc (vs ! j) \<longleftrightarrow> list_ex (is_cex sc) vs)"
proof (cases "before_cex sc vs < length vs")
  case True
  then have "is_cex sc (vs ! before_cex sc vs)"
    unfolding before_cex_def using nth_length_takeWhile by blast
  moreover from this True have "list_ex (is_cex sc) vs" by (auto simp: list_ex_iff)
  ultimately show ?thesis using True search_spec [OF assms, of sc] by (auto simp: Let_def)
next
  case False
  have "takeWhile (\<lambda>v. \<not> is_cex sc v) vs = take (length (takeWhile (\<lambda>v. \<not> is_cex sc v) vs)) vs"
    by (rule takeWhile_eq_take)
  also have "\<dots> = vs" using False by (intro take_all) (simp add: before_cex_def)
  finally have e: "\<forall>v \<in> set vs. \<not> is_cex sc v" by (simp add: takeWhile_eq_all_conv)
  moreover have "0 < length vs" using assms by simp
  ultimately have "\<not> is_cex sc (vs ! 0)" by (meson nth_mem)
  moreover have "search sc (map Inr vs) = Inr (cand sc vs 0, entries sc 0 vs)"
    using search_spec [OF assms, of sc] False by (simp only: Let_def if_False)
  ultimately show ?thesis using e \<open>0 < length vs\<close> by (auto simp: list_ex_iff)
qed

text \<open>The search keeps the first counterexample in the order of the proposals, with a transcript of
  exactly the candidates up to it; when none of them is a counterexample it keeps the first
  candidate, with a transcript of all of them.\<close>

theorem search_keeps_first:
  assumes "vs \<noteq> []"
  shows "\<exists>k ts. search sc (map Inr vs) = Inr ((execute sc (vs ! k), evaluation_of sc (vs ! k), k), ts)
    \<and> (if list_ex (is_cex sc) vs
       then k < length vs \<and> is_cex sc (vs ! k) \<and> \<not> list_ex (is_cex sc) (take k vs) \<and> length ts = k + 1
       else k = 0 \<and> length ts = length vs)"
proof (cases "before_cex sc vs < length vs")
  case True
  let ?k = "before_cex sc vs"
  from True have k: "is_cex sc (vs ! ?k)"
    unfolding before_cex_def using nth_length_takeWhile by blast
  have "take ?k vs = takeWhile (\<lambda>v. \<not> is_cex sc v) vs"
    unfolding before_cex_def by (rule takeWhile_eq_take [symmetric])
  then have t: "\<not> list_ex (is_cex sc) (take ?k vs)"
    by (auto simp: list_ex_iff dest: set_takeWhileD)
  have e: "list_ex (is_cex sc) vs" using True k by (auto simp: list_ex_iff)
  have "search sc (map Inr vs) = Inr ((execute sc (vs ! ?k), evaluation_of sc (vs ! ?k), ?k),
      entries sc 0 (take (Suc ?k) vs))"
    using search_spec [OF assms, of sc] True by (simp only: Let_def if_True cand_def)
  moreover have "length (entries sc 0 (take (Suc ?k) vs)) = ?k + 1" using True by (simp add: entries_def)
  ultimately show ?thesis using True k t e by (simp only: if_True) blast
next
  case False
  have "takeWhile (\<lambda>v. \<not> is_cex sc v) vs = take (length (takeWhile (\<lambda>v. \<not> is_cex sc v) vs)) vs"
    by (rule takeWhile_eq_take)
  also have "\<dots> = vs" using False by (intro take_all) (simp add: before_cex_def)
  finally have e: "\<not> list_ex (is_cex sc) vs" by (simp add: list_ex_iff takeWhile_eq_all_conv)
  have "search sc (map Inr vs) = Inr ((execute sc (vs ! 0), evaluation_of sc (vs ! 0), 0), entries sc 0 vs)"
    using search_spec [OF assms, of sc] False by (simp only: Let_def if_False cand_def)
  moreover have "length (entries sc 0 vs) = length vs" by (simp add: entries_def)
  ultimately show ?thesis using e by (simp only: if_False) blast
qed

lemma search_keeps_first_witness:
  "\<exists>k ts. search (demo_rb_scenario ENFORCEMENT_CHECK_ONCE_CACHED)
       [Inr (rs_baseline (demo_rb_scenario ENFORCEMENT_CHECK_ONCE_CACHED))]
     = Inr ((execute (demo_rb_scenario ENFORCEMENT_CHECK_ONCE_CACHED)
         (rs_baseline (demo_rb_scenario ENFORCEMENT_CHECK_ONCE_CACHED)),
         evaluation_of (demo_rb_scenario ENFORCEMENT_CHECK_ONCE_CACHED)
         (rs_baseline (demo_rb_scenario ENFORCEMENT_CHECK_ONCE_CACHED)), k), ts) \<and> k = 0 \<and> length ts = 1"
proof -
  let ?sc = "demo_rb_scenario ENFORCEMENT_CHECK_ONCE_CACHED"
  have "is_cex ?sc (rs_baseline ?sc)" by (simp add: is_cex_def cached_decision_fires)
  with search_keeps_first [of "[rs_baseline ?sc]" ?sc] show ?thesis by fastforce
qed

subsection \<open>A run and its replay\<close>

lemma variation_roundtrip:
  assumes "jindex w ''trace'' = Inr (execute sc v)"
  shows "variation_of w = Inr v"
proof -
  have "jindex (execute sc v) ''variation'' = Inr (variation_dict v)"
    by (simp add: execute_def dict_index_def)
  then show ?thesis
    using assms by (simp add: variation_of_def variation_dict_def int_field_def dict_index_def)
qed

text \<open>Whatever it yields, what a search keeps is a candidate it executed.\<close>

lemma search_loop_executes:
  assumes "search_loop sc i first ts ps = Inr ((trace, ev, k), ts')"
    and "\<And>t e j. first = Some (t, e, j) \<Longrightarrow> \<exists>v. t = execute sc v \<and> e = evaluation_of sc v"
  shows "\<exists>v. trace = execute sc v \<and> ev = evaluation_of sc v"
  using assms
proof (induction ps arbitrary: i first ts)
  case Nil
  then show ?case by (cases first) auto
next
  case (Cons p ps)
  show ?case
  proof (cases p)
    case (Inr v)
    show ?thesis
    proof (cases "is_cex sc v")
      case True
      with Cons.prems(1) Inr show ?thesis by (auto simp: Let_def)
    next
      case False
      let ?f = "case first of None \<Rightarrow> Some (execute sc v, evaluation_of sc v, i) | Some f \<Rightarrow> Some f"
      have "search_loop sc (Suc i) ?f (ts @ [entry_of sc i v]) ps = Inr ((trace, ev, k), ts')"
        using Cons.prems(1) Inr False by (simp add: Let_def)
      moreover have "\<exists>v. t = execute sc v \<and> e = evaluation_of sc v" if "?f = Some (t, e, j)" for t e j
        using that Cons.prems(2) by (cases first) auto
      ultimately show ?thesis by (rule Cons.IH)
    qed
  qed (use Cons.prems(1) in simp)
qed

text \<open>A run taken apart.\<close>

lemma run_pipeline_parts:
  assumes "run_pipeline env docs path name adversary propose = Inr r"
  obtains p m v k ts w where "load_scenario_package env docs name = Inr p"
    "or_manifest r = JObj m" "or_witness r = JObj w"
    "search (sp_scenario p) (propose (sp_scenario p))
       = Inr ((execute (sp_scenario p) v, evaluation_of (sp_scenario p) v, k), ts)"
    "build_witness (JObj m) (execute (sp_scenario p) v) (evaluation_of (sp_scenario p) v) adversary ts (int k) = Inr w"
    "v1_verify env (JObj w) (Some (JObj m)) None = Inr (or_result r)"
    "jindex (JObj m) ''scenario'' = Inr (JObj [(''id'', JStr (rs_scenario_id (sp_scenario p))),
       (''name'', JStr (sp_name p)), (''digest'', JStr (scenario_digest p)),
       (''enforcement_path'', JStr (rs_enforcement_path (sp_scenario p)))])"
    "jindex (JObj m) ''falsifier'' = Inr falsifier_identity"
proof -
  from assms obtain p m0 trace ev k ts w where
    p: "load_scenario_package env docs name = Inr p"
    and m0: "build_run_manifest env p falsifier_identity adversary = Inr m0"
    and s: "search (sp_scenario p) (propose (sp_scenario p)) = Inr ((trace, ev, k), ts)"
    and w: "build_witness (JObj (set_scenario_source path m0)) trace ev adversary ts (int k) = Inr w"
    and v: "v1_verify env (JObj w) (Some (JObj (set_scenario_source path m0))) None = Inr (or_result r)"
    and r: "or_manifest r = JObj (set_scenario_source path m0)" "or_witness r = JObj w"
    by (auto simp: run_pipeline_def bindE_Inr_iff Let_def split: prod.splits)
  from search_loop_executes [OF s [unfolded search_def]] obtain x
    where x: "trace = execute (sp_scenario p) x" "ev = evaluation_of (sp_scenario p) x" by auto
  have "dict_get m0 ''scenario'' = Some (JObj [(''id'', JStr (rs_scenario_id (sp_scenario p))),
       (''name'', JStr (sp_name p)), (''digest'', JStr (scenario_digest p)),
       (''enforcement_path'', JStr (rs_enforcement_path (sp_scenario p)))])"
    "dict_get m0 ''falsifier'' = Some falsifier_identity"
    using m0 by (auto simp: build_run_manifest_def bindE_Inr_iff)
  then have "jindex (JObj (set_scenario_source path m0)) ''scenario'' = Inr (JObj [(''id'', JStr (rs_scenario_id (sp_scenario p))),
       (''name'', JStr (sp_name p)), (''digest'', JStr (scenario_digest p)),
       (''enforcement_path'', JStr (rs_enforcement_path (sp_scenario p)))])"
    "jindex (JObj (set_scenario_source path m0)) ''falsifier'' = Inr falsifier_identity"
    by (simp_all add: set_scenario_source_def dict_index_def)
  with that [OF p r(1,2)] s w v x show ?thesis by blast
qed

lemma built_witness_fields:
  assumes "build_witness (JObj m) trace claimed adversary ts k = Inr w"
    and "jindex (JObj m) ''scenario'' = Inr (JObj ((''id'', JStr sid) # rest))"
    and "jindex (JObj m) ''falsifier'' = Inr falsifier_identity"
  shows "jindex (JObj w) ''falsifier'' = Inr falsifier_identity"
    "str_field (JObj w) ''manifest_digest'' = Inr (digest_object (JObj m))"
    "str_field (JObj w) ''scenario_id'' = Inr sid"
    "jindex (JObj w) ''trace'' = Inr trace"
    "str_field (JObj w) ''trace_digest'' = Inr (digest_object trace)"
    "attr_get (JObj w) ''claimed_evaluation'' (JObj []) = Inr claimed"
    "jindex (JObj w) ''adversary'' = Inr (JObj adversary)"
    "jindex (JObj w) ''search'' = Inr (JObj [
            (''candidates_explored'', JInt (int (length ts))),
            (''selected_candidate_index'', JInt k),
            (''transcript'', JList ts)])"
proof -
  have "py_dict falsifier_identity = Inr fd \<longleftrightarrow> JObj fd = falsifier_identity" for fd
    by (auto simp: py_dict_def falsifier_identity_def)
  with assms show "jindex (JObj w) ''falsifier'' = Inr falsifier_identity"
    "str_field (JObj w) ''manifest_digest'' = Inr (digest_object (JObj m))"
    "str_field (JObj w) ''scenario_id'' = Inr sid"
    "jindex (JObj w) ''trace'' = Inr trace"
    "str_field (JObj w) ''trace_digest'' = Inr (digest_object trace)"
    "attr_get (JObj w) ''claimed_evaluation'' (JObj []) = Inr claimed"
    "jindex (JObj w) ''adversary'' = Inr (JObj adversary)"
    "jindex (JObj w) ''search'' = Inr (JObj [
            (''candidates_explored'', JInt (int (length ts))),
            (''selected_candidate_index'', JInt k),
            (''transcript'', JList ts)])"
    by (auto simp: build_witness_def bindE_Inr_iff str_field_def dict_index_Inr_iff attr_get_def jget_or_def)
qed

lemma identity_equal: "py_eq falsifier_identity falsifier_identity"
  "py_str (jget_or falsifier_identity ''version'' (JStr [])) \<in> set SUPPORTED_VERSIONS"
  "\<exists>f. falsifier_identity = JObj f"
  by (simp_all add: falsifier_identity_def jget_or_def SUPPORTED_VERSIONS_def FALSIFIER_VERSION_def)

lemma own_witness_accepted:
  assumes "build_witness (JObj m) (execute sc v) (evaluation_of sc v) adversary ts k = Inr w"
    and "jindex (JObj m) ''scenario'' = Inr (JObj ((''id'', JStr (rs_scenario_id sc)) # rest))"
    and "jindex (JObj m) ''falsifier'' = Inr falsifier_identity"
    and "oe_validate env (JObj w) ''witness'' = []" "oe_validate env (execute sc v) ''observable-trace'' = []"
  shows "v1_accepts env (JObj w) (Some (JObj m)) None (execute sc v) (is_cex sc v)"
proof -
  note f = built_witness_fields [OF assms(1-3)]
  obtain fd where fd: "falsifier_identity = JObj fd" using identity_equal(3) by blast
  have "attr_get (execute sc v) ''scenario_id'' (JStr []) = Inr (JStr (rs_scenario_id sc))"
    by (simp add: attr_get_def execute_def jget_or_def)
  moreover have "v1_target (Some (JObj m)) None = Inr (Some (rs_scenario_id sc))"
    using assms(2) by (simp add: v1_target_def str_field_def dict_index_def)
  moreover have "attr_get (evaluation_of sc v) ''counterexample'' JNull = Inr (JBool (is_cex sc v))"
    using evaluation_of_eq(2) [of sc v, unfolded jindex_Inr_iff] jindex_Inr_JObj [OF evaluation_of_eq(2) [of sc v]]
    by (simp add: attr_get_def jget_or_def)
  ultimately show ?thesis
    unfolding v1_accepts_def using f assms(4,5) identity_equal(1,2) fd by auto
qed

lemma own_witness_says:
  assumes "build_witness (JObj m) (execute sc v) (evaluation_of sc v) adversary ts k = Inr w"
    and "jindex (JObj m) ''scenario'' = Inr (JObj ((''id'', JStr (rs_scenario_id sc)) # rest))"
    and "jindex (JObj m) ''falsifier'' = Inr falsifier_identity"
    and "oe_validate env (JObj w) ''witness'' = []" "oe_validate env (execute sc v) ''observable-trace'' = []"
  shows "says (v1_verify env (JObj w) (Some (JObj m)) None)
    (if is_cex sc v then DISPOSITION_COUNTEREXAMPLE else DISPOSITION_NO_COUNTEREXAMPLE)"
proof -
  have "(if is_cex sc v then DISPOSITION_COUNTEREXAMPLE else DISPOSITION_NO_COUNTEREXAMPLE) \<noteq> DISPOSITION_REJECTED"
    by simp
  from v1_says_iff [OF this] own_witness_accepted [OF assms] show ?thesis by blast
qed

lemma says_unique: "says m d \<Longrightarrow> says m d' \<Longrightarrow> d = d'"
  by (auto simp: says_def)

lemma run_verdict_says:
  assumes "run_pipeline env docs path name adversary propose = Inr r"
    and "load_scenario_package env docs name = Inr p" "propose (sp_scenario p) = map Inr vs" "vs \<noteq> []"
    and "oe_validate env (or_witness r) ''witness'' = []"
    and "\<forall>v \<in> set vs. oe_validate env (execute (sp_scenario p) v) ''observable-trace'' = []"
  shows "says (Inr (or_result r))
    (if list_ex (is_cex (sp_scenario p)) vs then DISPOSITION_COUNTEREXAMPLE else DISPOSITION_NO_COUNTEREXAMPLE)"
proof -
  let ?sc = "sp_scenario p"
  from assms(1) obtain p' m v k ts w where p': "load_scenario_package env docs name = Inr p'"
    and w: "or_witness r = JObj w"
    and parts: "search (sp_scenario p') (propose (sp_scenario p'))
       = Inr ((execute (sp_scenario p') v, evaluation_of (sp_scenario p') v, k), ts)"
    "build_witness (JObj m) (execute (sp_scenario p') v) (evaluation_of (sp_scenario p') v) adversary ts (int k) = Inr w"
    "v1_verify env (JObj w) (Some (JObj m)) None = Inr (or_result r)"
    "jindex (JObj m) ''scenario'' = Inr (JObj [(''id'', JStr (rs_scenario_id (sp_scenario p'))),
       (''name'', JStr (sp_name p')), (''digest'', JStr (scenario_digest p')),
       (''enforcement_path'', JStr (rs_enforcement_path (sp_scenario p')))])"
    "jindex (JObj m) ''falsifier'' = Inr falsifier_identity"
    by (rule run_pipeline_parts) blast
  have "p' = p" using p' assms(2) by simp
  note s = parts(1) [unfolded this] and b = parts(2) [unfolded this] and ver = parts(3)
    and m = parts(4,5) [unfolded this]
  from kept_candidate [OF assms(4), of ?sc] obtain j ts' where j: "j < length vs"
    "search ?sc (map Inr vs) = Inr (cand ?sc vs j, ts')"
    "is_cex ?sc (vs ! j) \<longleftrightarrow> list_ex (is_cex ?sc) vs" by blast
  have ev: "execute ?sc v = execute ?sc (vs ! j)" "evaluation_of ?sc v = evaluation_of ?sc (vs ! j)"
    using s [unfolded assms(3) j(2) cand_def sum.inject prod.inject] by (metis (full_types))+
  have "vs ! j \<in> set vs" using j(1) by simp
  with assms(6) have "oe_validate env (execute ?sc (vs ! j)) ''observable-trace'' = []" by blast
  with own_witness_says [OF b [unfolded ev] m(1,2), of env] assms(5) ver show ?thesis
    by (simp add: w j(3))
qed

text \<open>C24: A run is judged by what its adversary proposed: when the schemas accept its witness and its
  trace, the verifier confirms a counterexample exactly when some proposed variation is one, and
  otherwise reports that there is none.\<close>

theorem run_verdict_iff:
  assumes "run_pipeline env docs path name adversary propose = Inr r"
    and "load_scenario_package env docs name = Inr p" "propose (sp_scenario p) = map Inr vs" "vs \<noteq> []"
    and "oe_validate env (or_witness r) ''witness'' = []"
    and "\<forall>v \<in> set vs. oe_validate env (execute (sp_scenario p) v) ''observable-trace'' = []"
  shows "says (Inr (or_result r))
    (if list_ex (is_cex (sp_scenario p)) vs then DISPOSITION_COUNTEREXAMPLE else DISPOSITION_NO_COUNTEREXAMPLE)"
  by (rule run_verdict_says [OF assms])

lemma own_run_replays_ok:
  assumes "run_pipeline env docs path name adversary propose = Inr r"
    and "load_scenario_package env docs name = Inr p" "oe_validate env = oe_validate env'"
  shows "\<exists>rr. replay_run env' (sp_scenario p) (or_manifest r) (or_witness r) (or_result r) = Inr rr
    \<and> jget rr ''replay_ok'' = Some (JBool True)
    \<and> jget rr ''disposition'' = jget (or_result r) ''disposition''
    \<and> jget rr ''recomputed_evidence_digest'' = jget (or_result r) ''evidence_digest''"
proof -
  let ?sc = "sp_scenario p"
  from assms(1) obtain p' m v k ts w where p': "load_scenario_package env docs name = Inr p'"
    and r: "or_manifest r = JObj m" "or_witness r = JObj w"
    and parts: "build_witness (JObj m) (execute (sp_scenario p') v) (evaluation_of (sp_scenario p') v) adversary ts (int k) = Inr w"
    "v1_verify env (JObj w) (Some (JObj m)) None = Inr (or_result r)"
    "jindex (JObj m) ''scenario'' = Inr (JObj [(''id'', JStr (rs_scenario_id (sp_scenario p'))),
       (''name'', JStr (sp_name p')), (''digest'', JStr (scenario_digest p')),
       (''enforcement_path'', JStr (rs_enforcement_path (sp_scenario p')))])"
    "jindex (JObj m) ''falsifier'' = Inr falsifier_identity"
    by (rule run_pipeline_parts) blast
  have "p' = p" using p' assms(2) by simp
  note b = parts(1) [unfolded this] and ver = parts(2) and m = parts(3,4) [unfolded this]
  note f = built_witness_fields [OF b m(1,2)]
  have sid: "bindE (jindex (JObj m) ''scenario'') (\<lambda>ms. str_field ms ''id'') = Inr (rs_scenario_id ?sc)"
    using m(1) by (simp add: str_field_def dict_index_def)
  from agree_verify [OF assms(3), of "JObj w" "Some (JObj m)" None] ver obtain d q where
    q: "Inr (or_result r) = v1_result env d (JObj w) q"
    "v1_verify env' (JObj w) (Some (JObj m)) None = v1_result env' d (JObj w) q"
    by (auto simp: agree_def)
  obtain r' where r': "v1_result env' d (JObj w) q = Inr r'" by (simp add: v1_result_def Let_def)
  note f1 = v1_result_fields [OF q(1) [symmetric]] and f2 = v1_result_fields [OF r']
  have v: "variation_of (JObj w) = Inr v" by (rule variation_roundtrip [OF f(4)])
  let ?S = "JObj [(''candidates_explored'', JInt (int (length ts))),
            (''selected_candidate_index'', JInt (int k)), (''transcript'', JList ts)]"
  have s: "jindex ?S ''transcript'' = Inr (JList ts)" "int_field ?S ''selected_candidate_index'' = Inr (int k)"
    by (simp_all add: int_field_def dict_index_def)
  have i: "str_field (JObj [(''id'', JStr (rs_scenario_id ?sc)), (''name'', JStr (sp_name p)),
      (''digest'', JStr (scenario_digest p)), (''enforcement_path'', JStr (rs_enforcement_path ?sc))]) ''id''
      = Inr (rs_scenario_id ?sc)"
    by (simp add: str_field_def dict_index_def)
  have g: "str_field r' ''evidence_digest'' = str_field (or_result r) ''evidence_digest''"
    "str_field (or_result r) ''evidence_digest'' = Inr (digest_object (JObj (v1_evidence d (JObj w) q)))"
    "str_field r' ''disposition'' = Inr d" "str_field (or_result r) ''disposition'' = Inr d"
    using f1 f2 by (simp_all add: str_field_def)
  have pd: "py_dict (JObj adversary) = Inr adversary" by (simp add: py_dict_def)
  have "\<exists>rr. replay_run env' ?sc (JObj m) (JObj w) (or_result r) = Inr rr
    \<and> jget rr ''replay_ok'' = Some (JBool True) \<and> jget rr ''disposition'' = Some (JStr d)
    \<and> jget rr ''recomputed_evidence_digest'' = Some (JStr (digest_object (JObj (v1_evidence d (JObj w) q))))"
    by (simp add: replay_run_def Let_def v f pd s b q(2) r' f2 g m(1) i del: jindex.simps)
  then show ?thesis using f1(1,2) by (simp only: r jindex_Inr_iff)
qed

text \<open>A recorded run replays: on any host whose schema validation agrees with the one of the run,
  executing the recorded variation again, without the adversary, rebuilds the same trace, the
  same witness and the same evidence digest, and comes to the same disposition.\<close>

theorem own_run_replays:
  assumes "run_pipeline env docs path name adversary propose = Inr r"
    and "load_scenario_package env docs name = Inr p" "oe_validate env = oe_validate env'"
  shows "\<exists>rr. replay_run env' (sp_scenario p) (or_manifest r) (or_witness r) (or_result r) = Inr rr
    \<and> jget rr ''replay_ok'' = Some (JBool True)
    \<and> jget rr ''disposition'' = jget (or_result r) ''disposition''
    \<and> jget rr ''recomputed_evidence_digest'' = jget (or_result r) ''evidence_digest''"
  by (rule own_run_replays_ok [OF assms])

subsection \<open>A run to completion\<close>

lemma run_completes:
  assumes "load_scenario_package env docs name = Inr p" "propose (sp_scenario p) = map Inr vs" "vs \<noteq> []"
    and "str_field (JObj (oe_witness_schema env)) ''$id'' = Inr schema_id"
    and "\<And>x s. oe_validate env x s = []"
  shows "\<exists>r. run_pipeline env docs path name adversary propose = Inr r"
proof -
  let ?sc = "sp_scenario p"
  obtain m0 where m0: "build_run_manifest env p falsifier_identity adversary = Inr m0"
    using assms(4) by (simp add: build_run_manifest_def formalism_identity_def)
  let ?m = "set_scenario_source path m0"
  have get: "dict_get m0 ''falsifier'' = Some falsifier_identity"
    "dict_get m0 ''scenario'' = Some (JObj [(''id'', JStr (rs_scenario_id ?sc)), (''name'', JStr (sp_name p)),
       (''digest'', JStr (scenario_digest p)), (''enforcement_path'', JStr (rs_enforcement_path ?sc))])"
    "\<exists>x y. dict_get m0 ''boundary'' = Some (JObj [(''id'', JStr x), (''version'', JStr y)])"
    using m0 by (auto simp: build_run_manifest_def bindE_Inr_iff)
  obtain bx "by" where get3: "dict_get m0 ''boundary'' = Some (JObj [(''id'', JStr bx), (''version'', JStr by)])"
    using get(3) by blast
  have get': "jindex (JObj ?m) ''falsifier'' = Inr falsifier_identity"
    "jindex (JObj ?m) ''scenario'' = Inr (JObj [(''id'', JStr (rs_scenario_id ?sc)), (''name'', JStr (sp_name p)),
       (''digest'', JStr (scenario_digest p)), (''enforcement_path'', JStr (rs_enforcement_path ?sc))])"
    using get(1,2) by (simp_all add: set_scenario_source_def dict_index_def)
  have bd: "jindex (JObj ?m) ''boundary'' = Inr (JObj [(''id'', JStr bx), (''version'', JStr by)])"
    using get3 by (simp add: set_scenario_source_def dict_index_def)
  from kept_candidate [OF assms(3), of ?sc] obtain j ts where
    s: "search ?sc (map Inr vs) = Inr (cand ?sc vs j, ts)" by blast
  obtain fd where fd: "falsifier_identity = JObj fd" using identity_equal(3) by blast
  have ids: "str_field (JObj ((''id'', JStr i) # rest)) ''id'' = Inr i" for i rest
    by (simp add: str_field_def dict_index_def)
  obtain w where w: "build_witness (JObj ?m) (execute ?sc (vs ! j)) (evaluation_of ?sc (vs ! j)) adversary ts (int j) = Inr w"
    by (simp add: build_witness_def get' bd ids fd py_dict_def del: jindex.simps)
  obtain d where "says (v1_verify env (JObj w) (Some (JObj ?m)) None) d"
    using own_witness_says [OF w get'(2,1)] assms(5) by blast
  then obtain result where res: "v1_verify env (JObj w) (Some (JObj ?m)) None = Inr result"
    by (auto simp: says_def)
  show ?thesis
    by (simp add: run_pipeline_def assms(1,2) m0 Let_def s cand_def w res)
qed


subsection \<open>A run of a scenario of the repository\<close>

text \<open>
  The family \<open>scenarios/rb001\<close> with its scenarios \<open>VULN-A.json\<close> and \<open>CONTROL.json\<close> (\<open>search_space\<close>
  apart, which these runs do not read), on a host whose schemas accept everything.
\<close>

definition family_scenario :: "string \<Rightarrow> string \<Rightarrow> string \<Rightarrow> json" where
  "family_scenario sid path expected = JObj [
     (''scenario_id'', JStr sid), (''boundary_id'', JStr ''RB-001''),
     (''manifest_ref'', JStr ''manifest.json''), (''authority_ref'', JStr ''authority.json''),
     (''enforcement_path'', JStr path), (''expected_disposition'', JStr expected),
     (''action_quantity'', JInt 200000), (''execution_identity'', JStr ''oat-reference-executor/0.1.0''),
     (''baseline'', JObj [(''check_tick'', JInt 10), (''revocation_tick'', JInt 20),
        (''commit_tick'', JInt 21), (''propagation_delay'', JInt 0)])]"

definition vuln_a_authority :: json where
  "vuln_a_authority = JObj [
     (''subject'', JStr ''AP_AGENT_17''), (''resource_or_beneficiary'', JStr ''SUPPLIER_A''),
     (''max_quantity'', JInt 250000), (''unit'', JStr ''USD''), (''valid_from'', JInt 0),
     (''valid_until'', JInt 1000), (''status'', JStr ''ACTIVE'')]"

definition rb001_family :: json where
  "rb001_family = JObj [(''family'', JStr ''rb001''), (''boundary_id'', JStr ''RB-001''),
     (''boundary_version'', JStr ''0.1.0'')]"

definition rb001_documents :: documents where
  "rb001_documents = [
     (''VULN-A.json'', family_scenario ''RB-001-VULN-A'' ''CHECK_ONCE_CACHED'' ''COUNTEREXAMPLE_EXPECTED''),
     (''CONTROL.json'', family_scenario ''RB-001-CONTROL'' ''RECHECK_AT_COMMIT'' ''NO_COUNTEREXAMPLE_EXPECTED''),
     (''authority.json'', vuln_a_authority),
     (''manifest.json'', rb001_family)]"

definition lenient_host :: "string \<Rightarrow> oat_env" where
  "lenient_host version = \<lparr>oe_validate = \<lambda>_ _. [], oe_python_version = version,
     oe_python_implementation = ''CPython'', oe_platform_system = ''Linux'', oe_interpreter = ''python3'',
     oe_source_root = ''oat'', oe_source_files = [], oe_witness_schema = [(''$id'', JStr ''witness'')],
     oe_boundary_module = \<lparr>fe_path = ''rb001.py'', fe_is_file = True, fe_content = []\<rparr>\<rparr>"

definition vuln_a_baseline :: variation where
  "vuln_a_baseline = \<lparr>va_check_tick = 10, va_revocation_tick = 20, va_commit_tick = 21,
     va_propagation_delay = 0, va_retry_index = 0, va_duplicate_request = False\<rparr>"

definition family_rb :: "string \<Rightarrow> string \<Rightarrow> rb_scenario" where
  "family_rb sid path = \<lparr>rs_scenario_id = sid, rs_enforcement_path = path,
     rs_authority = \<lparr>ai_subject = ''AP_AGENT_17'', ai_resource = ''SUPPLIER_A'', ai_max_quantity = 250000,
        ai_unit = ''USD'', ai_valid_from = 0, ai_valid_until = 1000, ai_status = STATUS_ACTIVE\<rparr>,
     rs_action_quantity = 200000, rs_execution_identity = ''oat-reference-executor/0.1.0'',
     rs_baseline = vuln_a_baseline, rs_search_space = []\<rparr>"

definition vuln_a_rb :: rb_scenario where
  "vuln_a_rb = family_rb ''RB-001-VULN-A'' ''CHECK_ONCE_CACHED''"

definition control_rb :: rb_scenario where
  "control_rb = family_rb ''RB-001-CONTROL'' ''RECHECK_AT_COMMIT''"

lemma vuln_a_loads:
  "\<exists>p. load_scenario_package (lenient_host v) rb001_documents ''VULN-A.json'' = Inr p \<and> sp_scenario p = vuln_a_rb"
  by (simp add: load_scenario_package_def rb001_documents_def read_json_def lenient_host_def
      family_scenario_def vuln_a_authority_def rb001_family_def attr_get_def jget_or_def
      authority_input_from_dict_def rb_scenario_from_dict_def str_field_def int_field_def dict_index_def
      py_dict_def vuln_a_rb_def family_rb_def vuln_a_baseline_def ENFORCEMENT_PATHS_def Let_def catch_key_error_def
      ENFORCEMENT_CHECK_ONCE_CACHED_def Rb001.STATUS_ACTIVE_def)

lemma control_loads:
  "\<exists>p. load_scenario_package (lenient_host v) rb001_documents ''CONTROL.json'' = Inr p \<and> sp_scenario p = control_rb"
  by (simp add: load_scenario_package_def rb001_documents_def read_json_def lenient_host_def
      family_scenario_def vuln_a_authority_def rb001_family_def attr_get_def jget_or_def
      authority_input_from_dict_def rb_scenario_from_dict_def str_field_def int_field_def dict_index_def
      py_dict_def control_rb_def family_rb_def vuln_a_baseline_def ENFORCEMENT_PATHS_def Let_def catch_key_error_def
      ENFORCEMENT_RECHECK_AT_COMMIT_def Rb001.STATUS_ACTIVE_def)

lemma vuln_a_is_cex: "is_cex vuln_a_rb vuln_a_baseline"
  by (simp add: is_cex_def run_counterexample_eq commit_allowed_iff effective_status read_tick_def
      within_limit_def in_window_def vuln_a_rb_def family_rb_def vuln_a_baseline_def commit_tick_of_def
      ENFORCEMENT_CHECK_ONCE_CACHED_def ENFORCEMENT_STALE_PROPAGATION_def)

text \<open>The run whose only proposal is the scenario's baseline.\<close>

definition vuln_a_run :: "string \<Rightarrow> oat_run" where
  "vuln_a_run version = projr (run_pipeline (lenient_host version) rb001_documents ''scenarios/rb001/VULN-A.json''
     ''VULN-A.json'' [] (\<lambda>sc. [Inr (rs_baseline sc)]))"

lemma vuln_a_run_completes:
  "run_pipeline (lenient_host v) rb001_documents ''scenarios/rb001/VULN-A.json''
     ''VULN-A.json'' [] (\<lambda>sc. [Inr (rs_baseline sc)]) = Inr (vuln_a_run v)"
proof -
  obtain p where p: "load_scenario_package (lenient_host v) rb001_documents ''VULN-A.json'' = Inr p"
    using vuln_a_loads by blast
  have "\<exists>r. run_pipeline (lenient_host v) rb001_documents ''scenarios/rb001/VULN-A.json'' ''VULN-A.json'' []
      (\<lambda>sc. [Inr (rs_baseline sc)]) = Inr r"
    by (rule run_completes [OF p, where vs = "[rs_baseline (sp_scenario p)]" and schema_id = "''witness''"])
      (simp_all add: lenient_host_def str_field_def dict_index_def)
  then show ?thesis by (auto simp: vuln_a_run_def)
qed

lemma run_verdict_iff_witness:
  "says (Inr (or_result (vuln_a_run ''3.12''))) DISPOSITION_COUNTEREXAMPLE"
proof -
  obtain p where p: "load_scenario_package (lenient_host ''3.12'') rb001_documents ''VULN-A.json'' = Inr p"
    "sp_scenario p = vuln_a_rb"
    using vuln_a_loads by blast
  have "rs_baseline vuln_a_rb = vuln_a_baseline" by (simp add: vuln_a_rb_def family_rb_def)
  with run_verdict_iff [OF vuln_a_run_completes p(1), of "[vuln_a_baseline]"] p(2) show ?thesis
    by (simp add: vuln_a_is_cex) (simp add: lenient_host_def)
qed

lemma own_run_replays_witness:
  "\<exists>rr. replay_run (lenient_host ''3.13'') vuln_a_rb (or_manifest (vuln_a_run ''3.12''))
      (or_witness (vuln_a_run ''3.12'')) (or_result (vuln_a_run ''3.12'')) = Inr rr
    \<and> jget rr ''replay_ok'' = Some (JBool True)"
proof -
  obtain p where p: "load_scenario_package (lenient_host ''3.12'') rb001_documents ''VULN-A.json'' = Inr p"
    "sp_scenario p = vuln_a_rb"
    using vuln_a_loads by blast
  have "oe_validate (lenient_host ''3.12'') = oe_validate (lenient_host ''3.13'')" by (simp add: lenient_host_def)
  from own_run_replays [OF vuln_a_run_completes p(1) this] p(2) show ?thesis by auto
qed

lemma v1_host_independent_witness:
  "bindE (v1_verify (lenient_host ''3.12'') (or_witness (vuln_a_run ''3.12'')) (Some (or_manifest (vuln_a_run ''3.12''))) None)
       (\<lambda>r. Inr (canonical_bytes r))
     = bindE (v1_verify (lenient_host ''3.13'') (or_witness (vuln_a_run ''3.12'')) (Some (or_manifest (vuln_a_run ''3.12''))) None)
       (\<lambda>r. Inr (canonical_bytes r))"
  by (rule v1_host_independent) (simp add: lenient_host_def)

text \<open>What the run of a host records is confirmed there.\<close>

lemma vuln_a_run_confirmed:
  "\<exists>m trace d. jindex (or_witness (vuln_a_run x)) ''trace'' = Inr trace \<and> d \<noteq> DISPOSITION_REJECTED
    \<and> trace = execute vuln_a_rb vuln_a_baseline
    \<and> str_field (or_witness (vuln_a_run x)) ''trace_digest'' = Inr (digest_object trace)
    \<and> says (v1_verify (lenient_host x) (or_witness (vuln_a_run x)) (Some m) None) d"
proof -
  obtain p m v k ts w where parts: "load_scenario_package (lenient_host x) rb001_documents ''VULN-A.json'' = Inr p"
    "or_manifest (vuln_a_run x) = JObj m" "or_witness (vuln_a_run x) = JObj w"
    "search (sp_scenario p) [Inr (rs_baseline (sp_scenario p))]
       = Inr ((execute (sp_scenario p) v, evaluation_of (sp_scenario p) v, k), ts)"
    "build_witness (JObj m) (execute (sp_scenario p) v) (evaluation_of (sp_scenario p) v) [] ts (int k) = Inr w"
    "v1_verify (lenient_host x) (JObj w) (Some (JObj m)) None = Inr (or_result (vuln_a_run x))"
    "jindex (JObj m) ''scenario'' = Inr (JObj [(''id'', JStr (rs_scenario_id (sp_scenario p))),
       (''name'', JStr (sp_name p)), (''digest'', JStr (scenario_digest p)),
       (''enforcement_path'', JStr (rs_enforcement_path (sp_scenario p)))])"
    "jindex (JObj m) ''falsifier'' = Inr falsifier_identity"
    by (rule run_pipeline_parts [OF vuln_a_run_completes [of x]]) blast
  have sc: "sp_scenario p = vuln_a_rb" using parts(1) vuln_a_loads [of x] by auto
  have "execute vuln_a_rb v = execute vuln_a_rb vuln_a_baseline"
    using parts(4) [unfolded sc] vuln_a_is_cex
    by (simp add: search_def Let_def) (simp add: vuln_a_rb_def family_rb_def)
  note f = built_witness_fields(4,5) [OF parts(5,7,8), unfolded sc this]
  have "says (v1_verify (lenient_host x) (JObj w) (Some (JObj m)) None)
      (if is_cex (sp_scenario p) v then DISPOSITION_COUNTEREXAMPLE else DISPOSITION_NO_COUNTEREXAMPLE)"
    by (rule own_witness_says [OF parts(5,7,8)]) (simp_all add: lenient_host_def)
  moreover have "(if is_cex (sp_scenario p) v then DISPOSITION_COUNTEREXAMPLE else DISPOSITION_NO_COUNTEREXAMPLE)
      \<noteq> DISPOSITION_REJECTED" by simp
  ultimately show ?thesis using f parts(3) by fastforce
qed

text \<open>Two hosts, with different run manifests, confirm a trace with the same digest.\<close>

lemma v1_binds_trace_witness:
  "\<exists>trace trace'. jindex (or_witness (vuln_a_run ''3.12'')) ''trace'' = Inr trace
    \<and> jindex (or_witness (vuln_a_run ''3.13'')) ''trace'' = Inr trace'
    \<and> (canonical_form trace = canonical_form trace'
      \<or> sha256_collision (canonical_bytes trace) (canonical_bytes trace'))"
proof -
  obtain m t d where a: "jindex (or_witness (vuln_a_run ''3.12'')) ''trace'' = Inr t" "d \<noteq> DISPOSITION_REJECTED"
    "t = execute vuln_a_rb vuln_a_baseline"
    "str_field (or_witness (vuln_a_run ''3.12'')) ''trace_digest'' = Inr (digest_object t)"
    "says (v1_verify (lenient_host ''3.12'') (or_witness (vuln_a_run ''3.12'')) (Some m) None) d"
    using vuln_a_run_confirmed by blast
  obtain m' t' d' where b: "jindex (or_witness (vuln_a_run ''3.13'')) ''trace'' = Inr t'" "d' \<noteq> DISPOSITION_REJECTED"
    "t' = execute vuln_a_rb vuln_a_baseline"
    "str_field (or_witness (vuln_a_run ''3.13'')) ''trace_digest'' = Inr (digest_object t')"
    "says (v1_verify (lenient_host ''3.13'') (or_witness (vuln_a_run ''3.13'')) (Some m') None) d'"
    using vuln_a_run_confirmed by blast
  have "str_field (or_witness (vuln_a_run ''3.12'')) ''trace_digest''
      = str_field (or_witness (vuln_a_run ''3.13'')) ''trace_digest''"
    by (simp only: a(3,4) b(3,4))
  from v1_binds_trace [OF a(5) b(5) a(2) b(2) this a(1) b(1)] a(1) b(1) show ?thesis by blast
qed

end
