(* ===== verification/Checksums.thy ===== *)
theory Checksums
  imports Pipeline
begin

section \<open>The checksum file covers the run directory\<close>

text \<open>
  What \<open>verify_sha256sums\<close> decides about a directory, against a checksum file that
  \<open>write_sha256sums\<close> made of another (or of the same).
\<close>

lemma find_file_Some_iff:
  assumes "distinct (map fe_path files)"
  shows "find_file files n = Some f \<longleftrightarrow> f \<in> set files \<and> fe_path f = n"
  using assms by (induction files) (auto simp: rev_image_eqI)

definition covered :: "file_entry list \<Rightarrow> file_entry list" where
  "covered files = filter (\<lambda>f. fe_is_file f \<and> fe_path f \<noteq> SUMS_NAME) files"

text \<open>A file is intact in a directory when a file of its name there has its digest.\<close>

definition intact :: "file_entry list \<Rightarrow> file_entry \<Rightarrow> bool" where
  "intact files f \<longleftrightarrow> (\<exists>f'. find_file files (fe_path f) = Some f' \<and> fe_is_file f' \<and> digest_file f' = digest_file f)"

lemma sum_complaint_Nil_iff: "sum_complaint files (fe_path f, JStr (digest_file f)) = [] \<longleftrightarrow> intact files f"
  by (auto simp: sum_complaint_def intact_def py_eq_JStr split: option.splits)

lemma verify_sums_report:
  "\<exists>rep. verify_sha256sums files' (Some (JObj (sums_of files))) = Inr rep
    \<and> (sm_ok rep \<longleftrightarrow> (\<forall>f \<in> set (covered files). intact files' f))
    \<and> (sm_ok rep \<longleftrightarrow> sm_detail rep = []) \<and> sm_checked rep = length (covered files)"
proof -
  let ?rec = "map (\<lambda>f. (fe_path f, JStr (digest_file f)))
        (filter (\<lambda>f. fe_is_file f \<and> fe_path f \<noteq> SUMS_NAME) (sort_key fe_path files))"
  have "jindex (JObj (sums_of files)) ''files'' = Inr (JObj ?rec)"
    by (simp add: sums_of_def dict_index_def)
  then have e: "verify_sha256sums files' (Some (JObj (sums_of files)))
     = Inr \<lparr>sm_ok = (concat (map (sum_complaint files') (sort_key fst ?rec)) = []),
            sm_detail = concat (map (sum_complaint files') (sort_key fst ?rec)), sm_checked = length ?rec\<rparr>"
    by (simp add: verify_sha256sums_def py_dict_def Let_def)
  have s: "concat (map (sum_complaint files') (sort_key fst ?rec)) = [] \<longleftrightarrow> (\<forall>f \<in> set (covered files). intact files' f)"
    unfolding concat_eq_Nil_conv set_map set_sort ball_simps covered_def set_filter
    by (simp add: sum_complaint_Nil_iff [symmetric])
  have l: "length (filter (\<lambda>f. fe_is_file f \<and> fe_path f \<noteq> SUMS_NAME) (sort_key fe_path files)) = length (covered files)"
    by (simp add: covered_def filter_sort)
  show ?thesis by (subst e) (simp add: s [symmetric] l)
qed

text \<open>The checksum file of a run directory verifies against a directory exactly when every file it was
  made of is there under its name with the same bytes, unless two different contents collide
  under SHA-256. Files added later go unnoticed.\<close>

theorem checksums_verify_iff:
  assumes "distinct (map fe_path files')"
  shows "(\<exists>rep. verify_sha256sums files' (Some (JObj (sums_of files))) = Inr rep \<and> sm_ok rep)
    \<longleftrightarrow> (\<forall>f \<in> set (covered files). \<exists>f' \<in> set files'. fe_path f' = fe_path f \<and> fe_is_file f'
         \<and> (fe_content f' = fe_content f \<or> sha256_collision (fe_content f') (fe_content f)))"
proof -
  have "intact files' f \<longleftrightarrow> (\<exists>f' \<in> set files'. fe_path f' = fe_path f \<and> fe_is_file f'
         \<and> (fe_content f' = fe_content f \<or> sha256_collision (fe_content f') (fe_content f)))" for f
    by (auto simp: intact_def find_file_Some_iff [OF assms] file_seal.seal_iff sha256_collision_def)
  with verify_sums_report [of files' files] show ?thesis by auto
qed

definition demo_directory :: "string \<Rightarrow> file_entry list" where
  "demo_directory content = [
     \<lparr>fe_path = ''witness.json'', fe_is_file = True, fe_content = content\<rparr>,
     \<lparr>fe_path = ''SHA256SUMS.json'', fe_is_file = True, fe_content = ''{}''\<rparr>]"

lemma checksums_verify_iff_witness:
  "\<exists>rep. verify_sha256sums (demo_directory ''x'') (Some (JObj (sums_of (demo_directory ''x'')))) = Inr rep \<and> sm_ok rep"
proof -
  have "distinct (map fe_path (demo_directory ''x''))" by (simp add: demo_directory_def)
  from checksums_verify_iff [OF this, of "demo_directory ''x''"] show ?thesis
    by (auto simp: covered_def)
qed

end
