(* ===== verification/Dry_Run.thy ===== *)
theory Dry_Run
  imports Pipeline Adversaries
begin

section \<open>The synthetic dry run\<close>

text \<open>
  \<open>oat/dryrun.py\<close>: two scenarios run with a scripted provider, five adjudications of their
  results and the report. Whether the run directory is written, and therefore replayed, is the
  last argument; the replay reads what the run just recorded.
\<close>

definition DRYRUN_SCOPE :: trial_scope where
  "DRYRUN_SCOPE = \<lparr>ts_property_ids = [''RB001-P1''], ts_families = [''ATTACK-FAMILY-01'']\<rparr>"

definition SCRIPTED_CANDIDATES :: string where
  "SCRIPTED_CANDIDATES = ''10,20,21'' @ [CHR 0x0A] @ ''5,20,17'' @ [CHR 0x0A] @ ''not,a,variation'' @ [CHR 0x0A]"

definition scripted_adversary :: provider_adversary where
  "scripted_adversary = \<lparr>pa_transport = ScriptedTransport [SCRIPTED_CANDIDATES] 0, pa_config = [
     (''model'', JStr ''NOT_EXPOSED_BY_PROVIDER''), (''endpoint'', JStr ''NOT_EXPOSED_BY_PROVIDER''),
     (''note'', JStr ''offline scripted transport; no provider contacted'')]\<rparr>"

definition scripted_run :: "oat_env \<Rightarrow> documents \<Rightarrow> string \<Rightarrow> string \<Rightarrow> oat_run res" where
  "scripted_run env docs path name =
     run_pipeline env docs path name (provider_identity scripted_adversary)
       (\<lambda>sc. snd (provider_propose scripted_adversary sc))"

definition check_entry :: "string \<Rightarrow> json \<Rightarrow> json \<Rightarrow> bool \<Rightarrow> json" where
  "check_entry name expected observed passed =
     JObj [(''check'', JStr name), (''expected'', expected), (''observed'', observed), (''passed'', JBool passed)]"

text \<open>One adjudication, its disposition compared with the expected one.\<close>

definition adjudication_check ::
  "string \<Rightarrow> trial_disposition \<Rightarrow> json res \<Rightarrow> (json \<times> bool \<times> json) res" where
  "adjudication_check name expected adj =
     bindE adj (\<lambda>a. bindE (jindex a ''disposition'') (\<lambda>d.
       let passed = py_eq d (JStr (trial_disposition_str expected)) in
       Inr (check_entry name (JStr (trial_disposition_str expected)) d passed, passed, a)))"

definition false_assertion_check :: "json res \<Rightarrow> (json \<times> bool \<times> json) res" where
  "false_assertion_check adj =
     bindE (adjudication_check ''false_assertion_refused'' NOT_A_COUNTEREXAMPLE adj) (\<lambda>(_, passed, a).
     bindE (jindex a ''disposition'') (\<lambda>d.
     bindE (if passed then bindE (jindex a ''adversary_assertion'') (\<lambda>s. jindex s ''claimed_violation'')
            else Inr (JBool False)) (\<lambda>c.
       let ok = (c = JBool True) in
       Inr (check_entry ''false_assertion_refused'' (JStr (trial_disposition_str NOT_A_COUNTEREXAMPLE)) d ok, ok, a))))"

definition run_dry_run ::
  "oat_env \<Rightarrow> documents \<Rightarrow> string \<times> string \<Rightarrow> string \<times> string \<Rightarrow> bool \<Rightarrow> json res" where
  "run_dry_run env docs vuln control written =
     bindE (scripted_run env docs (fst vuln) (snd vuln)) (\<lambda>run.
     bindE (if written then
              bindE (load_scenario_package env docs (snd vuln)) (\<lambda>p.
                bindE (replay_run env (sp_scenario p) (or_manifest run) (or_witness run) (or_result run)) (\<lambda>r. Inr (Some r)))
            else Inr None) (\<lambda>replay.
       let honest = assert_finding scripted_adversary ''DRYRUN-A'' ''RB001-P1'' True
             ''cached decision survives revocation'' in
       bindE (adjudication_check ''validated_counterexample'' COUNTEREXAMPLE_VALIDATED
          (trial_adjudicate honest [or_result run] DRYRUN_SCOPE None)) (\<lambda>(c1, p1, _).
       bindE (scripted_run env docs (fst control) (snd control)) (\<lambda>ctl.
       bindE (false_assertion_check (trial_adjudicate (assert_finding scripted_adversary ''DRYRUN-B'' ''RB001-P1'' True
          ''asserting a violation the trace does not support'') [or_result ctl] DRYRUN_SCOPE None)) (\<lambda>(c2, p2, _).
       bindE (adjudication_check ''out_of_scope_refused'' OUTSIDE_SCOPE (trial_adjudicate
          (assert_finding scripted_adversary ''DRYRUN-C'' ''NOT-DECLARED'' True ''undeclared property'')
          [or_result run] DRYRUN_SCOPE None)) (\<lambda>(c3, p3, _).
       bindE (adjudication_check ''verifier_conflict_surfaced'' VERIFIER_CONFLICT
          (trial_adjudicate honest [or_result run, or_result ctl] DRYRUN_SCOPE None)) (\<lambda>(c4, p4, _).
       bindE (adjudication_check ''coverage_limited_when_budget_exhausted'' COVERAGE_LIMITED (trial_adjudicate
          (assert_finding scripted_adversary ''DRYRUN-E'' ''RB001-P1'' False ''no finding'') [or_result ctl] DRYRUN_SCOPE
          (Some \<lparr>bs_attempts_used = 10, bs_attempts_allowed = 10, bs_families_attempted = []\<rparr>))) (\<lambda>(c5, p5, _).
         let live = provider_run_occurred scripted_adversary;
             c6 = check_entry ''no_provider_run_claimed'' (JBool False) (JBool live) (\<not> live) in
         bindE (jindex (or_witness run) ''search'') (\<lambda>s. bindE (jindex s ''candidates_explored'') (\<lambda>explored.
         bindE (jindex (or_result run) ''disposition'') (\<lambda>vd. bindE (jindex (or_result run) ''evidence_digest'') (\<lambda>ve.
         bindE (case replay of None \<Rightarrow> Inr JNull | Some r \<Rightarrow> jindex r ''replay_ok'') (\<lambda>rok.
           Inr (JObj [
             (''dryrun_form'', JStr ''oat-dryrun-report/1''),
             (''run_mode'', JStr RUN_MODE),
             (''claim_bearing_use'', JStr CLAIM_BEARING_USE),
             (''target'', JStr ''synthetic RB-001 reference boundary''),
             (''veip_subject_exposed'', JBool False),
             (''provider_run_occurred'', JBool live),
             (''transport'', JStr (transport_name (pa_transport scripted_adversary))),
             (''adversary_identity'', JObj (provider_identity scripted_adversary)),
             (''pipeline'', JObj [(''candidates_captured'', explored), (''verifier_disposition'', vd),
                (''evidence_digest'', ve), (''replay_ok'', rok)]),
             (''checks'', JList [c1, c2, c3, c4, c5, c6]),
             (''dryrun_ok'', JBool (list_all (\<lambda>p. p) [p1, p2, p3, p4, p5, \<not> live]))]))))))))))))))"


subsection \<open>What the dry run shows\<close>

definition scripted_variations :: "variation list" where
  "scripted_variations = [
     \<lparr>va_check_tick = 10, va_revocation_tick = 20, va_commit_tick = 21, va_propagation_delay = 0,
      va_retry_index = 0, va_duplicate_request = False\<rparr>,
     \<lparr>va_check_tick = 5, va_revocation_tick = 20, va_commit_tick = 17, va_propagation_delay = 0,
      va_retry_index = 0, va_duplicate_request = False\<rparr>]"

lemma scripted_response: "parse_response SCRIPTED_CANDIDATES = scripted_variations"
  by code_simp

lemma scripted_proposals: "snd (provider_propose scripted_adversary sc) = map Inr scripted_variations"
  by (simp add: provider_propose_def scripted_adversary_def transport_complete_def scripted_response)

lemma run_result_ok:
  assumes "run_pipeline env docs path name adversary propose = Inr r"
  shows "result_ok (or_result r)"
    "says (Inr (or_result r)) d \<Longrightarrow> result_disposition (or_result r) = d"
    "\<exists>x. jindex (or_result r) ''disposition'' = Inr x"
    "\<exists>x. jindex (or_result r) ''evidence_digest'' = Inr x"
    "\<exists>s x. jindex (or_witness r) ''search'' = Inr s \<and> jindex s ''candidates_explored'' = Inr x"
proof -
  obtain p m v k ts w where r: "or_manifest r = JObj m" "or_witness r = JObj w"
    and parts: "build_witness (JObj m) (execute (sp_scenario p) v) (evaluation_of (sp_scenario p) v) adversary ts (int k) = Inr w"
    "v1_verify env (JObj w) (Some (JObj m)) None = Inr (or_result r)"
    "jindex (JObj m) ''scenario'' = Inr (JObj [(''id'', JStr (rs_scenario_id (sp_scenario p))),
       (''name'', JStr (sp_name p)), (''digest'', JStr (scenario_digest p)),
       (''enforcement_path'', JStr (rs_enforcement_path (sp_scenario p)))])"
    "jindex (JObj m) ''falsifier'' = Inr falsifier_identity"
    by (rule run_pipeline_parts [OF assms]) blast
  from agree_verify [OF refl, of env "JObj w" "Some (JObj m)" None] parts(2) obtain d' q where
    q: "v1_result env d' (JObj w) q = Inr (or_result r)"
    by (auto simp: agree_def)
  note f = v1_result_fields [OF q]
  have a: "attr_get (or_result r) ''rejection_reason'' JNull = Inr (JOptStr (vp_rejection q))"
    using f(6) [unfolded jindex_Inr_iff] jindex_Inr_JObj [OF f(6)] by (simp add: attr_get_def jget_or_def)
  show "result_ok (or_result r)"
    using f a by (simp add: result_ok_def verifier_entry_def str_field_def)
  show "result_disposition (or_result r) = d" if "says (Inr (or_result r)) d"
    using that f(1) [unfolded jindex_Inr_iff] f(1) by (simp add: says_def result_disposition_def str_field_def)
  show "\<exists>x. jindex (or_result r) ''disposition'' = Inr x" "\<exists>x. jindex (or_result r) ''evidence_digest'' = Inr x"
    using f by blast+
  have "jindex (JObj [(''candidates_explored'', JInt (int (length ts))), (''selected_candidate_index'', JInt (int k)),
            (''transcript'', JList ts)]) ''candidates_explored'' = Inr (JInt (int (length ts)))"
    by (simp add: dict_index_def)
  with built_witness_fields(8) [OF parts(1,3,4)] r(2)
  show "\<exists>s x. jindex (or_witness r) ''search'' = Inr s \<and> jindex s ''candidates_explored'' = Inr x"
    by (simp only:) blast
qed

lemma adjudicated_claim:
  assumes "trial_adjudicate a rs scope b = Inr r"
  shows "bindE (jindex r ''adversary_assertion'') (\<lambda>s. jindex s ''claimed_violation'') = Inr (JBool (aa_claimed_violation a))"
proof -
  from assms obtain d why where "trial_record a rs d why b scope = Inr r"
    unfolding trial_adjudicate_def Let_def
    by (auto simp only: bindE_Inr_iff sum.simps case_prod_beta split: if_splits)
  then show ?thesis by (auto simp: trial_record_def bindE_Inr_iff dict_index_def assertion_dict_def Let_def)
qed

lemma check_result:
  assumes "adjudicated adj d"
  shows "\<exists>c a. adj = Inr a \<and> adjudication_check name e adj = Inr (c, d = e, a)"
  using assms by (auto simp: adjudicated_def adjudication_check_def jindex_Inr_iff [symmetric] Let_def py_eq_JStr)

lemma false_check_result:
  assumes "adjudicated (trial_adjudicate a rs scope b) d" "aa_claimed_violation a"
  shows "\<exists>c x. false_assertion_check (trial_adjudicate a rs scope b) = Inr (c, d = NOT_A_COUNTEREXAMPLE, x)"
proof -
  obtain c r where r: "trial_adjudicate a rs scope b = Inr r"
    "adjudication_check ''false_assertion_refused'' NOT_A_COUNTEREXAMPLE (trial_adjudicate a rs scope b)
      = Inr (c, d = NOT_A_COUNTEREXAMPLE, r)"
    using check_result [OF assms(1)] by blast
  have "jindex r ''disposition'' = Inr (JStr (trial_disposition_str d))"
    using assms(1) r(1) by (simp add: adjudicated_def jindex_Inr_iff)
  with adjudicated_claim [OF r(1)] r(2) assms(2) show ?thesis
    by (simp add: false_assertion_check_def Let_def)
qed


text \<open>The dry run measures what it says: on a host whose schemas accept the documents, with two
  scenarios that load, it completes, and it reports success exactly when one of the scripted
  candidates breaks the vulnerable scenario and none of them breaks the control.\<close>

theorem dry_run_ok_iff:
  assumes "load_scenario_package env docs (snd vuln) = Inr p" "load_scenario_package env docs (snd control) = Inr c"
    and "\<forall>x s. oe_validate env x s = []" "str_field (JObj (oe_witness_schema env)) ''$id'' = Inr schema_id"
  shows "\<exists>rep. run_dry_run env docs vuln control written = Inr rep
    \<and> jget rep ''dryrun_ok'' = Some (JBool (list_ex (is_cex (sp_scenario p)) scripted_variations
        \<and> \<not> list_ex (is_cex (sp_scenario c)) scripted_variations))"
proof -
  have ne: "scripted_variations \<noteq> []" by (simp add: scripted_variations_def)
  let ?A = "provider_identity scripted_adversary" and ?P = "\<lambda>sc. snd (provider_propose scripted_adversary sc)"
  have run: "\<exists>r. scripted_run env docs path name = Inr r"
    if "load_scenario_package env docs name = Inr q" for path name q
    unfolding scripted_run_def using assms(3)
    by (intro run_completes [OF that scripted_proposals ne assms(4)]) simp
  obtain r where r: "scripted_run env docs (fst vuln) (snd vuln) = Inr r" using run [OF assms(1)] by blast
  obtain k where k: "scripted_run env docs (fst control) (snd control) = Inr k" using run [OF assms(2)] by blast
  note rr = r [unfolded scripted_run_def] and kk = k [unfolded scripted_run_def]
  let ?v = "list_ex (is_cex (sp_scenario p)) scripted_variations"
  let ?c = "list_ex (is_cex (sp_scenario c)) scripted_variations"
  let ?D = "\<lambda>b. if b then DISPOSITION_COUNTEREXAMPLE else DISPOSITION_NO_COUNTEREXAMPLE"
  have "says (Inr (or_result r)) (?D ?v)"
    by (rule run_verdict_says [OF rr assms(1) scripted_proposals ne]) (use assms(3) in simp_all)
  moreover have "says (Inr (or_result k)) (?D ?c)"
    by (rule run_verdict_says [OF kk assms(2) scripted_proposals ne]) (use assms(3) in simp_all)
  ultimately have d: "result_disposition (or_result r) = ?D ?v" "result_disposition (or_result k) = ?D ?c"
    using run_result_ok(2) [OF rr] run_result_ok(2) [OF kk] by simp_all
  note ok = run_result_ok(1) [OF rr] run_result_ok(1) [OF kk]
  let ?adj = "\<lambda>attack pid claimed hyp rs b. trial_adjudicate (assert_finding scripted_adversary attack pid claimed hyp) rs DRYRUN_SCOPE b"
  have adj: "adjudicated (?adj attack pid claimed hyp rs b)
      (trial_spec (assert_finding scripted_adversary attack pid claimed hyp) rs DRYRUN_SCOPE b)"
    if "rs \<noteq> []" "set rs \<subseteq> {or_result r, or_result k}" for attack pid claimed hyp rs b
    using that ok by (subst adjudicated_spec) auto
  let ?sp = "\<lambda>attack pid claimed hyp rs b. trial_spec (assert_finding scripted_adversary attack pid claimed hyp) rs DRYRUN_SCOPE b"
  have chk: "\<exists>c a. adjudication_check name e (?adj attack pid claimed hyp rs b) = Inr (c, ?sp attack pid claimed hyp rs b = e, a)"
    if "rs \<noteq> []" "set rs \<subseteq> {or_result r, or_result k}" for name e attack pid claimed hyp rs b
    using check_result [OF adj [OF that]] by blast
  note in_scope = assert_finding_def DRYRUN_SCOPE_def trial_spec_def d
  have s1: "(?sp attack ''RB001-P1'' cl hyp [or_result r] None = COUNTEREXAMPLE_VALIDATED) = ?v" for attack cl hyp
    by (simp add: in_scope)
  have s2: "(?sp attack ''RB001-P1'' cl hyp [or_result k] None = NOT_A_COUNTEREXAMPLE) = (\<not> ?c)" for attack cl hyp
    by (simp add: in_scope)
  have s3: "(?sp attack ''NOT-DECLARED'' cl hyp [or_result r] None = OUTSIDE_SCOPE) = True" for attack cl hyp
    by (simp add: in_scope)
  have s4: "(?sp attack ''RB001-P1'' cl hyp [or_result r, or_result k] None = VERIFIER_CONFLICT) = (?v \<noteq> ?c)" for attack cl hyp
    by (simp add: in_scope)
  have s5: "(?sp attack ''RB001-P1'' cl hyp [or_result k] (Some \<lparr>bs_attempts_used = 10, bs_attempts_allowed = 10,
      bs_families_attempted = []\<rparr>) = COVERAGE_LIMITED) = (\<not> ?c)" for attack cl hyp
    by (simp add: in_scope)
  have rs: "[or_result r] \<noteq> []" "set [or_result r] \<subseteq> {or_result r, or_result k}"
    "[or_result k] \<noteq> []" "set [or_result k] \<subseteq> {or_result r, or_result k}"
    "[or_result r, or_result k] \<noteq> []" "set [or_result r, or_result k] \<subseteq> {or_result r, or_result k}" by simp_all
  obtain c1 a1 where 1: "adjudication_check ''validated_counterexample'' COUNTEREXAMPLE_VALIDATED
      (?adj ''DRYRUN-A'' ''RB001-P1'' True ''cached decision survives revocation'' [or_result r] None) = Inr (c1, ?v, a1)"
    using chk [OF rs(1,2), where e = COUNTEREXAMPLE_VALIDATED and pid = "''RB001-P1''" and b = None,
        unfolded s1] by blast
  have "aa_claimed_violation (assert_finding scripted_adversary ''DRYRUN-B'' ''RB001-P1'' True hyp)" for hyp
    by (simp add: assert_finding_def)
  from false_check_result [OF adj [OF rs(3,4), where b = None] this, unfolded s2]
  obtain c2 a2 where 2: "false_assertion_check
      (?adj ''DRYRUN-B'' ''RB001-P1'' True ''asserting a violation the trace does not support'' [or_result k] None)
      = Inr (c2, \<not> ?c, a2)" by blast
  obtain c3 a3 where 3: "adjudication_check ''out_of_scope_refused'' OUTSIDE_SCOPE
      (?adj ''DRYRUN-C'' ''NOT-DECLARED'' True ''undeclared property'' [or_result r] None) = Inr (c3, True, a3)"
    using chk [OF rs(1,2), where e = OUTSIDE_SCOPE and pid = "''NOT-DECLARED''" and b = None,
        unfolded s3] by blast
  obtain c4 a4 where 4: "adjudication_check ''verifier_conflict_surfaced'' VERIFIER_CONFLICT
      (?adj ''DRYRUN-A'' ''RB001-P1'' True ''cached decision survives revocation'' [or_result r, or_result k] None)
      = Inr (c4, ?v \<noteq> ?c, a4)"
    using chk [OF rs(5,6), where e = VERIFIER_CONFLICT and pid = "''RB001-P1''" and b = None,
        unfolded s4] by blast
  obtain c5 a5 where 5: "adjudication_check ''coverage_limited_when_budget_exhausted'' COVERAGE_LIMITED
      (?adj ''DRYRUN-E'' ''RB001-P1'' False ''no finding'' [or_result k]
        (Some \<lparr>bs_attempts_used = 10, bs_attempts_allowed = 10, bs_families_attempted = []\<rparr>)) = Inr (c5, \<not> ?c, a5)"
    using chk [OF rs(3,4), where e = COVERAGE_LIMITED and pid = "''RB001-P1''" and b = "Some \<lparr>bs_attempts_used = 10, bs_attempts_allowed = 10, bs_families_attempted = []\<rparr>",
        unfolded s5] by blast
  from own_run_replays_ok [OF rr assms(1) refl] obtain rep where
    rep: "replay_run env (sp_scenario p) (or_manifest r) (or_witness r) (or_result r) = Inr rep"
    "jget rep ''replay_ok'' = Some (JBool True)" by blast
  obtain s e where s: "jindex (or_witness r) ''search'' = Inr s" "jindex s ''candidates_explored'' = Inr e"
    using run_result_ok(5) [OF rr] by blast
  obtain x where x: "jindex (or_result r) ''disposition'' = Inr x" using run_result_ok(3) [OF rr] by blast
  obtain y where y: "jindex (or_result r) ''evidence_digest'' = Inr y" using run_result_ok(4) [OF rr] by blast
  have live: "provider_run_occurred scripted_adversary = False"
    by (simp add: provider_run_occurred_def scripted_adversary_def transport_is_live_def)
  have pairs: "list_all (\<lambda>p. p) [?v, \<not> ?c, True, ?v \<noteq> ?c, \<not> ?c, \<not> False] = (?v \<and> \<not> ?c)" by auto
  show ?thesis
    unfolding run_dry_run_def r k assms(1) rep bindE_simps Let_def 1 2 3 4 5 prod.case s x y live pairs
    using rep(2) by (cases written) (simp_all add: rep(1) jindex_Inr_iff [THEN iffD2, OF rep(2)])
qed


lemma scripted_on_family:
  "list_ex (is_cex vuln_a_rb) scripted_variations" "\<not> list_ex (is_cex control_rb) scripted_variations"
  by (simp_all add: is_cex_def run_counterexample_eq commit_allowed_iff effective_status read_tick_def
      within_limit_def in_window_def vuln_a_rb_def control_rb_def family_rb_def commit_tick_of_def scripted_variations_def
      ENFORCEMENT_CHECK_ONCE_CACHED_def ENFORCEMENT_STALE_PROPAGATION_def)

lemma dry_run_ok_iff_witness:
  "\<exists>rep. run_dry_run (lenient_host ''3.12'') rb001_documents (''scenarios/rb001/VULN-A.json'', ''VULN-A.json'')
      (''scenarios/rb001/CONTROL.json'', ''CONTROL.json'') True = Inr rep
    \<and> jget rep ''dryrun_ok'' = Some (JBool True)"
proof -
  let ?e = "lenient_host ''3.12''"
  obtain p where p: "load_scenario_package ?e rb001_documents ''VULN-A.json'' = Inr p" "sp_scenario p = vuln_a_rb"
    using vuln_a_loads by blast
  obtain c where c: "load_scenario_package ?e rb001_documents ''CONTROL.json'' = Inr c" "sp_scenario c = control_rb"
    using control_loads by blast
  have v: "\<forall>x s. oe_validate ?e x s = []" "str_field (JObj (oe_witness_schema ?e)) ''$id'' = Inr ''witness''"
    by (simp_all add: lenient_host_def str_field_def dict_index_def)
  have n: "snd (''scenarios/rb001/VULN-A.json'', ''VULN-A.json'') = ''VULN-A.json''"
    "snd (''scenarios/rb001/CONTROL.json'', ''CONTROL.json'') = ''CONTROL.json''" by simp_all
  note r = dry_run_ok_iff [of ?e rb001_documents "(''scenarios/rb001/VULN-A.json'', ''VULN-A.json'')" p
      "(''scenarios/rb001/CONTROL.json'', ''CONTROL.json'')" c "''witness''" True, unfolded n, OF p(1) c(1) v]
  have b: "(list_ex (is_cex (sp_scenario p)) scripted_variations
      \<and> \<not> list_ex (is_cex (sp_scenario c)) scripted_variations) = True"
    using scripted_on_family p(2) c(2) by simp
  show ?thesis using r unfolding b .
qed

end
