(* ===== verification/Host_Sink.thy ===== *)
theory Host_Sink
  imports Consequence_Verdict
begin

section \<open>The host with its durable ledger\<close>

text \<open>
  \<open>oat/integration/host_sink.py\<close>: the SQLite ledger with its primary key and its unique
  idempotency key, the observer's tables, the guarded and the hidden entry, the evidence handed
  to the verifier and the reference integration. Tables are lists of rows in the order of
  insertion; a statement that violates a constraint raises \<open>IntegrityError\<close> and leaves the
  table as it was, an integer outside 64 bits raises \<open>OverflowError\<close> when it is bound.
\<close>

definition ROUTE_HTTP_GUARDED :: string where "ROUTE_HTTP_GUARDED = ''route.http-guarded''"
definition ROUTE_QUEUE_WORKER :: string where "ROUTE_QUEUE_WORKER = ''route.queue-worker''"
definition ROUTE_HIDDEN_BATCH :: string where "ROUTE_HIDDEN_BATCH = ''route.hidden-batch''"

definition HOST_DECLARED_PATHS :: path_inventory where
  "HOST_DECLARED_PATHS = [
     \<lparr>dp_route_id = ROUTE_HTTP_GUARDED, dp_description = ''guarded synchronous payment endpoint'', dp_guarded = True\<rparr>,
     \<lparr>dp_route_id = ROUTE_QUEUE_WORKER, dp_description = ''guarded async queue/worker endpoint'', dp_guarded = True\<rparr>]"

record host_decision =
  hd_outcome :: string
  hd_reason :: string
  hd_commit_id :: "string option"
  hd_failed_dimensions :: "string list"

definition decision :: "string \<Rightarrow> string \<Rightarrow> string option \<Rightarrow> string list \<Rightarrow> host_decision" where
  "decision x reason k failed = \<lparr>hd_outcome = x, hd_reason = reason, hd_commit_id = k, hd_failed_dimensions = failed\<rparr>"

definition host_decision_dict :: "host_decision \<Rightarrow> json" where
  "host_decision_dict d = JObj [(''outcome'', JStr (hd_outcome d)), (''reason'', JStr (hd_reason d)),
     (''commit_id'', JOptStr (hd_commit_id d)), (''failed_dimensions'', JStrs (hd_failed_dimensions d))]"

subsection \<open>The ledger\<close>

definition sql_integer :: "int \<Rightarrow> bool" where
  "sql_integer i \<longleftrightarrow> - (2 ^ 63) \<le> i \<and> i < 2 ^ 63"

record ledger_row =
  lr_event :: commit_event
  lr_token :: "string option"

text \<open>The action is stored as JSON text with sorted keys and parsed again when it is read.\<close>

definition stored_action :: "action \<Rightarrow> action" where
  "stored_action a = jitems (nf (JObj a))"

definition stored_event :: "commit_event \<Rightarrow> commit_event" where
  "stored_event c = c\<lparr>ce_normalized_action := stored_action (ce_normalized_action c)\<rparr>"

definition idempotency_seen :: "ledger_row list \<Rightarrow> string \<Rightarrow> bool" where
  "idempotency_seen ledger key \<longleftrightarrow> list_ex (\<lambda>r. ce_idempotency_key (lr_event r) = key) ledger"

definition ledger_commit :: "ledger_row list \<Rightarrow> commit_event \<Rightarrow> string option \<Rightarrow> ledger_row list res" where
  "ledger_commit ledger event token =
     (if \<not> sql_integer (ce_committed_at event) then Inl OverflowError
      else if list_ex (\<lambda>r. ce_commit_id (lr_event r) = ce_commit_id event) ledger then
        Inl (IntegrityError ''ledger_commits.commit_id'')
      else if list_ex (\<lambda>r. ce_idempotency_key (lr_event r) = ce_idempotency_key event) ledger then
        Inl (IntegrityError ''ledger_commits.idempotency_key'')
      else Inr (ledger @ [\<lparr>lr_event = stored_event event, lr_token = token\<rparr>]))"

text \<open>\<open>ORDER BY committed_at, commit_id\<close>, by two stable sorts.\<close>

definition ledger_commits :: "ledger_row list \<Rightarrow> commit_event list" where
  "ledger_commits ledger = sort_key ce_committed_at (sort_key ce_commit_id (map lr_event ledger))"

definition token_digests :: "ledger_row list \<Rightarrow> (string, string) dict" where
  "token_digests ledger = map (\<lambda>r. (ce_commit_id (lr_event r), the (lr_token r)))
     (filter (\<lambda>r. lr_token r \<noteq> None) ledger)"

subsection \<open>The observer\<close>

record observer =
  ob_receipts :: "consequence_receipt list"
  ob_routes :: "route_observation list"

definition record_arrival :: "observer \<Rightarrow> string \<Rightarrow> int \<Rightarrow> bool \<Rightarrow> bool \<Rightarrow> string option \<Rightarrow> observer res" where
  "record_arrival ob route_id tick admitted committed commit_id =
     (if \<not> sql_integer tick then Inl OverflowError
      else Inr (ob\<lparr>ob_routes := ob_routes ob @ [\<lparr>ro_route_id = route_id, ro_observed_at = tick,
             ro_admitted = admitted, ro_committed = committed, ro_commit_id = commit_id\<rparr>]\<rparr>))"

definition host_receipt :: "commit_event \<Rightarrow> consequence_receipt" where
  "host_receipt c = \<lparr>cr_receipt_id = ''receipt-'' @ ce_commit_id c, cr_commit_id = ce_commit_id c,
     cr_sink_id = ce_sink_id c, cr_route_id = ce_route_id c, cr_observed_at = ce_committed_at c,
     cr_action_digest = ce_action_digest c, cr_observer = ''sqlite-independent-observer''\<rparr>"

definition insert_receipt :: "observer \<Rightarrow> commit_event \<Rightarrow> observer res" where
  "insert_receipt ob c =
     (if \<not> sql_integer (ce_committed_at c) then Inl OverflowError
      else if list_ex (\<lambda>r. cr_receipt_id r = cr_receipt_id (host_receipt c)) (ob_receipts ob) then
        Inl (IntegrityError ''receipts.receipt_id'')
      else Inr (ob\<lparr>ob_receipts := ob_receipts ob @ [host_receipt c]\<rparr>))"

definition observer_receipts :: "observer \<Rightarrow> consequence_receipt list" where
  "observer_receipts ob = sort_key cr_observed_at (sort_key cr_receipt_id (ob_receipts ob))"

text \<open>\<open>SELECT route_id, COUNT(*), SUM(committed) ... GROUP BY route_id ORDER BY route_id\<close>.\<close>

definition observer_paths :: "observer \<Rightarrow> observed_path list" where
  "observer_paths ob =
     map (\<lambda>k. let rows = filter (\<lambda>r. ro_route_id r = k) (ob_routes ob) in
            \<lparr>op_route_id = k, op_arrivals = int (length rows),
             op_commits = sum_list (map (\<lambda>r. if ro_committed r then 1 else 0) rows)\<rparr>)
       (sorted_set (map ro_route_id (ob_routes ob)))"

subsection \<open>The integration\<close>

record host =
  ho_sink :: protected_sink
  ho_authority :: authority_store
  ho_issuer :: issuer
  ho_ledger :: "ledger_row list"
  ho_observer :: observer
  ho_authorizations :: "(string, authorization) dict"

definition new_host :: "protected_sink \<Rightarrow> authority_store \<Rightarrow> issuer \<Rightarrow> host" where
  "new_host sink authority i = \<lparr>ho_sink = sink, ho_authority = authority, ho_issuer = i, ho_ledger = [],
     ho_observer = \<lparr>ob_receipts = [], ob_routes = []\<rparr>, ho_authorizations = []\<rparr>"

definition register :: "host \<Rightarrow> authorization \<Rightarrow> host" where
  "register h a = h\<lparr>ho_authorizations := dict_set (au_authorization_id a) a (ho_authorizations h)\<rparr>"

text \<open>\<open>self.authorizations.get(auth_id) if auth_id else None\<close>; a list or a dictionary cannot be hashed.\<close>

definition find_authorization :: "host \<Rightarrow> json \<Rightarrow> authorization option res" where
  "find_authorization h auth_id =
     (if \<not> truthy auth_id then Inr None
      else (case auth_id of
          JStr k \<Rightarrow> Inr (dict_get (ho_authorizations h) k)
        | JList _ \<Rightarrow> Inl (TypeError ''unhashable'')
        | JObj _ \<Rightarrow> Inl (TypeError ''unhashable'')
        | _ \<Rightarrow> Inr None))"

text \<open>
  \<open>dict(payload["action"])\<close>: an object, or a list of pairs, where a later pair replaces an earlier
  one. A pair is a list of two, a string of two characters or an object with two keys. A key that is
  not a string, which Python would keep if it can be hashed, is refused.
\<close>

function points :: "string \<Rightarrow> string list" where
  "points [] = []"
| "points (c # s) = (c # takeWhile (\<lambda>x. 128 \<le> (of_char x :: nat) \<and> (of_char x :: nat) < 192) s) # points (dropWhile (\<lambda>x. 128 \<le> (of_char x :: nat) \<and> (of_char x :: nat) < 192) s)"
  by pat_completeness auto
termination by (relation "measure length") (simp_all add: le_imp_less_Suc length_dropWhile_le)

fun pair_of :: "json \<Rightarrow> (string \<times> json) res" where
  "pair_of (JList [JStr k, v]) = Inr (k, v)"
| "pair_of (JList [k, v]) = Inl (TypeError ''dict key'')"
| "pair_of (JList vs) = Inl (ValueError ''dictionary update sequence element'')"
| "pair_of (JStr s) = (case points s of [a, b] \<Rightarrow> Inr (a, JStr b) | _ \<Rightarrow> Inl (ValueError ''dictionary update sequence element''))"
| "pair_of (JObj [(k, v), (k', v')]) = Inr (k, JStr k')"
| "pair_of (JObj kvs) = Inl (ValueError ''dictionary update sequence element'')"
| "pair_of _ = Inl (TypeError ''dictionary update sequence element'')"

definition action_dict :: "json \<Rightarrow> action res" where
  "action_dict v = (case v of
       JList vs \<Rightarrow> bindE (mapE pair_of vs) (\<lambda>kvs. Inr (foldl (\<lambda>d (k, x). dict_set k x d) [] kvs))
     | JStr (c # s) \<Rightarrow> Inl (ValueError ''dictionary update sequence element'')
     | _ \<Rightarrow> py_dict v)"

lemma action_dict_JObj [simp]: "action_dict (JObj kvs) = Inr kvs"
  by (simp add: action_dict_def)

type_synonym request = "commit_event \<times> authorization option \<times> string option"

definition build_commit :: "host \<Rightarrow> json \<Rightarrow> string \<Rightarrow> request res" where
  "build_commit h payload route_id =
     bindE (jindex payload ''action'') (\<lambda>aj. bindE (action_dict aj) (\<lambda>action.
     bindE (attr_get payload ''authorization_id'' JNull) (\<lambda>auth_id.
     bindE (find_authorization h auth_id) (\<lambda>auth.
     bindE (int_field payload ''committed_at'') (\<lambda>tick.
     bindE (str_field payload ''commit_id'') (\<lambda>commit_id.
     bindE (str_field (JObj action) ''sink_id'') (\<lambda>sink_id.
     bindE (str_field (JObj action) ''tenant_id'') (\<lambda>tenant_id.
     bindE (str_field (JObj action) ''principal_id'') (\<lambda>principal_id.
     bindE (attr_get payload ''agent_id'' (JStr ''agent.integration-test'')) (\<lambda>agent_id.
     bindE (str_field (JObj action) ''release_id'') (\<lambda>release_id.
     bindE (exact_action_digest action) (\<lambda>digest.
     bindE (str_field payload ''idempotency_key'') (\<lambda>key.
     bindE (attr_get payload ''trace_ref'' (JStr (''trace-'' @ commit_id))) (\<lambda>trace_ref.
     bindE (attr_get payload ''token_digest'' JNull) (\<lambda>token.
       Inr (\<lparr>ce_commit_id = commit_id, ce_sink_id = sink_id, ce_route_id = route_id,
              ce_tenant_id = tenant_id, ce_principal_id = principal_id, ce_agent_id = py_str agent_id,
              ce_release_id = release_id, ce_action_digest = digest, ce_normalized_action = action,
              ce_committed_at = tick,
              ce_authorization_ref = (if truthy auth_id then Some (py_str auth_id) else None),
              ce_authority_state_ref = map_option authority_state_digest (store_at (ho_authority h) tick),
              ce_idempotency_key = key, ce_trace_ref = py_str trace_ref\<rparr>,
            auth, if token = JNull then None else Some (py_str token)))))))))))))))))"

definition host_report :: "host \<Rightarrow> request \<Rightarrow> validation_report" where
  "host_report h r = (case r of (event, auth, presented) \<Rightarrow>
     validate_authorization auth event (store_at (ho_authority h) (ce_committed_at event)) (Some (ho_issuer h))
       (map_option (\<lambda>a. use_count (ho_issuer h) (au_authorization_id a) + 1) auth) presented)"

text \<open>
  The calls that change the host, each with the state it leaves behind when it raises: recording
  an arrival, spending a use, inserting into the ledger, recording a commit with its receipt.
\<close>

definition do_arrival :: "host \<Rightarrow> commit_event \<Rightarrow> bool \<Rightarrow> bool \<Rightarrow> string option \<Rightarrow> host \<times> unit res" where
  "do_arrival h event admitted committed commit_id =
     (case record_arrival (ho_observer h) (ce_route_id event) (ce_committed_at event) admitted committed commit_id of
        Inl e \<Rightarrow> (h, Inl e) | Inr ob \<Rightarrow> (h\<lparr>ho_observer := ob\<rparr>, Inr ()))"

definition do_record_use :: "host \<Rightarrow> authorization \<Rightarrow> host" where
  "do_record_use h a = h\<lparr>ho_issuer := fst (record_use (ho_issuer h) (au_authorization_id a))\<rparr>"

definition do_insert :: "host \<Rightarrow> commit_event \<Rightarrow> string option \<Rightarrow> host \<times> unit res" where
  "do_insert h event token =
     (case ledger_commit (ho_ledger h) event token of
        Inl e \<Rightarrow> (h, Inl e) | Inr ledger \<Rightarrow> (h\<lparr>ho_ledger := ledger\<rparr>, Inr ()))"

definition do_receipt :: "host \<Rightarrow> commit_event \<Rightarrow> host \<times> unit res" where
  "do_receipt h event =
     (case insert_receipt (ho_observer h) event of
        Inl e \<Rightarrow> (h, Inl e) | Inr ob \<Rightarrow> (h\<lparr>ho_observer := ob\<rparr>, Inr ()))"

text \<open>Sequencing of such calls.\<close>

definition andThen :: "host \<times> 'a res \<Rightarrow> (host \<Rightarrow> 'a \<Rightarrow> host \<times> 'b res) \<Rightarrow> host \<times> 'b res" where
  "andThen m f = (case m of (h, Inl e) \<Rightarrow> (h, Inl e) | (h, Inr x) \<Rightarrow> f h x)"

definition record_commit :: "host \<Rightarrow> commit_event \<Rightarrow> bool \<Rightarrow> host \<times> unit res" where
  "record_commit h event emit_receipt =
     andThen (do_arrival h event True True (Some (ce_commit_id event))) (\<lambda>h _.
       if emit_receipt then do_receipt h event else (h, Inr ()))"

definition guarded :: "host \<Rightarrow> json \<Rightarrow> string \<Rightarrow> host \<times> host_decision res" where
  "guarded h payload route_id =
     (case build_commit h payload route_id of
        Inl e \<Rightarrow> (h, Inl e)
      | Inr (event, auth, presented) \<Rightarrow>
          if idempotency_seen (ho_ledger h) (ce_idempotency_key event) then
            andThen (do_arrival h event False False None) (\<lambda>h _.
              (h, Inr (decision ''REFUSED'' ''IDEMPOTENCY_REPLAY'' None [])))
          else (let report = host_report h (event, auth, presented) in
            if \<not> report_valid report then
              andThen (do_arrival h event False False None) (\<lambda>h _.
                (h, Inr (decision ''REFUSED'' ''BINDING_NOT_SATISFIED'' None (failed_dimensions report))))
            else (case auth of
                None \<Rightarrow> (h, Inl AssertionError)
              | Some a \<Rightarrow>
                  andThen (do_insert (do_record_use h a) event presented) (\<lambda>h _.
                  andThen (record_commit h event True) (\<lambda>h _.
                    (h, Inr (decision ''ADMITTED'' ''ALL_BINDINGS_SATISFIED'' (Some (ce_commit_id event)) [])))))))"

definition hidden :: "host \<Rightarrow> json \<Rightarrow> bool \<Rightarrow> host \<times> host_decision res" where
  "hidden h payload emit_receipt =
     (case build_commit h payload ROUTE_HIDDEN_BATCH of
        Inl e \<Rightarrow> (h, Inl e)
      | Inr (event, auth, presented) \<Rightarrow>
          if idempotency_seen (ho_ledger h) (ce_idempotency_key event) then
            andThen (do_arrival h event False False None) (\<lambda>h _.
              (h, Inr (decision ''REFUSED'' ''IDEMPOTENCY_REPLAY'' None [])))
          else
            andThen (do_insert h event presented) (\<lambda>h _.
            andThen (record_commit h event emit_receipt) (\<lambda>h _.
              (h, Inr (decision ''COMMITTED'' ''UNGUARDED_ROUTE'' (Some (ce_commit_id event)) [])))))"

subsection \<open>Evidence and verdict\<close>

definition host_evidence :: "host \<Rightarrow> consequence_evidence" where
  "host_evidence h = \<lparr>
     ev_protected_sink = ho_sink h,
     ev_commits = ledger_commits (ho_ledger h),
     ev_receipts = observer_receipts (ho_observer h),
     ev_authorizations = ho_authorizations h,
     ev_authority = Some (ho_authority h),
     ev_issuer = Some (ho_issuer h),
     ev_correlated = token_digests (ho_ledger h),
     ev_use_counts = map (\<lambda>(k, a). (k, use_count (ho_issuer h) k)) (ho_authorizations h),
     ev_reconciliation = Some (reconcile HOST_DECLARED_PATHS (observer_paths (ho_observer h))),
     ev_internal_failures = [], ev_instrument_failures = []\<rparr>"

definition host_verdict :: "host \<Rightarrow> consequence_verdict" where
  "host_verdict h = adjudicate (host_evidence h)"

subsection \<open>The reference integration\<close>

definition reference_authority :: authority_store where
  "reference_authority =
     store_add \<lparr>as_epoch = 2, as_effective_from = 50, as_active = [], as_revoked = [''grant.treasury''],
                as_superseded = []\<rparr>
       (store_add \<lparr>as_epoch = 1, as_effective_from = 0, as_active = [''grant.treasury''], as_revoked = [],
                   as_superseded = []\<rparr> [])"

definition issue_reference_authorization ::
  "issuer \<Rightarrow> action \<Rightarrow> authority_store \<Rightarrow> string \<Rightarrow> string \<Rightarrow> int \<Rightarrow> int \<Rightarrow> authorization res" where
  "issue_reference_authorization i action authority authorization_id key not_after max_uses =
     (case store_at authority 10 of
        None \<Rightarrow> Inl AssertionError
      | Some st \<Rightarrow>
          bindE (str_field (JObj action) ''tenant_id'') (\<lambda>tenant.
          bindE (str_field (JObj action) ''principal_id'') (\<lambda>principal.
          bindE (str_field (JObj action) ''release_id'') (\<lambda>release.
          bindE (exact_action_digest action) (\<lambda>digest.
          bindE (str_field (JObj action) ''sink_id'') (\<lambda>sink.
            Inr (sign i \<lparr>au_authorization_id = authorization_id, au_grant_id = ''grant.treasury'',
              au_decision = ''ALLOW'', au_tenant_id = tenant, au_principal_id = principal,
              au_agent_id = ''agent.integration-test'', au_release_id = release, au_action_digest = digest,
              au_sink_id = sink, au_scope = ''payment.transfer'',
              au_authority_state_digest = authority_state_digest st, au_not_before = 0,
              au_not_after = not_after, au_idempotency_key = key, au_max_uses = max_uses,
              au_delegation = None, au_integrity = []\<rparr>)))))))"

definition REFERENCE_SINK :: protected_sink where
  "REFERENCE_SINK = \<lparr>ps_sink_id = ''sink.integration-payment-ledger'',
     ps_description = ''Durable SQLite payment ledger used by OAT-HOST-SINK-INTEGRATION-001''\<rparr>"

definition REFERENCE_ACTION :: action where
  "REFERENCE_ACTION = [
     (''action_type'', JStr ''payment.transfer''), (''target'', JStr ''acct:beneficiary-77''),
     (''parameters'', JObj [(''memo'', JStr ''invoice-1041'')]), (''quantity'', JInt 200000),
     (''unit'', JStr ''USD_CENTS''), (''principal_id'', JStr ''principal.treasury-bot''),
     (''sink_id'', JStr (ps_sink_id REFERENCE_SINK)), (''tenant_id'', JStr ''tenant.acme''),
     (''release_id'', JStr ''release.agent-2026.09'')]"

definition new_reference_integration :: "int \<Rightarrow> int \<Rightarrow> (host \<times> authorization) res" where
  "new_reference_integration not_after max_uses =
     (let i = new_issuer ''oat-host-sink-reference-secret'';
          h = new_host REFERENCE_SINK reference_authority i in
      bindE (issue_reference_authorization i REFERENCE_ACTION reference_authority ''authz-1'' ''idem-1''
               not_after max_uses) (\<lambda>auth. Inr (register h auth, auth)))"

subsection \<open>What the statements do\<close>

lemma andThen_simps [simp]:
  "andThen (h, Inl e) f = (h, Inl e)"
  "andThen (h, Inr x) f = f h x"
  by (simp_all add: andThen_def)

lemma stored_event_simps [simp]:
  "ce_commit_id (stored_event c) = ce_commit_id c" "ce_sink_id (stored_event c) = ce_sink_id c"
  "ce_route_id (stored_event c) = ce_route_id c" "ce_action_digest (stored_event c) = ce_action_digest c"
  "ce_committed_at (stored_event c) = ce_committed_at c"
  "ce_authorization_ref (stored_event c) = ce_authorization_ref c"
  "ce_idempotency_key (stored_event c) = ce_idempotency_key c"
  "ce_principal_id (stored_event c) = ce_principal_id c" "ce_tenant_id (stored_event c) = ce_tenant_id c"
  "ce_agent_id (stored_event c) = ce_agent_id c" "ce_release_id (stored_event c) = ce_release_id c"
  by (simp_all add: stored_event_def)

lemma authorizes_stored [simp]: "authorizes a (stored_event c) st i n t = authorizes a c st i n t"
  unfolding authorizes_def stored_event_simps by (rule refl)

lemma host_receipt_stored [simp]: "host_receipt (stored_event c) = host_receipt c"
  by (simp add: host_receipt_def)

lemma list_ex_image: "list_ex (\<lambda>r. f r = x) xs \<longleftrightarrow> x \<in> f ` set xs"
  by (auto simp: list_ex_iff)

lemma idempotency_seen_iff:
  "idempotency_seen ledger key \<longleftrightarrow> key \<in> ce_idempotency_key ` lr_event ` set ledger"
  unfolding idempotency_seen_def list_ex_image [of "\<lambda>r. ce_idempotency_key (lr_event r)"] by (simp add: image_image)

definition commit_fresh :: "ledger_row list \<Rightarrow> commit_event \<Rightarrow> bool" where
  "commit_fresh ledger c \<longleftrightarrow> sql_integer (ce_committed_at c)
     \<and> ce_commit_id c \<notin> (\<lambda>r. ce_commit_id (lr_event r)) ` set ledger
     \<and> ce_idempotency_key c \<notin> (\<lambda>r. ce_idempotency_key (lr_event r)) ` set ledger"

lemma ledger_commit_fresh:
  "commit_fresh ledger c \<Longrightarrow> ledger_commit ledger c token = Inr (ledger @ [\<lparr>lr_event = stored_event c, lr_token = token\<rparr>])"
  unfolding ledger_commit_def commit_fresh_def list_ex_image [symmetric] by simp

lemma ledger_commit_stale: "\<not> commit_fresh ledger c \<Longrightarrow> \<exists>e. ledger_commit ledger c token = Inl e"
  unfolding ledger_commit_def commit_fresh_def list_ex_image [symmetric] by auto

lemma do_arrival_frame [simp]:
  "ho_ledger (fst (do_arrival h c x y k)) = ho_ledger h" "ho_issuer (fst (do_arrival h c x y k)) = ho_issuer h"
  "ho_authority (fst (do_arrival h c x y k)) = ho_authority h"
  "ho_authorizations (fst (do_arrival h c x y k)) = ho_authorizations h"
  "ho_sink (fst (do_arrival h c x y k)) = ho_sink h"
  "ob_receipts (ho_observer (fst (do_arrival h c x y k))) = ob_receipts (ho_observer h)"
  by (auto simp: do_arrival_def record_arrival_def split: sum.split)

lemma do_arrival_ok:
  "sql_integer (ce_committed_at c) \<Longrightarrow> do_arrival h c x y k = (h\<lparr>ho_observer := (ho_observer h)\<lparr>ob_routes :=
     ob_routes (ho_observer h) @ [\<lparr>ro_route_id = ce_route_id c, ro_observed_at = ce_committed_at c,
        ro_admitted = x, ro_committed = y, ro_commit_id = k\<rparr>]\<rparr>\<rparr>, Inr ())"
  by (simp add: do_arrival_def record_arrival_def)

lemma do_record_use_frame [simp]:
  "ho_ledger (do_record_use h a) = ho_ledger h" "ho_observer (do_record_use h a) = ho_observer h"
  "ho_authority (do_record_use h a) = ho_authority h" "ho_sink (do_record_use h a) = ho_sink h"
  "ho_authorizations (do_record_use h a) = ho_authorizations h"
  by (simp_all add: do_record_use_def)

lemma do_record_use_issuer [simp]:
  "ho_issuer (do_record_use h a) = fst (record_use (ho_issuer h) (au_authorization_id a))"
  by (simp add: do_record_use_def)

lemma do_insert_fresh:
  "commit_fresh (ho_ledger h) c \<Longrightarrow>
     do_insert h c token = (h\<lparr>ho_ledger := ho_ledger h @ [\<lparr>lr_event = stored_event c, lr_token = token\<rparr>]\<rparr>, Inr ())"
  by (simp add: do_insert_def ledger_commit_fresh)

lemma do_insert_stale: "\<not> commit_fresh (ho_ledger h) c \<Longrightarrow> \<exists>e. do_insert h c token = (h, Inl e)"
  using ledger_commit_stale [of "ho_ledger h" c token] by (auto simp: do_insert_def)

lemma do_receipt_frame [simp]:
  "ho_ledger (fst (do_receipt h c)) = ho_ledger h" "ho_issuer (fst (do_receipt h c)) = ho_issuer h"
  "ho_authority (fst (do_receipt h c)) = ho_authority h"
  "ho_authorizations (fst (do_receipt h c)) = ho_authorizations h"
  "ho_sink (fst (do_receipt h c)) = ho_sink h"
  "ob_routes (ho_observer (fst (do_receipt h c))) = ob_routes (ho_observer h)"
  by (auto simp: do_receipt_def insert_receipt_def split: sum.split)

lemma record_commit_ok:
  assumes "sql_integer (ce_committed_at c)"
    and "cr_receipt_id (host_receipt c) \<notin> cr_receipt_id ` set (ob_receipts (ho_observer h))"
  shows "record_commit h c True = (h\<lparr>ho_observer := \<lparr>ob_receipts = ob_receipts (ho_observer h) @ [host_receipt c],
     ob_routes = ob_routes (ho_observer h) @ [\<lparr>ro_route_id = ce_route_id c, ro_observed_at = ce_committed_at c,
        ro_admitted = True, ro_committed = True, ro_commit_id = Some (ce_commit_id c)\<rparr>]\<rparr>\<rparr>, Inr ())"
proof -
  have "\<not> list_ex (\<lambda>r. cr_receipt_id r = cr_receipt_id (host_receipt c)) (ob_receipts (ho_observer h))"
    using assms(2) unfolding list_ex_image .
  then show ?thesis
    by (simp add: record_commit_def do_arrival_ok assms(1) do_receipt_def insert_receipt_def)
qed

lemma record_commit_frame [simp]:
  "ho_ledger (fst (record_commit h c emit)) = ho_ledger h" "ho_issuer (fst (record_commit h c emit)) = ho_issuer h"
  "ho_authority (fst (record_commit h c emit)) = ho_authority h"
  "ho_authorizations (fst (record_commit h c emit)) = ho_authorizations h"
  "ho_sink (fst (record_commit h c emit)) = ho_sink h"
proof -
  obtain h' r where m: "do_arrival h c True True (Some (ce_commit_id c)) = (h', r)" by fastforce
  note f = do_arrival_frame [of h c True True "Some (ce_commit_id c)", unfolded m fst_conv]
  have "record_commit h c emit = (case r of Inl e \<Rightarrow> (h', Inl e)
      | Inr _ \<Rightarrow> if emit then do_receipt h' c else (h', Inr ()))"
    by (simp add: record_commit_def m andThen_def)
  then show "ho_ledger (fst (record_commit h c emit)) = ho_ledger h" "ho_issuer (fst (record_commit h c emit)) = ho_issuer h"
    "ho_authority (fst (record_commit h c emit)) = ho_authority h"
    "ho_authorizations (fst (record_commit h c emit)) = ho_authorizations h"
    "ho_sink (fst (record_commit h c emit)) = ho_sink h"
    by (simp_all add: f split: sum.split)
qed

lemma fst_andThen: "fst (andThen m f) = (case snd m of Inl e \<Rightarrow> fst m | Inr x \<Rightarrow> fst (f (fst m) x))"
  by (simp add: andThen_def split: prod.split sum.split)

subsection \<open>The guarded entry, branch by branch\<close>

text \<open>A request is covered when the interlock's report on it is valid.\<close>

definition covered_request :: "host \<Rightarrow> request \<Rightarrow> authorization \<Rightarrow> string \<Rightarrow> bool" where
  "covered_request h r a token \<longleftrightarrow> (case r of (c, au, tok) \<Rightarrow> au = Some a \<and> tok = Some token
     \<and> (\<exists>st. store_at (ho_authority h) (ce_committed_at c) = Some st
          \<and> authorizes a c st (ho_issuer h) (use_count (ho_issuer h) (au_authorization_id a) + 1) token))"

lemma host_report_valid_iff: "report_valid (host_report h r) \<longleftrightarrow> (\<exists>a token. covered_request h r a token)"
proof -
  obtain c au tok where r: "r = (c, au, tok)" by (metis surj_pair)
  show ?thesis
  proof (cases au)
    case None
    then show ?thesis
      using report_valid_present by (force simp: r host_report_def covered_request_def)
  next
    case (Some a)
    then show ?thesis by (auto simp: r host_report_def covered_request_def report_valid_authorizes)
  qed
qed

lemma guarded_admits:
  assumes "build_commit h payload route = Inr (c, Some a, Some token)"
    and "covered_request h (c, Some a, Some token) a token"
    and "\<not> idempotency_seen (ho_ledger h) (ce_idempotency_key c)"
  shows "guarded h payload route = andThen (do_insert (do_record_use h a) c (Some token)) (\<lambda>h _.
      andThen (record_commit h c True) (\<lambda>h _.
        (h, Inr (decision ''ADMITTED'' ''ALL_BINDINGS_SATISFIED'' (Some (ce_commit_id c)) []))))"
proof -
  have "report_valid (host_report h (c, Some a, Some token))" using assms(2) host_report_valid_iff by blast
  with assms(1,3) show ?thesis by (simp add: guarded_def Let_def)
qed

text \<open>Everything else leaves the ledger, the issuer and the receipts alone.\<close>

lemma guarded_refuses:
  assumes "\<And>c a token. build_commit h payload route = Inr (c, Some a, Some token)
      \<Longrightarrow> covered_request h (c, Some a, Some token) a token
      \<Longrightarrow> idempotency_seen (ho_ledger h) (ce_idempotency_key c)"
  shows "(\<exists>e. guarded h payload route = (h, Inl e))
    \<or> (\<exists>c au tok d. build_commit h payload route = Inr (c, au, tok) \<and> hd_outcome d = ''REFUSED''
        \<and> guarded h payload route = andThen (do_arrival h c False False None) (\<lambda>h _. (h, Inr d)))"
proof (cases "build_commit h payload route")
  case (Inl e)
  then show ?thesis by (simp add: guarded_def)
next
  case (Inr r)
  obtain c au tok where r: "r = (c, au, tok)" by (metis surj_pair)
  show ?thesis
  proof (cases "idempotency_seen (ho_ledger h) (ce_idempotency_key c)")
    case True
    then have "guarded h payload route = andThen (do_arrival h c False False None) (\<lambda>h _.
        (h, Inr (decision ''REFUSED'' ''IDEMPOTENCY_REPLAY'' None [])))"
      using Inr r by (simp add: guarded_def)
    then show ?thesis using Inr r by (metis decision_def host_decision.select_convs(1))
  next
    case False
    have "\<not> report_valid (host_report h r)"
    proof
      assume "report_valid (host_report h r)"
      then obtain a token where c: "covered_request h r a token" using host_report_valid_iff by blast
      then have "au = Some a" "tok = Some token" by (simp_all add: covered_request_def r)
      with assms [of c a token] c Inr r False show False by simp
    qed
    with False have "guarded h payload route = andThen (do_arrival h c False False None) (\<lambda>h' _.
        (h', Inr (decision ''REFUSED'' ''BINDING_NOT_SATISFIED'' None (failed_dimensions (host_report h r)))))"
      using Inr r by (simp add: guarded_def Let_def)
    then show ?thesis using Inr r by (metis decision_def host_decision.select_convs(1))
  qed
qed


text \<open>The two ways a request can go, with the state it leaves.\<close>

lemma guarded_cases:
  obtains (quiet) "ho_ledger (fst (guarded h payload route)) = ho_ledger h"
      "ho_issuer (fst (guarded h payload route)) = ho_issuer h"
      "ob_receipts (ho_observer (fst (guarded h payload route))) = ob_receipts (ho_observer h)"
      "\<forall>d. snd (guarded h payload route) = Inr d \<longrightarrow> hd_outcome d = ''REFUSED''"
  | (stale) c a token where "build_commit h payload route = Inr (c, Some a, Some token)"
      "covered_request h (c, Some a, Some token) a token" "\<not> commit_fresh (ho_ledger h) c"
      "fst (guarded h payload route) = do_record_use h a"
      "\<exists>e. snd (guarded h payload route) = Inl e"
  | (commits) c a token h' where "build_commit h payload route = Inr (c, Some a, Some token)"
      "covered_request h (c, Some a, Some token) a token" "commit_fresh (ho_ledger h) c"
      "h' = (do_record_use h a)\<lparr>ho_ledger := ho_ledger h @ [\<lparr>lr_event = stored_event c, lr_token = Some token\<rparr>]\<rparr>"
      "guarded h payload route = andThen (record_commit h' c True) (\<lambda>h _.
        (h, Inr (decision ''ADMITTED'' ''ALL_BINDINGS_SATISFIED'' (Some (ce_commit_id c)) [])))"
proof (cases "\<exists>c a token. build_commit h payload route = Inr (c, Some a, Some token)
    \<and> covered_request h (c, Some a, Some token) a token \<and> \<not> idempotency_seen (ho_ledger h) (ce_idempotency_key c)")
  case True
  then obtain c a token where *: "build_commit h payload route = Inr (c, Some a, Some token)"
    "covered_request h (c, Some a, Some token) a token" "\<not> idempotency_seen (ho_ledger h) (ce_idempotency_key c)"
    by blast
  note g = guarded_admits [OF *]
  show thesis
  proof (cases "commit_fresh (ho_ledger h) c")
    case fresh: True
    have "do_insert (do_record_use h a) c (Some token) = ((do_record_use h a)\<lparr>ho_ledger := ho_ledger h @
        [\<lparr>lr_event = stored_event c, lr_token = Some token\<rparr>]\<rparr>, Inr ())"
      using fresh by (subst do_insert_fresh) simp_all
    then show thesis using g by (intro commits [OF *(1,2) fresh refl]) simp
  next
    case False
    then obtain e where "do_insert (do_record_use h a) c (Some token) = (do_record_use h a, Inl e)"
      using do_insert_stale [of "do_record_use h a"] by auto
    then show thesis using g by (intro stale [OF *(1,2) False]) simp_all
  qed
next
  case False
  then have "(\<exists>e. guarded h payload route = (h, Inl e))
    \<or> (\<exists>c au tok d. build_commit h payload route = Inr (c, au, tok) \<and> hd_outcome d = ''REFUSED''
        \<and> guarded h payload route = andThen (do_arrival h c False False None) (\<lambda>h _. (h, Inr d)))"
    by (intro guarded_refuses) blast
  then show thesis
  proof (elim disjE exE conjE)
    fix e assume "guarded h payload route = (h, Inl e)"
    then show thesis by (intro quiet) simp_all
  next
    fix c au tok d assume "guarded h payload route = andThen (do_arrival h c False False None) (\<lambda>h _. (h, Inr d))"
    moreover assume "hd_outcome d = ''REFUSED''"
    ultimately show thesis by (intro quiet) (simp_all add: andThen_def case_prod_beta split: sum.split)
  qed
qed

lemma guarded_ledger:
  "ho_ledger (fst (guarded h payload route)) = ho_ledger h
   \<or> (\<exists>c a token. build_commit h payload route = Inr (c, Some a, Some token)
        \<and> covered_request h (c, Some a, Some token) a token \<and> commit_fresh (ho_ledger h) c
        \<and> ho_ledger (fst (guarded h payload route))
            = ho_ledger h @ [\<lparr>lr_event = stored_event c, lr_token = Some token\<rparr>])"
proof (cases rule: guarded_cases [of h payload route])
  case quiet
  then show ?thesis by blast
next
  case (stale c a token)
  then show ?thesis by simp
next
  case (commits c a token h')
  have "ho_ledger (fst (guarded h payload route)) = ho_ledger h'"
    unfolding commits(5) by (simp add: fst_andThen split: sum.split)
  with commits show ?thesis by simp
qed

subsection \<open>The host is a bypassed gate\<close>

text \<open>A request counts as admitted when it changed the ledger.\<close>

definition host_step :: "host \<Rightarrow> json \<times> string \<Rightarrow> host \<times> (bool \<times> host_decision res)" where
  "host_step h r = (case guarded h (fst r) (snd r) of (h', d) \<Rightarrow> (h', (ho_ledger h' \<noteq> ho_ledger h, d)))"

definition host_commit :: "host \<Rightarrow> json \<Rightarrow> string \<Rightarrow> commit_event" where
  "host_commit h payload route = stored_event (fst (projr (build_commit h payload route)))"

definition host_justified :: "host \<Rightarrow> json \<Rightarrow> string \<Rightarrow> bool" where
  "host_justified h payload route \<longleftrightarrow> (\<exists>c a token. build_commit h payload route = Inr (c, Some a, Some token)
     \<and> covered_request h (c, Some a, Some token) a token)"

lemma host_step_simps:
  "fst (host_step h r) = fst (guarded h (fst r) (snd r))"
  "fst (snd (host_step h r)) \<longleftrightarrow> ho_ledger (fst (guarded h (fst r) (snd r))) \<noteq> ho_ledger h"
  by (simp_all add: host_step_def split: prod.split)

lemma hidden_ledger:
  "ho_ledger (fst (hidden h payload emit)) = ho_ledger h
   \<or> map lr_event (ho_ledger (fst (hidden h payload emit)))
       = map lr_event (ho_ledger h) @ [host_commit h payload ROUTE_HIDDEN_BATCH]"
proof (cases "build_commit h payload ROUTE_HIDDEN_BATCH")
  case (Inl e)
  then show ?thesis by (simp add: hidden_def)
next
  case (Inr r)
  obtain c au tok where r: "r = (c, au, tok)" by (metis surj_pair)
  show ?thesis
  proof (cases "idempotency_seen (ho_ledger h) (ce_idempotency_key c)")
    case True
    with Inr r show ?thesis by (simp add: hidden_def fst_andThen split: sum.split)
  next
    case False
    show ?thesis
    proof (cases "commit_fresh (ho_ledger h) c")
      case fresh: True
      with Inr r False show ?thesis
        by (simp add: hidden_def do_insert_fresh fst_andThen host_commit_def split: sum.split)
    next
      case stale: False
      then obtain e where "do_insert h c tok = (h, Inl e)" using do_insert_stale by blast
      with Inr r False show ?thesis by (simp add: hidden_def)
    qed
  qed
qed

lemma host_step_admits:
  assumes "fst (snd (host_step h r))"
  shows "map lr_event (ho_ledger (fst (host_step h r))) = map lr_event (ho_ledger h) @ [host_commit h (fst r) (snd r)]"
    "ce_idempotency_key (host_commit h (fst r) (snd r)) \<notin> ce_idempotency_key ` lr_event ` set (ho_ledger h)"
    "host_justified h (fst r) (snd r)"
proof -
  from assms guarded_ledger [of h "fst r" "snd r"] obtain c a token where
    "build_commit h (fst r) (snd r) = Inr (c, Some a, Some token)"
    "covered_request h (c, Some a, Some token) a token" "commit_fresh (ho_ledger h) c"
    "ho_ledger (fst (guarded h (fst r) (snd r))) = ho_ledger h @ [\<lparr>lr_event = stored_event c, lr_token = Some token\<rparr>]"
    by (auto simp: host_step_simps)
  then show "map lr_event (ho_ledger (fst (host_step h r))) = map lr_event (ho_ledger h) @ [host_commit h (fst r) (snd r)]"
    "ce_idempotency_key (host_commit h (fst r) (snd r)) \<notin> ce_idempotency_key ` lr_event ` set (ho_ledger h)"
    "host_justified h (fst r) (snd r)"
    by (auto simp: host_step_simps host_commit_def commit_fresh_def host_justified_def)
qed

lemma keys_of_events: "ce_idempotency_key ` lr_event ` set rows = ce_idempotency_key ` set (map lr_event rows)"
  by simp

interpretation host_gate: bypassed_gate
  host_step "\<lambda>d. fst d" "\<lambda>h. map lr_event (ho_ledger h)"
  "\<lambda>h. ce_idempotency_key ` lr_event ` set (ho_ledger h)"
  "\<lambda>h r. host_commit h (fst r) (snd r)" "\<lambda>h r. host_justified h (fst r) (snd r)"
  "\<lambda>h r. fst (hidden h (fst r) True)" "\<lambda>h r. host_commit h (fst r) ROUTE_HIDDEN_BATCH"
proof (unfold_locales, goal_cases)
  case (1 s r)
  then show ?case by (rule host_step_admits)
next
  case (2 s r)
  then show ?case unfolding keys_of_events host_step_admits(1) [OF 2] by simp
next
  case (3 s r)
  then show ?case by (rule host_step_admits)
next
  case (4 s r)
  then show ?case by (rule host_step_admits)
next
  case (5 s r)
  then show ?case by (simp add: host_step_simps)
next
  case (6 s r)
  then show ?case by (simp add: host_step_simps)
next
  case (7 s r)
  show ?case using hidden_ledger [of s "fst r" True] by auto
qed

end
