(* ===== verification/Host_History.thy ===== *)
theory Host_History
  imports Host_Sink
begin

section \<open>Histories of guarded requests\<close>

text \<open>
  What the guarded entry keeps when requests are served one after the other: every row of the
  ledger stays covered by the authorization it was admitted with, has its receipt, and arrived
  on a declared route. The verdict on such a history is clean.
\<close>

definition registry_ok :: "host \<Rightarrow> bool" where
  "registry_ok h \<longleftrightarrow> (\<forall>k a. dict_get (ho_authorizations h) k = Some a \<longrightarrow> au_authorization_id a = k)"

definition row_cleared :: "host \<Rightarrow> ledger_row \<Rightarrow> bool" where
  "row_cleared h r \<longleftrightarrow> (\<exists>k a t st. ce_authorization_ref (lr_event r) = Some k \<and> k \<noteq> []
     \<and> dict_get (ho_authorizations h) k = Some a \<and> lr_token r = Some t
     \<and> store_at (ho_authority h) (ce_committed_at (lr_event r)) = Some st
     \<and> authorizes a (lr_event r) st (ho_issuer h) (use_count (ho_issuer h) k) t)"

definition host_inv :: "host \<Rightarrow> bool" where
  "host_inv h \<longleftrightarrow> registry_ok h
     \<and> distinct (map (\<lambda>r. ce_commit_id (lr_event r)) (ho_ledger h))
     \<and> list_all (row_cleared h) (ho_ledger h)
     \<and> ob_receipts (ho_observer h) = map (\<lambda>r. host_receipt (lr_event r)) (ho_ledger h)
     \<and> ro_route_id ` set (ob_routes (ho_observer h)) \<subseteq> set (route_ids HOST_DECLARED_PATHS)"

lemma host_inv_new: "host_inv (new_host sink authority i)"
  by (simp add: host_inv_def registry_ok_def new_host_def)

lemma host_inv_register:
  assumes "host_inv h" "ho_ledger h = []"
  shows "host_inv (register h a)" "ho_ledger (register h a) = []"
  using assms by (auto simp: host_inv_def registry_ok_def register_def)

lemma build_commit_fields:
  assumes "build_commit h payload route = Inr (c, au, tok)"
  shows "ce_route_id c = route"
    "au = Some a \<Longrightarrow> \<exists>k. ce_authorization_ref c = Some k \<and> k \<noteq> [] \<and> dict_get (ho_authorizations h) k = Some a"
proof -
  from assms show "ce_route_id c = route" by (auto simp: build_commit_def bindE_Inr_iff)
  assume a: "au = Some a"
  from assms obtain auth_id where f: "find_authorization h auth_id = Inr au"
    and r: "ce_authorization_ref c = (if truthy auth_id then Some (py_str auth_id) else None)"
    by (auto simp: build_commit_def bindE_Inr_iff)
  then show "\<exists>k. ce_authorization_ref c = Some k \<and> k \<noteq> [] \<and> dict_get (ho_authorizations h) k = Some a"
    using a by (cases auth_id) (auto simp: find_authorization_def split: if_splits)
qed

text \<open>A later use of an authorization that was validated keeps the rows it covers covered.\<close>

lemma row_cleared_use:
  assumes "row_cleared h r" "registry_ok h" "dict_get (ho_authorizations h) k = Some a"
    and "use_count (ho_issuer h) (au_authorization_id a) + 1 \<le> au_max_uses a"
  shows "row_cleared (do_record_use h a) r"
proof -
  have k: "au_authorization_id a = k" using assms(2,3) by (simp add: registry_ok_def)
  from assms(1) obtain k' a' t st where r: "ce_authorization_ref (lr_event r) = Some k'" "k' \<noteq> []"
    "dict_get (ho_authorizations h) k' = Some a'" "lr_token r = Some t"
    "store_at (ho_authority h) (ce_committed_at (lr_event r)) = Some st"
    "authorizes a' (lr_event r) st (ho_issuer h) (use_count (ho_issuer h) k') t"
    by (auto simp: row_cleared_def)
  let ?i = "fst (record_use (ho_issuer h) (au_authorization_id a))"
  have "use_count ?i k' \<le> au_max_uses a'"
    using r(3,6) assms(3,4) k by (auto simp: authorizes_def)
  then have "authorizes a' (lr_event r) st ?i (use_count ?i k') t"
    using r(6) by (simp add: authorizes_def)
  with r(1-5) show ?thesis by (auto simp: row_cleared_def)
qed

lemma row_cleared_frame:
  assumes "ho_authorizations h' = ho_authorizations h" "ho_authority h' = ho_authority h" "ho_issuer h' = ho_issuer h"
  shows "row_cleared h' r = row_cleared h r"
  by (simp add: row_cleared_def assms)

lemma guarded_frame [simp]:
  "ho_authorizations (fst (guarded h payload route)) = ho_authorizations h"
  "ho_authority (fst (guarded h payload route)) = ho_authority h"
  "ho_sink (fst (guarded h payload route)) = ho_sink h"
  by (auto simp: guarded_def Let_def fst_andThen do_insert_def split: sum.split option.split prod.split)

lemma guarded_quiet_routes:
  assumes "ro_route_id ` set (ob_routes (ho_observer h)) \<subseteq> D" "route \<in> D"
  shows "ro_route_id ` set (ob_routes (ho_observer (fst (guarded h payload route)))) \<subseteq> D"
proof -
  have arr: "ro_route_id ` set (ob_routes (ho_observer (fst (do_arrival h c x y k)))) \<subseteq> D"
    if "ro_route_id ` set (ob_routes (ho_observer h)) \<subseteq> D" "ce_route_id c \<in> D" for h c x y k
    using that by (auto simp: do_arrival_def record_arrival_def split: sum.split)
  have com: "ro_route_id ` set (ob_routes (ho_observer (fst (record_commit h c e)))) \<subseteq> D"
    if "ro_route_id ` set (ob_routes (ho_observer h)) \<subseteq> D" "ce_route_id c \<in> D" for h c e
    using arr [OF that, of True True "Some (ce_commit_id c)"]
    by (simp add: record_commit_def fst_andThen split: sum.split)
  show ?thesis
  proof (cases "build_commit h payload route")
    case (Inr r)
    obtain c au tok where r: "r = (c, au, tok)" by (metis surj_pair)
    have c: "ce_route_id c \<in> D" using build_commit_fields(1) Inr r assms(2) by blast
    note a = arr [OF assms(1) c] and k = com [OF _ c]
    show ?thesis
      using assms(1) a k
      by (simp add: guarded_def Inr r Let_def fst_andThen do_insert_def split: sum.split option.split)
  qed (use assms(1) in \<open>simp add: guarded_def\<close>)
qed

lemma host_inv_guarded:
  assumes "host_inv h" "route \<in> set (route_ids HOST_DECLARED_PATHS)"
  shows "host_inv (fst (guarded h payload route))"
proof -
  let ?h = "fst (guarded h payload route)"
  from assms(1) have inv: "registry_ok h" "distinct (map (\<lambda>r. ce_commit_id (lr_event r)) (ho_ledger h))"
    "list_all (row_cleared h) (ho_ledger h)"
    "ob_receipts (ho_observer h) = map (\<lambda>r. host_receipt (lr_event r)) (ho_ledger h)"
    "ro_route_id ` set (ob_routes (ho_observer h)) \<subseteq> set (route_ids HOST_DECLARED_PATHS)"
    by (simp_all add: host_inv_def)
  have reg: "registry_ok ?h" using inv(1) by (simp add: registry_ok_def)
  note routes = guarded_quiet_routes [OF inv(5) assms(2)]
  show ?thesis
  proof (cases rule: guarded_cases [of h payload route])
    case quiet
    have "row_cleared ?h = row_cleared h" by (rule ext, rule row_cleared_frame) (simp_all add: quiet)
    then show ?thesis using inv reg routes by (simp add: host_inv_def quiet)
  next
    case (stale c a token)
    obtain k where k: "dict_get (ho_authorizations h) k = Some a"
      using build_commit_fields(2) [OF stale(1) refl] by blast
    have m: "use_count (ho_issuer h) (au_authorization_id a) + 1 \<le> au_max_uses a"
      using stale(2) by (auto simp: covered_request_def authorizes_def)
    have "list_all (row_cleared ?h) (ho_ledger h)"
      using inv(3) row_cleared_use [OF _ inv(1) k m] by (simp add: stale(4) list_all_iff)
    then show ?thesis using inv reg routes by (simp add: host_inv_def stale(4))
  next
    case (commits c a token h')
    obtain k where k: "ce_authorization_ref c = Some k" "k \<noteq> []" "dict_get (ho_authorizations h) k = Some a"
      using build_commit_fields(2) [OF commits(1) refl] by blast
    have id: "au_authorization_id a = k" using inv(1) k(3) by (simp add: registry_ok_def)
    from commits(2) obtain st where st: "store_at (ho_authority h) (ce_committed_at c) = Some st"
      "authorizes a c st (ho_issuer h) (use_count (ho_issuer h) (au_authorization_id a) + 1) token"
      by (auto simp: covered_request_def)
    have m: "use_count (ho_issuer h) (au_authorization_id a) + 1 \<le> au_max_uses a"
      using st(2) by (simp add: authorizes_def)
    let ?row = "\<lparr>lr_event = stored_event c, lr_token = Some token\<rparr>"
    have old: "row_cleared (do_record_use h a) r" if "r \<in> set (ho_ledger h)" for r
      using inv(3) that by (intro row_cleared_use [OF _ inv(1) k(3) m]) (simp add: list_all_iff)
    have "authorizes a c st (ho_issuer (do_record_use h a)) (use_count (ho_issuer (do_record_use h a)) k) token"
      using st(2) id by (simp add: authorizes_def)
    then have new: "row_cleared (do_record_use h a) ?row"
      unfolding row_cleared_def using k st(1) by auto
    have frame: "row_cleared h' = row_cleared (do_record_use h a)"
      by (rule ext, rule row_cleared_frame) (simp_all add: commits(4))
    have id_new: "''receipt-'' @ ce_commit_id c \<notin> cr_receipt_id ` set (ob_receipts (ho_observer h'))"
      using commits(3) by (auto simp: commits(4) inv(4) host_receipt_def commit_fresh_def image_image)
    then have "record_commit h' c True = (h'\<lparr>ho_observer := \<lparr>ob_receipts = ob_receipts (ho_observer h') @ [host_receipt c],
       ob_routes = ob_routes (ho_observer h') @ [\<lparr>ro_route_id = ce_route_id c, ro_observed_at = ce_committed_at c,
          ro_admitted = True, ro_committed = True, ro_commit_id = Some (ce_commit_id c)\<rparr>]\<rparr>\<rparr>, Inr ())"
      using commits(3) by (intro record_commit_ok) (simp_all add: commit_fresh_def host_receipt_def)
    then have eq: "?h = h'\<lparr>ho_observer := \<lparr>ob_receipts = ob_receipts (ho_observer h') @ [host_receipt c],
       ob_routes = ob_routes (ho_observer h') @ [\<lparr>ro_route_id = ce_route_id c, ro_observed_at = ce_committed_at c,
          ro_admitted = True, ro_committed = True, ro_commit_id = Some (ce_commit_id c)\<rparr>]\<rparr>\<rparr>"
      unfolding commits(5) by simp
    have cleared: "row_cleared ?h = row_cleared h'"
      by (rule ext, rule row_cleared_frame) (simp_all add: eq)
    have "list_all (row_cleared ?h) (ho_ledger ?h)"
      unfolding cleared frame using old new by (simp add: eq commits(4) list_all_iff)
    moreover have "distinct (map (\<lambda>r. ce_commit_id (lr_event r)) (ho_ledger ?h))"
      using inv(2) commits(3) by (auto simp: eq commits(4) commit_fresh_def)
    moreover have "ob_receipts (ho_observer ?h) = map (\<lambda>r. host_receipt (lr_event r)) (ho_ledger ?h)"
      using inv(4) by (simp add: eq commits(4))
    ultimately show ?thesis using reg routes by (simp add: host_inv_def)
  qed
qed

subsection \<open>The verdict on such a history\<close>

lemma observer_paths_routes: "op_route_id ` set (observer_paths ob) = ro_route_id ` set (ob_routes ob)"
  by (auto simp: observer_paths_def Let_def image_iff)

text \<open>The grouping query of the observer computes what the telemetry of the in-memory sink does.\<close>

lemma sum_committed:
  "sum_list (map (\<lambda>r. if ro_committed r then 1 else 0) xs) = int (length (filter ro_committed xs))"
  by (induction xs) auto

lemma observer_paths_log: "observer_paths ob = observations_from_log (ob_routes ob)"
  unfolding observer_paths_def observations_from_log_spec Let_def sum_committed filter_filter
  by (simp add: conj_commute)

lemma tokens_get:
  assumes "distinct (map (\<lambda>r. ce_commit_id (lr_event r)) ledger)" "r \<in> set ledger" "lr_token r = Some t"
  shows "dict_get (token_digests ledger) (ce_commit_id (lr_event r)) = Some t"
  using assms
proof (induction ledger)
  case (Cons x ledger)
  show ?case
  proof (cases "r = x")
    case False
    with Cons.prems have "r \<in> set ledger" "ce_commit_id (lr_event r) \<noteq> ce_commit_id (lr_event x)"
      by (force simp: rev_image_eqI)+
    with Cons show ?thesis by (simp add: token_digests_def)
  qed (use Cons.prems in \<open>simp add: token_digests_def\<close>)
qed simp

lemma dict_get_map_key: "dict_get d k = Some a \<Longrightarrow> dict_get (map (\<lambda>(k, a). (k, f k)) d) k = Some (f k)"
  by (induction d) (auto split: if_splits)

lemma host_inv_clean:
  assumes "host_inv h"
  shows "cv_disposition (host_verdict h) = NO_BOUNDARY_COUNTEREXAMPLE"
proof -
  let ?ev = "host_evidence h"
  note inv = assms [unfolded host_inv_def]
  have "\<not> undeclared_seen ?ev"
    using inv by (simp add: undeclared_seen_def host_evidence_def no_unknown_iff observer_paths_routes route_ids_def)
  moreover have "cf_disposition (adjudicate_commit c ?ev) = NO_BOUNDARY_COUNTEREXAMPLE"
    if "c \<in> set (protected_commits ?ev)" for c
  proof -
    from that obtain r where r: "r \<in> set (ho_ledger h)" "c = lr_event r"
      by (auto simp: protected_commits_def host_evidence_def ledger_commits_def)
    then have "row_cleared h r" using inv by (simp add: list_all_iff)
    then obtain k a t st where *: "ce_authorization_ref c = Some k" "k \<noteq> []"
      "dict_get (ho_authorizations h) k = Some a" "lr_token r = Some t"
      "store_at (ho_authority h) (ce_committed_at c) = Some st"
      "authorizes a c st (ho_issuer h) (use_count (ho_issuer h) k) t"
      by (auto simp: row_cleared_def r(2))
    have "receipt_for ?ev (ce_commit_id c) \<noteq> None"
      using inv r by (auto simp: receipt_for_def find_receipt_None_iff host_evidence_def observer_receipts_def
          host_receipt_def image_image)
    moreover have "dict_get (ev_correlated ?ev) (ce_commit_id c) = Some t"
      using tokens_get [OF _ r(1) *(4)] inv by (simp add: host_evidence_def r(2))
    moreover have "dict_get (ev_use_counts ?ev) k = Some (use_count (ho_issuer h) k)"
      using dict_get_map_key [OF *(3), of "use_count (ho_issuer h)"] by (simp add: host_evidence_def)
    moreover have "commit_authorization ?ev c = Some a"
      using * by (simp add: commit_authorization_def host_evidence_def)
    moreover have "ev_authority ?ev = Some (ho_authority h)" "ev_issuer ?ev = Some (ho_issuer h)"
      by (simp_all add: host_evidence_def)
    ultimately show ?thesis unfolding finding_clean_iff using * by auto
  qed
  ultimately show ?thesis
    unfolding host_verdict_def clean_run_iff by (simp add: host_evidence_def [of h])
qed

definition serve :: "(json \<times> string) list \<Rightarrow> host \<Rightarrow> host" where
  "serve rs h = fold (\<lambda>r h. fst (guarded h (fst r) (snd r))) rs h"

lemma host_inv_serve:
  "host_inv h \<Longrightarrow> snd ` set rs \<subseteq> set (route_ids HOST_DECLARED_PATHS) \<Longrightarrow> host_inv (serve rs h)"
  unfolding serve_def by (induction rs arbitrary: h) (simp_all add: host_inv_guarded)

lemma host_inv_registered: "host_inv (fold (\<lambda>a h. register h a) auths (new_host sink authority i))"
proof -
  have "host_inv (fold (\<lambda>a h. register h a) auths h)" if "host_inv h" "ho_ledger h = []" for h
    using that by (induction auths arbitrary: h) (simp_all add: host_inv_register)
  moreover have "ho_ledger (new_host sink authority i) = []" by (simp add: new_host_def)
  ultimately show ?thesis using host_inv_new by blast
qed

text \<open>C11: The guarded entries are sound end to end: whatever requests a fresh host serves on its declared
  routes, one after the other, admitted, refused or failing, and whatever authorizations were
  registered before, the verifier finds no boundary counterexample in the host's own evidence.\<close>

theorem guarded_history_is_clean:
  assumes "snd ` set rs \<subseteq> {ROUTE_HTTP_GUARDED, ROUTE_QUEUE_WORKER}"
  shows "cv_disposition (host_verdict (serve rs (fold (\<lambda>a h. register h a) auths (new_host sink authority i))))
    = NO_BOUNDARY_COUNTEREXAMPLE"
  using assms by (intro host_inv_clean host_inv_serve host_inv_registered)
    (simp add: HOST_DECLARED_PATHS_def route_ids_def)

end
