(* ===== verification/Host_Steps.thy ===== *)
theory Host_Steps
  imports Host_History
begin

section \<open>Concurrent requests at the host\<close>

text \<open>
  The HTTP server of the host runs every request in a thread of its own and the queue has a
  worker thread. A request is cut at the statements that touch shared state: the lookup of the
  idempotency key, the reading of the use count with the validation, the recording of a use (which
  reads the count and then stores it one higher, in two steps), the ledger insert, the route
  observation and the receipt. Each of them is atomic (one SQL transaction or one dictionary
  operation); between them any other thread may run. The locks that make the transactions atomic
  are the subject of \<open>Host_Locks\<close>.
\<close>

record live_request =
  rq_event :: commit_event
  rq_auth :: "authorization option"
  rq_token :: "string option"
  rq_guarded :: bool

datatype phase =
    Arrived json string bool
  | Checking live_request
  | Validating live_request
  | Spending live_request authorization
  | Storing live_request authorization int
  | Inserting live_request
  | Observing live_request
  | Receipting live_request
  | Refusing live_request host_decision
  | Finished "host_decision res"

text \<open>The second half of \<open>record_use\<close>: the count that was read is stored one higher.\<close>

definition do_store_use :: "host \<Rightarrow> authorization \<Rightarrow> int \<Rightarrow> host" where
  "do_store_use h a n = h\<lparr>ho_issuer := (ho_issuer h)\<lparr>is_uses :=
     dict_set (au_authorization_id a) (n + 1) (is_uses (ho_issuer h))\<rparr>\<rparr>"

lemma do_store_use_simps [simp]:
  "ho_authorizations (do_store_use h a n) = ho_authorizations h" "ho_authority (do_store_use h a n) = ho_authority h"
  "ho_ledger (do_store_use h a n) = ho_ledger h" "ho_observer (do_store_use h a n) = ho_observer h"
  "ho_sink (do_store_use h a n) = ho_sink h" "is_secret (ho_issuer (do_store_use h a n)) = is_secret (ho_issuer h)"
  "use_count (ho_issuer (do_store_use h a n)) k
     = (if k = au_authorization_id a then n + 1 else use_count (ho_issuer h) k)"
  by (simp_all add: do_store_use_def use_count_def)

lemma do_store_use_read: "do_store_use h a (use_count (ho_issuer h) (au_authorization_id a)) = do_record_use h a"
  by (simp add: do_store_use_def do_record_use_def record_use_def Let_def)

definition accept_decision :: "live_request \<Rightarrow> host_decision" where
  "accept_decision q =
     (if rq_guarded q then decision ''ADMITTED'' ''ALL_BINDINGS_SATISFIED'' (Some (ce_commit_id (rq_event q))) []
      else decision ''COMMITTED'' ''UNGUARDED_ROUTE'' (Some (ce_commit_id (rq_event q))) [])"

definition continue_with :: "host \<times> unit res \<Rightarrow> phase \<Rightarrow> host \<times> phase" where
  "continue_with m p = (case m of (h, Inl e) \<Rightarrow> (h, Finished (Inl e)) | (h, Inr _) \<Rightarrow> (h, p))"

definition validate_step :: "host \<Rightarrow> live_request \<Rightarrow> phase" where
  "validate_step h q =
     (let report = host_report h (rq_event q, rq_auth q, rq_token q) in
      if \<not> report_valid report then
        Refusing q (decision ''REFUSED'' ''BINDING_NOT_SATISFIED'' None (failed_dimensions report))
      else (case rq_auth q of None \<Rightarrow> Finished (Inl AssertionError) | Some a \<Rightarrow> Spending q a))"

fun advance :: "host \<Rightarrow> phase \<Rightarrow> host \<times> phase" where
  "advance h (Arrived payload route g) =
     (case build_commit h payload (if g then route else ROUTE_HIDDEN_BATCH) of
        Inl e \<Rightarrow> (h, Finished (Inl e))
      | Inr (c, au, tok) \<Rightarrow> (h, Checking \<lparr>rq_event = c, rq_auth = au, rq_token = tok, rq_guarded = g\<rparr>))"
| "advance h (Checking q) =
     (h, if idempotency_seen (ho_ledger h) (ce_idempotency_key (rq_event q)) then
           Refusing q (decision ''REFUSED'' ''IDEMPOTENCY_REPLAY'' None [])
         else if rq_guarded q then Validating q else Inserting q)"
| "advance h (Validating q) = (h, validate_step h q)"
| "advance h (Spending q a) = (h, Storing q a (use_count (ho_issuer h) (au_authorization_id a)))"
| "advance h (Storing q a n) = (do_store_use h a n, Inserting q)"
| "advance h (Inserting q) = continue_with (do_insert h (rq_event q) (rq_token q)) (Observing q)"
| "advance h (Observing q) =
     continue_with (do_arrival h (rq_event q) True True (Some (ce_commit_id (rq_event q)))) (Receipting q)"
| "advance h (Receipting q) = continue_with (do_receipt h (rq_event q)) (Finished (Inr (accept_decision q)))"
| "advance h (Refusing q d) = continue_with (do_arrival h (rq_event q) False False None) (Finished (Inr d))"
| "advance h (Finished d) = (h, Finished d)"

fun advance_n :: "nat \<Rightarrow> host \<times> phase \<Rightarrow> host \<times> phase" where
  "advance_n 0 s = s"
| "advance_n (Suc n) (h, p) = advance_n n (advance h p)"

subsection \<open>A request that runs alone\<close>

lemma advance_n_Finished [simp]: "advance_n n (h, Finished d) = (h, Finished d)"
  by (induction n) simp_all

lemma continue_with_simps [simp]:
  "continue_with (h, Inl e) p = (h, Finished (Inl e))" "continue_with (h, Inr u) p = (h, p)"
  by (simp_all add: continue_with_def)

lemma advance_refusing:
  "advance h (Refusing q d) = (fst (andThen (do_arrival h (rq_event q) False False None) (\<lambda>h _. (h, Inr d))),
     Finished (snd (andThen (do_arrival h (rq_event q) False False None) (\<lambda>h _. (h, Inr d)))))"
  by (simp add: continue_with_def andThen_def split: prod.split sum.split)

lemma advance_commit:
  "advance_n (Suc (Suc (Suc n))) (h, Inserting q) =
     (let m = andThen (do_insert h (rq_event q) (rq_token q)) (\<lambda>h _.
                andThen (record_commit h (rq_event q) True) (\<lambda>h _. (h, Inr (accept_decision q))))
      in (fst m, Finished (snd m)))"
  by (simp add: continue_with_def andThen_def record_commit_def Let_def split: prod.split sum.split)

text \<open>Without interference the steps of a request do what the code of its entry does.\<close>

lemma alone_guarded:
  "advance_n 8 (h, Arrived payload route True) = (fst (guarded h payload route), Finished (snd (guarded h payload route)))"
proof (cases "build_commit h payload route")
  case (Inl e)
  then show ?thesis by (simp add: guarded_def numeral_eq_Suc)
next
  case (Inr r)
  obtain c au tok where r: "r = (c, au, tok)" by (metis surj_pair)
  let ?q = "\<lparr>rq_event = c, rq_auth = au, rq_token = tok, rq_guarded = True\<rparr>"
  have a: "accept_decision ?q = decision ''ADMITTED'' ''ALL_BINDINGS_SATISFIED'' (Some (ce_commit_id c)) []"
    by (simp add: accept_decision_def)
  have start: "advance_n 8 (h, Arrived payload route True) = advance_n 7 (h, Checking ?q)"
    using Inr r by (simp add: numeral_eq_Suc)
  show ?thesis
  proof (cases "idempotency_seen (ho_ledger h) (ce_idempotency_key c)")
    case True
    then show ?thesis
      unfolding start using Inr r
      by (simp add: numeral_eq_Suc advance_refusing guarded_def del: advance.simps(9))
  next
    case fresh: False
    have check: "advance_n 7 (h, Checking ?q) = advance_n 5 (h, validate_step h ?q)"
      using fresh by (simp add: numeral_eq_Suc)
    show ?thesis
    proof (cases "report_valid (host_report h r)")
      case False
      then show ?thesis
        unfolding start check using Inr r fresh
        by (simp add: numeral_eq_Suc advance_refusing guarded_def validate_step_def Let_def del: advance.simps(9))
    next
      case True
      show ?thesis
      proof (cases au)
        case None
        then show ?thesis
          unfolding start check using Inr r fresh True
          by (simp add: guarded_def validate_step_def Let_def)
      next
        case (Some x)
        have "advance_n 5 (h, validate_step h ?q) = advance_n (Suc (Suc (Suc 0))) (do_record_use h x, Inserting ?q)"
          using True r Some by (simp add: validate_step_def Let_def numeral_eq_Suc do_store_use_read)
        then show ?thesis
          unfolding start check using Inr r fresh True Some
          by (simp add: advance_commit guarded_def Let_def a [unfolded Some] del: advance_n.simps)
      qed
    qed
  qed
qed

lemma alone_hidden:
  "advance_n 5 (h, Arrived payload route False) = (fst (hidden h payload True), Finished (snd (hidden h payload True)))"
proof (cases "build_commit h payload ROUTE_HIDDEN_BATCH")
  case (Inl e)
  then show ?thesis by (simp add: hidden_def numeral_eq_Suc)
next
  case (Inr r)
  obtain c au tok where r: "r = (c, au, tok)" by (metis surj_pair)
  let ?q = "\<lparr>rq_event = c, rq_auth = au, rq_token = tok, rq_guarded = False\<rparr>"
  have a: "accept_decision ?q = decision ''COMMITTED'' ''UNGUARDED_ROUTE'' (Some (ce_commit_id c)) []"
    by (simp add: accept_decision_def)
  have start: "advance_n 5 (h, Arrived payload route False) = advance_n 4 (h, Checking ?q)"
    using Inr r by (simp add: numeral_eq_Suc)
  show ?thesis
  proof (cases "idempotency_seen (ho_ledger h) (ce_idempotency_key c)")
    case True
    then show ?thesis
      unfolding start using Inr r
      by (simp add: numeral_eq_Suc advance_refusing hidden_def del: advance.simps(9))
  next
    case False
    have "advance_n 4 (h, Checking ?q) = advance_n (Suc (Suc (Suc 0))) (h, Inserting ?q)"
      using False by (simp add: numeral_eq_Suc)
    then show ?thesis
      unfolding start using Inr r False by (simp add: advance_commit hidden_def Let_def a del: advance_n.simps)
  qed
qed


subsection \<open>The served host\<close>

record served =
  sv_host :: host
  sv_threads :: "phase list"

definition is_finished :: "phase \<Rightarrow> bool" where
  "is_finished p \<longleftrightarrow> (case p of Finished _ \<Rightarrow> True | _ \<Rightarrow> False)"

definition move :: "served \<Rightarrow> nat \<Rightarrow> served" where
  "move s i = (case advance (sv_host s) (sv_threads s ! i) of (h, p) \<Rightarrow>
     \<lparr>sv_host = h, sv_threads = (sv_threads s)[i := p]\<rparr>)"

inductive served_step :: "served \<Rightarrow> served \<Rightarrow> bool" where
  guarded_arrives: "route \<in> set (route_ids HOST_DECLARED_PATHS) \<Longrightarrow>
     served_step s (s\<lparr>sv_threads := sv_threads s @ [Arrived payload route True]\<rparr>)"
| hidden_arrives: "served_step s (s\<lparr>sv_threads := sv_threads s @ [Arrived payload ROUTE_HIDDEN_BATCH False]\<rparr>)"
| thread_moves: "i < length (sv_threads s) \<Longrightarrow> \<not> is_finished (sv_threads s ! i) \<Longrightarrow> served_step s (move s i)"

inductive reachable :: "host \<Rightarrow> served \<Rightarrow> bool" for h where
  start: "reachable h \<lparr>sv_host = h, sv_threads = []\<rparr>"
| step: "reachable h s \<Longrightarrow> served_step s t \<Longrightarrow> reachable h t"

inductive_cases served_stepE: "served_step s t"

subsection \<open>The invariant\<close>

text \<open>
  Keys and identifiers in the ledger are unique; a row that came on a declared route is covered by
  a valid authorization, and so is what a guarded thread is about to insert; the commits in the
  ledger are exactly those with a receipt and those whose thread has still to write it.
\<close>

definition covered_event :: "host \<Rightarrow> commit_event \<Rightarrow> string option \<Rightarrow> bool" where
  "covered_event h c tok \<longleftrightarrow> (\<exists>k a t st n. ce_authorization_ref c = Some k \<and> dict_get (ho_authorizations h) k = Some a
     \<and> tok = Some t \<and> store_at (ho_authority h) (ce_committed_at c) = Some st
     \<and> authorizes a c st (ho_issuer h) n t)"

definition from_registry :: "host \<Rightarrow> live_request \<Rightarrow> bool" where
  "from_registry h q \<longleftrightarrow> (\<forall>a. rq_auth q = Some a \<longrightarrow>
     (\<exists>k. ce_authorization_ref (rq_event q) = Some k \<and> dict_get (ho_authorizations h) k = Some a))"

fun phase_ok :: "host \<Rightarrow> phase \<Rightarrow> bool" where
  "phase_ok h (Arrived payload route g) \<longleftrightarrow> g \<longrightarrow> route \<in> set (route_ids HOST_DECLARED_PATHS)"
| "phase_ok h (Checking q) \<longleftrightarrow> from_registry h q \<and> (rq_guarded q \<or> ce_route_id (rq_event q) = ROUTE_HIDDEN_BATCH)"
| "phase_ok h (Validating q) \<longleftrightarrow> from_registry h q"
| "phase_ok h (Spending q a) \<longleftrightarrow> covered_event h (rq_event q) (rq_token q)"
| "phase_ok h (Storing q a n) \<longleftrightarrow> covered_event h (rq_event q) (rq_token q)"
| "phase_ok h (Inserting q) \<longleftrightarrow> ce_route_id (rq_event q) = ROUTE_HIDDEN_BATCH \<or> covered_event h (rq_event q) (rq_token q)"
| "phase_ok h (Observing q) \<longleftrightarrow> sql_integer (ce_committed_at (rq_event q))"
| "phase_ok h (Receipting q) \<longleftrightarrow> sql_integer (ce_committed_at (rq_event q))"
| "phase_ok h _ \<longleftrightarrow> True"

fun pending :: "phase \<Rightarrow> string list" where
  "pending (Observing q) = [ce_commit_id (rq_event q)]"
| "pending (Receipting q) = [ce_commit_id (rq_event q)]"
| "pending _ = []"

definition commit_ids :: "host \<Rightarrow> string list" where
  "commit_ids h = map (\<lambda>r. ce_commit_id (lr_event r)) (ho_ledger h)"

definition receipt_ids :: "host \<Rightarrow> string list" where
  "receipt_ids h = map cr_commit_id (ob_receipts (ho_observer h))"

definition row_ok :: "host \<Rightarrow> ledger_row \<Rightarrow> bool" where
  "row_ok h r \<longleftrightarrow> ce_route_id (lr_event r) = ROUTE_HIDDEN_BATCH \<or> covered_event h (lr_event r) (lr_token r)"

definition served_inv :: "served \<Rightarrow> bool" where
  "served_inv s \<longleftrightarrow> (let h = sv_host s in
     distinct (commit_ids h) \<and> distinct (map (\<lambda>r. ce_idempotency_key (lr_event r)) (ho_ledger h))
     \<and> list_all (row_ok h) (ho_ledger h) \<and> list_all (phase_ok h) (sv_threads s)
     \<and> (\<forall>r \<in> set (ob_receipts (ho_observer h)). cr_receipt_id r = ''receipt-'' @ cr_commit_id r)
     \<and> mset (receipt_ids h) + mset (concat (map pending (sv_threads s))) = mset (commit_ids h))"

text \<open>What a step of a thread changes, as far as the invariant looks at it.\<close>

lemma covered_event_frame:
  assumes "ho_authorizations h' = ho_authorizations h" "ho_authority h' = ho_authority h"
    and "is_secret (ho_issuer h') = is_secret (ho_issuer h)"
  shows "covered_event h' = covered_event h"
proof (intro ext)
  fix c tok
  have "verify_integrity (ho_issuer h') a = verify_integrity (ho_issuer h) a" for a
    using authorization_mac_secret [OF assms(3)] by (simp add: verify_integrity_def)
  then show "covered_event h' c tok = covered_event h c tok"
    unfolding covered_event_def authorizes_def assms(1,2) by simp
qed

lemma phase_ok_frame:
  "covered_event h' = covered_event h \<Longrightarrow> ho_authorizations h' = ho_authorizations h \<Longrightarrow> phase_ok h' p = phase_ok h p"
  by (cases p) (simp_all add: from_registry_def)

lemma row_ok_frame: "covered_event h' = covered_event h \<Longrightarrow> row_ok h' = row_ok h"
  by (simp add: row_ok_def fun_eq_iff)

definition same_world :: "host \<Rightarrow> host \<Rightarrow> bool" where
  "same_world h' h \<longleftrightarrow> ho_authorizations h' = ho_authorizations h \<and> ho_authority h' = ho_authority h
     \<and> is_secret (ho_issuer h') = is_secret (ho_issuer h)"

lemma fst_continue_with [simp]: "fst (continue_with m p) = fst m"
  by (simp add: continue_with_def split: prod.split sum.split)

lemma do_insert_frame [simp]:
  "ho_authorizations (fst (do_insert h c tok)) = ho_authorizations h" "ho_authority (fst (do_insert h c tok)) = ho_authority h"
  "ho_issuer (fst (do_insert h c tok)) = ho_issuer h" "ho_observer (fst (do_insert h c tok)) = ho_observer h"
  by (simp_all add: do_insert_def split: sum.split)

lemma advance_world: "same_world (fst (advance h p)) h"
  by (cases p) (simp_all add: same_world_def split: sum.split prod.split)

lemma same_world_covered: "same_world h' h \<Longrightarrow> covered_event h' = covered_event h"
  by (rule covered_event_frame) (simp_all add: same_world_def)

definition host_ok :: "host \<Rightarrow> bool" where
  "host_ok h \<longleftrightarrow> distinct (commit_ids h) \<and> distinct (map (\<lambda>r. ce_idempotency_key (lr_event r)) (ho_ledger h))
     \<and> list_all (row_ok h) (ho_ledger h)
     \<and> (\<forall>r \<in> set (ob_receipts (ho_observer h)). cr_receipt_id r = ''receipt-'' @ cr_commit_id r)"

definition balanced :: "host \<Rightarrow> string multiset \<Rightarrow> bool" where
  "balanced h M \<longleftrightarrow> mset (receipt_ids h) + M = mset (commit_ids h)"

lemma served_inv_iff:
  "served_inv s \<longleftrightarrow> host_ok (sv_host s) \<and> list_all (phase_ok (sv_host s)) (sv_threads s)
     \<and> balanced (sv_host s) (mset (concat (map pending (sv_threads s))))"
  by (auto simp: served_inv_def host_ok_def balanced_def Let_def)

lemma covered_stored [simp]: "covered_event h (stored_event c) tok = covered_event h c tok"
  by (simp add: covered_event_def)

text \<open>A step that leaves the ledger and the receipts alone.\<close>

lemma host_ok_quiet:
  assumes "host_ok h" "same_world h' h" "ho_ledger h' = ho_ledger h"
    and "ob_receipts (ho_observer h') = ob_receipts (ho_observer h)"
  shows "host_ok h'" "balanced h' M = balanced h M"
  using assms row_ok_frame [OF same_world_covered [OF assms(2)]]
  by (simp_all add: host_ok_def balanced_def commit_ids_def receipt_ids_def)

lemma arrival_quiet:
  assumes "host_ok h"
  shows "host_ok (fst (do_arrival h c x y k))" "balanced (fst (do_arrival h c x y k)) M = balanced h M"
    "same_world (fst (do_arrival h c x y k)) h"
proof -
  show w: "same_world (fst (do_arrival h c x y k)) h" by (simp add: same_world_def)
  show "host_ok (fst (do_arrival h c x y k))" "balanced (fst (do_arrival h c x y k)) M = balanced h M"
    by (rule host_ok_quiet [OF assms w]; simp)+
qed

lemma insert_ok:
  assumes "host_ok h" "commit_fresh (ho_ledger h) c" "row_ok h \<lparr>lr_event = c, lr_token = tok\<rparr>"
    and "h' = h\<lparr>ho_ledger := ho_ledger h @ [\<lparr>lr_event = stored_event c, lr_token = tok\<rparr>]\<rparr>"
  shows "host_ok h'" "balanced h M \<Longrightarrow> balanced h' (add_mset (ce_commit_id c) M)"
proof -
  have "same_world h' h" by (simp add: same_world_def assms(4))
  note row = row_ok_frame [OF same_world_covered [OF this]]
  have "row_ok h \<lparr>lr_event = stored_event c, lr_token = tok\<rparr>" using assms(3) by (simp add: row_ok_def)
  then show "host_ok h'"
    using assms(1,2) unfolding host_ok_def row by (auto simp: assms(4) commit_ids_def commit_fresh_def)
  show "balanced h M \<Longrightarrow> balanced h' (add_mset (ce_commit_id c) M)"
    by (simp add: balanced_def assms(4) commit_ids_def receipt_ids_def)
qed

text \<open>A receipt that is still to be written cannot clash with one that is there.\<close>

lemma receipt_ok:
  assumes "host_ok h" "balanced h (add_mset (ce_commit_id c) M)" "sql_integer (ce_committed_at c)"
  obtains h' where "do_receipt h c = (h', Inr ())" "host_ok h'" "balanced h' M" "ho_ledger h' = ho_ledger h"
proof -
  have no: "ce_commit_id c \<notin> set (receipt_ids h)"
  proof
    assume "ce_commit_id c \<in> set (receipt_ids h)"
    then have "0 < count (mset (receipt_ids h)) (ce_commit_id c)" by (simp add: count_greater_zero_iff)
    moreover have "count (mset (commit_ids h)) (ce_commit_id c)
        = count (mset (receipt_ids h)) (ce_commit_id c) + Suc (count M (ce_commit_id c))"
      unfolding assms(2) [unfolded balanced_def, symmetric] by simp
    moreover have "count (mset (commit_ids h)) (ce_commit_id c) \<le> 1"
      using assms(1) distinct_count_atmost_1 [of "commit_ids h"] by (simp add: host_ok_def)
    ultimately show False by linarith
  qed
  have "\<not> list_ex (\<lambda>r. cr_receipt_id r = cr_receipt_id (host_receipt c)) (ob_receipts (ho_observer h))"
    using assms(1) no by (force simp: list_ex_iff host_ok_def host_receipt_def receipt_ids_def)
  then have eq: "do_receipt h c = (h\<lparr>ho_observer := (ho_observer h)\<lparr>ob_receipts := ob_receipts (ho_observer h) @ [host_receipt c]\<rparr>\<rparr>, Inr ())"
    using assms(3) by (simp add: do_receipt_def insert_receipt_def)
  let ?h = "h\<lparr>ho_observer := (ho_observer h)\<lparr>ob_receipts := ob_receipts (ho_observer h) @ [host_receipt c]\<rparr>\<rparr>"
  have "same_world ?h h" by (simp add: same_world_def)
  note row = row_ok_frame [OF same_world_covered [OF this]]
  have "host_ok ?h" using assms(1) unfolding host_ok_def row by (auto simp: commit_ids_def host_receipt_def)
  moreover have "balanced ?h M"
    using assms(2) by (simp add: balanced_def commit_ids_def receipt_ids_def host_receipt_def)
  ultimately show thesis using that eq by simp
qed


lemma advance_ok:
  assumes "host_ok h" "phase_ok h p" "balanced h (mset (pending p) + M)"
  shows "host_ok (fst (advance h p)) \<and> phase_ok (fst (advance h p)) (snd (advance h p))
    \<and> balanced (fst (advance h p)) (mset (pending (snd (advance h p))) + M)"
proof (cases p)
  case (Arrived payload route g)
  show ?thesis
  proof (cases "build_commit h payload (if g then route else ROUTE_HIDDEN_BATCH)")
    case (Inr r)
    obtain c au tok where r: "r = (c, au, tok)" by (metis surj_pair)
    have "ce_route_id c = (if g then route else ROUTE_HIDDEN_BATCH)"
      by (rule build_commit_fields(1) [OF Inr [unfolded r]])
    moreover have "from_registry h \<lparr>rq_event = c, rq_auth = au, rq_token = tok, rq_guarded = g\<rparr>"
      using build_commit_fields(2) [OF Inr [unfolded r]] by (auto simp: from_registry_def)
    ultimately show ?thesis using assms Arrived Inr r by simp
  qed (use assms Arrived in simp)
next
  case (Checking q)
  with assms show ?thesis by (auto split: if_split)
next
  case (Validating q)
  show ?thesis
  proof (cases "report_valid (host_report h (rq_event q, rq_auth q, rq_token q))")
    case True
    then obtain a t where cov: "covered_request h (rq_event q, rq_auth q, rq_token q) a t"
      using host_report_valid_iff by blast
    then have a: "rq_auth q = Some a" by (simp add: covered_request_def)
    obtain k where "ce_authorization_ref (rq_event q) = Some k" "dict_get (ho_authorizations h) k = Some a"
      using assms(2) Validating a by (auto simp: from_registry_def)
    then have "covered_event h (rq_event q) (rq_token q)"
      using cov by (auto simp: covered_event_def covered_request_def)
    with assms Validating True a show ?thesis by (simp add: validate_step_def)
  qed (use assms Validating in \<open>simp add: validate_step_def Let_def\<close>)
next
  case (Storing q a n)
  have w: "same_world (do_store_use h a n) h" by (simp add: same_world_def)
  have "host_ok (do_store_use h a n)" "balanced (do_store_use h a n) M = balanced h M"
    by (rule host_ok_quiet [OF assms(1) w]; simp)+
  then show ?thesis using assms Storing same_world_covered [OF w] by simp
next
  case (Inserting q)
  show ?thesis
  proof (cases "commit_fresh (ho_ledger h) (rq_event q)")
    case True
    have row: "row_ok h \<lparr>lr_event = rq_event q, lr_token = rq_token q\<rparr>"
      using assms(2) Inserting by (auto simp: row_ok_def)
    note ins = insert_ok [OF assms(1) True row refl]
    have "balanced h M" using assms(3) Inserting by simp
    from ins(1) ins(2) [OF this] True show ?thesis
      by (simp add: Inserting do_insert_fresh) (simp add: commit_fresh_def)
  next
    case False
    then obtain e where "do_insert h (rq_event q) (rq_token q) = (h, Inl e)" using do_insert_stale by blast
    with assms Inserting show ?thesis by simp
  qed
next
  case (Observing q)
  let ?m = "do_arrival h (rq_event q) True True (Some (ce_commit_id (rq_event q)))"
  have "snd ?m = Inr ()" using assms(2) Observing by (simp add: do_arrival_ok)
  then have "advance h p = (fst ?m, Receipting q)"
    unfolding Observing advance.simps continue_with_def by (simp add: case_prod_beta)
  then show ?thesis
    using arrival_quiet [OF assms(1)] assms(2,3) Observing by simp
next
  case (Receipting q)
  have "balanced h (add_mset (ce_commit_id (rq_event q)) M)" using assms(3) Receipting by simp
  from receipt_ok [OF assms(1) this] assms(2) Receipting obtain h' where
    "do_receipt h (rq_event q) = (h', Inr ())" "host_ok h'" "balanced h' M" by auto
  then show ?thesis by (simp add: Receipting)
next
  case (Refusing q d)
  let ?m = "do_arrival h (rq_event q) False False None"
  obtain x where "advance h p = (fst ?m, Finished x)"
    unfolding Refusing advance.simps continue_with_def case_prod_beta by (cases "snd ?m") simp_all
  then show ?thesis
    using arrival_quiet [OF assms(1)] assms(3) Refusing by simp
qed (use assms in simp_all)

subsection \<open>Every reachable state keeps it\<close>

definition rest :: "('a \<Rightarrow> 'b list) \<Rightarrow> 'a list \<Rightarrow> nat \<Rightarrow> 'b multiset" where
  "rest f ts i = mset (concat (map f (take i ts @ drop (Suc i) ts)))"

lemma mset_concat_split: "i < length ts \<Longrightarrow> mset (concat (map f ts)) = mset (f (ts ! i)) + rest f ts i"
  by (subst id_take_nth_drop [of i ts]) (simp_all add: rest_def)

lemma mset_concat_update: "i < length ts \<Longrightarrow> mset (concat (map f (ts[i := p]))) = mset (f p) + rest f ts i"
  by (simp add: upd_conv_take_nth_drop rest_def)

lemma served_inv_move:
  assumes "served_inv s" "i < length (sv_threads s)"
  shows "served_inv (move s i)"
proof -
  let ?h = "sv_host s" let ?p = "sv_threads s ! i"
  obtain h' p' where a: "advance ?h ?p = (h', p')" by fastforce
  let ?M = "rest pending (sv_threads s) i"
  have inv: "host_ok ?h" "list_all (phase_ok ?h) (sv_threads s)" "balanced ?h (mset (pending ?p) + ?M)"
    using assms(1) unfolding served_inv_iff mset_concat_split [OF assms(2), of pending] by simp_all
  have p: "phase_ok ?h ?p" using inv(2) assms(2) by (simp add: list_all_length)
  have "h' = fst (advance ?h ?p)" "p' = snd (advance ?h ?p)" using a by simp_all
  with advance_ok [OF inv(1) p inv(3)] advance_world [of ?h ?p]
  have new: "host_ok h'" "phase_ok h' p'" "balanced h' (mset (pending p') + ?M)" "same_world h' ?h" by simp_all
  have "phase_ok h' q = phase_ok ?h q" for q
    using same_world_covered [OF new(4)] new(4) by (intro phase_ok_frame) (simp_all add: same_world_def)
  then have "list_all (phase_ok h') ((sv_threads s)[i := p'])"
    using inv(2) new(2) by (auto simp: list_all_iff dest!: subsetD [OF set_update_subset_insert])
  moreover note mset_concat_update [OF assms(2), of pending p']
  ultimately show ?thesis using new by (simp add: served_inv_iff move_def a)
qed


lemma served_inv_step: "served_step s t \<Longrightarrow> served_inv s \<Longrightarrow> served_inv t"
proof (induction rule: served_step.induct)
  case (guarded_arrives route s payload)
  then show ?case by (simp add: served_inv_iff)
next
  case (hidden_arrives s payload)
  then show ?case by (simp add: served_inv_iff)
next
  case (thread_moves i s)
  then show ?case by (blast intro: served_inv_move)
qed

definition idle :: "host \<Rightarrow> bool" where
  "idle h \<longleftrightarrow> ho_ledger h = [] \<and> ob_receipts (ho_observer h) = []"

lemma reachable_inv: "reachable h s \<Longrightarrow> idle h \<Longrightarrow> served_inv s"
proof (induction rule: reachable.induct)
  case start
  then show ?case by (simp add: served_inv_def idle_def commit_ids_def receipt_ids_def)
next
  case (step s t)
  then show ?case by (blast intro: served_inv_step)
qed

lemma reachable_world: "reachable h s \<Longrightarrow> same_world (sv_host s) h"
proof (induction rule: reachable.induct)
  case start
  then show ?case by (simp add: same_world_def)
next
  case (step s t)
  have "same_world (sv_host (move s i)) (sv_host s)" for i
    using advance_world [of "sv_host s" "sv_threads s ! i"] by (simp add: move_def case_prod_beta)
  then have "same_world (sv_host t) (sv_host s)"
    using step.hyps(2) by (auto elim: served_stepE simp: same_world_def)
  with step.IH show ?case by (simp add: same_world_def)
qed

text \<open>A schedule names the threads that move, one after the other.\<close>

fun valid_moves :: "served \<Rightarrow> nat list \<Rightarrow> bool" where
  "valid_moves s [] = True"
| "valid_moves s (i # ms) \<longleftrightarrow> i < length (sv_threads s) \<and> \<not> is_finished (sv_threads s ! i) \<and> valid_moves (move s i) ms"

subsection \<open>Properties\<close>

text \<open>C12: No interleaving of requests breaks the ledger: from an idle host, whatever guarded and hidden
  requests arrive and however their steps interleave, commit identifiers and idempotency keys stay
  unique, and every commit that came on a declared route is covered by a registered authorization
  that was valid for it, at the epoch in force at its tick and with the correlated token.\<close>

theorem interleaved_rows_covered:
  assumes "reachable h s" "idle h"
  shows "distinct (commit_ids (sv_host s))
    \<and> distinct (map (\<lambda>r. ce_idempotency_key (lr_event r)) (ho_ledger (sv_host s)))
    \<and> (\<forall>r \<in> set (ho_ledger (sv_host s)). ce_route_id (lr_event r) \<noteq> ROUTE_HIDDEN_BATCH \<longrightarrow>
         (\<exists>k a t st n. ce_authorization_ref (lr_event r) = Some k \<and> dict_get (ho_authorizations h) k = Some a
            \<and> lr_token r = Some t \<and> store_at (ho_authority h) (ce_committed_at (lr_event r)) = Some st
            \<and> authorizes a (lr_event r) st (ho_issuer h) n t))"
proof -
  have "served_inv s" by (rule reachable_inv [OF assms])
  moreover have "covered_event (sv_host s) = covered_event h"
    by (rule same_world_covered [OF reachable_world [OF assms(1)]])
  ultimately show ?thesis
    unfolding covered_event_def [symmetric] by (auto simp: served_inv_def Let_def list_all_iff row_ok_def)
qed

text \<open>C13: An authorization bound to its idempotency key is never spent twice: in no reachable state does the
  ledger hold two commits from declared routes that refer to it, however its requests race.\<close>

theorem one_commit_per_authorization:
  assumes "reachable h s" "idle h" "dict_get (ho_authorizations h) k = Some a"
    and "au_idempotency_key a \<noteq> NON_APPLICABLE"
    and "r \<in> set (ho_ledger (sv_host s))" "r' \<in> set (ho_ledger (sv_host s))"
    and "ce_route_id (lr_event r) \<noteq> ROUTE_HIDDEN_BATCH" "ce_route_id (lr_event r') \<noteq> ROUTE_HIDDEN_BATCH"
    and "ce_authorization_ref (lr_event r) = Some k" "ce_authorization_ref (lr_event r') = Some k"
  shows "r = r'"
proof -
  have "served_inv s" by (rule reachable_inv [OF assms(1,2)])
  moreover have "covered_event (sv_host s) = covered_event h"
    by (rule same_world_covered [OF reachable_world [OF assms(1)]])
  ultimately have inv: "distinct (map (\<lambda>r. ce_idempotency_key (lr_event r)) (ho_ledger (sv_host s)))"
    "row_ok (sv_host s) r" "row_ok (sv_host s) r'" "covered_event (sv_host s) = covered_event h"
    using assms(5,6) by (auto simp: served_inv_def Let_def list_all_iff)
  have key: "ce_idempotency_key (lr_event x) = au_idempotency_key a"
    if "row_ok (sv_host s) x" "ce_route_id (lr_event x) \<noteq> ROUTE_HIDDEN_BATCH"
      "ce_authorization_ref (lr_event x) = Some k" for x
    using that assms(3,4) by (auto simp: row_ok_def inv(4) covered_event_def authorizes_def bound_to_def)
  from key [OF inv(2) assms(7,9)] key [OF inv(3) assms(8,10)] inv(1) assms(5,6) show ?thesis
    by (simp add: distinct_map) (metis (mono_tags, lifting) inj_onD)
qed

text \<open>The observer misses nothing: once the threads of a served host have finished, the receipts are
  one for one those of the commits in its ledger.\<close>

theorem receipts_complete_at_rest:
  assumes "reachable h s" "idle h" "list_all is_finished (sv_threads s)"
  shows "mset (receipt_ids (sv_host s)) = mset (commit_ids (sv_host s))"
proof -
  have "pending p = []" if "is_finished p" for p using that by (cases p) (simp_all add: is_finished_def)
  then have "concat (map pending (sv_threads s)) = []" using assms(3) by (auto simp: list_all_iff)
  with reachable_inv [OF assms(1,2)] show ?thesis by (simp add: served_inv_def Let_def)
qed

subsection \<open>What a race does\<close>

text \<open>
  Two requests for the same authorization both pass the lookup and the validation before either
  records its use. What follows depends on how the two halves of \<open>record_use\<close> interleave and on
  whether the ledger takes both commits.
\<close>

lemma moves_reachable:
  "reachable h s \<Longrightarrow> valid_moves s ms \<Longrightarrow> reachable h (foldl move s ms)"
  by (induction ms arbitrary: s) (auto intro: reachable.step served_step.thread_moves)

lemma valid_moves_append:
  "valid_moves s (ms @ ns) \<longleftrightarrow> valid_moves s ms \<and> valid_moves (foldl move s ms) ns"
  by (induction ms arbitrary: s) simp_all

lemma two_arrivals:
  assumes "route1 \<in> set (route_ids HOST_DECLARED_PATHS)" "route2 \<in> set (route_ids HOST_DECLARED_PATHS)"
  shows "reachable h \<lparr>sv_host = h, sv_threads = [Arrived p1 route1 True, Arrived p2 route2 True]\<rparr>"
proof -
  let ?s0 = "\<lparr>sv_host = h, sv_threads = []\<rparr>" let ?s1 = "?s0\<lparr>sv_threads := [Arrived p1 route1 True]\<rparr>"
  have "served_step ?s0 ?s1" using served_step.guarded_arrives [OF assms(1), of ?s0 p1] by simp
  then have "reachable h ?s1" by (rule reachable.step [OF reachable.start])
  moreover have "served_step ?s1 (?s1\<lparr>sv_threads := [Arrived p1 route1 True, Arrived p2 route2 True]\<rparr>)"
    using served_step.guarded_arrives [OF assms(2), of ?s1 p2] by simp
  ultimately have "reachable h (?s1\<lparr>sv_threads := [Arrived p1 route1 True, Arrived p2 route2 True]\<rparr>)"
    by (rule reachable.step)
  then show ?thesis by simp
qed

text \<open>What both requests of the race are.\<close>

definition racing :: "host \<Rightarrow> json \<Rightarrow> string \<Rightarrow> authorization \<Rightarrow> commit_event \<Rightarrow> string \<Rightarrow> bool" where
  "racing h payload route a c token \<longleftrightarrow> build_commit h payload route = Inr (c, Some a, Some token)
     \<and> covered_request h (c, Some a, Some token) a token \<and> commit_fresh (ho_ledger h) c
     \<and> route \<in> set (route_ids HOST_DECLARED_PATHS)"

definition live_one :: "authorization \<Rightarrow> commit_event \<Rightarrow> string \<Rightarrow> live_request" where
  "live_one a c token = \<lparr>rq_event = c, rq_auth = Some a, rq_token = Some token, rq_guarded = True\<rparr>"

lemma live_one_simps [simp]:
  "rq_event (live_one a c token) = c" "rq_auth (live_one a c token) = Some a"
  "rq_token (live_one a c token) = Some token" "rq_guarded (live_one a c token) = True"
  by (simp_all add: live_one_def)

lemma racing_steps:
  assumes "racing h payload route a c token"
  shows "advance h (Arrived payload route True) = (h, Checking (live_one a c token))"
    "advance h (Checking (live_one a c token)) = (h, Validating (live_one a c token))"
    "advance h (Validating (live_one a c token)) = (h, Spending (live_one a c token) a)"
proof -
  have "report_valid (host_report h (c, Some a, Some token))"
    using assms host_report_valid_iff by (auto simp: racing_def)
  moreover have "\<not> idempotency_seen (ho_ledger h) (ce_idempotency_key c)"
    using assms by (simp add: racing_def commit_fresh_def idempotency_seen_iff image_image)
  ultimately show "advance h (Arrived payload route True) = (h, Checking (live_one a c token))"
    "advance h (Checking (live_one a c token)) = (h, Validating (live_one a c token))"
    "advance h (Validating (live_one a c token)) = (h, Spending (live_one a c token) a)"
    using assms by (simp_all add: racing_def validate_step_def Let_def live_one_def)
qed

lemma use_steps:
  "advance h (Spending (live_one a c token) b)
     = (h, Storing (live_one a c token) b (use_count (ho_issuer h) (au_authorization_id b)))"
  "advance h (Storing (live_one a c token) b n) = (do_store_use h b n, Inserting (live_one a c token))"
  by simp_all

lemma unfinished [simp]:
  "is_finished (Arrived p r g) = False" "is_finished (Checking q) = False" "is_finished (Validating q) = False"
  "is_finished (Spending q a) = False" "is_finished (Storing q a n) = False" "is_finished (Inserting q) = False"
  "is_finished (Observing q) = False" "is_finished (Receipting q) = False" "is_finished (Finished d) = True"
  by (simp_all add: is_finished_def)

definition both_arrived :: "host \<Rightarrow> json \<Rightarrow> string \<Rightarrow> json \<Rightarrow> string \<Rightarrow> served" where
  "both_arrived h p1 route1 p2 route2 =
     \<lparr>sv_host = h, sv_threads = [Arrived p1 route1 True, Arrived p2 route2 True]\<rparr>"

text \<open>Both requests store a use that the other's has been added to, or both store the same count.\<close>

lemma uses_in_turn:
  assumes "racing h p1 route1 a c1 t1" "racing h p2 route2 a c2 t2"
  shows "valid_moves (both_arrived h p1 route1 p2 route2) [0, 0, 0, 1, 1, 1, 0, 0, 1, 1]"
    "foldl move (both_arrived h p1 route1 p2 route2) [0, 0, 0, 1, 1, 1, 0, 0, 1, 1]
       = \<lparr>sv_host = do_record_use (do_record_use h a) a, sv_threads = [Inserting (live_one a c1 t1), Inserting (live_one a c2 t2)]\<rparr>"
  by (simp_all add: both_arrived_def move_def racing_steps [OF assms(1)] racing_steps [OF assms(2)]
      use_steps do_store_use_read del: advance.simps do_record_use_issuer)

lemma uses_at_once:
  assumes "racing h p1 route1 a c1 t1" "racing h p2 route2 a c2 t2"
  shows "valid_moves (both_arrived h p1 route1 p2 route2) [0, 0, 0, 1, 1, 1, 0, 1, 0, 1]"
    "foldl move (both_arrived h p1 route1 p2 route2) [0, 0, 0, 1, 1, 1, 0, 1, 0, 1]
       = \<lparr>sv_host = do_store_use (do_record_use h a) a (use_count (ho_issuer h) (au_authorization_id a)),
          sv_threads = [Inserting (live_one a c1 t1), Inserting (live_one a c2 t2)]\<rparr>"
  by (simp_all add: both_arrived_def move_def racing_steps [OF assms(1)] racing_steps [OF assms(2)]
      use_steps do_store_use_read del: advance.simps do_record_use_issuer)

text \<open>A thread that is about to insert a fresh commit finishes it in three moves.\<close>

definition after_commit :: "host \<Rightarrow> commit_event \<Rightarrow> string \<Rightarrow> host" where
  "after_commit h c token = h\<lparr>ho_ledger := ho_ledger h @ [\<lparr>lr_event = stored_event c, lr_token = Some token\<rparr>],
     ho_observer := \<lparr>ob_receipts = ob_receipts (ho_observer h) @ [host_receipt c],
       ob_routes = ob_routes (ho_observer h) @ [\<lparr>ro_route_id = ce_route_id c, ro_observed_at = ce_committed_at c,
         ro_admitted = True, ro_committed = True, ro_commit_id = Some (ce_commit_id c)\<rparr>]\<rparr>\<rparr>"

lemma after_commit_simps [simp]:
  "ho_ledger (after_commit h c token) = ho_ledger h @ [\<lparr>lr_event = stored_event c, lr_token = Some token\<rparr>]"
  "ob_receipts (ho_observer (after_commit h c token)) = ob_receipts (ho_observer h) @ [host_receipt c]"
  "ho_issuer (after_commit h c token) = ho_issuer h" "ho_sink (after_commit h c token) = ho_sink h"
  "ho_authorizations (after_commit h c token) = ho_authorizations h" "ho_authority (after_commit h c token) = ho_authority h"
  by (simp_all add: after_commit_def)

definition receipts_match :: "host \<Rightarrow> bool" where
  "receipts_match h \<longleftrightarrow> ob_receipts (ho_observer h) = map (\<lambda>r. host_receipt (lr_event r)) (ho_ledger h)"

lemma receipts_match_commit: "receipts_match h \<Longrightarrow> receipts_match (after_commit h c token)"
  by (simp add: receipts_match_def)

lemma receipt_id_inject: "cr_receipt_id (host_receipt x) = cr_receipt_id (host_receipt y) \<longleftrightarrow> ce_commit_id x = ce_commit_id y"
  by (simp add: host_receipt_def)

lemma commit_moves:
  assumes "commit_fresh (ho_ledger h) c" "receipts_match h" "i < length ps" "ps ! i = Inserting (live_one a c token)"
  shows "valid_moves \<lparr>sv_host = h, sv_threads = ps\<rparr> [i, i, i]"
    "foldl move \<lparr>sv_host = h, sv_threads = ps\<rparr> [i, i, i] = \<lparr>sv_host = after_commit h c token,
       sv_threads = ps[i := Finished (Inr (accept_decision (live_one a c token)))]\<rparr>"
proof -
  let ?q = "live_one a c token"
  let ?hi = "h\<lparr>ho_ledger := ho_ledger h @ [\<lparr>lr_event = stored_event c, lr_token = Some token\<rparr>]\<rparr>"
  let ?ho = "?hi\<lparr>ho_observer := (ho_observer h)\<lparr>ob_routes := ob_routes (ho_observer h) @
     [\<lparr>ro_route_id = ce_route_id c, ro_observed_at = ce_committed_at c,
        ro_admitted = True, ro_committed = True, ro_commit_id = Some (ce_commit_id c)\<rparr>]\<rparr>\<rparr>"
  have sq: "sql_integer (ce_committed_at c)" using assms(1) by (simp add: commit_fresh_def)
  have ins: "advance h (Inserting ?q) = (?hi, Observing ?q)" by (simp add: do_insert_fresh [OF assms(1)])
  have obs: "advance ?hi (Observing ?q) = (?ho, Receipting ?q)" by (simp add: do_arrival_ok [OF sq])
  have "\<not> list_ex (\<lambda>r. cr_receipt_id r = cr_receipt_id (host_receipt c)) (ob_receipts (ho_observer ?ho))"
    using assms(1,2) unfolding list_ex_iff
    by (simp add: receipts_match_def receipt_id_inject commit_fresh_def image_iff eq_commute)
  then have rec: "advance ?ho (Receipting ?q) = (after_commit h c token, Finished (Inr (accept_decision ?q)))"
    by (simp add: do_receipt_def insert_receipt_def sq after_commit_def)
  show "valid_moves \<lparr>sv_host = h, sv_threads = ps\<rparr> [i, i, i]"
    "foldl move \<lparr>sv_host = h, sv_threads = ps\<rparr> [i, i, i] = \<lparr>sv_host = after_commit h c token,
       sv_threads = ps[i := Finished (Inr (accept_decision ?q))]\<rparr>"
    using assms(3,4) by (simp_all add: move_def ins obs rec del: advance.simps)
qed

lemma do_insert_conflict:
  assumes "sql_integer (ce_committed_at c)" "ce_idempotency_key c \<in> (\<lambda>r. ce_idempotency_key (lr_event r)) ` set (ho_ledger h)"
  obtains k where "do_insert h c token = (h, Inl (IntegrityError k))"
proof (cases "list_ex (\<lambda>r. ce_commit_id (lr_event r) = ce_commit_id c) (ho_ledger h)")
  case True
  with assms(1) that show thesis by (simp add: do_insert_def ledger_commit_def)
next
  case False
  have "list_ex (\<lambda>r. ce_idempotency_key (lr_event r) = ce_idempotency_key c) (ho_ledger h)"
    using assms(2) by (simp add: list_ex_image [symmetric])
  with False assms(1) that show thesis by (simp add: do_insert_def ledger_commit_def)
qed

lemma accept_live_one:
  "accept_decision (live_one a c token) = decision ''ADMITTED'' ''ALL_BINDINGS_SATISFIED'' (Some (ce_commit_id c)) []"
  by (simp add: accept_decision_def)

lemma both_arrived_reachable:
  assumes "racing h p1 route1 a c1 t1" "racing h p2 route2 a c2 t2" "valid_moves (both_arrived h p1 route1 p2 route2) ms"
  shows "reachable h (foldl move (both_arrived h p1 route1 p2 route2) ms)"
  using assms moves_reachable two_arrivals unfolding both_arrived_def racing_def by blast

text \<open>Equal keys: the ledger keeps one commit, both uses are counted.\<close>

lemma race_final:
  assumes "racing h p1 route1 a c1 t1" "racing h p2 route2 a c2 t2"
    and "ce_idempotency_key c1 = ce_idempotency_key c2" "receipts_match h"
  obtains ms k where "valid_moves (both_arrived h p1 route1 p2 route2) ms"
    "foldl move (both_arrived h p1 route1 p2 route2) ms = \<lparr>sv_host = after_commit (do_record_use (do_record_use h a) a) c1 t1,
       sv_threads = [Finished (Inr (accept_decision (live_one a c1 t1))), Finished (Inl (IntegrityError k))]\<rparr>"
proof -
  let ?s = "both_arrived h p1 route1 p2 route2" and ?hu = "do_record_use (do_record_use h a) a"
  let ?ps = "[Inserting (live_one a c1 t1), Inserting (live_one a c2 t2)]"
  let ?hc = "after_commit ?hu c1 t1"
  have f: "commit_fresh (ho_ledger ?hu) c1" "receipts_match ?hu"
    using assms(1,4) by (simp_all add: racing_def receipts_match_def)
  note first = commit_moves [OF f, of 0 ?ps a t1, simplified nth_Cons_0 list_update_code length_Cons list.size]
  have "sql_integer (ce_committed_at c2)" using assms(2) by (simp add: racing_def commit_fresh_def)
  moreover have "ce_idempotency_key c2 \<in> (\<lambda>r. ce_idempotency_key (lr_event r)) ` set (ho_ledger ?hc)"
    using assms(3) by simp
  ultimately obtain k where k: "do_insert ?hc c2 (Some t2) = (?hc, Inl (IntegrityError k))" by (rule do_insert_conflict)
  let ?t = "\<lparr>sv_host = ?hc, sv_threads = [Finished (Inr (accept_decision (live_one a c1 t1))), Inserting (live_one a c2 t2)]\<rparr>"
  have last: "valid_moves ?t [1]" "foldl move ?t [1] = \<lparr>sv_host = ?hc,
     sv_threads = [Finished (Inr (accept_decision (live_one a c1 t1))), Finished (Inl (IntegrityError k))]\<rparr>"
    by (simp_all add: move_def k)
  show thesis
    by (rule that [of "[0, 0, 0, 1, 1, 1, 0, 0, 1, 1] @ [0, 0, 0] @ [1]" k])
      (use first last in \<open>simp_all only: valid_moves_append foldl_append uses_in_turn [OF assms(1,2)] simp_thms\<close>)
qed

text \<open>Different keys and a lost use: the ledger takes both commits, one use is counted.\<close>

lemma dict_set_again [simp]: "dict_set k v (dict_set k w d) = dict_set k v d"
  unfolding dict_set_def by (induction d) auto

lemma use_stored_again: "do_store_use (do_record_use h a) a (use_count (ho_issuer h) (au_authorization_id a)) = do_record_use h a"
  by (simp add: do_store_use_def do_record_use_def record_use_def Let_def)

lemma both_commit:
  assumes "racing h p1 route1 a c1 t1" "racing h p2 route2 a c2 t2" "receipts_match h"
    and "ce_commit_id c1 \<noteq> ce_commit_id c2" "ce_idempotency_key c1 \<noteq> ce_idempotency_key c2"
  obtains ms where "valid_moves (both_arrived h p1 route1 p2 route2) ms"
    "foldl move (both_arrived h p1 route1 p2 route2) ms = \<lparr>sv_host = after_commit (after_commit (do_record_use h a) c1 t1) c2 t2,
       sv_threads = [Finished (Inr (accept_decision (live_one a c1 t1))), Finished (Inr (accept_decision (live_one a c2 t2)))]\<rparr>"
proof -
  let ?hu = "do_record_use h a" and ?hc = "after_commit (do_record_use h a) c1 t1"
  let ?ps = "[Inserting (live_one a c1 t1), Inserting (live_one a c2 t2)]"
  let ?qs = "[Finished (Inr (accept_decision (live_one a c1 t1))), Inserting (live_one a c2 t2)]"
  have f: "commit_fresh (ho_ledger ?hu) c1" "receipts_match ?hu"
    using assms(1,3) by (simp_all add: racing_def receipts_match_def)
  note first = commit_moves [OF f, of 0 ?ps a t1, simplified nth_Cons_0 list_update_code length_Cons list.size]
  have g: "commit_fresh (ho_ledger ?hc) c2"
    using assms(2,4,5) by (auto simp: racing_def commit_fresh_def)
  have "?qs ! 1 = Inserting (live_one a c2 t2)" "1 < length ?qs" by simp_all
  note second = commit_moves [OF g receipts_match_commit [OF f(2)] this(2,1)]
  show thesis
    by (rule that [of "[0, 0, 0, 1, 1, 1, 0, 1, 0, 1] @ [0, 0, 0] @ [1, 1, 1]"])
      (use first second in \<open>simp_all only: valid_moves_append foldl_append uses_at_once [OF assms(1,2)] use_stored_again
        simp_thms, simp_all\<close>)
qed

text \<open>In sequence the second request is refused.\<close>

lemma build_commit_frame:
  "ho_authorizations h' = ho_authorizations h \<Longrightarrow> ho_authority h' = ho_authority h \<Longrightarrow>
   build_commit h' payload route = build_commit h payload route"
  unfolding build_commit_def find_authorization_def by (simp only:)

lemma guarded_one:
  assumes "racing h payload route a c token" "receipts_match h"
  shows "fst (guarded h payload route) = after_commit (do_record_use h a) c token"
proof -
  have f: "commit_fresh (ho_ledger (do_record_use h a)) c" using assms(1) by (simp add: racing_def)
  have i: "\<not> idempotency_seen (ho_ledger h) (ce_idempotency_key c)"
    using assms(1) by (simp add: racing_def commit_fresh_def idempotency_seen_iff image_image)
  have "''receipt-'' @ ce_commit_id c \<notin> cr_receipt_id ` set (ob_receipts (ho_observer h))"
    using assms f by (auto simp: receipts_match_def host_receipt_def commit_fresh_def image_image)
  then show ?thesis
    using assms(1) f unfolding racing_def
    by (subst guarded_admits [where a = a and c = c and token = token])
      (simp_all add: i do_insert_fresh [OF f] record_commit_ok commit_fresh_def host_receipt_def after_commit_def)
qed

lemma second_refused:
  assumes "build_commit h payload route = Inr (c, Some a, Some token)" "sql_integer (ce_committed_at c)"
    and "au_max_uses a \<le> use_count (ho_issuer h) (au_authorization_id a)"
  shows "\<exists>d. snd (guarded h payload route) = Inr d \<and> hd_outcome d = ''REFUSED''"
proof -
  have "\<not> covered_request h (c, Some a, Some token) b t" for b t
    using assms(3) by (auto simp: covered_request_def authorizes_def)
  then have "\<not> report_valid (host_report h (c, Some a, Some token))" using host_report_valid_iff by blast
  then show ?thesis
    using assms(1,2) by (simp add: guarded_def Let_def do_arrival_ok decision_def)
qed

text \<open>What the verifier's invariant says after a use and after a covered commit.\<close>

lemma host_inv_receipts: "host_inv h \<Longrightarrow> receipts_match h"
  by (simp add: host_inv_def receipts_match_def)

lemma host_inv_use:
  assumes "host_inv h" "dict_get (ho_authorizations h) k = Some a"
    and "use_count (ho_issuer h) (au_authorization_id a) + 1 \<le> au_max_uses a"
  shows "host_inv (do_record_use h a)"
proof -
  have "list_all (row_cleared (do_record_use h a)) (ho_ledger h)"
    using assms(1) row_cleared_use [OF _ _ assms(2,3)] by (simp add: host_inv_def list_all_iff)
  then show ?thesis using assms(1) by (simp add: host_inv_def registry_ok_def)
qed

lemma host_inv_commit:
  assumes "host_inv h" "commit_fresh (ho_ledger h) c" "ce_route_id c \<in> set (route_ids HOST_DECLARED_PATHS)"
    and "row_cleared h \<lparr>lr_event = stored_event c, lr_token = Some token\<rparr>"
  shows "host_inv (after_commit h c token)"
proof -
  have "row_cleared (after_commit h c token) = row_cleared h" by (rule ext, rule row_cleared_frame) simp_all
  then show ?thesis
    using assms by (auto simp: host_inv_def registry_ok_def commit_fresh_def after_commit_def)
qed

lemma racing_row:
  assumes "racing h payload route a c token" "host_inv h"
  shows "row_cleared (do_record_use h a) \<lparr>lr_event = stored_event c, lr_token = Some token\<rparr>"
    "dict_get (ho_authorizations h) (au_authorization_id a) = Some a"
    "ce_route_id c \<in> set (route_ids HOST_DECLARED_PATHS)" "sql_integer (ce_committed_at c)"
proof -
  have b: "build_commit h payload route = Inr (c, Some a, Some token)" using assms(1) by (simp add: racing_def)
  obtain k where k: "ce_authorization_ref c = Some k" "k \<noteq> []" "dict_get (ho_authorizations h) k = Some a"
    using build_commit_fields(2) [OF b refl] by blast
  have id: "au_authorization_id a = k" using assms(2) k(3) by (simp add: host_inv_def registry_ok_def)
  with k(3) show "dict_get (ho_authorizations h) (au_authorization_id a) = Some a" by simp
  show "ce_route_id c \<in> set (route_ids HOST_DECLARED_PATHS)" "sql_integer (ce_committed_at c)"
    using assms(1) build_commit_fields(1) [OF b] by (simp_all add: racing_def commit_fresh_def)
  from assms(1) obtain st where st: "store_at (ho_authority h) (ce_committed_at c) = Some st"
    "authorizes a c st (ho_issuer h) (use_count (ho_issuer h) k + 1) token"
    by (auto simp: racing_def covered_request_def id)
  then have "authorizes a c st (ho_issuer (do_record_use h a)) (use_count (ho_issuer (do_record_use h a)) k) token"
    by (simp add: authorizes_def id)
  then show "row_cleared (do_record_use h a) \<lparr>lr_event = stored_event c, lr_token = Some token\<rparr>"
    unfolding row_cleared_def using k st(1) by auto
qed

lemma both_commit_clean:
  assumes "racing h p1 route1 a c1 t1" "racing h p2 route2 a c2 t2" "host_inv h"
    and "ce_commit_id c1 \<noteq> ce_commit_id c2" "ce_idempotency_key c1 \<noteq> ce_idempotency_key c2"
    and "au_max_uses a = use_count (ho_issuer h) (au_authorization_id a) + 1"
  shows "cv_disposition (host_verdict (after_commit (after_commit (do_record_use h a) c1 t1) c2 t2)) = NO_BOUNDARY_COUNTEREXAMPLE"
proof (intro host_inv_clean host_inv_commit)
  note 1 = racing_row [OF assms(1,3)] and 2 = racing_row [OF assms(2,3)]
  show "host_inv (do_record_use h a)" using assms(6) by (intro host_inv_use [OF assms(3) 1(2)]) simp
  show "row_cleared (do_record_use h a) \<lparr>lr_event = stored_event c1, lr_token = Some t1\<rparr>" by (rule 1(1))
  have "row_cleared (after_commit (do_record_use h a) c1 t1) = row_cleared (do_record_use h a)"
    by (rule ext, rule row_cleared_frame) simp_all
  then show "row_cleared (after_commit (do_record_use h a) c1 t1) \<lparr>lr_event = stored_event c2, lr_token = Some t2\<rparr>"
    using 2(1) by simp
  show "ce_route_id c1 \<in> set (route_ids HOST_DECLARED_PATHS)" "ce_route_id c2 \<in> set (route_ids HOST_DECLARED_PATHS)"
    by (rule 1(3), rule 2(3))
  show "commit_fresh (ho_ledger (do_record_use h a)) c1"
    "commit_fresh (ho_ledger (after_commit (do_record_use h a) c1 t1)) c2"
    using assms(1,2,4,5) by (auto simp: racing_def commit_fresh_def)
qed

lemma overused_report:
  assumes "au_max_uses a < n"
  shows "mismatches (validate_authorization (Some a) c st i (Some n) token) \<noteq> []"
  using assms by (simp add: validate_authorization_def mismatches_def use_dim_def filter_empty_conv)

lemma overuse_crosses:
  assumes "racing h p1 route1 a c1 t1" "host_inv h" "ce_sink_id c1 = ps_sink_id (ho_sink h)"
    and "au_max_uses a < use_count (ho_issuer h) (au_authorization_id a) + 2"
  shows "cv_disposition (host_verdict (after_commit (do_record_use (do_record_use h a) a) c1 t1)) = CONSEQUENCE_BOUNDARY_FAILURE"
proof -
  let ?h = "after_commit (do_record_use (do_record_use h a) a) c1 t1"
  let ?ev = "host_evidence ?h" and ?c = "stored_event c1"
  have b: "build_commit h p1 route1 = Inr (c1, Some a, Some t1)" using assms(1) by (simp add: racing_def)
  obtain k where k: "ce_authorization_ref c1 = Some k" "k \<noteq> []" "dict_get (ho_authorizations h) k = Some a"
    using build_commit_fields(2) [OF b refl] by blast
  have id: "au_authorization_id a = k" using assms(2) k(3) by (simp add: host_inv_def registry_ok_def)
  have n: "dict_get (ev_use_counts ?ev) k = Some (use_count (ho_issuer h) k + 2)"
    using dict_get_map_key [OF k(3), of "use_count (ho_issuer ?h)"] by (simp add: host_evidence_def id)
  have au: "commit_authorization ?ev ?c = Some a"
    using k by (simp add: commit_authorization_def host_evidence_def)
  have "mismatches (commit_report ?ev (ho_authority ?h) ?c) \<noteq> []"
    unfolding commit_report_def au using assms(4) by (simp add: k(1) n id overused_report)
  moreover have "receipt_for ?ev (ce_commit_id ?c) \<noteq> None"
    by (auto simp: receipt_for_def find_receipt_None_iff host_evidence_def observer_receipts_def
        host_receipt_def image_iff intro!: bexI [of _ "host_receipt c1"])
  moreover have "?c \<in> set (protected_commits ?ev)"
    using assms(3) by (simp add: protected_commits_def host_evidence_def ledger_commits_def protects_def)
  moreover have "ev_authority ?ev = Some (ho_authority ?h)" "ev_instrument_failures ?ev = []"
    by (simp_all add: host_evidence_def)
  ultimately show ?thesis unfolding host_verdict_def crossing_run_iff finding_crossing_iff using au by blast
qed



end
