(* ===== verification/Host_Locks.thy ===== *)
theory Host_Locks
  imports Host_Steps
begin

section \<open>The locks of the host\<close>

text \<open>
  \<open>SQLiteLedger\<close> and \<open>SQLiteObserver\<close> of \<open>oat/integration/host_sink.py\<close> write under a lock of their
  own: \<open>with self._lock, self._connect() as con\<close> acquires the lock and opens a transaction, the
  statement is executed against the committed rows and may raise, the transaction is committed or
  rolled back, and the lock is released on either way out. Other threads may run between any two of
  these. \<open>threading.Lock\<close> is not reentrant: a thread that finds a lock taken waits, whoever holds
  it. Requests that only read (\<open>idempotency_seen\<close>, the validation) and \<open>record_use\<close> take no lock.
\<close>

datatype host_lock = Ledger_Lock | Observer_Lock

fun lock_of :: "phase \<Rightarrow> host_lock option" where
  "lock_of (Inserting q) = Some Ledger_Lock"
| "lock_of (Observing q) = Some Observer_Lock"
| "lock_of (Receipting q) = Some Observer_Lock"
| "lock_of (Refusing q d) = Some Observer_Lock"
| "lock_of _ = None"

text \<open>What a transaction has written and not yet committed: no other connection sees it.\<close>

datatype uncommitted = Ledger_Rows "ledger_row list" | Observer_Tables observer

fun statement :: "host \<Rightarrow> phase \<Rightarrow> uncommitted res" where
  "statement h (Inserting q) =
     bindE (ledger_commit (ho_ledger h) (rq_event q) (rq_token q)) (\<lambda>rows. Inr (Ledger_Rows rows))"
| "statement h (Observing q) =
     bindE (record_arrival (ho_observer h) (ce_route_id (rq_event q)) (ce_committed_at (rq_event q)) True True
       (Some (ce_commit_id (rq_event q)))) (\<lambda>ob. Inr (Observer_Tables ob))"
| "statement h (Receipting q) = bindE (insert_receipt (ho_observer h) (rq_event q)) (\<lambda>ob. Inr (Observer_Tables ob))"
| "statement h (Refusing q d) =
     bindE (record_arrival (ho_observer h) (ce_route_id (rq_event q)) (ce_committed_at (rq_event q)) False False None)
       (\<lambda>ob. Inr (Observer_Tables ob))"
| "statement h _ = Inl AssertionError"

fun publish :: "uncommitted \<Rightarrow> host \<Rightarrow> host" where
  "publish (Ledger_Rows rows) h = h\<lparr>ho_ledger := rows\<rparr>"
| "publish (Observer_Tables ob) h = h\<lparr>ho_observer := ob\<rparr>"

fun after_statement :: "phase \<Rightarrow> phase" where
  "after_statement (Inserting q) = Observing q"
| "after_statement (Observing q) = Receipting q"
| "after_statement (Receipting q) = Finished (Inr (accept_decision q))"
| "after_statement (Refusing q d) = Finished (Inr d)"
| "after_statement p = p"

text \<open>
  Where a thread stands: outside every lock before its next phase; with the lock acquired and the
  transaction begun; with the statement executed; with the transaction committed or rolled back and
  the lock still to be released.
\<close>

datatype stage =
    Outside phase
  | Acquired host_lock phase
  | Executed host_lock phase uncommitted
  | Ended host_lock phase

type_synonym owners = "host_lock \<Rightarrow> nat option"

definition enabled :: "owners \<Rightarrow> stage \<Rightarrow> bool" where
  "enabled ow st = (case st of
     Outside p \<Rightarrow> (case lock_of p of None \<Rightarrow> \<not> is_finished p | Some l \<Rightarrow> ow l = None)
   | _ \<Rightarrow> True)"

fun thread_step :: "nat \<Rightarrow> host \<Rightarrow> owners \<Rightarrow> stage \<Rightarrow> host \<times> owners \<times> stage" where
  "thread_step i h ow (Outside p) =
     (case lock_of p of
        None \<Rightarrow> (fst (advance h p), ow, Outside (snd (advance h p)))
      | Some l \<Rightarrow> (h, ow(l := Some i), Acquired l p))"
| "thread_step i h ow (Acquired l p) =
     (case statement h p of
        Inl e \<Rightarrow> (h, ow, Ended l (Finished (Inl e)))
      | Inr w \<Rightarrow> (h, ow, Executed l p w))"
| "thread_step i h ow (Executed l p w) = (publish w h, ow, Ended l (after_statement p))"
| "thread_step i h ow (Ended l p) = (h, ow(l := None), Outside p)"

record locked_host =
  lk_host :: host
  lk_owner :: owners
  lk_stages :: "stage list"

definition can_move :: "locked_host \<Rightarrow> nat \<Rightarrow> bool" where
  "can_move s i \<longleftrightarrow> i < length (lk_stages s) \<and> enabled (lk_owner s) (lk_stages s ! i)"

definition locked_move :: "locked_host \<Rightarrow> nat \<Rightarrow> locked_host" where
  "locked_move s i = (case thread_step i (lk_host s) (lk_owner s) (lk_stages s ! i) of (h, ow, st) \<Rightarrow>
     \<lparr>lk_host = h, lk_owner = ow, lk_stages = (lk_stages s)[i := st]\<rparr>)"

inductive locked_step :: "locked_host \<Rightarrow> locked_host \<Rightarrow> bool" where
  guarded_arrives: "route \<in> set (route_ids HOST_DECLARED_PATHS) \<Longrightarrow>
     locked_step s (s\<lparr>lk_stages := lk_stages s @ [Outside (Arrived payload route True)]\<rparr>)"
| hidden_arrives: "locked_step s (s\<lparr>lk_stages := lk_stages s @ [Outside (Arrived payload ROUTE_HIDDEN_BATCH False)]\<rparr>)"
| thread_moves: "can_move s i \<Longrightarrow> locked_step s (locked_move s i)"

inductive locked_reachable :: "host \<Rightarrow> locked_host \<Rightarrow> bool" for h where
  start: "locked_reachable h \<lparr>lk_host = h, lk_owner = (\<lambda>_. None), lk_stages = []\<rparr>"
| step: "locked_reachable h s \<Longrightarrow> locked_step s t \<Longrightarrow> locked_reachable h t"

fun locked_moves :: "locked_host \<Rightarrow> nat list \<Rightarrow> bool" where
  "locked_moves s [] = True"
| "locked_moves s (i # ms) \<longleftrightarrow> can_move s i \<and> locked_moves (locked_move s i) ms"

subsection \<open>Who holds a lock\<close>

fun holds :: "stage \<Rightarrow> host_lock option" where
  "holds (Outside p) = None"
| "holds (Acquired l p) = Some l"
| "holds (Executed l p w) = Some l"
| "holds (Ended l p) = Some l"

text \<open>
  A transaction that has executed its statement would still write the same; a thread whose
  transaction has ended is through, or goes on to the observer.
\<close>

fun stage_ok :: "host \<Rightarrow> stage \<Rightarrow> bool" where
  "stage_ok h (Outside p) = True"
| "stage_ok h (Acquired l p) \<longleftrightarrow> lock_of p = Some l"
| "stage_ok h (Executed l p w) \<longleftrightarrow> lock_of p = Some l \<and> statement h p = Inr w"
| "stage_ok h (Ended l p) \<longleftrightarrow> is_finished p \<or> (\<exists>q. p = Observing q \<or> p = Receipting q)"

definition locked_inv :: "locked_host \<Rightarrow> bool" where
  "locked_inv s \<longleftrightarrow> (\<forall>l i. lk_owner s l = Some i \<longleftrightarrow> i < length (lk_stages s) \<and> holds (lk_stages s ! i) = Some l)
     \<and> (\<forall>st \<in> set (lk_stages s). stage_ok (lk_host s) st)"

lemma locked_owner: "locked_inv s \<Longrightarrow> i < length (lk_stages s) \<Longrightarrow> holds (lk_stages s ! i) = Some l \<Longrightarrow> lk_owner s l = Some i"
  by (simp add: locked_inv_def)

lemma mutual_exclusion:
  assumes "locked_inv s" "i < length (lk_stages s)" "j < length (lk_stages s)"
    and "holds (lk_stages s ! i) = Some l" "holds (lk_stages s ! j) = Some l"
  shows "i = j"
  using locked_owner [OF assms(1,2,4)] locked_owner [OF assms(1,3,5)] by simp

text \<open>What each lock protects: a statement reads its own store only, and only its owner writes it.\<close>

definition same_store :: "host_lock \<Rightarrow> host \<Rightarrow> host \<Rightarrow> bool" where
  "same_store l h' h \<longleftrightarrow> (case l of Ledger_Lock \<Rightarrow> ho_ledger h' = ho_ledger h | Observer_Lock \<Rightarrow> ho_observer h' = ho_observer h)"

lemma statement_frame: "lock_of p = Some l \<Longrightarrow> same_store l h' h \<Longrightarrow> statement h' p = statement h p"
  by (cases p) (auto simp: same_store_def)

lemma stage_ok_frame: "(\<And>l. holds st = Some l \<Longrightarrow> same_store l h' h) \<Longrightarrow> stage_ok h st \<Longrightarrow> stage_ok h' st"
  by (cases st) (auto simp: statement_frame)

lemma advance_unlocked: "lock_of p = None \<Longrightarrow> same_store l (fst (advance h p)) h"
  by (cases p; cases l) (auto simp: same_store_def split: sum.split prod.split)

lemma publish_store: "statement h p = Inr w \<Longrightarrow> lock_of p = Some k \<Longrightarrow> l \<noteq> k \<Longrightarrow> same_store l (publish w h) h"
  by (cases p; cases l) (auto simp: same_store_def bindE_Inr_iff)

lemma thread_step_store:
  assumes "stage_ok h st" "thread_step i h ow st = (h', ow', st')" "holds st \<noteq> Some l"
  shows "same_store l h' h"
proof (cases st)
  case (Outside p)
  then show ?thesis
    using assms(2) advance_unlocked [of p l h] by (auto simp: same_store_def split: option.splits host_lock.splits)
next
  case (Executed k p w)
  then show ?thesis using assms publish_store [of h p w k l] by auto
qed (use assms(2) in \<open>auto simp: same_store_def split: sum.splits host_lock.splits\<close>)

lemma thread_step_ok:
  assumes "stage_ok h st" "thread_step i h ow st = (h', ow', st')"
  shows "stage_ok h' st'"
proof (cases st)
  case (Executed l p w)
  then show ?thesis using assms by (cases p) (auto simp: is_finished_def)
qed (use assms in \<open>auto simp: is_finished_def split: option.splits sum.splits\<close>)

lemma thread_step_owner:
  assumes "thread_step i h ow st = (h', ow', st')" "enabled ow st" "holds st = None \<or> (\<exists>l. holds st = Some l \<and> ow l = Some i)"
  shows "ow' l = (if holds st' = Some l then Some i else if holds st = Some l then None else ow l)"
    "holds st' = Some k \<Longrightarrow> holds st = Some k \<or> ow k = None"
  using assms by (cases st; auto simp: enabled_def split: option.splits sum.splits)+

lemma locked_inv_move:
  assumes "locked_inv s" "can_move s i"
  shows "locked_inv (locked_move s i)"
proof -
  let ?st = "lk_stages s ! i"
  obtain h ow st where t: "thread_step i (lk_host s) (lk_owner s) ?st = (h, ow, st)" by (metis surj_pair)
  have i: "i < length (lk_stages s)" "enabled (lk_owner s) ?st" using assms(2) by (simp_all add: can_move_def)
  have own: "lk_owner s l = Some j \<longleftrightarrow> j < length (lk_stages s) \<and> holds (lk_stages s ! j) = Some l" for l j
    using assms(1) by (simp add: locked_inv_def)
  have ok: "stage_ok (lk_host s) x" if "x \<in> set (lk_stages s)" for x using assms(1) that by (simp add: locked_inv_def)
  have pre: "holds ?st = None \<or> (\<exists>l. holds ?st = Some l \<and> lk_owner s l = Some i)"
    using own i(1) by (cases "holds ?st") auto
  note owner = thread_step_owner(1) [OF t i(2) pre] and fresh = thread_step_owner(2) [OF t i(2) pre]
  have "ow l = Some j \<longleftrightarrow> j < length (lk_stages s) \<and> holds ((lk_stages s)[i := st] ! j) = Some l" for l j
  proof (cases "j = i")
    case True
    then show ?thesis using i(1) owner [of l] own [of l i] by auto
  next
    case False
    then show ?thesis using owner [of l] own [of l j] own [of l i] fresh [of l] i(1) pre by auto
  qed
  moreover have "stage_ok h x" if x: "x \<in> set ((lk_stages s)[i := st])" for x
  proof (cases "x = st")
    case True
    then show ?thesis using thread_step_ok [OF ok t] i(1) by simp
  next
    case False
    then obtain j where j: "j < length (lk_stages s)" "j \<noteq> i" "x = lk_stages s ! j"
      using x i(1) by (auto simp: in_set_conv_nth nth_list_update split: if_splits)
    have "same_store l h (lk_host s)" if "holds x = Some l" for l
    proof (rule thread_step_store [OF ok t])
      show "holds ?st \<noteq> Some l" using mutual_exclusion [OF assms(1) i(1) j(1)] that j(2,3) by blast
    qed (use i(1) in simp)
    then show ?thesis using stage_ok_frame ok j(1,3) by (metis nth_mem)
  qed
  ultimately show ?thesis by (simp add: locked_inv_def locked_move_def t)
qed

lemma locked_step_inv: "locked_step s t \<Longrightarrow> locked_inv s \<Longrightarrow> locked_inv t"
proof (induction rule: locked_step.induct)
  case (guarded_arrives route s payload)
  then show ?case by (auto simp: locked_inv_def nth_append less_Suc_eq)
next
  case (hidden_arrives s payload)
  then show ?case by (auto simp: locked_inv_def nth_append less_Suc_eq)
next
  case (thread_moves s i)
  then show ?case by (rule locked_inv_move [rotated])
qed

lemma locked_reachable_inv: "locked_reachable h s \<Longrightarrow> locked_inv s"
proof (induction rule: locked_reachable.induct)
  case start
  then show ?case by (simp add: locked_inv_def)
next
  case (step s t)
  then show ?case by (blast intro: locked_step_inv)
qed

subsection \<open>Nobody waits for ever\<close>

definition stage_finished :: "stage \<Rightarrow> bool" where
  "stage_finished st \<longleftrightarrow> (\<exists>d. st = Outside (Finished d))"

text \<open>The owner of a lock never waits, so some thread can move while one has not finished.\<close>

lemma stuck_is_finished:
  assumes "locked_inv s" "\<forall>i. \<not> can_move s i"
  shows "list_all stage_finished (lk_stages s)" "lk_owner s l = None"
proof -
  have out: "\<exists>p. lk_stages s ! i = Outside p" if "i < length (lk_stages s)" for i
    using assms(2) that by (cases "lk_stages s ! i") (auto simp: can_move_def enabled_def dest: spec [of _ i])
  have free: "lk_owner s l = None" for l
  proof (rule ccontr)
    assume "lk_owner s l \<noteq> None"
    then obtain i where "i < length (lk_stages s)" "holds (lk_stages s ! i) = Some l"
      using assms(1) by (auto simp: locked_inv_def)
    with out [of i] show False by auto
  qed
  show "lk_owner s l = None" by (rule free)
  have "stage_finished (lk_stages s ! i)" if i: "i < length (lk_stages s)" for i
  proof -
    obtain p where p: "lk_stages s ! i = Outside p" using out [OF i] by blast
    then have "\<not> enabled (lk_owner s) (Outside p)" using assms(2) i by (metis can_move_def)
    then have "is_finished p" using free by (simp add: enabled_def split: option.splits)
    then show ?thesis using p by (cases p) (simp_all add: stage_finished_def is_finished_def)
  qed
  then show "list_all stage_finished (lk_stages s)" by (simp add: list_all_length)
qed

text \<open>How many moves a thread has left at most.\<close>

fun phase_moves :: "phase \<Rightarrow> nat" where
  "phase_moves (Arrived _ _ _) = 17"
| "phase_moves (Checking _) = 16"
| "phase_moves (Validating _) = 15"
| "phase_moves (Spending _ _) = 14"
| "phase_moves (Storing _ _ _) = 13"
| "phase_moves (Inserting _) = 12"
| "phase_moves (Observing _) = 8"
| "phase_moves (Receipting _) = 4"
| "phase_moves (Refusing _ _) = 4"
| "phase_moves (Finished _) = 0"

fun stage_moves :: "stage \<Rightarrow> nat" where
  "stage_moves (Outside p) = phase_moves p"
| "stage_moves (Acquired _ p) = phase_moves p - 1"
| "stage_moves (Executed _ p _) = phase_moves p - 2"
| "stage_moves (Ended _ p) = phase_moves p + 1"

lemma phase_moves_advance: "lock_of p = None \<Longrightarrow> \<not> is_finished p \<Longrightarrow> phase_moves (snd (advance h p)) < phase_moves p"
  by (cases p) (auto simp: is_finished_def validate_step_def Let_def split: sum.split option.split prod.split)

lemma locked_phase_moves: "lock_of p = Some l \<Longrightarrow> phase_moves (after_statement p) + 4 \<le> phase_moves p"
  by (cases p) auto

lemma stage_moves_step:
  assumes "enabled ow st" "stage_ok h st" "thread_step i h ow st = (h', ow', st')"
  shows "stage_moves st' < stage_moves st"
proof (cases st)
  case (Outside p)
  show ?thesis
  proof (cases "lock_of p")
    case None
    with assms Outside phase_moves_advance [of p h] show ?thesis by (auto simp: enabled_def)
  next
    case (Some l)
    then show ?thesis using assms Outside locked_phase_moves [OF Some] by auto
  qed
next
  case (Acquired l p)
  with assms locked_phase_moves [of p l] show ?thesis by (auto split: sum.splits)
next
  case (Executed l p w)
  with assms locked_phase_moves [of p l] show ?thesis by auto
qed (use assms in auto)

definition moves_left :: "locked_host \<Rightarrow> nat" where
  "moves_left s = sum_list (map stage_moves (lk_stages s))"

lemma moves_left_move:
  assumes "locked_inv s" "can_move s i"
  shows "moves_left (locked_move s i) < moves_left s"
proof -
  obtain h ow st where t: "thread_step i (lk_host s) (lk_owner s) (lk_stages s ! i) = (h, ow, st)" by (metis surj_pair)
  have i: "i < length (lk_stages s)" "enabled (lk_owner s) (lk_stages s ! i)" using assms(2) by (simp_all add: can_move_def)
  have "stage_ok (lk_host s) (lk_stages s ! i)" using assms(1) i(1) by (simp add: locked_inv_def)
  from stage_moves_step [OF i(2) this t] show ?thesis
    using i(1) elem_le_sum_list [of i "map stage_moves (lk_stages s)"]
    by (simp add: moves_left_def locked_move_def t map_update sum_list_update)
qed

lemma locked_moves_bound: "locked_inv s \<Longrightarrow> locked_moves s ms \<Longrightarrow> length ms \<le> moves_left s"
proof (induction ms arbitrary: s)
  case (Cons i ms)
  then have "length ms \<le> moves_left (locked_move s i)" "moves_left (locked_move s i) < moves_left s"
    by (auto intro: moves_left_move locked_inv_move)
  then show ?case by simp
qed simp

lemma locked_moves_inv: "locked_inv s \<Longrightarrow> locked_moves s ms \<Longrightarrow> locked_inv (foldl locked_move s ms)"
  by (induction ms arbitrary: s) (auto intro: locked_inv_move)

lemma moves_left_le:
  assumes "locked_inv s"
  shows "moves_left s \<le> 17 * length (lk_stages s)"
proof -
  have p: "phase_moves p \<le> 17" for p by (cases p) simp_all
  have "stage_moves st \<le> 17" if "st \<in> set (lk_stages s)" for st
  proof (cases st)
    case (Ended l q)
    with assms that have "stage_ok (lk_host s) (Ended l q)" by (auto simp: locked_inv_def)
    then show ?thesis using Ended by (cases q) (auto simp: is_finished_def)
  qed (use p le_trans diff_le_self in \<open>auto intro: le_trans [OF diff_le_self]\<close>)
  then have "list_all (\<lambda>st. stage_moves st \<le> 17) (lk_stages s)" by (simp add: list_all_iff)
  moreover have "list_all (\<lambda>st. stage_moves st \<le> 17) sts \<Longrightarrow> sum_list (map stage_moves sts) \<le> 17 * length sts" for sts
    by (induction sts) auto
  ultimately have "sum_list (map stage_moves (lk_stages s)) \<le> 17 * length (lk_stages s)" by blast
  then show ?thesis by (simp add: moves_left_def)
qed

subsection \<open>With the locks, the phases are atomic\<close>

text \<open>A thread has made its phase when its transaction has ended: until then it has done nothing.\<close>

fun phase_of :: "stage \<Rightarrow> phase" where
  "phase_of (Outside p) = p"
| "phase_of (Acquired l p) = p"
| "phase_of (Executed l p w) = p"
| "phase_of (Ended l p) = p"

definition atomic_view :: "locked_host \<Rightarrow> served" where
  "atomic_view s = \<lparr>sv_host = lk_host s, sv_threads = map phase_of (lk_stages s)\<rparr>"

lemma statement_raises: "statement h p = Inl e \<Longrightarrow> lock_of p = Some l \<Longrightarrow> advance h p = (h, Finished (Inl e))"
  by (cases p) (auto simp: do_insert_def do_arrival_def do_receipt_def bindE_def split: sum.splits)

lemma statement_publishes:
  "statement h p = Inr w \<Longrightarrow> lock_of p = Some l \<Longrightarrow> advance h p = (publish w h, after_statement p)"
  by (cases p) (auto simp: do_insert_def do_arrival_def do_receipt_def bindE_Inr_iff)

lemma thread_step_view:
  assumes "enabled ow st" "stage_ok h st" "thread_step i h ow st = (h', ow', st')"
  shows "(h', phase_of st') = (h, phase_of st) \<or> (h', phase_of st') = advance h (phase_of st) \<and> \<not> is_finished (phase_of st)"
proof (cases st)
  case (Outside p)
  with assms show ?thesis by (auto simp: enabled_def split: option.splits)
next
  case (Acquired l p)
  with assms have "lock_of p = Some l" by simp
  then have "\<not> is_finished p" by (cases p) (auto simp: is_finished_def)
  with assms Acquired statement_raises [of h p _ l] show ?thesis by (auto split: sum.splits)
next
  case (Executed l p w)
  with assms have "lock_of p = Some l" "statement h p = Inr w" by simp_all
  then have "\<not> is_finished p" by (cases p) (auto simp: is_finished_def)
  with assms Executed statement_publishes [of h p w l] show ?thesis by auto
qed (use assms in auto)

lemma atomic_view_move:
  assumes "locked_inv s" "can_move s i"
  shows "atomic_view (locked_move s i) = atomic_view s \<or> served_step (atomic_view s) (atomic_view (locked_move s i))"
proof -
  let ?st = "lk_stages s ! i"
  obtain h ow st where t: "thread_step i (lk_host s) (lk_owner s) ?st = (h, ow, st)" by (metis surj_pair)
  have i: "i < length (lk_stages s)" "enabled (lk_owner s) ?st" using assms(2) by (simp_all add: can_move_def)
  have ok: "stage_ok (lk_host s) ?st" using assms(1) i(1) by (simp add: locked_inv_def)
  have v: "atomic_view (locked_move s i) = \<lparr>sv_host = h, sv_threads = (map phase_of (lk_stages s))[i := phase_of st]\<rparr>"
    by (simp add: atomic_view_def locked_move_def t map_update)
  from thread_step_view [OF i(2) ok t] show ?thesis
  proof
    assume "(h, phase_of st) = (lk_host s, phase_of ?st)"
    then have "atomic_view (locked_move s i) = atomic_view s"
      using i(1) unfolding v by (simp add: atomic_view_def) (metis length_map list_update_id nth_map)
    then show ?thesis ..
  next
    assume a: "(h, phase_of st) = advance (lk_host s) (phase_of ?st) \<and> \<not> is_finished (phase_of ?st)"
    then have "atomic_view (locked_move s i) = move (atomic_view s) i"
      using i(1) unfolding v move_def by (simp add: atomic_view_def flip: a [THEN conjunct1])
    moreover have "served_step (atomic_view s) (move (atomic_view s) i)"
      using a i(1) by (intro served_step.thread_moves) (simp_all add: atomic_view_def)
    ultimately show ?thesis by simp
  qed
qed

lemma atomic_view_step:
  assumes "locked_step s t" "locked_inv s"
  shows "atomic_view t = atomic_view s \<or> served_step (atomic_view s) (atomic_view t)"
  using assms(1)
proof cases
  case (guarded_arrives route payload)
  then show ?thesis using served_step.guarded_arrives [of route "atomic_view s" payload] by (simp add: atomic_view_def)
next
  case (hidden_arrives payload)
  then show ?thesis using served_step.hidden_arrives [of "atomic_view s" payload] by (simp add: atomic_view_def)
next
  case (thread_moves i)
  then show ?thesis using atomic_view_move [OF assms(2)] by simp
qed

lemma atomic_view_reachable: "locked_reachable h s \<Longrightarrow> reachable h (atomic_view s)"
proof (induction rule: locked_reachable.induct)
  case start
  then show ?case using reachable.start [of h] by (simp add: atomic_view_def)
next
  case (step s t)
  from atomic_view_step [OF step.hyps(2) locked_reachable_inv [OF step.hyps(1)]] step.IH show ?case
    by (auto intro: reachable.step)
qed

lemma locked_move_length [simp]: "length (lk_stages (foldl locked_move s ms)) = length (lk_stages s)"
  by (induction ms arbitrary: s) (simp_all add: locked_move_def case_prod_beta)

text \<open>C14: The locks of the host neither block nor leak: in every state that requests reach, however their
  steps interleave and whatever statements raise, at most one thread is between acquiring and
  releasing a lock; every way to go on is over after at most seventeen moves per request, and
  when no thread can move any more, every request has finished and both locks are free; and a
  transaction under its lock does what one atomic step does: the committed stores and the phases
  are those of a state the atomic steps of concurrent requests reach.\<close>

theorem locks_never_block:
  assumes "locked_reachable h s"
  shows "(\<forall>l i j. i < length (lk_stages s) \<and> j < length (lk_stages s)
        \<and> holds (lk_stages s ! i) = Some l \<and> holds (lk_stages s ! j) = Some l \<longrightarrow> i = j)
    \<and> (\<forall>ms. locked_moves s ms \<longrightarrow> length ms \<le> 17 * length (lk_stages s))
    \<and> (\<forall>ms t. locked_moves s ms \<and> t = foldl locked_move s ms \<and> (\<forall>i < length (lk_stages s). \<not> can_move t i) \<longrightarrow>
         (\<forall>st \<in> set (lk_stages t). \<exists>d. st = Outside (Finished d)) \<and> lk_owner t Ledger_Lock = None \<and> lk_owner t Observer_Lock = None)
    \<and> reachable h \<lparr>sv_host = lk_host s, sv_threads = map phase_of (lk_stages s)\<rparr>"
proof (intro conjI allI impI)
  have inv: "locked_inv s" by (rule locked_reachable_inv [OF assms])
  fix l i j
  assume "i < length (lk_stages s) \<and> j < length (lk_stages s)
    \<and> holds (lk_stages s ! i) = Some l \<and> holds (lk_stages s ! j) = Some l"
  then show "i = j" using mutual_exclusion [OF inv] by blast
next
  fix ms assume "locked_moves s ms"
  with locked_reachable_inv [OF assms] show "length ms \<le> 17 * length (lk_stages s)"
    using locked_moves_bound moves_left_le le_trans by blast
next
  fix ms t
  assume a: "locked_moves s ms \<and> t = foldl locked_move s ms \<and> (\<forall>i < length (lk_stages s). \<not> can_move t i)"
  then have inv: "locked_inv t" using locked_moves_inv locked_reachable_inv [OF assms] by blast
  have "\<forall>i. \<not> can_move t i" using a by (metis can_move_def locked_move_length)
  note stuck = stuck_is_finished [OF inv this]
  show "\<forall>st \<in> set (lk_stages t). \<exists>d. st = Outside (Finished d)"
    using stuck(1) by (simp add: list_all_iff stage_finished_def)
  show "lk_owner t Ledger_Lock = None" "lk_owner t Observer_Lock = None" by (rule stuck(2))+
next
  show "reachable h \<lparr>sv_host = lk_host s, sv_threads = map phase_of (lk_stages s)\<rparr>"
    using atomic_view_reachable [OF assms] by (simp add: atomic_view_def)
qed

end
