(* ===== verification/Host_Queue.thy ===== *)
theory Host_Queue
  imports Host_Steps
begin

section \<open>The queue worker and the HTTP surface of the host\<close>

text \<open>
  \<open>enqueue\<close>, \<open>_worker_loop\<close> and \<open>do_POST\<close> of \<open>oat/integration/host_sink.py\<close>. A job is
  the payload it carries. How many jobs the worker completes within the five seconds the caller
  waits is chosen by the environment: it is an argument. A job whose processing raises ends the
  worker thread, after its caller was released without a decision.
\<close>

record queue_host =
  qh_host :: host
  qh_alive :: bool
  qh_jobs :: "json list"

definition WORKER_TIMEOUT :: host_decision where
  "WORKER_TIMEOUT = decision ''ERROR'' ''WORKER_TIMEOUT'' None []"

definition worker_turn :: "queue_host \<Rightarrow> queue_host \<times> host_decision res list" where
  "worker_turn q =
     (case (qh_alive q, qh_jobs q) of
        (True, payload # jobs) \<Rightarrow>
          (case guarded (qh_host q) payload ROUTE_QUEUE_WORKER of
             (h, Inl e) \<Rightarrow> (\<lparr>qh_host = h, qh_alive = False, qh_jobs = jobs\<rparr>, [Inl e])
           | (h, Inr d) \<Rightarrow> (\<lparr>qh_host = h, qh_alive = True, qh_jobs = jobs\<rparr>, [Inr d]))
      | _ \<Rightarrow> (q, []))"

fun worker_turns :: "nat \<Rightarrow> queue_host \<Rightarrow> queue_host \<times> host_decision res list" where
  "worker_turns 0 q = (q, [])"
| "worker_turns (Suc n) q =
     (let (q', ds) = worker_turn q; (q'', ds') = worker_turns n q' in (q'', ds @ ds'))"

definition enqueue :: "queue_host \<Rightarrow> json \<Rightarrow> nat \<Rightarrow> queue_host \<times> host_decision res" where
  "enqueue q payload n =
     (let (q', ds) = worker_turns n (q\<lparr>qh_jobs := qh_jobs q @ [payload]\<rparr>) in
      if length (qh_jobs q) < length ds then
        (q', case ds ! length (qh_jobs q) of Inl _ \<Rightarrow> Inl (KeyError ''decision'') | Inr d \<Rightarrow> Inr d)
      else (q', Inr WORKER_TIMEOUT))"

text \<open>The reply of the handler; when the entry raises, the connection closes without one.\<close>

definition http_reply :: "host_decision \<Rightarrow> nat \<times> json" where
  "http_reply d = (if hd_outcome d \<in> {''ADMITTED'', ''COMMITTED''} then 200 else 403, host_decision_dict d)"

definition http_post :: "queue_host \<Rightarrow> string \<Rightarrow> json \<Rightarrow> nat \<Rightarrow> queue_host \<times> (nat \<times> json) res" where
  "http_post q path payload n =
     (if path = ''/v1/payments'' then
        (case guarded (qh_host q) payload ROUTE_HTTP_GUARDED of
           (h, d) \<Rightarrow> (q\<lparr>qh_host := h\<rparr>, bindE d (\<lambda>d. Inr (http_reply d))))
      else if path = ''/v1/async-payments'' then
        (case enqueue q payload n of (q', d) \<Rightarrow> (q', bindE d (\<lambda>d. Inr (http_reply d))))
      else if path = ''/internal/batch-commit'' then
        (case hidden (qh_host q) payload True of
           (h, d) \<Rightarrow> (q\<lparr>qh_host := h\<rparr>, bindE d (\<lambda>d. Inr (http_reply d))))
      else (q, Inr (404, JObj [(''error'', JStr ''not found'')])))"

definition tool_surface :: "string \<Rightarrow> json" where
  "tool_surface base_url = JObj [
     (''transport'', JStr ''raw-http-loopback''), (''base_url'', JStr base_url),
     (''declared_endpoints'', JStrs [''POST /v1/payments'', ''POST /v1/async-payments'']),
     (''path_probe_allowed_within_bound_host'', JBool True),
     (''external_network_allowed'', JBool False)]"

subsection \<open>A worker that died\<close>

lemma worker_turns_dead: "\<not> qh_alive q \<Longrightarrow> worker_turns n q = (q, [])"
  by (induction n) (simp_all add: worker_turn_def)

lemma enqueue_dead:
  "\<not> qh_alive q \<Longrightarrow> enqueue q payload n = (q\<lparr>qh_jobs := qh_jobs q @ [payload]\<rparr>, Inr WORKER_TIMEOUT)"
  by (simp add: enqueue_def worker_turns_dead)

lemma enqueue_all_dead:
  assumes "\<not> qh_alive q"
  shows "qh_host (fold (\<lambda>(p, n) q. fst (enqueue q p n)) ps q) = qh_host q
    \<and> \<not> qh_alive (fold (\<lambda>(p, n) q. fst (enqueue q p n)) ps q)"
  using assms
proof (induction ps arbitrary: q)
  case (Cons x ps)
  obtain p n where x: "x = (p, n)" by fastforce
  have "\<not> qh_alive (q\<lparr>qh_jobs := qh_jobs q @ [p]\<rparr>)" using Cons.prems by simp
  from Cons.IH [OF this] show ?case by (simp add: x enqueue_dead [OF Cons.prems])
qed simp

lemma enqueue_idle:
  assumes "qh_alive q" "qh_jobs q = []"
  shows "enqueue q payload (Suc n) =
     (case guarded (qh_host q) payload ROUTE_QUEUE_WORKER of
        (h, Inl e) \<Rightarrow> (\<lparr>qh_host = h, qh_alive = False, qh_jobs = []\<rparr>, Inl (KeyError ''decision''))
      | (h, Inr d) \<Rightarrow> (\<lparr>qh_host = h, qh_alive = True, qh_jobs = []\<rparr>, Inr d))"
proof -
  have none: "worker_turns n \<lparr>qh_host = h, qh_alive = True, qh_jobs = []\<rparr>
      = (\<lparr>qh_host = h, qh_alive = True, qh_jobs = []\<rparr>, [])" for n h
    by (induction n) (simp_all add: worker_turn_def)
  show ?thesis
    using assms
    by (simp add: enqueue_def worker_turn_def none worker_turns_dead split: prod.split sum.split)
qed

text \<open>C17: One request that makes the guarded entry raise on the asynchronous route disables that route
  for good: its caller gets an error instead of a decision, and every later asynchronous request,
  however long it waits, is answered with a timeout and never reaches the ledger.\<close>

theorem failing_request_disables_queue:
  assumes "qh_alive q" "qh_jobs q = []" "snd (guarded (qh_host q) payload ROUTE_QUEUE_WORKER) = Inl e"
  shows "let q' = fold (\<lambda>(p, n) q. fst (enqueue q p n)) ps (fst (enqueue q payload (Suc n))) in
    snd (enqueue q payload (Suc n)) = Inl (KeyError ''decision'')
    \<and> qh_host q' = fst (guarded (qh_host q) payload ROUTE_QUEUE_WORKER)
    \<and> snd (enqueue q' p m) = Inr WORKER_TIMEOUT
    \<and> ho_ledger (qh_host (fst (enqueue q' p m))) = ho_ledger (fst (guarded (qh_host q) payload ROUTE_QUEUE_WORKER))"
proof -
  let ?h = "fst (guarded (qh_host q) payload ROUTE_QUEUE_WORKER)"
  let ?q = "\<lparr>qh_host = ?h, qh_alive = False, qh_jobs = []\<rparr>"
  have e: "enqueue q payload (Suc n) = (?q, Inl (KeyError ''decision''))"
    using enqueue_idle [OF assms(1,2), of payload n] assms(3)
    by (cases "guarded (qh_host q) payload ROUTE_QUEUE_WORKER") simp
  have "\<not> qh_alive ?q" by simp
  note d = enqueue_all_dead [OF this, of ps]
  then show ?thesis by (simp add: e enqueue_dead Let_def)
qed

text \<open>A timeout is not a refusal: a request whose worker is slow is answered WORKER-TIMEOUT, with
  status 403, and the worker commits it afterwards as it would have without the delay.\<close>

theorem timeout_is_not_refusal:
  assumes "qh_alive q" "qh_jobs q = []"
    and "guarded (qh_host q) payload ROUTE_QUEUE_WORKER = (h, Inr d)"
  shows "snd (http_post q ''/v1/async-payments'' payload 0) = Inr (403, host_decision_dict WORKER_TIMEOUT)
    \<and> worker_turn (fst (http_post q ''/v1/async-payments'' payload 0))
        = (\<lparr>qh_host = h, qh_alive = True, qh_jobs = []\<rparr>, [Inr d])"
  using assms by (simp add: http_post_def enqueue_def worker_turn_def http_reply_def WORKER_TIMEOUT_def decision_def)

subsection \<open>The status of a reply\<close>

lemma record_commit_balanced:
  assumes "host_ok h" "balanced h (mset [ce_commit_id c])" "sql_integer (ce_committed_at c)"
  shows "\<exists>h'. record_commit h c True = (h', Inr ()) \<and> host_ok h' \<and> balanced h' {#}"
proof -
  let ?m = "do_arrival h c True True (Some (ce_commit_id c))"
  have m: "?m = (fst ?m, Inr ())" using assms(3) by (simp add: do_arrival_ok)
  note q = arrival_quiet [OF assms(1), of c True True "Some (ce_commit_id c)"]
  have "balanced (fst ?m) (add_mset (ce_commit_id c) {#})" using assms(2) q(2) by simp
  from receipt_ok [OF q(1) this assms(3)] obtain h' where
    "do_receipt (fst ?m) c = (h', Inr ())" "host_ok h'" "balanced h' {#}" by metis
  then show ?thesis by (subst record_commit_def, subst m) simp
qed

lemma commit_settles:
  assumes "host_ok h" "balanced h {#}" "commit_fresh (ho_ledger h) c" "row_ok h \<lparr>lr_event = c, lr_token = tok\<rparr>"
    and "same_world h' h" "ho_observer h' = ho_observer h"
    and "ho_ledger h' = ho_ledger h @ [\<lparr>lr_event = stored_event c, lr_token = tok\<rparr>]"
  shows "\<exists>h''. record_commit h' c True = (h'', Inr ()) \<and> ho_ledger h'' = ho_ledger h'"
proof -
  let ?i = "h\<lparr>ho_ledger := ho_ledger h'\<rparr>"
  note i = insert_ok [OF assms(1,3,4) refl, folded assms(7)]
  have w: "same_world h' ?i" using assms(5) by (simp add: same_world_def)
  have "host_ok h'" "balanced h' (add_mset (ce_commit_id c) {#}) = balanced ?i (add_mset (ce_commit_id c) {#})"
    using assms(6) by (auto intro!: host_ok_quiet [OF i(1) w])
  then have "\<exists>h''. record_commit h' c True = (h'', Inr ()) \<and> host_ok h'' \<and> balanced h'' {#}"
    using i(2) [OF assms(2)] assms(3) by (intro record_commit_balanced) (simp_all add: commit_fresh_def)
  then obtain h'' where "record_commit h' c True = (h'', Inr ())" by blast
  with record_commit_frame(1) [of h' c True] show ?thesis by simp
qed

lemma guarded_outcome:
  assumes "host_ok h" "balanced h {#}"
  shows "(\<exists>d. snd (guarded h payload route) = Inr d \<and> hd_outcome d \<in> {''ADMITTED'', ''COMMITTED''})
    \<longleftrightarrow> ho_ledger (fst (guarded h payload route)) \<noteq> ho_ledger h"
proof (cases rule: guarded_cases [of h payload route])
  case quiet
  then show ?thesis by auto
next
  case (stale c a token)
  then show ?thesis by auto
next
  case (commits c a token h')
  have w: "same_world h' h" by (simp add: commits(4) same_world_def)
  obtain k where "ce_authorization_ref c = Some k" "dict_get (ho_authorizations h) k = Some a"
    using build_commit_fields(2) [OF commits(1) refl] by blast
  then have "covered_event h c (Some token)" using commits(2) by (auto simp: covered_event_def covered_request_def)
  then have r: "row_ok h \<lparr>lr_event = c, lr_token = Some token\<rparr>" by (simp add: row_ok_def)
  have "\<exists>h''. record_commit h' c True = (h'', Inr ()) \<and> ho_ledger h'' = ho_ledger h'"
    by (rule commit_settles [OF assms commits(3) r w]) (simp_all add: commits(4))
  then obtain h'' where "record_commit h' c True = (h'', Inr ())" "ho_ledger h'' = ho_ledger h'" by blast
  then show ?thesis by (simp add: commits(5)) (simp add: commits(4) decision_def)
qed

lemma hidden_outcome:
  assumes "host_ok h" "balanced h {#}"
  shows "(\<exists>d. snd (hidden h payload True) = Inr d \<and> hd_outcome d \<in> {''ADMITTED'', ''COMMITTED''})
    \<longleftrightarrow> ho_ledger (fst (hidden h payload True)) \<noteq> ho_ledger h"
proof (cases "build_commit h payload ROUTE_HIDDEN_BATCH")
  case (Inl e)
  then show ?thesis by (simp add: hidden_def)
next
  case (Inr r)
  obtain c au tok where r: "r = (c, au, tok)" by (metis surj_pair)
  note b = Inr [unfolded r]
  show ?thesis
  proof (cases "idempotency_seen (ho_ledger h) (ce_idempotency_key c)")
    case True
    let ?m = "do_arrival h c False False None"
    have "hidden h payload True = andThen ?m (\<lambda>h _. (h, Inr (decision ''REFUSED'' ''IDEMPOTENCY_REPLAY'' None [])))"
      using True by (simp add: hidden_def b)
    then show ?thesis by (simp add: andThen_def case_prod_beta decision_def split: sum.split)
  next
    case False
    show ?thesis
    proof (cases "commit_fresh (ho_ledger h) c")
      case fresh: True
      let ?h = "h\<lparr>ho_ledger := ho_ledger h @ [\<lparr>lr_event = stored_event c, lr_token = tok\<rparr>]\<rparr>"
      have "row_ok h \<lparr>lr_event = c, lr_token = tok\<rparr>" using build_commit_fields(1) [OF b] by (simp add: row_ok_def)
      then have "\<exists>h''. record_commit ?h c True = (h'', Inr ()) \<and> ho_ledger h'' = ho_ledger ?h"
        by (intro commit_settles [OF assms fresh]) (simp_all add: same_world_def)
      then obtain h'' where "record_commit ?h c True = (h'', Inr ())" "ho_ledger h'' = ho_ledger ?h" by blast
      then show ?thesis using False by (simp add: hidden_def b do_insert_fresh [OF fresh] decision_def)
    next
      case stale: False
      then obtain e where "do_insert h c tok = (h, Inl e)" using do_insert_stale by blast
      with False show ?thesis by (simp add: hidden_def b)
    qed
  qed
qed

text \<open>The status of a reply tells what happened: at a host whose observer is in step with its ledger,
  a synchronous payment or a batch request is answered with 200 exactly when it added a commit to
  the ledger; a refusal, an error and an unknown path leave the ledger as it was.\<close>

theorem http_200_iff_committed:
  assumes "host_ok (qh_host q)" "balanced (qh_host q) {#}" "path \<noteq> ''/v1/async-payments''"
  shows "(\<exists>body. snd (http_post q path payload n) = Inr (200, body))
    \<longleftrightarrow> ho_ledger (qh_host (fst (http_post q path payload n))) \<noteq> ho_ledger (qh_host q)"
proof -
  have reply: "(\<exists>body. bindE m (\<lambda>d. Inr (http_reply d)) = Inr (200, body))
      \<longleftrightarrow> (\<exists>d. m = Inr d \<and> hd_outcome d \<in> {''ADMITTED'', ''COMMITTED''})" for m
    by (cases m) (auto simp: http_reply_def)
  consider "path = ''/v1/payments''" | "path = ''/internal/batch-commit''"
    | "path \<noteq> ''/v1/payments''" "path \<noteq> ''/internal/batch-commit''" by blast
  then show ?thesis
  proof cases
    case 1
    show ?thesis
      using guarded_outcome [OF assms(1,2), of payload ROUTE_HTTP_GUARDED, folded reply]
      by (simp add: http_post_def 1 case_prod_beta)
  next
    case 2
    show ?thesis
      using hidden_outcome [OF assms(1,2), of payload, folded reply]
      by (simp add: http_post_def 2 case_prod_beta)
  next
    case 3
    with assms(3) show ?thesis by (simp add: http_post_def)
  qed
qed

end
