(* ===== verification/Host_Witnesses.thy ===== *)
theory Host_Witnesses
  imports Host_Queue Host_Locks
begin

section \<open>The reference integration at work\<close>

text \<open>
  The concrete host of \<open>new_reference_integration\<close> with requests for its reference action,
  at which the properties of the host are instantiated.
\<close>

definition reference_issuer :: issuer where
  "reference_issuer = new_issuer ''oat-host-sink-reference-secret''"

definition epoch_one :: authority_state where
  "epoch_one = \<lparr>as_epoch = 1, as_effective_from = 0, as_active = [''grant.treasury''], as_revoked = [], as_superseded = []\<rparr>"

definition reference_authz :: "int \<Rightarrow> authorization" where
  "reference_authz n = sign reference_issuer \<lparr>au_authorization_id = ''authz-1'', au_grant_id = ''grant.treasury'',
     au_decision = ''ALLOW'', au_tenant_id = ''tenant.acme'', au_principal_id = ''principal.treasury-bot'',
     au_agent_id = ''agent.integration-test'', au_release_id = ''release.agent-2026.09'',
     au_action_digest = digest_object (JObj REFERENCE_ACTION), au_sink_id = ''sink.integration-payment-ledger'',
     au_scope = ''payment.transfer'', au_authority_state_digest = authority_state_digest epoch_one,
     au_not_before = 0, au_not_after = 40, au_idempotency_key = ''idem-1'', au_max_uses = n,
     au_delegation = None, au_integrity = []\<rparr>"

definition reference_host :: "int \<Rightarrow> host" where
  "reference_host n = register (new_host REFERENCE_SINK reference_authority reference_issuer) (reference_authz n)"

definition reference_payload :: "int \<Rightarrow> string \<Rightarrow> json" where
  "reference_payload n commit_id = JObj [(''action'', JObj REFERENCE_ACTION), (''authorization_id'', JStr ''authz-1''),
     (''committed_at'', JInt 10), (''commit_id'', JStr commit_id), (''idempotency_key'', JStr ''idem-1''),
     (''token_digest'', JStr (token_digest (reference_authz n)))]"

definition reference_event :: "string \<Rightarrow> string \<Rightarrow> commit_event" where
  "reference_event commit_id route = \<lparr>ce_commit_id = commit_id, ce_sink_id = ''sink.integration-payment-ledger'',
     ce_route_id = route, ce_tenant_id = ''tenant.acme'', ce_principal_id = ''principal.treasury-bot'',
     ce_agent_id = ''agent.integration-test'', ce_release_id = ''release.agent-2026.09'',
     ce_action_digest = digest_object (JObj REFERENCE_ACTION), ce_normalized_action = REFERENCE_ACTION,
     ce_committed_at = 10, ce_authorization_ref = Some ''authz-1'',
     ce_authority_state_ref = Some (authority_state_digest epoch_one), ce_idempotency_key = ''idem-1'',
     ce_trace_ref = ''trace-'' @ commit_id\<rparr>"

lemma reference_store: "store_at reference_authority 10 = Some epoch_one"
  by (simp add: reference_authority_def epoch_one_def store_add_def store_at_def insort_key_def)

lemma reference_digest: "exact_action_digest REFERENCE_ACTION = Inr (digest_object (JObj REFERENCE_ACTION))"
  by (simp add: exact_action_digest_def normalize_action_def EXACT_ACTION_FIELDS_def REFERENCE_ACTION_def)

lemma reference_fields:
  "dict_get REFERENCE_ACTION ''tenant_id'' = Some (JStr ''tenant.acme'')"
  "dict_get REFERENCE_ACTION ''principal_id'' = Some (JStr ''principal.treasury-bot'')"
  "dict_get REFERENCE_ACTION ''release_id'' = Some (JStr ''release.agent-2026.09'')"
  "dict_get REFERENCE_ACTION ''sink_id'' = Some (JStr ''sink.integration-payment-ledger'')"
  by (simp_all add: REFERENCE_ACTION_def REFERENCE_SINK_def)

lemma str_field_get: "dict_get kvs k = Some (JStr s) \<Longrightarrow> str_field (JObj kvs) k = Inr s"
  by (simp add: str_field_def dict_index_def)

lemmas reference_str = reference_fields [THEN str_field_get]

lemma reference_integration: "new_reference_integration 40 n = Inr (reference_host n, reference_authz n)"
  unfolding new_reference_integration_def issue_reference_authorization_def Let_def reference_store option.case
    reference_str reference_digest
  by (simp add: reference_host_def reference_authz_def reference_issuer_def)

lemma reference_host_simps [simp]:
  "ho_ledger (reference_host n) = []" "ho_authority (reference_host n) = reference_authority"
  "ho_issuer (reference_host n) = reference_issuer" "ho_sink (reference_host n) = REFERENCE_SINK"
  "dict_get (ho_authorizations (reference_host n)) ''authz-1'' = Some (reference_authz n)"
  by (simp_all add: reference_host_def register_def new_host_def reference_authz_def sign_def)

lemma reference_payload_field:
  "jindex (reference_payload n k) ''action'' = Inr (JObj REFERENCE_ACTION)"
  "attr_get (reference_payload n k) ''authorization_id'' JNull = Inr (JStr ''authz-1'')"
  "int_field (reference_payload n k) ''committed_at'' = Inr 10"
  "str_field (reference_payload n k) ''commit_id'' = Inr k"
  "str_field (reference_payload n k) ''idempotency_key'' = Inr ''idem-1''"
  "attr_get (reference_payload n k) ''agent_id'' v = Inr v"
  "attr_get (reference_payload n k) ''trace_ref'' v = Inr v"
  "attr_get (reference_payload n k) ''token_digest'' JNull = Inr (JStr (token_digest (reference_authz n)))"
  by (simp_all add: reference_payload_def int_field_def str_field_def attr_get_def jget_or_def dict_index_def)

lemma reference_commit:
  "build_commit (reference_host n) (reference_payload n k) route
     = Inr (reference_event k route, Some (reference_authz n), Some (token_digest (reference_authz n)))"
  unfolding build_commit_def
  by (simp add: reference_payload_field reference_str reference_digest reference_store reference_event_def
      find_authorization_def)

lemma reference_covered:
  assumes "1 \<le> n"
  shows "covered_request (reference_host n)
    (reference_event k route, Some (reference_authz n), Some (token_digest (reference_authz n)))
    (reference_authz n) (token_digest (reference_authz n))"
proof -
  have "verify_integrity reference_issuer (reference_authz n)" by (simp add: reference_authz_def)
  moreover have "status_of epoch_one ''grant.treasury'' = ''ACTIVE''" by (simp add: status_of_def epoch_one_def)
  ultimately have "authorizes (reference_authz n) (reference_event k route) epoch_one reference_issuer 1
      (token_digest (reference_authz n))"
    unfolding authorizes_def
    using assms by (simp add: reference_authz_def sign_def reference_event_def bound_to_def token_digest_def)
  moreover have "use_count reference_issuer k = 0" for k
    by (simp add: reference_issuer_def new_issuer_def use_count_def)
  moreover have "ce_committed_at (reference_event k route) = 10" by (simp add: reference_event_def)
  ultimately show ?thesis by (simp add: covered_request_def reference_store)
qed

lemma reference_inv: "host_inv (reference_host n)" "idle (reference_host n)"
proof -
  show "host_inv (reference_host n)"
    unfolding reference_host_def by (rule host_inv_register [OF host_inv_new]) (simp add: new_host_def)
  show "idle (reference_host n)" by (simp add: idle_def reference_host_def register_def new_host_def)
qed

lemma reference_fresh: "commit_fresh (ho_ledger (reference_host n)) (reference_event k route)"
  by (simp add: commit_fresh_def reference_event_def sql_integer_def)

lemma reference_racing:
  assumes "1 \<le> n" "route \<in> set (route_ids HOST_DECLARED_PATHS)"
  shows "racing (reference_host n) (reference_payload n k) route (reference_authz n) (reference_event k route)
    (token_digest (reference_authz n))"
  unfolding racing_def using reference_commit reference_covered [OF assms(1)] reference_fresh assms(2) by blast

lemma declared: "ROUTE_HTTP_GUARDED \<in> set (route_ids HOST_DECLARED_PATHS)" "ROUTE_QUEUE_WORKER \<in> set (route_ids HOST_DECLARED_PATHS)"
  by (simp_all add: HOST_DECLARED_PATHS_def route_ids_def)

lemma reference_admitted:
  assumes "1 \<le> n"
  shows "\<exists>h d. guarded (reference_host n) (reference_payload n k) route = (h, Inr d)
    \<and> hd_outcome d = ''ADMITTED'' \<and> length (ho_ledger h) = 1"
proof -
  let ?c = "reference_event k route" and ?a = "reference_authz n"
  let ?h = "(do_record_use (reference_host n) ?a)\<lparr>ho_ledger :=
    [\<lparr>lr_event = stored_event ?c, lr_token = Some (token_digest ?a)\<rparr>]\<rparr>"
  have i: "\<not> idempotency_seen (ho_ledger (reference_host n)) (ce_idempotency_key ?c)"
    by (simp add: idempotency_seen_def)
  have f: "commit_fresh (ho_ledger (do_record_use (reference_host n) ?a)) ?c"
    using reference_fresh by simp
  have o: "ob_receipts (ho_observer (reference_host n)) = []" using reference_inv(2) by (simp add: idle_def)
  have "\<exists>h. record_commit ?h ?c True = (h, Inr ())"
    using f by (subst record_commit_ok) (simp_all add: o commit_fresh_def)
  then obtain h where h: "record_commit ?h ?c True = (h, Inr ())" by blast
  have "ho_ledger h = ho_ledger ?h" using record_commit_frame(1) [of ?h ?c True] by (simp add: h)
  then show ?thesis
    unfolding guarded_admits [OF reference_commit reference_covered [OF assms] i] do_insert_fresh [OF f]
    by (simp add: h decision_def)
qed


subsection \<open>The properties at the reference host\<close>

lemma guarded_history_is_clean_witness:
  "cv_disposition (host_verdict (serve [(reference_payload 1 ''commit-1'', ROUTE_HTTP_GUARDED),
      (reference_payload 1 ''commit-2'', ROUTE_QUEUE_WORKER), (JNull, ROUTE_HTTP_GUARDED)]
      (fold (\<lambda>a h. register h a) [reference_authz 1] (new_host REFERENCE_SINK reference_authority reference_issuer))))
    = NO_BOUNDARY_COUNTEREXAMPLE"
  by (rule guarded_history_is_clean) simp

lemma reference_pair:
  "racing (reference_host 1) (reference_payload 1 ''commit-1'') ROUTE_HTTP_GUARDED (reference_authz 1)
     (reference_event ''commit-1'' ROUTE_HTTP_GUARDED) (token_digest (reference_authz 1))"
  "racing (reference_host 1) (reference_payload 1 ''commit-2'') ROUTE_QUEUE_WORKER (reference_authz 1)
     (reference_event ''commit-2'' ROUTE_QUEUE_WORKER) (token_digest (reference_authz 1))"
  "ce_idempotency_key (reference_event ''commit-1'' ROUTE_HTTP_GUARDED)
     = ce_idempotency_key (reference_event ''commit-2'' ROUTE_QUEUE_WORKER)"
  by (rule reference_racing; simp add: declared)+ (simp add: reference_event_def)


text \<open>One run of the race, for the properties of reachable states.\<close>

lemma reference_race:
  "\<exists>s r. reachable (reference_host 1) s \<and> list_all is_finished (sv_threads s) \<and> ho_ledger (sv_host s) = [r]
    \<and> ce_route_id (lr_event r) \<noteq> ROUTE_HIDDEN_BATCH \<and> ce_authorization_ref (lr_event r) = Some ''authz-1''"
proof -
  note race = race_final [OF reference_pair host_inv_receipts [OF reference_inv(1)]]
  obtain ms k where ms: "valid_moves (both_arrived (reference_host 1) (reference_payload 1 ''commit-1'') ROUTE_HTTP_GUARDED
        (reference_payload 1 ''commit-2'') ROUTE_QUEUE_WORKER) ms"
    "foldl move (both_arrived (reference_host 1) (reference_payload 1 ''commit-1'') ROUTE_HTTP_GUARDED
        (reference_payload 1 ''commit-2'') ROUTE_QUEUE_WORKER) ms
      = \<lparr>sv_host = after_commit (do_record_use (do_record_use (reference_host 1) (reference_authz 1)) (reference_authz 1))
           (reference_event ''commit-1'' ROUTE_HTTP_GUARDED) (token_digest (reference_authz 1)),
         sv_threads = [Finished (Inr (accept_decision (live_one (reference_authz 1)
             (reference_event ''commit-1'' ROUTE_HTTP_GUARDED) (token_digest (reference_authz 1))))),
           Finished (Inl (IntegrityError k))]\<rparr>"
    by (rule race)
  let ?row = "\<lparr>lr_event = stored_event (reference_event ''commit-1'' ROUTE_HTTP_GUARDED), lr_token = Some (token_digest (reference_authz 1))\<rparr>"
  note r = both_arrived_reachable [OF reference_pair(1,2) ms(1), unfolded ms(2)]
  have "ce_route_id (lr_event ?row) \<noteq> ROUTE_HIDDEN_BATCH" "ce_authorization_ref (lr_event ?row) = Some ''authz-1''"
    by (simp_all add: reference_event_def ROUTE_HTTP_GUARDED_def ROUTE_HIDDEN_BATCH_def)
  then show ?thesis using r by (intro exI [of _ ?row] exI conjI) (assumption | simp)+
qed

lemma interleaved_rows_covered_witness:
  "\<exists>(s :: served) r. ho_ledger (sv_host s) = [r] \<and> (\<exists>t st n. lr_token r = Some t
     \<and> authorizes (reference_authz 1) (lr_event r) st reference_issuer n t)"
proof -
  obtain s r where s: "reachable (reference_host 1) s" "ho_ledger (sv_host s) = [r]"
    "ce_route_id (lr_event r) \<noteq> ROUTE_HIDDEN_BATCH" "ce_authorization_ref (lr_event r) = Some ''authz-1''"
    using reference_race by blast
  show ?thesis
    using interleaved_rows_covered [OF s(1) reference_inv(2)] s(2-4) by fastforce
qed

lemma one_commit_per_authorization_witness:
  "\<exists>(s :: served) r. ho_ledger (sv_host s) = [r] \<and> (\<forall>r' \<in> set (ho_ledger (sv_host s)).
     ce_route_id (lr_event r') \<noteq> ROUTE_HIDDEN_BATCH \<longrightarrow> ce_authorization_ref (lr_event r') = Some ''authz-1'' \<longrightarrow> r' = r)"
proof -
  obtain s r where s: "reachable (reference_host 1) s" "ho_ledger (sv_host s) = [r]"
    "ce_route_id (lr_event r) \<noteq> ROUTE_HIDDEN_BATCH" "ce_authorization_ref (lr_event r) = Some ''authz-1''"
    using reference_race by blast
  have a: "dict_get (ho_authorizations (reference_host 1)) ''authz-1'' = Some (reference_authz 1)"
    "au_idempotency_key (reference_authz 1) \<noteq> NON_APPLICABLE" "r \<in> set (ho_ledger (sv_host s))"
    by (simp_all add: s(2)) (simp add: reference_authz_def sign_def NON_APPLICABLE_def)
  show ?thesis
    using one_commit_per_authorization [OF s(1) reference_inv(2) a(1,2) _ a(3) _ s(3) _ s(4)] s(2) by blast
qed

lemma receipts_complete_at_rest_witness:
  "\<exists>s :: served. length (ho_ledger (sv_host s)) = 1 \<and> mset (receipt_ids (sv_host s)) = mset (commit_ids (sv_host s))"
proof -
  obtain s r where s: "reachable (reference_host 1) s" "list_all is_finished (sv_threads s)" "ho_ledger (sv_host s) = [r]"
    using reference_race by blast
  show ?thesis
    using receipts_complete_at_rest [OF s(1) reference_inv(2) s(2)] s(3) by (intro exI [of _ s]) simp
qed

text \<open>Two requests at the ledger: the first has the lock, the second waits for it.\<close>

lemma locked_arrivals:
  assumes "route1 \<in> set (route_ids HOST_DECLARED_PATHS)" "route2 \<in> set (route_ids HOST_DECLARED_PATHS)"
  shows "locked_reachable h \<lparr>lk_host = h, lk_owner = (\<lambda>_. None),
    lk_stages = [Outside (Arrived p1 route1 True), Outside (Arrived p2 route2 True)]\<rparr>"
proof -
  let ?s = "\<lambda>sts. \<lparr>lk_host = h, lk_owner = (\<lambda>_. None), lk_stages = sts\<rparr>"
  have "locked_step (?s []) (?s [Outside (Arrived p1 route1 True)])"
    using locked_step.guarded_arrives [OF assms(1), of "?s []" p1] by simp
  then have "locked_reachable h (?s [Outside (Arrived p1 route1 True)])" by (rule locked_reachable.step [OF locked_reachable.start])
  moreover have "locked_step (?s [Outside (Arrived p1 route1 True)]) (?s [Outside (Arrived p1 route1 True), Outside (Arrived p2 route2 True)])"
    using locked_step.guarded_arrives [OF assms(2), of "?s [Outside (Arrived p1 route1 True)]" p2] by simp
  ultimately show ?thesis by (rule locked_reachable.step)
qed

lemma locked_moves_reachable:
  "locked_reachable h s \<Longrightarrow> locked_moves s ms \<Longrightarrow> locked_reachable h (foldl locked_move s ms)"
  by (induction ms arbitrary: s) (auto intro: locked_reachable.step locked_step.thread_moves)

lemma reference_contention:
  "\<exists>s. locked_reachable (reference_host 1) s \<and> length (lk_stages s) = 2 \<and> can_move s 0 \<and> \<not> can_move s 1
    \<and> lk_owner s Ledger_Lock = Some 0"
proof -
  let ?c1 = "reference_event ''commit-1'' ROUTE_HTTP_GUARDED" and ?c2 = "reference_event ''commit-2'' ROUTE_QUEUE_WORKER"
  let ?a = "reference_authz 1" and ?h = "reference_host 1"
  let ?s0 = "\<lparr>lk_host = ?h, lk_owner = (\<lambda>_. None), lk_stages = [Outside (Arrived (reference_payload 1 ''commit-1'') ROUTE_HTTP_GUARDED True),
      Outside (Arrived (reference_payload 1 ''commit-2'') ROUTE_QUEUE_WORKER True)]\<rparr>"
  let ?ms = "[0, 0, 0, 1, 1, 1, 0, 0, 1, 1, 0]"
  note 1 = racing_steps [OF reference_pair(1)] and 2 = racing_steps [OF reference_pair(2)]
  have r: "locked_reachable ?h ?s0" by (rule locked_arrivals) (simp_all add: declared)
  have m: "locked_moves ?s0 ?ms"
    by (simp add: can_move_def enabled_def locked_move_def 1 2 use_steps del: advance.simps)
  have e: "foldl locked_move ?s0 ?ms = \<lparr>lk_host = do_store_use (do_store_use ?h ?a (use_count (ho_issuer ?h) (au_authorization_id ?a))) ?a
        (use_count (ho_issuer (do_store_use ?h ?a (use_count (ho_issuer ?h) (au_authorization_id ?a)))) (au_authorization_id ?a)),
      lk_owner = (\<lambda>_. None)(Ledger_Lock := Some 0),
      lk_stages = [Acquired Ledger_Lock (Inserting (live_one ?a ?c1 (token_digest ?a))), Outside (Inserting (live_one ?a ?c2 (token_digest ?a)))]\<rparr>"
    by (simp add: locked_move_def 1 2 use_steps del: advance.simps do_store_use_simps)
  show ?thesis
    using locked_moves_reachable [OF r m] unfolding e by (intro exI conjI) (assumption, simp_all add: can_move_def enabled_def)
qed

lemma locks_never_block_witness:
  "\<exists>s. locked_reachable (reference_host 1) s \<and> can_move s 0 \<and> \<not> can_move s 1 \<and> lk_owner s Ledger_Lock = Some 0
    \<and> (\<forall>ms. locked_moves s ms \<longrightarrow> length ms \<le> 34)"
proof -
  obtain s where s: "locked_reachable (reference_host 1) s" "length (lk_stages s) = 2" "can_move s 0" "\<not> can_move s 1"
    "lk_owner s Ledger_Lock = Some 0" using reference_contention by blast
  from locks_never_block [OF s(1)] have "\<forall>ms. locked_moves s ms \<longrightarrow> length ms \<le> 17 * length (lk_stages s)" by blast
  with s show ?thesis by (intro exI [of _ s]) simp
qed

text \<open>An authorization for one use that is bound to no key, and two requests under different keys.\<close>

definition open_authz :: authorization where
  "open_authz = sign reference_issuer ((reference_authz 1)\<lparr>au_idempotency_key := NON_APPLICABLE, au_integrity := []\<rparr>)"

definition open_host :: host where
  "open_host = register (new_host REFERENCE_SINK reference_authority reference_issuer) open_authz"

definition open_payload :: "string \<Rightarrow> string \<Rightarrow> json" where
  "open_payload commit_id key = JObj [(''action'', JObj REFERENCE_ACTION), (''authorization_id'', JStr ''authz-1''),
     (''committed_at'', JInt 10), (''commit_id'', JStr commit_id), (''idempotency_key'', JStr key),
     (''token_digest'', JStr (token_digest open_authz))]"

definition open_event :: "string \<Rightarrow> string \<Rightarrow> string \<Rightarrow> commit_event" where
  "open_event commit_id key route = (reference_event commit_id route)\<lparr>ce_idempotency_key := key\<rparr>"

lemma open_host_simps [simp]:
  "ho_ledger open_host = []" "ho_authority open_host = reference_authority" "ho_issuer open_host = reference_issuer"
  "dict_get (ho_authorizations open_host) ''authz-1'' = Some open_authz"
  by (simp_all add: open_host_def register_def new_host_def open_authz_def reference_authz_def sign_def)

lemma open_payload_field:
  "jindex (open_payload k key) ''action'' = Inr (JObj REFERENCE_ACTION)"
  "attr_get (open_payload k key) ''authorization_id'' JNull = Inr (JStr ''authz-1'')"
  "int_field (open_payload k key) ''committed_at'' = Inr 10" "str_field (open_payload k key) ''commit_id'' = Inr k"
  "str_field (open_payload k key) ''idempotency_key'' = Inr key" "attr_get (open_payload k key) ''agent_id'' v = Inr v"
  "attr_get (open_payload k key) ''trace_ref'' v = Inr v"
  "attr_get (open_payload k key) ''token_digest'' JNull = Inr (JStr (token_digest open_authz))"
  by (simp_all add: open_payload_def int_field_def str_field_def attr_get_def jget_or_def dict_index_def)

lemma open_commit:
  "build_commit open_host (open_payload k key) route = Inr (open_event k key route, Some open_authz, Some (token_digest open_authz))"
  unfolding build_commit_def
  by (simp add: open_payload_field reference_str reference_digest reference_store open_event_def reference_event_def
      find_authorization_def)

lemma open_racing:
  assumes "route \<in> set (route_ids HOST_DECLARED_PATHS)"
  shows "racing open_host (open_payload k key) route open_authz (open_event k key route) (token_digest open_authz)"
proof -
  have "verify_integrity reference_issuer open_authz" by (simp add: open_authz_def)
  moreover have "status_of epoch_one ''grant.treasury'' = ''ACTIVE''" by (simp add: status_of_def epoch_one_def)
  ultimately have "authorizes open_authz (open_event k key route) epoch_one reference_issuer 1 (token_digest open_authz)"
    unfolding authorizes_def
    by (simp add: open_authz_def reference_authz_def sign_def open_event_def reference_event_def bound_to_def token_digest_def)
  moreover have "use_count reference_issuer j = 0" for j
    by (simp add: reference_issuer_def new_issuer_def use_count_def)
  moreover have "ce_committed_at (open_event k key route) = 10" by (simp add: open_event_def reference_event_def)
  ultimately have "covered_request open_host (open_event k key route, Some open_authz, Some (token_digest open_authz))
      open_authz (token_digest open_authz)"
    by (simp add: covered_request_def reference_store)
  moreover have "commit_fresh [] (open_event k key route)"
    by (simp add: commit_fresh_def open_event_def reference_event_def sql_integer_def)
  ultimately show ?thesis using open_commit assms by (simp add: racing_def)
qed



lemma failing_request_disables_queue_witness:
  "let q = \<lparr>qh_host = reference_host 1, qh_alive = True, qh_jobs = []\<rparr>; q' = fst (enqueue q JNull 1) in
    snd (enqueue q JNull 1) = Inl (KeyError ''decision'')
    \<and> snd (enqueue q' (reference_payload 1 ''commit-1'') 5) = Inr WORKER_TIMEOUT"
proof -
  let ?q = "\<lparr>qh_host = reference_host 1, qh_alive = True, qh_jobs = []\<rparr>"
  have e: "snd (guarded (qh_host ?q) JNull ROUTE_QUEUE_WORKER) = Inl (TypeError ''indices'')"
    by (simp add: guarded_def build_commit_def)
  show ?thesis
    using failing_request_disables_queue [OF _ _ e, where n = 0 and ps = "[]"
      and p = "reference_payload 1 ''commit-1''" and m = 5] by (simp add: Let_def)
qed

lemma timeout_is_not_refusal_witness:
  "\<exists>d q q'. hd_outcome d = ''ADMITTED''
    \<and> snd (http_post q ''/v1/async-payments'' (reference_payload 1 ''commit-1'') 0) = Inr (403, host_decision_dict WORKER_TIMEOUT)
    \<and> worker_turn (fst (http_post q ''/v1/async-payments'' (reference_payload 1 ''commit-1'') 0)) = (q', [Inr d])"
proof -
  obtain h d where g: "guarded (reference_host 1) (reference_payload 1 ''commit-1'') ROUTE_QUEUE_WORKER = (h, Inr d)"
    "hd_outcome d = ''ADMITTED''" using reference_admitted [of 1 "''commit-1''" ROUTE_QUEUE_WORKER] by auto
  let ?q = "\<lparr>qh_host = reference_host 1, qh_alive = True, qh_jobs = []\<rparr>"
  have "qh_alive ?q" "qh_jobs ?q = []"
    and "guarded (qh_host ?q) (reference_payload 1 ''commit-1'') ROUTE_QUEUE_WORKER = (h, Inr d)" using g(1) by simp_all
  from timeout_is_not_refusal [OF this] g(2) show ?thesis by blast
qed

lemma http_200_iff_committed_witness:
  "let q = \<lparr>qh_host = reference_host 1, qh_alive = True, qh_jobs = []\<rparr>;
       (q', reply) = http_post q ''/v1/payments'' (reference_payload 1 ''commit-1'') 0 in
     (\<exists>body. reply = Inr (200, body)) \<longleftrightarrow> ho_ledger (qh_host q') \<noteq> []"
proof -
  let ?q = "\<lparr>qh_host = reference_host 1, qh_alive = True, qh_jobs = []\<rparr>"
  have i: "host_ok (qh_host ?q)" "balanced (qh_host ?q) {#}"
    using reference_inv(2) by (simp_all add: host_ok_def balanced_def commit_ids_def receipt_ids_def idle_def)
  from http_200_iff_committed [OF i, of "''/v1/payments''" "reference_payload 1 ''commit-1''" 0]
  show ?thesis by (simp add: Let_def case_prod_beta)
qed

end
