(* ===== verification/Provenance.thy ===== *)
theory Provenance
  imports Py_Json
begin

section \<open>Provenance of runs\<close>

text \<open>
  \<open>oat/provenance.py\<close>: labels and prefixes derived from the identity of a run, and the
  check that refuses one that belongs to another identity. The regular expressions are read on
  stripped text, where they look at its end; a digit is an ASCII digit.
\<close>

definition is_upper :: "char \<Rightarrow> bool" where
  "is_upper c \<longleftrightarrow> (65 :: nat) \<le> of_char c \<and> (of_char c :: nat) \<le> 90"

definition is_lower :: "char \<Rightarrow> bool" where
  "is_lower c \<longleftrightarrow> (97 :: nat) \<le> of_char c \<and> (of_char c :: nat) \<le> 122"

definition is_alnum :: "char \<Rightarrow> bool" where
  "is_alnum c \<longleftrightarrow> is_upper c \<or> is_lower c \<or> is_digit c"

definition upper_char :: "char \<Rightarrow> char" where
  "upper_char c = (if is_lower c then char_of ((of_char c :: nat) - 32) else c)"

definition run_suffix :: "string \<Rightarrow> string" where
  "run_suffix run_id =
     (case rev (strip_ws run_id) of
        c # d # _ \<Rightarrow> if is_upper c \<and> d = CHR ''-'' then [c] else []
      | _ \<Rightarrow> [])"

definition sequence_number :: "string \<Rightarrow> string res" where
  "sequence_number sequence_id =
     (let ds = rev (takeWhile is_digit (rev (strip_ws sequence_id))) in
      if ds = [] then Inl (ProvenanceMismatch (''sequence id carries no sequence number: '' @ repr_str sequence_id))
      else Inr ds)"

text \<open>\<open>re.sub(r"[^A-Za-z0-9]+", "_", s)\<close>; the flag tells that the last character was replaced.\<close>

fun collapse_other :: "bool \<Rightarrow> string \<Rightarrow> string" where
  "collapse_other b [] = []"
| "collapse_other b (c # s) =
     (if is_alnum c then c # collapse_other False s
      else if b then collapse_other True s else CHR ''_'' # collapse_other True s)"

definition strip_char :: "char \<Rightarrow> string \<Rightarrow> string" where
  "strip_char x s = rev (dropWhile (\<lambda>c. c = x) (rev (dropWhile (\<lambda>c. c = x) s)))"

definition sanitized :: "string \<Rightarrow> string" where
  "sanitized run_id = map upper_char (strip_char (CHR ''_'') (collapse_other False (strip_ws run_id)))"

definition runtime_artifact_label :: "string \<Rightarrow> string res" where
  "runtime_artifact_label run_id =
     (let suffix = run_suffix run_id in
      if suffix \<noteq> [] then Inr (''RUN_'' @ suffix @ ''_RUNTIME'')
      else if sanitized run_id = [] then
        Inl (ProvenanceMismatch (''run id yields no usable label: '' @ repr_str run_id))
      else Inr (sanitized run_id @ ''_RUNTIME''))"

definition temp_state_prefix :: "string \<Rightarrow> string res" where
  "temp_state_prefix sequence_id = bindE (sequence_number sequence_id) (\<lambda>n. Inr (''oat-seq'' @ n @ ''-''))"

definition assert_provenance_consistent :: "string \<Rightarrow> string \<Rightarrow> string \<Rightarrow> string \<Rightarrow> unit res" where
  "assert_provenance_consistent sequence_id run_id artifact_label state_prefix =
     bindE (runtime_artifact_label run_id) (\<lambda>expected_label.
       if artifact_label \<noteq> expected_label then
         Inl (ProvenanceMismatch (''artifact label '' @ repr_str artifact_label @ '' does not match run '' @ repr_str run_id
           @ '' (expected '' @ repr_str expected_label @ '')''))
       else bindE (temp_state_prefix sequence_id) (\<lambda>expected_prefix.
         if state_prefix \<noteq> expected_prefix then
           Inl (ProvenanceMismatch (''state prefix '' @ repr_str state_prefix @ '' does not match sequence ''
             @ repr_str sequence_id @ '' (expected '' @ repr_str expected_prefix @ '')''))
         else Inr ()))"

subsection \<open>What the labels bind\<close>

lemma consistent_iff:
  "assert_provenance_consistent q r l p = Inr () \<longleftrightarrow> runtime_artifact_label r = Inr l \<and> temp_state_prefix q = Inr p"
  by (auto simp: assert_provenance_consistent_def bindE_Inr_iff)

lemma temp_state_prefix_iff: "temp_state_prefix q = Inr p \<longleftrightarrow> (\<exists>n. sequence_number q = Inr n \<and> p = ''oat-seq'' @ n @ ''-'')"
  by (auto simp: temp_state_prefix_def bindE_Inr_iff)

lemma sequence_number_digits:
  "sequence_number q = Inr n \<Longrightarrow> n \<noteq> [] \<and> list_all is_digit n \<and> (\<exists>s. strip_ws q = s @ n)"
proof -
  assume "sequence_number q = Inr n"
  then have n: "n = rev (takeWhile is_digit (rev (strip_ws q)))" "n \<noteq> []"
    by (auto simp: sequence_number_def Let_def split: if_splits)
  have "strip_ws q = rev (dropWhile is_digit (rev (strip_ws q))) @ n"
    unfolding n(1) by (metis rev_append rev_rev_ident takeWhile_dropWhile_id)
  moreover have "list_all is_digit n" unfolding n(1) by (auto simp: list_all_iff dest: set_takeWhileD)
  ultimately show ?thesis using n(2) by blast
qed

text \<open>A label and a prefix that are accepted pin the run down: two runs that both pass the check with
  the same label and prefix have the same sequence number and derive the same label, and a run's own
  label and prefix always pass.\<close>

theorem accepted_provenance_binds:
  "(assert_provenance_consistent q r l p = Inr () \<and> assert_provenance_consistent q' r' l p = Inr () \<longrightarrow>
      sequence_number q = sequence_number q' \<and> runtime_artifact_label r = runtime_artifact_label r')
   \<and> ((\<exists>l p. assert_provenance_consistent q r l p = Inr ())
      \<longleftrightarrow> (\<exists>n. sequence_number q = Inr n) \<and> (run_suffix r \<noteq> [] \<or> sanitized r \<noteq> []))"
proof -
  have "(\<exists>l. runtime_artifact_label r = Inr l) \<longleftrightarrow> run_suffix r \<noteq> [] \<or> sanitized r \<noteq> []"
    by (simp add: runtime_artifact_label_def Let_def)
  then show ?thesis unfolding consistent_iff temp_state_prefix_iff by auto
qed

lemma accepted_provenance_binds_witness:
  "let q = ''OAT-SEQUENCE-005''; r = ''OAT-NIM-HOST-SINK-001-20260920-D'' in
     assert_provenance_consistent q r ''RUN_D_RUNTIME'' ''oat-seq005-'' = Inr ()
     \<and> sequence_number q = sequence_number ''005''"
proof -
  have n: "sequence_number ''OAT-SEQUENCE-005'' = Inr ''005''" "sequence_number ''005'' = Inr ''005''"
    by (simp_all add: sequence_number_def strip_ws_def is_space_def is_digit_def)
  have s: "run_suffix ''OAT-NIM-HOST-SINK-001-20260920-D'' = ''D''"
    by (simp add: run_suffix_def strip_ws_def is_space_def is_upper_def)
  have c: "assert_provenance_consistent q ''OAT-NIM-HOST-SINK-001-20260920-D'' ''RUN_D_RUNTIME'' ''oat-seq005-'' = Inr ()"
    if "sequence_number q = Inr ''005''" for q
    using that by (simp add: consistent_iff runtime_artifact_label_def s temp_state_prefix_iff)
  from accepted_provenance_binds [THEN conjunct1, rule_format, OF conjI [OF c [OF n(1)] c [OF n(2)]]] c [OF n(1)]
  show ?thesis by (simp only: Let_def simp_thms)
qed

subsection \<open>What they do not\<close>

lemma upper_lower: "is_upper c \<Longrightarrow> is_lower (lower_char c) \<and> upper_char (lower_char c) = c"
  unfolding is_upper_def is_lower_def upper_char_def lower_char_def Let_def by (simp add: of_char_mod_256)

lemma run_suffix_upper: "run_suffix r = [c] \<Longrightarrow> is_upper c"
  by (auto simp: run_suffix_def split: list.splits if_splits)

lemma run_suffix_cases: "run_suffix r = [] \<or> (\<exists>c. run_suffix r = [c] \<and> is_upper c)"
  by (auto simp: run_suffix_def split: list.splits)

text \<open>The label built from a whole identity can be another run's: a run whose identifier is run- and a
  small letter has no suffix, and gets the very label of every run that ends in that letter.\<close>

theorem whole_identity_label_collides:
  assumes "run_suffix r \<noteq> []"
  shows "\<exists>r'. run_suffix r' = [] \<and> r' \<noteq> r \<and> runtime_artifact_label r' = runtime_artifact_label r"
proof -
  obtain c where c: "run_suffix r = [c]" "is_upper c" using assms run_suffix_cases by blast
  let ?d = "lower_char c" let ?r = "''run-'' @ [?d]"
  note d = upper_lower [OF c(2)]
  have space: "\<not> is_space ?d" using d by (auto simp: is_space_def is_lower_def Let_def)
  then have strip: "strip_ws ?r = ?r" by (simp add: strip_ws_def) (simp add: is_space_def)
  have up: "\<not> is_upper ?d" using d by (auto simp: is_upper_def is_lower_def)
  have suf: "run_suffix ?r = []" unfolding run_suffix_def strip using up by simp
  have al: "is_alnum ?d" "?d \<noteq> CHR ''_''" using d by (auto simp: is_alnum_def is_lower_def)
  have letters: "is_alnum (CHR ''r'')" "is_alnum (CHR ''u'')" "is_alnum (CHR ''n'')" "\<not> is_alnum (CHR ''-'')"
    by (simp_all add: is_alnum_def is_upper_def is_lower_def is_digit_def)
  have ups: "upper_char (CHR ''r'') = CHR ''R''" "upper_char (CHR ''u'') = CHR ''U''"
    "upper_char (CHR ''n'') = CHR ''N''" "upper_char (CHR ''_'') = CHR ''_''"
    by code_simp+
  have "sanitized ?r = ''RUN_'' @ [c]"
    unfolding sanitized_def strip using d al letters by (simp add: strip_char_def ups)
  then have "runtime_artifact_label ?r = runtime_artifact_label r"
    unfolding runtime_artifact_label_def suf c(1) Let_def by simp
  moreover have "?r \<noteq> r" using suf c(1) by auto
  ultimately show ?thesis using suf by blast
qed

lemma whole_identity_label_collides_witness:
  "run_suffix ''OAT-NIM-HOST-SINK-001-20260920-D'' = ''D''
   \<and> (\<exists>r'. run_suffix r' = [] \<and> r' \<noteq> ''OAT-NIM-HOST-SINK-001-20260920-D''
        \<and> runtime_artifact_label r' = runtime_artifact_label ''OAT-NIM-HOST-SINK-001-20260920-D'')"
proof -
  have s: "run_suffix ''OAT-NIM-HOST-SINK-001-20260920-D'' = ''D''"
    by (simp add: run_suffix_def strip_ws_def is_space_def is_upper_def)
  then have "run_suffix ''OAT-NIM-HOST-SINK-001-20260920-D'' \<noteq> []" by simp
  from whole_identity_label_collides [OF this] s show ?thesis by blast
qed

end
