(* ===== verification/Json_Text.thy ===== *)
theory Json_Text
  imports Py_Json
begin

section \<open>JSON text\<close>

text \<open>
  \<open>json.dumps\<close> with its defaults (ASCII output, a blank after each separator), with sorted keys
  and with an indentation, and \<open>json.loads\<close>. Text is UTF-8 bytes. A document with a float
  literal is not modelled: the reader rejects it. The text of a decoding error is left out.
\<close>

subsection \<open>Characters\<close>

definition u_escape :: "nat \<Rightarrow> string" where
  "u_escape n = [CHR 0x5C, CHR ''u'', hex_digit (n div 4096 mod 16), hex_digit (n div 256 mod 16),
     hex_digit (n div 16 mod 16), hex_digit (n mod 16)]"

text \<open>The escape of a code point: a surrogate pair beyond 16 bits.\<close>

definition point_escape :: "nat \<Rightarrow> string" where
  "point_escape n =
     (if n < 65536 then u_escape n
      else u_escape (55296 + (n - 65536) div 1024) @ u_escape (56320 + (n - 65536) mod 1024))"

definition ascii_escape :: "char \<Rightarrow> string" where
  "ascii_escape c =
     (let n = of_char c :: nat in
      if n = 34 then [CHR 0x5C, CHR 0x22]
      else if n = 92 then [CHR 0x5C, CHR 0x5C]
      else if n = 10 then [CHR 0x5C, CHR ''n'']
      else if n = 13 then [CHR 0x5C, CHR ''r'']
      else if n = 9 then [CHR 0x5C, CHR ''t'']
      else if n = 12 then [CHR 0x5C, CHR ''f'']
      else if n = 8 then [CHR 0x5C, CHR ''b'']
      else if n < 32 \<or> n = 127 then u_escape n
      else [c])"

abbreviation byte :: "char \<Rightarrow> nat" where "byte c \<equiv> of_char c"

text \<open>The bytes of a text, code point by code point.\<close>

fun ascii_body :: "string \<Rightarrow> string" where
  "ascii_body [] = []"
| "ascii_body (c # s) =
     (if byte c < 128 then ascii_escape c @ ascii_body s
      else if byte c < 224 then
        (case s of d # s' \<Rightarrow> point_escape ((byte c - 192) * 64 + (byte d - 128)) @ ascii_body s' | [] \<Rightarrow> [])
      else if byte c < 240 then
        (case s of d # e # s' \<Rightarrow>
             point_escape ((byte c - 224) * 4096 + (byte d - 128) * 64 + (byte e - 128)) @ ascii_body s'
         | _ \<Rightarrow> [])
      else
        (case s of d # e # f # s' \<Rightarrow>
             point_escape ((byte c - 240) * 262144 + (byte d - 128) * 4096 + (byte e - 128) * 64 + (byte f - 128))
               @ ascii_body s'
         | _ \<Rightarrow> []))"

definition ascii_str :: "string \<Rightarrow> string" where
  "ascii_str s = CHR 0x22 # ascii_body s @ [CHR 0x22]"

subsection \<open>The writer\<close>

record json_style =
  js_sort :: bool
  js_item :: string
  js_key :: string
  js_indent :: "nat option"

text \<open>\<open>json.dumps(v)\<close>, \<open>json.dumps(v, sort_keys=True)\<close> and the same with \<open>indent=2\<close>.\<close>

definition plain_style :: json_style where
  "plain_style = \<lparr>js_sort = False, js_item = '', '', js_key = '': '', js_indent = None\<rparr>"

definition sorted_style :: json_style where
  "sorted_style = \<lparr>js_sort = True, js_item = '', '', js_key = '': '', js_indent = None\<rparr>"

definition indent_style :: json_style where
  "indent_style = \<lparr>js_sort = True, js_item = '','', js_key = '': '', js_indent = Some 2\<rparr>"

definition compact_style :: json_style where
  "compact_style = \<lparr>js_sort = True, js_item = '','', js_key = '':'', js_indent = None\<rparr>"

definition new_line :: "json_style \<Rightarrow> nat \<Rightarrow> string" where
  "new_line st n = (case js_indent st of None \<Rightarrow> [] | Some k \<Rightarrow> CHR 0x0A # replicate (k * n) (CHR '' ''))"

definition ordered :: "json_style \<Rightarrow> (string \<times> 'a) list \<Rightarrow> (string \<times> 'a) list" where
  "ordered st kvs = (if js_sort st then sort_key fst kvs else kvs)"

definition bracketed :: "json_style \<Rightarrow> nat \<Rightarrow> char \<Rightarrow> char \<Rightarrow> string list \<Rightarrow> string" where
  "bracketed st n l r items =
     (if items = [] then [l, r]
      else [l] @ new_line st (Suc n) @ join (js_item st @ new_line st (Suc n)) items @ new_line st n @ [r])"

fun emit :: "json_style \<Rightarrow> nat \<Rightarrow> json \<Rightarrow> string" where
  "emit st n JNull = ''null''"
| "emit st n (JBool b) = (if b then ''true'' else ''false'')"
| "emit st n (JInt i) = str_of_int i"
| "emit st n (JStr s) = ascii_str s"
| "emit st n (JList xs) = bracketed st n (CHR ''['') (CHR '']'') (map (emit st (Suc n)) xs)"
| "emit st n (JTuple xs) = bracketed st n (CHR ''['') (CHR '']'') (map (emit st (Suc n)) xs)"
| "emit st n (JObj kvs) = bracketed st n (CHR ''{'') (CHR ''}'')
     (map (\<lambda>(k, e). ascii_str k @ js_key st @ e) (ordered st (map (\<lambda>(k, v). (k, emit st (Suc n) v)) kvs)))"

definition json_text :: "json_style \<Rightarrow> json \<Rightarrow> string" where
  "json_text st v = emit st 0 v"

subsection \<open>The reader\<close>

definition is_json_space :: "char \<Rightarrow> bool" where
  "is_json_space c \<longleftrightarrow> byte c \<in> {9, 10, 13, 32}"

definition skip_space :: "string \<Rightarrow> string" where
  "skip_space s = dropWhile is_json_space s"

definition hex_value :: "char \<Rightarrow> nat option" where
  "hex_value c =
     (let n = byte c in
      if 48 \<le> n \<and> n \<le> 57 then Some (n - 48)
      else if 97 \<le> n \<and> n \<le> 102 then Some (n - 87)
      else if 65 \<le> n \<and> n \<le> 70 then Some (n - 55)
      else None)"

fun read_hex4 :: "string \<Rightarrow> (nat \<times> string) option" where
  "read_hex4 (a # b # c # d # s) =
     (case (hex_value a, hex_value b, hex_value c, hex_value d) of
        (Some w, Some x, Some y, Some z) \<Rightarrow> Some (w * 4096 + x * 256 + y * 16 + z, s)
      | _ \<Rightarrow> None)"
| "read_hex4 _ = None"

definition utf8 :: "nat \<Rightarrow> string" where
  "utf8 n =
     (if n < 128 then [char_of n]
      else if n < 2048 then [char_of (192 + n div 64), char_of (128 + n mod 64)]
      else if n < 65536 then [char_of (224 + n div 4096), char_of (128 + n div 64 mod 64), char_of (128 + n mod 64)]
      else [char_of (240 + n div 262144), char_of (128 + n div 4096 mod 64), char_of (128 + n div 64 mod 64),
            char_of (128 + n mod 64)])"

text \<open>The code point after a backslash and a \<open>u\<close>, with the second half of a surrogate pair if there is one.\<close>

definition read_point :: "string \<Rightarrow> (nat \<times> string) option" where
  "read_point s =
     (case read_hex4 s of
        None \<Rightarrow> None
      | Some (n, r) \<Rightarrow>
          if 55296 \<le> n \<and> n \<le> 56319 \<and> take 2 r = [CHR 0x5C, CHR ''u''] then
            (case read_hex4 (drop 2 r) of
               None \<Rightarrow> None
             | Some (m, r') \<Rightarrow>
                 if 56320 \<le> m \<and> m \<le> 57343 then Some (65536 + (n - 55296) * 1024 + (m - 56320), r')
                 else Some (n, r))
          else Some (n, r))"

lemma read_hex4_length: "read_hex4 s = Some (n, r) \<Longrightarrow> length r < length s"
  by (cases s rule: read_hex4.cases) (auto split: option.splits)

lemma read_point_length: "read_point s = Some (n, r) \<Longrightarrow> length r < length s"
  by (force simp: read_point_def dest: read_hex4_length split: option.splits if_splits)

definition simple_escape :: "char \<Rightarrow> char option" where
  "simple_escape c = map_of [(CHR 0x22, CHR 0x22), (CHR 0x5C, CHR 0x5C), (CHR ''/'', CHR ''/''), (CHR ''b'', CHR 0x08),
     (CHR ''f'', CHR 0x0C), (CHR ''n'', CHR 0x0A), (CHR ''r'', CHR 0x0D), (CHR ''t'', CHR 0x09)] c"

definition prepend :: "string \<Rightarrow> (string \<times> string) option \<Rightarrow> (string \<times> string) option" where
  "prepend p m = map_option (\<lambda>(t, r). (p @ t, r)) m"

text \<open>A string, after its opening quote.\<close>

function read_string :: "string \<Rightarrow> (string \<times> string) option" where
  "read_string [] = None"
| "read_string (c # s) =
     (if c = CHR 0x22 then Some ([], s)
      else if c = CHR 0x5C then
        (case s of
           [] \<Rightarrow> None
         | d # s' \<Rightarrow>
             (if d = CHR ''u'' then
                (case read_point s' of None \<Rightarrow> None | Some (n, r) \<Rightarrow> prepend (utf8 n) (read_string r))
              else (case simple_escape d of None \<Rightarrow> None | Some x \<Rightarrow> prepend [x] (read_string s'))))
      else if byte c < 32 then None
      else prepend [c] (read_string s))"
  by pat_completeness auto
termination
  by (relation "measure length") (auto dest: read_point_length)

text \<open>An integer literal: digits without a leading zero, no fraction and no exponent after them.\<close>

definition is_float_tail :: "string \<Rightarrow> bool" where
  "is_float_tail s = (case s of
      c # d # r \<Rightarrow> (c = CHR ''.'' \<and> is_digit d)
        \<or> (c \<in> {CHR ''e'', CHR ''E''} \<and> (is_digit d \<or> (d \<in> {CHR ''+'', CHR ''-''} \<and> r \<noteq> [] \<and> is_digit (hd r))))
    | _ \<Rightarrow> False)"

definition read_nat :: "string \<Rightarrow> (int \<times> string) option" where
  "read_nat s =
     (let ds = (case s of c # _ \<Rightarrow> if c = CHR ''0'' then [c] else takeWhile is_digit s | [] \<Rightarrow> []);
          r = drop (length ds) s
      in if ds = [] \<or> is_float_tail r then None else Some (int (nat_of_digits ds), r))"

definition read_int :: "string \<Rightarrow> (int \<times> string) option" where
  "read_int s = (case s of
      c # r \<Rightarrow> if c = CHR ''-'' then map_option (\<lambda>(i, r). (- i, r)) (read_nat r) else read_nat s
    | [] \<Rightarrow> None)"

definition read_word :: "string \<Rightarrow> json \<Rightarrow> string \<Rightarrow> (json \<times> string) option" where
  "read_word w v s = (if starts_with s w then Some (v, drop (length w) s) else None)"

text \<open>
  Values, the rest of an array after a value and the rest of an object before a key, with fuel;
  twice the length of the text and two more is always enough.
\<close>

fun read_value :: "nat \<Rightarrow> string \<Rightarrow> (json \<times> string) option"
  and read_elements :: "nat \<Rightarrow> string \<Rightarrow> (json list \<times> string) option"
  and read_members :: "nat \<Rightarrow> string \<Rightarrow> ((string \<times> json) list \<times> string) option" where
  "read_value 0 s = None"
| "read_value (Suc n) s =
     (case s of
        [] \<Rightarrow> None
      | c # r \<Rightarrow>
          if c = CHR 0x22 then map_option (\<lambda>(t, r). (JStr t, r)) (read_string r)
          else if c = CHR ''{'' then
            (let r = skip_space r in
             if take 1 r = ''}'' then Some (JObj [], drop 1 r)
             else map_option (\<lambda>(kvs, r). (JObj (foldl (\<lambda>d (k, v). dict_set k v d) [] kvs), r)) (read_members n r))
          else if c = CHR ''['' then
            (let r = skip_space r in
             if take 1 r = '']'' then Some (JList [], drop 1 r)
             else map_option (\<lambda>(xs, r). (JList xs, r)) (read_elements n r))
          else if c = CHR ''n'' then read_word ''null'' JNull s
          else if c = CHR ''t'' then read_word ''true'' (JBool True) s
          else if c = CHR ''f'' then read_word ''false'' (JBool False) s
          else map_option (\<lambda>(i, r). (JInt i, r)) (read_int s))"
| "read_elements 0 s = None"
| "read_elements (Suc n) s =
     (case read_value n s of
        None \<Rightarrow> None
      | Some (v, r) \<Rightarrow>
          (case skip_space r of
             c # r \<Rightarrow>
               if c = CHR '']'' then Some ([v], r)
               else if c = CHR '','' then map_option (\<lambda>(vs, r). (v # vs, r)) (read_elements n (skip_space r))
               else None
           | [] \<Rightarrow> None))"
| "read_members 0 s = None"
| "read_members (Suc n) s =
     (case s of
        [] \<Rightarrow> None
      | c # r \<Rightarrow>
          if c \<noteq> CHR 0x22 then None
          else (case read_string r of
             None \<Rightarrow> None
           | Some (k, r) \<Rightarrow>
               (case skip_space r of
                  c # r \<Rightarrow>
                    if c \<noteq> CHR '':'' then None
                    else (case read_value n (skip_space r) of
                       None \<Rightarrow> None
                     | Some (v, r) \<Rightarrow>
                         (case skip_space r of
                            c # r \<Rightarrow>
                              if c = CHR ''}'' then Some ([(k, v)], r)
                              else if c = CHR '','' then
                                map_option (\<lambda>(kvs, r). ((k, v) # kvs, r)) (read_members n (skip_space r))
                              else None
                          | [] \<Rightarrow> None))
                | [] \<Rightarrow> None)))"

definition json_loads :: "string \<Rightarrow> json res" where
  "json_loads s =
     (case read_value (2 * length s + 2) (skip_space s) of
        Some (v, r) \<Rightarrow> if skip_space r = [] then Inr v else Inl (ValueError ''JSONDecodeError'')
      | None \<Rightarrow> Inl (ValueError ''JSONDecodeError''))"

end
