(* ===== verification/Json_Roundtrip.thy ===== *)
theory Json_Roundtrip
  imports Json_Text "HOL-Library.Multiset"
begin

section \<open>What is written reads back\<close>

text \<open>
  \<open>json_loads\<close> after \<open>json_text\<close>, in every style, for documents whose text is ASCII and whose
  dictionaries have no key twice: the document with tuples turned into lists and, when the style
  sorts, keys in order. The proof is made once, in a locale, for any way to write a string that reads
  back; \<open>json.dumps\<close> has two, with and without \<open>ensure_ascii\<close>.
\<close>

definition ascii :: "string \<Rightarrow> bool" where
  "ascii s \<longleftrightarrow> list_all (\<lambda>c. byte c < 128) s"

fun ascii_doc :: "json \<Rightarrow> bool" where
  "ascii_doc (JStr s) = ascii s"
| "ascii_doc (JList xs) = list_all ascii_doc xs"
| "ascii_doc (JTuple xs) = list_all ascii_doc xs"
| "ascii_doc (JObj kvs) = (distinct (map fst kvs) \<and> list_all (\<lambda>(k, v). ascii k \<and> ascii_doc v) kvs)"
| "ascii_doc _ = True"

fun reread :: "json_style \<Rightarrow> json \<Rightarrow> json" where
  "reread st (JList xs) = JList (map (reread st) xs)"
| "reread st (JTuple xs) = JList (map (reread st) xs)"
| "reread st (JObj kvs) = JObj (ordered st (map (\<lambda>(k, v). (k, reread st v)) kvs))"
| "reread st v = v"

lemma jget_reread: "jget (reread st d) k = map_option (reread st) (jget d k)"
  by (cases d) (simp_all add: ordered_def dict_get_map_snd)

subsection \<open>Strings\<close>

lemma read_hex4_u_escape:
  "n < 65536 \<Longrightarrow> read_hex4 (drop 2 (u_escape n) @ s) = Some (n, s)"
proof -
  have h: "hex_value (hex_digit k) = Some k" if "k < 16" for k
    using that by (simp add: hex_value_def hex_digit_def Let_def)
  assume "n < 65536"
  then have "n div 4096 mod 16 * 4096 + n div 256 mod 16 * 256 + n div 16 mod 16 * 16 + n mod 16 = n"
  proof -
    define a b c where "a = n div 16" and "b = a div 16" and "c = b div 16"
    have "n div 256 = b" "n div 4096 = c" by (simp_all add: a_def b_def c_def div_mult2_eq [symmetric])
    moreover have "c mod 16 = c" using \<open>n < 65536\<close> by (simp add: a_def b_def c_def div_mult2_eq [symmetric])
    moreover have "n = a * 16 + n mod 16" "a = b * 16 + a mod 16" "b = c * 16 + b mod 16"
      by (simp_all add: a_def b_def c_def div_mult_mod_eq)
    ultimately show ?thesis by (simp add: a_def [symmetric])
  qed
  moreover have "n div 4096 < 16" using \<open>n < 65536\<close> by simp
  ultimately show ?thesis by (simp add: u_escape_def h)
qed

declare read_string.simps [simp del]

lemma read_string_simps [simp]:
  "read_string (CHR 0x22 # s) = Some ([], s)"
  "read_string (CHR 0x5C # CHR ''u'' # s) =
     (case read_point s of None \<Rightarrow> None | Some (n, r) \<Rightarrow> prepend (utf8 n) (read_string r))"
  "d \<noteq> CHR ''u'' \<Longrightarrow> read_string (CHR 0x5C # d # s) =
     (case simple_escape d of None \<Rightarrow> None | Some x \<Rightarrow> prepend [x] (read_string s))"
  by (simp_all add: read_string.simps)

lemma read_string_plain: "c \<noteq> CHR 0x22 \<Longrightarrow> c \<noteq> CHR 0x5C \<Longrightarrow> 32 \<le> byte c \<Longrightarrow>
    read_string (c # s) = prepend [c] (read_string s)"
  by (simp add: read_string.simps)

lemma read_escape:
  assumes "byte c < 128"
  shows "read_string (ascii_escape c @ s) = prepend [c] (read_string s)"
proof -
  define n where "n = byte c"
  have c: "c = char_of n" by (simp add: n_def)
  have n: "n < 128" using assms by (simp add: n_def)
  consider "n = 34" | "n = 92" | "n = 10" | "n = 13" | "n = 9" | "n = 12" | "n = 8"
    | (ctl) "n < 32 \<or> n = 127" "n \<notin> {8, 9, 10, 12, 13}" | (plain) "32 \<le> n" "n \<noteq> 34" "n \<noteq> 92" "n \<noteq> 127"
    by fastforce
  then show ?thesis
  proof cases
    case ctl
    have p: "read_point (drop 2 (u_escape n) @ s) = Some (n, s)"
      unfolding read_point_def using n by (subst read_hex4_u_escape) simp_all
    have "ascii_escape c = u_escape n" using ctl by (auto simp: ascii_escape_def n_def [symmetric] Let_def)
    moreover have "u_escape n = CHR 0x5C # CHR ''u'' # drop 2 (u_escape n)" by (simp add: u_escape_def)
    moreover have "utf8 n = [c]" using n by (simp add: utf8_def c)
    ultimately have "ascii_escape c @ s = CHR 0x5C # CHR ''u'' # drop 2 (u_escape n) @ s" "utf8 n = [c]"
      by (metis append_Cons)+
    then show ?thesis by (simp add: p)
  next
    case plain
    then have "c \<noteq> CHR 0x5C" "c \<noteq> CHR 0x22" by (auto simp: n_def)
    with plain show ?thesis
      using read_string_plain [of c s] by (simp add: ascii_escape_def n_def [symmetric])
  qed (simp_all add: ascii_escape_def c char_of_escapes simple_escape_def)
qed

lemma read_ascii_body: "ascii s \<Longrightarrow> read_string (ascii_body s @ CHR 0x22 # rest) = Some (s, rest)"
proof (induction s)
  case (Cons c s)
  then have "byte c < 128" "ascii s" by (simp_all add: ascii_def)
  with Cons.IH show ?case by (simp add: read_escape prepend_def)
qed simp

subsection \<open>Numbers\<close>

text \<open>What may follow a number.\<close>

definition clean :: "string \<Rightarrow> bool" where
  "clean s \<longleftrightarrow> s = [] \<or> hd s \<in> {CHR '','', CHR '']'', CHR ''}'', CHR 0x0A, CHR '' ''}"

lemma clean_no_digit: "clean s \<Longrightarrow> takeWhile is_digit s = []"
  by (cases s) (auto simp: clean_def is_digit_def)

lemma clean_no_float: "clean s \<Longrightarrow> \<not> is_float_tail s"
  by (cases s) (auto simp: clean_def is_float_tail_def split: list.splits)

lemma str_of_nat_leading: "0 < n \<Longrightarrow> hd (str_of_nat n) \<noteq> CHR ''0''"
proof (induction n rule: str_of_nat.induct)
  case (1 n)
  show ?case
  proof (cases "n < 10")
    case True
    have "digit_char n \<noteq> CHR ''0''"
    proof
      assume "digit_char n = CHR ''0''"
      then have "(of_char (digit_char n) :: nat) = 48" by simp
      with True 1(2) show False by (simp add: of_char_digit_char)
    qed
    then show ?thesis using True by (subst str_of_nat.simps) simp
  next
    case False
    then show ?thesis using 1 by (subst str_of_nat.simps) simp
  qed
qed

lemma read_nat_str: "clean s \<Longrightarrow> read_nat (str_of_nat n @ s) = Some (int n, s)"
proof -
  assume c: "clean s"
  have all: "takeWhile is_digit (str_of_nat n @ s) = str_of_nat n"
    using str_of_nat_digits [of n] clean_no_digit [OF c] by (simp add: takeWhile_append)
  obtain d r where d: "str_of_nat n = d # r" by (cases "str_of_nat n") auto
  have zero: "str_of_nat 0 = ''0''" by (subst str_of_nat.simps) (simp add: digit_char_def char_eq_of_char del: of_char_eq_iff)
  show ?thesis
  proof (cases "n = 0")
    case True
    then show ?thesis using clean_no_float [OF c] zero nat_of_digits_str_of_nat [of 0] by (simp add: read_nat_def)
  next
    case False
    then have "d \<noteq> CHR ''0''" using str_of_nat_leading [of n] d by simp
    then show ?thesis
      using all clean_no_float [OF c] nat_of_digits_str_of_nat [of n] d
      by (simp add: read_nat_def Let_def)
  qed
qed

lemma read_int_str: "clean s \<Longrightarrow> read_int (str_of_int i @ s) = Some (i, s)"
proof -
  assume c: "clean s"
  obtain d r where d: "str_of_nat (nat i) = d # r" by (cases "str_of_nat (nat i)") auto
  have "d \<noteq> CHR ''-''" using d str_of_nat_not_minus by metis
  then show ?thesis
    using read_nat_str [OF c, of "nat i"] read_nat_str [OF c, of "nat (- i)"] d
    by (auto simp: read_int_def str_of_int_def)
qed

subsection \<open>White space and brackets\<close>

lemma skip_space_simps [simp]:
  "skip_space [] = []" "is_json_space c \<Longrightarrow> skip_space (c # s) = skip_space s"
  "\<not> is_json_space c \<Longrightarrow> skip_space (c # s) = c # s"
  by (simp_all add: skip_space_def)

lemma skip_blanks: "list_all is_json_space w \<Longrightarrow> skip_space (w @ s) = skip_space s"
  by (induction w) simp_all

definition blank_tail :: "char \<Rightarrow> string \<Rightarrow> bool" where
  "blank_tail c s \<longleftrightarrow> (\<exists>w. s = c # w \<and> list_all is_json_space w)"

definition style_ok :: "json_style \<Rightarrow> bool" where
  "style_ok st \<longleftrightarrow> blank_tail (CHR '','') (js_item st) \<and> blank_tail (CHR '':'') (js_key st)"

lemma styles_ok: "style_ok plain_style" "style_ok sorted_style" "style_ok indent_style" "style_ok compact_style"
  by (simp_all add: style_ok_def blank_tail_def plain_style_def sorted_style_def indent_style_def
      compact_style_def is_json_space_def)

lemma new_line_blank: "list_all is_json_space (new_line st n)"
  by (auto simp: new_line_def list_all_iff is_json_space_def split: option.split)

subsection \<open>The writer, for any way to write a string\<close>

definition quoted :: "(string \<Rightarrow> string) \<Rightarrow> string \<Rightarrow> string" where
  "quoted body s = CHR 0x22 # body s @ [CHR 0x22]"

fun write_doc :: "(string \<Rightarrow> string) \<Rightarrow> json_style \<Rightarrow> nat \<Rightarrow> json \<Rightarrow> string" where
  "write_doc body st n JNull = ''null''"
| "write_doc body st n (JBool b) = (if b then ''true'' else ''false'')"
| "write_doc body st n (JInt i) = str_of_int i"
| "write_doc body st n (JStr s) = quoted body s"
| "write_doc body st n (JList xs) = bracketed st n (CHR ''['') (CHR '']'') (map (write_doc body st (Suc n)) xs)"
| "write_doc body st n (JTuple xs) = bracketed st n (CHR ''['') (CHR '']'') (map (write_doc body st (Suc n)) xs)"
| "write_doc body st n (JObj kvs) = bracketed st n (CHR ''{'') (CHR ''}'')
     (map (\<lambda>(k, e). quoted body k @ js_key st @ e) (ordered st (map (\<lambda>(k, v). (k, write_doc body st (Suc n) v)) kvs)))"

fun fine_doc :: "(string \<Rightarrow> bool) \<Rightarrow> json \<Rightarrow> bool" where
  "fine_doc p (JStr s) = p s"
| "fine_doc p (JList xs) = list_all (fine_doc p) xs"
| "fine_doc p (JTuple xs) = list_all (fine_doc p) xs"
| "fine_doc p (JObj kvs) = (distinct (map fst kvs) \<and> list_all (\<lambda>(k, v). p k \<and> fine_doc p v) kvs)"
| "fine_doc p _ = True"

text \<open>The items of a bracket, one after the other: a separator and blanks between them, blanks before the end.\<close>

fun items_text :: "string \<Rightarrow> string \<Rightarrow> char \<Rightarrow> string list \<Rightarrow> string" where
  "items_text sep w c [] = []"
| "items_text sep w c [x] = x @ w @ [c]"
| "items_text sep w c (x # y # xs) = x @ sep @ items_text sep w c (y # xs)"

lemma items_text_join: "xs \<noteq> [] \<Longrightarrow> join sep xs @ w @ [c] = items_text sep w c xs"
  by (induction xs rule: induct_list012) simp_all

lemma bracketed_items:
  "items \<noteq> [] \<Longrightarrow> bracketed st n l r items
     = l # new_line st (Suc n) @ items_text (js_item st @ new_line st (Suc n)) (new_line st n) r items"
  by (simp add: bracketed_def items_text_join [symmetric])

lemma separator:
  assumes "style_ok st"
  obtains w where "js_item st @ new_line st n = CHR '','' # w" "list_all is_json_space w"
  using assms new_line_blank [of st n] by (auto simp: style_ok_def blank_tail_def)

subsection \<open>Fuel\<close>

fun need :: "json \<Rightarrow> nat" where
  "need (JList xs) = Suc (sum_list (map (\<lambda>v. Suc (need v)) xs))"
| "need (JTuple xs) = Suc (sum_list (map (\<lambda>v. Suc (need v)) xs))"
| "need (JObj kvs) = Suc (sum_list (map (\<lambda>(k, v). Suc (need v)) kvs))"
| "need _ = 1"

definition reads :: "(string \<Rightarrow> string) \<Rightarrow> json_style \<Rightarrow> nat \<Rightarrow> json \<Rightarrow> bool" where
  "reads body st n v \<longleftrightarrow> (\<forall>fuel rest. need v \<le> fuel \<longrightarrow> clean rest \<longrightarrow>
     read_value fuel (write_doc body st n v @ rest) = Some (reread st v, rest))"

declare read_value.simps [simp del] read_elements.simps [simp del] read_members.simps [simp del]

lemma clean_simps [simp]:
  "clean (CHR '','' # s)" "clean (CHR '']'' # s)" "clean (CHR ''}'' # s)" "clean []"
  by (simp_all add: clean_def)

lemma clean_new_line: "clean (new_line st n @ s) \<longleftrightarrow> js_indent st \<noteq> None \<or> clean s"
  by (cases "js_indent st") (simp_all add: new_line_def clean_def)

lemma clean_close: "clean (new_line st n @ CHR '']'' # s)" "clean (new_line st n @ CHR ''}'' # s)"
  by (simp_all add: clean_new_line)

subsection \<open>Documents\<close>

lemma foldl_dict_set:
  "distinct (map fst (acc @ kvs)) \<Longrightarrow> foldl (\<lambda>d (k, v). dict_set k v d) acc kvs = acc @ kvs"
proof (induction kvs arbitrary: acc)
  case (Cons kv kvs)
  obtain k v where kv: "kv = (k, v)" by fastforce
  have "dict_set k v acc = acc @ [(k, v)]" if "k \<notin> fst ` set acc" for acc :: "('a \<times> 'b) list"
    using that by (induction acc) (auto simp: dict_set_def)
  moreover have "k \<notin> fst ` set acc" using Cons.prems kv by auto
  ultimately show ?case using Cons by (simp add: kv)
qed simp

lemma ordered_map: "ordered st (map (\<lambda>(k, v). (k, f v)) kvs) = map (\<lambda>(k, v). (k, f v)) (ordered st kvs)"
  by (simp add: ordered_def sort_key_map_snd)

lemma ordered_props: "set (ordered st kvs) = set kvs" "ordered st kvs = [] \<longleftrightarrow> kvs = []"
    "distinct (map fst (ordered st kvs)) \<longleftrightarrow> distinct (map fst kvs)" "mset (ordered st kvs) = mset kvs"
proof -
  show m: "mset (ordered st kvs) = mset kvs" by (simp add: ordered_def)
  then show "set (ordered st kvs) = set kvs" "ordered st kvs = [] \<longleftrightarrow> kvs = []"
    by (metis set_mset_mset, metis mset_zero_iff)
  from m have "mset (map fst (ordered st kvs)) = mset (map fst kvs)" by (metis mset_map)
  then show "distinct (map fst (ordered st kvs)) \<longleftrightarrow> distinct (map fst kvs)" by (rule mset_eq_imp_distinct_iff)
qed

lemma join_length: "sum_list (map length xs) + length sep * (length xs - 1) = length (join sep xs)"
  by (induction xs rule: induct_list012) simp_all

lemma bracketed_length:
  assumes "style_ok st"
  shows "sum_list (map length items) + Suc (length items) \<le> length (bracketed st n l r items)"
proof (cases items)
  case (Cons x xs)
  have "1 \<le> length (js_item st)" using assms by (auto simp: style_ok_def blank_tail_def)
  then have "length items - 1 \<le> length (js_item st @ new_line st (Suc n)) * (length items - 1)" by simp
  then have "sum_list (map length items) + (length items - 1) \<le> length (join (js_item st @ new_line st (Suc n)) items)"
    unfolding join_length [symmetric] by simp
  then show ?thesis using Cons by (simp add: bracketed_def)
qed (simp add: bracketed_def)

lemma sum_need:
  assumes "\<forall>x \<in> set xs. f x \<le> 2 * length (g x)"
  shows "sum_list (map (\<lambda>x. Suc (f x)) xs) \<le> 2 * sum_list (map length (map g xs)) + length xs"
  using assms by (induction xs) auto

subsection \<open>Reading what is written\<close>

text \<open>A way to write the strings it is \<open>fine\<close> with, up to the closing quote.\<close>

locale string_writer =
  fixes body :: "string \<Rightarrow> string" and fine :: "string \<Rightarrow> bool"
  assumes reads_body: "fine s \<Longrightarrow> read_string (body s @ CHR 0x22 # rest) = Some (s, rest)"
begin

text \<open>The first character of a value starts no white space and closes no bracket.\<close>

lemma write_head: "\<exists>c r. write_doc body st n v = c # r \<and> \<not> is_json_space c \<and> c \<noteq> CHR '']''"
proof (cases v)
  case (JInt i)
  have "\<not> is_json_space c \<and> c \<noteq> CHR '']''" if "is_digit c \<or> c = CHR ''-''" for c
    using that by (auto simp: is_digit_def is_json_space_def)
  with str_of_int_head [of i] JInt show ?thesis by force
qed (simp_all add: is_json_space_def quoted_def bracketed_def)

lemma skip_write [simp]: "skip_space (write_doc body st n v @ s) = write_doc body st n v @ s"
  using write_head [of st n v] by auto

lemma skip_quoted [simp]: "skip_space (quoted body k @ s) = quoted body k @ s"
  by (simp add: quoted_def is_json_space_def)

lemma read_items:
  assumes "style_ok st" "xs \<noteq> []" "\<forall>v \<in> set xs. reads body st m v"
    and "sum_list (map (\<lambda>v. Suc (need v)) xs) \<le> fuel"
  shows "read_elements fuel (items_text (js_item st @ new_line st m) (new_line st k) (CHR '']'') (map (write_doc body st m) xs) @ rest)
    = Some (map (reread st) xs, rest)"
  using assms(2-4)
proof (induction xs arbitrary: fuel rule: induct_list012)
  case (2 v)
  then obtain f where f: "fuel = Suc f" "need v \<le> f" by (cases fuel) auto
  have "read_value f (write_doc body st m v @ new_line st k @ CHR '']'' # rest) = Some (reread st v, new_line st k @ CHR '']'' # rest)"
    using 2 f clean_close by (simp add: reads_def)
  moreover have "skip_space (new_line st k @ CHR '']'' # rest) = CHR '']'' # rest"
    using skip_blanks [OF new_line_blank] by (simp add: is_json_space_def)
  ultimately show ?case by (simp add: f read_elements.simps)
next
  case (3 v v' vs)
  obtain w where w: "js_item st @ new_line st m = CHR '','' # w" "list_all is_json_space w"
    using separator [OF assms(1)] .
  obtain f where f: "fuel = Suc f" "need v \<le> f" "sum_list (map (\<lambda>v. Suc (need v)) (v' # vs)) \<le> f"
    using 3 by (cases fuel) auto
  let ?rest = "items_text (js_item st @ new_line st m) (new_line st k) (CHR '']'') (map (write_doc body st m) (v' # vs)) @ rest"
  have "read_value f (write_doc body st m v @ CHR '','' # w @ ?rest) = Some (reread st v, CHR '','' # w @ ?rest)"
    using 3 f by (simp add: reads_def)
  moreover have "skip_space (w @ ?rest) = ?rest"
    using skip_write [of st m v'] by (cases vs) (simp_all add: skip_blanks [OF w(2)])
  moreover have "read_elements f ?rest = Some (map (reread st) (v' # vs), rest)"
    using 3 f by (intro "3.IH") simp_all
  ultimately show ?case using w(1) by (simp add: f(1) read_elements.simps is_json_space_def)
qed simp

lemma read_pairs:
  assumes "style_ok st" "kvs \<noteq> []" "\<forall>(k, v) \<in> set kvs. fine k \<and> reads body st m v"
    and "sum_list (map (\<lambda>(k, v). Suc (need v)) kvs) \<le> fuel"
  shows "read_members fuel (items_text (js_item st @ new_line st m) (new_line st j) (CHR ''}'')
      (map (\<lambda>(k, v). quoted body k @ js_key st @ write_doc body st m v) kvs) @ rest)
    = Some (map (\<lambda>(k, v). (k, reread st v)) kvs, rest)"
  using assms(2-4)
proof (induction kvs arbitrary: fuel rule: induct_list012)
  case (2 kv)
  obtain k v where kv: "kv = (k, v)" by fastforce
  obtain w where w: "js_key st = CHR '':'' # w" "list_all is_json_space w"
    using assms(1) by (auto simp: style_ok_def blank_tail_def)
  obtain f where f: "fuel = Suc f" "need v \<le> f" using 2 kv by (cases fuel) auto
  have "read_value f (write_doc body st m v @ new_line st j @ CHR ''}'' # rest) = Some (reread st v, new_line st j @ CHR ''}'' # rest)"
    using 2 kv f clean_close by (simp add: reads_def)
  moreover have "skip_space (new_line st j @ CHR ''}'' # rest) = CHR ''}'' # rest"
    using skip_blanks [OF new_line_blank] by (simp add: is_json_space_def)
  moreover have "read_string (body k @ CHR 0x22 # CHR '':'' # w @ s) = Some (k, CHR '':'' # w @ s)" for s
    using 2 kv by (intro reads_body) simp
  ultimately show ?case
    by (simp add: kv w f read_members.simps quoted_def skip_blanks is_json_space_def)
next
  case (3 kv kv' kvs)
  obtain k v where kv: "kv = (k, v)" by fastforce
  obtain w where w: "js_key st = CHR '':'' # w" "list_all is_json_space w"
    using assms(1) by (auto simp: style_ok_def blank_tail_def)
  obtain u where u: "js_item st @ new_line st m = CHR '','' # u" "list_all is_json_space u"
    using separator [OF assms(1)] .
  obtain f where f: "fuel = Suc f" "need v \<le> f" "sum_list (map (\<lambda>(k, v). Suc (need v)) (kv' # kvs)) \<le> f"
    using 3 kv by (cases fuel) auto
  let ?rest = "items_text (js_item st @ new_line st m) (new_line st j) (CHR ''}'')
      (map (\<lambda>(k, v). quoted body k @ js_key st @ write_doc body st m v) (kv' # kvs)) @ rest"
  have "read_value f (write_doc body st m v @ CHR '','' # u @ ?rest) = Some (reread st v, CHR '','' # u @ ?rest)"
    using 3 kv f by (simp add: reads_def)
  moreover have "skip_space (u @ ?rest) = ?rest"
    by (cases kv'; cases kvs) (simp_all add: skip_blanks [OF u(2)])
  moreover have "read_members f ?rest = Some (map (\<lambda>(k, v). (k, reread st v)) (kv' # kvs), rest)"
    using 3 f by (intro "3.IH") simp_all
  moreover have "read_string (body k @ CHR 0x22 # CHR '':'' # w @ s) = Some (k, CHR '':'' # w @ s)" for s
    using 3 kv by (intro reads_body) simp
  ultimately show ?case
    using u(1) by (simp add: kv w f(1) read_members.simps quoted_def skip_blanks is_json_space_def)
qed simp

lemma write_JObj: "write_doc body st n (JObj kvs) = bracketed st n (CHR ''{'') (CHR ''}'')
    (map (\<lambda>(k, v). quoted body k @ js_key st @ write_doc body st (Suc n) v) (ordered st kvs))"
  unfolding write_doc.simps ordered_map map_map by (simp add: comp_def split_def)

lemma reads_list:
  assumes "style_ok st" "\<forall>v \<in> set xs. reads body st (Suc n) v"
    and "need w = Suc (sum_list (map (\<lambda>v. Suc (need v)) xs))" "reread st w = JList (map (reread st) xs)"
    and "write_doc body st n w = bracketed st n (CHR ''['') (CHR '']'') (map (write_doc body st (Suc n)) xs)"
  shows "reads body st n w"
  unfolding reads_def
proof (intro allI impI)
  fix fuel rest
  assume f: "need w \<le> fuel" and "clean rest"
  obtain f' where f': "fuel = Suc f'" "sum_list (map (\<lambda>v. Suc (need v)) xs) \<le> f'"
    using f assms(3) by (cases fuel) auto
  show "read_value fuel (write_doc body st n w @ rest) = Some (reread st w, rest)"
  proof (cases xs)
    case Nil
    then show ?thesis by (simp add: assms(4,5) f' read_value.simps bracketed_def is_json_space_def)
  next
    case (Cons x xs')
    let ?t = "items_text (js_item st @ new_line st (Suc n)) (new_line st n) (CHR '']'') (map (write_doc body st (Suc n)) xs) @ rest"
    obtain c r where c: "?t = c # r" "\<not> is_json_space c" "c \<noteq> CHR '']''"
      using write_head [of st "Suc n" x] Cons by (cases xs') auto
    then have skip: "skip_space (new_line st (Suc n) @ ?t) = ?t" by (simp add: skip_blanks [OF new_line_blank])
    have e: "write_doc body st n w @ rest = CHR ''['' # new_line st (Suc n) @ ?t"
      using Cons by (simp add: assms(5) bracketed_items)
    have "read_elements f' ?t = Some (map (reread st) xs, rest)"
      using Cons by (intro read_items [OF assms(1) _ assms(2) f'(2)]) simp
    then show ?thesis
      unfolding e using c by (simp add: f'(1) read_value.simps skip [unfolded c(1)] assms(4) Let_def)
  qed
qed

lemma reads_obj:
  assumes "style_ok st" "\<forall>(k, v) \<in> set kvs. fine k \<and> reads body st (Suc n) v" "distinct (map fst kvs)"
  shows "reads body st n (JObj kvs)"
  unfolding reads_def
proof (intro allI impI)
  fix fuel rest
  assume f: "need (JObj kvs) \<le> fuel" and "clean rest"
  let ?o = "ordered st kvs"
  have s: "sum_list (map (\<lambda>(k, v). Suc (need v)) ?o) = sum_list (map (\<lambda>(k, v). Suc (need v)) kvs)"
    using ordered_props(4) [of st kvs, THEN arg_cong, of "\<lambda>m. sum_mset (image_mset (\<lambda>(k, v). Suc (need v)) m)"]
    by (simp flip: sum_mset_sum_list mset_map)
  obtain f' where f': "fuel = Suc f'" "sum_list (map (\<lambda>(k, v). Suc (need v)) ?o) \<le> f'"
    using f s by (cases fuel) auto
  have o: "\<forall>(k, v) \<in> set ?o. fine k \<and> reads body st (Suc n) v" using assms(2) unfolding ordered_props(1) .
  note e = write_JObj [of st n kvs]
  show "read_value fuel (write_doc body st n (JObj kvs) @ rest) = Some (reread st (JObj kvs), rest)"
  proof (cases ?o)
    case Nil
    then show ?thesis
      unfolding e by (simp add: f' read_value.simps bracketed_def is_json_space_def ordered_map)
  next
    case (Cons x xs')
    let ?t = "items_text (js_item st @ new_line st (Suc n)) (new_line st n) (CHR ''}'')
       (map (\<lambda>(k, v). quoted body k @ js_key st @ write_doc body st (Suc n) v) ?o) @ rest"
    obtain r where c: "?t = CHR 0x22 # r" using Cons by (cases x; cases xs') (simp_all add: quoted_def)
    then have skip: "skip_space (new_line st (Suc n) @ ?t) = ?t"
      by (simp add: skip_blanks [OF new_line_blank] is_json_space_def)
    have e': "write_doc body st n (JObj kvs) @ rest = CHR ''{'' # new_line st (Suc n) @ ?t"
      unfolding e using Cons by (simp add: bracketed_items)
    have "read_members f' ?t = Some (map (\<lambda>(k, v). (k, reread st v)) ?o, rest)"
      using Cons by (intro read_pairs [OF assms(1) _ o f'(2)]) simp
    moreover have "distinct (map fst ([] @ map (\<lambda>(k, v). (k, reread st v)) ?o))"
      using assms(3) by (simp add: ordered_props(3) comp_def case_prod_beta)
    note foldl_dict_set [OF this]
    ultimately show ?thesis
      unfolding e' using c by (simp add: f'(1) read_value.simps skip [unfolded c] Let_def ordered_map)
  qed
qed

lemma reads_all: "style_ok st \<Longrightarrow> fine_doc fine v \<Longrightarrow> reads body st n v"
proof (induction v arbitrary: n)
  case (JList xs)
  then have "\<forall>v \<in> set xs. reads body st (Suc n) v" by (simp add: list_all_iff)
  with JList.prems(1) show ?case by (rule reads_list) simp_all
next
  case (JTuple xs)
  then have "\<forall>v \<in> set xs. reads body st (Suc n) v" by (simp add: list_all_iff)
  with JTuple.prems(1) show ?case by (rule reads_list) simp_all
next
  case (JObj kvs)
  have "\<forall>(k, v) \<in> set kvs. fine k \<and> reads body st (Suc n) v"
    using JObj by (fastforce simp: list_all_iff)
  with JObj.prems show ?case by (intro reads_obj) simp_all
next
  case (JInt i)
  obtain c r where c: "str_of_int i = c # r" "is_digit c \<or> c = CHR ''-''" using str_of_int_head by blast
  then have "c \<notin> {CHR 0x22, CHR ''{'', CHR ''['', CHR ''n'', CHR ''t'', CHR ''f''}" by (auto simp: is_digit_def)
  then have "read_value (Suc f) (str_of_int i @ rest) = map_option (\<lambda>(i, r). (JInt i, r)) (read_int (str_of_int i @ rest))"
    for f rest using c by (simp add: read_value.simps)
  then show ?case by (auto simp: reads_def read_int_str Suc_le_eq elim!: gr0_implies_Suc [THEN exE])
next
  case (JStr s)
  then show ?case
    by (auto simp: reads_def read_value.simps quoted_def reads_body Suc_le_eq elim!: gr0_implies_Suc [THEN exE])
next
  case (JBool b)
  then show ?case
    by (auto simp: reads_def read_value.simps read_word_def starts_with_def Suc_le_eq elim!: gr0_implies_Suc [THEN exE])
next
  case JNull
  then show ?case
    by (auto simp: reads_def read_value.simps read_word_def starts_with_def Suc_le_eq elim!: gr0_implies_Suc [THEN exE])
qed

text \<open>Twice its length is enough fuel for a text.\<close>

lemma list_need:
  assumes "style_ok st" "\<forall>x \<in> set xs. need x \<le> 2 * length (write_doc body st (Suc n) x)"
  shows "Suc (sum_list (map (\<lambda>x. Suc (need x)) xs))
    \<le> 2 * length (bracketed st n l r (map (write_doc body st (Suc n)) xs))"
  using sum_need [OF assms(2)] bracketed_length [OF assms(1), of "map (write_doc body st (Suc n)) xs" n l r]
  by simp

lemma need_write: "style_ok st \<Longrightarrow> need v \<le> 2 * length (write_doc body st n v)"
proof (induction v arbitrary: n)
  case (JList xs)
  then have "\<forall>x \<in> set xs. need x \<le> 2 * length (write_doc body st (Suc n) x)" by blast
  from list_need [OF JList.prems this] show ?case by simp
next
  case (JTuple xs)
  then have "\<forall>x \<in> set xs. need x \<le> 2 * length (write_doc body st (Suc n) x)" by blast
  from list_need [OF JTuple.prems this] show ?case by simp
next
  case (JObj kvs)
  let ?g = "\<lambda>(k, v). quoted body k @ js_key st @ write_doc body st (Suc n) v"
  have e: "write_doc body st n (JObj kvs) = bracketed st n (CHR ''{'') (CHR ''}'') (map ?g (ordered st kvs))"
    by (rule write_JObj)
  have "need v \<le> 2 * length (?g (k, v))" if "(k, v) \<in> set kvs" for k v
    using JObj.IH [OF that, of v "Suc n"] JObj.prems by simp
  then have "sum_list (map (\<lambda>kv. Suc (need (snd kv))) kvs) \<le> 2 * sum_list (map length (map ?g kvs)) + length kvs"
    by (intro sum_need) auto
  moreover have "sum_list (map length (map ?g (ordered st kvs))) = sum_list (map length (map ?g kvs))"
    using ordered_props(4) [of st kvs, THEN arg_cong, of "\<lambda>m. sum_mset (image_mset length (image_mset ?g m))"]
    by (simp flip: sum_mset_sum_list mset_map)
  moreover have "length (ordered st kvs) = length kvs" using ordered_props(4) by (metis size_mset)
  ultimately show ?case
    using bracketed_length [OF JObj.prems, of "map ?g (ordered st kvs)" n "CHR ''{''" "CHR ''}''"]
    unfolding e by (simp add: split_def)
next
  case (JInt i)
  then show ?case using str_of_int_head [of i] by force
qed (simp_all add: quoted_def)

lemma text_reads:
  assumes "fine_doc fine v" "style_ok st" "w \<in> {[], [CHR 0x0A]}"
  shows "json_loads (write_doc body st 0 v @ w) = Inr (reread st v)"
proof -
  have w: "clean w" "skip_space w = []" using assms(3) by (auto simp: clean_def is_json_space_def)
  have "need v \<le> 2 * length (write_doc body st 0 v @ w) + 2" using need_write [OF assms(2), of v 0] by simp
  then have "read_value (2 * length (write_doc body st 0 v @ w) + 2) (write_doc body st 0 v @ w) = Some (reread st v, w)"
    using reads_all [OF assms(2,1), of 0] w(1) unfolding reads_def by blast
  then show ?thesis using w(2) by (simp add: json_loads_def)
qed

end

subsection \<open>ASCII text\<close>

interpretation ascii_writer: string_writer ascii_body ascii
  by unfold_locales (rule read_ascii_body)

lemma emit_write: "emit st n v = write_doc ascii_body st n v"
proof (induction v arbitrary: n)
  case (JObj kvs)
  then have "map (\<lambda>(k, v). (k, emit st (Suc n) v)) kvs = map (\<lambda>(k, v). (k, write_doc ascii_body st (Suc n) v)) kvs"
    by fastforce
  then show ?case by (simp only: emit.simps write_doc.simps ascii_str_def quoted_def)
qed (auto simp: ascii_str_def quoted_def cong: map_cong)

lemma ascii_fine: "ascii_doc v = fine_doc ascii v"
  by (induction v) (auto simp: list_all_iff)

lemma json_text_then:
  assumes "ascii_doc v" "st \<in> {plain_style, sorted_style, indent_style, compact_style}" "w \<in> {[], [CHR 0x0A]}"
  shows "json_loads (json_text st v @ w) = Inr (reread st v)"
proof -
  have "style_ok st" using assms(2) styles_ok by auto
  from ascii_writer.text_reads [OF _ this assms(3)] assms(1) show ?thesis
    by (simp add: json_text_def emit_write ascii_fine)
qed

lemma json_text_reads:
  assumes "ascii_doc v" "st \<in> {plain_style, sorted_style, indent_style, compact_style}"
  shows "json_loads (json_text st v) = Inr (reread st v)"
  using json_text_then [OF assms, of "[]"] by simp

text \<open>JSON documents survive the round trip through text: what json.dumps writes, plainly, with sorted
  keys, compactly or indented, json.loads reads back as the same document, tuples as lists and keys
  in the order they were written, with nothing left over.\<close>

theorem json_text_roundtrip:
  assumes "ascii_doc v" "st \<in> {plain_style, sorted_style, indent_style, compact_style}"
  shows "json_loads (json_text st v) = Inr (reread st v)"
  using assms by (rule json_text_reads)

lemma json_text_roundtrip_witness:
  "let v = JObj [(''b'', JTuple [JInt (-7), JStr [CHR 0x22, CHR 0x0A, CHR 0x7F]]), (''a'', JBool True)] in
   json_loads (json_text indent_style v)
     = Inr (JObj [(''a'', JBool True), (''b'', JList [JInt (-7), JStr [CHR 0x22, CHR 0x0A, CHR 0x7F]])])"
proof -
  let ?v = "JObj [(''b'', JTuple [JInt (-7), JStr [CHR 0x22, CHR 0x0A, CHR 0x7F]]), (''a'', JBool True)]"
  have "ascii_doc ?v" by (simp add: ascii_def)
  moreover have "indent_style \<in> {plain_style, sorted_style, indent_style, compact_style}" by simp
  ultimately have "json_loads (json_text indent_style ?v) = Inr (reread indent_style ?v)"
    by (rule json_text_roundtrip)
  moreover have "reread indent_style ?v
      = JObj [(''a'', JBool True), (''b'', JList [JInt (-7), JStr [CHR 0x22, CHR 0x0A, CHR 0x7F]])]"
    by (simp add: ordered_def indent_style_def)
  ultimately show ?thesis by (simp only: Let_def)
qed

subsection \<open>Text without ASCII escapes\<close>

abbreviation raw_body :: "string \<Rightarrow> string" where
  "raw_body s \<equiv> concat (map esc_char s)"

lemma escape_agrees: "byte c < 127 \<Longrightarrow> ascii_escape c = esc_char c"
proof -
  assume c: "byte c < 127"
  have "u_escape n = [CHR 0x5C, CHR ''u''] @ hex4 n" if "n < 32" for n
  proof -
    have "char_of (48 :: nat) = CHR ''0''" by code_simp
    then show ?thesis using that by (simp add: u_escape_def hex4_def hex_digit_def)
  qed
  then show ?thesis using c by (simp add: ascii_escape_def esc_char_def Let_def)
qed

lemma read_raw_char: "read_string (esc_char c @ s) = prepend [c] (read_string s)"
proof (cases "byte c < 127")
  case True
  then show ?thesis using read_escape [of c s] by (simp add: escape_agrees)
next
  case False
  then have "c \<noteq> CHR 0x22" "c \<noteq> CHR 0x5C" "32 \<le> byte c" by auto
  moreover have "esc_char c = [c]" using False by (simp add: esc_char_def Let_def)
  ultimately show ?thesis by (simp add: read_string_plain)
qed

lemma read_raw_body: "read_string (raw_body s @ CHR 0x22 # t) = Some (s, t)"
  by (induction s) (simp_all add: read_raw_char prepend_def)

interpretation raw_writer: string_writer raw_body "\<lambda>_. True"
  by unfold_locales (rule read_raw_body)

subsection \<open>Documents on one line\<close>

text \<open>Without indentation a document is written in printable characters only.\<close>

definition printable :: "char \<Rightarrow> bool" where
  "printable c \<longleftrightarrow> 32 \<le> byte c \<and> byte c < 127"

lemma printable_hex: "is_hex c \<Longrightarrow> printable c"
  by (auto simp: is_hex_def is_digit_def printable_def)

lemma u_escape_printable: "c \<in> set (u_escape n) \<Longrightarrow> printable c"
proof -
  have "printable (hex_digit (k mod 16))" for k by (rule printable_hex, rule hex_digit_is_hex) simp
  then show "c \<in> set (u_escape n) \<Longrightarrow> printable c" by (auto simp: u_escape_def printable_def)
qed

lemma ascii_str_printable: "ascii s \<Longrightarrow> c \<in> set (ascii_str s) \<Longrightarrow> printable c"
proof -
  assume a: "ascii s" and c: "c \<in> set (ascii_str s)"
  have e: "printable d" if "byte x < 128" "d \<in> set (ascii_escape x)" for x d
    using that u_escape_printable by (auto simp: ascii_escape_def Let_def printable_def split: if_splits)
  have "list_all printable (ascii_body s)"
    using a by (induction s) (auto simp: ascii_def list_all_iff e)
  then show "printable c" using c by (auto simp: ascii_str_def list_all_iff printable_def)
qed

lemma join_chars: "set (join s xs) \<subseteq> set s \<union> \<Union> (set ` set xs)"
  by (induction xs rule: induct_list012) auto

lemma bracketed_printable:
  assumes "js_indent st = None" "list_all printable (js_item st)" "printable l" "printable r"
    "\<forall>x \<in> set xs. list_all printable x"
  shows "list_all printable (bracketed st n l r xs)"
  using assms join_chars [of "js_item st" xs] by (auto simp: bracketed_def new_line_def list_all_iff)

lemma emit_all_printable:
  "js_indent st = None \<Longrightarrow> list_all printable (js_item st) \<Longrightarrow> list_all printable (js_key st) \<Longrightarrow> ascii_doc v
     \<Longrightarrow> list_all printable (emit st n v)"
proof (induction v arbitrary: n)
  case (JInt i)
  have "list_all printable (str_of_nat k)" for k
    using str_of_nat_digits [of k] by (auto simp: list_all_iff is_digit_def printable_def)
  moreover have "printable (CHR ''-'')" by (simp add: printable_def)
  ultimately show ?case by (simp add: str_of_int_def)
next
  case (JStr s)
  then show ?case using ascii_str_printable [of s] by (simp add: list_all_iff)
next
  case (JObj kvs)
  let ?es = "ordered st (map (\<lambda>(k, v). (k, emit st (Suc n) v)) kvs)"
  have "list_all printable (ascii_str k @ js_key st @ e)" if ke: "(k, e) \<in> set ?es" for k e
  proof -
    obtain v where v: "(k, v) \<in> set kvs" "e = emit st (Suc n) v" using ke unfolding ordered_props(1) by auto
    then have "ascii k" "ascii_doc v" using JObj.prems by (auto simp: list_all_iff)
    moreover have "list_all printable (ascii_str k)" using ascii_str_printable [OF \<open>ascii k\<close>] by (simp add: list_all_iff)
    ultimately show ?thesis using JObj.IH [OF v(1), of v "Suc n"] JObj.prems v(2) by simp
  qed
  moreover have "printable (CHR ''{'')" "printable (CHR ''}'')" by (simp_all add: printable_def)
  ultimately show ?case using JObj.prems(1,2) by (simp only: emit.simps, intro bracketed_printable) auto
next
  case (JList xs)
  then show ?case by (simp only: emit.simps, intro bracketed_printable) (auto simp: printable_def list_all_iff)
next
  case (JTuple xs)
  then show ?case by (simp only: emit.simps, intro bracketed_printable) (auto simp: printable_def list_all_iff)
qed (simp_all add: printable_def)

lemma emit_printable:
  assumes "ascii_doc v" "st \<in> {plain_style, sorted_style, compact_style}" "c \<in> set (emit st n v)"
  shows "printable c"
proof -
  have "js_indent st = None" "list_all printable (js_item st)" "list_all printable (js_key st)"
    using assms(2) by (auto simp: plain_style_def sorted_style_def compact_style_def printable_def)
  from emit_all_printable [OF this assms(1), of n] assms(3) show ?thesis by (simp add: list_all_iff)
qed

end
