(* ===== verification/Py_Float.thy ===== *)
theory Py_Float
  imports Complex_Main
begin

section \<open>Floats\<close>

text \<open>
  A finite double is the rational number it stands for. An operation is the exact one followed by
  rounding to the nearest double, ties to even; overflow is left out, the rates and times the
  program computes stay far below it.
\<close>

fun bits :: "nat \<Rightarrow> nat" where
  "bits n = (if n = 0 then 0 else Suc (bits (n div 2)))"

declare bits.simps [simp del]

definition two_power :: "int \<Rightarrow> rat" where
  "two_power e = (if 0 \<le> e then 2 ^ nat e else 1 / 2 ^ nat (- e))"

text \<open>The power of two below a positive number.\<close>

definition binade :: "rat \<Rightarrow> int" where
  "binade x = (case quotient_of x of (p, q) \<Rightarrow>
     let e = int (bits (nat p)) - int (bits (nat q)) in if two_power e \<le> x then e else e - 1)"

definition round_even :: "rat \<Rightarrow> int" where
  "round_even x = (let f = \<lfloor>x\<rfloor>; d = x - of_int f in
     if d < 1 / 2 then f else if 1 / 2 < d then f + 1 else if even f then f else f + 1)"

definition double :: "rat \<Rightarrow> rat" where
  "double x =
     (if x = 0 then 0
      else (let e = max (- 1022) (binade \<bar>x\<bar>) - 52 in of_int (round_even (x / two_power e)) * two_power e))"

definition float_div :: "int \<Rightarrow> int \<Rightarrow> rat" where
  "float_div a b = double (of_int a / of_int b)"

definition float_add :: "rat \<Rightarrow> rat \<Rightarrow> rat" where
  "float_add x y = double (x + y)"

definition float_sub :: "rat \<Rightarrow> rat \<Rightarrow> rat" where
  "float_sub x y = double (x - y)"

text \<open>\<open>round(x, 6)\<close>.\<close>

definition round6 :: "rat \<Rightarrow> rat" where
  "round6 x = double (of_int (round_even (x * 1000000)) / 1000000)"

lemma round_even_bounds: "of_int (round_even x) - x \<le> 1 / 2" "x - of_int (round_even x) \<le> 1 / 2"
  by (auto simp: round_even_def Let_def) linarith+

lemma round_even_of_int [simp]: "round_even (of_int k) = k"
  by (simp add: round_even_def)

lemma round_even_mono: "x \<le> y \<Longrightarrow> round_even x \<le> round_even y"
proof (rule ccontr)
  assume xy: "x \<le> y" and "\<not> round_even x \<le> round_even y"
  then have less: "round_even y + 1 \<le> round_even x" by simp
  have "of_int (round_even x) \<le> x + 1 / 2" "y - 1 / 2 \<le> of_int (round_even y)"
    using round_even_bounds [of x] round_even_bounds [of y] by simp_all
  moreover have "(of_int (round_even y) :: rat) + 1 \<le> of_int (round_even x)" using less by (metis of_int_1 of_int_add of_int_le_iff)
  ultimately have "x = y" using xy by linarith
  with less show False by simp
qed

lemma double_0 [simp]: "double 0 = 0"
  by (simp add: double_def)

end
