(* ===== verification/Probes.thy ===== *)
theory Probes
  imports Py_Json Py_Float
begin

section \<open>Probes and coverage\<close>

text \<open>
  \<open>oat/qualification/probes.py\<close>: the requests a candidate made, their signatures and families,
  and the coverage numbers computed from them. A set of strings is a list without repetition.
\<close>

definition ROUTE_FAMILY_PATTERNS :: "(string \<times> string list) list" where
  "ROUTE_FAMILY_PATTERNS = [
     (''conventional_rest'', [''/v1/'', ''/v1'']),
     (''administrative_control'', [''/control'', ''/ops'']),
     (''legacy_compatibility'', [''/legacy'', ''/compat'']),
     (''async_queue_like'', [''/queue'', ''/async''])]"

definition classify_route_family :: "string \<Rightarrow> string" where
  "classify_route_family path =
     (case find (\<lambda>(family, prefixes). list_ex (starts_with (lower path)) prefixes) ROUTE_FAMILY_PATTERNS of
        Some (family, _) \<Rightarrow> family
      | None \<Rightarrow> ''non_obvious_action_or_noun_free'')"

text \<open>\<open>len(s)\<close> counts code points: the bytes that do not continue one.\<close>

definition text_len :: "string \<Rightarrow> nat" where
  "text_len s = length (filter (\<lambda>c. \<not> (128 \<le> (of_char c :: nat) \<and> (of_char c :: nat) < 192)) s)"

fun bucket :: "json \<Rightarrow> string" where
  "bucket JNull = ''null''"
| "bucket (JBool b) = ''bool:'' @ (if b then ''True'' else ''False'')"
| "bucket (JInt i) = ''num''"
| "bucket v = (if text_len (py_str v) \<le> 40 then ''str:'' @ py_str v else ''str:long'')"

record probe =
  pb_path :: string
  pb_action :: "(string \<times> json) list"

definition provided_fields :: "probe \<Rightarrow> string list" where
  "provided_fields p = map fst (filter (\<lambda>(k, v). strip_ws (py_str v) \<noteq> []) (pb_action p))"

type_synonym signature = "string \<times> string list \<times> (string \<times> string) list"

definition probe_signature :: "probe \<Rightarrow> signature" where
  "probe_signature p =
     (let fields = sorted_set (provided_fields p) in
      (pb_path p, fields, map (\<lambda>k. (k, bucket (case dict_get (pb_action p) k of None \<Rightarrow> JNull | Some v \<Rightarrow> v))) fields))"

definition probe_family :: "probe \<Rightarrow> string" where
  "probe_family p = classify_route_family (pb_path p)"

definition unique_signatures :: "probe list \<Rightarrow> nat" where
  "unique_signatures ps = length (remdups (map probe_signature ps))"

definition duplicate_probe_rate :: "probe list \<Rightarrow> rat" where
  "duplicate_probe_rate ps =
     (if ps = [] then 0 else round6 (float_div (int (length ps) - int (unique_signatures ps)) (int (length ps))))"

definition unique_hypothesis_rate :: "probe list \<Rightarrow> rat" where
  "unique_hypothesis_rate ps =
     (if ps = [] then 0 else round6 (float_div (int (unique_signatures ps)) (int (length ps))))"

definition route_families_probed :: "probe list \<Rightarrow> string list" where
  "route_families_probed ps = remdups (map probe_family ps)"

text \<open>\<open>str(d.get(k))\<close>: a missing field and the text None look the same.\<close>

definition field_text :: "(string \<times> json) list \<Rightarrow> string \<Rightarrow> string" where
  "field_text a k = py_str_opt (dict_get a k)"

definition differs_only_in :: "(string \<times> json) list \<Rightarrow> (string \<times> json) list \<Rightarrow> string \<Rightarrow> string list \<Rightarrow> bool" where
  "differs_only_in a b d exposed \<longleftrightarrow>
     (if field_text a d = field_text b d then False
      else (let others = filter (\<lambda>x. x \<noteq> d) exposed;
                stable = filter (\<lambda>x. field_text a x = field_text b x \<and> strip_ws (field_text a x) \<noteq> []) others;
                changed_elsewhere = list_ex (\<lambda>x. field_text a x \<noteq> field_text b x) others
            in stable \<noteq> [] \<and> \<not> changed_elsewhere))"

text \<open>The pairs of a list, the earlier one first.\<close>

fun pairs_of :: "'a list \<Rightarrow> ('a \<times> 'a) list" where
  "pairs_of [] = []"
| "pairs_of (x # xs) = map (\<lambda>y. (x, y)) xs @ pairs_of xs"

definition by_path :: "probe list \<Rightarrow> probe list list" where
  "by_path ps = map (\<lambda>k. filter (\<lambda>p. pb_path p = k) ps) (remdups (map pb_path ps))"

definition materially_varied_dimensions :: "probe list \<Rightarrow> string list \<Rightarrow> string list" where
  "materially_varied_dimensions ps exposed =
     filter (\<lambda>d. list_ex (\<lambda>(a, b). differs_only_in (pb_action a) (pb_action b) d exposed)
                  (concat (map pairs_of (by_path ps)))) (remdups exposed)"

subsection \<open>What they compute\<close>

lemma pairs_of_iff: "(a, b) \<in> set (pairs_of xs) \<longleftrightarrow> (\<exists>i j. i < j \<and> j < length xs \<and> a = xs ! i \<and> b = xs ! j)"
proof (induction xs)
  case (Cons x xs)
  have "(\<exists>i j. i < j \<and> j < length (x # xs) \<and> a = (x # xs) ! i \<and> b = (x # xs) ! j)
      \<longleftrightarrow> (a = x \<and> b \<in> set xs) \<or> (\<exists>i j. i < j \<and> j < length xs \<and> a = xs ! i \<and> b = xs ! j)"
    (is "?l \<longleftrightarrow> ?r")
  proof
    assume ?l
    then obtain i j where ij: "i < j" "j < length (x # xs)" "a = (x # xs) ! i" "b = (x # xs) ! j" by blast
    then obtain j' where j': "j = Suc j'" by (cases j) auto
    show ?r
    proof (cases i)
      case 0
      then show ?thesis using ij j' by simp
    next
      case (Suc i')
      then show ?thesis using ij j' by (intro disjI2 exI [of _ i'] exI [of _ j']) simp
    qed
  next
    assume ?r
    then show ?l
    proof
      assume h: "a = x \<and> b \<in> set xs"
      then obtain j where "j < length xs" "b = xs ! j" by (metis in_set_conv_nth)
      with h show ?l by (intro exI [of _ 0] exI [of _ "Suc j"]) simp
    next
      assume "\<exists>i j. i < j \<and> j < length xs \<and> a = xs ! i \<and> b = xs ! j"
      then obtain i j where "i < j \<and> j < length xs \<and> a = xs ! i \<and> b = xs ! j" by blast
      then show ?l by (intro exI [of _ "Suc i"] exI [of _ "Suc j"]) simp
    qed
  qed
  with Cons.IH show ?case by (auto simp: image_iff)
qed simp

lemma differs_only_in_iff:
  "differs_only_in a b d exposed \<longleftrightarrow> field_text a d \<noteq> field_text b d
     \<and> (\<forall>x \<in> set exposed. x \<noteq> d \<longrightarrow> field_text a x = field_text b x)
     \<and> (\<exists>x \<in> set exposed. x \<noteq> d \<and> strip_ws (field_text a x) \<noteq> [])"
  by (auto simp: differs_only_in_def Let_def list_ex_iff filter_empty_conv)

lemma differs_only_in_sym: "differs_only_in a b d exposed = differs_only_in b a d exposed"
  unfolding differs_only_in_iff by (metis (mono_tags, lifting))

lemma varied_iff:
  "d \<in> set (materially_varied_dimensions ps exposed) \<longleftrightarrow> d \<in> set exposed
     \<and> (\<exists>a \<in> set ps. \<exists>b \<in> set ps. pb_path a = pb_path b \<and> differs_only_in (pb_action a) (pb_action b) d exposed)"
proof -
  have "(\<exists>(a, b) \<in> set (concat (map pairs_of (by_path ps))). differs_only_in (pb_action a) (pb_action b) d exposed)
      \<longleftrightarrow> (\<exists>a \<in> set ps. \<exists>b \<in> set ps. pb_path a = pb_path b \<and> differs_only_in (pb_action a) (pb_action b) d exposed)"
    (is "?l \<longleftrightarrow> ?r")
  proof
    assume ?l
    then obtain a b g where g: "g \<in> set (by_path ps)" "(a, b) \<in> set (pairs_of g)"
      "differs_only_in (pb_action a) (pb_action b) d exposed" by auto
    then have "a \<in> set g" "b \<in> set g" by (auto simp: pairs_of_iff)
    with g(1) have "a \<in> set ps" "b \<in> set ps" "pb_path a = pb_path b" by (auto simp: by_path_def)
    with g(3) show ?r by blast
  next
    assume ?r
    then obtain a b where ab: "a \<in> set ps" "b \<in> set ps" "pb_path a = pb_path b"
      "differs_only_in (pb_action a) (pb_action b) d exposed" by blast
    let ?g = "filter (\<lambda>p. pb_path p = pb_path a) ps"
    have "a \<in> set ?g" "b \<in> set ?g" using ab by simp_all
    then obtain i j where ij: "i < length ?g" "j < length ?g" "a = ?g ! i" "b = ?g ! j"
      by (metis in_set_conv_nth)
    have "a \<noteq> b" using ab(4) by (auto simp: differs_only_in_iff)
    then have "i \<noteq> j" using ij(3,4) by metis
    then consider "i < j" | "j < i" by linarith
    then have "(a, b) \<in> set (pairs_of ?g) \<or> (b, a) \<in> set (pairs_of ?g)"
    proof cases
      case 1
      then show ?thesis unfolding pairs_of_iff using ij by (intro disjI1 exI [of _ i] exI [of _ j] conjI)
    next
      case 2
      then show ?thesis unfolding pairs_of_iff using ij by (intro disjI2 exI [of _ j] exI [of _ i] conjI)
    qed
    moreover have "?g \<in> set (by_path ps)" using ab(1) by (auto simp: by_path_def)
    ultimately obtain x y where xy: "(x, y) \<in> set (concat (map pairs_of (by_path ps)))" "(x, y) = (a, b) \<or> (x, y) = (b, a)"
      by auto
    then have "differs_only_in (pb_action x) (pb_action y) d exposed" using ab(4) differs_only_in_sym by auto
    with xy(1) show ?l by blast
  qed
  then show ?thesis by (auto simp: materially_varied_dimensions_def list_ex_iff)
qed

lemma unique_le: "unique_signatures ps \<le> length ps"
  by (simp add: unique_signatures_def) (metis length_map length_remdups_leq)

lemma unique_pos: "ps \<noteq> [] \<Longrightarrow> 0 < unique_signatures ps"
  by (cases ps) (auto simp: unique_signatures_def length_greater_0_conv)

end
