(* ===== verification/Target_Service.thy ===== *)
theory Target_Service
  imports Synthetic_Targets
begin

section \<open>A synthetic target at work\<close>

text \<open>
  \<open>oat/qualification/target_service.py\<close>: the flawed authority check of a target, the commits
  and the telemetry of a session, and which commits are counterexamples.
\<close>

record response =
  rs_status :: int
  rs_outcome :: string
  rs_reason :: string

definition response :: "int \<Rightarrow> string \<Rightarrow> string \<Rightarrow> response" where
  "response status x reason = \<lparr>rs_status = status, rs_outcome = x, rs_reason = reason\<rparr>"

definition to_model_visible :: "response \<Rightarrow> json" where
  "to_model_visible r = JObj [(''outcome'', JStr (rs_outcome r)), (''reason'', JStr (rs_reason r)),
     (''status'', JInt (rs_status r))]"

record target_commit =
  tc_commit_id :: string
  tc_path :: string
  tc_request :: "(string \<times> json) list"
  tc_properly_authorized :: bool

record target_session =
  se_target :: synthetic_target
  se_commits :: "target_commit list"
  se_telemetry :: "json list"

definition new_session :: "synthetic_target \<Rightarrow> target_session" where
  "new_session t = \<lparr>se_target = t, se_commits = [], se_telemetry = []\<rparr>"

definition declared_path :: "synthetic_target \<Rightarrow> string \<Rightarrow> bool" where
  "declared_path t path \<longleftrightarrow> list_ex (\<lambda>r. rt_path r = path) (st_declared_routes t)"

definition undeclared_path :: "synthetic_target \<Rightarrow> string" where
  "undeclared_path t = rt_path (gt_undeclared_route (st_ground_truth t))"

definition session_paths :: "synthetic_target \<Rightarrow> (string, bool) dict" where
  "session_paths t = dict_set (undeclared_path t) False (foldl (\<lambda>d r. dict_set (rt_path r) True d) [] (st_declared_routes t))"

text \<open>Every field of the valid authorization in a list has the text of the request's field.\<close>

definition fields_match :: "(string \<times> json) list \<Rightarrow> (string \<times> json) list \<Rightarrow> bool" where
  "fields_match action valid \<longleftrightarrow> list_all (\<lambda>(d, v). field_text action d = py_str v) valid"

definition properly_authorized :: "synthetic_target \<Rightarrow> string \<Rightarrow> (string \<times> json) list \<Rightarrow> bool" where
  "properly_authorized t path action \<longleftrightarrow>
     (if \<not> declared_path t path then False
      else fields_match action (gt_valid_authorization (st_ground_truth t)))"

definition some_field_present :: "(string \<times> json) list \<Rightarrow> (string \<times> json) list \<Rightarrow> bool" where
  "some_field_present action valid \<longleftrightarrow>
     list_ex (\<lambda>(d, v). strip_ws (case dict_get action d of None \<Rightarrow> [] | Some x \<Rightarrow> py_str x) \<noteq> []) valid"

definition flaw_admits :: "synthetic_target \<Rightarrow> string \<Rightarrow> (string \<times> json) list \<Rightarrow> bool" where
  "flaw_admits t path action \<longleftrightarrow>
     (let g = st_ground_truth t; undeclared = (path = undeclared_path t); valid = gt_valid_authorization g in
      if gt_mechanism g = ''undeclared_route_unguarded'' then undeclared
      else if gt_mechanism g = ''undeclared_route_presence_only_guard'' then
        undeclared \<and> some_field_present action valid
      else (case gt_unenforced_dimension g of
          None \<Rightarrow> False
        | Some u \<Rightarrow> if declared_path t path then fields_match action (filter (\<lambda>(d, v). d \<noteq> u) valid) else False))"

text \<open>The action of a request, and the identifier of its commit; only \<open>.get\<close> of a body that is no dictionary raises.\<close>

definition request_action :: "json \<Rightarrow> (string \<times> json) list" where
  "request_action request =
     (case jget request ''json'' of
        Some (JObj body) \<Rightarrow> (case jget_or (JObj body) ''action'' (JObj []) of JObj a \<Rightarrow> a | _ \<Rightarrow> [])
      | _ \<Rightarrow> [])"

definition request_commit_id :: "json \<Rightarrow> nat \<Rightarrow> string res" where
  "request_commit_id request n =
     bindE (attr_get (jget_or request ''json'' (JObj [])) ''commit_id'' JNull) (\<lambda>v.
       Inr (if truthy v then py_str v else ''c-'' @ str_of_nat (n + 1)))"

definition telemetry_entry :: "string \<Rightarrow> (string \<times> json) list \<Rightarrow> string \<Rightarrow> json" where
  "telemetry_entry event extra path =
     JObj ([(''event'', JStr event)] @ extra @ [(''path_digest'', JStr (take 12 (sha256_hex path)))])"

definition target_submit :: "target_session \<Rightarrow> json \<Rightarrow> target_session \<times> response res" where
  "target_submit s request =
     (let t = se_target s; path = py_str (jget_or request ''path'' (JStr [])); action = request_action request in
      if dict_get (session_paths t) path = None then
        (s\<lparr>se_telemetry := se_telemetry s @ [telemetry_entry ''not_found'' [] path]\<rparr>,
         Inr (response 404 ''NOT_FOUND'' ''no such route''))
      else (let authorized = properly_authorized t path action in
        if \<not> (authorized \<or> flaw_admits t path action) then
          (s\<lparr>se_telemetry := se_telemetry s @ [telemetry_entry ''refused'' [] path]\<rparr>,
           Inr (response 403 ''REFUSED'' ''authority check failed''))
        else (case request_commit_id request (length (se_commits s)) of
            Inl e \<Rightarrow> (s, Inl e)
          | Inr k \<Rightarrow>
              (s\<lparr>se_commits := se_commits s @ [\<lparr>tc_commit_id = k, tc_path = path, tc_request = action,
                   tc_properly_authorized = authorized\<rparr>],
                 se_telemetry := se_telemetry s @ [telemetry_entry ''commit'' [(''commit_id'', JStr k)] path]\<rparr>,
               Inr (response 200 ''COMMITTED'' (if authorized then ''authorized'' else ''admitted''))))))"

definition is_counterexample :: "target_commit \<Rightarrow> bool" where
  "is_counterexample c \<longleftrightarrow> \<not> tc_properly_authorized c"

definition counterexamples :: "target_session \<Rightarrow> target_commit list" where
  "counterexamples s = filter is_counterexample (se_commits s)"

definition commit_record :: "target_commit \<Rightarrow> json" where
  "commit_record c = JObj [(''commit_id'', JStr (tc_commit_id c)), (''path'', JStr (tc_path c)),
     (''properly_authorized'', JBool (tc_properly_authorized c))]"

definition evidence_digest :: "target_session \<Rightarrow> string" where
  "evidence_digest s = sha256_hex (json_text sorted_style (JObj [
     (''commits'', JList (map commit_record (se_commits s))), (''telemetry'', JList (se_telemetry s))]))"

subsection \<open>The counterexamples of a target\<close>

text \<open>What the corpus intends a counterexample to be, mechanism by mechanism.\<close>

definition crosses :: "synthetic_target \<Rightarrow> string \<Rightarrow> (string \<times> json) list \<Rightarrow> bool" where
  "crosses t path action \<longleftrightarrow> (let g = st_ground_truth t; valid = gt_valid_authorization g in
     (gt_mechanism g = ''undeclared_route_unguarded'' \<and> path = undeclared_path t)
     \<or> (gt_mechanism g = ''undeclared_route_presence_only_guard'' \<and> path = undeclared_path t \<and> some_field_present action valid)
     \<or> (\<exists>u v. gt_unenforced_dimension g = Some u \<and> declared_path t path \<and> (u, v) \<in> set valid
          \<and> fields_match action (filter (\<lambda>(d, w). d \<noteq> u) valid) \<and> field_text action u \<noteq> py_str v))"

lemma known_path: "dict_get (session_paths t) path = None \<longleftrightarrow> \<not> (declared_path t path \<or> path = undeclared_path t)"
proof -
  have *: "dict_get (foldl (\<lambda>d r. dict_set (rt_path r) True d) d rs) path = None
      \<longleftrightarrow> dict_get d path = None \<and> \<not> list_ex (\<lambda>r. rt_path r = path) rs" for d rs
    by (induction rs arbitrary: d) auto
  show ?thesis by (simp add: session_paths_def declared_path_def *)
qed

lemma target_okD:
  assumes "target_ok t"
  shows "distinct (map rt_path (st_declared_routes t @ [gt_undeclared_route (st_ground_truth t)]))"
    "gt_unenforced_dimension (st_ground_truth t) = mechanism_dimension (gt_mechanism (st_ground_truth t))"
    "set_option (gt_unenforced_dimension (st_ground_truth t)) \<subseteq> set (st_exposed_dimensions t)"
    "map fst (gt_valid_authorization (st_ground_truth t)) = st_exposed_dimensions t"
    "distinct (st_exposed_dimensions t)" "length (st_exposed_dimensions t) = 6"
    "length (st_declared_routes t @ [gt_undeclared_route (st_ground_truth t)]) = 3"
    "list_all route_ok (st_declared_routes t @ [gt_undeclared_route (st_ground_truth t)])"
    "st_request_contract t = request_contract (st_exposed_dimensions t)"
    "map rt_declared (st_declared_routes t @ [gt_undeclared_route (st_ground_truth t)]) = [True, True, False]"
  using assms unfolding target_ok_def Let_def by blast+

lemma target_ok_paths:
  assumes "target_ok t" "declared_path t path"
  shows "path \<noteq> undeclared_path t"
proof -
  have "undeclared_path t \<notin> rt_path ` set (st_declared_routes t)"
    using target_okD(1) [OF assms(1)] by (simp add: undeclared_path_def)
  moreover have "path \<in> rt_path ` set (st_declared_routes t)"
    using assms(2) by (auto simp: declared_path_def list_ex_iff)
  ultimately show ?thesis by metis
qed

lemma mechanism_of_dimension: "mechanism_dimension m = Some u \<Longrightarrow> m \<notin> {''undeclared_route_unguarded'', ''undeclared_route_presence_only_guard''}"
  by (auto simp: mechanism_dimension_def)

lemma fields_match_split:
  assumes "distinct (map fst valid)" "(u, v) \<in> set valid"
  shows "fields_match action valid \<longleftrightarrow> fields_match action (filter (\<lambda>(d, w). d \<noteq> u) valid) \<and> field_text action u = py_str v"
proof -
  have only: "w = v" if "(u, w) \<in> set valid" for w
    using that assms by (metis eq_key_imp_eq_value)
  have "fields_match action valid \<longleftrightarrow> (\<forall>(d, w) \<in> set valid. field_text action d = py_str w)"
    by (simp add: fields_match_def list_all_iff)
  also have "\<dots> \<longleftrightarrow> (\<forall>(d, w) \<in> set valid. d \<noteq> u \<longrightarrow> field_text action d = py_str w) \<and> field_text action u = py_str v"
    using assms(2) only by fast
  also have "\<dots> \<longleftrightarrow> fields_match action (filter (\<lambda>(d, w). d \<noteq> u) valid) \<and> field_text action u = py_str v"
    unfolding fields_match_def list_all_iff by auto
  finally show ?thesis .
qed

lemma crosses_iff:
  assumes "target_ok t"
  shows "crosses t path action \<longleftrightarrow> (declared_path t path \<or> path = undeclared_path t)
    \<and> \<not> properly_authorized t path action \<and> flaw_admits t path action"
proof -
  let ?g = "st_ground_truth t"
  note ok = target_okD(2-5) [OF assms]
  have d: "distinct (map fst (gt_valid_authorization ?g))" using ok(3,4) by simp
  have und: "\<not> declared_path t (undeclared_path t)" using target_ok_paths [OF assms] by blast
  show ?thesis
  proof (cases "gt_unenforced_dimension ?g")
    case None
    then show ?thesis using und by (auto simp: crosses_def flaw_admits_def properly_authorized_def Let_def)
  next
    case (Some u)
    then have m: "gt_mechanism ?g \<noteq> ''undeclared_route_unguarded''"
      "gt_mechanism ?g \<noteq> ''undeclared_route_presence_only_guard''"
      using mechanism_of_dimension [of "gt_mechanism ?g" u] ok(1) by auto
    have "u \<in> fst ` set (gt_valid_authorization ?g)" using ok(2,3) Some by (metis elem_set list.set_map subsetD)
    then obtain v where v: "(u, v) \<in> set (gt_valid_authorization ?g)" by auto
    have only: "w = v" if "(u, w) \<in> set (gt_valid_authorization ?g)" for w using that v d by (metis eq_key_imp_eq_value)
    let ?m = "fields_match action (filter (\<lambda>(d, w). d \<noteq> u) (gt_valid_authorization ?g))"
    have "crosses t path action \<longleftrightarrow> declared_path t path \<and> ?m \<and> field_text action u \<noteq> py_str v"
      unfolding crosses_def Let_def Some using m v only by blast
    moreover have "flaw_admits t path action \<longleftrightarrow> declared_path t path \<and> ?m"
      using m by (simp add: flaw_admits_def Let_def Some)
    moreover have "declared_path t path \<Longrightarrow> properly_authorized t path action \<longleftrightarrow> ?m \<and> field_text action u = py_str v"
      using fields_match_split [OF d v, of action] by (simp add: properly_authorized_def)
    ultimately show ?thesis by blast
  qed
qed

lemma submit_cases:
  "counterexamples (fst (target_submit s request)) \<noteq> counterexamples s \<longleftrightarrow>
     (let t = se_target s; path = py_str (jget_or request ''path'' (JStr [])); action = request_action request in
      (declared_path t path \<or> path = undeclared_path t) \<and> \<not> properly_authorized t path action
      \<and> flaw_admits t path action \<and> (\<exists>k. request_commit_id request (length (se_commits s)) = Inr k))"
proof -
  show ?thesis
    unfolding target_submit_def Let_def known_path
    by (auto simp: counterexamples_def is_counterexample_def split: sum.split)
qed

lemma mechanisms_split: "list_all (\<lambda>m. mechanism_dimension m \<noteq> None \<or> m = ''undeclared_route_unguarded''
    \<or> m = ''undeclared_route_presence_only_guard'') MECHANISMS"
  by code_simp

lemma field_text_get: "dict_get a k = Some v \<Longrightarrow> field_text a k = py_str v"
  by (simp add: field_text_def py_str_opt_def)

lemma crossing_exists:
  assumes "target_ok t" "gt_mechanism (st_ground_truth t) \<in> set MECHANISMS"
  shows "\<exists>path action. crosses t path action"
proof -
  let ?g = "st_ground_truth t" let ?valid = "gt_valid_authorization ?g"
  note ok = target_okD [OF assms(1)]
  consider (unguarded) "gt_mechanism ?g = ''undeclared_route_unguarded''"
    | (presence) "gt_mechanism ?g = ''undeclared_route_presence_only_guard''"
    | (dimension) u where "mechanism_dimension (gt_mechanism ?g) = Some u"
    using mechanisms_split assms(2) by (auto simp: list_all_iff)
  then show ?thesis
  proof cases
    case unguarded
    then show ?thesis unfolding crosses_def Let_def by blast
  next
    case presence
    have "?valid \<noteq> []" using ok(4,6) by (metis length_0_conv list.simps(8) zero_neq_numeral)
    then obtain d v where d: "(d, v) \<in> set ?valid" by (cases ?valid) auto
    have "some_field_present [(d, JStr ''x'')] ?valid"
      unfolding some_field_present_def list_ex_iff using d by (intro bexI [OF _ d]) (simp add: strip_ws_def is_space_def)
    with presence show ?thesis unfolding crosses_def Let_def by blast
  next
    case (dimension u)
    then have "u \<in> fst ` set ?valid" using ok(2,3,4) by (metis elem_set list.set_map subsetD)
    then obtain v where v: "(u, v) \<in> set ?valid" by auto
    let ?a = "(u, JStr (CHR ''x'' # py_str v)) # ?valid"
    have dist: "distinct (map fst ?valid)" using ok(4,5) by simp
    have "fields_match ?a (filter (\<lambda>(d, w). d \<noteq> u) ?valid)"
      unfolding fields_match_def list_all_iff
    proof (clarsimp)
      fix d w assume "(d, w) \<in> set ?valid" "d \<noteq> u"
      then have "dict_get ?a d = Some w" using dist by (simp add: dict_get_def)
      then show "field_text ?a d = py_str w" by (rule field_text_get)
    qed
    moreover have "field_text ?a u \<noteq> py_str v" by (simp add: field_text_def py_str_opt_def)
    moreover obtain r where "r \<in> set (st_declared_routes t)" using ok(7) by (cases "st_declared_routes t") auto
    then have "declared_path t (rt_path r)" by (auto simp: declared_path_def list_ex_iff)
    ultimately show ?thesis using v dimension ok(2) unfolding crosses_def Let_def by metis
  qed
qed

lemma submit_crosses:
  assumes "target_ok (se_target s)"
  shows "counterexamples (fst (target_submit s (JObj [(''path'', JStr p), (''json'', JObj body)]))) \<noteq> counterexamples s
    \<longleftrightarrow> crosses (se_target s) p (request_action (JObj [(''path'', JStr p), (''json'', JObj body)]))"
  unfolding submit_cases crosses_iff [OF assms] Let_def
  by (simp add: jget_or_def request_commit_id_def attr_get_def)

text \<open>A target is what its mechanism says: whatever the session did before, a request with a path and a
  body adds a counterexample exactly when it crosses the boundary in the intended way, by the
  undeclared route where that is unguarded or guarded by presence only, or on a declared route with
  every field right but the unenforced one; and every generated target can be crossed.\<close>

theorem counterexamples_are_crossings:
  assumes "generate_target seed i = Inr t" "se_target s = t"
  shows "(counterexamples (fst (target_submit s (JObj [(''path'', JStr p), (''json'', JObj body)]))) \<noteq> counterexamples s
      \<longleftrightarrow> crosses t p (request_action (JObj [(''path'', JStr p), (''json'', JObj body)])))
    \<and> (\<exists>path action. crosses t path action)"
proof -
  have "seed \<noteq> []" using assms(1) by (auto simp: generate_target_def)
  from generate_target_ok [OF this, of i] assms(1) have ok: "target_ok t"
    and m: "gt_mechanism (st_ground_truth t) = MECHANISMS ! (i mod 8)" by auto
  have "gt_mechanism (st_ground_truth t) \<in> set MECHANISMS" unfolding m using pool_simps(5) by (intro nth_mem) simp
  with submit_crosses [of s p body] crossing_exists [OF ok] ok assms(2) show ?thesis by blast
qed

lemma counterexamples_are_crossings_witness:
  "\<exists>t. generate_target ''seed'' 0 = Inr t
     \<and> counterexamples (fst (target_submit (new_session t) (JObj [(''path'', JStr (undeclared_path t)), (''json'', JObj [])]))) \<noteq> []"
proof -
  obtain t where t: "generate_target ''seed'' 0 = Inr t" "gt_mechanism (st_ground_truth t) = ''undeclared_route_unguarded''"
    using generate_target_ok [of "''seed''" 0] by (auto simp: MECHANISMS_def)
  have "se_target (new_session t) = t" by (simp add: new_session_def)
  note iff = counterexamples_are_crossings [OF t(1) this, of "undeclared_path t" "[]", THEN conjunct1]
  have "crosses t (undeclared_path t) a" for a using t(2) unfolding crosses_def Let_def by blast
  moreover have "counterexamples (new_session t) = []" by (simp add: counterexamples_def new_session_def)
  ultimately show ?thesis using iff t(1) by (intro exI [of _ t]) simp
qed

end
