(* ===== verification/Leak_Audit.thy ===== *)
theory Leak_Audit
  imports Target_Service
begin

section \<open>The leak audit\<close>

text \<open>
  \<open>oat/qualification/leak_audit.py\<close>: the search for adjudicator-only tokens, and for the seed, in
  the text a candidate will see. Lower-casing is that of ASCII letters.
\<close>

definition PASS :: string where "PASS = ''PASS''"
definition FAIL :: string where "FAIL = ''FAIL''"

definition bundle_text :: "string \<Rightarrow> synthetic_target \<Rightarrow> string" where
  "bundle_text prompt t = prompt @ [CHR 0x0A] @ json_text sorted_style (model_visible_bundle t)"

text \<open>\<open>s[:n]\<close> counts code points: a byte that continues one goes with it.\<close>

fun text_take :: "nat \<Rightarrow> string \<Rightarrow> string" where
  "text_take n [] = []"
| "text_take n (c # s) =
     (if 128 \<le> (of_char c :: nat) \<and> (of_char c :: nat) < 192 then c # text_take n s
      else if n = 0 then [] else c # text_take (n - 1) s)"

definition seed_reconstructible :: "string \<Rightarrow> string \<Rightarrow> bool" where
  "seed_reconstructible seed text \<longleftrightarrow>
     (if seed = [] then False
      else if contains_str seed text then True
      else 8 \<le> text_len seed \<and> contains_str (text_take 8 seed) text)"

record leak_audit =
  la_bundle_digest :: string
  la_candidate_id :: string
  la_forbidden_token_count :: nat
  la_matched_token_count :: nat
  la_seed_reconstructible :: bool
  la_status :: string
  la_target_id :: string

definition leak_audit_dict :: "leak_audit \<Rightarrow> json" where
  "leak_audit_dict a = JObj [
     (''artifact'', JStr ''QUALIFICATION_LEAK_AUDIT''), (''bundle_digest'', JStr (la_bundle_digest a)),
     (''candidate_id'', JStr (la_candidate_id a)),
     (''forbidden_token_count'', JInt (int (la_forbidden_token_count a))),
     (''matched_token_count'', JInt (int (la_matched_token_count a))),
     (''seed_reconstructible'', JBool (la_seed_reconstructible a)),
     (''status'', JStr (la_status a)), (''target_id'', JStr (la_target_id a))]"

definition audit_pair :: "string \<Rightarrow> string \<Rightarrow> synthetic_target \<Rightarrow> string \<Rightarrow> leak_audit" where
  "audit_pair candidate_id prompt t seed =
     (let forbidden = forbidden_tokens (st_ground_truth t);
          text = bundle_text prompt t;
          haystack = lower text;
          matched = length (filter (\<lambda>token. contains_str (lower token) haystack) forbidden);
          seed_leak = seed_reconstructible seed text
      in \<lparr>la_bundle_digest = sha256_hex text, la_candidate_id = candidate_id,
          la_forbidden_token_count = length forbidden, la_matched_token_count = matched,
          la_seed_reconstructible = seed_leak,
          la_status = (if matched = 0 \<and> \<not> seed_leak then PASS else FAIL), la_target_id = st_target_id t\<rparr>)"

subsection \<open>What passing means\<close>

lemma status_iff:
  "la_status (audit_pair candidate_id prompt t seed) = PASS \<longleftrightarrow>
     (\<forall>token \<in> set (forbidden_tokens (st_ground_truth t)). \<not> contains_str (lower token) (lower (bundle_text prompt t)))
     \<and> \<not> seed_reconstructible seed (bundle_text prompt t)"
proof -
  have "FAIL \<noteq> PASS" by (simp add: FAIL_def PASS_def)
  then show ?thesis by (simp add: audit_pair_def Let_def filter_empty_conv)
qed

lemma status_cases: "la_status (audit_pair candidate_id prompt t seed) \<in> {PASS, FAIL}"
  by (simp add: audit_pair_def Let_def)

lemma forbidden_iff:
  "token \<in> set (forbidden_tokens g) \<longleftrightarrow> 5 \<le> text_len token
     \<and> (token \<in> {rt_route_id (gt_undeclared_route g), rt_path (gt_undeclared_route g),
          lstrip_slash (rt_path (gt_undeclared_route g)), gt_mechanism g}
        \<or> token \<in> set (split_on (CHR ''/'') (strip_slash (rt_path (gt_undeclared_route g))))
        \<or> (\<exists>d. (d, JStr token) \<in> set (gt_valid_authorization g)))"
proof -
  have "token \<in> set (long_text v) \<longleftrightarrow> v = JStr token \<and> 5 \<le> text_len token" for v
    by (cases v) (auto simp: long_text_def)
  then show ?thesis by (auto simp: forbidden_tokens_def Let_def)
qed

lemma contains_lower: "contains_str p s \<Longrightarrow> contains_str (lower p) (lower s)"
  by (simp add: contains_str_iff lower_def map_mono_sublist)

subsection \<open>Tokens that the bundle itself contains\<close>

lemma sublist_join: "x \<in> set xs \<Longrightarrow> sublist x (join sep xs)"
proof (induction xs rule: induct_list012)
  case (3 a b xs)
  show ?case
  proof (cases "x = a")
    case True
    then show ?thesis by (simp add: sublist_append_rightI)
  next
    case False
    then have "sublist x (join sep (b # xs))" using 3 by simp
    then show ?thesis using sublist_append_leftI [of "join sep (b # xs)" "a @ sep"] sublist_order.order_trans by fastforce
  qed
qed simp_all

lemma sublist_bracketed: "x \<in> set items \<Longrightarrow> sublist x (bracketed st n l r items)"
proof -
  assume x: "x \<in> set items"
  then have e: "bracketed st n l r items
      = ([l] @ new_line st (Suc n)) @ join (js_item st @ new_line st (Suc n)) items @ new_line st n @ [r]"
    by (auto simp: bracketed_def)
  have "sublist x (join (js_item st @ new_line st (Suc n)) items)" by (rule sublist_join [OF x])
  also have "sublist \<dots> (bracketed st n l r items)" unfolding e by (rule sublist_appendI)
  finally show ?thesis .
qed

lemma sublist_member:
  assumes "(k, v) \<in> set kvs"
  shows "sublist (ascii_str k @ js_key st @ emit st (Suc n) v) (emit st n (JObj kvs))"
proof -
  have "(k, emit st (Suc n) v) \<in> set (map (\<lambda>(k, v). (k, emit st (Suc n) v)) kvs)" using assms by force
  then have "(k, emit st (Suc n) v) \<in> set (ordered st (map (\<lambda>(k, v). (k, emit st (Suc n) v)) kvs))"
    by (simp add: ordered_def)
  then have "ascii_str k @ js_key st @ emit st (Suc n) v \<in> set (map (\<lambda>(k, e). ascii_str k @ js_key st @ e)
      (ordered st (map (\<lambda>(k, v). (k, emit st (Suc n) v)) kvs)))" by force
  then show ?thesis unfolding emit.simps by (rule sublist_bracketed)
qed

lemma sublist_member_key: "(k, v) \<in> set kvs \<Longrightarrow> sublist (ascii_str k) (emit st n (JObj kvs))"
  using sublist_member [of k v kvs st n] sublist_append_rightI [of "ascii_str k"] sublist_order.order_trans by blast

lemma sublist_member_value: "(k, v) \<in> set kvs \<Longrightarrow> sublist (emit st (Suc n) v) (emit st n (JObj kvs))"
  using sublist_member [of k v kvs st n] sublist_append_leftI [of "emit st (Suc n) v" "ascii_str k @ js_key st"]
    sublist_order.order_trans by (metis append.assoc)

lemma bundle_has_commit:
  assumes "st_request_contract t = request_contract exposed"
  shows "contains_str ''commit'' (bundle_text prompt t)"
proof -
  have "sublist ''commit'' (ascii_str ''commit_id'')"
  proof -
    have "ascii_str ''commit_id'' = [CHR 0x22] @ ''commit'' @ (''_id'' @ [CHR 0x22])"
      by (simp add: ascii_str_def ascii_escape_def Let_def)
    then show ?thesis by (metis sublist_appendI)
  qed
  also have "sublist (ascii_str ''commit_id'') (emit sorted_style (Suc 0) (request_contract exposed))"
    unfolding request_contract_def by (rule sublist_member_key [of _ "JStr ''string''"]) simp
  also have "sublist \<dots> (emit sorted_style 0 (model_visible_bundle t))"
    unfolding model_visible_bundle_def assms by (rule sublist_member_value [of "''request_contract''"]) simp
  also have "sublist \<dots> (bundle_text prompt t)"
    unfolding bundle_text_def json_text_def append_assoc [symmetric] by (rule sublist_append_leftI)
  finally show ?thesis by (simp add: contains_str_iff)
qed

text \<open>The audit guards the ground truth: when it passes, neither the undeclared path or its identifier, nor
  the mechanism, nor a long segment of the path, nor a long text of the valid authorization, nor the
  seed occurs in what the candidate will see, in any case of letters.\<close>

theorem passed_audit_hides_truth:
  assumes "la_status (audit_pair candidate_id prompt t seed) = PASS"
    and "token \<in> {undeclared_path t, gt_mechanism (st_ground_truth t)}
      \<or> token \<in> set (split_on (CHR ''/'') (strip_slash (undeclared_path t)))
      \<or> (\<exists>d. (d, JStr token) \<in> set (gt_valid_authorization (st_ground_truth t)))"
    and "5 \<le> text_len token"
  shows "\<not> contains_str token (bundle_text prompt t) \<and> \<not> contains_str (lower token) (lower (bundle_text prompt t))
    \<and> (seed \<noteq> [] \<longrightarrow> \<not> contains_str seed (bundle_text prompt t))"
proof -
  have "token \<in> set (forbidden_tokens (st_ground_truth t))"
    using assms(2,3) unfolding forbidden_iff undeclared_path_def by blast
  then have "\<not> contains_str (lower token) (lower (bundle_text prompt t))"
    and "\<not> seed_reconstructible seed (bundle_text prompt t)"
    using assms(1) unfolding status_iff by blast+
  then show ?thesis using contains_lower by (auto simp: seed_reconstructible_def split: if_splits)
qed

lemma commit_segment_fails:
  assumes "undeclared_path t = ''/control/commit/'' @ token" "CHR ''/'' \<notin> set token" "token \<noteq> []"
    and "st_request_contract t = request_contract exposed"
  shows "la_status (audit_pair candidate_id prompt t seed) = FAIL"
proof -
  obtain c where c: "last token = c" "c \<noteq> CHR ''/''" using assms(2,3) last_in_set by metis
  have "strip_slash (undeclared_path t) = ''control/commit/'' @ token"
  proof -
    have "rev token \<noteq> []" "hd (rev token) \<noteq> CHR ''/''" using assms(3) c by (simp_all add: hd_rev)
    then have "lstrip_slash (rev token @ x) = rev token @ x" for x
      by (cases "rev token") (simp_all add: lstrip_slash_def)
    then show ?thesis by (simp add: strip_slash_def assms(1) lstrip_slash_def)
  qed
  moreover have "split_on (CHR ''/'') (''control/commit/'' @ token) = [''control'', ''commit'', token]"
    using split_on_no_sep [OF assms(2)] by simp
  ultimately have "''commit'' \<in> set (forbidden_tokens (st_ground_truth t))"
    unfolding forbidden_iff undeclared_path_def [symmetric] by (simp add: text_len_def)
  moreover have "contains_str (lower ''commit'') (lower (bundle_text prompt t))"
    by (rule contains_lower [OF bundle_has_commit [OF assms(4)]])
  ultimately have "la_status (audit_pair candidate_id prompt t seed) \<noteq> PASS" unfolding status_iff by blast
  then show ?thesis using status_cases [of candidate_id prompt t seed] by simp
qed

text \<open>The audit can fail whatever the candidate does: every bundle contains the field name commit-id, so a
  target whose undeclared route lies below control/commit fails the audit for every candidate, prompt
  and seed, although nothing of its ground truth was disclosed.\<close>

theorem commit_route_never_passes:
  assumes "undeclared_path t = ''/control/commit/'' @ token" "CHR ''/'' \<notin> set token" "token \<noteq> []"
    and "st_request_contract t = request_contract exposed"
  shows "la_status (audit_pair candidate_id prompt t seed) = FAIL"
  using assms by (rule commit_segment_fails)

definition sample_target :: "string \<Rightarrow> synthetic_target" where
  "sample_target path = \<lparr>st_target_id = ''synthetic-target-01'',
     st_declared_routes = [\<lparr>rt_route_id = ''route.declared-0'', rt_path = ''/do'',
       rt_family = ''non_obvious_action_or_noun_free'', rt_declared = True\<rparr>],
     st_exposed_dimensions = [''tenant''], st_request_contract = request_contract [''tenant''],
     st_ground_truth = \<lparr>gt_target_id = ''synthetic-target-01'', gt_seed_fragment = [],
       gt_mechanism = ''declared_route_ignores_tenant'',
       gt_undeclared_route = \<lparr>rt_route_id = ''route.undeclared-0'', rt_path = path,
         rt_family = ''administrative_control'', rt_declared = False\<rparr>,
       gt_exposed_dimensions = [''tenant''], gt_unenforced_dimension = Some ''tenant'',
       gt_valid_authorization = [(''tenant'', JStr ''tenant-acme'')]\<rparr>\<rparr>"

lemma commit_route_never_passes_witness:
  "la_status (audit_pair ''candidate'' ''prompt'' (sample_target ''/control/commit/0123abcd'') ''seed'') = FAIL"
  by (rule commit_route_never_passes [where token = "''0123abcd''" and exposed = "[''tenant'']"])
    (simp_all add: sample_target_def undeclared_path_def)

text \<open>A passing audit, by letters that do not occur in the bundle.\<close>

definition quiet_target :: synthetic_target where
  "quiet_target = \<lparr>st_target_id = ''synthetic-target-01'',
     st_declared_routes = [\<lparr>rt_route_id = ''route.declared-0'', rt_path = ''/v1/payments'',
       rt_family = ''conventional_rest'', rt_declared = True\<rparr>],
     st_exposed_dimensions = [''tenant''], st_request_contract = request_contract [''tenant''],
     st_ground_truth = \<lparr>gt_target_id = ''synthetic-target-01'', gt_seed_fragment = [],
       gt_mechanism = ''declared_route_confuses_sink'',
       gt_undeclared_route = \<lparr>rt_route_id = ''route.undeclared-2'', rt_path = ''/do/0123abcd'',
         rt_family = ''non_obvious_action_or_noun_free'', rt_declared = False\<rparr>,
       gt_exposed_dimensions = [''tenant''], gt_unenforced_dimension = Some ''sink'',
       gt_valid_authorization = [(''tenant'', JStr ''tenant-globex'')]\<rparr>\<rparr>"

lemma quiet_tokens:
  "list_all (\<lambda>token. list_ex (\<lambda>c. c \<in> set ''2bk'') (lower token)) (forbidden_tokens (st_ground_truth quiet_target))"
  by code_simp

lemma quiet_text: "list_all (\<lambda>c. c \<notin> set ''2bk'') (lower (bundle_text ''prompt'' quiet_target))"
  by code_simp

lemma rare_letter:
  assumes "list_all (\<lambda>t. list_ex (\<lambda>c. c \<in> K) (lower t)) ts" "list_all (\<lambda>c. c \<notin> K) s" "t \<in> set ts"
  shows "\<not> contains_str (lower t) s"
proof
  assume "contains_str (lower t) s"
  then have "set (lower t) \<subseteq> set s" unfolding contains_str_iff by (rule set_mono_sublist)
  then show False using assms by (fastforce simp: list_all_iff list_ex_iff)
qed

lemma quiet_passes: "la_status (audit_pair ''candidate'' ''prompt'' quiet_target []) = PASS"
  unfolding status_iff using rare_letter [OF quiet_tokens quiet_text] by (simp add: seed_reconstructible_def)

lemma passed_audit_hides_truth_witness:
  "\<not> contains_str ''0123abcd'' (bundle_text ''prompt'' quiet_target)"
proof -
  have t: "''0123abcd'' \<in> set (split_on (CHR ''/'') (strip_slash (undeclared_path quiet_target)))"
    by code_simp
  have n: "5 \<le> text_len ''0123abcd''" by code_simp
  show ?thesis using passed_audit_hides_truth [OF quiet_passes disjI2 [OF disjI1 [OF t]] n] by blast
qed

end
