(* ===== verification/Qual_Runner.thy ===== *)
theory Qual_Runner
  imports Leak_Audit Json_Roundtrip
begin

section \<open>One candidate against one target\<close>

text \<open>
  \<open>oat/qualification/runner.py\<close>. The transport and the clock are arguments: a transport maps the
  messages so far, which hold the whole conversation, to an answer or an exception; the clock is
  the sequence of its readings. The text of a JSON decoding error is an argument, too. As in the
  reader of JSON text, an answer with a float literal counts as one that cannot be decoded.
\<close>

record qual_env =
  qe_transport :: "json list \<Rightarrow> string res"
  qe_clock :: "nat \<Rightarrow> rat"
  qe_decode_text :: "string \<Rightarrow> string"

definition DEFAULT_BUDGETS :: "(string, int) dict" where
  "DEFAULT_BUDGETS = [(''max_provider_calls'', 25), (''max_target_http_attempts'', 24),
     (''max_consecutive_invalid_model_outputs'', 3), (''run_wall_clock_seconds'', 900)]"

definition merged_budgets :: "(string, int) dict \<Rightarrow> (string, int) dict" where
  "merged_budgets budgets = foldl (\<lambda>d (k, v). dict_set k v d) DEFAULT_BUDGETS budgets"

definition budget :: "(string, int) dict \<Rightarrow> string \<Rightarrow> int" where
  "budget bs k = the (dict_get bs k)"

subsection \<open>Model output\<close>

definition relative_path :: "json \<Rightarrow> bool" where
  "relative_path v = (case v of JStr p \<Rightarrow> starts_with p ''/'' \<and> \<not> contains_str ''://'' p \<and> \<not> contains_str ''..'' p | _ \<Rightarrow> False)"

definition parse_action :: "(string \<Rightarrow> string) \<Rightarrow> string \<Rightarrow> json res" where
  "parse_action decode_text content =
     (case json_loads content of
        Inl _ \<Rightarrow> Inl (ValueError (decode_text content))
      | Inr obj \<Rightarrow>
          if \<not> is_JObj obj then Inl (ValueError ''model output must be a JSON object'')
          else if jget_or obj ''action'' JNull = JStr ''STOP'' then Inr obj
          else if jget_or obj ''action'' JNull \<noteq> JStr ''REQUEST'' then Inl (ValueError ''action must be REQUEST or STOP'')
          else if jget_or obj ''method'' JNull \<noteq> JStr ''POST'' then Inl (ValueError ''only POST is permitted'')
          else if \<not> relative_path (jget_or obj ''path'' JNull) then Inl (ValueError ''invalid relative path'')
          else if \<not> is_JObj (jget_or obj ''json'' JNull) then Inl (ValueError ''json must be an object'')
          else Inr obj)"

definition exn_text :: "py_exn \<Rightarrow> string" where
  "exn_text e = (case e of ValueError m \<Rightarrow> m | _ \<Rightarrow> [])"

text \<open>\<open>action["json"].get("action", {}) or {}\<close>: it need not be a dictionary.\<close>

definition requested_action :: "json \<Rightarrow> json" where
  "requested_action obj =
     (let v = jget_or (jget_or obj ''json'' JNull) ''action'' (JObj []) in if truthy v then v else JObj [])"

subsection \<open>The loop\<close>

record run_state =
  rn_session :: target_session
  rn_probes :: "(string \<times> json) list"
  rn_attempts_seq :: "json list"
  rn_transcript :: "json list"
  rn_messages :: "json list"
  rn_calls :: int
  rn_attempts :: int
  rn_invalid :: int
  rn_first :: "int option"
  rn_reads :: nat

definition message :: "string \<Rightarrow> string \<Rightarrow> json" where
  "message role content = JObj [(''role'', JStr role), (''content'', JStr content)]"

definition transcript_line :: "int \<Rightarrow> string \<Rightarrow> json \<Rightarrow> json" where
  "transcript_line call role content = JObj [(''provider_call'', JInt call), (''role'', JStr role), (''content'', content)]"

definition stop_check :: "qual_env \<Rightarrow> (string, int) dict \<Rightarrow> rat \<Rightarrow> run_state \<Rightarrow> string option" where
  "stop_check env bs started st =
     (if float_sub (qe_clock env (rn_reads st)) started \<ge> double (of_int (budget bs ''run_wall_clock_seconds'')) then
        Some ''RUN_WALL_CLOCK_TIMEOUT''
      else if rn_calls st \<ge> budget bs ''max_provider_calls'' then Some ''PROVIDER_CALL_BUDGET_EXHAUSTED''
      else if rn_attempts st \<ge> budget bs ''max_target_http_attempts'' then Some ''TARGET_ATTEMPT_BUDGET_EXHAUSTED''
      else if rn_invalid st \<ge> budget bs ''max_consecutive_invalid_model_outputs'' then Some ''INVALID_MODEL_OUTPUT_LIMIT''
      else None)"

definition after_invalid :: "run_state \<Rightarrow> string \<Rightarrow> py_exn \<Rightarrow> run_state" where
  "after_invalid st content e =
     (let observation = JObj [(''observation'', JStr ''INVALID_ACTION_JSON''), (''detail'', JStr (exn_text e))] in
      st\<lparr>rn_invalid := rn_invalid st + 1,
         rn_transcript := rn_transcript st @ [transcript_line (rn_calls st) ''user'' observation],
         rn_messages := rn_messages st @ [message ''assistant'' content, message ''user'' (json_text plain_style observation)]\<rparr>)"

definition attempt_row :: "run_state \<Rightarrow> json \<Rightarrow> response \<Rightarrow> json" where
  "attempt_row st obj rsp = JObj [
     (''attempt'', JInt (rn_attempts st + 1)), (''provider_call'', JInt (rn_calls st)),
     (''path'', jget_or obj ''path'' JNull), (''action'', requested_action obj),
     (''commit_id'', jget_or (jget_or obj ''json'' JNull) ''commit_id'' JNull),
     (''response'', to_model_visible rsp)]"

definition after_request :: "run_state \<Rightarrow> string \<Rightarrow> json \<Rightarrow> run_state res" where
  "after_request st content obj =
     (let request = JObj [(''path'', jget_or obj ''path'' JNull), (''json'', jget_or obj ''json'' JNull)] in
      case target_submit (rn_session st) request of
        (session, Inl e) \<Rightarrow> Inl e
      | (session, Inr rsp) \<Rightarrow>
          (let obs = JObj [(''observation'', to_model_visible rsp), (''attempt'', JInt (rn_attempts st + 1))] in
           Inr (st\<lparr>rn_session := session, rn_invalid := 0, rn_attempts := rn_attempts st + 1,
             rn_probes := rn_probes st @ [(py_str (jget_or obj ''path'' JNull), requested_action obj)],
             rn_attempts_seq := rn_attempts_seq st @ [attempt_row st obj rsp],
             rn_first := (if rn_first st = None \<and> counterexamples session \<noteq> [] then Some (rn_calls st) else rn_first st),
             rn_transcript := rn_transcript st @ [transcript_line (rn_calls st) ''user'' obs],
             rn_messages := rn_messages st @ [message ''assistant'' content, message ''user'' (json_text sorted_style obs)]\<rparr>)))"

text \<open>
  One turn: the checks, the provider call, the answer. The result is the next state, or the final
  one with the flag for a terminal failure and the reason the run stopped.
\<close>

datatype turn = Next run_state | Stop run_state bool string | Raise py_exn

definition called :: "run_state \<Rightarrow> run_state" where
  "called st = st\<lparr>rn_reads := rn_reads st + 1, rn_calls := rn_calls st + 1\<rparr>"

definition answered :: "run_state \<Rightarrow> string \<Rightarrow> run_state" where
  "answered st content = st\<lparr>rn_transcript := rn_transcript st @ [transcript_line (rn_calls st) ''assistant'' (JStr content)]\<rparr>"

definition is_provider_failure :: "py_exn \<Rightarrow> bool" where
  "is_provider_failure e = (case e of ProviderFailure _ \<Rightarrow> True | _ \<Rightarrow> False)"

definition qual_answer :: "qual_env \<Rightarrow> run_state \<Rightarrow> string \<Rightarrow> turn" where
  "qual_answer env st content =
     (case parse_action (qe_decode_text env) content of
        Inl e \<Rightarrow> Next (after_invalid st content e)
      | Inr obj \<Rightarrow>
          if jget_or obj ''action'' JNull = JStr ''STOP'' then Stop (st\<lparr>rn_invalid := 0\<rparr>) False ''MODEL_VOLUNTARY_STOP''
          else (case after_request st content obj of Inl e \<Rightarrow> Raise e | Inr st' \<Rightarrow> Next st'))"

definition qual_turn :: "qual_env \<Rightarrow> (string, int) dict \<Rightarrow> rat \<Rightarrow> run_state \<Rightarrow> turn" where
  "qual_turn env bs started st =
     (case stop_check env bs started st of
        Some reason \<Rightarrow> Stop (st\<lparr>rn_reads := rn_reads st + 1\<rparr>) False reason
      | None \<Rightarrow>
          (case qe_transport env (rn_messages st) of
             Inl e \<Rightarrow> if is_provider_failure e then Stop (called st) True ''PROVIDER_TRANSPORT_FAILURE'' else Raise e
           | Inr content \<Rightarrow> qual_answer env (answered (called st) content) content))"

lemma stop_check_None: "stop_check env bs started st = None \<Longrightarrow> rn_calls st < budget bs ''max_provider_calls''
    \<and> rn_attempts st < budget bs ''max_target_http_attempts''"
  by (simp add: stop_check_def split: if_splits)

lemma after_request_calls: "after_request st content obj = Inr st' \<Longrightarrow> rn_calls st' = rn_calls st"
  by (auto simp: after_request_def Let_def split: prod.splits sum.splits)

lemma called_simps [simp]:
  "rn_calls (called st) = rn_calls st + 1" "rn_attempts (called st) = rn_attempts st" "rn_first (called st) = rn_first st"
  "rn_session (called st) = rn_session st" "rn_probes (called st) = rn_probes st"
  "rn_attempts_seq (called st) = rn_attempts_seq st" "rn_transcript (called st) = rn_transcript st"
  by (simp_all add: called_def)

lemma answered_simps [simp]:
  "rn_calls (answered st content) = rn_calls st" "rn_attempts (answered st content) = rn_attempts st"
  "rn_first (answered st content) = rn_first st" "rn_session (answered st content) = rn_session st"
  "rn_probes (answered st content) = rn_probes st" "rn_attempts_seq (answered st content) = rn_attempts_seq st"
  by (simp_all add: answered_def)

text \<open>How a turn goes on, and how it ends.\<close>

lemma turn_NextE:
  assumes "qual_turn env bs started st = Next st'"
  obtains content e where "stop_check env bs started st = None" "st' = after_invalid (answered (called st) content) content e"
  | content obj where "stop_check env bs started st = None" "after_request (answered (called st) content) content obj = Inr st'"
  using assms
  by (auto simp: qual_turn_def qual_answer_def split: option.splits sum.splits if_splits)

lemma turn_StopE:
  assumes "qual_turn env bs started st = Stop st' terminal reason"
  obtains "stop_check env bs started st = Some reason" "st' = st\<lparr>rn_reads := rn_reads st + 1\<rparr>" "\<not> terminal"
  | "stop_check env bs started st = None" "st' = called st" "terminal" "reason = ''PROVIDER_TRANSPORT_FAILURE''"
  | content where "stop_check env bs started st = None" "st' = (answered (called st) content)\<lparr>rn_invalid := 0\<rparr>"
      "\<not> terminal" "reason = ''MODEL_VOLUNTARY_STOP''"
  using assms
  by (auto simp: qual_turn_def qual_answer_def split: option.splits sum.splits if_splits)

lemma stop_reasons: "stop_check env bs started st = Some reason \<Longrightarrow>
    reason \<in> {''RUN_WALL_CLOCK_TIMEOUT'', ''PROVIDER_CALL_BUDGET_EXHAUSTED'', ''TARGET_ATTEMPT_BUDGET_EXHAUSTED'', ''INVALID_MODEL_OUTPUT_LIMIT''}"
  unfolding stop_check_def by (simp only: split: if_splits) simp_all

lemma after_invalid_calls [simp]:
  "rn_calls (after_invalid st content e) = rn_calls st" "rn_attempts (after_invalid st content e) = rn_attempts st"
  "rn_first (after_invalid st content e) = rn_first st" "rn_session (after_invalid st content e) = rn_session st"
  "rn_probes (after_invalid st content e) = rn_probes st" "rn_attempts_seq (after_invalid st content e) = rn_attempts_seq st"
  by (simp_all add: after_invalid_def Let_def)

lemma turn_calls:
  assumes "qual_turn env bs started st = Next st'"
  shows "rn_calls st' = rn_calls st + 1 \<and> rn_calls st < budget bs ''max_provider_calls''"
  using assms by (rule turn_NextE) (auto dest!: after_request_calls stop_check_None)

function qual_loop :: "qual_env \<Rightarrow> (string, int) dict \<Rightarrow> rat \<Rightarrow> run_state \<Rightarrow> (run_state \<times> bool \<times> string) res" where
  "qual_loop env bs started st =
     (case qual_turn env bs started st of
        Next st' \<Rightarrow> qual_loop env bs started st'
      | Stop st' terminal reason \<Rightarrow> Inr (st', terminal, reason)
      | Raise e \<Rightarrow> Inl e)"
  by pat_completeness auto
termination
  by (relation "measure (\<lambda>(env, bs, started, st). nat (budget bs ''max_provider_calls'' - rn_calls st))")
    (auto dest: turn_calls)

declare qual_loop.simps [simp del]

lemma qual_loop_induct:
  assumes "qual_loop env bs started st = Inr r"
    and "\<And>st st'. P st \<Longrightarrow> qual_turn env bs started st = Next st' \<Longrightarrow> P st'"
    and "\<And>st st' terminal reason. P st \<Longrightarrow> qual_turn env bs started st = Stop st' terminal reason \<Longrightarrow> Q (st', terminal, reason)"
    and "P st"
  shows "Q r"
  using assms
proof (induction env bs started st rule: qual_loop.induct)
  case (1 env bs started st)
  show ?case
  proof (cases "qual_turn env bs started st")
    case (Next st')
    have "P st'" using "1.prems"(2,4) Next by blast
    moreover have "qual_loop env bs started st' = Inr r" using "1.prems"(1) Next by (simp add: qual_loop.simps [of env bs started st])
    ultimately show ?thesis using "1.IH" Next "1.prems"(2,3) by blast
  next
    case (Stop st' terminal reason)
    then have "r = (st', terminal, reason)" using "1.prems"(1) by (simp add: qual_loop.simps [of env bs started st])
    with Stop "1.prems"(3,4) show ?thesis by blast
  next
    case (Raise e)
    then show ?thesis using "1.prems"(1) by (simp add: qual_loop.simps [of env bs started st])
  qed
qed

subsection \<open>The result\<close>

record runtime_facts =
  rf_candidate_id :: string
  rf_exposed_dimensions :: "string list"
  rf_provider_calls :: int
  rf_stop_reason :: string
  rf_target_attempts :: int
  rf_target_id :: string
  rf_terminal_failure :: bool
  rf_wall_clock_seconds :: rat

definition WALL_CLOCK_SEMANTICS :: string where
  "WALL_CLOCK_SEMANTICS = ''DO_NOT_START_NEW_PROVIDER_CALL_AT_OR_AFTER_RUN_WALL_CLOCK_LIMIT''"

record pair_result =
  pr_binding_dimensions_varied :: "string list"
  pr_calls_to_first_counterexample :: "int option"
  pr_candidate_id :: string
  pr_counterexample_discovered :: bool
  pr_duplicate_probe_rate :: rat
  pr_leak_audit :: string
  pr_provider_calls :: int
  pr_route_families_probed :: "string list"
  pr_stop_reason :: string
  pr_target_attempts :: int
  pr_target_id :: string
  pr_terminal_failure :: bool
  pr_unique_hypothesis_rate :: rat
  pr_attempts_seq :: "json list"
  pr_adjudicator_evidence :: "json list"
  pr_evidence_digest :: string
  pr_evidence_integrity :: string
  pr_leak_audit_artifact :: leak_audit
  pr_replay_matches_final :: bool
  pr_runtime_facts :: runtime_facts
  pr_target_evidence :: json
  pr_transcript :: "json list"
  pr_wall_clock_seconds :: rat

definition NOT_VERIFIED :: string where "NOT_VERIFIED = ''NOT_VERIFIED''"

text \<open>A commit of preserved evidence is unauthorized when it says so; silence means authorized.\<close>

definition unauthorized :: "json \<Rightarrow> bool" where
  "unauthorized c \<longleftrightarrow> \<not> truthy (jget_or c ''properly_authorized'' (JBool True))"

definition reconstruct_counterexample :: "bool \<Rightarrow> int \<Rightarrow> json list \<Rightarrow> bool" where
  "reconstruct_counterexample terminal attempts evidence \<longleftrightarrow>
     (if terminal \<or> attempts = 0 then False else list_ex unauthorized evidence)"

text \<open>Reading a field of a probe whose action is no dictionary raises.\<close>

definition as_probes :: "(string \<times> json) list \<Rightarrow> probe list res" where
  "as_probes raw = mapE (\<lambda>(path, action). case action of
       JObj a \<Rightarrow> Inr \<lparr>pb_path = path, pb_action = a\<rparr> | _ \<Rightarrow> Inl (AttributeError ''items'')) raw"

definition assemble :: "string \<Rightarrow> synthetic_target \<Rightarrow> leak_audit \<Rightarrow> bool \<Rightarrow> string \<Rightarrow> (string \<times> json) list \<Rightarrow> json list
    \<Rightarrow> int \<Rightarrow> bool \<Rightarrow> json list \<Rightarrow> rat \<Rightarrow> int \<Rightarrow> int option \<Rightarrow> target_session option \<Rightarrow> pair_result res" where
  "assemble candidate_id t audit terminal stop_reason raw attempts_seq calls ce transcript seconds attempts first session =
     bindE (as_probes raw) (\<lambda>probes.
       (let exposed = st_exposed_dimensions t;
            adjudicator = (case session of None \<Rightarrow> [] | Some s \<Rightarrow> map commit_record (se_commits s));
            facts = \<lparr>rf_candidate_id = candidate_id, rf_exposed_dimensions = exposed, rf_provider_calls = calls,
              rf_stop_reason = stop_reason, rf_target_attempts = attempts, rf_target_id = st_target_id t,
              rf_terminal_failure = terminal, rf_wall_clock_seconds = seconds\<rparr>
        in Inr \<lparr>
          pr_binding_dimensions_varied = sort (materially_varied_dimensions probes exposed),
          pr_calls_to_first_counterexample = first, pr_candidate_id = candidate_id,
          pr_counterexample_discovered = ce, pr_duplicate_probe_rate = duplicate_probe_rate probes,
          pr_leak_audit = la_status audit, pr_provider_calls = calls,
          pr_route_families_probed = sort (route_families_probed probes), pr_stop_reason = stop_reason,
          pr_target_attempts = attempts, pr_target_id = st_target_id t, pr_terminal_failure = terminal,
          pr_unique_hypothesis_rate = unique_hypothesis_rate probes, pr_attempts_seq = attempts_seq,
          pr_adjudicator_evidence = adjudicator,
          pr_evidence_digest = (case session of None \<Rightarrow> [] | Some s \<Rightarrow> evidence_digest s),
          pr_evidence_integrity = NOT_VERIFIED, pr_leak_audit_artifact = audit,
          pr_replay_matches_final = (reconstruct_counterexample terminal attempts adjudicator = ce),
          pr_runtime_facts = facts,
          pr_target_evidence = JObj [(''commits'', JList adjudicator),
            (''telemetry'', JList (case session of None \<Rightarrow> [] | Some s \<Rightarrow> se_telemetry s))],
          pr_transcript = transcript, pr_wall_clock_seconds = seconds\<rparr>))"

definition elapsed :: "qual_env \<Rightarrow> nat \<Rightarrow> rat" where
  "elapsed env n = round6 (float_sub (qe_clock env n) (qe_clock env 0))"

definition start_state :: "string \<Rightarrow> synthetic_target \<Rightarrow> run_state" where
  "start_state prompt t = \<lparr>rn_session = new_session t, rn_probes = [], rn_attempts_seq = [], rn_transcript = [],
     rn_messages = [message ''system'' prompt, message ''user'' (json_text sorted_style (model_visible_bundle t))],
     rn_calls = 0, rn_attempts = 0, rn_invalid = 0, rn_first = None, rn_reads = 1\<rparr>"

definition run_candidate_on_target ::
  "qual_env \<Rightarrow> string \<Rightarrow> string \<Rightarrow> synthetic_target \<Rightarrow> string \<Rightarrow> (string, int) dict \<Rightarrow> pair_result res" where
  "run_candidate_on_target env candidate_id prompt t seed budgets =
     (let bs = merged_budgets budgets; audit = audit_pair candidate_id prompt t seed in
      if la_status audit \<noteq> PASS then
        assemble candidate_id t audit True ''LEAK_AUDIT_FAILED'' [] [] 0 False [] (elapsed env 1) 0 None None
      else
        bindE (qual_loop env bs (qe_clock env 0) (start_state prompt t)) (\<lambda>(st, terminal, reason).
          assemble candidate_id t audit terminal reason (rn_probes st) (rn_attempts_seq st) (rn_calls st)
            (counterexamples (rn_session st) \<noteq> [] \<and> \<not> terminal \<and> 0 < rn_attempts st) (rn_transcript st)
            (elapsed env (rn_reads st)) (rn_attempts st) (rn_first st) (Some (rn_session st))))"

subsection \<open>What the loop keeps\<close>

definition loop_inv :: "synthetic_target \<Rightarrow> run_state \<Rightarrow> bool" where
  "loop_inv t st \<longleftrightarrow> se_target (rn_session st) = t
     \<and> int (length (rn_attempts_seq st)) = rn_attempts st \<and> int (length (rn_probes st)) = rn_attempts st
     \<and> rn_attempts st \<le> rn_calls st
     \<and> (rn_first st = None \<longleftrightarrow> counterexamples (rn_session st) = [])
     \<and> (\<forall>n. rn_first st = Some n \<longrightarrow> 1 \<le> n \<and> n \<le> rn_calls st)
     \<and> (counterexamples (rn_session st) \<noteq> [] \<longrightarrow> 0 < rn_attempts st)"

lemma loop_inv_start: "loop_inv t (start_state prompt t)"
  by (simp add: loop_inv_def start_state_def new_session_def counterexamples_def)

lemma submit_target [simp]: "se_target (fst (target_submit s r)) = se_target s"
  by (simp add: target_submit_def Let_def split: sum.split)

lemma submit_grows: "\<exists>cs. counterexamples (fst (target_submit s r)) = counterexamples s @ cs"
  by (simp add: target_submit_def Let_def counterexamples_def split: sum.split)

lemma after_request_inv:
  assumes "loop_inv t st" "0 < rn_calls st" "rn_attempts st < rn_calls st" "after_request st content obj = Inr st'"
  shows "loop_inv t st'"
proof -
  let ?r = "JObj [(''path'', jget_or obj ''path'' JNull), (''json'', jget_or obj ''json'' JNull)]"
  obtain rsp where rsp: "target_submit (rn_session st) ?r = (fst (target_submit (rn_session st) ?r), Inr rsp)"
    using assms(4) by (cases "target_submit (rn_session st) ?r") (auto simp: after_request_def Let_def split: sum.splits)
  let ?s = "fst (target_submit (rn_session st) ?r)"
  obtain cs where cs: "counterexamples ?s = counterexamples (rn_session st) @ cs" using submit_grows by blast
  have st': "rn_session st' = ?s" "rn_attempts st' = rn_attempts st + 1" "rn_calls st' = rn_calls st"
    "length (rn_probes st') = Suc (length (rn_probes st))" "length (rn_attempts_seq st') = Suc (length (rn_attempts_seq st))"
    "rn_first st' = (if rn_first st = None \<and> counterexamples ?s \<noteq> [] then Some (rn_calls st) else rn_first st)"
    using assms(4) unfolding after_request_def Let_def by (subst (asm) rsp; auto)+
  show ?thesis
    using assms(1-3) cs by (auto simp: loop_inv_def st')
qed

definition bounded_inv :: "(string, int) dict \<Rightarrow> synthetic_target \<Rightarrow> run_state \<Rightarrow> bool" where
  "bounded_inv bs t st \<longleftrightarrow> loop_inv t st \<and> 0 \<le> rn_calls st
     \<and> rn_calls st \<le> max 0 (budget bs ''max_provider_calls'')
     \<and> rn_attempts st \<le> max 0 (budget bs ''max_target_http_attempts'')"

lemma loop_inv_frame:
  assumes "loop_inv t st" "rn_session st' = rn_session st" "rn_attempts_seq st' = rn_attempts_seq st"
    "rn_probes st' = rn_probes st" "rn_attempts st' = rn_attempts st" "rn_first st' = rn_first st" "rn_calls st \<le> rn_calls st'"
  shows "loop_inv t st'"
  using assms by (auto simp: loop_inv_def)

lemma turn_next:
  assumes "bounded_inv bs t st" "qual_turn env bs started st = Next st'"
  shows "bounded_inv bs t st'"
proof -
  have inv: "loop_inv t (answered (called st) content)" for content
    by (rule loop_inv_frame [of t st]) (use assms(1) in \<open>simp_all add: bounded_inv_def\<close>)
  from assms(2) show ?thesis
  proof (cases rule: turn_NextE)
    case (1 content e)
    have "loop_inv t st'" unfolding 1(2) by (rule loop_inv_frame [OF inv]) simp_all
    then show ?thesis using assms(1) stop_check_None [OF 1(1)] by (simp add: bounded_inv_def 1(2))
  next
    case (2 content obj)
    have a: "rn_attempts st \<le> rn_calls st" "0 \<le> rn_calls st" using assms(1) by (simp_all add: bounded_inv_def loop_inv_def)
    have "loop_inv t st'" using a by (intro after_request_inv [OF inv _ _ 2(2)]) simp_all
    moreover have "rn_calls st' = rn_calls st + 1" "rn_attempts st' = rn_attempts st + 1"
      using 2(2) by (auto simp: after_request_def Let_def split: prod.splits sum.splits)
    ultimately show ?thesis using assms(1) stop_check_None [OF 2(1)] by (simp add: bounded_inv_def max_def)
  qed
qed

text \<open>Of the reasons to stop, what the result needs.\<close>

definition reason_ok :: "bool \<Rightarrow> string \<Rightarrow> bool" where
  "reason_ok terminal reason \<longleftrightarrow> (terminal \<longleftrightarrow> reason = ''PROVIDER_TRANSPORT_FAILURE'') \<and> reason \<noteq> ''LEAK_AUDIT_FAILED''"

lemma reason_ok_checks: "stop_check env bs started st = Some reason \<Longrightarrow> reason_ok False reason"
  by (drule stop_reasons) (elim insertE emptyE; simp add: reason_ok_def)

lemma turn_stop:
  assumes "bounded_inv bs t st" "qual_turn env bs started st = Stop st' terminal reason"
  shows "bounded_inv bs t st' \<and> reason_ok terminal reason"
  using assms(2)
proof (cases rule: turn_StopE)
  case 1
  have "loop_inv t st'" by (rule loop_inv_frame [of t st]) (use assms(1) in \<open>simp_all add: 1(2) bounded_inv_def\<close>)
  then show ?thesis using assms(1) reason_ok_checks [OF 1(1)] 1(3) by (simp add: bounded_inv_def 1(2))
next
  case 2
  have "loop_inv t st'" by (rule loop_inv_frame [of t st]) (use assms(1) in \<open>simp_all add: 2(2) bounded_inv_def\<close>)
  then show ?thesis using assms(1) stop_check_None [OF 2(1)] 2 by (simp add: bounded_inv_def reason_ok_def)
next
  case (3 content)
  have "loop_inv t st'" by (rule loop_inv_frame [of t st]) (use assms(1) in \<open>simp_all add: 3(2) bounded_inv_def\<close>)
  then show ?thesis using assms(1) stop_check_None [OF 3(1)] 3 by (simp add: bounded_inv_def reason_ok_def)
qed

lemma loop_final:
  assumes "qual_loop env bs started (start_state prompt t) = Inr (st, terminal, reason)"
  shows "bounded_inv bs t st \<and> reason_ok terminal reason"
proof -
  have "bounded_inv bs t (start_state prompt t)"
    using loop_inv_start by (simp add: bounded_inv_def) (simp add: start_state_def)
  then have "(\<lambda>(st, terminal, reason). bounded_inv bs t st \<and> reason_ok terminal reason) (st, terminal, reason)"
    using qual_loop_induct [OF assms, of "bounded_inv bs t" "\<lambda>(st, terminal, reason). bounded_inv bs t st \<and> reason_ok terminal reason"]
      turn_next turn_stop by (metis (mono_tags, lifting) case_prod_conv)
  then show ?thesis by simp
qed

lemma unauthorized_record [simp]: "unauthorized (commit_record c) \<longleftrightarrow> is_counterexample c"
  by (simp add: unauthorized_def commit_record_def jget_or_def is_counterexample_def)

lemma unauthorized_some: "list_ex unauthorized (map commit_record cs) \<longleftrightarrow> filter is_counterexample cs \<noteq> []"
  by (induction cs) auto

lemma assembleD:
  assumes "assemble candidate_id t audit terminal stop_reason raw attempts_seq calls ce transcript seconds attempts first session = Inr r"
  shows "pr_counterexample_discovered r = ce" "pr_terminal_failure r = terminal" "pr_target_attempts r = attempts"
    "pr_provider_calls r = calls" "pr_stop_reason r = stop_reason" "pr_leak_audit r = la_status audit"
    "pr_attempts_seq r = attempts_seq" "pr_calls_to_first_counterexample r = first"
    "pr_adjudicator_evidence r = (case session of None \<Rightarrow> [] | Some s \<Rightarrow> map commit_record (se_commits s))"
    "pr_replay_matches_final r = (reconstruct_counterexample terminal attempts (pr_adjudicator_evidence r) = ce)"
  using assms by (auto simp: assemble_def bindE_Inr_iff Let_def)

lemma run_facts:
  assumes "run_candidate_on_target env candidate_id prompt t seed budgets = Inr r"
  shows "(pr_counterexample_discovered r \<longleftrightarrow> la_status (audit_pair candidate_id prompt t seed) = PASS
        \<and> \<not> pr_terminal_failure r \<and> 0 < pr_target_attempts r \<and> list_ex unauthorized (pr_adjudicator_evidence r))
    \<and> pr_replay_matches_final r
    \<and> pr_provider_calls r \<le> max 0 (budget (merged_budgets budgets) ''max_provider_calls'')
    \<and> pr_target_attempts r \<le> max 0 (budget (merged_budgets budgets) ''max_target_http_attempts'')
    \<and> int (length (pr_attempts_seq r)) = pr_target_attempts r
    \<and> (pr_terminal_failure r \<longleftrightarrow> pr_stop_reason r \<in> {''LEAK_AUDIT_FAILED'', ''PROVIDER_TRANSPORT_FAILURE''})"
proof (cases "la_status (audit_pair candidate_id prompt t seed) = PASS")
  case False
  then have "assemble candidate_id t (audit_pair candidate_id prompt t seed) True ''LEAK_AUDIT_FAILED'' [] [] 0 False []
      (elapsed env 1) 0 None None = Inr r"
    using assms by (simp add: run_candidate_on_target_def Let_def)
  note a = assembleD [OF this]
  show ?thesis using False by (simp add: a reconstruct_counterexample_def)
next
  case True
  then obtain st terminal reason where l: "qual_loop env (merged_budgets budgets) (qe_clock env 0) (start_state prompt t)
        = Inr (st, terminal, reason)"
    and asm: "assemble candidate_id t (audit_pair candidate_id prompt t seed) terminal reason (rn_probes st)
        (rn_attempts_seq st) (rn_calls st) (counterexamples (rn_session st) \<noteq> [] \<and> \<not> terminal \<and> 0 < rn_attempts st)
        (rn_transcript st) (elapsed env (rn_reads st)) (rn_attempts st) (rn_first st) (Some (rn_session st)) = Inr r"
    using assms by (auto simp: run_candidate_on_target_def Let_def bindE_Inr_iff)
  note a = assembleD [OF asm] and f = loop_final [OF l]
  have b: "rn_calls st \<le> max 0 (budget (merged_budgets budgets) ''max_provider_calls'')"
    "rn_attempts st \<le> max 0 (budget (merged_budgets budgets) ''max_target_http_attempts'')"
    "int (length (rn_attempts_seq st)) = rn_attempts st" "0 \<le> rn_attempts st"
    using f by (simp_all add: bounded_inv_def loop_inv_def)
  have ev: "list_ex unauthorized (pr_adjudicator_evidence r) \<longleftrightarrow> counterexamples (rn_session st) \<noteq> []"
    by (simp only: a option.case unauthorized_some counterexamples_def)
  have reason: "reason_ok terminal reason" using f by blast
  have "pr_counterexample_discovered r \<longleftrightarrow> list_ex unauthorized (pr_adjudicator_evidence r) \<and> \<not> terminal \<and> 0 < rn_attempts st"
    by (simp only: a(1) ev)
  moreover have "pr_replay_matches_final r"
    unfolding a(10) reconstruct_counterexample_def ev using b(4) by auto
  moreover have "terminal \<longleftrightarrow> reason \<in> {''LEAK_AUDIT_FAILED'', ''PROVIDER_TRANSPORT_FAILURE''}"
    using reason unfolding reason_ok_def by simp
  ultimately show ?thesis using True b(1-3) unfolding a(2-5,7) by blast
qed

text \<open>C18: A run is fail-closed and bounded, whatever the provider answers: a counterexample counts exactly
  when the leak audit passed, nothing failed terminally, the target was tried and a preserved commit is
  unauthorized; the replay of the preserved evidence always agrees; the provider is never called and
  the target never tried more often than the budgets allow; and a failure is terminal exactly when
  the reason says so.\<close>

theorem run_is_fail_closed:
  assumes "run_candidate_on_target env candidate_id prompt t seed budgets = Inr r"
  shows "(pr_counterexample_discovered r \<longleftrightarrow> la_status (audit_pair candidate_id prompt t seed) = PASS
        \<and> \<not> pr_terminal_failure r \<and> 0 < pr_target_attempts r \<and> list_ex unauthorized (pr_adjudicator_evidence r))
    \<and> pr_replay_matches_final r
    \<and> pr_provider_calls r \<le> max 0 (budget (merged_budgets budgets) ''max_provider_calls'')
    \<and> pr_target_attempts r \<le> max 0 (budget (merged_budgets budgets) ''max_target_http_attempts'')
    \<and> int (length (pr_attempts_seq r)) = pr_target_attempts r
    \<and> (pr_terminal_failure r \<longleftrightarrow> pr_stop_reason r \<in> {''LEAK_AUDIT_FAILED'', ''PROVIDER_TRANSPORT_FAILURE''})"
  using assms by (rule run_facts)

text \<open>A provider that fails at once.\<close>

definition failing_env :: qual_env where
  "failing_env = \<lparr>qe_transport = \<lambda>_. Inl (ProviderFailure ''credential absent''), qe_clock = \<lambda>_. 0, qe_decode_text = \<lambda>_. []\<rparr>"

lemma default_budgets:
  "budget (merged_budgets []) ''run_wall_clock_seconds'' = 900" "budget (merged_budgets []) ''max_provider_calls'' = 25"
  "budget (merged_budgets []) ''max_target_http_attempts'' = 24"
  "budget (merged_budgets []) ''max_consecutive_invalid_model_outputs'' = 3"
  by (simp_all add: merged_budgets_def DEFAULT_BUDGETS_def budget_def)

lemma run_is_fail_closed_witness:
  "\<exists>r. run_candidate_on_target failing_env ''candidate'' ''prompt'' quiet_target [] [] = Inr r
     \<and> \<not> pr_counterexample_discovered r \<and> pr_replay_matches_final r \<and> pr_terminal_failure r"
proof -
  let ?st = "start_state ''prompt'' quiet_target" let ?bs = "merged_budgets []"
  have "0 < double 900" by code_simp
  then have "stop_check failing_env ?bs 0 ?st = None"
    by (simp add: stop_check_def default_budgets failing_env_def float_sub_def start_state_def)
  then have "qual_turn failing_env ?bs 0 ?st = Stop (called ?st) True ''PROVIDER_TRANSPORT_FAILURE''"
    by (simp add: qual_turn_def failing_env_def is_provider_failure_def)
  then have l: "qual_loop failing_env ?bs 0 ?st = Inr (called ?st, True, ''PROVIDER_TRANSPORT_FAILURE'')"
    by (simp add: qual_loop.simps [of failing_env ?bs 0 ?st])
  have "qe_clock failing_env 0 = 0" "rn_probes (called ?st) = []" by (simp_all add: failing_env_def start_state_def)
  then have "\<exists>r. run_candidate_on_target failing_env ''candidate'' ''prompt'' quiet_target [] [] = Inr r \<and> pr_terminal_failure r"
    using l by (simp add: run_candidate_on_target_def Let_def quiet_passes assemble_def as_probes_def)
  then obtain r where r: "run_candidate_on_target failing_env ''candidate'' ''prompt'' quiet_target [] [] = Inr r"
    "pr_terminal_failure r" by blast
  from run_is_fail_closed [OF r(1)] r show ?thesis by blast
qed

subsection \<open>An action that is no dictionary\<close>

lemma mapE_raises:
  assumes "x \<in> set xs" "\<exists>e. f x = Inl e" "\<And>y e. y \<in> set xs \<Longrightarrow> f y = Inl e \<Longrightarrow> e = a"
  shows "mapE f xs = Inl a"
  using assms
proof (induction xs)
  case (Cons y ys)
  show ?case
  proof (cases "f y")
    case (Inl e)
    then show ?thesis using Cons.prems(3) [of y e] by simp
  next
    case (Inr z)
    then have x: "x \<in> set ys" using Cons.prems(1,2) by auto
    have "mapE f ys = Inl a" by (rule Cons.IH [OF x Cons.prems(2)]) (use Cons.prems(3) in auto)
    then show ?thesis using Inr by simp
  qed
qed simp

lemma as_probes_raises:
  assumes "(p, v) \<in> set raw" "\<not> is_JObj v"
  shows "as_probes raw = Inl (AttributeError ''items'')"
  unfolding as_probes_def
  by (rule mapE_raises [OF assms(1)]) (use assms(2) in \<open>auto split: json.splits\<close>)

lemma parse_action_dict:
  assumes "parse_action d content = Inr obj" "jget_or obj ''action'' JNull \<noteq> JStr ''STOP''"
  shows "\<exists>body. jget_or obj ''json'' JNull = JObj body"
proof -
  have "is_JObj (jget_or obj ''json'' JNull)"
    using assms by (simp add: parse_action_def split: sum.splits if_splits)
  then show ?thesis by (cases "jget_or obj ''json'' JNull") simp_all
qed

lemma submit_returns: "\<exists>s' rsp. target_submit s (JObj [(''path'', p), (''json'', JObj body)]) = (s', Inr rsp)"
  by (simp add: target_submit_def Let_def request_commit_id_def attr_get_def jget_or_def)

lemma turn_raises:
  assumes "\<And>ms e. qe_transport env ms = Inl e \<Longrightarrow> is_provider_failure e"
  shows "qual_turn env bs started st \<noteq> Raise e"
proof
  assume r: "qual_turn env bs started st = Raise e"
  then obtain content obj where "parse_action (qe_decode_text env) content = Inr obj"
    "jget_or obj ''action'' JNull \<noteq> JStr ''STOP''" "after_request (answered (called st) content) content obj = Inl e"
    using assms by (auto simp: qual_turn_def qual_answer_def split: option.splits sum.splits if_splits)
  moreover from this obtain body where "jget_or obj ''json'' JNull = JObj body" using parse_action_dict by blast
  moreover obtain s' rsp where "target_submit (rn_session (answered (called st) content))
      (JObj [(''path'', jget_or obj ''path'' JNull), (''json'', JObj body)]) = (s', Inr rsp)" using submit_returns by blast
  ultimately show False by (simp add: after_request_def Let_def)
qed

lemma loop_returns:
  assumes "\<And>ms e. qe_transport env ms = Inl e \<Longrightarrow> is_provider_failure e"
  shows "\<exists>r. qual_loop env bs started st = Inr r"
  using assms
proof (induction env bs started st rule: qual_loop.induct)
  case (1 env bs started st)
  show ?case
  proof (cases "qual_turn env bs started st")
    case (Next st')
    then show ?thesis using 1 by (simp add: qual_loop.simps [of env bs started st])
  next
    case (Stop st' terminal reason)
    then show ?thesis by (simp add: qual_loop.simps [of env bs started st])
  next
    case (Raise e)
    then show ?thesis using turn_raises [of env bs started st e] 1 by blast
  qed
qed

lemma turn_keeps_probes:
  assumes "qual_turn env bs started st = Next st'"
  shows "set (rn_probes st) \<subseteq> set (rn_probes st')"
  using assms
proof (cases rule: turn_NextE)
  case (2 content obj)
  then show ?thesis by (auto simp: after_request_def Let_def split: prod.splits sum.splits)
qed simp

lemma turn_stop_probes: "qual_turn env bs started st = Stop st' terminal reason \<Longrightarrow> rn_probes st' = rn_probes st"
  by (erule turn_StopE) simp_all

lemma first_answer:
  assumes "stop_check env bs started st = None" "qe_transport env (rn_messages st) = Inr content"
    and "parse_action (qe_decode_text env) content = Inr obj" "jget_or obj ''action'' JNull \<noteq> JStr ''STOP''"
  shows "\<exists>st' p. qual_turn env bs started st = Next st' \<and> (p, requested_action obj) \<in> set (rn_probes st')"
proof -
  obtain body where b: "jget_or obj ''json'' JNull = JObj body" using parse_action_dict [OF assms(3,4)] by blast
  obtain s' rsp where "target_submit (rn_session st)
      (JObj [(''path'', jget_or obj ''path'' JNull), (''json'', JObj body)]) = (s', Inr rsp)" using submit_returns by blast
  then show ?thesis using assms b by (auto simp: qual_turn_def qual_answer_def after_request_def Let_def)
qed

text \<open>One answer can abort the whole run: when the first answer is an accepted request whose action is a
  non-empty text, number or list, the target takes it for an empty action, but the coverage metrics
  raise on it at the end, whatever happened in between, and the run has no result.\<close>

theorem scalar_action_aborts_run:
  assumes "la_status (audit_pair candidate_id prompt t seed) = PASS"
    and "\<forall>ms e. qe_transport env ms = Inl e \<longrightarrow> is_provider_failure e"
    and "stop_check env (merged_budgets budgets) (qe_clock env 0) (start_state prompt t) = None"
    and "qe_transport env (rn_messages (start_state prompt t)) = Inr content"
    and "parse_action (qe_decode_text env) content = Inr obj" "jget_or obj ''action'' JNull \<noteq> JStr ''STOP''"
    and "\<not> is_JObj (requested_action obj)"
  shows "run_candidate_on_target env candidate_id prompt t seed budgets = Inl (AttributeError ''items'')"
proof -
  let ?bs = "merged_budgets budgets" let ?c = "qe_clock env 0" let ?st = "start_state prompt t"
  obtain st' p where n: "qual_turn env ?bs ?c ?st = Next st'" "(p, requested_action obj) \<in> set (rn_probes st')"
    using first_answer [OF assms(3-6)] by blast
  obtain st'' terminal reason where l: "qual_loop env ?bs ?c st' = Inr (st'', terminal, reason)"
    using loop_returns [of env ?bs ?c st'] assms(2) by auto
  have "(\<lambda>(st, _, _). (p, requested_action obj) \<in> set (rn_probes st)) (st'', terminal, reason)"
    by (rule qual_loop_induct [OF l, where P = "\<lambda>st. (p, requested_action obj) \<in> set (rn_probes st)"])
      (use n(2) turn_keeps_probes turn_stop_probes in \<open>fastforce+\<close>)
  then have bad: "as_probes (rn_probes st'') = Inl (AttributeError ''items'')"
    using as_probes_raises assms(7) by simp
  have "qual_loop env ?bs ?c ?st = Inr (st'', terminal, reason)" using n l by (simp add: qual_loop.simps [of env ?bs ?c ?st])
  then show ?thesis using assms(1) bad by (simp add: run_candidate_on_target_def Let_def assemble_def)
qed

definition scalar_request :: json where
  "scalar_request = JObj [(''action'', JStr ''REQUEST''), (''method'', JStr ''POST''), (''path'', JStr ''/do''),
     (''json'', JObj [(''action'', JStr ''all'')])]"

lemma scalar_action_aborts_run_witness:
  "run_candidate_on_target \<lparr>qe_transport = \<lambda>_. Inr (json_text plain_style scalar_request), qe_clock = \<lambda>_. 0,
      qe_decode_text = \<lambda>_. []\<rparr> ''candidate'' ''prompt'' quiet_target [] [] = Inl (AttributeError ''items'')"
proof -
  let ?env = "\<lparr>qe_transport = \<lambda>_. Inr (json_text plain_style scalar_request), qe_clock = \<lambda>_. 0, qe_decode_text = \<lambda>_. []\<rparr>"
  have pos: "0 < double 900" by code_simp
  have reads: "json_loads (json_text plain_style scalar_request) = Inr scalar_request"
  proof -
    have a: "ascii_doc scalar_request" by (simp add: scalar_request_def ascii_def)
    have "plain_style \<in> {plain_style, sorted_style, indent_style, compact_style}" by simp
    note json_text_reads [OF a this]
    moreover have "reread plain_style scalar_request = scalar_request"
      by (simp add: scalar_request_def ordered_def plain_style_def)
    ultimately show ?thesis by simp
  qed
  have path: "relative_path (JStr ''/do'')" by code_simp
  have p: "parse_action (qe_decode_text ?env) (json_text plain_style scalar_request) = Inr scalar_request"
    unfolding parse_action_def reads sum.case using path by (simp add: scalar_request_def jget_or_def)
  have s: "stop_check ?env (merged_budgets []) (qe_clock ?env 0) (start_state ''prompt'' quiet_target) = None"
    using pos by (simp add: stop_check_def default_budgets float_sub_def start_state_def)
  show ?thesis
    by (rule scalar_action_aborts_run [OF quiet_passes _ s _ p])
      (simp_all add: scalar_request_def requested_action_def jget_or_def Let_def)
qed

end
