(* ===== verification/Sha_Manifest.thy ===== *)
theory Sha_Manifest
  imports Json_Roundtrip
begin

section \<open>The SHA-256 manifest of a directory\<close>

text \<open>
  \<open>write_manifest\<close> and \<open>verify_manifest\<close> of \<open>oat/qualification/evidence_store.py\<close>. A directory is
  its regular files by relative path, in any order and each once; paths are ordered by their components, as
  \<open>pathlib\<close> orders them, and a path has no line-breaking character but perhaps a line feed.
\<close>

type_synonym directory = "(string \<times> string) list"

definition MANIFEST_NAME :: string where "MANIFEST_NAME = ''SHA256SUMS.txt''"

text \<open>The last component of a relative path.\<close>

definition base_name :: "string \<Rightarrow> string" where
  "base_name p = last (split_on (CHR ''/'') p)"

definition listed_files :: "directory \<Rightarrow> directory" where
  "listed_files d = sort_key (\<lambda>f. split_on (CHR ''/'') (fst f)) (filter (\<lambda>f. base_name (fst f) \<noteq> MANIFEST_NAME) d)"

definition manifest_line :: "string \<times> string \<Rightarrow> string" where
  "manifest_line f = sha256_hex (snd f) @ ''  '' @ fst f"

definition manifest_text :: "directory \<Rightarrow> string" where
  "manifest_text d = join [CHR 0x0A] (map manifest_line (listed_files d)) @ [CHR 0x0A]"

definition write_manifest :: "directory \<Rightarrow> directory" where
  "write_manifest d = dict_set MANIFEST_NAME (manifest_text d) d"

text \<open>\<open>line.split("  ", 1)\<close>, with the error of unpacking a line that has no two blanks.\<close>

fun split_blanks :: "string \<Rightarrow> (string \<times> string) option" where
  "split_blanks (c # d # s) =
     (if c = CHR '' '' \<and> d = CHR '' '' then Some ([], s)
      else map_option (\<lambda>(a, b). (c # a, b)) (split_blanks (d # s)))"
| "split_blanks _ = None"

definition parse_manifest :: "string \<Rightarrow> (string, string) dict res" where
  "parse_manifest text =
     bindE (mapE (\<lambda>line. case split_blanks line of
              None \<Rightarrow> Inl (ValueError ''not enough values to unpack'') | Some (expected, rel) \<Rightarrow> Inr (rel, expected))
            (filter (\<lambda>line. strip_ws line \<noteq> []) (split_on (CHR 0x0A) text)))
       (\<lambda>ls. Inr (foldl (\<lambda>d (rel, expected). dict_set rel expected d) [] ls))"

record manifest_report =
  mr_pass :: bool
  mr_checked :: nat
  mr_mismatched :: "string list"

definition verify_manifest :: "directory \<Rightarrow> manifest_report res" where
  "verify_manifest d =
     (case dict_get d MANIFEST_NAME of
        None \<Rightarrow> Inr \<lparr>mr_pass = False, mr_checked = 0, mr_mismatched = []\<rparr>
      | Some text \<Rightarrow>
          bindE (parse_manifest text) (\<lambda>listed.
            (let present = map fst (filter (\<lambda>f. base_name (fst f) \<noteq> MANIFEST_NAME) d);
                 wrong = map fst (filter (\<lambda>(rel, expected). case dict_get d rel of
                    None \<Rightarrow> True | Some content \<Rightarrow> sha256_hex content \<noteq> expected) listed);
                 mismatched = wrong @ filter (\<lambda>p. p \<notin> fst ` set listed) present
             in Inr \<lparr>mr_pass = (mismatched = []), mr_checked = length listed, mr_mismatched = sorted_set mismatched\<rparr>)))"

subsection \<open>Reading a manifest back\<close>

text \<open>A name a line can carry: it has no line break.\<close>

definition plain_names :: "directory \<Rightarrow> bool" where
  "plain_names d \<longleftrightarrow> (\<forall>f \<in> set d. CHR 0x0A \<notin> set (fst f))"

lemma hex_chars: "c \<in> set (sha256_hex s) \<Longrightarrow> c \<noteq> CHR '' '' \<and> c \<noteq> CHR 0x0A"
  using sha256_hex_is_hex [of c s] by (auto simp: is_hex_def is_digit_def)

lemma split_blanks_append: "CHR '' '' \<notin> set a \<Longrightarrow> split_blanks (a @ ''  '' @ b) = Some (a, b)"
proof (induction a)
  case (Cons c a)
  then show ?case by (cases a) auto
qed simp

lemma split_manifest_line: "split_blanks (manifest_line f) = Some (sha256_hex (snd f), fst f)"
  unfolding manifest_line_def using hex_chars by (intro split_blanks_append) blast

lemma split_lines:
  "ls \<noteq> [] \<Longrightarrow> \<forall>l \<in> set ls. CHR 0x0A \<notin> set l \<Longrightarrow> split_on (CHR 0x0A) (join [CHR 0x0A] ls @ [CHR 0x0A]) = ls @ [[]]"
proof (induction ls rule: induct_list012)
  case (2 l)
  then show ?case using split_on_line [of "CHR 0x0A" l "[]"] by simp
next
  case (3 l m ls)
  then have "split_on (CHR 0x0A) (join [CHR 0x0A] (m # ls) @ [CHR 0x0A]) = (m # ls) @ [[]]" by simp
  then show ?case using split_on_line [of "CHR 0x0A" l] 3 by simp
qed simp

lemma strip_ws_nonempty: "x \<in> set s \<Longrightarrow> \<not> is_space x \<Longrightarrow> strip_ws s \<noteq> []"
proof
  assume x: "x \<in> set s" "\<not> is_space x" and e: "strip_ws s = []"
  then have "dropWhile is_space (rev (dropWhile is_space s)) = []" by (simp add: strip_ws_def)
  then have "\<forall>y \<in> set (dropWhile is_space s). is_space y" by (simp add: dropWhile_eq_Nil_conv)
  moreover have "x \<in> set (dropWhile is_space s)" using x by (metis Un_iff set_append set_takeWhileD takeWhile_dropWhile_id)
  ultimately show False using x by blast
qed

lemma manifest_line_nonblank: "strip_ws (manifest_line f) \<noteq> []"
proof -
  obtain c where c: "c \<in> set (sha256_hex (snd f))" using length_sha256_hex [of "snd f"] by (cases "sha256_hex (snd f)") auto
  then have "is_hex c" by (rule sha256_hex_is_hex)
  then have "\<not> is_space c" by (auto simp: is_hex_def is_digit_def is_space_def Let_def)
  then show ?thesis using c by (intro strip_ws_nonempty [of c]) (simp_all add: manifest_line_def)
qed

lemma listed_set: "set (listed_files d) = {f \<in> set d. base_name (fst f) \<noteq> MANIFEST_NAME}"
  by (simp add: listed_files_def)

lemma listed_distinct: "distinct (map fst d) \<Longrightarrow> distinct (map fst (listed_files d))"
  by (auto simp: distinct_map listed_files_def intro: inj_on_subset)

lemma listed_names: "fst ` set (listed_files d) = set (map fst (filter (\<lambda>f. base_name (fst f) \<noteq> MANIFEST_NAME) d))"
  by (simp add: listed_files_def)

lemma same_digest_iff: "x = y \<or> sha256_collision x y \<longleftrightarrow> sha256_hex x = sha256_hex y"
  by (auto simp: sha256_collision_def)

lemma parse_manifest_text:
  assumes "distinct (map fst d)" "plain_names d"
  shows "parse_manifest (manifest_text d) = Inr (map (\<lambda>f. (fst f, sha256_hex (snd f))) (listed_files d))"
proof -
  let ?ls = "map manifest_line (listed_files d)"
  have "CHR 0x0A \<notin> set (manifest_line f)" if "f \<in> set (listed_files d)" for f
  proof -
    have "CHR 0x0A \<notin> set (fst f)" using that assms(2) by (simp add: listed_set plain_names_def)
    moreover have "CHR 0x0A \<notin> set (sha256_hex (snd f))" using hex_chars by blast
    ultimately show ?thesis by (simp add: manifest_line_def)
  qed
  then have plain: "\<forall>l \<in> set ?ls. CHR 0x0A \<notin> set l" by simp
  have full: "filter (\<lambda>l. strip_ws l \<noteq> []) ?ls = ?ls" by (intro filter_True) (simp add: manifest_line_nonblank)
  have lines: "filter (\<lambda>l. strip_ws l \<noteq> []) (split_on (CHR 0x0A) (manifest_text d)) = ?ls"
  proof (cases "?ls = []")
    case True
    then show ?thesis by (simp add: manifest_text_def strip_ws_def)
  next
    case False
    have "split_on (CHR 0x0A) (manifest_text d) = ?ls @ [[]]"
      unfolding manifest_text_def by (rule split_lines [OF False plain])
    then show ?thesis using full by (simp add: strip_ws_def)
  qed
  have "mapE (\<lambda>line. case split_blanks line of
        None \<Rightarrow> Inl (ValueError ''not enough values to unpack'') | Some (expected, rel) \<Rightarrow> Inr (rel, expected)) (map manifest_line fs)
      = Inr (map (\<lambda>f. (fst f, sha256_hex (snd f))) fs)" for fs
    by (induction fs) (simp_all add: split_manifest_line)
  then have "parse_manifest (manifest_text d)
      = Inr (foldl (\<lambda>d (rel, expected). dict_set rel expected d) [] (map (\<lambda>f. (fst f, sha256_hex (snd f))) (listed_files d)))"
    unfolding parse_manifest_def lines by simp
  also have "foldl (\<lambda>d (rel, expected). dict_set rel expected d) [] (map (\<lambda>f. (fst f, sha256_hex (snd f))) (listed_files d))
      = [] @ map (\<lambda>f. (fst f, sha256_hex (snd f))) (listed_files d)"
    using listed_distinct [OF assms(1)] by (intro foldl_dict_set) (simp add: comp_def)
  finally show ?thesis by simp
qed

lemma verify_pass_iff:
  assumes "distinct (map fst d)" "plain_names d" "dict_get d' MANIFEST_NAME = Some (manifest_text d)"
  shows "\<exists>rep. verify_manifest d' = Inr rep \<and> mr_checked rep = length (listed_files d)
    \<and> (mr_pass rep \<longleftrightarrow> mr_mismatched rep = [])
    \<and> (mr_pass rep \<longleftrightarrow>
        (\<forall>f \<in> set (listed_files d). \<exists>content. dict_get d' (fst f) = Some content \<and> sha256_hex content = sha256_hex (snd f))
        \<and> fst ` set (listed_files d') \<subseteq> fst ` set (listed_files d))"
proof -
  let ?listed = "map (\<lambda>f. (fst f, sha256_hex (snd f))) (listed_files d)"
  have keys: "fst ` set ?listed = fst ` set (listed_files d)" by force
  have wrong: "filter (\<lambda>(rel, expected). case dict_get d' rel of None \<Rightarrow> True | Some content \<Rightarrow> sha256_hex content \<noteq> expected) ?listed = []
      \<longleftrightarrow> (\<forall>f \<in> set (listed_files d). \<exists>content. dict_get d' (fst f) = Some content \<and> sha256_hex content = sha256_hex (snd f))"
    by (auto simp: filter_empty_conv split: option.splits)
  have extra: "filter (\<lambda>p. p \<notin> fst ` set ?listed) (map fst (filter (\<lambda>f. base_name (fst f) \<noteq> MANIFEST_NAME) d')) = []
      \<longleftrightarrow> fst ` set (listed_files d') \<subseteq> fst ` set (listed_files d)"
    unfolding keys listed_names [of d'] filter_empty_conv subset_iff by blast
  show ?thesis
    using assms(3) parse_manifest_text [OF assms(1,2)] wrong extra by (simp add: verify_manifest_def Let_def)
qed

lemma listed_subset_iff:
  "fst ` set (listed_files d') \<subseteq> fst ` set (listed_files d)
    \<longleftrightarrow> (\<forall>f \<in> set d'. base_name (fst f) \<noteq> MANIFEST_NAME \<longrightarrow> fst f \<in> fst ` set d)"
proof -
  have "fst f \<in> fst ` set (listed_files d) \<longleftrightarrow> base_name (fst f) \<noteq> MANIFEST_NAME \<and> fst f \<in> fst ` set d" for f :: "string \<times> string"
    unfolding listed_set by force
  then show ?thesis unfolding image_subset_iff listed_set [of d'] by blast
qed

lemma write_manifest_get: "dict_get (write_manifest d) MANIFEST_NAME = Some (manifest_text d)"
  by (simp add: write_manifest_def)

lemma sealed_directory_verifies:
  assumes "distinct (map fst d)" "plain_names d"
  shows "\<exists>rep. verify_manifest (write_manifest d) = Inr rep \<and> mr_pass rep"
proof -
  have base: "base_name MANIFEST_NAME = MANIFEST_NAME" by (simp add: base_name_def MANIFEST_NAME_def)
  have "listed_files (write_manifest d) = listed_files d"
  proof -
    have "filter (\<lambda>f. base_name (fst f) \<noteq> MANIFEST_NAME) (AList.update MANIFEST_NAME x d)
        = filter (\<lambda>f. base_name (fst f) \<noteq> MANIFEST_NAME) d" for x
      using base by (induction d) auto
    then show ?thesis by (simp add: listed_files_def write_manifest_def dict_set_def)
  qed
  moreover have "\<exists>content. dict_get (write_manifest d) (fst f) = Some content \<and> sha256_hex content = sha256_hex (snd f)"
    if "f \<in> set (listed_files d)" for f
  proof -
    have "fst f \<noteq> MANIFEST_NAME" "f \<in> set d" using that base by (auto simp: listed_set)
    then have "dict_get (write_manifest d) (fst f) = dict_get d (fst f)" by (simp add: write_manifest_def)
    also have "\<dots> = Some (snd f)" using assms(1) \<open>f \<in> set d\<close> by (simp add: dict_get_def)
    finally show ?thesis by simp
  qed
  ultimately show ?thesis using verify_pass_iff [OF assms write_manifest_get] by auto
qed

text \<open>A sealed directory shows every change: the manifest of one directory verifies on another, which holds
  the same manifest, exactly when every file it covers is there with the same bytes, or with bytes that
  collide under SHA-256, and no other file is there; and a directory that has just been sealed verifies.\<close>

theorem manifest_detects_change:
  assumes "distinct (map fst d)" "plain_names d" "dict_get d' MANIFEST_NAME = Some (manifest_text d)"
  shows "((\<exists>rep. verify_manifest d' = Inr rep \<and> mr_pass rep) \<longleftrightarrow>
      (\<forall>f \<in> set d. base_name (fst f) \<noteq> MANIFEST_NAME \<longrightarrow> (\<exists>content. dict_get d' (fst f) = Some content
         \<and> (content = snd f \<or> sha256_collision content (snd f))))
      \<and> (\<forall>f \<in> set d'. base_name (fst f) \<noteq> MANIFEST_NAME \<longrightarrow> fst f \<in> fst ` set d))
    \<and> (\<exists>rep. verify_manifest (write_manifest d) = Inr rep \<and> mr_pass rep)"
proof -
  have "(\<forall>f \<in> set (listed_files d). \<exists>content. dict_get d' (fst f) = Some content \<and> sha256_hex content = sha256_hex (snd f))
      \<longleftrightarrow> (\<forall>f \<in> set d. base_name (fst f) \<noteq> MANIFEST_NAME \<longrightarrow> (\<exists>content. dict_get d' (fst f) = Some content
         \<and> (content = snd f \<or> sha256_collision content (snd f))))"
    unfolding listed_set same_digest_iff by blast
  moreover have "fst ` set (listed_files d') \<subseteq> fst ` set (listed_files d)
      \<longleftrightarrow> (\<forall>f \<in> set d'. base_name (fst f) \<noteq> MANIFEST_NAME \<longrightarrow> fst f \<in> fst ` set d)"
    by (rule listed_subset_iff)
  ultimately show ?thesis using verify_pass_iff [OF assms] sealed_directory_verifies [OF assms(1,2)] by auto
qed

lemma manifest_detects_change_witness:
  "(\<exists>rep. verify_manifest (write_manifest [(''a.json'', ''1'')]) = Inr rep \<and> mr_pass rep)
   \<and> \<not> (\<exists>rep. verify_manifest (dict_set ''b.json'' ''2'' (write_manifest [(''a.json'', ''1'')])) = Inr rep \<and> mr_pass rep)"
proof -
  let ?d = "[(''a.json'', ''1'')]"
  have ok: "distinct (map fst ?d)" "plain_names ?d" by (simp_all add: plain_names_def)
  have m: "dict_get (dict_set ''b.json'' ''2'' (write_manifest ?d)) MANIFEST_NAME = Some (manifest_text ?d)"
    by (simp add: write_manifest_get) (simp add: MANIFEST_NAME_def)
  have "(''b.json'', ''2'') \<in> set (dict_set ''b.json'' ''2'' (write_manifest ?d))"
    by (rule dict_get_SomeD) simp
  moreover have "base_name ''b.json'' \<noteq> MANIFEST_NAME" by (simp add: base_name_def MANIFEST_NAME_def)
  ultimately have "\<not> (\<exists>rep. verify_manifest (dict_set ''b.json'' ''2'' (write_manifest ?d)) = Inr rep \<and> mr_pass rep)"
    using manifest_detects_change [OF ok m] by force
  with sealed_directory_verifies [OF ok] show ?thesis by blast
qed

end
