(* ===== verification/Float_Docs.thy ===== *)
theory Float_Docs
  imports Json_Text Py_Float
begin

section \<open>Documents with floats\<close>

text \<open>
  What \<open>json.dumps(v, sort_keys=True, indent=2)\<close> writes for a dictionary some of whose values are
  floats. A float is written as the shortest decimal that is read back as the same double.
\<close>

definition ten_power :: "int \<Rightarrow> rat" where
  "ten_power e = (if 0 \<le> e then 10 ^ nat e else 1 / 10 ^ nat (- e))"

text \<open>The position of the decimal point: the first power of ten above a positive double.\<close>

definition decimal_point :: "rat \<Rightarrow> int" where
  "decimal_point x = (case find (\<lambda>e. x < ten_power e) (map (\<lambda>i. int i - 325) [0..<640]) of Some e \<Rightarrow> e | None \<Rightarrow> 315)"

text \<open>The integers that may stand for a number at a precision, the nearest one first.\<close>

definition neighbours :: "rat \<Rightarrow> int list" where
  "neighbours x = [round_even x, \<lfloor>x\<rfloor>, \<lfloor>x\<rfloor> + 1]"

definition shortest :: "rat \<Rightarrow> (int \<times> int) option" where
  "shortest x = (let e = decimal_point x in
     find (\<lambda>(m, q). double (of_int m * ten_power q) = x)
       (concat (map (\<lambda>p. let q = e - int p in map (\<lambda>m. (m, q)) (neighbours (x / ten_power q))) [1..<18])))"

definition strip_zeros :: "string \<Rightarrow> string" where
  "strip_zeros s = rev (dropWhile (\<lambda>c. c = CHR ''0'') (rev s))"

definition two_digits_at_least :: "int \<Rightarrow> string" where
  "two_digits_at_least n = (if n < 10 then CHR ''0'' # str_of_int n else str_of_int n)"

definition positional :: "string \<Rightarrow> int \<Rightarrow> string" where
  "positional ds pt =
     (if pt \<le> - 4 \<or> 16 < pt then
        take 1 ds @ (if length ds = 1 then [] else CHR ''.'' # drop 1 ds) @ ''e'' @
        (if pt - 1 < 0 then ''-'' else ''+'') @ two_digits_at_least \<bar>pt - 1\<bar>
      else if pt \<le> 0 then ''0.'' @ replicate (nat (- pt)) (CHR ''0'') @ ds
      else if int (length ds) \<le> pt then ds @ replicate (nat pt - length ds) (CHR ''0'') @ ''.0''
      else take (nat pt) ds @ ''.'' @ drop (nat pt) ds)"

text \<open>\<open>repr(x)\<close> of a finite double.\<close>

definition float_repr :: "rat \<Rightarrow> string" where
  "float_repr x =
     (if x = 0 then ''0.0''
      else (if x < 0 then ''-'' else []) @
        (case shortest \<bar>x\<bar> of
           Some (m, q) \<Rightarrow> positional (strip_zeros (str_of_int m)) (int (length (str_of_int m)) + q)
         | None \<Rightarrow> []))"

datatype fdoc = Plain json | Number rat | Fields "(string \<times> fdoc) list"

fun fdoc_text :: "nat \<Rightarrow> fdoc \<Rightarrow> string" where
  "fdoc_text n (Plain v) = emit indent_style n v"
| "fdoc_text n (Number x) = float_repr x"
| "fdoc_text n (Fields kvs) = bracketed indent_style n (CHR ''{'') (CHR ''}'')
     (map (\<lambda>(k, e). ascii_str k @ js_key indent_style @ e)
       (ordered indent_style (map (\<lambda>(k, v). (k, fdoc_text (Suc n) v)) kvs)))"

end
