(* ===== verification/Evidence_Store.thy ===== *)
theory Evidence_Store
  imports Qual_Runner Sha_Manifest Float_Docs
begin

section \<open>The evidence of a pair\<close>

text \<open>
  \<open>oat/qualification/evidence_store.py\<close> on the results of the runner. The pair's directory holds
  texts, and three documents with floats, which are kept as the values that were written (a double
  is read back as itself) and hashed as the text that stands for them. The four files replay reads
  are those of \<open>persist_and_verify\<close>.
\<close>

record published =
  pv_binding_dimensions_varied :: "string list"
  pv_calls_to_first_counterexample :: "int option"
  pv_candidate_id :: string
  pv_counterexample_discovered :: bool
  pv_duplicate_probe_rate :: rat
  pv_evidence_integrity :: string
  pv_leak_audit :: string
  pv_provider_calls :: int
  pv_replay_matches_final :: bool
  pv_route_families_probed :: "string list"
  pv_stop_reason :: string
  pv_target_attempts :: int
  pv_target_id :: string
  pv_terminal_failure :: bool
  pv_unique_hypothesis_rate :: rat

definition published_view :: "pair_result \<Rightarrow> string \<Rightarrow> bool \<Rightarrow> published" where
  "published_view r integrity replay = \<lparr>
     pv_binding_dimensions_varied = pr_binding_dimensions_varied r,
     pv_calls_to_first_counterexample = pr_calls_to_first_counterexample r,
     pv_candidate_id = pr_candidate_id r, pv_counterexample_discovered = pr_counterexample_discovered r,
     pv_duplicate_probe_rate = pr_duplicate_probe_rate r, pv_evidence_integrity = integrity,
     pv_leak_audit = pr_leak_audit r, pv_provider_calls = pr_provider_calls r,
     pv_replay_matches_final = replay, pv_route_families_probed = pr_route_families_probed r,
     pv_stop_reason = pr_stop_reason r, pv_target_attempts = pr_target_attempts r,
     pv_target_id = pr_target_id r, pv_terminal_failure = pr_terminal_failure r,
     pv_unique_hypothesis_rate = pr_unique_hypothesis_rate r\<rparr>"

text \<open>What replay computes anew, and its report.\<close>

record recomputed =
  rc_binding_dimensions_varied :: "string list"
  rc_calls_to_first_counterexample :: "int option"
  rc_counterexample_discovered :: bool
  rc_duplicate_probe_rate :: rat
  rc_leak_audit :: json
  rc_provider_calls :: int
  rc_route_families_probed :: "string list"
  rc_target_attempts :: int
  rc_terminal_failure :: bool
  rc_unique_hypothesis_rate :: rat

definition stored_view :: "published \<Rightarrow> recomputed" where
  "stored_view p = \<lparr>
     rc_binding_dimensions_varied = pv_binding_dimensions_varied p,
     rc_calls_to_first_counterexample = pv_calls_to_first_counterexample p,
     rc_counterexample_discovered = pv_counterexample_discovered p,
     rc_duplicate_probe_rate = pv_duplicate_probe_rate p, rc_leak_audit = JStr (pv_leak_audit p),
     rc_provider_calls = pv_provider_calls p, rc_route_families_probed = pv_route_families_probed p,
     rc_target_attempts = pv_target_attempts p, rc_terminal_failure = pv_terminal_failure p,
     rc_unique_hypothesis_rate = pv_unique_hypothesis_rate p\<rparr>"

definition matches_by_field :: "recomputed \<Rightarrow> recomputed \<Rightarrow> (string \<times> bool) list" where
  "matches_by_field a b = [
     (''binding_dimensions_varied'', rc_binding_dimensions_varied a = rc_binding_dimensions_varied b),
     (''calls_to_first_counterexample'', rc_calls_to_first_counterexample a = rc_calls_to_first_counterexample b),
     (''counterexample_discovered'', rc_counterexample_discovered a = rc_counterexample_discovered b),
     (''duplicate_probe_rate'', rc_duplicate_probe_rate a = rc_duplicate_probe_rate b),
     (''leak_audit'', rc_leak_audit a = rc_leak_audit b),
     (''provider_calls'', rc_provider_calls a = rc_provider_calls b),
     (''route_families_probed'', rc_route_families_probed a = rc_route_families_probed b),
     (''target_attempts'', rc_target_attempts a = rc_target_attempts b),
     (''terminal_failure'', rc_terminal_failure a = rc_terminal_failure b),
     (''unique_hypothesis_rate'', rc_unique_hypothesis_rate a = rc_unique_hypothesis_rate b)]"

record replay_report =
  rp_matches :: bool
  rp_matches_by_field :: "(string \<times> bool) list"
  rp_recomputed :: recomputed
  rp_stored :: recomputed

subsection \<open>Files\<close>

definition JOptInt :: "int option \<Rightarrow> json" where
  "JOptInt i = (case i of None \<Rightarrow> JNull | Some n \<Rightarrow> JInt n)"

definition facts_doc :: "runtime_facts \<Rightarrow> fdoc" where
  "facts_doc f = Fields [(''candidate_id'', Plain (JStr (rf_candidate_id f))),
     (''exposed_dimensions'', Plain (JStrs (rf_exposed_dimensions f))),
     (''provider_calls'', Plain (JInt (rf_provider_calls f))), (''stop_reason'', Plain (JStr (rf_stop_reason f))),
     (''target_attempts'', Plain (JInt (rf_target_attempts f))), (''target_id'', Plain (JStr (rf_target_id f))),
     (''terminal_failure'', Plain (JBool (rf_terminal_failure f))),
     (''wall_clock_seconds'', Number (rf_wall_clock_seconds f)),
     (''wall_clock_semantics'', Plain (JStr WALL_CLOCK_SEMANTICS))]"

definition recomputed_doc :: "recomputed \<Rightarrow> (string \<times> fdoc) list" where
  "recomputed_doc c = [(''binding_dimensions_varied'', Plain (JStrs (rc_binding_dimensions_varied c))),
     (''calls_to_first_counterexample'', Plain (JOptInt (rc_calls_to_first_counterexample c))),
     (''counterexample_discovered'', Plain (JBool (rc_counterexample_discovered c))),
     (''duplicate_probe_rate'', Number (rc_duplicate_probe_rate c)), (''leak_audit'', Plain (rc_leak_audit c)),
     (''provider_calls'', Plain (JInt (rc_provider_calls c))),
     (''route_families_probed'', Plain (JStrs (rc_route_families_probed c))),
     (''target_attempts'', Plain (JInt (rc_target_attempts c))),
     (''terminal_failure'', Plain (JBool (rc_terminal_failure c))),
     (''unique_hypothesis_rate'', Number (rc_unique_hypothesis_rate c))]"

definition published_doc :: "published \<Rightarrow> fdoc" where
  "published_doc p = Fields (recomputed_doc (stored_view p) @
     [(''candidate_id'', Plain (JStr (pv_candidate_id p))), (''evidence_integrity'', Plain (JStr (pv_evidence_integrity p))),
      (''replay_matches_final'', Plain (JBool (pv_replay_matches_final p))),
      (''stop_reason'', Plain (JStr (pv_stop_reason p))), (''target_id'', Plain (JStr (pv_target_id p)))])"

definition replay_doc :: "replay_report \<Rightarrow> fdoc" where
  "replay_doc rep = Fields [(''artifact'', Plain (JStr ''QUALIFICATION_REPLAY'')),
     (''matches'', Plain (JBool (rp_matches rep))),
     (''matches_by_field'', Plain (JObj (map (\<lambda>(k, b). (k, JBool b)) (rp_matches_by_field rep)))),
     (''recomputed'', Fields (recomputed_doc (rp_recomputed rep))), (''stored'', Fields (recomputed_doc (rp_stored rep)))]"

datatype stored_file = Text string | FactsDoc runtime_facts | ResultDoc published | ReplayDoc replay_report

type_synonym evidence_dir = "(string \<times> stored_file) list"

fun file_bytes :: "stored_file \<Rightarrow> string" where
  "file_bytes (Text s) = s"
| "file_bytes (FactsDoc f) = fdoc_text 0 (facts_doc f) @ [CHR 0x0A]"
| "file_bytes (ResultDoc p) = fdoc_text 0 (published_doc p) @ [CHR 0x0A]"
| "file_bytes (ReplayDoc r) = fdoc_text 0 (replay_doc r) @ [CHR 0x0A]"

definition dir_bytes :: "evidence_dir \<Rightarrow> directory" where
  "dir_bytes d = map (\<lambda>(n, f). (n, file_bytes f)) d"

definition json_file :: "json \<Rightarrow> stored_file" where
  "json_file v = Text (json_text indent_style v @ [CHR 0x0A])"

definition jsonl_file :: "json list \<Rightarrow> stored_file" where
  "jsonl_file rows = Text (concat (map (\<lambda>row. json_text sorted_style row @ [CHR 0x0A]) rows))"

definition read_text :: "evidence_dir \<Rightarrow> string \<Rightarrow> string res" where
  "read_text d n = (case dict_get d n of Some f \<Rightarrow> Inr (file_bytes f) | None \<Rightarrow> Inl (FileNotFoundError n))"

definition read_jsonl :: "evidence_dir \<Rightarrow> string \<Rightarrow> json list res" where
  "read_jsonl d n = bindE (read_text d n) (\<lambda>text.
     mapE (\<lambda>line. bindE (json_loads line) (\<lambda>v.
         if is_JObj v then Inr v else Inl (ValueError (''JSONL row is not an object: '' @ n))))
       (filter (\<lambda>line. strip_ws line \<noteq> []) (split_on (CHR 0x0A) text)))"

definition read_facts :: "evidence_dir \<Rightarrow> runtime_facts res" where
  "read_facts d = (case dict_get d ''runtime-facts.json'' of
     Some (FactsDoc f) \<Rightarrow> Inr f | _ \<Rightarrow> Inl (FileNotFoundError ''runtime-facts.json''))"

definition read_result :: "evidence_dir \<Rightarrow> published res" where
  "read_result d = (case dict_get d ''final-result.json'' of
     Some (ResultDoc p) \<Rightarrow> Inr p | _ \<Rightarrow> Inl (FileNotFoundError ''final-result.json''))"

subsection \<open>Replay\<close>

definition row_probe :: "json \<Rightarrow> probe" where
  "row_probe row = \<lparr>pb_path = py_str (jget_or row ''path'' (JStr [])),
     pb_action = (case jget_or row ''action'' (JObj []) of JObj a \<Rightarrow> a | _ \<Rightarrow> [])\<rparr>"

text \<open>The elements a loop over a JSON value visits.\<close>

definition elements :: "json \<Rightarrow> json list res" where
  "elements v = (case v of JList xs \<Rightarrow> Inr xs | JTuple xs \<Rightarrow> Inr xs | JObj kvs \<Rightarrow> Inr (map (JStr \<circ> fst) kvs)
     | JStr s \<Rightarrow> Inr (map (\<lambda>c. JStr [c]) s) | _ \<Rightarrow> Inl (TypeError ''not iterable''))"

definition unauthorized_commit_ids :: "json \<Rightarrow> string list res" where
  "unauthorized_commit_ids evidence = bindE (elements evidence) (\<lambda>cs.
     if \<not> list_all is_JObj cs then Inl (AttributeError ''get'')
     else Inr (remdups (map (\<lambda>c. py_str (jget_or c ''commit_id'' JNull))
            (filter (\<lambda>c. unauthorized c \<and> jget_or c ''commit_id'' JNull \<noteq> JNull) cs))))"

fun calls_to_first :: "string list \<Rightarrow> json list \<Rightarrow> int option res" where
  "calls_to_first ids [] = Inr None"
| "calls_to_first ids (row # rows) =
     (let commit_id = jget_or row ''commit_id'' JNull in
      if commit_id \<noteq> JNull \<and> py_str commit_id \<in> set ids then
        bindE (int_field row ''provider_call'') (\<lambda>n. Inr (Some n))
      else calls_to_first ids rows)"

definition recompute :: "runtime_facts \<Rightarrow> json \<Rightarrow> json \<Rightarrow> json list \<Rightarrow> recomputed res" where
  "recompute facts evidence audit attempts =
     (let probes = map row_probe attempts; terminal = rf_terminal_failure facts; n = int (length attempts) in
      bindE (unauthorized_commit_ids evidence) (\<lambda>ids.
        (let discovered = (ids \<noteq> [] \<and> \<not> terminal \<and> 0 < n) in
         bindE (if discovered then calls_to_first ids attempts else Inr None) (\<lambda>first.
         bindE (attr_get audit ''status'' JNull) (\<lambda>status. Inr \<lparr>
           rc_binding_dimensions_varied = sort (materially_varied_dimensions probes (rf_exposed_dimensions facts)),
           rc_calls_to_first_counterexample = first, rc_counterexample_discovered = discovered,
           rc_duplicate_probe_rate = duplicate_probe_rate probes, rc_leak_audit = status,
           rc_provider_calls = rf_provider_calls facts,
           rc_route_families_probed = sort (route_families_probed probes), rc_target_attempts = n,
           rc_terminal_failure = terminal, rc_unique_hypothesis_rate = unique_hypothesis_rate probes\<rparr>)))))"

definition replay_from_disk :: "evidence_dir \<Rightarrow> replay_report res" where
  "replay_from_disk d =
     bindE (read_facts d) (\<lambda>facts.
     bindE (bindE (read_text d ''adjudicator-evidence.json'') json_loads) (\<lambda>evidence.
     bindE (bindE (read_text d ''leak-audit.json'') json_loads) (\<lambda>audit.
     bindE (read_jsonl d ''attempts.jsonl'') (\<lambda>attempts.
     bindE (read_result d) (\<lambda>stored.
     bindE (recompute facts evidence audit attempts) (\<lambda>recomputed.
       (let matches = matches_by_field recomputed (stored_view stored)
        in Inr \<lparr>rp_matches = list_all snd matches, rp_matches_by_field = matches,
                rp_recomputed = recomputed, rp_stored = stored_view stored\<rparr>)))))))"

subsection \<open>Persisting a result\<close>

definition EVIDENCE_FILES :: "string list" where
  "EVIDENCE_FILES = [''transcript.jsonl'', ''attempts.jsonl'', ''target-evidence.json'',
     ''adjudicator-evidence.json'', ''leak-audit.json'', ''runtime-facts.json'']"

definition write_evidence :: "pair_result \<Rightarrow> evidence_dir \<Rightarrow> evidence_dir" where
  "write_evidence r d = foldl (\<lambda>d (n, f). dict_set n f d) d
     [(''transcript.jsonl'', jsonl_file (pr_transcript r)), (''attempts.jsonl'', jsonl_file (pr_attempts_seq r)),
      (''target-evidence.json'', json_file (pr_target_evidence r)),
      (''adjudicator-evidence.json'', json_file (JList (pr_adjudicator_evidence r))),
      (''leak-audit.json'', json_file (leak_audit_dict (pr_leak_audit_artifact r))),
      (''runtime-facts.json'', FactsDoc (pr_runtime_facts r))]"

definition core_manifest :: "evidence_dir \<Rightarrow> (string \<times> string) list res" where
  "core_manifest d = mapE (\<lambda>n. bindE (read_text d n) (\<lambda>text. Inr (n, sha256_hex text))) EVIDENCE_FILES"

definition verify_core :: "evidence_dir \<Rightarrow> (string \<times> string) list \<Rightarrow> string" where
  "verify_core d manifest =
     (if list_all (\<lambda>(n, digest). case dict_get d n of None \<Rightarrow> False | Some f \<Rightarrow> sha256_hex (file_bytes f) = digest) manifest
      then PASS else FAIL)"

definition seal :: "evidence_dir \<Rightarrow> evidence_dir" where
  "seal d = dict_set MANIFEST_NAME (Text (manifest_text (dir_bytes d))) d"

definition persist_and_verify :: "pair_result \<Rightarrow> evidence_dir \<Rightarrow> (evidence_dir \<times> published) res" where
  "persist_and_verify r d0 =
     (let d = write_evidence r d0 in
      bindE (core_manifest d) (\<lambda>manifest.
        (let core = verify_core d manifest;
             d = dict_set ''final-result.json'' (ResultDoc (published_view r NOT_VERIFIED False)) d in
         bindE (replay_from_disk d) (\<lambda>replay.
           (let d = seal (dict_set ''replay-result.json'' (ReplayDoc replay) d) in
            bindE (verify_manifest (dir_bytes d)) (\<lambda>sealed.
              (let integrity = (if core = PASS \<and> mr_pass sealed then PASS else FAIL);
                   view = published_view r integrity (rp_matches replay);
                   d = seal (dict_set ''final-result.json'' (ResultDoc view) d) in
               bindE (verify_manifest (dir_bytes d)) (\<lambda>final_sealed.
                 if \<not> mr_pass final_sealed then
                   Inl (RuntimeError ''final qualification evidence manifest failed verification'')
                 else Inr (d, view)))))))))"

end
