(* ===== verification/Evidence_Replay.thy ===== *)
theory Evidence_Replay
  imports Evidence_Store
begin

section \<open>What replay reads back\<close>

text \<open>
  The files of a pair read back as the documents that were written, and replay recomputes from
  them what the runner computed; all but the call of the first counterexample, which replay finds
  by the commit identifiers the candidate chose.
\<close>

subsection \<open>Lines of JSON\<close>

lemma emit_line: "ascii_doc v \<Longrightarrow> CHR 0x0A \<notin> set (emit sorted_style n v)"
  using emit_printable [of v sorted_style "CHR 0x0A" n] by (auto simp: printable_def)

definition good_row :: "json \<Rightarrow> bool" where
  "good_row row \<longleftrightarrow> is_JObj row \<and> ascii_doc row"

lemma row_nonblank: "good_row row \<Longrightarrow> strip_ws (json_text sorted_style row) \<noteq> []"
proof -
  assume "good_row row"
  then obtain kvs where "row = JObj kvs" by (cases row) (simp_all add: good_row_def)
  then have "CHR ''{'' \<in> set (json_text sorted_style row)" by (simp add: json_text_def bracketed_def)
  moreover have "\<not> is_space (CHR ''{'')" by (simp add: is_space_def Let_def)
  ultimately show ?thesis by (rule strip_ws_nonempty)
qed

lemma split_jsonl:
  "list_all good_row rows \<Longrightarrow> split_on (CHR 0x0A) (concat (map (\<lambda>row. json_text sorted_style row @ [CHR 0x0A]) rows))
     = map (json_text sorted_style) rows @ [[]]"
proof (induction rows)
  case (Cons row rows)
  then have "CHR 0x0A \<notin> set (json_text sorted_style row)" by (simp add: good_row_def json_text_def emit_line)
  then show ?case using Cons by (simp add: split_on_line)
qed simp

lemma read_jsonl_file:
  assumes "dict_get d n = Some (jsonl_file rows)" "list_all good_row rows"
  shows "read_jsonl d n = Inr (map (reread sorted_style) rows)"
proof -
  let ?f = "\<lambda>line. bindE (json_loads line) (\<lambda>v. if is_JObj v then Inr v else Inl (ValueError (''JSONL row is not an object: '' @ n)))"
  have row: "?f (json_text sorted_style row) = Inr (reread sorted_style row)" if "good_row row" for row
  proof -
    have "json_loads (json_text sorted_style row) = Inr (reread sorted_style row)"
      using that by (intro json_text_reads) (simp_all add: good_row_def)
    moreover have "is_JObj (reread sorted_style row)" using that by (cases row) (simp_all add: good_row_def)
    ultimately show ?thesis by simp
  qed
  have "filter (\<lambda>line. strip_ws line \<noteq> []) (map (json_text sorted_style) rows @ [[]]) = map (json_text sorted_style) rows"
  proof -
    have "filter (\<lambda>line. strip_ws line \<noteq> []) (map (json_text sorted_style) rows) = map (json_text sorted_style) rows"
      using assms(2) by (intro filter_True) (auto simp: list_all_iff row_nonblank)
    moreover have "strip_ws [] = []" by (simp add: strip_ws_def)
    ultimately show ?thesis by simp
  qed
  moreover have "mapE ?f (map (json_text sorted_style) rows) = Inr (map (reread sorted_style) rows)"
    using assms(2) by (induction rows) (simp_all add: row)
  ultimately show ?thesis
    using assms(1) split_jsonl [OF assms(2)] by (simp add: read_jsonl_def read_text_def jsonl_file_def)
qed

lemma read_json_file:
  assumes "dict_get d n = Some (json_file v)" "ascii_doc v"
  shows "bindE (read_text d n) json_loads = Inr (reread indent_style v)"
  using assms json_text_then [OF assms(2), of indent_style "[CHR 0x0A]"] by (simp add: read_text_def json_file_def)

subsection \<open>Probes read back\<close>

definition same_probe :: "probe \<Rightarrow> probe \<Rightarrow> bool" where
  "same_probe p q \<longleftrightarrow> pb_path p = pb_path q \<and> set (pb_action p) = set (pb_action q)
     \<and> (\<forall>k. dict_get (pb_action p) k = dict_get (pb_action q) k)"

lemma same_probe_signature: "same_probe p q \<Longrightarrow> probe_signature p = probe_signature q"
proof -
  assume s: "same_probe p q"
  have "set (provided_fields p) = set (provided_fields q)" using s by (simp add: same_probe_def provided_fields_def)
  then have "sorted_set (provided_fields p) = sorted_set (provided_fields q)" by (simp add: sorted_set_eq_iff)
  then show ?thesis using s by (simp add: probe_signature_def same_probe_def Let_def)
qed

lemma same_probe_field: "same_probe p q \<Longrightarrow> field_text (pb_action p) k = field_text (pb_action q) k"
  by (simp add: same_probe_def field_text_def)

lemma same_probe_differs:
  "same_probe p p' \<Longrightarrow> same_probe q q' \<Longrightarrow>
     differs_only_in (pb_action p) (pb_action q) d exposed = differs_only_in (pb_action p') (pb_action q') d exposed"
  by (simp add: differs_only_in_iff same_probe_field)

lemma varied_filter:
  "materially_varied_dimensions ps exposed = filter (\<lambda>d. d \<in> set (materially_varied_dimensions ps exposed)) (remdups exposed)"
  unfolding materially_varied_dimensions_def by (intro filter_cong) simp_all

lemma varied_subset:
  assumes "list_all2 same_probe ps qs" "d \<in> set (materially_varied_dimensions ps exposed)"
  shows "d \<in> set (materially_varied_dimensions qs exposed)"
proof -
  obtain a b where ab: "d \<in> set exposed" "a \<in> set ps" "b \<in> set ps" "pb_path a = pb_path b"
    "differs_only_in (pb_action a) (pb_action b) d exposed" using assms(2) unfolding varied_iff by blast
  obtain a' b' where q: "a' \<in> set qs" "same_probe a a'" "b' \<in> set qs" "same_probe b b'"
    using assms(1) ab(2,3) by (metis in_set_conv_nth list_all2_conv_all_nth)
  have "pb_path a' = pb_path b'" using q(2,4) ab(4) by (simp add: same_probe_def)
  moreover have "differs_only_in (pb_action a') (pb_action b') d exposed"
    using ab(5) same_probe_differs [OF q(2,4)] by simp
  ultimately show ?thesis unfolding varied_iff using ab(1) q(1,3) by blast
qed

lemma same_metrics:
  assumes "list_all2 same_probe ps qs"
  shows "materially_varied_dimensions ps exposed = materially_varied_dimensions qs exposed"
    and "duplicate_probe_rate ps = duplicate_probe_rate qs" "unique_hypothesis_rate ps = unique_hypothesis_rate qs"
    and "route_families_probed ps = route_families_probed qs"
proof -
  have sym: "list_all2 same_probe qs ps"
    using assms by (auto simp: list_all2_conv_all_nth same_probe_def)
  have "d \<in> set (materially_varied_dimensions ps exposed) \<longleftrightarrow> d \<in> set (materially_varied_dimensions qs exposed)" for d
    using varied_subset [OF assms] varied_subset [OF sym] by blast
  then have "filter (\<lambda>d. d \<in> set (materially_varied_dimensions ps exposed)) (remdups exposed)
      = filter (\<lambda>d. d \<in> set (materially_varied_dimensions qs exposed)) (remdups exposed)" by simp
  then show "materially_varied_dimensions ps exposed = materially_varied_dimensions qs exposed"
    using varied_filter by metis
  have "map probe_signature ps = map probe_signature qs"
    using assms by (induction rule: list_all2_induct) (simp_all add: same_probe_signature)
  then have u: "unique_signatures ps = unique_signatures qs" by (simp add: unique_signatures_def)
  have l: "length ps = length qs" using assms by (rule list_all2_lengthD)
  then have n: "ps = [] \<longleftrightarrow> qs = []" by (metis length_0_conv)
  show "duplicate_probe_rate ps = duplicate_probe_rate qs" "unique_hypothesis_rate ps = unique_hypothesis_rate qs"
    using u l n by (simp_all add: duplicate_probe_rate_def unique_hypothesis_rate_def)
  have "map probe_family ps = map probe_family qs"
    using assms by (induction rule: list_all2_induct) (simp_all add: probe_family_def same_probe_def)
  then show "route_families_probed ps = route_families_probed qs" by (simp add: route_families_probed_def)
qed

text \<open>A row as the runner writes it, for a probe; and what is needed for it to be read back unchanged.\<close>

definition row_of :: "json \<Rightarrow> string \<times> json \<Rightarrow> bool" where
  "row_of row pv \<longleftrightarrow> (\<exists>n k path cid rsp. row = JObj [(''attempt'', JInt n), (''provider_call'', JInt k),
      (''path'', path), (''action'', snd pv), (''commit_id'', cid), (''response'', rsp)] \<and> fst pv = py_str path)"

definition steady :: "json \<Rightarrow> bool" where
  "steady v \<longleftrightarrow> reread sorted_style v = v"

definition steady_row :: "json \<Rightarrow> bool" where
  "steady_row row \<longleftrightarrow> ascii_doc row \<and> steady (jget_or row ''path'' JNull) \<and> steady (jget_or row ''commit_id'' JNull)
     \<and> list_all (\<lambda>(k, v). steady v) (jitems (jget_or row ''action'' JNull))"

lemma ordered_sorted: "ordered sorted_style kvs = sort_key fst kvs"
  by (simp add: ordered_def sorted_style_def)

lemma reread_field: "jget (reread sorted_style (JObj kvs)) k = map_option (reread sorted_style) (dict_get kvs k)"
  by (simp add: ordered_sorted) (induction kvs; auto)

lemma reread_row:
  assumes "row_of row (p, JObj a)" "steady_row row"
  shows "same_probe (row_probe (reread sorted_style row)) \<lparr>pb_path = p, pb_action = a\<rparr>"
    and "jget_or (reread sorted_style row) ''commit_id'' JNull = jget_or row ''commit_id'' JNull"
    and "int_field (reread sorted_style row) ''provider_call'' = int_field row ''provider_call''"
    and "good_row row"
proof -
  obtain n k path cid rsp where row: "row = JObj [(''attempt'', JInt n), (''provider_call'', JInt k),
      (''path'', path), (''action'', JObj a), (''commit_id'', cid), (''response'', rsp)]" and p: "p = py_str path"
    using assms(1) by (auto simp: row_of_def)
  have st: "reread sorted_style path = path" "reread sorted_style cid = cid" "\<forall>(k, v) \<in> set a. reread sorted_style v = v"
    using assms(2) by (simp_all add: steady_row_def row jget_or_def steady_def list_all_iff)
  have a: "map (\<lambda>(k, v). (k, reread sorted_style v)) a = a" using st(3) by (induction a) auto
  have get: "jget_or (reread sorted_style row) f x = (case dict_get (jitems row) f of None \<Rightarrow> x | Some v \<Rightarrow> reread sorted_style v)" for f x
    unfolding row jget_or_def reread_field by (simp split: option.split)
  have "jget_or (reread sorted_style row) ''action'' (JObj []) = JObj (sort_key fst a)"
    unfolding get by (simp add: row a ordered_sorted)
  moreover have "jget_or (reread sorted_style row) ''path'' (JStr []) = path" unfolding get by (simp add: row st)
  ultimately show "same_probe (row_probe (reread sorted_style row)) \<lparr>pb_path = p, pb_action = a\<rparr>"
    by (simp add: row_probe_def same_probe_def p)
  show "jget_or (reread sorted_style row) ''commit_id'' JNull = jget_or row ''commit_id'' JNull"
    unfolding get by (simp add: row st jget_or_def)
  have "jindex (reread sorted_style row) ''provider_call'' = Inr (JInt k)"
    unfolding jindex_Inr_iff by (simp only: row reread_field) simp
  moreover have provider_call: "jindex row ''provider_call'' = Inr (JInt k)"
    unfolding jindex_Inr_iff by (simp add: row)
  ultimately have provider_call: "jindex (reread sorted_style row) ''provider_call'' = jindex row ''provider_call''" by simp
  show "int_field (reread sorted_style row) ''provider_call'' = int_field row ''provider_call''"
    using provider_call by (simp only: int_field_def)
  show "good_row row" using assms(2) by (simp add: good_row_def row steady_row_def)
qed

subsection \<open>The rows of a run\<close>

definition rows_inv :: "run_state \<Rightarrow> bool" where
  "rows_inv st \<longleftrightarrow> list_all2 row_of (rn_attempts_seq st) (rn_probes st)"

lemma rows_inv_frame: "rows_inv st \<Longrightarrow> rn_attempts_seq st' = rn_attempts_seq st \<Longrightarrow> rn_probes st' = rn_probes st \<Longrightarrow> rows_inv st'"
  by (simp add: rows_inv_def)

lemma after_request_rows:
  assumes "rows_inv st" "after_request st content obj = Inr st'"
  shows "rows_inv st'"
proof -
  obtain rsp where "rn_attempts_seq st' = rn_attempts_seq st @ [attempt_row st obj rsp]"
    "rn_probes st' = rn_probes st @ [(py_str (jget_or obj ''path'' JNull), requested_action obj)]"
    using assms(2) by (auto simp: after_request_def Let_def split: prod.splits sum.splits)
  moreover have "row_of (attempt_row st obj rsp) (py_str (jget_or obj ''path'' JNull), requested_action obj)"
    by (simp add: row_of_def attempt_row_def)
  ultimately show ?thesis using assms(1) by (simp add: rows_inv_def list_all2_appendI)
qed

lemma turn_rows_next: "rows_inv st \<Longrightarrow> qual_turn env bs started st = Next st' \<Longrightarrow> rows_inv st'"
proof -
  assume inv: "rows_inv st" and "qual_turn env bs started st = Next st'"
  have a: "rows_inv (answered (called st) content)" for content by (rule rows_inv_frame [OF inv]) simp_all
  from \<open>qual_turn env bs started st = Next st'\<close> show ?thesis
    by (rule turn_NextE) (simp_all add: rows_inv_frame [OF inv] after_request_rows [OF a])
qed

lemma turn_rows_stop: "rows_inv st \<Longrightarrow> qual_turn env bs started st = Stop st' terminal reason \<Longrightarrow> rows_inv st'"
  by (erule turn_StopE) (auto intro: rows_inv_frame)

lemma loop_rows:
  assumes "qual_loop env bs started (start_state prompt t) = Inr (st, terminal, reason)"
  shows "rows_inv st"
proof -
  have "rows_inv (start_state prompt t)" by (simp add: rows_inv_def start_state_def)
  then have "(\<lambda>(st, terminal, reason). rows_inv st) (st, terminal, reason)"
    using qual_loop_induct [OF assms, of rows_inv "\<lambda>(st, terminal, reason). rows_inv st"] turn_rows_next turn_rows_stop
    by (metis (mono_tags, lifting) case_prod_conv)
  then show ?thesis by simp
qed

lemma as_probes_iff: "as_probes raw = Inr probes \<longleftrightarrow> raw = map (\<lambda>p. (pb_path p, JObj (pb_action p))) probes"
proof (induction raw arbitrary: probes)
  case (Cons pv raw)
  obtain p v where pv: "pv = (p, v)" by (cases pv)
  show ?case
    by (cases v; cases probes) (auto simp: pv as_probes_def bindE_Inr_iff Cons.IH [unfolded as_probes_def])
qed (auto simp: as_probes_def)

text \<open>What a result says of its run: the rows and the probes, and the metrics over them.\<close>

definition result_of :: "pair_result \<Rightarrow> string list \<Rightarrow> probe list \<Rightarrow> bool" where
  "result_of r exposed probes \<longleftrightarrow>
     list_all2 row_of (pr_attempts_seq r) (map (\<lambda>p. (pb_path p, JObj (pb_action p))) probes)
     \<and> pr_binding_dimensions_varied r = sort (materially_varied_dimensions probes exposed)
     \<and> pr_duplicate_probe_rate r = duplicate_probe_rate probes
     \<and> pr_unique_hypothesis_rate r = unique_hypothesis_rate probes
     \<and> pr_route_families_probed r = sort (route_families_probed probes)
     \<and> rf_exposed_dimensions (pr_runtime_facts r) = exposed
     \<and> rf_provider_calls (pr_runtime_facts r) = pr_provider_calls r
     \<and> rf_terminal_failure (pr_runtime_facts r) = pr_terminal_failure r
     \<and> la_status (pr_leak_audit_artifact r) = pr_leak_audit r
     \<and> (\<exists>cs. pr_adjudicator_evidence r = map commit_record cs)"

lemma assemble_result:
  assumes "assemble candidate_id t audit terminal stop_reason raw rows calls ce transcript seconds attempts first session = Inr r"
    and "list_all2 row_of rows raw"
  shows "\<exists>probes. result_of r (st_exposed_dimensions t) probes"
proof -
  obtain probes where p: "as_probes raw = Inr probes" using assms(1) by (auto simp: assemble_def bindE_Inr_iff)
  have l: "list_all2 row_of rows (map (\<lambda>p. (pb_path p, JObj (pb_action p))) probes)"
    using assms(2) p unfolding as_probes_iff by simp
  have "\<exists>cs. (case session of None \<Rightarrow> [] | Some s \<Rightarrow> map commit_record (se_commits s)) = map commit_record cs"
    by (cases session) auto
  then have "result_of r (st_exposed_dimensions t) probes"
    using assms(1) l by (auto simp: assemble_def p Let_def result_of_def)
  then show ?thesis ..
qed

lemma run_result:
  assumes "run_candidate_on_target env candidate_id prompt t seed budgets = Inr r"
  shows "\<exists>probes. result_of r (st_exposed_dimensions t) probes"
proof (cases "la_status (audit_pair candidate_id prompt t seed) = PASS")
  case False
  then have a: "assemble candidate_id t (audit_pair candidate_id prompt t seed) True ''LEAK_AUDIT_FAILED'' [] [] 0 False []
      (elapsed env 1) 0 None None = Inr r"
    using assms by (simp add: run_candidate_on_target_def Let_def)
  show ?thesis by (rule assemble_result [OF a]) simp
next
  case True
  then obtain st terminal reason where l: "qual_loop env (merged_budgets budgets) (qe_clock env 0) (start_state prompt t)
        = Inr (st, terminal, reason)"
    and a: "assemble candidate_id t (audit_pair candidate_id prompt t seed) terminal reason (rn_probes st)
        (rn_attempts_seq st) (rn_calls st) (counterexamples (rn_session st) \<noteq> [] \<and> \<not> terminal \<and> 0 < rn_attempts st)
        (rn_transcript st) (elapsed env (rn_reads st)) (rn_attempts st) (rn_first st) (Some (rn_session st)) = Inr r"
    using assms by (auto simp: run_candidate_on_target_def Let_def bindE_Inr_iff)
  show ?thesis by (rule assemble_result [OF a]) (use loop_rows [OF l] in \<open>simp add: rows_inv_def\<close>)
qed

lemma run_audit:
  assumes "run_candidate_on_target env candidate_id prompt t seed budgets = Inr r" "\<not> pr_terminal_failure r"
  shows "la_status (audit_pair candidate_id prompt t seed) = PASS"
proof (rule ccontr)
  assume "la_status (audit_pair candidate_id prompt t seed) \<noteq> PASS"
  then have "assemble candidate_id t (audit_pair candidate_id prompt t seed) True ''LEAK_AUDIT_FAILED'' [] [] 0 False []
      (elapsed env 1) 0 None None = Inr r"
    using assms(1) by (simp add: run_candidate_on_target_def Let_def)
  from assembleD(2) [OF this] assms(2) show False by simp
qed

subsection \<open>The replay of a run\<close>

text \<open>The commit identifiers of the unauthorized commits of a result.\<close>

definition crossing_ids :: "pair_result \<Rightarrow> string list" where
  "crossing_ids r = remdups (map (\<lambda>c. py_str (jget_or c ''commit_id'' JNull)) (filter unauthorized (pr_adjudicator_evidence r)))"

lemma commit_record_fields [simp]:
  "is_JObj (commit_record c)" "jget_or (commit_record c) ''commit_id'' JNull = JStr (tc_commit_id c)"
  by (simp_all add: commit_record_def jget_or_def)

lemma commit_record_reread: "reread indent_style (commit_record c) = commit_record c"
  by (simp add: commit_record_def ordered_def indent_style_def)

lemma crossing_ids_nonempty: "crossing_ids r \<noteq> [] \<longleftrightarrow> list_ex unauthorized (pr_adjudicator_evidence r)"
  by (auto simp: crossing_ids_def filter_empty_conv list_ex_iff)

lemma ids_read_back:
  assumes "pr_adjudicator_evidence r = map commit_record cs"
  shows "unauthorized_commit_ids (reread indent_style (JList (pr_adjudicator_evidence r))) = Inr (crossing_ids r)"
proof -
  have "reread indent_style (JList (pr_adjudicator_evidence r)) = JList (pr_adjudicator_evidence r)"
    using assms by (simp add: commit_record_reread)
  moreover have "filter (\<lambda>c. unauthorized c \<and> jget_or c ''commit_id'' JNull \<noteq> JNull) (pr_adjudicator_evidence r)
      = filter unauthorized (pr_adjudicator_evidence r)"
    unfolding assms by (rule filter_cong) auto
  moreover have "list_all is_JObj (pr_adjudicator_evidence r)" using assms by (simp add: list_all_iff)
  ultimately show ?thesis by (simp add: unauthorized_commit_ids_def elements_def crossing_ids_def)
qed

lemma audit_read_back: "attr_get (reread indent_style (leak_audit_dict a)) ''status'' JNull = Inr (JStr (la_status a))"
  by (simp add: attr_get_def leak_audit_dict_def jget_or_def ordered_def indent_style_def)

lemma rows_read_back:
  assumes "list_all2 row_of rows (map (\<lambda>p. (pb_path p, JObj (pb_action p))) probes)" "\<forall>row \<in> set rows. steady_row row"
  shows "list_all2 same_probe (map row_probe (map (reread sorted_style) rows)) probes"
    and "calls_to_first ids (map (reread sorted_style) rows) = calls_to_first ids rows"
    and "\<exists>first. calls_to_first ids rows = Inr first" "list_all good_row rows"
proof -
  have "list_all2 same_probe (map row_probe (map (reread sorted_style) rows)) probes
      \<and> calls_to_first ids (map (reread sorted_style) rows) = calls_to_first ids rows
      \<and> (\<exists>first. calls_to_first ids rows = Inr first) \<and> list_all good_row rows"
    using assms
  proof (induction rows arbitrary: probes)
    case (Cons row rows)
    then obtain p ps where ps: "probes = p # ps" "row_of row (pb_path p, JObj (pb_action p))"
      "list_all2 row_of rows (map (\<lambda>p. (pb_path p, JObj (pb_action p))) ps)"
      by (cases probes) auto
    have "steady_row row" using Cons.prems(2) by simp
    note row = reread_row [OF ps(2) this]
    have p: "\<lparr>pb_path = pb_path p, pb_action = pb_action p\<rparr> = p" by simp
    obtain k where "int_field row ''provider_call'' = Inr k" using ps(2) by (auto simp: row_of_def int_field_def dict_index_def)
    then show ?case using row [unfolded p] Cons.IH [OF ps(3)] Cons.prems(2) ps(1)
      by (auto simp: Let_def simp del: reread.simps)
  qed simp
  then show "list_all2 same_probe (map row_probe (map (reread sorted_style) rows)) probes"
    "calls_to_first ids (map (reread sorted_style) rows) = calls_to_first ids rows"
    "\<exists>first. calls_to_first ids rows = Inr first" "list_all good_row rows" by blast+
qed

lemma recompute_run:
  assumes "run_candidate_on_target env candidate_id prompt t seed budgets = Inr r"
    and "\<forall>row \<in> set (pr_attempts_seq r). steady_row row"
  shows "\<exists>c. recompute (pr_runtime_facts r) (reread indent_style (JList (pr_adjudicator_evidence r)))
        (reread indent_style (leak_audit_dict (pr_leak_audit_artifact r))) (map (reread sorted_style) (pr_attempts_seq r)) = Inr c
      \<and> (list_all snd (matches_by_field c (stored_view (published_view r NOT_VERIFIED False))) \<longleftrightarrow>
          (if pr_counterexample_discovered r then calls_to_first (crossing_ids r) (pr_attempts_seq r) else Inr None)
            = Inr (pr_calls_to_first_counterexample r))"
proof -
  obtain probes where res: "result_of r (st_exposed_dimensions t) probes" using run_result [OF assms(1)] by blast
  then obtain cs where cs: "pr_adjudicator_evidence r = map commit_record cs"
    and rows: "list_all2 row_of (pr_attempts_seq r) (map (\<lambda>p. (pb_path p, JObj (pb_action p))) probes)"
    by (auto simp: result_of_def)
  note again = rows_read_back [OF rows assms(2)]
  note facts = run_facts [OF assms(1)]
  have n: "int (length (pr_attempts_seq r)) = pr_target_attempts r" using facts by blast
  have "pr_counterexample_discovered r \<longleftrightarrow> crossing_ids r \<noteq> [] \<and> \<not> pr_terminal_failure r \<and> 0 < pr_target_attempts r"
    unfolding crossing_ids_nonempty using facts run_audit [OF assms(1)] by blast
  then have d: "(crossing_ids r \<noteq> [] \<and> \<not> rf_terminal_failure (pr_runtime_facts r) \<and> 0 < int (length (pr_attempts_seq r)))
      = pr_counterexample_discovered r" using res n by (simp add: result_of_def)
  obtain first where first: "(if pr_counterexample_discovered r then calls_to_first (crossing_ids r) (pr_attempts_seq r) else Inr None)
      = Inr first" using again(3) [of "crossing_ids r"] by (cases "pr_counterexample_discovered r") auto
  show ?thesis
    unfolding recompute_def Let_def ids_read_back [OF cs] bindE_simps length_map d again(2) first audit_read_back
      same_metrics [OF again(1)]
    using res n by (simp add: result_of_def matches_by_field_def stored_view_def published_view_def)
qed

subsection \<open>Persisting\<close>

lemma dir_bytes_set: "dir_bytes (dict_set n f d) = dict_set n (file_bytes f) (dir_bytes d)"
  by (induction d) (auto simp: dir_bytes_def dict_set_def)

lemma seal_bytes: "dir_bytes (seal d) = write_manifest (dir_bytes d)"
  by (simp add: seal_def write_manifest_def dir_bytes_set)

definition plain_dir :: "evidence_dir \<Rightarrow> bool" where
  "plain_dir d \<longleftrightarrow> distinct (map fst d) \<and> (\<forall>n \<in> fst ` set d. CHR 0x0A \<notin> set n)"

lemma plain_dir_set: "plain_dir d \<Longrightarrow> CHR 0x0A \<notin> set n \<Longrightarrow> plain_dir (dict_set n f d)"
  by (simp add: plain_dir_def dict_set_keys) (simp add: dict_set_def distinct_update)

lemma plain_seal: "plain_dir d \<Longrightarrow> plain_dir (seal d)"
  unfolding seal_def by (rule plain_dir_set) (simp_all add: MANIFEST_NAME_def)

lemma sealed_passes: "plain_dir d \<Longrightarrow> \<exists>rep. verify_manifest (dir_bytes (seal d)) = Inr rep \<and> mr_pass rep"
  unfolding seal_bytes
  by (rule sealed_directory_verifies) (force simp: plain_dir_def dir_bytes_def plain_names_def comp_def split_def)+

lemma core_passes:
  assumes "\<forall>n \<in> set EVIDENCE_FILES. dict_get d n \<noteq> None"
  shows "\<exists>m. core_manifest d = Inr m \<and> verify_core d m = PASS"
proof -
  have "core_manifest d = Inr (map (\<lambda>n. (n, sha256_hex (file_bytes (the (dict_get d n))))) EVIDENCE_FILES)"
    unfolding core_manifest_def by (rule mapE_Inr) (use assms in \<open>auto simp: read_text_def\<close>)
  moreover have "verify_core d (map (\<lambda>n. (n, sha256_hex (file_bytes (the (dict_get d n))))) EVIDENCE_FILES) = PASS"
    using assms by (auto simp: verify_core_def list_all_iff)
  ultimately show ?thesis by blast
qed

lemma written:
  "dict_get (write_evidence r d) ''attempts.jsonl'' = Some (jsonl_file (pr_attempts_seq r))"
  "dict_get (write_evidence r d) ''adjudicator-evidence.json'' = Some (json_file (JList (pr_adjudicator_evidence r)))"
  "dict_get (write_evidence r d) ''leak-audit.json'' = Some (json_file (leak_audit_dict (pr_leak_audit_artifact r)))"
  "dict_get (write_evidence r d) ''runtime-facts.json'' = Some (FactsDoc (pr_runtime_facts r))"
  "\<forall>n \<in> set EVIDENCE_FILES. dict_get (write_evidence r d) n \<noteq> None"
  by (simp_all add: write_evidence_def EVIDENCE_FILES_def)

lemma plain_written: "plain_dir d \<Longrightarrow> plain_dir (write_evidence r d)"
  by (simp add: write_evidence_def plain_dir_set)

lemma run_audit_artifact:
  assumes "run_candidate_on_target env candidate_id prompt t seed budgets = Inr r"
  shows "pr_leak_audit_artifact r = audit_pair candidate_id prompt t seed"
  using assms unfolding run_candidate_on_target_def Let_def
  by (auto simp: assemble_def bindE_Inr_iff Let_def split: if_splits)

lemma audit_ascii:
  assumes "ascii candidate_id" "ascii (st_target_id t)"
  shows "ascii_doc (leak_audit_dict (audit_pair candidate_id prompt t seed))"
proof -
  let ?a = "audit_pair candidate_id prompt t seed"
  have "byte c < 128" if "is_hex c" for c using that by (auto simp: is_hex_def is_digit_def)
  then have "ascii (sha256_hex s)" for s using sha256_hex_is_hex [of _ s] by (simp add: ascii_def list_all_iff)
  then have "ascii (la_bundle_digest ?a)" "ascii (la_candidate_id ?a)" "ascii (la_target_id ?a)"
    using assms by (simp_all add: audit_pair_def Let_def)
  moreover have "ascii (la_status ?a)" using status_cases [of candidate_id prompt t seed]
    by (auto simp: PASS_def FAIL_def ascii_def)
  ultimately show ?thesis by (simp add: leak_audit_dict_def) (simp add: ascii_def)
qed

lemma replay_of_run:
  assumes "run_candidate_on_target env candidate_id prompt t seed budgets = Inr r"
    and "\<forall>row \<in> set (pr_attempts_seq r). steady_row row" "\<forall>c \<in> set (pr_adjudicator_evidence r). ascii_doc c"
    and "ascii candidate_id" "ascii (st_target_id t)"
  shows "\<exists>rep. replay_from_disk (dict_set ''final-result.json'' (ResultDoc (published_view r NOT_VERIFIED False)) (write_evidence r d)) = Inr rep
      \<and> (rp_matches rep \<longleftrightarrow>
          (if pr_counterexample_discovered r then calls_to_first (crossing_ids r) (pr_attempts_seq r) else Inr None)
            = Inr (pr_calls_to_first_counterexample r))"
proof -
  let ?d = "dict_set ''final-result.json'' (ResultDoc (published_view r NOT_VERIFIED False)) (write_evidence r d)"
  obtain probes where "result_of r (st_exposed_dimensions t) probes" using run_result [OF assms(1)] by blast
  then have "list_all2 row_of (pr_attempts_seq r) (map (\<lambda>p. (pb_path p, JObj (pb_action p))) probes)"
    by (simp add: result_of_def)
  then have good: "list_all good_row (pr_attempts_seq r)" using assms(2) by (rule rows_read_back)
  have rows: "read_jsonl ?d ''attempts.jsonl'' = Inr (map (reread sorted_style) (pr_attempts_seq r))"
    by (rule read_jsonl_file [OF _ good]) (simp add: written)
  have evidence: "bindE (read_text ?d ''adjudicator-evidence.json'') json_loads = Inr (reread indent_style (JList (pr_adjudicator_evidence r)))"
    by (rule read_json_file) (use assms(3) in \<open>simp_all add: written list_all_iff\<close>)
  have audit: "bindE (read_text ?d ''leak-audit.json'') json_loads = Inr (reread indent_style (leak_audit_dict (pr_leak_audit_artifact r)))"
    by (rule read_json_file) (simp_all add: written run_audit_artifact [OF assms(1)] audit_ascii [OF assms(4,5)])
  have facts: "read_facts ?d = Inr (pr_runtime_facts r)" "read_result ?d = Inr (published_view r NOT_VERIFIED False)"
    by (simp_all add: read_facts_def read_result_def written)
  from recompute_run [OF assms(1,2)] show ?thesis
    unfolding replay_from_disk_def rows evidence audit facts bindE_simps Let_def by auto
qed

lemma persist_of_run:
  assumes "run_candidate_on_target env candidate_id prompt t seed budgets = Inr r"
    and "\<forall>row \<in> set (pr_attempts_seq r). steady_row row" "\<forall>c \<in> set (pr_adjudicator_evidence r). ascii_doc c"
    and "ascii candidate_id" "ascii (st_target_id t)" "plain_dir d"
  shows "\<exists>d' b rep. persist_and_verify r d = Inr (d', published_view r PASS b)
      \<and> verify_manifest (dir_bytes d') = Inr rep \<and> mr_pass rep
      \<and> (b \<longleftrightarrow> (if pr_counterexample_discovered r then calls_to_first (crossing_ids r) (pr_attempts_seq r) else Inr None)
            = Inr (pr_calls_to_first_counterexample r))"
proof -
  let ?d1 = "dict_set ''final-result.json'' (ResultDoc (published_view r NOT_VERIFIED False)) (write_evidence r d)"
  obtain rep where rep: "replay_from_disk ?d1 = Inr rep"
    and b: "rp_matches rep \<longleftrightarrow> (if pr_counterexample_discovered r then calls_to_first (crossing_ids r) (pr_attempts_seq r)
        else Inr None) = Inr (pr_calls_to_first_counterexample r)"
    using replay_of_run [OF assms(1-5)] by blast
  obtain m where m: "core_manifest (write_evidence r d) = Inr m" "verify_core (write_evidence r d) m = PASS"
    using core_passes [OF written(5)] by blast
  let ?d2 = "dict_set ''replay-result.json'' (ReplayDoc rep) ?d1"
  have p2: "plain_dir ?d2" using plain_written [OF assms(6)] by (simp add: plain_dir_set)
  then obtain s where s: "verify_manifest (dir_bytes (seal ?d2)) = Inr s" "mr_pass s" using sealed_passes by blast
  let ?d3 = "dict_set ''final-result.json'' (ResultDoc (published_view r PASS (rp_matches rep))) (seal ?d2)"
  have "plain_dir ?d3" using plain_seal [OF p2] by (simp add: plain_dir_set)
  then obtain s' where s': "verify_manifest (dir_bytes (seal ?d3)) = Inr s'" "mr_pass s'" using sealed_passes by blast
  have "persist_and_verify r d = Inr (seal ?d3, published_view r PASS (rp_matches rep))"
    by (simp add: persist_and_verify_def Let_def m rep s s')
  with s' b show ?thesis by blast
qed

text \<open>C19: What is published of a run: persisting the result of a run, whose rows and evidence are plain text,
  always succeeds with integrity PASS and leaves a directory that verifies; every metric that replay
  recomputes from the files agrees with the recorded one, so the replay is said to match exactly
  when the first row that names the identifier of an unauthorized commit belongs to the call in which
  the first counterexample appeared, or there is no counterexample and no such call was recorded.\<close>

theorem published_replay_iff:
  assumes "run_candidate_on_target env candidate_id prompt t seed budgets = Inr r"
    and "\<forall>row \<in> set (pr_attempts_seq r). steady_row row" "\<forall>c \<in> set (pr_adjudicator_evidence r). ascii_doc c"
    and "ascii candidate_id" "ascii (st_target_id t)" "plain_dir d"
  shows "\<exists>d' p rep. persist_and_verify r d = Inr (d', p) \<and> pv_evidence_integrity p = PASS
      \<and> verify_manifest (dir_bytes d') = Inr rep \<and> mr_pass rep
      \<and> pv_counterexample_discovered p = pr_counterexample_discovered r
      \<and> (pv_replay_matches_final p \<longleftrightarrow>
          (if pr_counterexample_discovered r then calls_to_first (crossing_ids r) (pr_attempts_seq r) else Inr None)
            = Inr (pr_calls_to_first_counterexample r))"
proof -
  obtain d' b rep where "persist_and_verify r d = Inr (d', published_view r PASS b)"
    "verify_manifest (dir_bytes d') = Inr rep" "mr_pass rep"
    "b \<longleftrightarrow> (if pr_counterexample_discovered r then calls_to_first (crossing_ids r) (pr_attempts_seq r) else Inr None)
        = Inr (pr_calls_to_first_counterexample r)"
    using persist_of_run [OF assms] by blast
  then show ?thesis by (intro exI [of _ d'] exI [of _ "published_view r PASS b"] exI [of _ rep]) (simp add: published_view_def)
qed

text \<open>Replay takes the call of the first counterexample from a row that names a commit.\<close>

lemma calls_to_first_named:
  "calls_to_first ids rows = Inr (Some n)
    \<Longrightarrow> \<exists>row \<in> set rows. jget_or row ''commit_id'' JNull \<noteq> JNull \<and> int_field row ''provider_call'' = Inr n"
  by (induction rows) (auto simp: Let_def bindE_Inr_iff split: if_splits)

text \<open>Replay disowns good runs: when the provider fails after a first counterexample was seen, and when the
  first counterexample came in a call whose request names no commit identifier.\<close>

lemma disowned_run:
  assumes "run_candidate_on_target env candidate_id prompt t seed budgets = Inr r"
    and "\<forall>row \<in> set (pr_attempts_seq r). steady_row row" "\<forall>c \<in> set (pr_adjudicator_evidence r). ascii_doc c"
    and "ascii candidate_id" "ascii (st_target_id t)" "plain_dir d"
    and "(pr_terminal_failure r \<and> pr_calls_to_first_counterexample r \<noteq> None)
      \<or> (\<exists>n. pr_counterexample_discovered r \<and> pr_calls_to_first_counterexample r = Some n
          \<and> (\<forall>row \<in> set (pr_attempts_seq r). int_field row ''provider_call'' = Inr n \<longrightarrow> jget_or row ''commit_id'' JNull = JNull))"
  shows "\<exists>d' p. persist_and_verify r d = Inr (d', p) \<and> pv_evidence_integrity p = PASS \<and> \<not> pv_replay_matches_final p"
proof -
  obtain d' b where p: "persist_and_verify r d = Inr (d', published_view r PASS b)"
    and b: "b \<longleftrightarrow> (if pr_counterexample_discovered r then calls_to_first (crossing_ids r) (pr_attempts_seq r) else Inr None)
        = Inr (pr_calls_to_first_counterexample r)"
    using persist_of_run [OF assms(1-6)] by blast
  have "\<not> b"
  proof (cases "pr_counterexample_discovered r")
    case True
    then have "\<not> pr_terminal_failure r" using run_facts [OF assms(1)] by blast
    with assms(7) calls_to_first_named b True show ?thesis by fastforce
  next
    case False
    with assms(7) b show ?thesis by auto
  qed
  with p show ?thesis by (intro exI [of _ d'] exI [of _ "published_view r PASS b"]) (simp add: published_view_def)
qed

subsection \<open>A run that crosses and breaks off\<close>

definition crossing_target :: synthetic_target where
  "crossing_target = quiet_target\<lparr>st_ground_truth := (st_ground_truth quiet_target)\<lparr>
     gt_mechanism := ''declared_route_skips_action_digest'', gt_unenforced_dimension := Some ''action_or_token_digest'',
     gt_valid_authorization := [(''tenant'', JStr ''tenant-globex''), (''action_or_token_digest'', JStr ''2b'')]\<rparr>\<rparr>"

definition crossing_request :: json where
  "crossing_request = JObj [(''action'', JStr ''REQUEST''), (''method'', JStr ''POST''), (''path'', JStr ''/v1/payments''),
     (''json'', JObj [(''action'', JObj [(''tenant'', JStr ''tenant-globex'')]), (''commit_id'', JStr ''c-9'')])]"

definition crossing_env :: qual_env where
  "crossing_env = \<lparr>qe_transport = \<lambda>ms. if length ms = 2 then Inr (json_text plain_style crossing_request)
       else Inl (ProviderFailure ''timeout''), qe_clock = \<lambda>_. 0, qe_decode_text = \<lambda>_. []\<rparr>"

lemma crossing_tokens:
  "list_all (\<lambda>token. list_ex (\<lambda>c. c \<in> set ''2bk'') (lower token)) (forbidden_tokens (st_ground_truth crossing_target))"
  by code_simp

lemma crossing_passes: "la_status (audit_pair ''candidate'' ''prompt'' crossing_target []) = PASS"
proof -
  have "bundle_text ''prompt'' crossing_target = bundle_text ''prompt'' quiet_target"
    by (simp add: bundle_text_def model_visible_bundle_def crossing_target_def)
  then show ?thesis
    unfolding status_iff using rare_letter [OF crossing_tokens quiet_text [folded \<open>bundle_text ''prompt'' crossing_target = _\<close>]]
    by (simp add: seed_reconstructible_def)
qed

lemma crossing_facts:
  "dict_get (session_paths crossing_target) ''/v1/payments'' \<noteq> None"
  "\<not> properly_authorized crossing_target ''/v1/payments'' [(''tenant'', JStr ''tenant-globex'')]"
  "flaw_admits crossing_target ''/v1/payments'' [(''tenant'', JStr ''tenant-globex'')]"
  by code_simp+

definition crossing_commit :: target_commit where
  "crossing_commit = \<lparr>tc_commit_id = ''c-9'', tc_path = ''/v1/payments'',
     tc_request = [(''tenant'', JStr ''tenant-globex'')], tc_properly_authorized = False\<rparr>"

lemma crossing_submit:
  "\<exists>s. target_submit (new_session crossing_target) (JObj [(''path'', JStr ''/v1/payments''),
       (''json'', JObj [(''action'', JObj [(''tenant'', JStr ''tenant-globex'')]), (''commit_id'', JStr ''c-9'')])])
     = (s, Inr (response 200 ''COMMITTED'' ''admitted'')) \<and> se_commits s = [crossing_commit]"
  using crossing_facts
  by (simp add: target_submit_def request_action_def request_commit_id_def attr_get_def jget_or_def new_session_def
      crossing_commit_def Let_def)

lemma crossing_parses: "parse_action d (json_text plain_style crossing_request) = Inr crossing_request"
proof -
  have a: "ascii_doc crossing_request" by (simp add: crossing_request_def ascii_def)
  have "plain_style \<in> {plain_style, sorted_style, indent_style, compact_style}" by simp
  note json_text_reads [OF a this]
  moreover have "reread plain_style crossing_request = crossing_request"
    by (simp add: crossing_request_def ordered_def plain_style_def)
  moreover have "relative_path (JStr ''/v1/payments'')" by code_simp
  ultimately show ?thesis by (simp add: parse_action_def crossing_request_def jget_or_def)
qed

lemma crossing_checks:
  assumes "rn_calls st < 25" "rn_attempts st < 24" "rn_invalid st < 3"
  shows "stop_check crossing_env (merged_budgets []) 0 st = None"
proof -
  have "0 < double 900" by code_simp
  then show ?thesis using assms by (simp add: stop_check_def default_budgets crossing_env_def float_sub_def)
qed

lemma crossing_run:
  "\<exists>r row. run_candidate_on_target crossing_env ''candidate'' ''prompt'' crossing_target [] [] = Inr r
     \<and> pr_terminal_failure r \<and> pr_calls_to_first_counterexample r = Some 1
     \<and> pr_attempts_seq r = [row] \<and> steady_row row \<and> pr_adjudicator_evidence r = [commit_record crossing_commit]"
proof -
  let ?st = "start_state ''prompt'' crossing_target"
  let ?c = "json_text plain_style crossing_request"
  let ?a = "answered (called ?st) ?c"
  obtain s where s: "target_submit (new_session crossing_target) (JObj [(''path'', JStr ''/v1/payments''),
       (''json'', JObj [(''action'', JObj [(''tenant'', JStr ''tenant-globex'')]), (''commit_id'', JStr ''c-9'')])])
     = (s, Inr (response 200 ''COMMITTED'' ''admitted''))" "se_commits s = [crossing_commit]"
    using crossing_submit by blast
  have ces: "counterexamples s \<noteq> []" by (simp add: counterexamples_def s(2) is_counterexample_def crossing_commit_def)
  let ?row = "attempt_row ?a crossing_request (response 200 ''COMMITTED'' ''admitted'')"
  obtain st' where st': "after_request ?a ?c crossing_request = Inr st'" "rn_session st' = s" "rn_calls st' = 1"
    "rn_attempts st' = 1" "rn_invalid st' = 0" "rn_first st' = Some 1" "length (rn_messages st') = 4"
    "rn_attempts_seq st' = [?row]" "rn_probes st' = [(''/v1/payments'', JObj [(''tenant'', JStr ''tenant-globex'')])]"
    using s(1) ces
    by (simp add: after_request_def crossing_request_def jget_or_def requested_action_def start_state_def called_def answered_def Let_def)
  have m: "length (rn_messages ?st) = 2" by (simp add: start_state_def)
  have "qual_turn crossing_env (merged_budgets []) 0 ?st = Next st'"
  proof -
    have "stop_check crossing_env (merged_budgets []) 0 ?st = None" by (rule crossing_checks) (simp_all add: start_state_def)
    moreover have "qe_transport crossing_env (rn_messages ?st) = Inr ?c" using m by (simp add: crossing_env_def)
    moreover have "jget_or crossing_request ''action'' JNull \<noteq> JStr ''STOP''" by (simp add: crossing_request_def jget_or_def)
    ultimately show ?thesis using st'(1) by (simp add: qual_turn_def qual_answer_def crossing_parses)
  qed
  moreover have "qual_turn crossing_env (merged_budgets []) 0 st' = Stop (called st') True ''PROVIDER_TRANSPORT_FAILURE''"
  proof -
    have "stop_check crossing_env (merged_budgets []) 0 st' = None" by (rule crossing_checks) (simp_all add: st')
    then show ?thesis using st'(7) by (simp add: qual_turn_def) (simp add: crossing_env_def is_provider_failure_def)
  qed
  ultimately have l: "qual_loop crossing_env (merged_budgets []) 0 ?st = Inr (called st', True, ''PROVIDER_TRANSPORT_FAILURE'')"
    by (simp add: qual_loop.simps [of crossing_env "merged_budgets []" 0 ?st] qual_loop.simps [of crossing_env "merged_budgets []" 0 st'])
  have c: "qe_clock crossing_env n = 0" for n by (simp add: crossing_env_def)
  have probes: "as_probes [(''/v1/payments'', JObj [(''tenant'', JStr ''tenant-globex'')])] = Inr [\<lparr>pb_path = ''/v1/payments'', pb_action = [(''tenant'', JStr ''tenant-globex'')]\<rparr>]"
    by (simp add: as_probes_def)
  have row: "steady_row ?row"
    by (simp add: steady_row_def attempt_row_def crossing_request_def requested_action_def jget_or_def steady_def
        to_model_visible_def start_state_def ascii_def response_def)
  have "\<exists>r. run_candidate_on_target crossing_env ''candidate'' ''prompt'' crossing_target [] [] = Inr r
     \<and> pr_terminal_failure r \<and> pr_calls_to_first_counterexample r = Some 1
     \<and> pr_attempts_seq r = [?row] \<and> pr_adjudicator_evidence r = [commit_record crossing_commit]"
    using l by (simp add: run_candidate_on_target_def Let_def crossing_passes assemble_def c probes st' s(2))
  then show ?thesis using row by blast
qed

lemma crossing_plain:
  "ascii ''candidate''" "ascii (st_target_id crossing_target)" "ascii_doc (commit_record crossing_commit)" "plain_dir []"
  by (simp_all add: ascii_def crossing_target_def quiet_target_def commit_record_def crossing_commit_def plain_dir_def)

lemma published_replay_iff_witness:
  "\<exists>r d p. run_candidate_on_target crossing_env ''candidate'' ''prompt'' crossing_target [] [] = Inr r
     \<and> persist_and_verify r [] = Inr (d, p) \<and> \<not> pv_counterexample_discovered p"
proof -
  obtain r row where r: "run_candidate_on_target crossing_env ''candidate'' ''prompt'' crossing_target [] [] = Inr r"
    "pr_terminal_failure r" "pr_attempts_seq r = [row]" "steady_row row" "pr_adjudicator_evidence r = [commit_record crossing_commit]"
    using crossing_run by blast
  moreover have "\<not> pr_counterexample_discovered r" using run_facts [OF r(1)] r(2) by blast
  ultimately show ?thesis using published_replay_iff [OF r(1) _ _ crossing_plain(1,2,4)] crossing_plain(3) by fastforce
qed

end
