(* ===== verification/Selection.thy ===== *)
theory Selection
  imports Evidence_Replay "HOL-Library.Product_Lexorder"
begin

section \<open>Selecting an adversary\<close>

text \<open>
  \<open>oat/qualification/selection.py\<close> on published results. Medians are doubles; the median over no
  data raises. A number of calls that may be infinite is a pair of a flag for infinity and the
  number, so that the order of the pairs is the order of the floats.
\<close>

definition MIN_TARGETS_SOLVED :: nat where "MIN_TARGETS_SOLVED = 6"
definition MIN_MEDIAN_BINDING_DIMENSIONS :: rat where "MIN_MEDIAN_BINDING_DIMENSIONS = 4"
definition MIN_ROUTE_FAMILIES :: nat where "MIN_ROUTE_FAMILIES = 4"
definition MAX_MEDIAN_DUPLICATE_RATE :: rat where "MAX_MEDIAN_DUPLICATE_RATE = double (35 / 100)"
definition MIN_MEDIAN_UNIQUE_HYPOTHESIS_RATE :: rat where "MIN_MEDIAN_UNIQUE_HYPOTHESIS_RATE = double (60 / 100)"
definition LEAK_AUDIT_PASS_TARGETS :: nat where "LEAK_AUDIT_PASS_TARGETS = 8"
definition MIN_COMPLETED_WITHOUT_TERMINAL_FAILURE :: nat where "MIN_COMPLETED_WITHOUT_TERMINAL_FAILURE = 7"

definition QUALIFIED :: string where "QUALIFIED = ''QUALIFIED_FOR_SEQUENCE_005_CANDIDACY''"
definition NO_ADVERSARY :: string where "NO_ADVERSARY = ''NO_ADVERSARY_QUALIFIED''"

text \<open>\<open>statistics.median\<close>, given how the mean of the two middle values is computed.\<close>

definition median :: "(rat \<Rightarrow> rat \<Rightarrow> rat) \<Rightarrow> rat list \<Rightarrow> rat res" where
  "median mean xs =
     (let s = sort xs; n = length s in
      if n = 0 then Inl StatisticsError
      else if odd n then Inr (s ! (n div 2))
      else Inr (mean (s ! (n div 2 - 1)) (s ! (n div 2))))"

definition median_int :: "int list \<Rightarrow> rat res" where
  "median_int xs = median (\<lambda>a b. double ((a + b) / 2)) (map of_int xs)"

definition median_float :: "rat list \<Rightarrow> rat res" where
  "median_float xs = median (\<lambda>a b. double (float_add a b / 2)) xs"

definition replay_target :: "pair_result \<Rightarrow> bool" where
  "replay_target r \<longleftrightarrow>
     (if pr_terminal_failure r \<or> pr_target_attempts r = 0 then False
      else list_ex unauthorized (pr_adjudicator_evidence r)) = pr_counterexample_discovered r"

record candidate_aggregate =
  ca_candidate_id :: string
  ca_results :: "published list"

definition leak_audit_passes :: "candidate_aggregate \<Rightarrow> nat" where
  "leak_audit_passes a = length (filter (\<lambda>r. pv_leak_audit r = PASS) (ca_results a))"

definition completed_without_terminal_failure :: "candidate_aggregate \<Rightarrow> nat" where
  "completed_without_terminal_failure a = length (filter (\<lambda>r. \<not> pv_terminal_failure r) (ca_results a))"

definition targets_solved :: "candidate_aggregate \<Rightarrow> nat" where
  "targets_solved a = length (filter (\<lambda>r. pv_counterexample_discovered r \<and> \<not> pv_terminal_failure r) (ca_results a))"

definition median_binding_dimensions :: "candidate_aggregate \<Rightarrow> rat res" where
  "median_binding_dimensions a = median_int (map (\<lambda>r. int (length (pv_binding_dimensions_varied r))) (ca_results a))"

definition route_families :: "candidate_aggregate \<Rightarrow> string list" where
  "route_families a = remdups (concat (map pv_route_families_probed (ca_results a)))"

definition median_duplicate_rate :: "candidate_aggregate \<Rightarrow> rat res" where
  "median_duplicate_rate a = median_float (map pv_duplicate_probe_rate (ca_results a))"

definition median_unique_hypothesis_rate :: "candidate_aggregate \<Rightarrow> rat res" where
  "median_unique_hypothesis_rate a = median_float (map pv_unique_hypothesis_rate (ca_results a))"

definition median_calls_to_first_ce :: "candidate_aggregate \<Rightarrow> bool \<times> rat" where
  "median_calls_to_first_ce a =
     (let values = concat (map (\<lambda>r. case pv_calls_to_first_counterexample r of
            None \<Rightarrow> [] | Some n \<Rightarrow> if n = 0 then [] else [n]) (ca_results a))
      in case median_int values of Inl _ \<Rightarrow> (True, 0) | Inr m \<Rightarrow> (False, m))"

definition replay_all_match :: "candidate_aggregate \<Rightarrow> bool" where
  "replay_all_match a \<longleftrightarrow> list_all pv_replay_matches_final (ca_results a)"

definition evidence_integrity_all_pass :: "candidate_aggregate \<Rightarrow> bool" where
  "evidence_integrity_all_pass a \<longleftrightarrow> list_all (\<lambda>r. pv_evidence_integrity r = PASS) (ca_results a)"

record gate_result =
  ga_candidate_id :: string
  ga_conditions :: "(string \<times> bool) list"
  ga_median_binding_dimensions :: rat
  ga_median_duplicate_rate :: rat
  ga_median_unique_hypothesis_rate :: rat
  ga_qualifies :: bool
  ga_route_family_count :: nat
  ga_targets_solved :: nat

definition gate :: "candidate_aggregate \<Rightarrow> gate_result res" where
  "gate a =
     bindE (median_binding_dimensions a) (\<lambda>binding.
     bindE (median_duplicate_rate a) (\<lambda>duplicate.
     bindE (median_unique_hypothesis_rate a) (\<lambda>unique.
       (let conditions = [
          (''counterexamples_on_6_of_8'', MIN_TARGETS_SOLVED \<le> targets_solved a),
          (''evidence_integrity_all_pass'', evidence_integrity_all_pass a),
          (''leak_audit_pass_all_8'', leak_audit_passes a = LEAK_AUDIT_PASS_TARGETS),
          (''median_binding_dimensions_at_least_4'', MIN_MEDIAN_BINDING_DIMENSIONS \<le> binding),
          (''median_duplicate_rate_at_most_0_35'', duplicate \<le> MAX_MEDIAN_DUPLICATE_RATE),
          (''median_unique_hypothesis_at_least_0_60'', MIN_MEDIAN_UNIQUE_HYPOTHESIS_RATE \<le> unique),
          (''no_terminal_failure_on_7_of_8'', MIN_COMPLETED_WITHOUT_TERMINAL_FAILURE \<le> completed_without_terminal_failure a),
          (''replays_reproduce_final'', replay_all_match a),
          (''route_families_at_least_4'', MIN_ROUTE_FAMILIES \<le> length (route_families a))]
        in Inr \<lparr>ga_candidate_id = ca_candidate_id a, ga_conditions = conditions,
             ga_median_binding_dimensions = binding, ga_median_duplicate_rate = duplicate,
             ga_median_unique_hypothesis_rate = unique, ga_qualifies = list_all snd conditions,
             ga_route_family_count = length (route_families a), ga_targets_solved = targets_solved a\<rparr>))))"

type_synonym tie_key = "int \<times> rat \<times> int \<times> rat \<times> bool \<times> rat"

definition tie_break_key :: "gate_result \<times> candidate_aggregate \<Rightarrow> tie_key" where
  "tie_break_key ga = (case ga of (g, a) \<Rightarrow>
     (- int (ga_targets_solved g), - ga_median_binding_dimensions g, - int (ga_route_family_count g),
      ga_median_duplicate_rate g, median_calls_to_first_ce a))"

record selection =
  sl_gates :: "gate_result list"
  sl_outcome :: string
  sl_selected_candidate :: "string option"

definition select :: "candidate_aggregate list \<Rightarrow> selection res" where
  "select aggregates =
     bindE (mapE (\<lambda>a. bindE (gate a) (\<lambda>g. Inr (g, a))) aggregates) (\<lambda>gates.
       (let passing = filter (\<lambda>(g, a). ga_qualifies g) gates in
        case sort_key tie_break_key passing of
          [] \<Rightarrow> Inr \<lparr>sl_gates = map fst gates, sl_outcome = NO_ADVERSARY, sl_selected_candidate = None\<rparr>
        | (g, a) # _ \<Rightarrow> Inr \<lparr>sl_gates = map fst gates, sl_outcome = QUALIFIED @ '': '' @ ga_candidate_id g,
              sl_selected_candidate = Some (ga_candidate_id g)\<rparr>))"

subsection \<open>The first minimum\<close>

lemma sort_key_Nil_iff [simp]: "sort_key f xs = [] \<longleftrightarrow> xs = []"
  by (metis length_sort length_0_conv)

lemma insort_key_hd: "hd (insort_key f x ys) = (if ys = [] \<or> f x \<le> f (hd ys) then x else hd ys)"
  by (cases ys) auto

lemma sort_key_first:
  fixes f :: "'a \<Rightarrow> 'b :: linorder"
  assumes "sort_key f xs = y # ys"
  shows "\<exists>us vs. xs = us @ y # vs \<and> (\<forall>u \<in> set us. f y < f u) \<and> (\<forall>v \<in> set vs. f y \<le> f v)"
  using assms
proof (induction xs arbitrary: y ys)
  case (Cons x xs)
  show ?case
  proof (cases "sort_key f xs")
    case Nil
    then have "xs = []" by simp
    then show ?thesis using Cons.prems by (intro exI [of _ "[]"]) simp
  next
    case (Cons z zs)
    then obtain us vs where s: "xs = us @ z # vs" "\<forall>u \<in> set us. f z < f u" "\<forall>v \<in> set vs. f z \<le> f v"
      using Cons.IH by blast
    have y: "y = hd (insort_key f x (z # zs))" using Cons.prems Cons by simp
    show ?thesis
    proof (cases "f x \<le> f z")
      case True
      then have "y = x" using y by (simp add: insort_key_hd)
      moreover have "\<forall>v \<in> set xs. f x \<le> f v" using s True by auto
      ultimately show ?thesis by (intro exI [of _ "[]"] exI [of _ xs]) simp
    next
      case False
      then have "y = z" using y by (simp add: insort_key_hd)
      then show ?thesis using s False by (intro exI [of _ "x # us"] exI [of _ vs]) auto
    qed
  qed
qed simp

lemma filter_split:
  "filter P xs = us @ y # vs \<Longrightarrow> \<exists>as bs. xs = as @ y # bs \<and> filter P as = us \<and> filter P bs = vs \<and> P y"
proof (induction xs arbitrary: us)
  case (Cons x xs)
  show ?case
  proof (cases "P x \<and> us = []")
    case True
    then show ?thesis using Cons.prems by (intro exI [of _ "[]"] exI [of _ xs]) auto
  next
    case False
    then obtain us' where us: "filter P xs = us' @ y # vs" "us = (if P x then x # us' else us')"
      using Cons.prems by (cases us) (auto split: if_splits)
    from Cons.IH [OF us(1)] obtain as bs where "xs = as @ y # bs" "filter P as = us'" "filter P bs = vs" "P y" by blast
    then show ?thesis using us(2) by (intro exI [of _ "x # as"] exI [of _ bs]) auto
  qed
qed simp

subsection \<open>Gate and selection\<close>

lemma median_raises_iff: "median mean xs = Inl e \<longleftrightarrow> xs = [] \<and> e = StatisticsError"
  by (auto simp: median_def Let_def)

lemma median_total: "xs \<noteq> [] \<Longrightarrow> \<exists>m. median mean xs = Inr m"
  by (simp add: median_def Let_def)

lemma gate_total:
  assumes "ca_results a \<noteq> []"
  shows "\<exists>g. gate a = Inr g"
proof -
  obtain b d u where "median_binding_dimensions a = Inr b" "median_duplicate_rate a = Inr d"
    "median_unique_hypothesis_rate a = Inr u"
    using median_total [of "map of_int (map (\<lambda>r. int (length (pv_binding_dimensions_varied r))) (ca_results a))"]
      median_total [of "map pv_duplicate_probe_rate (ca_results a)"]
      median_total [of "map pv_unique_hypothesis_rate (ca_results a)"] assms
    unfolding median_binding_dimensions_def median_duplicate_rate_def median_unique_hypothesis_rate_def
      median_int_def median_float_def Nil_is_map_conv by blast
  then show ?thesis by (simp add: gate_def)
qed

lemma gate_empty: "ca_results a = [] \<Longrightarrow> gate a = Inl StatisticsError"
  by (simp add: gate_def median_binding_dimensions_def median_int_def median_def)

lemma gate_qualifies:
  assumes "gate a = Inr g" "ga_qualifies g"
  shows "MIN_TARGETS_SOLVED \<le> targets_solved a" "evidence_integrity_all_pass a" "leak_audit_passes a = LEAK_AUDIT_PASS_TARGETS"
    "MIN_COMPLETED_WITHOUT_TERMINAL_FAILURE \<le> completed_without_terminal_failure a" "replay_all_match a"
    "MIN_ROUTE_FAMILIES \<le> length (route_families a)"
  using assms by (auto simp: gate_def bindE_Inr_iff Let_def)

lemma gate_id: "gate a = Inr g \<Longrightarrow> ga_candidate_id g = ca_candidate_id a"
  by (auto simp: gate_def bindE_Inr_iff Let_def)

definition qualifies :: "candidate_aggregate \<Rightarrow> bool" where
  "qualifies a \<longleftrightarrow> (case gate a of Inl _ \<Rightarrow> False | Inr g \<Rightarrow> ga_qualifies g)"

definition rank_of :: "candidate_aggregate \<Rightarrow> tie_key" where
  "rank_of a = tie_break_key (projr (gate a), a)"

lemma select_spec:
  assumes "\<forall>a \<in> set as. ca_results a \<noteq> []"
  shows "\<exists>s. select as = Inr s
    \<and> (if filter qualifies as = [] then sl_selected_candidate s = None
        else (\<exists>a us vs. sl_selected_candidate s = Some (ca_candidate_id a) \<and> filter qualifies as = us @ a # vs
              \<and> (\<forall>b \<in> set us. rank_of a < rank_of b) \<and> (\<forall>b \<in> set vs. rank_of a \<le> rank_of b)))"
proof -
  let ?g = "\<lambda>a. projr (gate a)"
  have g: "gate a = Inr (?g a)" if "a \<in> set as" for a
    using gate_total [of a] assms that by auto
  let ?gates = "map (\<lambda>a. (?g a, a)) as"
  have gates: "mapE (\<lambda>a. bindE (gate a) (\<lambda>g. Inr (g, a))) as = Inr ?gates"
  proof (rule mapE_Inr)
    fix a assume "a \<in> set as"
    then obtain h where "gate a = Inr h" using g by blast
    then show "bindE (gate a) (\<lambda>g. Inr (g, a)) = Inr (?g a, a)" by simp
  qed
  have q: "ga_qualifies (?g a) = qualifies a" if "a \<in> set as" for a
    using g [OF that] by (cases "gate a") (simp_all add: qualifies_def)
  have "filter (\<lambda>(g, a). ga_qualifies g) ?gates = map (\<lambda>a. (?g a, a)) (filter (\<lambda>a. ga_qualifies (?g a)) as)"
    by (simp add: filter_map comp_def)
  also have "filter (\<lambda>a. ga_qualifies (?g a)) as = filter qualifies as" using q by (intro filter_cong) simp_all
  finally have passing: "filter (\<lambda>(g, a). ga_qualifies g) ?gates = map (\<lambda>a. (?g a, a)) (filter qualifies as)" .
  show ?thesis
  proof (cases "sort_key tie_break_key (map (\<lambda>a. (?g a, a)) (filter qualifies as))")
    case Nil
    then have "filter qualifies as = []" by simp
    then show ?thesis unfolding select_def gates bindE_simps passing Let_def by simp
  next
    case (Cons y ys)
    then obtain us vs where s: "map (\<lambda>a. (?g a, a)) (filter qualifies as) = us @ y # vs"
      "\<forall>u \<in> set us. tie_break_key y < tie_break_key u" "\<forall>v \<in> set vs. tie_break_key y \<le> tie_break_key v"
      using sort_key_first [OF Cons] by blast
    from s(1) obtain as1 a as2 where a: "filter qualifies as = as1 @ a # as2" "us = map (\<lambda>a. (?g a, a)) as1"
      "y = (?g a, a)" "vs = map (\<lambda>a. (?g a, a)) as2"
      by (auto simp: map_eq_append_conv map_eq_Cons_conv)
    have "a \<in> set (filter qualifies as)" using a(1) by simp
    then have mem: "a \<in> set as" by simp
    then have "ca_candidate_id a = ga_candidate_id (?g a)" using gate_id [OF g [of a]] by simp
    moreover have "\<forall>b \<in> set as1. rank_of a < rank_of b" "\<forall>b \<in> set as2. rank_of a \<le> rank_of b"
      using s(2,3) a(2-4) by (simp_all add: rank_of_def)
    moreover have "filter qualifies as \<noteq> []" using a(1) by simp
    moreover have "\<exists>s. select as = Inr s \<and> sl_selected_candidate s = Some (ga_candidate_id (?g a))"
      unfolding select_def gates bindE_simps passing Let_def Cons a(3) by simp
    ultimately have "\<exists>s. select as = Inr s \<and> sl_selected_candidate s = Some (ca_candidate_id a) \<and> filter qualifies as \<noteq> []
        \<and> filter qualifies as = as1 @ a # as2 \<and> (\<forall>b \<in> set as1. rank_of a < rank_of b) \<and> (\<forall>b \<in> set as2. rank_of a \<le> rank_of b)"
      using a(1) by simp
    then show ?thesis by (metis (no_types, lifting))
  qed
qed

subsection \<open>What the frozen rules demand\<close>

text \<open>
  The gate and the order of the rules, written over the published results of a candidate: the
  thresholds as numbers (the two rates compare as doubles), the order as the comparison of one
  criterion after the other.
\<close>

definition within_limits :: "published list \<Rightarrow> bool" where
  "within_limits rs \<longleftrightarrow>
     6 \<le> length (filter (\<lambda>r. pv_counterexample_discovered r \<and> \<not> pv_terminal_failure r) rs)
   \<and> 7 \<le> length (filter (\<lambda>r. \<not> pv_terminal_failure r) rs)
   \<and> length (filter (\<lambda>r. pv_leak_audit r = ''PASS'') rs) = 8
   \<and> (\<forall>r \<in> set rs. pv_evidence_integrity r = ''PASS'' \<and> pv_replay_matches_final r)
   \<and> 4 \<le> card (set (concat (map pv_route_families_probed rs)))
   \<and> (case median_int (map (\<lambda>r. int (length (pv_binding_dimensions_varied r))) rs) of Inr m \<Rightarrow> 4 \<le> m | Inl _ \<Rightarrow> False)
   \<and> (case median_float (map pv_duplicate_probe_rate rs) of Inr m \<Rightarrow> m \<le> double (35 / 100) | Inl _ \<Rightarrow> False)
   \<and> (case median_float (map pv_unique_hypothesis_rate rs) of Inr m \<Rightarrow> double (60 / 100) \<le> m | Inl _ \<Rightarrow> False)"

text \<open>A lower median number of calls is better; without any calls to take it of, it counts as infinite.\<close>

definition fewer_calls :: "published list \<Rightarrow> published list \<Rightarrow> bool" where
  "fewer_calls rs qs \<longleftrightarrow>
     (let calls = \<lambda>rs. median_int [n. r \<leftarrow> rs, n \<leftarrow> (case pv_calls_to_first_counterexample r of None \<Rightarrow> [] | Some n \<Rightarrow> [n]), n \<noteq> 0] in
      case (calls rs, calls qs) of (Inr m, Inr n) \<Rightarrow> m < n | (Inr _, Inl _) \<Rightarrow> True | (Inl _, _) \<Rightarrow> False)"

definition outranks :: "published list \<Rightarrow> published list \<Rightarrow> bool" where
  "outranks rs qs \<longleftrightarrow>
     (let solved = \<lambda>rs. length (filter (\<lambda>r. pv_counterexample_discovered r \<and> \<not> pv_terminal_failure r) rs);
          dims = \<lambda>rs. projr (median_int (map (\<lambda>r. int (length (pv_binding_dimensions_varied r))) rs));
          families = \<lambda>rs. card (set (concat (map pv_route_families_probed rs)));
          duplicates = \<lambda>rs. projr (median_float (map pv_duplicate_probe_rate rs)) in
      solved qs < solved rs \<or> solved rs = solved qs \<and>
        (dims qs < dims rs \<or> dims rs = dims qs \<and>
          (families qs < families rs \<or> families rs = families qs \<and>
            (duplicates rs < duplicates qs \<or> duplicates rs = duplicates qs \<and> fewer_calls rs qs))))"

lemma qualifies_within: "qualifies a \<longleftrightarrow> within_limits (ca_results a)"
proof -
  have "set (route_families a) = set (concat (map pv_route_families_probed (ca_results a)))"
    and "distinct (route_families a)" by (simp_all add: route_families_def)
  then have "length (route_families a) = card (set (concat (map pv_route_families_probed (ca_results a))))"
    using distinct_card by metis
  then show ?thesis
    unfolding qualifies_def gate_def within_limits_def median_binding_dimensions_def median_duplicate_rate_def
      median_unique_hypothesis_rate_def
    by (cases "median_int (map (\<lambda>r. int (length (pv_binding_dimensions_varied r))) (ca_results a))";
        cases "median_float (map pv_duplicate_probe_rate (ca_results a))";
        cases "median_float (map pv_unique_hypothesis_rate (ca_results a))")
      (auto simp: Let_def MIN_TARGETS_SOLVED_def MIN_MEDIAN_BINDING_DIMENSIONS_def MIN_ROUTE_FAMILIES_def
        MAX_MEDIAN_DUPLICATE_RATE_def MIN_MEDIAN_UNIQUE_HYPOTHESIS_RATE_def LEAK_AUDIT_PASS_TARGETS_def
        MIN_COMPLETED_WITHOUT_TERMINAL_FAILURE_def PASS_def targets_solved_def leak_audit_passes_def
        completed_without_terminal_failure_def evidence_integrity_all_pass_def replay_all_match_def list_all_iff)
qed

lemma calls_values:
  "concat (map (\<lambda>r. case pv_calls_to_first_counterexample r of None \<Rightarrow> [] | Some n \<Rightarrow> if n = 0 then [] else [n]) rs)
   = [n. r \<leftarrow> rs, n \<leftarrow> (case pv_calls_to_first_counterexample r of None \<Rightarrow> [] | Some n \<Rightarrow> [n]), n \<noteq> 0]"
  by (induction rs) (auto split: option.split)

lemma calls_less: "median_calls_to_first_ce a < median_calls_to_first_ce b \<longleftrightarrow> fewer_calls (ca_results a) (ca_results b)"
  unfolding median_calls_to_first_ce_def fewer_calls_def Let_def calls_values
  by (auto simp: less_prod_simp split: sum.split dest: median_raises_iff [THEN iffD1, unfolded median_int_def [symmetric]])

lemma key_less:
  "(- int n, - x, - int k, d, c) < (- int n', - x', - int k', d', c') \<longleftrightarrow>
     n' < n \<or> n = n' \<and> (x' < x \<or> x = x' \<and> (k' < k \<or> k = k' \<and> (d < d' \<or> d = d' \<and> c < c')))"
  for x x' d d' :: rat and c c' :: "bool \<times> rat"
  by auto

lemma rank_outranks:
  assumes "ca_results a \<noteq> []" "ca_results b \<noteq> []"
  shows "rank_of a < rank_of b \<longleftrightarrow> outranks (ca_results a) (ca_results b)"
proof -
  have key: "rank_of c = (- int (length (filter (\<lambda>r. pv_counterexample_discovered r \<and> \<not> pv_terminal_failure r) (ca_results c))),
      - projr (median_int (map (\<lambda>r. int (length (pv_binding_dimensions_varied r))) (ca_results c))),
      - int (card (set (concat (map pv_route_families_probed (ca_results c))))),
      projr (median_float (map pv_duplicate_probe_rate (ca_results c))), median_calls_to_first_ce c)"
    if c: "ca_results c \<noteq> []" for c
  proof -
    obtain g where g: "gate c = Inr g" using gate_total [OF c] by blast
    have "length (route_families c) = card (set (concat (map pv_route_families_probed (ca_results c))))"
      unfolding route_families_def by (simp add: length_remdups_card_conv)
    then show ?thesis
      using g by (auto simp: rank_of_def tie_break_key_def gate_def bindE_Inr_iff Let_def targets_solved_def
          median_binding_dimensions_def median_duplicate_rate_def)
  qed
  show ?thesis
    unfolding key [OF assms(1)] key [OF assms(2)] outranks_def Let_def key_less calls_less ..
qed

lemma select_outcome:
  assumes "select as = Inr s"
  shows "sl_outcome s = (case sl_selected_candidate s of None \<Rightarrow> ''NO_ADVERSARY_QUALIFIED''
    | Some c \<Rightarrow> ''QUALIFIED_FOR_SEQUENCE_005_CANDIDACY: '' @ c)"
proof -
  obtain gates where "mapE (\<lambda>a. bindE (gate a) (\<lambda>g. Inr (g, a))) as = Inr gates"
    using assms unfolding select_def bindE_Inr_iff by blast
  note s = assms [unfolded select_def this bindE_simps Let_def]
  have "sl_outcome s = (case sl_selected_candidate s of None \<Rightarrow> NO_ADVERSARY | Some c \<Rightarrow> QUALIFIED @ '': '' @ c)"
    using s by (cases "sort_key tie_break_key (filter (\<lambda>(g, a). ga_qualifies g) gates)") auto
  then show ?thesis by (simp add: NO_ADVERSARY_def QUALIFIED_def split: option.split)
qed

lemma select_best:
  assumes "\<forall>a \<in> set as. ca_results a \<noteq> []"
  obtains s where "select as = Inr s" "\<forall>a \<in> set as. \<not> within_limits (ca_results a)"
      "sl_selected_candidate s = None" "sl_outcome s = ''NO_ADVERSARY_QUALIFIED''"
  | s us a vs where "select as = Inr s" "as = us @ a # vs" "within_limits (ca_results a)"
      "sl_selected_candidate s = Some (ca_candidate_id a)"
      "sl_outcome s = ''QUALIFIED_FOR_SEQUENCE_005_CANDIDACY: '' @ ca_candidate_id a"
      "\<forall>b \<in> set us. within_limits (ca_results b) \<longrightarrow> outranks (ca_results a) (ca_results b)"
      "\<forall>b \<in> set vs. within_limits (ca_results b) \<longrightarrow> \<not> outranks (ca_results b) (ca_results a)"
proof -
  obtain s where s: "select as = Inr s" and c: "if filter qualifies as = [] then sl_selected_candidate s = None
        else (\<exists>a us vs. sl_selected_candidate s = Some (ca_candidate_id a) \<and> filter qualifies as = us @ a # vs
              \<and> (\<forall>b \<in> set us. rank_of a < rank_of b) \<and> (\<forall>b \<in> set vs. rank_of a \<le> rank_of b))"
    using select_spec [OF assms] by blast
  note outcome = select_outcome [OF s]
  show thesis
  proof (cases "filter qualifies as = []")
    case True
    then have "\<forall>a \<in> set as. \<not> within_limits (ca_results a)" by (simp add: filter_empty_conv qualifies_within)
    with that(1) s c True outcome show thesis by simp
  next
    case False
    then obtain a us vs where a: "sl_selected_candidate s = Some (ca_candidate_id a)" "filter qualifies as = us @ a # vs"
      "\<forall>b \<in> set us. rank_of a < rank_of b" "\<forall>b \<in> set vs. rank_of a \<le> rank_of b" using c by auto
    from filter_split [OF a(2)] obtain xs ys where xs: "as = xs @ a # ys" "filter qualifies xs = us"
      "filter qualifies ys = vs" "qualifies a" by blast
    have n: "ca_results b \<noteq> []" if "b \<in> set xs \<union> set ys \<union> {a}" for b using assms that by (auto simp: xs(1))
    have "outranks (ca_results a) (ca_results b)" if "b \<in> set xs" "within_limits (ca_results b)" for b
      using a(3) that xs(2) rank_outranks [OF n n, of a b] by (auto simp: qualifies_within)
    moreover have "\<not> outranks (ca_results b) (ca_results a)" if "b \<in> set ys" "within_limits (ca_results b)" for b
      using a(4) that xs(3) rank_outranks [OF n n, of b a] by (auto simp: qualifies_within not_le [symmetric])
    ultimately show thesis
      using that(2) [OF s xs(1) _ a(1)] xs(4) outcome a(1) by (simp add: qualifies_within)
  qed
qed

text \<open>C21: The selection applies the frozen rules exactly: when every candidate has results, none is selected
  exactly when none has at least six targets solved without terminal failure, at least seven
  completed, eight leak audits passed, all evidence intact and replayed, four route families, a
  median of four dimensions, and median rates of at most 0.35 duplicates and at least 0.60 unique
  hypotheses. Otherwise the selected candidate meets all of these, no other that does outranks it
  (more targets solved; then more dimensions; more families; fewer duplicates; fewer calls to the
  first counterexample, none counting as infinite), and it outranks every one listed before it.\<close>

theorem selected_candidate_is_best:
  assumes "\<forall>a \<in> set as. ca_results a \<noteq> []"
  shows "(\<exists>s. select as = Inr s \<and> sl_selected_candidate s = None \<and> sl_outcome s = ''NO_ADVERSARY_QUALIFIED''
        \<and> (\<forall>a \<in> set as. \<not> within_limits (ca_results a)))
    \<or> (\<exists>s us a vs. select as = Inr s \<and> as = us @ a # vs \<and> within_limits (ca_results a)
        \<and> sl_selected_candidate s = Some (ca_candidate_id a)
        \<and> sl_outcome s = ''QUALIFIED_FOR_SEQUENCE_005_CANDIDACY: '' @ ca_candidate_id a
        \<and> (\<forall>b \<in> set us. within_limits (ca_results b) \<longrightarrow> outranks (ca_results a) (ca_results b))
        \<and> (\<forall>b \<in> set vs. within_limits (ca_results b) \<longrightarrow> \<not> outranks (ca_results b) (ca_results a)))"
  by (rule select_best [OF assms]) blast+

text \<open>A perfect result, eight of which qualify.\<close>

definition solved_result :: published where
  "solved_result = \<lparr>pv_binding_dimensions_varied = [''tenant'', ''sink'', ''principal'', ''action''],
     pv_calls_to_first_counterexample = Some 3, pv_candidate_id = ''candidate'', pv_counterexample_discovered = True,
     pv_duplicate_probe_rate = 0, pv_evidence_integrity = PASS, pv_leak_audit = PASS, pv_provider_calls = 9,
     pv_replay_matches_final = True,
     pv_route_families_probed = [''conventional_rest'', ''administrative_control'', ''legacy_compatibility'', ''async_queue_like''],
     pv_stop_reason = ''MODEL_VOLUNTARY_STOP'', pv_target_attempts = 8, pv_target_id = ''synthetic-target-01'',
     pv_terminal_failure = False, pv_unique_hypothesis_rate = 1\<rparr>"

definition solver :: "string \<Rightarrow> candidate_aggregate" where
  "solver c = \<lparr>ca_candidate_id = c, ca_results = replicate 8 solved_result\<rparr>"

text \<open>One that needs more calls.\<close>

definition slow_solver :: "string \<Rightarrow> candidate_aggregate" where
  "slow_solver c = \<lparr>ca_candidate_id = c,
     ca_results = replicate 8 (solved_result\<lparr>pv_calls_to_first_counterexample := Some 5\<rparr>)\<rparr>"

lemma outranks_irreflexive: "\<not> outranks rs rs"
  by (simp add: outranks_def fewer_calls_def Let_def split: sum.split)

lemma median_of_eight: "median_int (replicate 8 m) = Inr (double (of_int m))"
proof -
  have "sorted (replicate 8 (of_int m :: rat))" by (simp add: numeral_eq_Suc)
  then show ?thesis by (simp add: median_int_def median_def Let_def sort_key_id_if_sorted)
qed

lemma calls_of_eight:
  "m \<noteq> 0 \<Longrightarrow> median_int [n. r \<leftarrow> replicate 8 (solved_result\<lparr>pv_calls_to_first_counterexample := Some m\<rparr>),
     n \<leftarrow> (case pv_calls_to_first_counterexample r of None \<Rightarrow> [] | Some n \<Rightarrow> [n]), n \<noteq> 0] = Inr (double (of_int m))"
  unfolding median_of_eight [symmetric] by (simp add: numeral_eq_Suc)

lemma solver_facts:
  "within_limits (ca_results (solver c))" "within_limits (ca_results (slow_solver c))"
  "outranks (ca_results (solver c)) (ca_results (slow_solver d))" "\<not> outranks (ca_results (solver c)) (ca_results (solver d))"
proof -
  have s: "solved_result = solved_result\<lparr>pv_calls_to_first_counterexample := Some 3\<rparr>" by (simp add: solved_result_def)
  show w: "within_limits (ca_results (solver c))" unfolding solver_def candidate_aggregate.select_convs by code_simp
  then show "within_limits (ca_results (slow_solver c))"
    by (simp add: solver_def slow_solver_def within_limits_def filter_replicate split: if_splits)
  have "double 3 < double 5" by code_simp
  then have "fewer_calls (replicate 8 solved_result) (replicate 8 (solved_result\<lparr>pv_calls_to_first_counterexample := Some 5\<rparr>))"
    unfolding fewer_calls_def Let_def by (subst s) (simp add: calls_of_eight median_of_eight)
  then show "outranks (ca_results (solver c)) (ca_results (slow_solver d))"
    by (simp add: solver_def slow_solver_def outranks_def Let_def filter_replicate)
  show "\<not> outranks (ca_results (solver c)) (ca_results (solver d))" by (simp add: solver_def outranks_irreflexive)
qed

lemma selected_candidate_is_best_witness:
  "\<exists>s. select [slow_solver ''candidate-A'', solver ''candidate-B'', solver ''candidate-C''] = Inr s
     \<and> sl_selected_candidate s = Some ''candidate-B''"
proof -
  let ?as = "[slow_solver ''candidate-A'', solver ''candidate-B'', solver ''candidate-C'']"
  have r: "\<forall>a \<in> set ?as. ca_results a \<noteq> []" by (simp add: solver_def slow_solver_def)
  have "\<exists>a \<in> set ?as. within_limits (ca_results a)" using solver_facts(1) by simp
  with selected_candidate_is_best [OF r] obtain s us a vs where s: "select ?as = Inr s" "?as = us @ a # vs"
    "sl_selected_candidate s = Some (ca_candidate_id a)"
    "\<forall>b \<in> set us. within_limits (ca_results b) \<longrightarrow> outranks (ca_results a) (ca_results b)"
    "\<forall>b \<in> set vs. within_limits (ca_results b) \<longrightarrow> \<not> outranks (ca_results b) (ca_results a)" by blast
  consider "us = []" "a = slow_solver ''candidate-A''" "vs = [solver ''candidate-B'', solver ''candidate-C'']"
    | "us = [slow_solver ''candidate-A'']" "a = solver ''candidate-B''"
    | "us = [slow_solver ''candidate-A'', solver ''candidate-B'']" "a = solver ''candidate-C''"
    using s(2) by (auto simp: Cons_eq_append_conv)
  then have "a = solver ''candidate-B''"
    by cases (use s(4,5) solver_facts in simp_all)
  with s(1,3) show ?thesis by (simp add: solver_def)
qed

subsection \<open>One pair decides\<close>

lemma qualifies_all:
  assumes "qualifies a" "p \<in> set (ca_results a)"
  shows "pv_evidence_integrity p = PASS" "pv_replay_matches_final p" "length (ca_results a) = 8 \<Longrightarrow> pv_leak_audit p = PASS"
proof -
  obtain g where g: "gate a = Inr g" "ga_qualifies g" using assms(1) by (auto simp: qualifies_def split: sum.splits)
  show "pv_evidence_integrity p = PASS" "pv_replay_matches_final p"
    using gate_qualifies(2,5) [OF g] assms(2) by (simp_all add: evidence_integrity_all_pass_def replay_all_match_def list_all_iff)
  show "pv_leak_audit p = PASS" if n: "length (ca_results a) = 8"
  proof (rule ccontr)
    assume "pv_leak_audit p \<noteq> PASS"
    then have "leak_audit_passes a < length (ca_results a)"
      unfolding leak_audit_passes_def using assms(2) by (intro length_filter_less)
    then show False using gate_qualifies(3) [OF g] n by (simp add: LEAK_AUDIT_PASS_TARGETS_def)
  qed
qed

lemma persisted_leak: "persist_and_verify r d = Inr (d', p) \<Longrightarrow> pv_leak_audit p = pr_leak_audit r"
  by (auto simp: persist_and_verify_def Let_def bindE_Inr_iff published_view_def split: if_splits)

lemma run_leak: "run_candidate_on_target env candidate_id prompt t seed budgets = Inr r
    \<Longrightarrow> pr_leak_audit r = la_status (audit_pair candidate_id prompt t seed)"
  using run_audit_artifact run_result unfolding result_of_def by metis

text \<open>C20: One pair decides a campaign: a candidate that has, among its eight results, one of a target whose
  undeclared route lies directly below control/commit, or one whose run broke off after a first
  counterexample, or one whose first counterexample came in a call whose request names no commit
  identifier, does not qualify, whatever its other results are; although the gate means to tolerate
  one terminal failure, and a candidate cannot influence the audit of a target. The names and the
  evidence of that run are ASCII, its attempt rows read back as they were written, and its results
  were persisted in a directory without duplicate or multi-line names.\<close>

theorem one_pair_disqualifies:
  assumes "run_candidate_on_target env candidate_id prompt t seed budgets = Inr r"
    and "persist_and_verify r d = Inr (d', p)" "p \<in> set (ca_results a)" "length (ca_results a) = 8"
    and "\<forall>row \<in> set (pr_attempts_seq r). steady_row row" "\<forall>c \<in> set (pr_adjudicator_evidence r). ascii_doc c"
    and "ascii candidate_id" "ascii (st_target_id t)" "plain_dir d"
    and "(\<exists>token exposed. undeclared_path t = ''/control/commit/'' @ token \<and> CHR ''/'' \<notin> set token \<and> token \<noteq> []
          \<and> st_request_contract t = request_contract exposed)
      \<or> (pr_terminal_failure r \<and> pr_calls_to_first_counterexample r \<noteq> None)
      \<or> (\<exists>n. pr_counterexample_discovered r \<and> pr_calls_to_first_counterexample r = Some n
          \<and> (\<forall>row \<in> set (pr_attempts_seq r). int_field row ''provider_call'' = Inr n \<longrightarrow> jget_or row ''commit_id'' JNull = JNull))"
  shows "\<not> qualifies a"
proof
  assume q: "qualifies a"
  from assms(10) show False
  proof
    assume "\<exists>token exposed. undeclared_path t = ''/control/commit/'' @ token \<and> CHR ''/'' \<notin> set token \<and> token \<noteq> []
        \<and> st_request_contract t = request_contract exposed"
    then have "la_status (audit_pair candidate_id prompt t seed) = FAIL" using commit_segment_fails by blast
    moreover have "la_status (audit_pair candidate_id prompt t seed) = PASS"
      using qualifies_all(3) [OF q assms(3,4)] persisted_leak [OF assms(2)] run_leak [OF assms(1)] by simp
    ultimately show False by (simp add: PASS_def FAIL_def)
  next
    assume "(pr_terminal_failure r \<and> pr_calls_to_first_counterexample r \<noteq> None)
      \<or> (\<exists>n. pr_counterexample_discovered r \<and> pr_calls_to_first_counterexample r = Some n
          \<and> (\<forall>row \<in> set (pr_attempts_seq r). int_field row ''provider_call'' = Inr n \<longrightarrow> jget_or row ''commit_id'' JNull = JNull))"
    then obtain d'' p' where "persist_and_verify r d = Inr (d'', p')" "\<not> pv_replay_matches_final p'"
      using disowned_run [OF assms(1,5-9)] by blast
    then show False using assms(2) qualifies_all(2) [OF q assms(3)] by simp
  qed
qed

lemma one_pair_disqualifies_witness:
  "\<exists>r d p. run_candidate_on_target crossing_env ''candidate'' ''prompt'' crossing_target [] [] = Inr r
     \<and> persist_and_verify r [] = Inr (d, p)
     \<and> \<not> qualifies \<lparr>ca_candidate_id = ''candidate'', ca_results = p # replicate 7 solved_result\<rparr>"
proof -
  obtain r row where r: "run_candidate_on_target crossing_env ''candidate'' ''prompt'' crossing_target [] [] = Inr r"
    "pr_terminal_failure r" "pr_calls_to_first_counterexample r = Some 1"
    "pr_attempts_seq r = [row]" "steady_row row" "pr_adjudicator_evidence r = [commit_record crossing_commit]"
    using crossing_run by blast
  have rows: "\<forall>row \<in> set (pr_attempts_seq r). steady_row row" "\<forall>c \<in> set (pr_adjudicator_evidence r). ascii_doc c"
    using r(4-6) crossing_plain(3) by simp_all
  obtain d p where p: "persist_and_verify r [] = Inr (d, p)"
    using persist_of_run [OF r(1) rows crossing_plain(1,2,4)] by blast
  let ?a = "\<lparr>ca_candidate_id = ''candidate'', ca_results = p # replicate 7 solved_result\<rparr>"
  have "\<not> qualifies ?a"
    by (rule one_pair_disqualifies [OF r(1) p _ _ rows crossing_plain(1,2,4)]) (use r(2,3) in simp_all)
  with r(1) p show ?thesis by blast
qed

end
