(* ===== verification/Nim_Stream.thy ===== *)
theory Nim_Stream
  imports Json_Roundtrip
begin

section \<open>Server-sent events\<close>

text \<open>
  The streaming answer of the provider, as \<open>oat/qualification/provider.py\<close> and the runners under
  \<open>tools\<close> read it: the data payloads of a byte stream, the reader that stops at the end marker and the
  reconstruction of the content. Text is UTF-8 bytes, so a line separator beyond ASCII is a
  sequence of two or three of them.
\<close>

subsection \<open>Text\<close>

definition continuation :: "char \<Rightarrow> bool" where
  "continuation c \<longleftrightarrow> 128 \<le> byte c \<and> byte c < 192"

text \<open>Whether \<open>raw.decode("utf-8")\<close> succeeds.\<close>

fun utf8_valid :: "string \<Rightarrow> bool" where
  "utf8_valid [] = True"
| "utf8_valid (a # s) =
     (if byte a < 128 then utf8_valid s
      else if byte a < 194 then False
      else if byte a < 224 then (case s of b # s' \<Rightarrow> continuation b \<and> utf8_valid s' | _ \<Rightarrow> False)
      else if byte a < 240 then
        (case s of b # c # s' \<Rightarrow> continuation b \<and> continuation c
             \<and> (byte a = 224 \<longrightarrow> 160 \<le> byte b) \<and> (byte a = 237 \<longrightarrow> byte b < 160) \<and> utf8_valid s'
         | _ \<Rightarrow> False)
      else if byte a < 245 then
        (case s of b # c # d # s' \<Rightarrow> continuation b \<and> continuation c \<and> continuation d
             \<and> (byte a = 240 \<longrightarrow> 144 \<le> byte b) \<and> (byte a = 244 \<longrightarrow> byte b < 144) \<and> utf8_valid s'
         | _ \<Rightarrow> False)
      else False)"

text \<open>The length of the line boundary, and of the white space, at the head of a text.\<close>

fun boundary :: "string \<Rightarrow> nat" where
  "boundary (a # s) =
     (if a = CHR 0x0D \<and> take 1 s = [CHR 0x0A] then 2
      else if (10 \<le> byte a \<and> byte a \<le> 13) \<or> (28 \<le> byte a \<and> byte a \<le> 30) then 1
      else if byte a = 194 \<and> take 1 (map byte s) = [133] then 2
      else if byte a = 226 \<and> take 2 (map byte s) \<in> {[128, 168], [128, 169]} then 3
      else 0)"
| "boundary [] = 0"

fun white :: "string \<Rightarrow> nat" where
  "white (a # s) =
     (if (9 \<le> byte a \<and> byte a \<le> 13) \<or> (28 \<le> byte a \<and> byte a \<le> 32) then 1
      else if byte a = 194 \<and> take 1 (map byte s) \<in> {[133], [160]} then 2
      else if byte a = 225 \<and> take 2 (map byte s) = [154, 128] then 3
      else if byte a = 226 \<and> take 1 (map byte s) = [128]
           \<and> (case map byte s of _ # c # _ \<Rightarrow> (128 \<le> c \<and> c \<le> 138) \<or> c \<in> {168, 169, 175} | _ \<Rightarrow> False) then 3
      else if byte a = 226 \<and> take 2 (map byte s) = [129, 159] then 3
      else if byte a = 227 \<and> take 2 (map byte s) = [128, 128] then 3
      else 0)"
| "white [] = 0"

text \<open>\<open>str.splitlines()\<close> and \<open>str.lstrip()\<close>.\<close>

function text_lines :: "string \<Rightarrow> string list" where
  "text_lines [] = []"
| "text_lines (c # s) =
     (if boundary (c # s) = 0 then (case text_lines s of [] \<Rightarrow> [[c]] | l # ls \<Rightarrow> (c # l) # ls)
      else [] # text_lines (drop (boundary (c # s)) (c # s)))"
  by pat_completeness auto
termination
  by (relation "measure length") auto

function text_lstrip :: "string \<Rightarrow> string" where
  "text_lstrip s = (if white s = 0 then s else text_lstrip (drop (white s) s))"
  by pat_completeness auto
termination
proof (relation "measure length")
  fix s assume "white s \<noteq> 0"
  then show "(drop (white s) s, s) \<in> measure length" by (cases s) auto
qed simp

declare text_lines.simps(2) [simp del] text_lstrip.simps [simp del]

text \<open>\<open>text.replace("\r\n", "\n")\<close> and \<open>text.split("\n\n")\<close>.\<close>

fun unix_lines :: "string \<Rightarrow> string" where
  "unix_lines (c # d # s) = (if c = CHR 0x0D \<and> d = CHR 0x0A then d # unix_lines s else c # unix_lines (d # s))"
| "unix_lines s = s"

fun split_blocks :: "string \<Rightarrow> string list" where
  "split_blocks (c # d # s) =
     (if c = CHR 0x0A \<and> d = CHR 0x0A then [] # split_blocks s
      else (case split_blocks (d # s) of [] \<Rightarrow> [[c]] | b # bs \<Rightarrow> (c # b) # bs))"
| "split_blocks s = [s]"

subsection \<open>Payloads\<close>

definition block_payload :: "string \<Rightarrow> string option" where
  "block_payload block =
     (let lines = map (\<lambda>l. text_lstrip (drop 5 l)) (filter (\<lambda>l. starts_with l ''data:'') (text_lines block))
      in if lines = [] then None else Some (join [CHR 0x0A] lines))"

text \<open>\<open>_data_payloads\<close>, with the error it raises for bytes that are no text.\<close>

definition data_payloads :: "py_exn \<Rightarrow> string \<Rightarrow> string list res" where
  "data_payloads e raw =
     (if utf8_valid raw then Inr (List.map_filter block_payload (split_blocks (unix_lines raw))) else Inl e)"

definition DONE :: string where "DONE = ''[DONE]''"

text \<open>
  \<open>_read_sse_until_done\<close> on a response that offers lines, or only the whole of itself: the bytes it
  took and whether it saw the end marker as an event of its own.
\<close>

datatype sse_response = Lines "string list" | Whole string

definition rstrip_eol :: "string \<Rightarrow> string" where
  "rstrip_eol s = rev (dropWhile (\<lambda>c. c = CHR 0x0A \<or> c = CHR 0x0D) (rev s))"

definition lstrip_bytes :: "string \<Rightarrow> string" where
  "lstrip_bytes s = dropWhile (\<lambda>c. (9 \<le> byte c \<and> byte c \<le> 13) \<or> byte c = 32) s"

fun read_lines :: "string list \<Rightarrow> string list \<Rightarrow> string \<times> bool" where
  "read_lines ev [] = ([], False)"
| "read_lines ev (line # rest) =
     (if line = [] then ([], False)
      else (let normalized = rstrip_eol line in
        if normalized \<noteq> [] then
          (let (raw, done) = read_lines (if starts_with normalized ''data:'' then ev @ [lstrip_bytes (drop 5 normalized)] else ev) rest
           in (line @ raw, done))
        else if ev \<noteq> [] \<and> join [CHR 0x0A] ev = DONE then (line, True)
        else (let (raw, done) = read_lines [] rest in (line @ raw, done))))"

definition read_sse_until_done :: "sse_response \<Rightarrow> string \<times> bool" where
  "read_sse_until_done response =
     (case response of
        Lines ls \<Rightarrow> read_lines [] ls
      | Whole raw \<Rightarrow> (raw, case data_payloads (ValueError ''MALFORMED_SSE'') raw of Inl _ \<Rightarrow> False | Inr ps \<Rightarrow> DONE \<in> set ps))"

subsection \<open>Reconstruction\<close>

definition MALFORMED :: py_exn where "MALFORMED = ValueError ''MALFORMED_SSE''"

definition choice_content :: "json \<Rightarrow> string list res" where
  "choice_content choice =
     (if \<not> is_JObj choice then Inl MALFORMED
      else (let delta = jget_or choice ''delta'' (JObj []) in
        if \<not> is_JObj delta then Inl MALFORMED
        else Inr (case jget_or delta ''content'' JNull of JStr s \<Rightarrow> [s] | _ \<Rightarrow> [])))"

text \<open>One event: its model, if it names one, and its content.\<close>

definition sse_event :: "string \<Rightarrow> string \<Rightarrow> (string \<times> string list) res" where
  "sse_event model data =
     (case json_loads data of
        Inl _ \<Rightarrow> Inl MALFORMED
      | Inr event \<Rightarrow>
          if \<not> is_JObj event then Inl MALFORMED
          else (let model = (case jget event ''model'' of None \<Rightarrow> model | Some m \<Rightarrow> py_str m) in
            case jget_or event ''choices'' JNull of
              JList choices \<Rightarrow> bindE (mapE choice_content choices) (\<lambda>cs. Inr (model, concat cs))
            | _ \<Rightarrow> Inl MALFORMED))"

fun sse_events :: "string \<Rightarrow> string list \<Rightarrow> (string \<times> string \<times> bool) res" where
  "sse_events model [] = Inr ([], model, False)"
| "sse_events model (data # ds) =
     (if data = DONE then bindE (sse_events model ds) (\<lambda>(content, m, done). Inr (content, m, True))
      else bindE (sse_event model data) (\<lambda>(model, cs).
        bindE (sse_events model ds) (\<lambda>(content, m, done). Inr (concat cs @ content, m, done))))"

definition reconstruct_sse :: "string \<Rightarrow> (string \<times> string \<times> bool) res" where
  "reconstruct_sse raw = bindE (data_payloads MALFORMED raw) (sse_events [])"

text \<open>The first event that reports an error, in a stream that may be broken elsewhere.\<close>

fun first_error :: "string list \<Rightarrow> json option" where
  "first_error [] = None"
| "first_error (data # ds) =
     (if data = DONE then first_error ds
      else (case json_loads data of
          Inr (JObj event) \<Rightarrow>
            (case dict_get event ''error'' of
               None \<Rightarrow> first_error ds
             | Some e \<Rightarrow> Some (if is_JObj e then e else JObj [(''type'', JStr ''unknown_provider_error'')]))
        | _ \<Rightarrow> first_error ds))"

definition provider_sse_error :: "string \<Rightarrow> json option" where
  "provider_sse_error raw = (case data_payloads MALFORMED raw of Inl _ \<Rightarrow> None | Inr ps \<Rightarrow> first_error ps)"

definition safe_http_error :: "string \<Rightarrow> json option" where
  "safe_http_error raw =
     (if \<not> utf8_valid raw then None
      else (case json_loads raw of
          Inr (JObj value) \<Rightarrow> (case dict_get value ''error'' of Some (JObj e) \<Rightarrow> Some (JObj e) | _ \<Rightarrow> None)
        | _ \<Rightarrow> None))"

subsection \<open>A stream read back\<close>

text \<open>The events of a provider that sends its content in chunks and then the end marker.\<close>

definition chunk_doc :: "string \<Rightarrow> json" where
  "chunk_doc c = JObj [(''choices'', JList [JObj [(''delta'', JObj [(''content'', JStr c)])]])]"

definition event_line :: "string \<Rightarrow> string" where
  "event_line data = ''data: '' @ data"

definition stream_lines :: "string list \<Rightarrow> string list" where
  "stream_lines datas = concat (map (\<lambda>d. [event_line d @ [CHR 0x0A], [CHR 0x0A]]) datas)"

definition stream_data :: "string list \<Rightarrow> string list" where
  "stream_data cs = map (\<lambda>c. json_text plain_style (chunk_doc c)) cs @ [DONE]"

definition plain_line :: "string \<Rightarrow> bool" where
  "plain_line s \<longleftrightarrow> list_all printable s \<and> s \<noteq> []"

lemma utf8_ascii: "list_all (\<lambda>c. byte c < 128) s \<Longrightarrow> utf8_valid s"
  by (induction s) simp_all

lemma text_lines_plain: "plain_line s \<Longrightarrow> text_lines s = [s]"
proof (induction s)
  case (Cons c s)
  then have "boundary (c # s) = 0" by (auto simp: plain_line_def printable_def)
  then show ?case using Cons by (cases s) (auto simp: plain_line_def text_lines.simps(2))
qed (simp add: plain_line_def)

lemma unix_lines_id: "CHR 0x0D \<notin> set s \<Longrightarrow> unix_lines s = s"
  by (induction s rule: unix_lines.induct) auto

lemma split_blocks_line: "CHR 0x0A \<notin> set b \<Longrightarrow> split_blocks (b @ CHR 0x0A # CHR 0x0A # s) = b # split_blocks s"
proof (induction b)
  case (Cons c b)
  then show ?case by (cases b) auto
qed simp

definition sound_data :: "string \<Rightarrow> bool" where
  "sound_data d \<longleftrightarrow> plain_line d \<and> byte (hd d) \<noteq> (32::nat)"

lemma white_head: "sound_data d \<Longrightarrow> white d = 0"
  by (cases d) (auto simp: sound_data_def plain_line_def printable_def)

lemma block_payload_event: "sound_data d \<Longrightarrow> block_payload (event_line d) = Some d"
proof -
  assume d: "sound_data d"
  have "plain_line (event_line d)" using d by (simp add: plain_line_def event_line_def sound_data_def printable_def)
  then have "text_lines (event_line d) = [event_line d]" by (rule text_lines_plain)
  moreover have "text_lstrip (drop 5 (event_line d)) = d"
    using white_head [OF d] by (simp add: event_line_def text_lstrip.simps [of "CHR '' '' # d"] text_lstrip.simps [of d])
  moreover have "starts_with (event_line d) ''data:''" by (simp add: event_line_def starts_with_iff)
  ultimately show ?thesis by (simp add: block_payload_def)
qed

lemma split_stream:
  "list_all sound_data ds \<Longrightarrow> split_blocks (concat (stream_lines ds)) = map event_line ds @ [[]]"
proof (induction ds)
  case (Cons d ds)
  then have "CHR 0x0A \<notin> set (event_line d)"
    by (auto simp: event_line_def sound_data_def plain_line_def list_all_iff printable_def)
  then show ?case using Cons split_blocks_line by (simp add: stream_lines_def)
qed (simp add: stream_lines_def)

lemma stream_chars: "list_all sound_data ds \<Longrightarrow> c \<in> set (concat (stream_lines ds)) \<Longrightarrow> c = CHR 0x0A \<or> printable c"
  by (induction ds) (auto simp: stream_lines_def event_line_def sound_data_def plain_line_def list_all_iff printable_def)

lemma payloads_of_stream: "list_all sound_data ds \<Longrightarrow> data_payloads e (concat (stream_lines ds)) = Inr ds"
proof -
  assume ds: "list_all sound_data ds"
  let ?s = "concat (stream_lines ds)"
  have "list_all (\<lambda>c. byte c < 128) ?s" using stream_chars [OF ds] by (force simp: list_all_iff printable_def)
  then have "utf8_valid ?s" by (rule utf8_ascii)
  moreover have "CHR 0x0D \<notin> set ?s" using stream_chars [OF ds, of "CHR 0x0D"] by (auto simp: printable_def)
  moreover have "block_payload [] = None" by (simp add: block_payload_def)
  moreover have "List.map_filter block_payload (map event_line ds) = ds"
    using ds by (induction ds) (simp_all add: map_filter_simps block_payload_event)
  ultimately show ?thesis
    by (simp add: data_payloads_def unix_lines_id split_stream [OF ds] List.map_filter_def)
qed

lemma chunk_sound: "ascii c \<Longrightarrow> sound_data (json_text plain_style (chunk_doc c))"
proof -
  assume c: "ascii c"
  have a: "ascii_doc (chunk_doc c)" using c by (simp add: chunk_doc_def) (simp add: ascii_def)
  have "list_all printable (json_text plain_style (chunk_doc c))"
    unfolding list_all_iff json_text_def using emit_printable [OF a, of plain_style] by blast
  moreover have "json_text plain_style (chunk_doc c) \<noteq> []" "hd (json_text plain_style (chunk_doc c)) = CHR ''{''"
    by (simp_all add: json_text_def chunk_doc_def bracketed_def)
  ultimately show ?thesis by (simp add: sound_data_def plain_line_def)
qed

lemma chunk_reads: "ascii c \<Longrightarrow> json_loads (json_text plain_style (chunk_doc c)) = Inr (chunk_doc c)"
proof -
  assume c: "ascii c"
  have "ascii_doc (chunk_doc c)" using c by (simp add: chunk_doc_def) (simp add: ascii_def)
  then have "json_loads (json_text plain_style (chunk_doc c)) = Inr (reread plain_style (chunk_doc c))"
    by (rule json_text_reads) simp
  then show ?thesis by (simp add: chunk_doc_def ordered_def plain_style_def)
qed

lemma chunk_not_done: "json_text plain_style (chunk_doc c) \<noteq> DONE"
  by (simp add: json_text_def chunk_doc_def bracketed_def DONE_def)

lemma stream_sound: "list_all ascii cs \<Longrightarrow> list_all sound_data (stream_data cs)"
  by (induction cs) (simp_all add: stream_data_def chunk_sound, simp add: sound_data_def plain_line_def DONE_def printable_def)

lemma events_of_stream: "list_all ascii cs \<Longrightarrow> sse_events m (stream_data cs) = Inr (concat cs, m, True)"
  by (induction cs)
    (simp_all add: stream_data_def chunk_not_done sse_event_def chunk_reads, simp_all add: chunk_doc_def jget_or_def choice_content_def)

lemma no_error_in_stream: "list_all ascii cs \<Longrightarrow> first_error (stream_data cs) = None"
  by (induction cs) (simp_all add: stream_data_def chunk_not_done chunk_reads, simp_all add: chunk_doc_def)

lemma read_stream:
  "list_all sound_data ds \<Longrightarrow> DONE \<notin> set ds \<Longrightarrow>
     read_lines [] (stream_lines (ds @ [DONE]) @ rest) = (concat (stream_lines (ds @ [DONE])), True)"
proof (induction ds)
  case Nil
  have "rstrip_eol (event_line DONE @ [CHR 0x0A]) = event_line DONE" by (simp add: rstrip_eol_def event_line_def DONE_def)
  then show ?case by (simp add: stream_lines_def event_line_def DONE_def rstrip_eol_def lstrip_bytes_def starts_with_iff Let_def)
next
  case (Cons d ds)
  then have d: "sound_data d" "d \<noteq> DONE" by auto
  have last: "last d \<noteq> CHR 0x0A" "last d \<noteq> CHR 0x0D"
  proof -
    have "printable (last d)" using d(1) last_in_set [of d] by (simp add: sound_data_def plain_line_def list_all_iff)
    then show "last d \<noteq> CHR 0x0A" "last d \<noteq> CHR 0x0D" by (auto simp: printable_def)
  qed
  have ne: "d \<noteq> []" using d(1) by (simp add: sound_data_def plain_line_def)
  then obtain x xs where rev: "rev d = x # xs" "x = last d" by (cases "rev d") (auto simp: last_rev [symmetric])
  have r: "rstrip_eol (event_line d @ [CHR 0x0A]) = event_line d"
  proof -
    have "dropWhile (\<lambda>c. c = CHR 0x0A \<or> c = CHR 0x0D) (rev d @ rev ''data: '') = rev d @ rev ''data: ''"
      unfolding rev(1) using rev(2) last by simp
    then have "rev (dropWhile (\<lambda>c. c = CHR 0x0A \<or> c = CHR 0x0D) (rev d @ rev ''data: '')) = ''data: '' @ d" by simp
    then show ?thesis by (simp add: rstrip_eol_def event_line_def)
  qed
  have l: "lstrip_bytes (drop 5 (event_line d)) = d"
    using d(1) by (cases d) (auto simp: event_line_def lstrip_bytes_def sound_data_def plain_line_def printable_def)
  have s: "starts_with (event_line d) ''data:''" "event_line d \<noteq> []" by (simp_all add: event_line_def starts_with_iff)
  have e: "rstrip_eol [CHR 0x0A] = []" by (simp add: rstrip_eol_def)
  have "read_lines [] (stream_lines ((d # ds) @ [DONE]) @ rest)
      = (let (raw, done) = read_lines [] (stream_lines (ds @ [DONE]) @ rest) in (event_line d @ [CHR 0x0A] @ [CHR 0x0A] @ raw, done))"
    using r l s e d(2) by (simp add: stream_lines_def split_def Let_def)
  then show ?case using Cons by (simp add: stream_lines_def)
qed

text \<open>Streaming loses nothing: whatever chunks of plain text the provider sends, the reader stops exactly
  after the end marker, with the bytes up to it, and the reconstruction of these bytes is the
  chunks put together, complete and without an error event.\<close>

theorem stream_roundtrip:
  assumes "list_all ascii cs"
  shows "read_sse_until_done (Lines (stream_lines (stream_data cs) @ rest)) = (concat (stream_lines (stream_data cs)), True)
    \<and> reconstruct_sse (concat (stream_lines (stream_data cs))) = Inr (concat cs, [], True)
    \<and> provider_sse_error (concat (stream_lines (stream_data cs))) = None"
proof -
  have "list_all sound_data (map (\<lambda>c. json_text plain_style (chunk_doc c)) cs)"
    using assms by (induction cs) (simp_all add: chunk_sound)
  moreover have "DONE \<notin> set (map (\<lambda>c. json_text plain_style (chunk_doc c)) cs)" using chunk_not_done by (auto dest: sym)
  ultimately show ?thesis
    using read_stream [of "map (\<lambda>c. json_text plain_style (chunk_doc c)) cs"] payloads_of_stream [OF stream_sound [OF assms]]
      events_of_stream [OF assms] no_error_in_stream [OF assms]
    by (simp add: read_sse_until_done_def reconstruct_sse_def provider_sse_error_def flip: stream_data_def)
qed

lemma stream_roundtrip_witness:
  "reconstruct_sse (concat (stream_lines (stream_data [''{'', ''}'']))) = Inr (''{}'', [], True)"
  using stream_roundtrip [of "[''{'', ''}'']" "[]"] by (simp add: ascii_def)

subsection \<open>Separators in the content\<close>

text \<open>An event whose content is written with the given characters between its quotes.\<close>

definition event_head :: string where
  "event_head = ''{'' @ [CHR 0x22] @ ''choices'' @ [CHR 0x22] @ '': [{'' @ [CHR 0x22] @ ''delta'' @ [CHR 0x22] @ '': {''
     @ [CHR 0x22] @ ''content'' @ [CHR 0x22] @ '': '' @ [CHR 0x22]"

definition written_event :: "string \<Rightarrow> string" where
  "written_event body = event_head @ body @ CHR 0x22 # ''}}]}''"

lemma read_written:
  "read_string (body @ CHR 0x22 # ''}}]}'') = Some (c, ''}}]}'') \<Longrightarrow> json_loads (written_event body) = Inr (chunk_doc c)"
proof -
  assume r: "read_string (body @ CHR 0x22 # ''}}]}'') = Some (c, ''}}]}'')"
  have s: "skip_space (CHR ''{'' # x) = CHR ''{'' # x" "skip_space (CHR ''}'' # x) = CHR ''}'' # x"
    "skip_space (CHR ''['' # x) = CHR ''['' # x" "skip_space (CHR '']'' # x) = CHR '']'' # x"
    "skip_space (CHR '':'' # x) = CHR '':'' # x" "skip_space (CHR 0x22 # x) = CHR 0x22 # x"
    "skip_space (CHR '' '' # x) = skip_space x" "skip_space [] = []" for x
    by (simp_all add: skip_space_def is_json_space_def)
  have "2 * length (written_event body) + 2
      = Suc (Suc (Suc (Suc (Suc (Suc (Suc (Suc (Suc (2 * length (written_event body) - 7)))))))))"
    by (simp add: written_event_def event_head_def)
  then obtain n where n: "2 * length (written_event body) + 2 = Suc (Suc (Suc (Suc (Suc (Suc (Suc (Suc (Suc n))))))))"
    by blast
  show ?thesis
    unfolding json_loads_def n
    by (simp add: read_value.simps read_elements.simps read_members.simps written_event_def event_head_def s read_string_plain prepend_def r chunk_doc_def dict_set_def)
qed

lemma read_unclosed: "ascii s \<Longrightarrow> read_string (ascii_body s) = None"
proof (induction s)
  case (Cons c s)
  then show ?case using read_escape [of c "ascii_body s"] by (simp add: prepend_def ascii_def)
qed (simp add: read_string.simps)

lemma written_cut: "ascii s \<Longrightarrow> json_loads (event_head @ ascii_body s) = Inl (ValueError ''JSONDecodeError'')"
proof -
  assume "ascii s"
  then have r: "read_string (ascii_body s) = None" by (rule read_unclosed)
  have s: "skip_space (CHR ''{'' # x) = CHR ''{'' # x" "skip_space (CHR ''['' # x) = CHR ''['' # x"
    "skip_space (CHR '':'' # x) = CHR '':'' # x" "skip_space (CHR 0x22 # x) = CHR 0x22 # x"
    "skip_space (CHR '' '' # x) = skip_space x" for x
    by (simp_all add: skip_space_def is_json_space_def)
  have "2 * length (event_head @ ascii_body s) + 2
      = Suc (Suc (Suc (Suc (Suc (Suc (Suc (Suc (Suc (2 * length (event_head @ ascii_body s) - 7)))))))))"
    by (simp add: event_head_def)
  then obtain n where n: "2 * length (event_head @ ascii_body s) + 2 = Suc (Suc (Suc (Suc (Suc (Suc (Suc (Suc (Suc n))))))))"
    by blast
  show ?thesis
    unfolding json_loads_def n
    by (simp add: read_value.simps read_elements.simps read_members.simps event_head_def s read_string_plain prepend_def r)
qed

definition separators :: "string set" where
  "separators = {utf8 8232, utf8 8233, utf8 133}"

lemma separator_bytes:
  "utf8 8232 = [CHR 0xE2, CHR 0x80, CHR 0xA8]" "utf8 8233 = [CHR 0xE2, CHR 0x80, CHR 0xA9]" "utf8 133 = [CHR 0xC2, CHR 0x85]"
  by (simp_all add: utf8_def char_eq_of_char del: of_char_eq_iff)

lemma separator_cases: "sep \<in> separators \<Longrightarrow>
    sep = [CHR 0xE2, CHR 0x80, CHR 0xA8] \<or> sep = [CHR 0xE2, CHR 0x80, CHR 0xA9] \<or> sep = [CHR 0xC2, CHR 0x85]"
  unfolding separators_def separator_bytes by blast

lemma boundary_separator: "sep \<in> separators \<Longrightarrow> boundary (sep @ t) = length sep \<and> boundary (sep @ t) > 0"
  by (drule separator_cases) (elim disjE; simp)

lemma text_lines_cut: "list_all printable s \<Longrightarrow> sep \<in> separators \<Longrightarrow> text_lines (s @ sep @ t) = s # text_lines t"
proof (induction s)
  case Nil
  then have b: "boundary (sep @ t) = length sep" "0 < length sep" using boundary_separator [of sep t] by (simp, metis)
  then obtain c s where "sep @ t = c # s" by (cases "sep @ t") auto
  then show ?case using b by (metis append_eq_conv_conj append_self_conv2 less_not_refl text_lines.simps(2))
next
  case (Cons c s)
  then have "boundary (c # s @ sep @ t) = 0" by (auto simp: printable_def)
  then show ?case using Cons by (simp add: text_lines.simps(2))
qed

lemma read_separator: "sep \<in> separators \<Longrightarrow> read_string (sep @ t) = prepend sep (read_string t)"
  by (drule separator_cases) (elim disjE; cases "read_string t"; simp add: read_string_plain prepend_def split_def)

lemma utf8_skip: "list_all printable s \<Longrightarrow> utf8_valid (s @ t) = utf8_valid t"
  by (induction s) (simp_all add: printable_def)

lemma ascii_body_printable: "ascii s \<Longrightarrow> list_all printable (ascii_body s)"
  using ascii_str_printable [of s] by (simp add: ascii_str_def list_all_iff)

text \<open>The stream of one event whose content has a separator in it.\<close>

definition cut_event :: "string \<Rightarrow> string \<Rightarrow> string \<Rightarrow> string" where
  "cut_event a sep b = written_event (ascii_body a @ sep @ ascii_body b)"

lemma not_data: "\<not> starts_with (ascii_body b) ''data:'' \<Longrightarrow> \<not> starts_with (ascii_body b @ CHR 0x22 # q) ''data:''"
proof
  assume n: "\<not> starts_with (ascii_body b) ''data:''" and "starts_with (ascii_body b @ CHR 0x22 # q) ''data:''"
  then obtain t where "ascii_body b @ CHR 0x22 # q = ''data:'' @ t" unfolding starts_with_iff prefix_def by blast
  then consider us where "ascii_body b = ''data:'' @ us" | us where "''data:'' = ascii_body b @ us" "us @ t = CHR 0x22 # q"
    unfolding append_eq_append_conv2 by metis
  then show False
  proof cases
    case 1
    then show ?thesis using n unfolding starts_with_iff prefix_def by blast
  next
    case 2
    show ?thesis
    proof (cases us)
      case Nil
      then have "ascii_body b = ''data:'' @ []" using 2(1) by simp
      then show ?thesis using n unfolding starts_with_iff prefix_def by blast
    next
      case (Cons u us')
      then have "CHR 0x22 \<in> set ''data:''" using 2 by (metis append_Cons in_set_conv_decomp list.inject)
      then show ?thesis by simp
    qed
  qed
qed

lemma cut_block:
  assumes "ascii a" "ascii b" "sep \<in> separators" "\<not> starts_with (ascii_body b) ''data:''"
  shows "block_payload (event_line (cut_event a sep b)) = Some (event_head @ ascii_body a)"
proof -
  let ?h = "event_line (event_head @ ascii_body a)" and ?q = "ascii_body b @ CHR 0x22 # ''}}]}''"
  have h: "list_all printable ?h"
    using ascii_body_printable [OF assms(1)] by (simp add: event_line_def event_head_def printable_def)
  have q: "text_lines ?q = [?q]"
    by (rule text_lines_plain) (use ascii_body_printable [OF assms(2)] in \<open>simp add: plain_line_def printable_def\<close>)
  have "text_lines (?h @ sep @ ?q) = [?h, ?q]" using text_lines_cut [OF h assms(3), of ?q] q by simp
  moreover have "event_line (cut_event a sep b) = ?h @ sep @ ?q" by (simp add: event_line_def cut_event_def written_event_def)
  moreover have "starts_with ?h ''data:''" by (simp add: event_line_def starts_with_iff)
  moreover have "text_lstrip (drop 5 ?h) = event_head @ ascii_body a"
    by (simp add: event_line_def event_head_def text_lstrip.simps)
  ultimately show ?thesis using not_data [OF assms(4), of "''}}]}''"] by (simp add: block_payload_def)
qed

lemma cut_payloads:
  assumes "ascii a" "ascii b" "sep \<in> separators" "\<not> starts_with (ascii_body b) ''data:''"
  shows "data_payloads e (concat (stream_lines [cut_event a sep b, DONE])) = Inr [event_head @ ascii_body a, DONE]"
proof -
  let ?e = "event_line (cut_event a sep b)" and ?d = "event_line DONE"
  have p: "list_all printable (event_line event_head @ ascii_body a)" "list_all printable (ascii_body b @ CHR 0x22 # ''}}]}'')"
    using ascii_body_printable [OF assms(1)] ascii_body_printable [OF assms(2)]
    by (simp_all add: event_line_def event_head_def printable_def)
  have e: "?e = (event_line event_head @ ascii_body a) @ sep @ (ascii_body b @ CHR 0x22 # ''}}]}'')"
    by (simp add: event_line_def cut_event_def written_event_def)
  have no: "\<not> printable (CHR 0x0A)" "\<not> printable (CHR 0x0D)" by (simp_all add: printable_def)
  have sep: "CHR 0x0A \<notin> set sep" "CHR 0x0D \<notin> set sep" using separator_cases [OF assms(3)] by (elim disjE; simp)+
  have ne: "CHR 0x0A \<notin> set ?e" "CHR 0x0D \<notin> set ?e"
    using p no sep unfolding e by (auto simp only: list_all_iff set_append Un_iff)
  have s: "concat (stream_lines [cut_event a sep b, DONE]) = ?e @ CHR 0x0A # CHR 0x0A # ?d @ [CHR 0x0A, CHR 0x0A]"
    by (simp add: stream_lines_def)
  have d: "CHR 0x0A \<notin> set ?d" "CHR 0x0D \<notin> set ?d" "utf8_valid (?d @ [CHR 0x0A, CHR 0x0A])"
    by (simp_all add: event_line_def DONE_def)
  have "split_blocks (?e @ CHR 0x0A # CHR 0x0A # ?d @ [CHR 0x0A, CHR 0x0A]) = [?e, ?d, []]"
    using split_blocks_line [OF ne(1)] split_blocks_line [OF d(1)] by simp
  moreover have "unix_lines (?e @ CHR 0x0A # CHR 0x0A # ?d @ [CHR 0x0A, CHR 0x0A]) = ?e @ CHR 0x0A # CHR 0x0A # ?d @ [CHR 0x0A, CHR 0x0A]"
    by (rule unix_lines_id) (use ne(2) d(2) in simp)
  moreover have "utf8_valid (?e @ CHR 0x0A # CHR 0x0A # ?d @ [CHR 0x0A, CHR 0x0A])"
  proof -
    have u: "utf8_valid (sep @ x) = utf8_valid x" for x
      using separator_cases [OF assms(3)] by (elim disjE; simp add: continuation_def)
    show ?thesis unfolding e append_assoc [of _ "sep @ _"] utf8_skip [OF p(1)] append_assoc [of sep] u utf8_skip [OF p(2)]
      using d(3) by simp
  qed
  moreover have "block_payload ?d = Some DONE"
    by (rule block_payload_event) (simp add: sound_data_def plain_line_def DONE_def printable_def)
  moreover have "block_payload [] = None" by (simp add: block_payload_def)
  ultimately show ?thesis unfolding s data_payloads_def
    by (simp add: cut_block [OF assms] List.map_filter_def)
qed

text \<open>A line separator in the content breaks the stream: JSON allows U+2028, U+2029 and U+0085 inside a
  string, so an event with one of them in its content is a correct document and reads back; but the
  lines of a block are cut at these characters, the rest of the event is dropped, and the stream
  counts as malformed although nothing of it is missing.\<close>

theorem separator_breaks_stream:
  assumes "ascii a" "ascii b" "sep \<in> separators" "\<not> starts_with (ascii_body b) ''data:''"
  shows "json_loads (cut_event a sep b) = Inr (chunk_doc (a @ sep @ b))
    \<and> reconstruct_sse (concat (stream_lines [cut_event a sep b, DONE])) = Inl MALFORMED"
proof
  have "read_string ((ascii_body a @ sep @ ascii_body b) @ CHR 0x22 # ''}}]}'') = Some (a @ sep @ b, ''}}]}'')"
    using assms(1)
  proof (induction a)
    case Nil
    then show ?case using read_ascii_body [OF assms(2)] by (simp add: read_separator [OF assms(3)] prepend_def)
  next
    case (Cons c a)
    then show ?case by (simp add: read_escape ascii_def prepend_def)
  qed
  then show "json_loads (cut_event a sep b) = Inr (chunk_doc (a @ sep @ b))"
    unfolding cut_event_def by (rule read_written)
  have "event_head @ ascii_body a \<noteq> DONE" by (simp add: event_head_def DONE_def)
  then show "reconstruct_sse (concat (stream_lines [cut_event a sep b, DONE])) = Inl MALFORMED"
    by (simp add: reconstruct_sse_def cut_payloads [OF assms] sse_event_def written_cut [OF assms(1)])
qed

lemma separator_breaks_stream_witness:
  "json_loads (cut_event ''a'' (utf8 8232) ''b'') = Inr (chunk_doc (''a'' @ utf8 8232 @ ''b''))
     \<and> reconstruct_sse (concat (stream_lines [cut_event ''a'' (utf8 8232) ''b'', DONE])) = Inl MALFORMED"
proof -
  have h: "ascii ''a''" "ascii ''b''" "utf8 8232 \<in> separators" "\<not> starts_with (ascii_body ''b'') ''data:''"
    by (simp_all add: ascii_def separators_def starts_with_def ascii_escape_def)
  show ?thesis by (rule separator_breaks_stream [OF h])
qed

end
