(* ===== verification/Nim_Qualification.thy ===== *)
theory Nim_Qualification
  imports Nim_Stream Qual_Runner Float_Docs
begin

section \<open>The transport of the qualification\<close>

text \<open>
  \<open>oat/qualification/provider.py\<close>: \<open>NimTransport\<close> as the transport the qualification runner calls, and the gate
  over a preflight record. The environment variable with the credential and the HTTP client are
  arguments: the client maps the text of a request to its outcome.
\<close>

definition ENDPOINT :: string where "ENDPOINT = ''https://integrate.api.nvidia.com/v1/chat/completions''"
definition MODEL :: string where "MODEL = ''nvidia/nemotron-3-ultra-550b-a55b''"

subsection \<open>Reconstruction\<close>

definition MALFORMED_STREAM :: py_exn where "MALFORMED_STREAM = ProviderFailure ''MALFORMED_SSE''"

text \<open>What a \<open>for\<close> loop over a JSON value visits.\<close>

definition iterated :: "json \<Rightarrow> json list res" where
  "iterated v = (case v of
       JList xs \<Rightarrow> Inr xs | JTuple xs \<Rightarrow> Inr xs | JObj kvs \<Rightarrow> Inr (map (JStr \<circ> fst) kvs)
     | JStr s \<Rightarrow> Inr (map (\<lambda>c. JStr [c]) s) | _ \<Rightarrow> Inl (TypeError ''not iterable''))"

definition nim_choice :: "json \<Rightarrow> string list res" where
  "nim_choice item =
     bindE (attr_get item ''delta'' (JObj [])) (\<lambda>delta. bindE (attr_get delta ''content'' JNull) (\<lambda>value.
       Inr (case value of JStr s \<Rightarrow> [s] | _ \<Rightarrow> [])))"

definition nim_event :: "string \<Rightarrow> string list res" where
  "nim_event data =
     (case bindE (json_loads data) (\<lambda>event. bindE (attr_get event ''choices'' (JList [])) (\<lambda>choices.
         bindE (iterated choices) (\<lambda>xs. mapE nim_choice xs))) of
        Inl _ \<Rightarrow> Inl MALFORMED_STREAM | Inr cs \<Rightarrow> Inr (concat cs))"

fun nim_events :: "string list \<Rightarrow> (string \<times> bool) res" where
  "nim_events [] = Inr ([], False)"
| "nim_events (data # ds) =
     (if data = DONE then bindE (nim_events ds) (\<lambda>(content, done). Inr (content, True))
      else bindE (nim_event data) (\<lambda>cs. bindE (nim_events ds) (\<lambda>(content, done). Inr (concat cs @ content, done))))"

definition nim_reconstruct :: "string \<Rightarrow> (string \<times> bool) res" where
  "nim_reconstruct raw = bindE (data_payloads MALFORMED_STREAM raw) nim_events"

subsection \<open>The call\<close>

record nim_transport =
  nt_seed :: int
  nt_temperature :: rat
  nt_max_tokens :: int

definition default_transport :: nim_transport where
  "default_transport = \<lparr>nt_seed = 20260915, nt_temperature = 0, nt_max_tokens = 4096\<rparr>"

definition nim_body :: "nim_transport \<Rightarrow> json list \<Rightarrow> string" where
  "nim_body t messages =
     (let member = (\<lambda>k v. ascii_str k @ '':'' @ v); text = json_text compact_style in
      ''{'' @ join '','' [member ''max_tokens'' (text (JInt (nt_max_tokens t))), member ''messages'' (text (JList messages)),
        member ''model'' (text (JStr MODEL)), member ''seed'' (text (JInt (nt_seed t))), member ''stream'' (text (JBool True)),
        member ''temperature'' (float_repr (nt_temperature t)), member ''top_p'' (float_repr 1)] @ ''}'')"

text \<open>
  The outcome of a request: the body of the answer, one of the failures the transport handles under
  the name of its class, or another exception of the client, such as the one it raises when the
  connection ends in the middle of the body.
\<close>

datatype nim_outcome = Body string | Failed string | Raised string

definition nim_answer :: "nim_outcome \<Rightarrow> string res" where
  "nim_answer outcome =
     (case outcome of
        Failed name \<Rightarrow> Inl (ProviderFailure (''transport failure: '' @ name))
      | Raised m \<Rightarrow> Inl (HTTPException m)
      | Body raw \<Rightarrow> bindE (nim_reconstruct raw) (\<lambda>(content, done).
          if \<not> done then Inl (ProviderFailure ''stream incomplete'') else Inr content))"

definition nim_call :: "string \<Rightarrow> (string \<Rightarrow> nim_outcome) \<Rightarrow> nim_transport \<Rightarrow> json list \<Rightarrow> string res" where
  "nim_call api_key http t messages =
     (if api_key = [] then Inl (ProviderFailure ''credential absent'') else nim_answer (http (nim_body t messages)))"

subsection \<open>The preflight gate\<close>

definition PROVIDER_PREFLIGHT_TOOL_ID :: string where "PROVIDER_PREFLIGHT_TOOL_ID = ''OAT-NVIDIA-PROVIDER-PREFLIGHT''"

definition qualification_checks :: "(string \<times> json) list \<Rightarrow> (string \<times> bool) list" where
  "qualification_checks r =
     [(''endpoint_matches'', dict_get r ''endpoint'' = Some (JStr ENDPOINT)),
      (''model_matches'', dict_get r ''model'' = Some (JStr MODEL)),
      (''preflight_status_pass'', dict_get r ''preflight_status'' = Some (JStr PASS)),
      (''stream_completed'', truthy (jget_or (JObj r) ''stream_done_observed'' JNull)),
      (''tool_identity_matches'', dict_get r ''tool_id'' = Some (JStr PROVIDER_PREFLIGHT_TOOL_ID))]"

definition verify_qualification_preflight :: "(string \<times> json) list \<Rightarrow> json" where
  "verify_qualification_preflight r =
     (let checks = qualification_checks r in
      JObj [(''artifact'', JStr ''QUALIFICATION_PROVIDER_PREFLIGHT_GATE''),
        (''checks'', JObj (map (\<lambda>(k, b). (k, JBool b)) checks)),
        (''classification'', jget_or (JObj r) ''classification'' JNull),
        (''status'', JStr (if list_all snd checks then PASS else FAIL))])"

subsection \<open>Two readers of one stream\<close>

lemma choice_agrees: "choice_content c = Inr xs \<Longrightarrow> nim_choice c = Inr xs"
  by (auto simp: choice_content_def nim_choice_def attr_get_def Let_def split: if_splits)

lemma choices_agree: "mapE choice_content cs = Inr xss \<Longrightarrow> mapE nim_choice cs = Inr xss"
  by (induction cs arbitrary: xss) (auto simp: bindE_Inr_iff choice_agrees)

lemma event_agrees:
  assumes "sse_event model data = Inr (m, xs)"
  shows "nim_event data = Inr xs"
proof -
  obtain event where e: "json_loads data = Inr event" "is_JObj event"
    using assms by (auto simp: sse_event_def split: sum.splits if_splits)
  then obtain choices xss where c: "jget_or event ''choices'' JNull = JList choices" "mapE choice_content choices = Inr xss" "xs = concat xss"
    using assms by (auto simp: sse_event_def Let_def bindE_Inr_iff split: json.splits)
  then have "jget_or event ''choices'' (JList []) = JList choices" by (auto simp: jget_or_def split: option.splits)
  then show ?thesis using e choices_agree [OF c(2)] c(3) by (simp add: nim_event_def attr_get_def iterated_def)
qed

lemma events_agree: "sse_events model ds = Inr (content, m, ended) \<Longrightarrow> nim_events ds = Inr (content, ended)"
proof (induction ds arbitrary: model content m ended)
  case (Cons d ds)
  show ?case
  proof (cases "d = DONE")
    case True
    then show ?thesis using Cons by (auto simp: bindE_Inr_iff)
  next
    case False
    then obtain m' cs content' where "sse_event model d = Inr (m', cs)" "sse_events m' ds = Inr (content', m, ended)" "content = concat cs @ content'"
      using Cons.prems by (auto simp: bindE_Inr_iff)
    then show ?thesis using False event_agrees Cons.IH by simp
  qed
qed simp

lemma payloads_error: "data_payloads e raw = Inr ps \<Longrightarrow> data_payloads e' raw = Inr ps"
  by (simp add: data_payloads_def split: if_splits)

text \<open>One stream, two readers: a stream that the reader of the sequence runner reconstructs is
  reconstructed to the same content by the qualification's transport, with the same judgement on
  whether it was complete, so candidates are measured on what the frozen runs would read.\<close>

theorem transports_agree:
  assumes "reconstruct_sse raw = Inr (content, model, done)"
  shows "nim_reconstruct raw = Inr (content, done)
    \<and> nim_answer (Body raw) = (if done then Inr content else Inl (ProviderFailure ''stream incomplete''))"
proof -
  obtain ps where "data_payloads MALFORMED raw = Inr ps" "sse_events [] ps = Inr (content, model, done)"
    using assms by (auto simp: reconstruct_sse_def bindE_Inr_iff)
  then have "nim_reconstruct raw = Inr (content, done)"
    using events_agree payloads_error [of MALFORMED raw ps MALFORMED_STREAM] by (simp add: nim_reconstruct_def)
  then show ?thesis by (simp add: nim_answer_def)
qed

subsection \<open>An error in the stream\<close>

definition error_doc :: "string \<Rightarrow> json" where
  "error_doc m = JObj [(''error'', JObj [(''message'', JStr m)])]"

definition error_stream :: "string list \<Rightarrow> string \<Rightarrow> string list" where
  "error_stream cs m = map (\<lambda>c. json_text plain_style (chunk_doc c)) cs @ [json_text plain_style (error_doc m), DONE]"

lemma error_sound: "ascii m \<Longrightarrow> sound_data (json_text plain_style (error_doc m))"
proof -
  assume m: "ascii m"
  have a: "ascii_doc (error_doc m)" using m by (simp add: error_doc_def) (simp add: ascii_def)
  have "list_all printable (json_text plain_style (error_doc m))"
    unfolding list_all_iff json_text_def using emit_printable [OF a, of plain_style] by blast
  moreover have "json_text plain_style (error_doc m) \<noteq> []" "hd (json_text plain_style (error_doc m)) = CHR ''{''"
    by (simp_all add: json_text_def error_doc_def bracketed_def)
  ultimately show ?thesis by (simp add: sound_data_def plain_line_def)
qed

lemma error_reads: "ascii m \<Longrightarrow> json_loads (json_text plain_style (error_doc m)) = Inr (error_doc m)"
proof -
  assume m: "ascii m"
  have "ascii_doc (error_doc m)" using m by (simp add: error_doc_def) (simp add: ascii_def)
  then have "json_loads (json_text plain_style (error_doc m)) = Inr (reread plain_style (error_doc m))"
    by (rule json_text_reads) simp
  then show ?thesis by (simp add: error_doc_def ordered_def plain_style_def)
qed

lemma error_not_done: "json_text plain_style (error_doc m) \<noteq> DONE"
  by (simp add: json_text_def error_doc_def bracketed_def DONE_def)

lemma error_stream_sound: "list_all ascii cs \<Longrightarrow> ascii m \<Longrightarrow> list_all sound_data (error_stream cs m)"
  by (induction cs) (simp_all add: error_stream_def chunk_sound error_sound, simp add: sound_data_def plain_line_def DONE_def printable_def)

lemma chunk_event: "ascii c \<Longrightarrow> nim_event (json_text plain_style (chunk_doc c)) = Inr [c]"
  by (simp add: nim_event_def chunk_reads) (simp add: chunk_doc_def attr_get_def jget_or_def iterated_def nim_choice_def)

lemma error_event: "ascii m \<Longrightarrow> nim_event (json_text plain_style (error_doc m)) = Inr []"
  by (simp add: nim_event_def error_reads) (simp add: error_doc_def attr_get_def jget_or_def iterated_def)

lemma error_events: "list_all ascii cs \<Longrightarrow> ascii m \<Longrightarrow> nim_events (error_stream cs m) = Inr (concat cs, True)"
  by (induction cs) (simp_all add: error_stream_def chunk_not_done error_not_done chunk_event error_event)

lemma error_seen: "list_all ascii cs \<Longrightarrow> ascii m \<Longrightarrow> first_error (error_stream cs m) = Some (JObj [(''message'', JStr m)])"
  by (induction cs)
    (simp_all add: error_stream_def chunk_not_done error_not_done chunk_reads error_reads, simp_all add: chunk_doc_def error_doc_def)

text \<open>An error in the stream is missed: when the provider breaks off with an error event before the end
  marker, the reader of the sequence runner reports the error, but the qualification's transport
  passes what came before it off as the complete answer of the model.\<close>

theorem error_event_is_missed:
  assumes "list_all ascii cs" "ascii m"
  shows "provider_sse_error (concat (stream_lines (error_stream cs m))) = Some (JObj [(''message'', JStr m)])
    \<and> nim_answer (Body (concat (stream_lines (error_stream cs m)))) = Inr (concat cs)"
  using payloads_of_stream [OF error_stream_sound [OF assms]] error_events [OF assms] error_seen [OF assms]
  by (simp add: provider_sse_error_def nim_answer_def nim_reconstruct_def)

lemma error_event_is_missed_witness:
  "nim_answer (Body (concat (stream_lines (error_stream [''{''] ''overloaded'')))) = Inr ''{''"
  using error_event_is_missed [of "[''{'']" "''overloaded''"] by (simp add: ascii_def)

lemma transports_agree_witness:
  "nim_reconstruct (concat (stream_lines (stream_data [''{'', ''}'']))) = Inr (''{}'', True)"
proof -
  have "list_all ascii [''{'', ''}'']" by (simp add: ascii_def)
  then have "reconstruct_sse (concat (stream_lines (stream_data [''{'', ''}'']))) = Inr (''{}'', [], True)"
    using payloads_of_stream [OF stream_sound] events_of_stream by (simp add: reconstruct_sse_def)
  from transports_agree [OF this] show ?thesis by simp
qed

subsection \<open>The transport in a run\<close>

definition nim_env :: "string \<Rightarrow> (string \<Rightarrow> nim_outcome) \<Rightarrow> nim_transport \<Rightarrow> (nat \<Rightarrow> rat) \<Rightarrow> (string \<Rightarrow> string) \<Rightarrow> qual_env" where
  "nim_env api_key http t clock decode_text =
     \<lparr>qe_transport = nim_call api_key http t, qe_clock = clock, qe_decode_text = decode_text\<rparr>"

lemma nim_event_raises: "nim_event d = Inl e \<Longrightarrow> is_provider_failure e"
  by (auto simp: nim_event_def MALFORMED_STREAM_def is_provider_failure_def split: sum.splits)

lemma nim_events_raise: "nim_events ds = Inl e \<Longrightarrow> is_provider_failure e"
  by (induction ds arbitrary: e) (auto simp: bindE_Inl_iff dest: nim_event_raises split: if_splits)

lemma nim_call_raises:
  assumes "nim_call api_key http t messages = Inl e" "\<forall>m. http (nim_body t messages) \<noteq> Raised m"
  shows "is_provider_failure e"
  using assms nim_events_raise
  by (auto simp: nim_call_def nim_answer_def nim_reconstruct_def data_payloads_def MALFORMED_STREAM_def is_provider_failure_def
      bindE_Inl_iff split: nim_outcome.splits if_splits)

text \<open>Only a handled failure ends a run in order: while the client raises nothing but the failures the
  transport handles, every run of a candidate ends with a report of its loop; but a connection that
  drops in the middle of the first answer is no such failure, and the whole run has no result, where
  a refused or timed-out connection ends it as a terminal provider failure.\<close>

theorem dropped_connection_aborts_run:
  assumes "la_status (audit_pair candidate_id prompt target seed) = PASS" "api_key \<noteq> []"
    and "stop_check (nim_env api_key http t clock decode_text) (merged_budgets budgets) (clock 0) (start_state prompt target) = None"
  shows "(\<forall>m. http (nim_body t (rn_messages (start_state prompt target))) = Raised m \<longrightarrow>
        run_candidate_on_target (nim_env api_key http t clock decode_text) candidate_id prompt target seed budgets = Inl (HTTPException m))
    \<and> ((\<forall>body m. http body \<noteq> Raised m) \<longrightarrow>
        (\<exists>r. qual_loop (nim_env api_key http t clock decode_text) (merged_budgets budgets) (clock 0) (start_state prompt target) = Inr r))"
proof -
  let ?env = "nim_env api_key http t clock decode_text" and ?bs = "merged_budgets budgets" and ?st = "start_state prompt target"
  have env: "qe_clock ?env = clock" "qe_transport ?env = nim_call api_key http t" by (simp_all add: nim_env_def)
  have "run_candidate_on_target ?env candidate_id prompt target seed budgets = Inl (HTTPException m)"
    if m: "http (nim_body t (rn_messages ?st)) = Raised m" for m
  proof -
    have "qual_turn ?env ?bs (clock 0) ?st = Raise (HTTPException m)"
      using assms(2,3) m by (simp add: qual_turn_def env nim_call_def nim_answer_def is_provider_failure_def)
    then have "qual_loop ?env ?bs (clock 0) ?st = Inl (HTTPException m)" by (simp add: qual_loop.simps [of ?env ?bs "clock 0" ?st])
    then show ?thesis using assms(1) by (simp add: run_candidate_on_target_def Let_def env)
  qed
  moreover have "\<exists>r. qual_loop ?env ?bs (clock 0) ?st = Inr r" if "\<forall>body m. http body \<noteq> Raised m"
    by (rule loop_returns) (use that in \<open>auto simp: env intro: nim_call_raises\<close>)
  ultimately show ?thesis by blast
qed

lemma dropped_connection_aborts_run_witness:
  "run_candidate_on_target (nim_env ''key'' (\<lambda>_. Raised ''IncompleteRead'') default_transport (\<lambda>_. 0) (\<lambda>_. []))
      ''candidate'' ''prompt'' quiet_target [] [] = Inl (HTTPException ''IncompleteRead'')"
proof -
  let ?env = "nim_env ''key'' (\<lambda>_. Raised ''IncompleteRead'') default_transport (\<lambda>_. 0) (\<lambda>_. [])"
  have "0 < double 900" by code_simp
  then have "stop_check ?env (merged_budgets []) 0 (start_state ''prompt'' quiet_target) = None"
    by (simp add: stop_check_def default_budgets nim_env_def float_sub_def start_state_def)
  then show ?thesis
    using dropped_connection_aborts_run [of "''candidate''" "''prompt''" quiet_target "[]" "''key''" "\<lambda>_. Raised ''IncompleteRead''"
      default_transport "\<lambda>_. 0" "\<lambda>_. []" "[]"] quiet_passes by simp
qed

subsection \<open>The gate\<close>

text \<open>
  The gate passes exactly a record of the frozen endpoint and model, from the named tool, whose stream
  was completed.
\<close>

lemma qualification_gate_iff:
  "jget (verify_qualification_preflight r) ''status'' = Some (JStr PASS) \<longleftrightarrow>
     dict_get r ''endpoint'' = Some (JStr ENDPOINT) \<and> dict_get r ''model'' = Some (JStr MODEL)
   \<and> dict_get r ''preflight_status'' = Some (JStr PASS) \<and> dict_get r ''tool_id'' = Some (JStr PROVIDER_PREFLIGHT_TOOL_ID)
   \<and> truthy (jget_or (JObj r) ''stream_done_observed'' JNull)"
  by (auto simp: verify_qualification_preflight_def qualification_checks_def Let_def PASS_def FAIL_def)

end
