(* ===== verification/Nim_Transport.thy ===== *)
theory Nim_Transport
  imports Nim_Stream Qual_Runner
begin

section \<open>The provider transport of the runners\<close>

text \<open>
  The provider calls of \<open>tools/oat_consequence_sequence_runner_004.py\<close>: the owner's authorization, one
  streaming call with its failures classified, and the retries under the budgets. What a request
  meets is an argument: a function of the number of the request and its body; so is the clock, the
  sequence of its readings. The manifest is a document without fractions, since documents have none here.
\<close>

subsection \<open>The authorization ledger\<close>

record auth_ledger =
  al_authorization_id :: string
  al_consumed :: bool
  al_consumed_at_event :: "string option"
  al_consumed_at_monotonic :: "rat option"
  al_events :: "json list"

definition new_ledger :: "string \<Rightarrow> auth_ledger" where
  "new_ledger authorization_id = \<lparr>al_authorization_id = authorization_id, al_consumed = False,
     al_consumed_at_event = None, al_consumed_at_monotonic = None, al_events = []\<rparr>"

definition ledger_event :: "string \<Rightarrow> string \<Rightarrow> bool \<Rightarrow> json" where
  "ledger_event event stage consumed = JObj [(''event'', JStr event), (''stage'', JStr stage), (''consumed'', JBool consumed)]"

definition ledger_note :: "string \<Rightarrow> string \<Rightarrow> auth_ledger \<Rightarrow> auth_ledger" where
  "ledger_note event stage l = l\<lparr>al_events := al_events l @ [ledger_event event stage (al_consumed l)]\<rparr>"

definition consume :: "string \<Rightarrow> string \<Rightarrow> rat \<Rightarrow> auth_ledger \<Rightarrow> auth_ledger res" where
  "consume event stage now l =
     (if stage \<noteq> ''S3'' then
        Inl (SequenceGateError (''owner authorization may only be consumed in S3, attempted in '' @ stage))
      else if al_consumed l then
        Inl (SequenceGateError ''owner authorization already consumed; automatic experiment rerun is prohibited'')
      else Inr (l\<lparr>al_consumed := True, al_consumed_at_event := Some event, al_consumed_at_monotonic := Some now,
             al_events := al_events l @ [ledger_event event stage True]\<rparr>))"

definition ledger_dict :: "auth_ledger \<Rightarrow> json" where
  "ledger_dict l = JObj [(''authorization_id'', JStr (al_authorization_id l)), (''consumed'', JBool (al_consumed l)),
     (''consumed_at_event'', JOptStr (al_consumed_at_event l)), (''events'', JList (al_events l))]"

subsection \<open>Numbers of the manifest\<close>

text \<open>
  \<open>float(v)\<close> of a value of the manifest (a text with a fraction or an exponent is left out), and
  \<open>int((t - t0) * 1000)\<close>.
\<close>

fun py_float :: "json \<Rightarrow> rat res" where
  "py_float (JInt i) = Inr (double (of_int i))"
| "py_float (JBool b) = Inr (if b then 1 else 0)"
| "py_float (JStr s) =
     (case parse_int s of None \<Rightarrow> Inl (ValueError ''could not convert string to float'') | Some i \<Rightarrow> Inr (double (of_int i)))"
| "py_float _ = Inl (TypeError ''float() argument'')"

definition float_field :: "json \<Rightarrow> string \<Rightarrow> rat res" where
  "float_field d k = bindE (jindex d k) py_float"

definition elapsed_ms :: "rat \<Rightarrow> rat \<Rightarrow> int" where
  "elapsed_ms t t0 = (let x = double (float_sub t t0 * 1000) in if 0 \<le> x then \<lfloor>x\<rfloor> else \<lceil>x\<rceil>)"

subsection \<open>One call\<close>

definition provider_request_body :: "json \<Rightarrow> json list \<Rightarrow> json res" where
  "provider_request_body manifest messages =
     bindE (jindex manifest ''provider'') (\<lambda>provider. bindE (jindex manifest ''sampling'') (\<lambda>params.
     bindE (jindex params ''max_tokens'') (\<lambda>max_tokens. bindE (jindex provider ''model'') (\<lambda>model.
     bindE (jindex params ''seed'') (\<lambda>seed. bindE (jindex params ''temperature'') (\<lambda>temperature.
     bindE (jindex params ''top_p'') (\<lambda>top_p.
       Inr (JObj [(''max_tokens'', max_tokens), (''messages'', JList messages), (''model'', model), (''seed'', seed),
         (''stream'', JBool True), (''temperature'', temperature), (''top_p'', top_p)]))))))))"

definition ALLOWED_PROVIDER_HEADERS :: "string list" where
  "ALLOWED_PROVIDER_HEADERS = [''content-type'', ''date'', ''nvcf-reqid'', ''nvcf-status'', ''x-request-id'']"

type_synonym headers = "(string \<times> string) list"

definition allowed_provider_headers :: "headers option \<Rightarrow> json" where
  "allowed_provider_headers hs =
     (case hs of
        None \<Rightarrow> JObj []
      | Some hs \<Rightarrow> JObj (foldl (\<lambda>d (k, v). if lower k \<in> set ALLOWED_PROVIDER_HEADERS then dict_set (lower k) (JStr v) d else d) [] hs))"

text \<open>
  What a request meets: an answer with its body, an HTTP error (the body is missing if reading it
  raises), a timeout, another failure of the connection, or an exception of the HTTP client that no handler names.
\<close>

datatype http_outcome =
    Http_answer int headers sse_response
  | Http_error int "headers option" "string option"
  | Timed_out
  | Os_failure
  | Unhandled string

record provider_env =
  pe_http :: "nat \<Rightarrow> json \<Rightarrow> http_outcome"
  pe_clock :: "nat \<Rightarrow> rat"

text \<open>The state a call changes: its counters, the failures so far, the clock and the ledger.\<close>

record call_state =
  cs_calls :: int
  cs_failures :: "json list"
  cs_requests :: nat
  cs_reads :: nat
  cs_ledger :: auth_ledger

definition read_clock :: "provider_env \<Rightarrow> call_state \<Rightarrow> rat \<times> call_state" where
  "read_clock env st = (pe_clock env (cs_reads st), st\<lparr>cs_reads := Suc (cs_reads st)\<rparr>)"

datatype 'a call_result = Returned 'a | Transport_failed json | Call_raised py_exn

definition transport_error_record ::
  "string \<Rightarrow> bool \<Rightarrow> string \<Rightarrow> int \<Rightarrow> json \<Rightarrow> json \<Rightarrow> string \<Rightarrow> json \<Rightarrow> json" where
  "transport_error_record classification retryable request_sha256 ms http_status response_headers raw provider_error =
     JObj [(''classification'', JStr classification), (''elapsed_ms'', JInt ms), (''http_status'', http_status),
       (''provider_error'', provider_error), (''request_sha256'', JStr request_sha256),
       (''response_bytes'', JInt (int (length raw))), (''response_headers'', response_headers),
       (''response_sha256'', JStr (sha256_hex raw)), (''retryable'', JBool retryable)]"

definition or_null :: "json option \<Rightarrow> json" where
  "or_null v = (case v of None \<Rightarrow> JNull | Some x \<Rightarrow> x)"

text \<open>\<open>isinstance(code, int) and (code == 429 or 500 <= code < 600)\<close>; a boolean is an integer.\<close>

definition retryable_code :: "json \<Rightarrow> bool" where
  "retryable_code code = (case code of JInt i \<Rightarrow> i = 429 \<or> (500 \<le> i \<and> i < 600) | _ \<Rightarrow> False)"

definition retryable_status :: "int \<Rightarrow> bool" where
  "retryable_status status \<longleftrightarrow> status = 429 \<or> 500 \<le> status"

text \<open>What the outcome of a request makes of the call.\<close>

record call_failure =
  fl_class :: string
  fl_retryable :: bool
  fl_http_status :: json
  fl_headers :: json
  fl_raw :: string
  fl_error :: json

datatype judged = Judged_failure call_failure | Judged_answer string string int json string | Judged_raise py_exn

definition judge_answer :: "int \<Rightarrow> headers \<Rightarrow> sse_response \<Rightarrow> judged" where
  "judge_answer status hs answer =
     (let (raw, done) = read_sse_until_done answer;
          headers = allowed_provider_headers (Some hs);
          failure = (\<lambda>classification retryable e. Judged_failure \<lparr>fl_class = classification, fl_retryable = retryable,
             fl_http_status = JInt status, fl_headers = headers, fl_raw = raw, fl_error = e\<rparr>)
      in case provider_sse_error raw of
           Some e \<Rightarrow>
             (let retryable = retryable_code (jget_or e ''code'' JNull) in
              failure (if retryable then ''PROVIDER_SSE_RETRYABLE_ERROR'' else ''PROVIDER_SSE_FATAL_ERROR'') retryable e)
         | None \<Rightarrow>
             if \<not> done then failure ''STREAM_INCOMPLETE'' True JNull
             else (case reconstruct_sse raw of
                 Inl _ \<Rightarrow> failure ''MALFORMED_SSE'' True JNull
               | Inr (content, model, reconstructed) \<Rightarrow>
                   if reconstructed then Judged_answer content model status headers raw
                   else failure ''STREAM_INCOMPLETE'' True JNull))"

definition judge :: "http_outcome \<Rightarrow> judged" where
  "judge outcome =
     (case outcome of
        Http_answer status hs answer \<Rightarrow> judge_answer status hs answer
      | Http_error status hs body \<Rightarrow>
          (let raw = (case body of None \<Rightarrow> [] | Some b \<Rightarrow> b); retryable = retryable_status status in
           Judged_failure \<lparr>fl_class = (if retryable then ''HTTP_RETRYABLE'' else ''HTTP_4XX_FATAL_FOR_RUN''),
             fl_retryable = retryable, fl_http_status = JInt status, fl_headers = allowed_provider_headers hs,
             fl_raw = raw, fl_error = or_null (safe_http_error raw)\<rparr>)
      | Timed_out \<Rightarrow> Judged_failure \<lparr>fl_class = ''TIMEOUT'', fl_retryable = True, fl_http_status = JNull,
          fl_headers = JObj [], fl_raw = [], fl_error = JNull\<rparr>
      | Os_failure \<Rightarrow> Judged_failure \<lparr>fl_class = ''CONNECT_FAILURE'', fl_retryable = True, fl_http_status = JNull,
          fl_headers = JObj [], fl_raw = [], fl_error = JNull\<rparr>
      | Unhandled m \<Rightarrow> Judged_raise (HTTPException m))"

definition failure_record :: "string \<Rightarrow> int \<Rightarrow> call_failure \<Rightarrow> json" where
  "failure_record request_sha256 ms f =
     transport_error_record (fl_class f) (fl_retryable f) request_sha256 ms (fl_http_status f) (fl_headers f) (fl_raw f) (fl_error f)"

text \<open>
  The call: the authorization is spent, then the request is built and sent. An answer is its
  content and the audit entry of the call.
\<close>

definition spend :: "provider_env \<Rightarrow> call_state \<Rightarrow> call_state res" where
  "spend env st =
     (if al_consumed (cs_ledger st) then Inr st
      else (let (now, st) = read_clock env st in
        bindE (consume ''first_provider_request_sent'' ''S3'' now (cs_ledger st)) (\<lambda>l. Inr (st\<lparr>cs_ledger := l\<rparr>))))"

definition call_setup :: "json \<Rightarrow> unit res" where
  "call_setup manifest =
     bindE (jindex manifest ''provider'') (\<lambda>provider. bindE (jindex provider ''endpoint'') (\<lambda>_.
     bindE (jindex manifest ''timeouts'') (\<lambda>timeouts. bindE (float_field timeouts ''provider_call_seconds'') (\<lambda>_. Inr ()))))"

definition call_audit :: "json \<Rightarrow> string \<Rightarrow> int \<Rightarrow> string \<Rightarrow> string \<Rightarrow> int \<Rightarrow> json \<Rightarrow> string \<Rightarrow> json" where
  "call_audit manifest request_sha256 ms content returned_model status headers raw =
     JObj [(''done_seen'', JBool True), (''elapsed_ms'', JInt ms), (''final_content'', JStr content),
       (''http_status'', JInt status),
       (''model'', if returned_model \<noteq> [] then JStr returned_model else jget_or (jget_or manifest ''provider'' JNull) ''model'' JNull),
       (''reasoning_content_persisted'', JBool False), (''request_sha256'', JStr request_sha256),
       (''response_headers'', headers), (''response_sha256'', JStr (sha256_hex raw)),
       (''transport_classification'', JStr ''SUCCESSFUL_MODEL_RESPONSE'')]"

definition provider_call_once :: "provider_env \<Rightarrow> json \<Rightarrow> json list \<Rightarrow> call_state \<Rightarrow> (string \<times> json) call_result \<times> call_state" where
  "provider_call_once env manifest messages st =
     (case provider_request_body manifest messages of
        Inl e \<Rightarrow> (Call_raised e, st)
      | Inr body \<Rightarrow>
          (let request_sha256 = sha256_hex (dumps body) in
           case spend env st of
             Inl e \<Rightarrow> (Call_raised e, st)
           | Inr st \<Rightarrow>
               (let (started, st) = read_clock env st in
                case call_setup manifest of
                  Inl e \<Rightarrow> (Call_raised e, st)
                | Inr _ \<Rightarrow>
                    (let outcome = pe_http env (cs_requests st) body; st = st\<lparr>cs_requests := Suc (cs_requests st)\<rparr> in
                     case judge outcome of
                       Judged_raise e \<Rightarrow> (Call_raised e, st)
                     | Judged_failure f \<Rightarrow>
                         (let (ended, st) = read_clock env st in
                          (Transport_failed (failure_record request_sha256 (elapsed_ms ended started) f), st))
                     | Judged_answer content model status headers raw \<Rightarrow>
                         (let (ended, st) = read_clock env st in
                          (Returned (content, call_audit manifest request_sha256 (elapsed_ms ended started) content model status headers raw), st))))))"

subsection \<open>Retries\<close>

definition PROVIDER_RETRY_DELAYS_SECONDS :: "int list" where
  "PROVIDER_RETRY_DELAYS_SECONDS = [1, 2]"

text \<open>The checks before a call: the clock is read first.\<close>

definition call_budget :: "provider_env \<Rightarrow> json \<Rightarrow> rat \<Rightarrow> call_state \<Rightarrow> unit res \<times> call_state" where
  "call_budget env manifest started st =
     (let (now, st) = read_clock env st in
      (bindE (jindex manifest ''timeouts'') (\<lambda>timeouts. bindE (float_field timeouts ''run_wall_clock_seconds'') (\<lambda>limit.
         if float_sub now started \<ge> limit then Inl (ProviderBudgetStop ''RUN_WALL_CLOCK_TIMEOUT'')
         else bindE (jindex manifest ''budgets'') (\<lambda>budgets. bindE (int_field budgets ''max_provider_calls'') (\<lambda>limit.
           if cs_calls st \<ge> limit then Inl (ProviderBudgetStop ''PROVIDER_CALL_BUDGET_EXHAUSTED'') else Inr ())))), st))"

text \<open>\<open>{**record, ...}\<close> and \<open>audit.update(...)\<close>: none of the three keys is in the record before.\<close>

definition with_call :: "string \<Rightarrow> int \<Rightarrow> nat \<Rightarrow> json \<Rightarrow> json" where
  "with_call event call ordinal r =
     JObj (jitems r @ [(''event'', JStr event), (''provider_call'', JInt call), (''retry_ordinal'', JInt (int ordinal))])"

fun retry_loop :: "provider_env \<Rightarrow> json \<Rightarrow> json list \<Rightarrow> rat \<Rightarrow> nat \<Rightarrow> int list \<Rightarrow> call_state \<Rightarrow> (string \<times> json) res \<times> call_state" where
  "retry_loop env manifest messages started ordinal [] st = (Inl AssertionError, st)"
| "retry_loop env manifest messages started ordinal (delay # delays) st =
     (case call_budget env manifest started st of
        (Inl e, st) \<Rightarrow> (Inl e, st)
      | (Inr _, st) \<Rightarrow>
          (let st = st\<lparr>cs_calls := cs_calls st + 1\<rparr>; call = cs_calls st in
           case provider_call_once env manifest messages st of
             (Call_raised e, st) \<Rightarrow> (Inl e, st)
           | (Transport_failed r, st) \<Rightarrow>
               (let st = st\<lparr>cs_failures := cs_failures st @ [with_call ''provider_transport_failure'' call ordinal r]\<rparr> in
                if \<not> truthy (jget_or r ''retryable'' JNull) \<or> delays = [] then
                  (Inl (ProviderTerminalError (py_str (jget_or r ''classification'' JNull))), st)
                else retry_loop env manifest messages started (Suc ordinal) delays st)
           | (Returned (content, audit), st) \<Rightarrow> (Inr (content, with_call ''provider_success'' call ordinal audit), st)))"

definition provider_call_with_retries ::
  "provider_env \<Rightarrow> json \<Rightarrow> json list \<Rightarrow> rat \<Rightarrow> call_state \<Rightarrow> (string \<times> json) res \<times> call_state" where
  "provider_call_with_retries env manifest messages started st =
     (case bindE (jindex manifest ''budgets'') (\<lambda>_. jindex manifest ''timeouts'') of
        Inl e \<Rightarrow> (Inl e, st)
      | Inr _ \<Rightarrow> retry_loop env manifest messages started 0 (PROVIDER_RETRY_DELAYS_SECONDS @ [0]) st)"

subsection \<open>What a call does to the state\<close>

lemma read_clock_simps [simp]:
  "fst (read_clock env st) = pe_clock env (cs_reads st)"
  "cs_calls (snd (read_clock env st)) = cs_calls st" "cs_failures (snd (read_clock env st)) = cs_failures st"
  "cs_requests (snd (read_clock env st)) = cs_requests st" "cs_ledger (snd (read_clock env st)) = cs_ledger st"
  by (simp_all add: read_clock_def)

text \<open>The parts of the state the budgets are about, and the one the owner is asked for.\<close>

definition kept :: "call_state \<Rightarrow> call_state \<Rightarrow> bool" where
  "kept st st' \<longleftrightarrow> cs_calls st' = cs_calls st \<and> cs_failures st' = cs_failures st
     \<and> al_authorization_id (cs_ledger st') = al_authorization_id (cs_ledger st)"

lemma spend_facts:
  assumes "spend env st = Inr st'"
  shows "kept st st'" "al_consumed (cs_ledger st')" "cs_requests st' = cs_requests st"
  using assms by (auto simp: spend_def kept_def consume_def read_clock_def split: if_splits)

lemma spend_total: "\<exists>st'. spend env st = Inr st'"
  by (simp add: spend_def consume_def read_clock_def)

text \<open>
  A call either fails before its request, or sends one; and whenever it sends one the
  authorization is spent.
\<close>

lemma call_once_facts:
  assumes "provider_call_once env manifest messages st = (r, st')"
  shows "kept st st'" "al_consumed (cs_ledger st) \<longrightarrow> al_consumed (cs_ledger st')"
    "(\<exists>e. r = Call_raised e) \<and> cs_requests st' = cs_requests st
     \<or> cs_requests st' = Suc (cs_requests st) \<and> al_consumed (cs_ledger st')"
  using assms spend_total [of env st]
  by (auto simp: provider_call_once_def kept_def read_clock_def Let_def
      dest: spend_facts split: sum.splits judged.splits)

lemma call_once_failed:
  "provider_call_once env manifest messages st = (Transport_failed r, st') \<Longrightarrow>
     \<exists>f ms h. r = failure_record h ms f"
  by (auto simp: provider_call_once_def read_clock_def Let_def split: sum.splits judged.splits)

lemma call_budget_facts:
  assumes "call_budget env manifest started st = (r, st')"
  shows "st' = st\<lparr>cs_reads := Suc (cs_reads st)\<rparr>"
    and "r = Inr x \<Longrightarrow> bindE (jindex manifest ''budgets'') (\<lambda>b. int_field b ''max_provider_calls'') = Inr limit \<Longrightarrow> cs_calls st < limit"
  using assms by (auto simp: call_budget_def read_clock_def bindE_Inr_iff split: if_splits)

subsection \<open>The retries\<close>

definition retryable :: "json \<Rightarrow> bool" where
  "retryable r = truthy (jget_or r ''retryable'' JNull)"

lemma failure_record_simps [simp]:
  "jget (failure_record h ms f) ''retryable'' = Some (JBool (fl_retryable f))"
  "jget (failure_record h ms f) ''classification'' = Some (JStr (fl_class f))"
  by (simp_all add: failure_record_def transport_error_record_def)

lemma with_call_retryable: "jget r k = Some v \<Longrightarrow> jget (with_call event call ordinal r) k = Some v"
  by (cases r) (simp_all add: with_call_def dict_get_append)

text \<open>The states between which a run of at most \<open>n\<close> calls lies, with the failures it adds.\<close>

definition calls_between :: "nat \<Rightarrow> call_state \<Rightarrow> call_state \<Rightarrow> json list \<Rightarrow> bool" where
  "calls_between n st st' fs \<longleftrightarrow>
     cs_failures st' = cs_failures st @ fs \<and> cs_calls st \<le> cs_calls st' \<and> cs_calls st' \<le> cs_calls st + int n
     \<and> int (length fs) \<le> cs_calls st' - cs_calls st
     \<and> cs_requests st \<le> cs_requests st' \<and> int (cs_requests st') \<le> int (cs_requests st) + (cs_calls st' - cs_calls st)
     \<and> (cs_requests st' = cs_requests st \<or> al_consumed (cs_ledger st'))
     \<and> (al_consumed (cs_ledger st) \<longrightarrow> al_consumed (cs_ledger st'))"

definition call_limit :: "json \<Rightarrow> int \<Rightarrow> bool" where
  "call_limit manifest limit \<longleftrightarrow> bindE (jindex manifest ''budgets'') (\<lambda>b. int_field b ''max_provider_calls'') = Inr limit"

lemma retry_loop_facts:
  "retry_loop env manifest messages started ordinal delays st = (r, st') \<Longrightarrow>
     \<exists>fs. calls_between (length delays) st st' fs \<and> list_all retryable (butlast fs)
       \<and> (call_limit manifest limit \<longrightarrow> cs_calls st' \<le> max (cs_calls st) limit)
       \<and> (\<forall>x. r = Inr x \<longrightarrow> list_all retryable fs \<and> int (length fs) = cs_calls st' - cs_calls st - 1
             \<and> al_consumed (cs_ledger st') \<and> int (cs_requests st') = int (cs_requests st) + (cs_calls st' - cs_calls st))"
proof (induction delays arbitrary: ordinal st)
  case Nil
  then show ?case by (auto simp: calls_between_def)
next
  case (Cons delay delays)
  obtain b st1 where b: "call_budget env manifest started st = (b, st1)" by (cases "call_budget env manifest started st")
  have st1: "st1 = st\<lparr>cs_reads := Suc (cs_reads st)\<rparr>" using call_budget_facts(1) [OF b] .
  show ?case
  proof (cases b)
    case (Inl e)
    then show ?thesis using Cons.prems b st1 by (auto simp: calls_between_def)
  next
    case (Inr u)
    have limit: "call_limit manifest limit \<Longrightarrow> cs_calls st < limit"
      using call_budget_facts(2) [OF b, of u limit] Inr by (simp add: call_limit_def)
    let ?st2 = "st1\<lparr>cs_calls := cs_calls st1 + 1\<rparr>"
    obtain o' st3 where o: "provider_call_once env manifest messages ?st2 = (o', st3)"
      by (cases "provider_call_once env manifest messages ?st2")
    note f = call_once_facts [OF o]
    have k: "cs_calls st3 = cs_calls st + 1" "cs_failures st3 = cs_failures st"
      "cs_requests st3 = cs_requests st \<or> cs_requests st3 = Suc (cs_requests st) \<and> al_consumed (cs_ledger st3)"
      "al_consumed (cs_ledger st) \<longrightarrow> al_consumed (cs_ledger st3)"
      using f st1 by (auto simp: kept_def)
    show ?thesis
    proof (cases o')
      case (Call_raised e)
      then have "r = Inl e" "st' = st3" using Cons.prems b Inr o by (simp_all add: Let_def)
      then show ?thesis using k limit by (intro exI [of _ "[]"]) (auto simp: calls_between_def)
    next
      case (Returned x)
      obtain c a where "x = (c, a)" by (cases x)
      then have "st' = st3" using Cons.prems b Inr o Returned by (simp add: Let_def)
      then show ?thesis using k limit f(3) Returned st1 by (intro exI [of _ "[]"]) (auto simp: calls_between_def)
    next
      case (Transport_failed t)
      let ?f = "with_call ''provider_transport_failure'' (cs_calls ?st2) ordinal t"
      let ?st4 = "st3\<lparr>cs_failures := cs_failures st3 @ [?f]\<rparr>"
      have q: "cs_requests st3 = Suc (cs_requests st)" "al_consumed (cs_ledger st3)"
        using f(3) Transport_failed st1 by auto
      obtain fl ms h where t: "t = failure_record h ms fl" using call_once_failed o Transport_failed by blast
      have tr: "retryable ?f \<longleftrightarrow> truthy (jget_or t ''retryable'' JNull)"
        using with_call_retryable [of t "''retryable''" "JBool (fl_retryable fl)"] t
        by (simp add: retryable_def jget_or_def)
      show ?thesis
      proof (cases "\<not> truthy (jget_or t ''retryable'' JNull) \<or> delays = []")
        case True
        then have "\<exists>e. r = Inl e" "st' = ?st4" using Cons.prems b Inr o Transport_failed by (auto simp: Let_def)
        then show ?thesis using k q limit by (intro exI [of _ "[?f]"]) (auto simp: calls_between_def)
      next
        case False
        then have "retry_loop env manifest messages started (Suc ordinal) delays ?st4 = (r, st')"
          using Cons.prems b Inr o Transport_failed by (simp add: Let_def)
        from Cons.IH [OF this] obtain fs where fs: "calls_between (length delays) ?st4 st' fs" "list_all retryable (butlast fs)"
          "call_limit manifest limit \<longrightarrow> cs_calls st' \<le> max (cs_calls ?st4) limit"
          "\<forall>x. r = Inr x \<longrightarrow> list_all retryable fs \<and> int (length fs) = cs_calls st' - cs_calls ?st4 - 1
             \<and> al_consumed (cs_ledger st') \<and> int (cs_requests st') = int (cs_requests ?st4) + (cs_calls st' - cs_calls ?st4)"
          by blast
        have "retryable ?f" using False tr by simp
        then show ?thesis using fs k q limit
          by (intro exI [of _ "?f # fs"]) (auto simp: calls_between_def)
      qed
    qed
  qed
qed

lemma with_retries_facts:
  assumes "provider_call_with_retries env manifest messages started st = (r, st')"
  obtains fs where "calls_between 3 st st' fs" "list_all retryable (butlast fs)"
    "call_limit manifest limit \<longrightarrow> cs_calls st' \<le> max (cs_calls st) limit"
    "\<forall>x. r = Inr x \<longrightarrow> list_all retryable fs \<and> int (length fs) = cs_calls st' - cs_calls st - 1
       \<and> al_consumed (cs_ledger st') \<and> int (cs_requests st') = int (cs_requests st) + (cs_calls st' - cs_calls st)"
proof (cases "bindE (jindex manifest ''budgets'') (\<lambda>_. jindex manifest ''timeouts'')")
  case (Inl e)
  then have "r = Inl e" "st' = st" using assms by (simp_all add: provider_call_with_retries_def)
  then show ?thesis using that [of "[]"] by (auto simp: calls_between_def)
next
  case (Inr u)
  then have "retry_loop env manifest messages started 0 [1, 2, 0] st = (r, st')"
    using assms by (simp add: provider_call_with_retries_def PROVIDER_RETRY_DELAYS_SECONDS_def)
  from retry_loop_facts [OF this, of limit] show ?thesis
    using that by (auto simp: numeral_3_eq_3)
qed

text \<open>Transport under its budgets: one turn of the run makes at most three calls and never more than the
  manifest allows in all, sends no request before the owner's authorization is spent, retries only
  what counts as retryable, and records exactly the failures before an answer.\<close>

theorem transport_within_budget:
  assumes "provider_call_with_retries env manifest messages started st = (r, st')" "call_limit manifest limit"
  shows "cs_calls st' \<le> cs_calls st + 3 \<and> cs_calls st' \<le> max (cs_calls st) limit
    \<and> (cs_requests st' = cs_requests st \<or> al_consumed (cs_ledger st'))
    \<and> (\<exists>fs. cs_failures st' = cs_failures st @ fs \<and> list_all retryable (butlast fs)
         \<and> (\<forall>x. r = Inr x \<longrightarrow> list_all retryable fs \<and> int (length fs) = cs_calls st' - cs_calls st - 1))"
proof -
  obtain fs where fs: "calls_between 3 st st' fs" "list_all retryable (butlast fs)"
    "call_limit manifest limit \<longrightarrow> cs_calls st' \<le> max (cs_calls st) limit"
    "\<forall>x. r = Inr x \<longrightarrow> list_all retryable fs \<and> int (length fs) = cs_calls st' - cs_calls st - 1
       \<and> al_consumed (cs_ledger st') \<and> int (cs_requests st') = int (cs_requests st) + (cs_calls st' - cs_calls st)"
    by (rule with_retries_facts [OF assms(1), of limit])
  from fs(1) have "cs_calls st' \<le> cs_calls st + 3" "cs_requests st' = cs_requests st \<or> al_consumed (cs_ledger st')"
    "cs_failures st' = cs_failures st @ fs" by (auto simp: calls_between_def)
  with fs(2-4) assms(2) show ?thesis by blast
qed

text \<open>A run whose manifest is complete and whose clock stays within the limit.\<close>

definition ready :: "provider_env \<Rightarrow> json \<Rightarrow> json list \<Rightarrow> rat \<Rightarrow> json \<Rightarrow> int \<Rightarrow> bool" where
  "ready env manifest messages started body limit \<longleftrightarrow>
     provider_request_body manifest messages = Inr body \<and> call_setup manifest = Inr () \<and> call_limit manifest limit
     \<and> (\<exists>wall. bindE (jindex manifest ''timeouts'') (\<lambda>t. float_field t ''run_wall_clock_seconds'') = Inr wall
          \<and> (\<forall>n. float_sub (pe_clock env n) started < wall))"

lemma ready_budget:
  assumes "ready env manifest messages started body limit" "cs_calls st < limit"
  shows "call_budget env manifest started st = (Inr (), st\<lparr>cs_reads := Suc (cs_reads st)\<rparr>)"
proof -
  obtain wall where "bindE (jindex manifest ''timeouts'') (\<lambda>t. float_field t ''run_wall_clock_seconds'') = Inr wall"
    and w: "\<And>n. float_sub (pe_clock env n) started < wall"
    using assms(1) by (auto simp: ready_def)
  then obtain t where t: "jindex manifest ''timeouts'' = Inr t" "float_field t ''run_wall_clock_seconds'' = Inr wall"
    by (auto simp: bindE_Inr_iff)
  obtain b where b: "jindex manifest ''budgets'' = Inr b" "int_field b ''max_provider_calls'' = Inr limit"
    using assms(1) by (auto simp: ready_def call_limit_def bindE_Inr_iff)
  show ?thesis using w [of "cs_reads st"] assms(2) by (simp add: call_budget_def read_clock_def t b not_le)
qed

lemma ready_call:
  assumes "ready env manifest messages started body limit"
  shows "\<exists>st' ms. kept st st' \<and> cs_requests st' = Suc (cs_requests st) \<and> al_consumed (cs_ledger st')
    \<and> provider_call_once env manifest messages st =
        ((case judge (pe_http env (cs_requests st) body) of
            Judged_raise e \<Rightarrow> Call_raised e
          | Judged_failure f \<Rightarrow> Transport_failed (failure_record (sha256_hex (dumps body)) ms f)
          | Judged_answer content model status headers raw \<Rightarrow>
              Returned (content, call_audit manifest (sha256_hex (dumps body)) ms content model status headers raw)), st')"
proof -
  obtain s1 where s1: "spend env st = Inr s1" using spend_total by blast
  note f = spend_facts [OF s1]
  have b: "provider_request_body manifest messages = Inr body" "call_setup manifest = Inr ()"
    using assms by (simp_all add: ready_def)
  show ?thesis
    using f by (cases "judge (pe_http env (cs_requests st) body)")
      (auto simp: provider_call_once_def b s1 read_clock_def Let_def kept_def)
qed

lemma ready_retries:
  assumes "ready env manifest messages started body limit"
  shows "provider_call_with_retries env manifest messages started st = retry_loop env manifest messages started 0 [1, 2, 0] st"
proof -
  obtain b t where "jindex manifest ''budgets'' = Inr b" "jindex manifest ''timeouts'' = Inr t"
    using assms by (auto simp: ready_def call_limit_def bindE_Inr_iff)
  then show ?thesis by (simp add: provider_call_with_retries_def PROVIDER_RETRY_DELAYS_SECONDS_def)
qed

lemma ready_answer:
  assumes "ready env manifest messages started body limit" "cs_calls st < limit"
    and "judge (pe_http env (cs_requests st) body) = Judged_answer content model status headers raw"
  shows "\<exists>audit st'. retry_loop env manifest messages started ordinal (d # ds) st = (Inr (content, audit), st')
    \<and> cs_requests st' = Suc (cs_requests st) \<and> cs_failures st' = cs_failures st"
proof -
  let ?st = "st\<lparr>cs_reads := Suc (cs_reads st), cs_calls := cs_calls st + 1\<rparr>"
  obtain st' ms where "kept ?st st'" "cs_requests st' = Suc (cs_requests ?st)"
    "provider_call_once env manifest messages ?st
       = (Returned (content, call_audit manifest (sha256_hex (dumps body)) ms content model status headers raw), st')"
    using ready_call [OF assms(1), of ?st] assms(3) by auto
  then show ?thesis by (simp add: ready_budget [OF assms(1,2)] Let_def kept_def)
qed

lemma ready_failure:
  assumes "ready env manifest messages started body limit" "cs_calls st < limit"
    and "judge (pe_http env (cs_requests st) body) = Judged_failure f"
  shows "\<exists>st' r. cs_requests st' = Suc (cs_requests st) \<and> cs_failures st' = cs_failures st @ [r] \<and> cs_calls st' = cs_calls st + 1
    \<and> al_consumed (cs_ledger st')
    \<and> retry_loop env manifest messages started ordinal (d # ds) st
        = (if \<not> fl_retryable f \<or> ds = [] then (Inl (ProviderTerminalError (fl_class f)), st')
           else retry_loop env manifest messages started (Suc ordinal) ds st')"
proof -
  let ?st = "st\<lparr>cs_reads := Suc (cs_reads st), cs_calls := cs_calls st + 1\<rparr>"
  obtain st' ms where c: "kept ?st st'" "cs_requests st' = Suc (cs_requests ?st)" "al_consumed (cs_ledger st')"
    "provider_call_once env manifest messages ?st = (Transport_failed (failure_record (sha256_hex (dumps body)) ms f), st')"
    using ready_call [OF assms(1), of ?st] assms(3) by auto
  let ?r = "with_call ''provider_transport_failure'' (cs_calls ?st) ordinal (failure_record (sha256_hex (dumps body)) ms f)"
  let ?st4 = "st'\<lparr>cs_failures := cs_failures st' @ [?r]\<rparr>"
  have "cs_requests ?st4 = Suc (cs_requests st)" "cs_failures ?st4 = cs_failures st @ [?r]" "cs_calls ?st4 = cs_calls st + 1"
    "al_consumed (cs_ledger ?st4)" using c by (simp_all add: kept_def)
  moreover have "cs_calls ?st = cs_calls st' " using c(1) by (simp add: kept_def)
  ultimately show ?thesis
    using c by (intro exI [of _ ?st4] exI [of _ ?r]) (simp add: ready_budget [OF assms(1,2)] Let_def jget_or_def kept_def)
qed

lemma refused_call:
  assumes "ready env manifest messages started body limit" "cs_calls st < limit"
    and "pe_http env (cs_requests st) body = Http_error status hs answer" "status < 500" "status \<noteq> 429"
  obtains st' r where "provider_call_with_retries env manifest messages started st
        = (Inl (ProviderTerminalError ''HTTP_4XX_FATAL_FOR_RUN''), st')"
    "cs_requests st' = Suc (cs_requests st)" "cs_calls st' = cs_calls st + 1" "al_consumed (cs_ledger st')"
    "cs_failures st' = cs_failures st @ [r]"
proof -
  obtain f where f: "judge (pe_http env (cs_requests st) body) = Judged_failure f" "\<not> fl_retryable f"
    "fl_class f = ''HTTP_4XX_FATAL_FOR_RUN''"
    using assms(3-5) by (auto simp: judge_def retryable_status_def Let_def)
  from ready_failure [OF assms(1,2) f(1), of 0 1 "[2, 0]"] f(2,3) show ?thesis
    unfolding ready_retries [OF assms(1), symmetric] using that by auto
qed

text \<open>A refusal is final: a status of the client's fault other than 429, an HTTP 401 for one, ends the turn
  after a single request, with the owner's authorization spent.\<close>

theorem refusal_is_final:
  assumes "ready env manifest messages started body limit" "cs_calls st < limit"
    and "pe_http env (cs_requests st) body = Http_error status hs answer" "status < 500" "status \<noteq> 429"
  shows "\<exists>st'. provider_call_with_retries env manifest messages started st
        = (Inl (ProviderTerminalError ''HTTP_4XX_FATAL_FOR_RUN''), st')
    \<and> cs_requests st' = Suc (cs_requests st) \<and> cs_calls st' = cs_calls st + 1 \<and> al_consumed (cs_ledger st')"
  by (rule refused_call [OF assms]) blast

text \<open>
  Attempts that count as retryable, before one whose answer is read to its end.
\<close>

definition passing :: "http_outcome \<Rightarrow> bool" where
  "passing o' \<longleftrightarrow> (\<exists>f. judge o' = Judged_failure f \<and> fl_retryable f)"

lemma judge_stream:
  assumes "list_all ascii cs"
  shows "\<exists>headers raw. judge (Http_answer status hs (Lines (stream_lines (stream_data cs) @ tail_lines)))
    = Judged_answer (concat cs) [] status headers raw"
proof -
  have "list_all sound_data (map (\<lambda>c. json_text plain_style (chunk_doc c)) cs)"
    using assms by (induction cs) (simp_all add: chunk_sound)
  moreover have "DONE \<notin> set (map (\<lambda>c. json_text plain_style (chunk_doc c)) cs)" using chunk_not_done by (auto dest: sym)
  ultimately have "read_sse_until_done (Lines (stream_lines (stream_data cs) @ tail_lines)) = (concat (stream_lines (stream_data cs)), True)"
    using read_stream [of "map (\<lambda>c. json_text plain_style (chunk_doc c)) cs" tail_lines] by (simp add: read_sse_until_done_def flip: stream_data_def)
  moreover have "provider_sse_error (concat (stream_lines (stream_data cs))) = None"
    "reconstruct_sse (concat (stream_lines (stream_data cs))) = Inr (concat cs, [], True)"
    using payloads_of_stream [OF stream_sound [OF assms]] events_of_stream [OF assms] no_error_in_stream [OF assms]
    by (simp_all add: reconstruct_sse_def provider_sse_error_def)
  ultimately show ?thesis by (simp add: judge_def judge_answer_def)
qed

lemma retries_reach:
  assumes "ready env manifest messages started body limit"
    and "judge (pe_http env (cs_requests st + k) body) = Judged_answer content model status headers raw"
  shows "k < length ds \<Longrightarrow> cs_calls st + int k < limit \<Longrightarrow> \<forall>i < k. passing (pe_http env (cs_requests st + i) body) \<Longrightarrow>
    \<exists>audit st'. retry_loop env manifest messages started ordinal ds st = (Inr (content, audit), st')
      \<and> cs_requests st' = cs_requests st + Suc k \<and> length (cs_failures st') = length (cs_failures st) + k"
  using assms(2)
proof (induction ds arbitrary: k st ordinal)
  case (Cons d ds)
  show ?case
  proof (cases k)
    case 0
    then show ?thesis using ready_answer [OF assms(1), of st content model status headers raw ordinal d ds] Cons.prems by auto
  next
    case (Suc k')
    have "passing (pe_http env (cs_requests st) body)" using Cons.prems(3) Suc by force
    then obtain f where f: "judge (pe_http env (cs_requests st) body) = Judged_failure f" "fl_retryable f"
      by (auto simp: passing_def)
    have "ds \<noteq> []" "cs_calls st < limit" using Cons.prems(1,2) Suc by auto
    from ready_failure [OF assms(1) this(2) f(1), of ordinal d ds] f(2) this(1) obtain st' r where st':
      "cs_requests st' = Suc (cs_requests st)" "cs_failures st' = cs_failures st @ [r]" "cs_calls st' = cs_calls st + 1"
      "retry_loop env manifest messages started ordinal (d # ds) st = retry_loop env manifest messages started (Suc ordinal) ds st'"
      by auto
    have "\<forall>i < k'. passing (pe_http env (cs_requests st' + i) body)"
      using Cons.prems(3) Suc st'(1) by (metis Suc_less_eq add_Suc add_Suc_right)
    then have "\<exists>audit st''. retry_loop env manifest messages started (Suc ordinal) ds st' = (Inr (content, audit), st'')
      \<and> cs_requests st'' = cs_requests st' + Suc k' \<and> length (cs_failures st'') = length (cs_failures st') + k'"
      using Cons.prems Suc st' by (intro Cons.IH) auto
    then show ?thesis using st' Suc by auto
  qed
qed simp

text \<open>Two failures are survived: when at most two attempts fail in a way that counts as retryable (a
  timeout, a broken connection, a 5xx, an incomplete or malformed stream) and the next one streams
  its answer to the end, the turn returns that answer, with each failure on record.\<close>

theorem answer_within_three:
  assumes "ready env manifest messages started body limit" "k \<le> 2" "cs_calls st + int k < limit"
    and "\<forall>i < k. passing (pe_http env (cs_requests st + i) body)"
    and "pe_http env (cs_requests st + k) body = Http_answer status hs (Lines (stream_lines (stream_data cs) @ tail_lines))"
    and "list_all ascii cs"
  shows "\<exists>audit st'. provider_call_with_retries env manifest messages started st = (Inr (concat cs, audit), st')
    \<and> cs_requests st' = cs_requests st + Suc k \<and> length (cs_failures st') = length (cs_failures st) + k"
proof -
  obtain headers raw where j: "judge (pe_http env (cs_requests st + k) body) = Judged_answer (concat cs) [] status headers raw"
    using judge_stream [OF assms(6), of status hs tail_lines] unfolding assms(5) by blast
  show ?thesis
    unfolding ready_retries [OF assms(1)]
    by (rule retries_reach [OF assms(1) j _ assms(3,4)]) (use assms(2) in simp)
qed

subsection \<open>A manifest and a provider\<close>

text \<open>The parts of a run manifest that the runner reads, with the budgets of the frozen runs.\<close>

definition run_manifest :: json where
  "run_manifest = JObj [
     (''provider'', JObj [(''endpoint'', JStr ''https://integrate.api.nvidia.com/v1/chat/completions''),
        (''model'', JStr ''nvidia/nemotron-3-ultra-550b-a55b'')]),
     (''sampling'', JObj [(''max_tokens'', JInt 4096), (''seed'', JInt 20260915), (''temperature'', JInt 0), (''top_p'', JInt 1)]),
     (''budgets'', JObj [(''max_provider_calls'', JInt 25), (''max_target_http_attempts'', JInt 24),
        (''max_consecutive_invalid_model_outputs'', JInt 3)]),
     (''timeouts'', JObj [(''provider_call_seconds'', JInt 120), (''target_request_seconds'', JInt 10),
        (''run_wall_clock_seconds'', JInt 900)]),
     (''adversary_context'', JObj [(''initial_context_template'', JObj [
        (''base_url'', JStr ''RUNTIME_BOUND_LOOPBACK_URL''),
        (''documented_endpoints'', JStrs [''POST /v1/payments'', ''POST /v1/async-payments'']),
        (''request_payload_contract'', JObj [(''commit_id'', JStr ''string''), (''committed_at'', JStr ''integer logical tick'')])])]),
     (''run_id'', JStr ''OAT-NIM-HOST-SINK-RUN-004''),
     (''provider_preflight'', JObj [(''required'', JBool True), (''tool_id'', JStr ''OAT-NVIDIA-PROVIDER-PREFLIGHT'')])]"

definition fresh_calls :: call_state where
  "fresh_calls = \<lparr>cs_calls = 0, cs_failures = [], cs_requests = 0, cs_reads = 0, cs_ledger = new_ledger ''owner-1''\<rparr>"

definition still_env :: "(nat \<Rightarrow> http_outcome) \<Rightarrow> provider_env" where
  "still_env outcomes = \<lparr>pe_http = \<lambda>n _. outcomes n, pe_clock = \<lambda>_. 0\<rparr>"

lemma manifest_limits:
  "call_limit run_manifest 25" "call_setup run_manifest = Inr ()"
  "bindE (jindex run_manifest ''timeouts'') (\<lambda>t. float_field t ''run_wall_clock_seconds'') = Inr (double 900)"
  by (simp_all add: run_manifest_def call_limit_def call_setup_def float_field_def int_field_def dict_index_def)

lemma manifest_ready: "\<exists>body. ready (still_env outcomes) run_manifest messages 0 body 25"
proof -
  have "\<exists>body. provider_request_body run_manifest messages = Inr body"
    by (simp add: provider_request_body_def run_manifest_def dict_index_def)
  moreover have "0 < double 900" by code_simp
  ultimately show ?thesis using manifest_limits by (simp add: ready_def still_env_def float_sub_def)
qed

lemma transport_within_budget_witness:
  "cs_calls (snd (provider_call_with_retries (still_env (\<lambda>_. Timed_out)) run_manifest [] 0 fresh_calls)) \<le> 3"
  using transport_within_budget [OF surjective_pairing manifest_limits(1), of "still_env (\<lambda>_. Timed_out)" "[]" 0 fresh_calls]
  by (simp add: fresh_calls_def)

lemma refusal_is_final_witness:
  "\<exists>st'. provider_call_with_retries (still_env (\<lambda>_. Http_error 401 None None)) run_manifest [] 0 fresh_calls
        = (Inl (ProviderTerminalError ''HTTP_4XX_FATAL_FOR_RUN''), st')
     \<and> cs_requests st' = 1 \<and> al_consumed (cs_ledger st')"
proof -
  obtain body where r: "ready (still_env (\<lambda>_. Http_error 401 None None)) run_manifest [] 0 body 25"
    using manifest_ready by blast
  have "pe_http (still_env (\<lambda>_. Http_error 401 None None)) (cs_requests fresh_calls) body = Http_error 401 None None"
    by (simp add: still_env_def)
  from refusal_is_final [OF r _ this] show ?thesis by (simp add: fresh_calls_def) blast
qed

lemma answer_within_three_witness:
  "\<exists>audit st'. provider_call_with_retries
      (still_env (\<lambda>n. if n < 2 then Timed_out else Http_answer 200 [] (Lines (stream_lines (stream_data [''hel'', ''lo'']) @ []))))
      run_manifest [] 0 fresh_calls = (Inr (''hello'', audit), st') \<and> cs_requests st' = 3 \<and> length (cs_failures st') = 2"
proof -
  let ?o = "\<lambda>n. if n < 2 then Timed_out else Http_answer 200 [] (Lines (stream_lines (stream_data [''hel'', ''lo'']) @ []))"
  obtain body where r: "ready (still_env ?o) run_manifest [] 0 body 25" using manifest_ready by blast
  have p: "\<forall>i < 2. passing (pe_http (still_env ?o) (cs_requests fresh_calls + i) body)"
    by (simp add: still_env_def passing_def judge_def fresh_calls_def)
  have a: "pe_http (still_env ?o) (cs_requests fresh_calls + 2) body = Http_answer 200 [] (Lines (stream_lines (stream_data [''hel'', ''lo'']) @ []))"
    by (simp add: still_env_def)
  have c: "list_all ascii [''hel'', ''lo'']" by (simp add: ascii_def)
  from answer_within_three [OF r _ _ p a c] show ?thesis by (simp add: fresh_calls_def numeral_2_eq_2 numeral_3_eq_3)
qed

end
