(* ===== verification/Evidence_Sums.thy ===== *)
theory Evidence_Sums
  imports Sha_Manifest Nim_Stream Leak_Audit
begin

section \<open>The sums of the sequence's evidence\<close>

text \<open>
  \<open>verify_sha256sums\<close> of the sequence runners under \<open>tools\<close>, beside the verifier of the evidence store in
  \<open>oat/qualification/evidence_store.py\<close>. The writers of the two are the same.
\<close>

definition read_sums :: "string \<Rightarrow> (string \<times> string) list res" where
  "read_sums text =
     mapE (\<lambda>line. case split_blanks line of
         None \<Rightarrow> Inl (ValueError ''not enough values to unpack'') | Some (expected, rel) \<Rightarrow> Inr (expected, rel))
       (filter (\<lambda>line. strip_ws line \<noteq> []) (text_lines text))"

definition sum_wrong :: "directory \<Rightarrow> string \<times> string \<Rightarrow> bool" where
  "sum_wrong d e = (case dict_get d (snd e) of None \<Rightarrow> True | Some content \<Rightarrow> sha256_hex content \<noteq> fst e)"

definition verify_run_sums :: "directory \<Rightarrow> json res" where
  "verify_run_sums d =
     (case dict_get d MANIFEST_NAME of
        None \<Rightarrow> Inr (JObj [(''status'', JStr FAIL), (''reason'', JStr ''SHA256SUMS.txt missing''), (''checked'', JInt 0)])
      | Some text \<Rightarrow>
          bindE (read_sums text) (\<lambda>entries.
            (let mismatches = map snd (filter (sum_wrong d) entries) in
             Inr (JObj [(''status'', JStr (if mismatches = [] then PASS else FAIL)),
               (''checked'', JInt (int (length entries))), (''mismatched_entry_count'', JInt (int (length mismatches))),
               (''mismatched_entries'', JStrs (sort mismatches))]))))"

subsection \<open>Sums read back\<close>

definition printable_names :: "directory \<Rightarrow> bool" where
  "printable_names d \<longleftrightarrow> (\<forall>f \<in> set d. list_all printable (fst f))"

lemma text_lines_newline: "list_all printable s \<Longrightarrow> text_lines (s @ CHR 0x0A # t) = s # text_lines t"
proof (induction s)
  case (Cons c s)
  then have "boundary (c # s @ CHR 0x0A # t) = 0" by (auto simp: printable_def)
  then show ?case using Cons by (simp add: text_lines.simps(2))
qed (simp add: text_lines.simps(2))

lemma text_lines_join:
  "list_all (list_all printable) ls \<Longrightarrow> ls \<noteq> [] \<Longrightarrow> text_lines (join [CHR 0x0A] ls @ [CHR 0x0A]) = ls"
proof (induction ls rule: induct_list012)
  case (2 l)
  then show ?case using text_lines_newline [of l "[]"] by simp
next
  case (3 l m ls)
  then have "text_lines (join [CHR 0x0A] (m # ls) @ [CHR 0x0A]) = m # ls" by simp
  then show ?case using text_lines_newline [of l] 3 by simp
qed simp

lemma line_printable: "list_all printable (fst f) \<Longrightarrow> list_all printable (manifest_line f)"
  using sha256_hex_is_hex [of _ "snd f"] printable_hex
  by (auto simp: manifest_line_def list_all_iff printable_def)

lemma read_sums_written:
  assumes "printable_names d"
  shows "read_sums (manifest_text d) = Inr (map (\<lambda>f. (sha256_hex (snd f), fst f)) (listed_files d))"
proof -
  let ?ls = "map manifest_line (listed_files d)"
  have p: "list_all (list_all printable) ?ls"
    using assms line_printable by (auto simp: list_all_iff printable_names_def listed_set)
  have "filter (\<lambda>line. strip_ws line \<noteq> []) (text_lines (manifest_text d)) = ?ls"
  proof (cases "listed_files d = []")
    case True
    then show ?thesis by (simp add: manifest_text_def text_lines.simps(2) strip_ws_def)
  next
    case False
    then have "text_lines (manifest_text d) = ?ls" unfolding manifest_text_def by (intro text_lines_join p) simp
    then show ?thesis using manifest_line_nonblank by (simp add: filter_id_conv)
  qed
  moreover have "mapE (\<lambda>line. case split_blanks line of None \<Rightarrow> Inl (ValueError ''not enough values to unpack'')
      | Some (expected, rel) \<Rightarrow> Inr (expected, rel)) (map manifest_line fs) = Inr (map (\<lambda>f. (sha256_hex (snd f), fst f)) fs)" for fs
    by (induction fs) (simp_all add: split_manifest_line)
  ultimately show ?thesis by (simp add: read_sums_def)
qed

lemma sealed_get:
  "distinct (map fst d) \<Longrightarrow> f \<in> set (listed_files d) \<Longrightarrow> dict_get (write_manifest d @ extra) (fst f) = Some (snd f)"
proof -
  assume d: "distinct (map fst d)" and f: "f \<in> set (listed_files d)"
  have "fst f \<noteq> MANIFEST_NAME"
    using f by (auto simp: listed_set base_name_def MANIFEST_NAME_def)
  moreover have "dict_get d (fst f) = Some (snd f)" using d f by (simp add: listed_set dict_get_def)
  ultimately show ?thesis by (simp add: write_manifest_def dict_get_append)
qed

lemma unlisted_refused:
  assumes "dict_get d MANIFEST_NAME = Some text" "parse_manifest text = Inr listed"
    and "f \<in> set d" "base_name (fst f) \<noteq> MANIFEST_NAME" "fst f \<notin> fst ` set listed"
  shows "\<exists>r. verify_manifest d = Inr r \<and> \<not> mr_pass r"
proof -
  have "fst f \<in> set (filter (\<lambda>p. p \<notin> fst ` set listed) (map fst (filter (\<lambda>f. base_name (fst f) \<noteq> MANIFEST_NAME) d)))"
    using assms(3-5) by simp
  then have "filter (\<lambda>p. p \<notin> fst ` set listed) (map fst (filter (\<lambda>f. base_name (fst f) \<noteq> MANIFEST_NAME) d)) \<noteq> []"
    by (metis empty_iff list.set(1))
  then show ?thesis by (simp only: verify_manifest_def assms(1,2) option.case bindE_simps Let_def sum.inject ex_simps
    simp_thms manifest_report.simps append_is_Nil_conv)
qed

text \<open>Planted files go unnoticed: the runner's check of a sealed evidence directory passes whatever files
  were added to it since, because it reads only the files its sums name; the check of the evidence
  store refuses the same directory as soon as one file is new.\<close>

theorem planted_files_pass:
  assumes "distinct (map fst d)" "printable_names d" "extra \<noteq> []"
    and "\<forall>f \<in> set extra. base_name (fst f) \<noteq> MANIFEST_NAME \<and> fst f \<notin> fst ` set d"
  shows "(\<exists>r. verify_run_sums (write_manifest d @ extra) = Inr r \<and> jget r ''status'' = Some (JStr PASS))
    \<and> (\<exists>r. verify_manifest (write_manifest d @ extra) = Inr r \<and> \<not> mr_pass r)"
proof
  let ?d = "write_manifest d @ extra"
  have m: "dict_get ?d MANIFEST_NAME = Some (manifest_text d)" by (simp add: write_manifest_def dict_get_append)
  have "filter (sum_wrong ?d) (map (\<lambda>f. (sha256_hex (snd f), fst f)) (listed_files d)) = []"
    using sealed_get [OF assms(1)] by (auto simp: filter_empty_conv sum_wrong_def)
  then show "\<exists>r. verify_run_sums ?d = Inr r \<and> jget r ''status'' = Some (JStr PASS)"
    by (simp add: verify_run_sums_def m read_sums_written [OF assms(2)])
  have "\<not> printable (CHR 0x0A)" by (simp add: printable_def)
  then have "plain_names d" using assms(2) by (auto simp: plain_names_def printable_names_def list_all_iff)
  from parse_manifest_text [OF assms(1) this]
  have p: "parse_manifest (manifest_text d) = Inr (map (\<lambda>f. (fst f, sha256_hex (snd f))) (listed_files d))" .
  obtain f where f: "f \<in> set extra" using assms(3) by (cases extra) auto
  then have new: "base_name (fst f) \<noteq> MANIFEST_NAME" "fst f \<notin> fst ` set (map (\<lambda>f. (fst f, sha256_hex (snd f))) (listed_files d))"
    using assms(4) by (auto simp: image_image listed_set)
  have "f \<in> set ?d" using f by simp
  from unlisted_refused [OF m p this new] show "\<exists>r. verify_manifest ?d = Inr r \<and> \<not> mr_pass r" .
qed

lemma planted_files_pass_witness:
  "\<exists>r. verify_run_sums (write_manifest [(''runtime.json'', ''{}'')] @ [(''planted.json'', ''{}'')]) = Inr r
     \<and> jget r ''status'' = Some (JStr PASS)"
  by (rule planted_files_pass [THEN conjunct1])
    (simp_all add: printable_names_def printable_def base_name_def MANIFEST_NAME_def)

subsection \<open>The credential in the evidence\<close>

text \<open>
  \<open>secret_leak_audit\<close> scans what a run has written so far, except for the two databases. A directory lists
  its files in the order in which they are walked.
\<close>

definition file_name :: "string \<Rightarrow> string" where
  "file_name path = rev (takeWhile (\<lambda>c. c \<noteq> CHR ''/'') (rev path))"

definition scanned :: "string \<Rightarrow> bool" where
  "scanned path \<longleftrightarrow> file_name path \<notin> {''ledger.sqlite3'', ''telemetry.sqlite3''}"

definition secret_leak_audit :: "directory \<Rightarrow> string \<Rightarrow> json" where
  "secret_leak_audit d secret =
     (if secret = [] then JObj [(''credential_present'', JBool False), (''secret_leak_scan'', JStr ''NOT_RUN'')]
      else (let leaks = map fst (filter (\<lambda>(path, content). scanned path \<and> contains_str secret content) d) in
        JObj [(''credential_present'', JBool True), (''leaks'', JStrs leaks),
          (''secret_leak_scan'', JStr (if leaks = [] then PASS else FAIL))]))"

text \<open>
  The audit passes exactly when no file but the databases holds the credential, so it says nothing of
  the databases, and nothing at all of a run without a credential.
\<close>

lemma secret_leak_audit_iff:
  "jget (secret_leak_audit d secret) ''secret_leak_scan'' = Some (JStr PASS) \<longleftrightarrow>
     secret \<noteq> [] \<and> (\<forall>(path, content) \<in> set d. scanned path \<longrightarrow> \<not> contains_str secret content)"
  by (auto simp: secret_leak_audit_def Let_def PASS_def FAIL_def filter_empty_conv)

end
