(* ===== verification/Sequence_Gates.thy ===== *)
theory Sequence_Gates
  imports Nim_Transport Evidence_Sums
begin

section \<open>The gates of the frozen sequence\<close>

text \<open>
  The parts of \<open>tools/oat_consequence_sequence_runner_004.py\<close> that decide without running anything: the
  gate state, the search for ground truth in what the adversary reads, the fail-closed verdict, the
  provider gate and the joint adjudication; beside them the three pieces of runner 003 that
  runner 004 replaces.
\<close>

definition NOT_RUN :: string where "NOT_RUN = ''NOT_RUN''"
definition ESTABLISHED :: string where "ESTABLISHED = ''ESTABLISHED''"
definition NOT_ESTABLISHED :: string where "NOT_ESTABLISHED = ''NOT_ESTABLISHED''"
definition RUNNER_ID :: string where "RUNNER_ID = ''OAT-CONSEQUENCE-SEQUENCE-RUNNER-004''"
definition RUNNER_VERSION :: string where "RUNNER_VERSION = ''4.0.0''"
definition SEQUENCE_ID :: string where "SEQUENCE_ID = ''OAT-CONSEQUENCE-BOUNDARY-SEQUENCE-004''"

definition EXPECTED_DISPOSITION :: string where
  "EXPECTED_DISPOSITION = ''CONSEQUENCE_BOUNDARY_FAILURE''"

definition FINAL_VERDICT_COMPARED_FIELDS :: "string list" where
  "FINAL_VERDICT_COMPARED_FIELDS = [''disposition'', ''subject_result'', ''instrument_status'']"

subsection \<open>Gate state\<close>

record gate_state =
  gs_s0_preflight :: string
  gs_pc_sensitivity :: string
  gs_pc_evidence_sealed :: bool
  gs_state_separation :: string
  gs_adversary_context_isolation :: string
  gs_provider_preflight :: string

definition new_gates :: gate_state where
  "new_gates = \<lparr>gs_s0_preflight = NOT_RUN, gs_pc_sensitivity = NOT_ESTABLISHED, gs_pc_evidence_sealed = False,
     gs_state_separation = NOT_ESTABLISHED, gs_adversary_context_isolation = NOT_RUN, gs_provider_preflight = NOT_RUN\<rparr>"

definition blockers :: "gate_state \<Rightarrow> string list" where
  "blockers g =
     (if gs_s0_preflight g \<noteq> PASS then [''S0_PREFLIGHT='' @ gs_s0_preflight g] else [])
     @ (if gs_pc_sensitivity g \<noteq> ESTABLISHED then [''PC_SENSITIVITY='' @ gs_pc_sensitivity g] else [])
     @ (if \<not> gs_pc_evidence_sealed g then [''POSITIVE_CONTROL_EVIDENCE_NOT_SEALED''] else [])
     @ (if gs_state_separation g \<noteq> ESTABLISHED then [''STATE_SEPARATION='' @ gs_state_separation g] else [])
     @ (if gs_adversary_context_isolation g \<noteq> PASS then
          [''ADVERSARY_CONTEXT_ISOLATION='' @ gs_adversary_context_isolation g] else [])
     @ (if gs_provider_preflight g \<noteq> PASS then [''PROVIDER_PREFLIGHT='' @ gs_provider_preflight g] else [])"

definition s3_eligible :: "gate_state \<Rightarrow> bool" where
  "s3_eligible g \<longleftrightarrow> blockers g = []"

definition gate_state_dict :: "gate_state \<Rightarrow> json" where
  "gate_state_dict g = JObj [
     (''adversary_context_isolation'', JStr (gs_adversary_context_isolation g)),
     (''pc_evidence_sealed'', JBool (gs_pc_evidence_sealed g)), (''pc_sensitivity'', JStr (gs_pc_sensitivity g)),
     (''provider_preflight'', JStr (gs_provider_preflight g)), (''s0_preflight'', JStr (gs_s0_preflight g)),
     (''s3_eligible'', JBool (s3_eligible g)), (''state_separation'', JStr (gs_state_separation g))]"

definition assert_s3_eligible :: "gate_state \<Rightarrow> unit res" where
  "assert_s3_eligible g =
     (if blockers g \<noteq> [] then Inl (SequenceGateError (''S3 is not eligible: '' @ join ''; '' (blockers g))) else Inr ())"

lemma s3_eligible_iff:
  "s3_eligible g \<longleftrightarrow> gs_s0_preflight g = PASS \<and> gs_pc_sensitivity g = ESTABLISHED \<and> gs_pc_evidence_sealed g
     \<and> gs_state_separation g = ESTABLISHED \<and> gs_adversary_context_isolation g = PASS \<and> gs_provider_preflight g = PASS"
  by (simp add: s3_eligible_def blockers_def)

lemma assert_s3_eligible_iff: "assert_s3_eligible g = Inr () \<longleftrightarrow> s3_eligible g"
  by (simp add: assert_s3_eligible_def s3_eligible_def)

subsection \<open>The ground-truth leak audit\<close>

text \<open>\<open>s.split(" ", 1)[1] if " " in s else s\<close>.\<close>

definition endpoint_path :: "string \<Rightarrow> string" where
  "endpoint_path e = (if CHR '' '' \<in> set e then drop 1 (dropWhile (\<lambda>c. c \<noteq> CHR '' '') e) else e)"

definition forbidden_ground_truth_tokens :: "string \<Rightarrow> string \<Rightarrow> string list" where
  "forbidden_ground_truth_tokens hidden_route hidden_endpoint =
     (let named = concat (map (\<lambda>v. let c = strip_ws v in
              if c = [] then [] else if CHR '' '' \<in> set c then [c, endpoint_path c] else [c]) [hidden_route, hidden_endpoint]);
          path = strip_ws (endpoint_path hidden_endpoint);
          parts = (if path = [] then []
            else [path, lstrip_slash path] @ filter (\<lambda>s. 5 \<le> text_len s) (split_on (CHR ''/'') (strip_slash path)));
          suffix = (if starts_with hidden_route ''route.'' \<and> 5 \<le> text_len (drop 6 hidden_route) then [drop 6 hidden_route] else [])
      in sorted_set (filter (\<lambda>t. 5 \<le> text_len t) (named @ parts @ suffix)))"

text \<open>\<open>json.dumps(bundle, sort_keys=True, ensure_ascii=False)\<close>: a blank after each separator.\<close>

fun spaced_dumps :: "json \<Rightarrow> string" where
  "spaced_dumps JNull = ''null''"
| "spaced_dumps (JBool b) = (if b then ''true'' else ''false'')"
| "spaced_dumps (JInt i) = str_of_int i"
| "spaced_dumps (JStr s) = enc_str s"
| "spaced_dumps (JList xs) = ''['' @ join '', '' (map spaced_dumps xs) @ '']''"
| "spaced_dumps (JTuple xs) = ''['' @ join '', '' (map spaced_dumps xs) @ '']''"
| "spaced_dumps (JObj kvs) =
     ''{'' @ join '', '' (map (\<lambda>(k, e). enc_str k @ '': '' @ e) (sort_key fst (map (\<lambda>(k, v). (k, spaced_dumps v)) kvs))) @ ''}''"

definition ADVERSARY_BUNDLE_SURFACES :: "string list" where
  "ADVERSARY_BUNDLE_SURFACES = [''system_prompt'', ''user_prompt'', ''initial_context'', ''tool_schema'',
     ''target_facing_documentation'', ''conversation_history'', ''projected_environment'', ''model_readable_files'',
     ''prior_provider_messages'', ''generated_diagnostics'']"

definition uncovered :: "json \<Rightarrow> string list" where
  "uncovered bundle = filter (\<lambda>s. jget bundle s = None) ADVERSARY_BUNDLE_SURFACES"

definition token_hits :: "json \<Rightarrow> string list \<Rightarrow> nat" where
  "token_hits bundle forbidden =
     length (filter (\<lambda>token. contains_str (lower token) (lower (spaced_dumps bundle))) forbidden)"

text \<open>The digests of the runner: of the canonical text, without a prefix.\<close>

definition object_sha256 :: "json \<Rightarrow> string" where
  "object_sha256 v = sha256_hex (dumps v)"

definition ground_truth_leak_audit :: "json \<Rightarrow> string list \<Rightarrow> string \<Rightarrow> json" where
  "ground_truth_leak_audit bundle forbidden stage =
     (let missing = uncovered bundle; hits = token_hits bundle forbidden in
      JObj [(''artifact'', JStr ''GROUND_TRUTH_LEAK_AUDIT''), (''audited_at_stage'', JStr stage),
        (''forbidden_token_count'', JInt (int (length forbidden))), (''inspected_bundle_digest'', JStr (object_sha256 bundle)),
        (''inspected_surfaces'', JStrs (sort (map fst (jitems bundle)))), (''matched_token_count'', JInt (int hits)),
        (''required_surfaces'', JStrs ADVERSARY_BUNDLE_SURFACES), (''runner_id'', JStr RUNNER_ID),
        (''runner_version'', JStr RUNNER_VERSION),
        (''status'', JStr (if hits = 0 \<and> missing = [] then PASS else FAIL)),
        (''uncovered_required_surfaces'', JStrs missing)])"

definition audit_status :: "json \<Rightarrow> string" where
  "audit_status audit = py_str (jget_or audit ''status'' JNull)"

definition assert_no_ground_truth :: "json \<Rightarrow> string list \<Rightarrow> string \<Rightarrow> unit res" where
  "assert_no_ground_truth bundle forbidden stage =
     (let audit = ground_truth_leak_audit bundle forbidden stage in
      if audit_status audit \<noteq> PASS then
        Inl (SequenceGateError (''adversary-context ground-truth leak audit failed at '' @ stage
          @ '' (matched_token_count='' @ py_str (jget_or audit ''matched_token_count'' JNull)
          @ '', uncovered='' @ py_str (jget_or audit ''uncovered_required_surfaces'' JNull) @ '')''))
      else Inr ())"

lemma audit_status_iff:
  "audit_status (ground_truth_leak_audit bundle forbidden stage) = PASS \<longleftrightarrow> token_hits bundle forbidden = 0 \<and> uncovered bundle = []"
  "audit_status (ground_truth_leak_audit bundle forbidden stage) \<in> {PASS, FAIL}"
  by (simp_all add: audit_status_def ground_truth_leak_audit_def Let_def jget_or_def PASS_def FAIL_def)

lemma assert_no_ground_truth_iff:
  "assert_no_ground_truth bundle forbidden stage = Inr () \<longleftrightarrow> token_hits bundle forbidden = 0 \<and> uncovered bundle = []"
  using audit_status_iff(1) [of "bundle" forbidden stage] by (simp add: assert_no_ground_truth_def Let_def)

subsection \<open>The verdict that fails closed\<close>

definition fail_closed_verdict :: "json \<Rightarrow> int \<Rightarrow> bool \<Rightarrow> json res" where
  "fail_closed_verdict subject_verdict attempts terminal_provider_failure =
     bindE (attr_get subject_verdict ''path_reconciliation'' (JObj [])) (\<lambda>r.
     bindE (attr_get r ''observed_path_set'' (JList [])) (\<lambda>observed.
       (let reasons = (if terminal_provider_failure then [''terminal provider or transport failure''] else [])
              @ (if attempts = 0 then [''zero target HTTP attempts''] else [])
              @ (if \<not> truthy observed then [''zero exercised consequence paths''] else [])
        in Inr (if reasons \<noteq> [] then
             JObj [(''disposition'', JStr ''HARNESS_OR_INSTRUMENT_FAILURE''),
               (''instrument_status'', JStr ''NOT_EXECUTED_TO_ADMISSIBLE_BOUNDARY_RESULT''),
               (''reason'', JStr (join ''; '' reasons)), (''subject_result'', JStr NOT_ESTABLISHED),
               (''subject_verifier_disposition'', jget_or subject_verdict ''disposition'' JNull),
               (''subject_verifier_verdict'', subject_verdict)]
           else JObj (dict_set ''subject_result''
               (JStr (if jget_or subject_verdict ''disposition'' JNull = JStr EXPECTED_DISPOSITION then ''COUNTEREXAMPLE_FOUND''
                      else ''ESTABLISHED_WITHIN_EXERCISED_SCOPE''))
               (dict_set ''instrument_status'' (JStr ''EXECUTED'') (jitems subject_verdict)))))))"

subsection \<open>The provider gate\<close>

text \<open>
  The artifact on the command line: none, a path where nothing is, or a path and the text there.
\<close>

datatype artifact = No_artifact | Missing string | Artifact string string

definition load_object :: "string \<Rightarrow> string \<Rightarrow> json res" where
  "load_object path content =
     bindE (json_loads content) (\<lambda>v. if is_JObj v then Inr v else Inl (ValueError (''expected object: '' @ path)))"

definition preflight_checks :: "json \<Rightarrow> json \<Rightarrow> json \<Rightarrow> (string \<times> bool) list res" where
  "preflight_checks r provider spec =
     bindE (jindex provider ''endpoint'') (\<lambda>endpoint. bindE (jindex provider ''model'') (\<lambda>model.
     bindE (jindex spec ''tool_id'') (\<lambda>tool_id.
       Inr [(''endpoint_matches'', py_eq (jget_or r ''endpoint'' JNull) endpoint),
            (''model_matches'', py_eq (jget_or r ''model'' JNull) model),
            (''preflight_status_pass'', jget_or r ''preflight_status'' JNull = JStr PASS),
            (''stream_completed'', truthy (jget_or r ''stream_done_observed'' JNull)),
            (''tool_identity_matches'', py_eq (jget_or r ''tool_id'' JNull) tool_id)])))"

definition checks_dict :: "(string \<times> bool) list \<Rightarrow> json" where
  "checks_dict cs = JObj (map (\<lambda>(k, b). (k, JBool b)) cs)"

definition verify_provider_preflight :: "artifact \<Rightarrow> json \<Rightarrow> json res" where
  "verify_provider_preflight a manifest =
     bindE (jindex manifest ''provider_preflight'') (\<lambda>spec.
       (case a of
          No_artifact \<Rightarrow> Inr (JObj [(''artifact'', JStr ''PROVIDER_PREFLIGHT_GATE''),
            (''reason'', JStr ''no preflight artifact supplied''), (''status'', JStr FAIL)])
        | Missing path \<Rightarrow> Inr (JObj [(''artifact'', JStr ''PROVIDER_PREFLIGHT_GATE''),
            (''reason'', JStr (''preflight artifact not found: '' @ path)), (''status'', JStr FAIL)])
        | Artifact path content \<Rightarrow>
            bindE (load_object path content) (\<lambda>r. bindE (jindex manifest ''provider'') (\<lambda>provider.
            bindE (preflight_checks r provider spec) (\<lambda>checks.
              Inr (JObj [(''artifact'', JStr ''PROVIDER_PREFLIGHT_GATE''), (''artifact_digest'', JStr (sha256_hex content)),
                (''artifact_path'', JStr path), (''checks'', checks_dict checks),
                (''classification'', jget_or r ''classification'' JNull),
                (''status'', JStr (if list_all snd checks then PASS else FAIL))]))))))"

subsection \<open>Execution\<close>

definition truthy_opt :: "json option \<Rightarrow> bool" where
  "truthy_opt v = (case v of None \<Rightarrow> False | Some x \<Rightarrow> truthy x)"

definition run_execution_established :: "json option \<Rightarrow> bool res" where
  "run_execution_established runtime =
     (case runtime of
        None \<Rightarrow> Inr False
      | Some r \<Rightarrow>
          if \<not> truthy r then Inr False
          else if jget_or r ''instrument_status'' JNull \<noteq> JStr ''EXECUTED'' then Inr False
          else bindE (py_int (jget_or r ''target_http_attempts'' (JInt 0))) (\<lambda>n. Inr (0 < n)))"

definition recorded_facts :: "string \<Rightarrow> json \<Rightarrow> json res" where
  "recorded_facts name r =
     bindE (py_int (jget_or r ''provider_calls'' (JInt 0))) (\<lambda>calls.
     bindE (py_int (jget_or r ''provider_transport_failures'' (JInt 0))) (\<lambda>failures.
     bindE (py_int (jget_or r ''target_http_attempts'' (JInt 0))) (\<lambda>attempts.
       Inr (JObj [(''provider_call_performed'', JBool (truthy (jget_or r ''provider_call_performed'' (JBool False)))),
         (''provider_calls'', JInt calls), (''provider_transport_failures'', JInt failures), (''source'', JStr name),
         (''stop_reason'', jget_or r ''stop_reason'' JNull), (''target_http_attempts'', JInt attempts),
         (''terminal_provider_failure'', JBool (truthy (jget_or r ''terminal_provider_failure'' (JBool False))))]))))"

text \<open>The two files of an evidence directory, if there, as the documents in them.\<close>

definition execution_facts :: "string \<Rightarrow> json option \<Rightarrow> json option \<Rightarrow> json res" where
  "execution_facts dir runtime facts =
     (case (runtime, facts) of
        (Some r, _) \<Rightarrow> recorded_facts ''runtime.json'' r
      | (None, Some r) \<Rightarrow> recorded_facts ''execution-facts.json'' r
      | (None, None) \<Rightarrow> Inl (SequenceGateError (''no preserved execution facts in '' @ dir
          @ ''; final adjudication cannot be replayed'')))"

subsection \<open>The joint adjudication\<close>

definition integrity_status :: "json \<Rightarrow> json res" where
  "integrity_status replay = bindE (jindex replay ''evidence_integrity'') (\<lambda>e. jindex e ''status'')"

definition run_integrity :: "json option \<Rightarrow> json res" where
  "run_integrity replay =
     (case replay of None \<Rightarrow> Inr (JStr NOT_RUN) | Some r \<Rightarrow> if truthy r then integrity_status r else Inr (JStr NOT_RUN))"

definition replay_matched :: "json option \<Rightarrow> bool res" where
  "replay_matched replay =
     (case replay of None \<Rightarrow> Inr False
      | Some r \<Rightarrow> if truthy r then bindE (jindex r ''replay_matches_original'') (\<lambda>m. Inr (truthy m)) else Inr False)"

definition closure_conditions :: "gate_state \<Rightarrow> json \<Rightarrow> json option \<Rightarrow> json option \<Rightarrow> (string \<times> bool) list res" where
  "closure_conditions gates pc_replay run_replay run_runtime =
     bindE (run_execution_established run_runtime) (\<lambda>run_executed.
     bindE (integrity_status pc_replay) (\<lambda>pc_integrity. bindE (run_integrity run_replay) (\<lambda>run_integrity.
     bindE (jindex pc_replay ''replay_matches_original'') (\<lambda>pc_matches.
     bindE (jindex pc_replay ''recomputed_subject_disposition'') (\<lambda>pc_disposition.
     bindE (replay_matched run_replay) (\<lambda>run_matches.
       Inr [(''adversary_context_isolation'', gs_adversary_context_isolation gates = PASS),
            (''evidence_integrity'', pc_integrity = JStr PASS \<and> run_integrity = JStr PASS),
            (''pc_replay_matches_final'', truthy pc_matches),
            (''pc_replay_reproduces_expected'', pc_disposition = JStr EXPECTED_DISPOSITION),
            (''pc_sensitivity'', gs_pc_sensitivity gates = ESTABLISHED),
            (''provider_preflight'', gs_provider_preflight gates = PASS),
            (''run_executed_to_admissible_boundary_result'', run_executed),
            (''run_replay_matches_final'', run_matches),
            (''state_separation'', gs_state_separation gates = ESTABLISHED)]))))))"

definition run_text :: "json option \<Rightarrow> string \<Rightarrow> string \<Rightarrow> string" where
  "run_text runtime k missing =
     (case runtime of Some r \<Rightarrow> if truthy r then py_str (jget_or r k JNull) else missing | None \<Rightarrow> missing)"

definition NOTE :: string where
  "NOTE = ''FULL_FROZEN_SEQUENCE_CLOSURE describes the completeness of the ordered experiment, never the subject outcome. A genuine counterexample is a complete sequence. Provider contact is not execution: RUN_EXECUTION is derived from the fail-closed instrument state and a non-zero target attempt count, never from the fact that a request was sent.''"

definition adjudicate_sequence :: "gate_state \<Rightarrow> auth_ledger \<Rightarrow> json \<Rightarrow> json option \<Rightarrow> json option \<Rightarrow> json res" where
  "adjudicate_sequence gates ledger pc_replay run_replay run_runtime =
     bindE (run_execution_established run_runtime) (\<lambda>run_executed.
     bindE (closure_conditions gates pc_replay run_replay run_runtime) (\<lambda>conditions.
     bindE (integrity_status pc_replay) (\<lambda>pc_integrity. bindE (run_integrity run_replay) (\<lambda>run_integrity.
       Inr (JObj [
         (''adversary_context_isolation'', JStr (gs_adversary_context_isolation gates)),
         (''artifact'', JStr ''SEQUENCE_ADJUDICATION''), (''authorization'', ledger_dict ledger),
         (''claim_bearing_use'', JStr ''PROHIBITED''), (''closure_conditions'', checks_dict conditions),
         (''evidence_integrity'', JObj [(''positive_control_evidence_integrity'', pc_integrity), (''run_evidence_integrity'', run_integrity)]),
         (''full_frozen_sequence_closure'', JStr (if list_all snd conditions then ESTABLISHED else NOT_ESTABLISHED)),
         (''note'', JStr NOTE), (''pc_sensitivity'', JStr (gs_pc_sensitivity gates)), (''positive_control_replay'', pc_replay),
         (''provider_contacted'', JBool (truthy_opt (map_option (\<lambda>r. jget_or r ''provider_call_performed'' JNull) run_runtime))),
         (''provider_preflight'', JStr (gs_provider_preflight gates)),
         (''run_execution'', JStr (if run_executed then ''EXECUTED_TO_ADMISSIBLE_BOUNDARY_RESULT''
                                   else ''NOT_EXECUTED_TO_ADMISSIBLE_BOUNDARY_RESULT'')),
         (''run_instrument_status'', JStr (run_text run_runtime ''instrument_status'' ''NOT_EXECUTED'')),
         (''run_replay'', or_null run_replay),
         (''run_subject_result'', JStr (run_text run_runtime ''subject_result'' NOT_ESTABLISHED)),
         (''sequence_id'', JStr SEQUENCE_ID), (''state_separation'', JStr (gs_state_separation gates))])))))"

definition closure :: "json \<Rightarrow> string" where
  "closure adjudication = py_str (jget_or adjudication ''full_frozen_sequence_closure'' JNull)"

lemma established_differs [simp]: "NOT_ESTABLISHED \<noteq> ESTABLISHED" "ESTABLISHED \<noteq> NOT_ESTABLISHED"
  by (simp_all add: ESTABLISHED_def NOT_ESTABLISHED_def)

lemma closure_iff:
  assumes "adjudicate_sequence gates ledger pc_replay run_replay run_runtime = Inr a"
  shows "closure a = ESTABLISHED \<longleftrightarrow>
    (\<exists>cs. closure_conditions gates pc_replay run_replay run_runtime = Inr cs \<and> list_all snd cs)"
  using assms by (auto simp: adjudicate_sequence_def bindE_Inr_iff closure_def jget_or_def split: if_splits)

lemma executed_iff:
  "run_execution_established run_runtime = Inr True \<longleftrightarrow>
    (\<exists>r n. run_runtime = Some r \<and> jget r ''instrument_status'' = Some (JStr ''EXECUTED'')
        \<and> py_int (jget_or r ''target_http_attempts'' (JInt 0)) = Inr n \<and> 0 < n)"
proof (cases run_runtime)
  case None then show ?thesis by (simp add: run_execution_established_def)
next
  case (Some r)
  have "jget_or r ''instrument_status'' JNull = JStr ''EXECUTED'' \<longleftrightarrow> jget r ''instrument_status'' = Some (JStr ''EXECUTED'')"
    by (simp add: jget_or_def split: option.split)
  moreover have "truthy r" if "jget r k = Some v" for k v
    using that by (cases r) (auto simp: truthy.simps)
  ultimately show ?thesis using Some by (auto simp: run_execution_established_def bindE_Inr_iff)
qed

lemma conditions_hold:
  "(\<exists>cs. closure_conditions gates pc_replay run_replay run_runtime = Inr cs \<and> list_all snd cs) \<longleftrightarrow>
    run_execution_established run_runtime = Inr True
    \<and> gs_adversary_context_isolation gates = PASS \<and> gs_pc_sensitivity gates = ESTABLISHED
    \<and> gs_provider_preflight gates = PASS \<and> gs_state_separation gates = ESTABLISHED
    \<and> integrity_status pc_replay = Inr (JStr PASS) \<and> run_integrity run_replay = Inr (JStr PASS)
    \<and> replay_matched run_replay = Inr True \<and> (\<exists>m. jget pc_replay ''replay_matches_original'' = Some m \<and> truthy m)
    \<and> jget pc_replay ''recomputed_subject_disposition'' = Some (JStr EXPECTED_DISPOSITION)" (is "?l \<longleftrightarrow> ?r")
proof
  assume ?l then show ?r by (auto simp: closure_conditions_def bindE_Inr_iff jindex_Inr_iff)
next
  assume r: ?r
  then obtain m where "jindex pc_replay ''replay_matches_original'' = Inr m" "truthy m"
    "jindex pc_replay ''recomputed_subject_disposition'' = Inr (JStr EXPECTED_DISPOSITION)"
    by (auto simp: jindex_Inr_iff)
  with r show ?l by (simp add: closure_conditions_def)
qed

text \<open>C26: Closure means execution: the joint adjudication establishes closure exactly when the run's instrument
  status is that of an executed run with at least one attempt on the target, every gate it names
  stands open, both bodies of evidence verify, both replays reproduced their final verdicts, and
  the replayed positive control is the expected crossing. Provider contact does not enter.\<close>

theorem closure_means_execution:
  assumes "adjudicate_sequence gates ledger pc_replay run_replay run_runtime = Inr a"
  shows "closure a = ESTABLISHED \<longleftrightarrow>
    (\<exists>r n. run_runtime = Some r \<and> jget r ''instrument_status'' = Some (JStr ''EXECUTED'')
        \<and> py_int (jget_or r ''target_http_attempts'' (JInt 0)) = Inr n \<and> 0 < n)
    \<and> gs_adversary_context_isolation gates = PASS \<and> gs_pc_sensitivity gates = ESTABLISHED
    \<and> gs_provider_preflight gates = PASS \<and> gs_state_separation gates = ESTABLISHED
    \<and> integrity_status pc_replay = Inr (JStr PASS) \<and> run_integrity run_replay = Inr (JStr PASS)
    \<and> replay_matched run_replay = Inr True \<and> (\<exists>m. jget pc_replay ''replay_matches_original'' = Some m \<and> truthy m)
    \<and> jget pc_replay ''recomputed_subject_disposition'' = Some (JStr EXPECTED_DISPOSITION)"
  unfolding closure_iff [OF assms] executed_iff [symmetric] by (rule conditions_hold)

lemma closure_means_execution_witness:
  "\<exists>a. adjudicate_sequence (new_gates\<lparr>gs_pc_sensitivity := ESTABLISHED, gs_state_separation := ESTABLISHED,
        gs_adversary_context_isolation := PASS, gs_provider_preflight := PASS\<rparr>) (new_ledger ''owner-1'')
      (JObj [(''evidence_integrity'', JObj [(''status'', JStr PASS)]), (''replay_matches_original'', JBool True),
         (''recomputed_subject_disposition'', JStr EXPECTED_DISPOSITION)])
      (Some (JObj [(''evidence_integrity'', JObj [(''status'', JStr PASS)]), (''replay_matches_original'', JBool True)]))
      (Some (JObj [(''instrument_status'', JStr ''EXECUTED''), (''target_http_attempts'', JInt 3)])) = Inr a
    \<and> closure a = ESTABLISHED"
proof -
  let ?g = "new_gates\<lparr>gs_pc_sensitivity := ESTABLISHED, gs_state_separation := ESTABLISHED,
        gs_adversary_context_isolation := PASS, gs_provider_preflight := PASS\<rparr>"
  let ?p = "JObj [(''evidence_integrity'', JObj [(''status'', JStr PASS)]), (''replay_matches_original'', JBool True),
         (''recomputed_subject_disposition'', JStr EXPECTED_DISPOSITION)]"
  let ?r = "Some (JObj [(''evidence_integrity'', JObj [(''status'', JStr PASS)]), (''replay_matches_original'', JBool True)])"
  let ?x = "Some (JObj [(''instrument_status'', JStr ''EXECUTED''), (''target_http_attempts'', JInt 3)])"
  have e: "run_execution_established ?x = Inr True" by (simp add: executed_iff jget_or_def)
  have i: "integrity_status ?p = Inr (JStr PASS)" "run_integrity ?r = Inr (JStr PASS)" "replay_matched ?r = Inr True"
    by (simp_all add: integrity_status_def run_integrity_def replay_matched_def dict_index_def)
  obtain a where a: "adjudicate_sequence ?g (new_ledger ''owner-1'') ?p ?r ?x = Inr a"
    by (simp add: adjudicate_sequence_def closure_conditions_def e i dict_index_def)
  have "closure a = ESTABLISHED"
    unfolding closure_means_execution [OF a] using i by (simp add: jget_or_def)
  with a show ?thesis by blast
qed

subsection \<open>What the leak audit catches\<close>

text \<open>The characters that stand for themselves in JSON text, and the texts in a document.\<close>

definition verbatim :: "char \<Rightarrow> bool" where
  "verbatim c \<longleftrightarrow> 32 \<le> byte c \<and> byte c \<noteq> 34 \<and> byte c \<noteq> 92"

fun texts :: "json \<Rightarrow> string list" where
  "texts (JStr s) = [s]"
| "texts (JList xs) = concat (map texts xs)"
| "texts (JTuple xs) = concat (map texts xs)"
| "texts (JObj kvs) = concat (map (\<lambda>(k, v). k # texts v) kvs)"
| "texts _ = []"

lemma esc_verbatim: "list_all verbatim s \<Longrightarrow> concat (map esc_char s) = s"
  by (induction s) (auto simp: verbatim_def esc_char_def Let_def)

lemma verbatim_lower: "verbatim (lower_char c) = verbatim c"
  by (simp add: verbatim_def lower_char_def Let_def)

lemma lower_verbatim: "lower m = lower t \<Longrightarrow> list_all verbatim t \<Longrightarrow> list_all verbatim m"
proof -
  assume l: "lower m = lower t" and t: "list_all verbatim t"
  have "list_all verbatim (lower t)" using t by (simp add: lower_def list.pred_map comp_def verbatim_lower)
  then show ?thesis unfolding l [symmetric] by (simp add: lower_def list.pred_map comp_def verbatim_lower)
qed

lemma sublist_in_text: "sublist x y \<Longrightarrow> sublist y z \<Longrightarrow> sublist x (a @ z @ b)"
  by (meson sublist_appendI sublist_order.order_trans)

lemma texts_written: "s \<in> set (texts v) \<Longrightarrow> sublist (enc_str s) (spaced_dumps v)"
proof (induction v)
  case (JList xs)
  then obtain x where "x \<in> set xs" "s \<in> set (texts x)" by auto
  then have "sublist (enc_str s) (''['' @ join '', '' (map spaced_dumps xs) @ '']'')"
    using JList.IH by (intro sublist_in_text [of _ "spaced_dumps x"] sublist_join) auto
  then show ?case by simp
next
  case (JTuple xs)
  then obtain x where "x \<in> set xs" "s \<in> set (texts x)" by auto
  then have "sublist (enc_str s) (''['' @ join '', '' (map spaced_dumps xs) @ '']'')"
    using JTuple.IH by (intro sublist_in_text [of _ "spaced_dumps x"] sublist_join) auto
  then show ?case by simp
next
  case (JObj kvs)
  then obtain k v where kv: "(k, v) \<in> set kvs" "s = k \<or> s \<in> set (texts v)" by auto
  have "sublist (enc_str s) (enc_str k @ '': '' @ spaced_dumps v)"
  proof (cases "s = k")
    case False
    then have "sublist (enc_str s) (spaced_dumps v)" using kv JObj.IH [OF kv(1), of v] by simp
    then have "sublist (enc_str s) ((enc_str k @ '': '') @ spaced_dumps v @ [])"
      by (intro sublist_in_text [of _ "spaced_dumps v"]) simp_all
    then show ?thesis by simp
  qed (simp add: sublist_append_rightI)
  moreover let ?items = "map (\<lambda>(k, e). enc_str k @ '': '' @ e) (sort_key fst (map (\<lambda>(k, v). (k, spaced_dumps v)) kvs))"
  have "(k, spaced_dumps v) \<in> set (sort_key fst (map (\<lambda>(k, v). (k, spaced_dumps v)) kvs))"
    using kv(1) by force
  then have "enc_str k @ '': '' @ spaced_dumps v \<in> set ?items" by force
  then have "sublist (enc_str k @ '': '' @ spaced_dumps v) (join '', '' ?items)" by (rule sublist_join)
  ultimately have "sublist (enc_str s) (''{'' @ join '', '' ?items @ ''}'')" by (rule sublist_in_text)
  then show ?case by simp
qed simp_all

lemma lower_text_written:
  assumes "s \<in> set (texts v)" "sublist (lower t) (lower s)" "list_all verbatim t"
  shows "contains_str (lower t) (lower (spaced_dumps v))"
proof -
  obtain a m b where s: "s = a @ m @ b" "lower m = lower t"
  proof -
    from assms(2) obtain a' b' where e: "lower s = a' @ lower t @ b'" by (auto simp: sublist_def)
    let ?a = "take (length a') s" and ?r = "drop (length a') s"
    have "lower (take (length (lower t)) ?r) = lower t"
      using arg_cong [OF e, of "\<lambda>x. take (length (lower t)) (drop (length a') x)"] by (simp add: lower_def take_map drop_map)
    moreover have "s = ?a @ take (length (lower t)) ?r @ drop (length (lower t)) ?r" by (metis append_take_drop_id)
    ultimately show ?thesis using \<open>\<And>b m a. s = a @ m @ b \<Longrightarrow> lower m = lower t \<Longrightarrow> thesis\<close> by blast
  qed
  have m: "concat (map esc_char m) = m" using lower_verbatim [OF s(2) assms(3)] by (rule esc_verbatim)
  have "sublist m (concat (map esc_char a) @ m @ concat (map esc_char b))" by (rule sublist_appendI)
  then have "sublist m (concat (map esc_char s))" using m by (simp add: s(1))
  then have "sublist m (enc_str s)" unfolding enc_str_def by (rule sublist_in_text [OF _ sublist_order.order_refl])
  then have "contains_str m (spaced_dumps v)"
    using texts_written [OF assms(1)] by (auto simp: contains_str_iff intro: sublist_order.order_trans)
  from contains_lower [OF this] show ?thesis by (simp add: s(2))
qed

text \<open>What is forbidden: the two names, the path, and its longer segments.\<close>

definition hidden_names :: "string \<Rightarrow> string \<Rightarrow> string set" where
  "hidden_names route endpoint =
     {strip_ws route, strip_ws endpoint, strip_ws (endpoint_path endpoint)}
       \<union> set (split_on (CHR ''/'') (strip_slash (strip_ws (endpoint_path endpoint))))"

lemma hidden_names_forbidden:
  "t \<in> hidden_names route endpoint \<Longrightarrow> 5 \<le> text_len t \<Longrightarrow> t \<in> set (forbidden_ground_truth_tokens route endpoint)"
proof -
  assume t: "t \<in> hidden_names route endpoint" and l: "5 \<le> text_len t"
  have ne: "t \<noteq> []" using l by (auto simp: text_len_def)
  have sp: "strip_ws (endpoint_path endpoint) = [] \<Longrightarrow> t \<in> set (split_on (CHR ''/'') (strip_slash [])) \<Longrightarrow> False"
    using ne by (simp add: strip_slash_def lstrip_slash_def)
  show ?thesis using t l ne sp by (auto simp: hidden_names_def forbidden_ground_truth_tokens_def Let_def)
qed

text \<open>Ground truth is caught: a document for the adversary in which some text or key names the hidden route,
  its endpoint, its path or a longer segment of the path, in any case, fails the leak audit; so
  the stage that asks for it is refused.\<close>

theorem ground_truth_is_caught:
  assumes "t \<in> hidden_names route endpoint" "5 \<le> text_len t" "list_all verbatim t"
    and "s \<in> set (texts view)" "sublist (lower t) (lower s)"
  shows "audit_status (ground_truth_leak_audit view (forbidden_ground_truth_tokens route endpoint) stage) = FAIL
    \<and> (\<exists>e. assert_no_ground_truth view (forbidden_ground_truth_tokens route endpoint) stage = Inl (SequenceGateError e))"
proof -
  let ?f = "forbidden_ground_truth_tokens route endpoint"
  have "t \<in> set (filter (\<lambda>token. contains_str (lower token) (lower (spaced_dumps view))) ?f)"
    using hidden_names_forbidden [OF assms(1,2)] lower_text_written [OF assms(4,5,3)] by simp
  then have "token_hits view ?f \<noteq> 0" unfolding token_hits_def by (metis length_greater_0_conv length_pos_if_in_set less_not_refl)
  then have "audit_status (ground_truth_leak_audit view ?f stage) \<noteq> PASS" by (simp add: audit_status_iff)
  then show ?thesis using audit_status_iff(2) [of view ?f stage] by (simp add: assert_no_ground_truth_def Let_def)
qed

lemma ground_truth_is_caught_witness:
  "audit_status (ground_truth_leak_audit (JObj [(''system_prompt'', JStr ''try /Internal/Batch-Commit'')])
     (forbidden_ground_truth_tokens ''route.hidden-batch'' ''POST /internal/batch-commit'') ''S0'') = FAIL"
proof -
  have e: "strip_ws (endpoint_path ''POST /internal/batch-commit'') = ''/internal/batch-commit''"
    by (simp add: endpoint_path_def strip_ws_def is_space_def)
  have "lower ''try /Internal/Batch-Commit'' = ''try '' @ lower ''/internal/batch-commit''"
    by (simp add: lower_def lower_char_def char_eq_of_char del: of_char_eq_iff)
  then have "sublist (lower ''/internal/batch-commit'') (lower ''try /Internal/Batch-Commit'')"
    by (simp only: sublist_append_leftI sublist_order.order_refl)
  then show ?thesis
    by (intro ground_truth_is_caught [of "''/internal/batch-commit''" _ _ "''try /Internal/Batch-Commit''", THEN conjunct1])
      (simp_all add: hidden_names_def e text_len_def verbatim_def)
qed

end
