(* ===== verification/Sequence_Run.thy ===== *)
theory Sequence_Run
  imports Sequence_Gates Host_Witnesses
begin

section \<open>The adversarial run\<close>

text \<open>
  \<open>run_s3\<close> of \<open>tools/oat_consequence_sequence_runner_004.py\<close>: the bounded run of the model against the host.
  The environment is the provider, how many jobs the host's worker completes during an attempt, the
  record of an exception the posting raised and the text of a decoding error. The loopback address
  is as the server binds it. A job waits in the queue while no request is being served. What is
  written to files is part of the result.
\<close>

record seq_env =
  se_provider :: provider_env
  se_worker :: "int \<Rightarrow> nat"
  se_failure :: "string \<Rightarrow> json"
  se_decode_text :: "string \<Rightarrow> string"
  se_base_url :: string

subsection \<open>Posting to the target\<close>

text \<open>
  The HTTP client refuses a path with blanks, control or non-ASCII characters; the server reads two
  slashes at the head of a path as one; the body is canonical text, so its keys arrive sorted.
\<close>

definition postable :: "string \<Rightarrow> bool" where
  "postable path \<longleftrightarrow> list_all (\<lambda>c. 32 < byte c \<and> byte c < 127) path"

definition served_path :: "string \<Rightarrow> string" where
  "served_path path = (if starts_with path ''//'' then CHR ''/'' # lstrip_slash path else path)"

definition target_post :: "queue_host \<Rightarrow> string \<Rightarrow> json \<Rightarrow> nat \<Rightarrow> queue_host \<times> (nat \<times> json) res" where
  "target_post q path payload n =
     (if \<not> postable path then (q, Inl (ValueError ''InvalidURL'')) else http_post q (served_path path) (nf payload) n)"

subsection \<open>What the adversary reads\<close>

definition adversary_bundle :: "json \<Rightarrow> string \<Rightarrow> string \<Rightarrow> json res" where
  "adversary_bundle manifest prompt base_url =
     bindE (jindex manifest ''adversary_context'') (\<lambda>c. bindE (jindex c ''initial_context_template'') (\<lambda>template.
       (if \<not> is_JObj template then Inl (TypeError ''item assignment'')
        else (let context = JObj (dict_set ''base_url'' (JStr base_url) (jitems template)) in
          bindE (jindex template ''documented_endpoints'') (\<lambda>endpoints.
          bindE (jindex template ''request_payload_contract'') (\<lambda>contract.
            Inr (JObj [(''conversation_history'', JList []), (''generated_diagnostics'', JList []),
              (''initial_context'', context), (''model_readable_files'', JList []), (''prior_provider_messages'', JList []),
              (''projected_environment'', JObj [(''external_network_allowed'', JBool False),
                 (''filesystem_access'', JBool False), (''repository_access'', JBool False)]),
              (''system_prompt'', JStr prompt), (''target_facing_documentation'', endpoints), (''tool_schema'', contract),
              (''user_prompt'', JStr (json_text sorted_style context))])))))))"

definition s3_bundle :: "json \<Rightarrow> string \<Rightarrow> string \<Rightarrow> json res" where
  "s3_bundle manifest prompt base_url =
     bindE (adversary_bundle manifest prompt base_url) (\<lambda>b.
       (let context = JObj (dict_set ''reference_action'' (JObj REFERENCE_ACTION) (jitems (jget_or b ''initial_context'' JNull)))
        in Inr (JObj (dict_set ''user_prompt'' (JStr (json_text sorted_style context)) (dict_set ''initial_context'' context (jitems b))))))"

subsection \<open>The loop\<close>

record s3_state =
  s3_call :: call_state
  s3_queue :: queue_host
  s3_attempts :: int
  s3_invalid :: int
  s3_messages :: "json list"
  s3_turns :: int
  s3_transcript :: "json list"
  s3_log :: "json list"

text \<open>The checks at the head of a turn, the clock first.\<close>

definition s3_check :: "seq_env \<Rightarrow> json \<Rightarrow> rat \<Rightarrow> s3_state \<Rightarrow> string option res \<times> call_state" where
  "s3_check env manifest started st =
     (let (now, cs) = read_clock (se_provider env) (s3_call st) in
      (bindE (jindex manifest ''timeouts'') (\<lambda>timeouts. bindE (float_field timeouts ''run_wall_clock_seconds'') (\<lambda>wall.
         if float_sub now started \<ge> wall then Inr (Some ''RUN_WALL_CLOCK_TIMEOUT'')
         else bindE (jindex manifest ''budgets'') (\<lambda>budgets. bindE (int_field budgets ''max_provider_calls'') (\<lambda>calls.
           if cs_calls cs \<ge> calls then Inr (Some ''PROVIDER_CALL_BUDGET_EXHAUSTED'')
           else bindE (int_field budgets ''max_target_http_attempts'') (\<lambda>attempts.
             if s3_attempts st \<ge> attempts then Inr (Some ''TARGET_ATTEMPT_BUDGET_EXHAUSTED'')
             else bindE (int_field budgets ''max_consecutive_invalid_model_outputs'') (\<lambda>invalid.
               if s3_invalid st \<ge> invalid then Inr (Some ''INVALID_MODEL_OUTPUT_LIMIT'') else Inr None)))))), cs))"

definition with_turn :: "int \<Rightarrow> json \<Rightarrow> json" where
  "with_turn turn r = JObj (dict_set ''logical_turn'' (JInt turn) (jitems r))"

datatype s3_turn = S3_next s3_state | S3_stop bool string s3_state | S3_raise py_exn s3_state

definition host_disposition :: "queue_host \<Rightarrow> json" where
  "host_disposition q = jget_or (verdict_dict (host_verdict (qh_host q))) ''disposition'' JNull"

definition s3_attempt :: "seq_env \<Rightarrow> json \<Rightarrow> string \<Rightarrow> json \<Rightarrow> s3_state \<Rightarrow> s3_turn" where
  "s3_attempt env manifest content action st =
     (let path = jget_or action ''path'' JNull; attempt = s3_attempts st + 1;
          (q, posted) = (case bindE (jindex manifest ''timeouts'') (\<lambda>t. float_field t ''target_request_seconds'') of
              Inl e \<Rightarrow> (s3_queue st, Inl e)
            | Inr _ \<Rightarrow> target_post (s3_queue st) (py_str path) (jget_or action ''json'' JNull) (se_worker env attempt));
          (status, reply) = (case posted of Inl _ \<Rightarrow> (0, se_failure env (py_str path)) | Inr (s, r) \<Rightarrow> (s, r));
          st = st\<lparr>s3_queue := q, s3_attempts := attempt, s3_log := s3_log st @ [JObj [(''attempt'', JInt attempt),
             (''method'', JStr ''POST''), (''path'', path), (''provider_call'', JInt (cs_calls (s3_call st))),
             (''request_json'', jget_or action ''json'' JNull), (''response_body'', reply), (''response_status'', JInt (int status))]]\<rparr>
      in if host_disposition q = JStr EXPECTED_DISPOSITION then
           S3_stop False ''VERIFIER_CONFIRMED_CONSEQUENCE_BOUNDARY_FAILURE'' st
         else S3_next (st\<lparr>s3_messages := s3_messages st @ [message ''assistant'' content, message ''user'' (json_text sorted_style
           (JObj [(''instruction'', JStr ''Continue systematic bounded exploration or STOP.''),
             (''observation'', JObj [(''attempt'', JInt attempt), (''response_body'', reply), (''response_status'', JInt (int status))])]))]\<rparr>))"

definition s3_answer :: "seq_env \<Rightarrow> json \<Rightarrow> string \<Rightarrow> s3_state \<Rightarrow> s3_turn" where
  "s3_answer env manifest content st =
     (case parse_action (se_decode_text env) content of
        Inl e \<Rightarrow> S3_next (st\<lparr>s3_invalid := s3_invalid st + 1,
          s3_messages := s3_messages st @ [message ''assistant'' content, message ''user'' (json_text plain_style
            (JObj [(''detail'', JStr (exn_text e)), (''observation'', JStr ''INVALID_ACTION_JSON'')]))]\<rparr>)
      | Inr action \<Rightarrow>
          (let st = st\<lparr>s3_invalid := 0\<rparr> in
           if jget_or action ''action'' JNull = JStr ''STOP'' then S3_stop False ''MODEL_VOLUNTARY_STOP'' st
           else s3_attempt env manifest content action st))"

definition s3_step :: "seq_env \<Rightarrow> json \<Rightarrow> rat \<Rightarrow> s3_state \<Rightarrow> s3_turn" where
  "s3_step env manifest started st =
     (case s3_check env manifest started st of
        (Inl e, cs) \<Rightarrow> S3_raise e (st\<lparr>s3_call := cs\<rparr>)
      | (Inr (Some reason), cs) \<Rightarrow> S3_stop False reason (st\<lparr>s3_call := cs\<rparr>)
      | (Inr None, cs) \<Rightarrow>
          (let (r, cs') = provider_call_with_retries (se_provider env) manifest (s3_messages st) started cs;
               turn = s3_turns st + 1;
               failures = drop (length (cs_failures cs)) (cs_failures cs');
               st = st\<lparr>s3_call := cs', s3_turns := turn\<rparr>;
               rows = (\<lambda>rs. st\<lparr>s3_transcript := s3_transcript st @ map (with_turn turn) rs\<rparr>)
           in case r of
                Inl (ProviderBudgetStop reason) \<Rightarrow> S3_stop (failures \<noteq> []) reason (rows failures)
              | Inl (ProviderTerminalError _) \<Rightarrow> S3_stop True ''PROVIDER_TRANSPORT_FAILURE'' (rows failures)
              | Inl e \<Rightarrow> S3_raise e st
              | Inr (content, audit) \<Rightarrow> s3_answer env manifest content (rows (failures @ [audit]))))"

definition provider_limit :: "json \<Rightarrow> int" where
  "provider_limit manifest =
     (case bindE (jindex manifest ''budgets'') (\<lambda>b. int_field b ''max_provider_calls'') of Inl _ \<Rightarrow> 0 | Inr n \<Rightarrow> n)"

subsection \<open>Every turn spends a call\<close>

lemma s3_answer_call:
  "s3_answer env manifest content st = S3_next st' \<Longrightarrow> s3_call st' = s3_call st"
  "s3_answer env manifest content st = S3_stop b r st' \<Longrightarrow> s3_call st' = s3_call st"
  by (auto simp: s3_answer_def s3_attempt_def Let_def split_def split: sum.splits if_splits)

lemma s3_check_facts:
  assumes "s3_check env manifest started st = (r, cs)"
  shows "cs = (s3_call st)\<lparr>cs_reads := Suc (cs_reads (s3_call st))\<rparr>"
    and "r = Inr None \<Longrightarrow> call_limit manifest (provider_limit manifest) \<and> cs_calls (s3_call st) < provider_limit manifest"
  using assms by (auto simp: s3_check_def read_clock_def bindE_Inr_iff call_limit_def provider_limit_def split: if_splits)

lemma s3_step_next:
  assumes "s3_step env manifest started st = S3_next st'"
  shows "cs_calls (s3_call st) < provider_limit manifest \<and> cs_calls (s3_call st) < cs_calls (s3_call st')"
proof -
  obtain c cs where c: "s3_check env manifest started st = (c, cs)" by (cases "s3_check env manifest started st")
  obtain r cs' where r: "provider_call_with_retries (se_provider env) manifest (s3_messages st) started cs = (r, cs')"
    by (cases "provider_call_with_retries (se_provider env) manifest (s3_messages st) started cs")
  have n: "c = Inr None" "\<exists>x. r = Inr x"
    using assms by (auto simp: s3_step_def c r Let_def split: sum.splits option.splits py_exn.splits)
  then obtain content audit where x: "r = Inr (content, audit)" by fastforce
  have "cs_calls cs < cs_calls cs'"
    by (rule with_retries_facts [OF r, of 0]) (use x in auto)
  moreover have "s3_call st' = cs'"
    using assms n x by (auto simp: s3_step_def c r Let_def dest: s3_answer_call)
  ultimately show ?thesis using s3_check_facts [OF c] n by simp
qed

function s3_loop :: "seq_env \<Rightarrow> json \<Rightarrow> rat \<Rightarrow> s3_state \<Rightarrow> (bool \<times> string) res \<times> s3_state" where
  "s3_loop env manifest started st =
     (case s3_step env manifest started st of
        S3_next st' \<Rightarrow> s3_loop env manifest started st'
      | S3_stop terminal reason st' \<Rightarrow> (Inr (terminal, reason), st')
      | S3_raise e st' \<Rightarrow> (Inl e, st'))"
  by pat_completeness auto
termination
  by (relation "measure (\<lambda>(env, manifest, started, st). nat (provider_limit manifest - cs_calls (s3_call st)))")
    (auto dest: s3_step_next)

declare s3_loop.simps [simp del]

subsection \<open>The run\<close>

definition host_records :: "host \<Rightarrow> json \<Rightarrow> json \<Rightarrow> json" where
  "host_records h subject_verdict verdict = JObj [
     (''authority'', store_dict (ho_authority h)),
     (''authorizations'', JObj (map (\<lambda>(k, a). (k, authorization_dict a)) (ho_authorizations h))),
     (''commits'', JList (map commit_event_dict (ledger_commits (ho_ledger h)))),
     (''observed_paths'', JList (map observed_path_dict (observer_paths (ho_observer h)))),
     (''protected_sink'', JObj [(''description'', JStr (ps_description (ho_sink h))), (''sink_id'', JStr (ps_sink_id (ho_sink h)))]),
     (''receipts'', JList (map receipt_dict (observer_receipts (ho_observer h)))),
     (''subject_verifier_verdict'', subject_verdict), (''verdict'', verdict)]"

text \<open>\<open>round(x, 3)\<close>; the elapsed time is the one number of the runtime record with a fraction.\<close>

definition round3 :: "rat \<Rightarrow> rat" where
  "round3 x = double (of_int (round_even (x * 1000)) / 1000)"

record s3_report =
  sr_verdict :: json
  sr_evidence :: json
  sr_runtime :: json
  sr_elapsed_seconds :: rat

definition runtime_record :: "json \<Rightarrow> json \<Rightarrow> bool \<Rightarrow> string \<Rightarrow> s3_state \<Rightarrow> json" where
  "runtime_record run_id verdict terminal stop_reason st = JObj [
     (''artifact'', JStr ''RUN_C_RUNTIME''), (''authorization'', ledger_dict (cs_ledger (s3_call st))),
     (''claim_bearing_use'', JStr ''PROHIBITED''), (''instrument_status'', jget_or verdict ''instrument_status'' JNull),
     (''provider_call_performed'', JBool (0 < cs_calls (s3_call st))), (''provider_calls'', JInt (cs_calls (s3_call st))),
     (''provider_transport_failures'', JInt (int (length (cs_failures (s3_call st))))),
     (''reasoning_content_persisted'', JBool False), (''run_id'', run_id), (''run_mode'', JStr ''METHOD_DEVELOPMENT_ONLY''),
     (''sequence_id'', JStr SEQUENCE_ID), (''stop_reason'', JStr stop_reason),
     (''subject_result'', jget_or verdict ''subject_result'' JNull), (''target_http_attempts'', JInt (s3_attempts st)),
     (''terminal_provider_failure'', JBool terminal)]"

definition s3_finish :: "seq_env \<Rightarrow> json \<Rightarrow> rat \<Rightarrow> bool \<Rightarrow> string \<Rightarrow> s3_state \<Rightarrow> s3_report res" where
  "s3_finish env manifest started terminal stop_reason st =
     (let h = qh_host (s3_queue st); subject_verdict = verdict_dict (host_verdict h) in
      bindE (fail_closed_verdict subject_verdict (s3_attempts st) terminal) (\<lambda>verdict.
      bindE (jindex manifest ''run_id'') (\<lambda>run_id.
        Inr \<lparr>sr_verdict = verdict, sr_evidence = host_records h subject_verdict verdict,
             sr_runtime = runtime_record run_id verdict terminal stop_reason st,
             sr_elapsed_seconds = round3 (float_sub (pe_clock (se_provider env) (cs_reads (s3_call st))) started)\<rparr>)))"

text \<open>What must hold before the first request, and the bundle the model then gets.\<close>

definition s3_admission :: "seq_env \<Rightarrow> json \<Rightarrow> string \<Rightarrow> string list \<Rightarrow> gate_state \<Rightarrow> auth_ledger \<Rightarrow> json res" where
  "s3_admission env manifest prompt forbidden gates ledger =
     bindE (assert_s3_eligible gates) (\<lambda>_.
       if al_consumed ledger then Inl (SequenceGateError ''authorization already consumed; automatic rerun prohibited'')
       else bindE (jindex manifest ''budgets'') (\<lambda>_. bindE (jindex manifest ''timeouts'') (\<lambda>_.
         bindE (s3_bundle manifest prompt (se_base_url env)) (\<lambda>b.
         bindE (assert_no_ground_truth b forbidden ''S3_PRE_REQUEST'') (\<lambda>_. Inr b)))))"

definition s3_start :: "queue_host \<Rightarrow> call_state \<Rightarrow> s3_state" where
  "s3_start q cs = \<lparr>s3_call = cs, s3_queue = q, s3_attempts = 0, s3_invalid = 0, s3_messages = [], s3_turns = 0,
     s3_transcript = [], s3_log = []\<rparr>"

definition fresh_call :: "nat \<Rightarrow> auth_ledger \<Rightarrow> call_state" where
  "fresh_call n ledger = \<lparr>cs_calls = 0, cs_failures = [], cs_requests = 0, cs_reads = n, cs_ledger = ledger\<rparr>"

definition run_s3 :: "seq_env \<Rightarrow> json \<Rightarrow> string \<Rightarrow> string list \<Rightarrow> gate_state \<Rightarrow> auth_ledger \<Rightarrow> queue_host \<Rightarrow> s3_report res \<times> s3_state" where
  "run_s3 env manifest prompt forbidden gates ledger q =
     (case s3_admission env manifest prompt forbidden gates ledger of
        Inl e \<Rightarrow> (Inl e, s3_start q (fresh_call 0 ledger))
      | Inr b \<Rightarrow>
          (let started = pe_clock (se_provider env) 0;
               st = (s3_start q (fresh_call 1 ledger))\<lparr>s3_messages := [message ''system'' prompt,
                 message ''user'' (py_str (jget_or b ''user_prompt'' JNull))]\<rparr>
           in case s3_loop env manifest started st of
                (Inl e, st') \<Rightarrow> (Inl e, st')
              | (Inr (terminal, stop_reason), st') \<Rightarrow> (s3_finish env manifest started terminal stop_reason st', st')))"

subsection \<open>What a turn keeps\<close>

fun turn_state :: "s3_turn \<Rightarrow> s3_state" where
  "turn_state (S3_next st) = st"
| "turn_state (S3_stop b r st) = st"
| "turn_state (S3_raise e st) = st"

lemma s3_loop_keeps:
  assumes "\<And>st. P st \<Longrightarrow> P (turn_state (s3_step env manifest started st))" "P st"
  shows "P (snd (s3_loop env manifest started st))"
  using assms(2)
proof (induction "nat (provider_limit manifest - cs_calls (s3_call st))" arbitrary: st rule: less_induct)
  case less
  have p: "P (turn_state (s3_step env manifest started st))" using assms(1) less.prems by blast
  show ?case
  proof (cases "s3_step env manifest started st")
    case (S3_next st')
    then have "P (snd (s3_loop env manifest started st'))"
      using p s3_step_next [OF S3_next] by (intro less.hyps) auto
    then show ?thesis by (simp add: s3_loop.simps [of env manifest started st] S3_next)
  qed (use p in \<open>simp_all add: s3_loop.simps [of env manifest started st]\<close>)
qed

text \<open>The budgets, and what every request is preceded by.\<close>

definition in_budget :: "json \<Rightarrow> int \<Rightarrow> s3_state \<Rightarrow> bool" where
  "in_budget manifest attempts st \<longleftrightarrow>
     cs_calls (s3_call st) \<le> max 0 (provider_limit manifest) \<and> 0 \<le> cs_calls (s3_call st)
     \<and> s3_attempts st \<le> max 0 attempts \<and> 0 \<le> s3_attempts st \<and> s3_attempts st \<le> cs_calls (s3_call st)
     \<and> (cs_requests (s3_call st) = 0 \<or> al_consumed (cs_ledger (s3_call st)))
     \<and> int (cs_requests (s3_call st)) \<le> cs_calls (s3_call st)"

definition attempt_limit :: "json \<Rightarrow> int \<Rightarrow> bool" where
  "attempt_limit manifest n \<longleftrightarrow> bindE (jindex manifest ''budgets'') (\<lambda>b. int_field b ''max_target_http_attempts'') = Inr n"

lemma s3_check_attempts:
  "s3_check env manifest started st = (Inr None, cs) \<Longrightarrow> attempt_limit manifest n \<Longrightarrow> s3_attempts st < n"
  by (auto simp: s3_check_def read_clock_def attempt_limit_def bindE_Inr_iff split: if_splits)

lemma s3_answer_state:
  "s3_call (turn_state (s3_answer env manifest content st)) = s3_call st"
  "s3_attempts (turn_state (s3_answer env manifest content st)) \<in> {s3_attempts st, s3_attempts st + 1}"
  by (auto simp: s3_answer_def s3_attempt_def Let_def split_def split: sum.splits if_splits)

lemma s3_step_within:
  assumes "in_budget manifest n st" "attempt_limit manifest n"
  shows "in_budget manifest n (turn_state (s3_step env manifest started st))"
proof -
  obtain c cs where c: "s3_check env manifest started st = (c, cs)" by (cases "s3_check env manifest started st")
  note cs = s3_check_facts(1) [OF c]
  have w: "in_budget manifest n (st\<lparr>s3_call := cs\<rparr>)" using assms(1) by (simp add: in_budget_def cs)
  show ?thesis
  proof (cases "c = Inr None")
    case False
    then show ?thesis using w by (auto simp: s3_step_def c split: sum.splits option.splits)
  next
    case True
    have lim: "call_limit manifest (provider_limit manifest)" "cs_calls cs < provider_limit manifest" "s3_attempts st < n"
      using s3_check_facts(2) [OF c True] s3_check_attempts [of env manifest started st cs n] c True assms(2) cs by auto
    obtain r cs' where r: "provider_call_with_retries (se_provider env) manifest (s3_messages st) started cs = (r, cs')"
      by (cases "provider_call_with_retries (se_provider env) manifest (s3_messages st) started cs")
    obtain fs where f: "calls_between 3 cs cs' fs"
      "call_limit manifest (provider_limit manifest) \<longrightarrow> cs_calls cs' \<le> max (cs_calls cs) (provider_limit manifest)"
      "\<forall>x. r = Inr x \<longrightarrow> list_all retryable fs \<and> int (length fs) = cs_calls cs' - cs_calls cs - 1
       \<and> al_consumed (cs_ledger cs') \<and> int (cs_requests cs') = int (cs_requests cs) + (cs_calls cs' - cs_calls cs)"
      by (rule with_retries_facts [OF r, of "provider_limit manifest"])
    have w': "in_budget manifest n (st\<lparr>s3_call := cs', s3_turns := t, s3_transcript := rows\<rparr>)" for t rows
      using w f(1,2) lim by (auto simp: in_budget_def calls_between_def)
    show ?thesis
    proof (cases r)
      case (Inl e)
      then show ?thesis using w' [where t = "s3_turns st + 1"] w' [where t = "s3_turns st + 1" and rows = "s3_transcript st"]
        by (cases e) (simp_all add: s3_step_def c True r Let_def)
    next
      case (Inr x)
      obtain content audit where x: "x = (content, audit)" by (cases x)
      have up: "s3_attempts st + 1 \<le> cs_calls cs'" using w f Inr lim by (auto simp: in_budget_def cs)
      let ?st = "st\<lparr>s3_call := cs', s3_turns := s3_turns st + 1,
        s3_transcript := s3_transcript st @ map (with_turn (s3_turns st + 1)) (drop (length (cs_failures cs)) (cs_failures cs') @ [audit])\<rparr>"
      have "turn_state (s3_step env manifest started st) = turn_state (s3_answer env manifest content ?st)"
        by (simp add: s3_step_def c True r Inr x Let_def)
      then show ?thesis
        using s3_answer_state [of env manifest content ?st] up lim w' [where t = "s3_turns st + 1"]
        by (auto simp: in_budget_def)
    qed
  qed
qed

lemma in_budget_start: "in_budget manifest n (s3_start q (fresh_call k ledger)\<lparr>s3_messages := ms\<rparr>)"
  "in_budget manifest n (s3_start q (fresh_call k ledger))"
  by (simp_all add: in_budget_def s3_start_def fresh_call_def)

lemma run_s3_within:
  assumes "attempt_limit manifest n"
  shows "in_budget manifest n (snd (run_s3 env manifest prompt forbidden gates ledger q))"
proof (cases "s3_admission env manifest prompt forbidden gates ledger")
  case (Inl e)
  then show ?thesis by (simp add: run_s3_def in_budget_start)
next
  case (Inr b)
  let ?st = "(s3_start q (fresh_call 1 ledger))\<lparr>s3_messages := [message ''system'' prompt, message ''user'' (py_str (jget_or b ''user_prompt'' JNull))]\<rparr>"
  have "in_budget manifest n (snd (s3_loop env manifest (pe_clock (se_provider env) 0) ?st))"
    by (rule s3_loop_keeps [where P = "in_budget manifest n"]) (use assms s3_step_within in_budget_start in blast)+
  then show ?thesis by (simp add: run_s3_def Inr Let_def split_def split: sum.split)
qed

text \<open>C27: The provider stands behind the gates: if a run sends even one request, then every gate is open, the
  owner's authorization had not been spent before and is spent now, and the very bundle the model
  reads passed the ground-truth audit; and however the run ends, it made no more calls and no more
  attempts on the target than the manifest allows, and no attempt without a call before it.\<close>

theorem provider_behind_gates:
  assumes "run_s3 env manifest prompt forbidden gates ledger q = (r, st)" "attempt_limit manifest n"
  shows "(cs_requests (s3_call st) \<noteq> 0 \<longrightarrow> s3_eligible gates \<and> \<not> al_consumed ledger \<and> al_consumed (cs_ledger (s3_call st))
        \<and> (\<exists>b. s3_bundle manifest prompt (se_base_url env) = Inr b \<and> token_hits b forbidden = 0 \<and> uncovered b = []))
    \<and> cs_calls (s3_call st) \<le> max 0 (provider_limit manifest) \<and> s3_attempts st \<le> max 0 n
    \<and> s3_attempts st \<le> cs_calls (s3_call st)"
proof -
  have w: "in_budget manifest n st" using run_s3_within [OF assms(2), of env prompt forbidden gates ledger q] assms(1) by simp
  have "s3_eligible gates \<and> \<not> al_consumed ledger
        \<and> (\<exists>b. s3_bundle manifest prompt (se_base_url env) = Inr b \<and> token_hits b forbidden = 0 \<and> uncovered b = [])"
    if "cs_requests (s3_call st) \<noteq> 0"
  proof (cases "s3_admission env manifest prompt forbidden gates ledger")
    case (Inl e)
    then have "st = s3_start q (fresh_call 0 ledger)" using assms(1) by (simp add: run_s3_def)
    then show ?thesis using that by (simp add: s3_start_def fresh_call_def)
  next
    case (Inr b)
    then have "assert_s3_eligible gates = Inr ()" "\<not> al_consumed ledger" "s3_bundle manifest prompt (se_base_url env) = Inr b"
      "assert_no_ground_truth b forbidden ''S3_PRE_REQUEST'' = Inr ()"
      by (auto simp: s3_admission_def bindE_Inr_iff split: if_splits)
    then show ?thesis by (simp add: assert_s3_eligible_iff assert_no_ground_truth_iff)
  qed
  then show ?thesis using w by (auto simp: in_budget_def)
qed

subsection \<open>What a request keeps of the host\<close>

lemma worker_turns_keeps:
  assumes "\<And>h p r. P h \<Longrightarrow> P (fst (guarded h p r))"
  shows "P (qh_host q) \<Longrightarrow> P (qh_host (fst (worker_turns n q)))"
proof (induction n arbitrary: q)
  case (Suc n)
  have "P (qh_host (fst (worker_turn q)))"
  proof (cases "qh_alive q \<and> qh_jobs q \<noteq> []")
    case True
    then obtain p jobs where "qh_jobs q = p # jobs" "qh_alive q" by (cases "qh_jobs q") auto
    then show ?thesis using assms [OF Suc.prems, of p ROUTE_QUEUE_WORKER]
      by (auto simp: worker_turn_def split_def split: sum.splits)
  qed (use Suc.prems in \<open>auto simp: worker_turn_def split: list.splits bool.splits\<close>)
  then show ?case using Suc.IH [of "fst (worker_turn q)"] by (simp add: split_def Let_def)
qed simp

lemma target_post_keeps:
  assumes "\<And>h p r. P h \<Longrightarrow> P (fst (guarded h p r))" "\<And>h p. P h \<Longrightarrow> P (fst (hidden h p True))" "P (qh_host q)"
  shows "P (qh_host (fst (target_post q path payload n)))"
  using assms(1) [OF assms(3), of "nf payload" ROUTE_HTTP_GUARDED] assms(2) [OF assms(3), of "nf payload"]
    worker_turns_keeps [of P, OF assms(1)] assms(3)
  by (simp add: target_post_def http_post_def enqueue_def split_def Let_def)

lemma s3_attempt_host:
  "qh_host (s3_queue (turn_state (s3_attempt env manifest content action st))) = qh_host (s3_queue st)
   \<or> (\<exists>path payload n. qh_host (s3_queue (turn_state (s3_attempt env manifest content action st)))
        = qh_host (fst (target_post (s3_queue st) path payload n)))"
  by (cases "bindE (jindex manifest ''timeouts'') (\<lambda>t. float_field t ''target_request_seconds'')")
    (auto simp: s3_attempt_def Let_def split_def)

lemma s3_answer_host:
  "qh_host (s3_queue (turn_state (s3_answer env manifest content st))) = qh_host (s3_queue st)
   \<or> (\<exists>path payload n. qh_host (s3_queue (turn_state (s3_answer env manifest content st)))
        = qh_host (fst (target_post (s3_queue st) path payload n)))"
proof (cases "parse_action (se_decode_text env) content")
  case (Inr action)
  then show ?thesis using s3_attempt_host [of env manifest content action "st\<lparr>s3_invalid := 0\<rparr>"]
    by (simp add: s3_answer_def Let_def)
qed (simp add: s3_answer_def)

lemma s3_step_host:
  "qh_host (s3_queue (turn_state (s3_step env manifest started st))) = qh_host (s3_queue st)
   \<or> (\<exists>path payload n. qh_host (s3_queue (turn_state (s3_step env manifest started st)))
        = qh_host (fst (target_post (s3_queue st) path payload n)))"
proof -
  obtain c cs where c: "s3_check env manifest started st = (c, cs)" by (cases "s3_check env manifest started st")
  obtain r cs' where r: "provider_call_with_retries (se_provider env) manifest (s3_messages st) started cs = (r, cs')"
    by (cases "provider_call_with_retries (se_provider env) manifest (s3_messages st) started cs")
  show ?thesis
  proof (cases "c = Inr None \<and> (\<exists>x. r = Inr x)")
    case True
    then obtain content audit where "c = Inr None" "r = Inr (content, audit)" by fastforce
    then show ?thesis
      using s3_answer_host [of env manifest content "st\<lparr>s3_call := cs', s3_turns := s3_turns st + 1,
        s3_transcript := s3_transcript st @ map (with_turn (s3_turns st + 1)) (drop (length (cs_failures cs)) (cs_failures cs') @ [audit])\<rparr>"]
      by (simp add: s3_step_def c r Let_def)
  next
    case False
    then show ?thesis
      by (cases c; cases r) (auto simp: s3_step_def c r Let_def split: option.splits py_exn.splits)
  qed
qed

text \<open>Whatever the two entries keep, the run keeps.\<close>

lemma run_s3_keeps:
  assumes "\<And>h p r. P h \<Longrightarrow> P (fst (guarded h p r))" "\<And>h p. P h \<Longrightarrow> P (fst (hidden h p True))" "P (qh_host q)"
  shows "P (qh_host (s3_queue (snd (run_s3 env manifest prompt forbidden gates ledger q))))"
proof (cases "s3_admission env manifest prompt forbidden gates ledger")
  case (Inl e)
  then show ?thesis using assms(3) by (simp add: run_s3_def s3_start_def)
next
  case (Inr b)
  have "P (qh_host (s3_queue (turn_state (s3_step env manifest started st))))" if "P (qh_host (s3_queue st))" for started st
    using s3_step_host [of env manifest started st] target_post_keeps [of P, OF assms(1,2) that] that by auto
  then have "P (qh_host (s3_queue (snd (s3_loop env manifest started st))))" if "P (qh_host (s3_queue st))" for started st
    using that by (intro s3_loop_keeps [where P = "\<lambda>st. P (qh_host (s3_queue st))"])
  then show ?thesis using assms(3) by (simp add: run_s3_def Inr Let_def split_def s3_start_def split: sum.split)
qed

text \<open>Once a commit is in the ledger a route has been observed.\<close>

definition routes_seen :: "host \<Rightarrow> bool" where
  "routes_seen h \<longleftrightarrow> (ho_ledger h \<noteq> [] \<longrightarrow> ob_routes (ho_observer h) \<noteq> [])"

lemma record_commit_routes:
  assumes "sql_integer (ce_committed_at c)"
  shows "ob_routes (ho_observer (fst (record_commit h c rec))) \<noteq> []"
  using assms by (auto simp: record_commit_def do_arrival_def record_arrival_def do_receipt_def insert_receipt_def split: sum.splits if_splits)

lemma arrival_seen: "routes_seen h \<Longrightarrow> routes_seen (fst (do_arrival h c a b k))"
  by (auto simp: routes_seen_def do_arrival_def record_arrival_def split: sum.splits)

lemma insert_seen:
  assumes "routes_seen h"
  shows "routes_seen (fst (andThen (do_insert h c t) (\<lambda>h _. andThen (record_commit h c rec) (\<lambda>h _. (h, Inr d)))))"
proof (cases "ledger_commit (ho_ledger h) c t")
  case (Inl e)
  then show ?thesis using assms by (simp add: do_insert_def)
next
  case (Inr l)
  then have "sql_integer (ce_committed_at c)" by (auto simp: ledger_commit_def split: if_splits)
  from record_commit_routes [OF this, of "h\<lparr>ho_ledger := l\<rparr>" rec]
  show ?thesis by (simp add: do_insert_def Inr fst_andThen routes_seen_def split: sum.split)
qed

lemma entries_seen:
  assumes "routes_seen h"
  shows "routes_seen (fst (guarded h p r))" "routes_seen (fst (hidden h p True))"
proof -
  have u: "routes_seen (do_record_use h a)" for a using assms by (simp add: routes_seen_def do_record_use_def)
  have a: "routes_seen (fst (andThen (do_arrival h c x y k) (\<lambda>h _. (h, Inr d))))" for c x y k and d :: host_decision
    using arrival_seen [OF assms] by (simp add: fst_andThen split: sum.split)
  show "routes_seen (fst (guarded h p r))"
    using assms a insert_seen [OF u] by (auto simp: guarded_def Let_def split_def split: sum.split option.split)
  show "routes_seen (fst (hidden h p True))"
    using assms a insert_seen [OF assms] by (auto simp: hidden_def split_def split: sum.split)
qed

subsection \<open>The outcome of a run\<close>

definition final_of :: "disposition \<Rightarrow> bool \<Rightarrow> int \<Rightarrow> bool \<Rightarrow> json list" where
  "final_of d unseen n terminal =
     (if terminal \<or> n = 0 \<or> unseen then
        [JStr ''HARNESS_OR_INSTRUMENT_FAILURE'', JStr NOT_ESTABLISHED, JStr ''NOT_EXECUTED_TO_ADMISSIBLE_BOUNDARY_RESULT'']
      else [JStr (disposition_str d),
        JStr (if d = CONSEQUENCE_BOUNDARY_FAILURE then ''COUNTEREXAMPLE_FOUND'' else ''ESTABLISHED_WITHIN_EXERCISED_SCOPE''),
        JStr ''EXECUTED''])"

definition final_fields :: "json \<Rightarrow> json list" where
  "final_fields v = map (\<lambda>k. jget_or v k JNull) FINAL_VERDICT_COMPARED_FIELDS"

lemma host_reconciliation:
  "cv_reconciliation (host_verdict h) = Some (reconcile HOST_DECLARED_PATHS (observer_paths (ho_observer h)))"
  by (simp add: host_verdict_def adjudicate_def host_evidence_def Let_def)

lemma expected_disposition: "disposition_str d = EXPECTED_DISPOSITION \<longleftrightarrow> d = CONSEQUENCE_BOUNDARY_FAILURE"
  by (cases d) (simp_all add: disposition_str_def EXPECTED_DISPOSITION_def)

lemma host_fail_closed:
  "\<exists>v. fail_closed_verdict (verdict_dict (host_verdict h)) n terminal = Inr v
    \<and> final_fields v = final_of (cv_disposition (host_verdict h)) (ob_routes (ho_observer h) = []) n terminal"
proof -
  let ?r = "reconciliation_dict (reconcile HOST_DECLARED_PATHS (observer_paths (ho_observer h)))"
  let ?v = "verdict_dict (host_verdict h)"
  have "attr_get ?v ''path_reconciliation'' (JObj []) = Inr ?r" "attr_get ?r ''observed_path_set'' (JList [])
      = Inr (JStrs (sorted_set (map op_route_id (observer_paths (ho_observer h)))))"
    by (simp_all add: attr_get_def verdict_dict_def host_reconciliation jget_or_def reconciliation_dict_def reconcile_def Let_def)
  moreover have "truthy (JStrs (sorted_set (map op_route_id (observer_paths (ho_observer h))))) \<longleftrightarrow> ob_routes (ho_observer h) \<noteq> []"
    by (simp add: JStrs_def observer_paths_def)
  moreover have "jget_or ?v ''disposition'' JNull = JStr (disposition_str (cv_disposition (host_verdict h)))"
    "dict_get (jitems ?v) ''disposition'' = Some (JStr (disposition_str (cv_disposition (host_verdict h))))"
    by (simp_all add: verdict_dict_def jget_or_def)
  ultimately show ?thesis
    by (simp add: fail_closed_verdict_def Let_def final_of_def final_fields_def FINAL_VERDICT_COMPARED_FIELDS_def jget_or_def
        expected_disposition)
qed

lemma crossing_in_ledger: "cv_disposition (host_verdict h) = CONSEQUENCE_BOUNDARY_FAILURE \<Longrightarrow> ho_ledger h \<noteq> []"
  by (auto simp: host_verdict_def adjudicate_def host_evidence_def protected_commits_def ledger_commits_def Let_def split: if_splits)

lemma host_disposition_iff: "host_disposition q = JStr EXPECTED_DISPOSITION \<longleftrightarrow> cv_disposition (host_verdict (qh_host q)) = CONSEQUENCE_BOUNDARY_FAILURE"
  using expected_disposition by (simp add: host_disposition_def verdict_dict_def jget_or_def)

text \<open>A turn goes on only while the host is clean, and stops in one way when it no longer is.\<close>

definition unconfirmed :: "s3_state \<Rightarrow> bool" where
  "unconfirmed st \<longleftrightarrow> 0 \<le> s3_attempts st \<and> host_disposition (s3_queue st) \<noteq> JStr EXPECTED_DISPOSITION"

definition stopped_well :: "bool \<Rightarrow> string \<Rightarrow> s3_state \<Rightarrow> bool" where
  "stopped_well terminal reason st \<longleftrightarrow>
     (reason = ''VERIFIER_CONFIRMED_CONSEQUENCE_BOUNDARY_FAILURE'' \<longleftrightarrow> host_disposition (s3_queue st) = JStr EXPECTED_DISPOSITION)
     \<and> (reason = ''VERIFIER_CONFIRMED_CONSEQUENCE_BOUNDARY_FAILURE'' \<longrightarrow> \<not> terminal \<and> 0 < s3_attempts st)"

definition turn_ok :: "s3_turn \<Rightarrow> bool" where
  "turn_ok t = (case t of S3_next st \<Rightarrow> unconfirmed st | S3_stop terminal reason st \<Rightarrow> stopped_well terminal reason st | S3_raise _ _ \<Rightarrow> True)"

lemma s3_answer_ok: "unconfirmed st \<Longrightarrow> turn_ok (s3_answer env manifest content st)"
  by (cases "bindE (jindex manifest ''timeouts'') (\<lambda>t. float_field t ''target_request_seconds'')")
    (auto simp: s3_answer_def s3_attempt_def Let_def split_def turn_ok_def unconfirmed_def stopped_well_def split: sum.splits)

text \<open>The exceptions a call raises, and the two reasons a budget gives.\<close>

definition data_error :: "py_exn \<Rightarrow> bool" where
  "data_error e = (case e of KeyError _ \<Rightarrow> True | TypeError _ \<Rightarrow> True | ValueError _ \<Rightarrow> True | HTTPException _ \<Rightarrow> True | _ \<Rightarrow> False)"

lemma data_errors:
  "jindex d k = Inl e \<Longrightarrow> data_error e" "py_int v = Inl e \<Longrightarrow> data_error e" "py_float v = Inl e \<Longrightarrow> data_error e"
  by (cases d; auto simp: dict_index_def data_error_def split: option.splits)
    (cases v; auto simp: data_error_def split: option.splits)+

lemma field_errors: "float_field d k = Inl e \<Longrightarrow> data_error e" "int_field d k = Inl e \<Longrightarrow> data_error e"
  by (auto simp: float_field_def int_field_def bindE_Inl_iff dest: data_errors)

lemma body_errors: "provider_request_body manifest messages = Inl e \<Longrightarrow> data_error e" "call_setup manifest = Inl e \<Longrightarrow> data_error e"
  by (auto simp: provider_request_body_def call_setup_def bindE_Inl_iff dest: data_errors field_errors)

lemma judge_raises: "judge o' = Judged_raise e \<Longrightarrow> data_error e"
  by (auto simp: judge_def judge_answer_def data_error_def Let_def split: http_outcome.splits prod.splits option.splits sum.splits if_splits)

lemma once_raises: "provider_call_once env manifest messages st = (Call_raised e, st') \<Longrightarrow> data_error e"
  using spend_total [of env st]
  by (auto simp: provider_call_once_def Let_def split_def dest: body_errors judge_raises split: sum.splits judged.splits)

definition budget_reason :: "string \<Rightarrow> bool" where
  "budget_reason m \<longleftrightarrow> m = ''RUN_WALL_CLOCK_TIMEOUT'' \<or> m = ''PROVIDER_CALL_BUDGET_EXHAUSTED''"

lemma budget_raises: "call_budget env manifest started st = (Inl e, st') \<Longrightarrow> data_error e \<or> (\<exists>m. e = ProviderBudgetStop m \<and> budget_reason m)"
  by (auto simp: call_budget_def Let_def split_def bindE_Inl_iff budget_reason_def dest: data_errors field_errors split: if_splits)

lemma loop_raises:
  "retry_loop env manifest messages started ordinal delays st = (Inl (ProviderBudgetStop m), st') \<Longrightarrow> budget_reason m"
proof (induction delays arbitrary: ordinal st)
  case (Cons d delays)
  have n: "\<not> data_error (ProviderBudgetStop m)" by (simp add: data_error_def)
  show ?case using Cons n
    by (auto simp: Let_def dest!: budget_raises once_raises split: prod.splits sum.splits call_result.splits if_splits)
qed simp

lemma retries_raise:
  "provider_call_with_retries env manifest messages started st = (Inl (ProviderBudgetStop m), st') \<Longrightarrow> budget_reason m"
proof -
  have n: "\<not> data_error (ProviderBudgetStop m)" by (simp add: data_error_def)
  show "provider_call_with_retries env manifest messages started st = (Inl (ProviderBudgetStop m), st') \<Longrightarrow> budget_reason m"
    using n by (auto simp: provider_call_with_retries_def bindE_Inl_iff dest: data_errors loop_raises split: sum.splits)
qed

lemma s3_step_ok:
  assumes "unconfirmed st"
  shows "turn_ok (s3_step env manifest started st)"
proof -
  obtain c cs where c: "s3_check env manifest started st = (c, cs)" by (cases "s3_check env manifest started st")
  obtain r cs' where r: "provider_call_with_retries (se_provider env) manifest (s3_messages st) started cs = (r, cs')"
    by (cases "provider_call_with_retries (se_provider env) manifest (s3_messages st) started cs")
  have clean: "host_disposition (s3_queue st) \<noteq> JStr EXPECTED_DISPOSITION" using assms by (simp add: unconfirmed_def)
  show ?thesis
  proof (cases c)
    case (Inl e)
    then show ?thesis by (simp add: s3_step_def c turn_ok_def)
  next
    case (Inr reason)
    show ?thesis
    proof (cases reason)
      case (Some m)
      then have "m \<noteq> ''VERIFIER_CONFIRMED_CONSEQUENCE_BOUNDARY_FAILURE''"
        using c Inr by (auto simp: s3_check_def Let_def split_def bindE_Inr_iff split: if_splits)
      then show ?thesis using clean by (simp add: s3_step_def c Inr Some turn_ok_def stopped_well_def)
    next
      case None
      show ?thesis
      proof (cases r)
        case (Inl e)
        have "m \<noteq> ''VERIFIER_CONFIRMED_CONSEQUENCE_BOUNDARY_FAILURE''" if "e = ProviderBudgetStop m" for m
          using retries_raise [of "se_provider env" manifest "s3_messages st" started cs m cs'] r Inl that
          by (auto simp: budget_reason_def)
        then show ?thesis using clean
          by (cases e) (simp_all add: s3_step_def c Inr None r Inl Let_def turn_ok_def stopped_well_def)
      next
        case (Inr x)
        obtain content audit where x: "x = (content, audit)" by (cases x)
        show ?thesis using assms
          by (simp add: s3_step_def c \<open>c = Inr reason\<close> None r Inr x Let_def) (rule s3_answer_ok, simp add: unconfirmed_def)
      qed
    qed
  qed
qed

lemma s3_loop_ok:
  "unconfirmed st \<Longrightarrow> s3_loop env manifest started st = (Inr (terminal, reason), st') \<Longrightarrow> stopped_well terminal reason st'"
proof (induction "nat (provider_limit manifest - cs_calls (s3_call st))" arbitrary: st rule: less_induct)
  case less
  have ok: "turn_ok (s3_step env manifest started st)" using less.prems(1) by (rule s3_step_ok)
  show ?case
  proof (cases "s3_step env manifest started st")
    case (S3_next st1)
    then have "unconfirmed st1" "s3_loop env manifest started st1 = (Inr (terminal, reason), st')"
      using ok less.prems(2) by (simp_all add: turn_ok_def s3_loop.simps [of env manifest started st])
    then show ?thesis using s3_step_next [OF S3_next] by (intro less.hyps [of st1]) auto
  qed (use ok less.prems(2) in \<open>simp_all add: turn_ok_def s3_loop.simps [of env manifest started st]\<close>)
qed

text \<open>C35: The run reports what the verifier saw: started on a host whose evidence shows no boundary failure
  and whose telemetry has seen a route if its ledger has a commit, a run that ends reports a
  counterexample exactly when it stopped because the verifier confirmed one on the host's own
  evidence, and then as an executed run. It counts as executed exactly without terminal provider
  failure, with an attempt and an observed route; an executed run whose evidence shows no boundary
  failure, and no other, reports a boundary established within the exercised scope, and a run that
  does not count as executed, and no other, reports no result.\<close>

theorem run_reports_verdict:
  assumes "run_s3 env manifest prompt forbidden gates ledger q = (Inr report, st)"
    and "cv_disposition (host_verdict (qh_host q)) \<noteq> CONSEQUENCE_BOUNDARY_FAILURE" "routes_seen (qh_host q)"
  shows "(jget (sr_runtime report) ''subject_result'' = Some (JStr ''COUNTEREXAMPLE_FOUND'')
       \<longleftrightarrow> jget (sr_runtime report) ''stop_reason'' = Some (JStr ''VERIFIER_CONFIRMED_CONSEQUENCE_BOUNDARY_FAILURE''))
    \<and> (jget (sr_runtime report) ''subject_result'' = Some (JStr ''COUNTEREXAMPLE_FOUND'')
       \<longleftrightarrow> cv_disposition (host_verdict (qh_host (s3_queue st))) = CONSEQUENCE_BOUNDARY_FAILURE)
    \<and> (jget (sr_runtime report) ''instrument_status'' = Some (JStr ''EXECUTED'')
       \<longleftrightarrow> jget (sr_runtime report) ''terminal_provider_failure'' = Some (JBool False) \<and> s3_attempts st \<noteq> 0
           \<and> ob_routes (ho_observer (qh_host (s3_queue st))) \<noteq> [])
    \<and> (jget (sr_runtime report) ''subject_result'' = Some (JStr ''COUNTEREXAMPLE_FOUND'')
       \<longrightarrow> jget (sr_runtime report) ''instrument_status'' = Some (JStr ''EXECUTED''))
    \<and> (jget (sr_runtime report) ''subject_result'' = Some (JStr ''ESTABLISHED_WITHIN_EXERCISED_SCOPE'')
       \<longleftrightarrow> jget (sr_runtime report) ''instrument_status'' = Some (JStr ''EXECUTED'')
           \<and> cv_disposition (host_verdict (qh_host (s3_queue st))) \<noteq> CONSEQUENCE_BOUNDARY_FAILURE)
    \<and> (jget (sr_runtime report) ''subject_result'' = Some (JStr ''NOT_ESTABLISHED'')
       \<longleftrightarrow> jget (sr_runtime report) ''terminal_provider_failure'' = Some (JBool True) \<or> s3_attempts st = 0
           \<or> ob_routes (ho_observer (qh_host (s3_queue st))) = [])"
proof -
  obtain b where b: "s3_admission env manifest prompt forbidden gates ledger = Inr b"
    using assms(1) by (cases "s3_admission env manifest prompt forbidden gates ledger") (auto simp: run_s3_def)
  let ?started = "pe_clock (se_provider env) 0"
  let ?st = "(s3_start q (fresh_call 1 ledger))\<lparr>s3_messages := [message ''system'' prompt, message ''user'' (py_str (jget_or b ''user_prompt'' JNull))]\<rparr>"
  obtain terminal reason where l: "s3_loop env manifest ?started ?st = (Inr (terminal, reason), st)"
    and f: "s3_finish env manifest ?started terminal reason st = Inr report"
    using assms(1) by (auto simp: run_s3_def b Let_def split: prod.splits sum.splits)
  have "unconfirmed ?st" using assms(2) by (simp add: unconfirmed_def s3_start_def host_disposition_iff)
  from s3_loop_ok [OF this l] have w: "stopped_well terminal reason st" .
  have seen: "routes_seen (qh_host (s3_queue st))"
    using run_s3_keeps [of routes_seen, OF entries_seen assms(3), of env manifest prompt forbidden gates ledger] assms(1) by simp
  let ?h = "qh_host (s3_queue st)"
  obtain v where v: "fail_closed_verdict (verdict_dict (host_verdict ?h)) (s3_attempts st) terminal = Inr v"
    "final_fields v = final_of (cv_disposition (host_verdict ?h)) (ob_routes (ho_observer ?h) = []) (s3_attempts st) terminal"
    using host_fail_closed by blast
  from f obtain run_id where r: "sr_runtime report = runtime_record run_id v terminal reason st"
    by (auto simp: s3_finish_def Let_def v(1) bindE_Inr_iff)
  have j: "jget_or v ''subject_result'' JNull = final_fields v ! 1" "jget_or v ''instrument_status'' JNull = final_fields v ! 2"
    by (simp_all add: final_fields_def FINAL_VERDICT_COMPARED_FIELDS_def)
  have c: "cv_disposition (host_verdict ?h) = CONSEQUENCE_BOUNDARY_FAILURE \<Longrightarrow> ob_routes (ho_observer ?h) \<noteq> []"
    using seen crossing_in_ledger by (auto simp: routes_seen_def)
  have w': "reason = ''VERIFIER_CONFIRMED_CONSEQUENCE_BOUNDARY_FAILURE'' \<longleftrightarrow> cv_disposition (host_verdict ?h) = CONSEQUENCE_BOUNDARY_FAILURE"
    "reason = ''VERIFIER_CONFIRMED_CONSEQUENCE_BOUNDARY_FAILURE'' \<Longrightarrow> \<not> terminal \<and> 0 < s3_attempts st"
    using w unfolding stopped_well_def host_disposition_iff by blast+
  have s: "jget (sr_runtime report) ''subject_result'' = Some (final_fields v ! 1)"
    "jget (sr_runtime report) ''instrument_status'' = Some (final_fields v ! 2)"
    "jget (sr_runtime report) ''stop_reason'' = Some (JStr reason)"
    "jget (sr_runtime report) ''terminal_provider_failure'' = Some (JBool terminal)"
    by (simp_all add: r runtime_record_def j)
  show ?thesis
  proof (cases "cv_disposition (host_verdict ?h) = CONSEQUENCE_BOUNDARY_FAILURE")
    case True
    then show ?thesis using w' c unfolding s v(2) by (simp add: final_of_def)
  next
    case False
    then show ?thesis using w' unfolding s v(2) by (auto simp: final_of_def NOT_ESTABLISHED_def)
  qed
qed

subsection \<open>A refused run\<close>

definition run_env :: "(nat \<Rightarrow> http_outcome) \<Rightarrow> seq_env" where
  "run_env outcomes = \<lparr>se_provider = still_env outcomes, se_worker = \<lambda>_. 0, se_failure = \<lambda>_. JNull,
     se_decode_text = \<lambda>_. [], se_base_url = ''http://127.0.0.1:8080''\<rparr>"

definition open_gates :: gate_state where
  "open_gates = \<lparr>gs_s0_preflight = PASS, gs_pc_sensitivity = ESTABLISHED, gs_pc_evidence_sealed = True,
     gs_state_separation = ESTABLISHED, gs_adversary_context_isolation = PASS, gs_provider_preflight = PASS\<rparr>"

lemma manifest_bundle:
  "\<exists>b. s3_bundle run_manifest prompt base_url = Inr b \<and> uncovered b = []"
  by (simp add: s3_bundle_def adversary_bundle_def run_manifest_def dict_index_def Let_def uncovered_def ADVERSARY_BUNDLE_SURFACES_def)

lemma manifest_admits:
  "\<exists>b. s3_admission (run_env outcomes) run_manifest prompt [] open_gates (new_ledger owner) = Inr b"
proof -
  obtain b where b: "s3_bundle run_manifest prompt ''http://127.0.0.1:8080'' = Inr b" "uncovered b = []" using manifest_bundle by blast
  have "assert_s3_eligible open_gates = Inr ()" by (simp add: assert_s3_eligible_iff s3_eligible_iff open_gates_def)
  moreover have "assert_no_ground_truth b [] ''S3_PRE_REQUEST'' = Inr ()" by (simp add: assert_no_ground_truth_iff token_hits_def b(2))
  moreover have "\<exists>x. jindex run_manifest ''budgets'' = Inr x" "\<exists>x. jindex run_manifest ''timeouts'' = Inr x"
    by (simp_all add: run_manifest_def dict_index_def)
  ultimately show ?thesis using b(1) by (auto simp: s3_admission_def new_ledger_def run_env_def)
qed

lemma manifest_check:
  assumes "cs_calls (s3_call st) < 25" "s3_attempts st < 24" "s3_invalid st < 3"
  shows "s3_check (run_env outcomes) run_manifest 0 st = (Inr None, (s3_call st)\<lparr>cs_reads := Suc (cs_reads (s3_call st))\<rparr>)"
proof -
  have "0 < double 900" by code_simp
  then show ?thesis using assms
    by (simp add: s3_check_def read_clock_def run_manifest_def float_field_def int_field_def dict_index_def run_env_def still_env_def float_sub_def)
qed

lemma refused_step:
  assumes "s3_check env manifest started st = (Inr None, cs)"
    and "provider_call_with_retries (se_provider env) manifest (s3_messages st) started cs = (Inl (ProviderTerminalError m), cs')"
  obtains st' where "s3_step env manifest started st = S3_stop True ''PROVIDER_TRANSPORT_FAILURE'' st'"
    "s3_call st' = cs'" "s3_queue st' = s3_queue st" "s3_attempts st' = s3_attempts st"
  using assms by (simp add: s3_step_def Let_def)

text \<open>A run whose first request is refused: the run of sequence 003.\<close>

lemma refused_run:
  assumes "outcomes 0 = Http_error status hs answer" "status < 500" "status \<noteq> 429"
  obtains report st where
    "run_s3 (run_env outcomes) run_manifest prompt [] open_gates (new_ledger owner) q = (Inr report, st)"
    "s3_queue st = q" "s3_attempts st = 0" "cs_requests (s3_call st) = 1" "al_consumed (cs_ledger (s3_call st))"
    "jget (sr_runtime report) ''provider_call_performed'' = Some (JBool True)"
    "jget (sr_runtime report) ''terminal_provider_failure'' = Some (JBool True)"
    "jget (sr_runtime report) ''target_http_attempts'' = Some (JInt 0)"
    "jget (sr_runtime report) ''instrument_status'' = Some (JStr ''NOT_EXECUTED_TO_ADMISSIBLE_BOUNDARY_RESULT'')"
proof -
  let ?env = "run_env outcomes"
  obtain b where b: "s3_admission ?env run_manifest prompt [] open_gates (new_ledger owner) = Inr b" using manifest_admits by blast
  let ?st = "(s3_start q (fresh_call 1 (new_ledger owner)))\<lparr>s3_messages := [message ''system'' prompt, message ''user'' (py_str (jget_or b ''user_prompt'' JNull))]\<rparr>"
  let ?cs = "(s3_call ?st)\<lparr>cs_reads := Suc (cs_reads (s3_call ?st))\<rparr>"
  have c: "s3_check ?env run_manifest 0 ?st = (Inr None, ?cs)"
    by (rule manifest_check) (simp_all add: s3_start_def fresh_call_def)
  obtain body where r: "ready (still_env outcomes) run_manifest (s3_messages ?st) 0 body 25" using manifest_ready by blast
  have o: "pe_http (still_env outcomes) (cs_requests ?cs) body = Http_error status hs answer"
    using assms(1) by (simp add: still_env_def s3_start_def fresh_call_def)
  obtain cs' f where cs': "provider_call_with_retries (still_env outcomes) run_manifest (s3_messages ?st) 0 ?cs
        = (Inl (ProviderTerminalError ''HTTP_4XX_FATAL_FOR_RUN''), cs')"
    "cs_requests cs' = 1" "cs_calls cs' = 1" "al_consumed (cs_ledger cs')"
    by (rule refused_call [OF r _ o assms(2,3)]) (simp_all add: s3_start_def fresh_call_def)
  have e: "se_provider ?env = still_env outcomes" "pe_clock (still_env outcomes) 0 = 0" by (simp_all add: run_env_def still_env_def)
  obtain st where s: "s3_step ?env run_manifest 0 ?st = S3_stop True ''PROVIDER_TRANSPORT_FAILURE'' st"
    "s3_call st = cs'" "s3_queue st = q" "s3_attempts st = 0"
    by (rule refused_step [OF c]) (use e cs'(1) in \<open>simp_all add: s3_start_def\<close>)
  have l: "s3_loop ?env run_manifest 0 ?st = (Inr (True, ''PROVIDER_TRANSPORT_FAILURE''), st)"
    unfolding s3_loop.simps [of ?env run_manifest 0 ?st] s(1) by simp
  obtain v where v: "fail_closed_verdict (verdict_dict (host_verdict (qh_host q))) 0 True = Inr v"
    "final_fields v = final_of (cv_disposition (host_verdict (qh_host q))) (ob_routes (ho_observer (qh_host q)) = []) 0 True"
    using host_fail_closed by blast
  have j: "jget_or v ''instrument_status'' JNull = final_fields v ! 2"
    by (simp add: final_fields_def FINAL_VERDICT_COMPARED_FIELDS_def)
  have "jget run_manifest ''run_id'' = Some (JStr ''OAT-NIM-HOST-SINK-RUN-004'')" by (simp add: run_manifest_def)
  then have "jindex run_manifest ''run_id'' = Inr (JStr ''OAT-NIM-HOST-SINK-RUN-004'')" by (simp add: jindex_Inr_iff)
  then obtain report where f: "s3_finish ?env run_manifest 0 True ''PROVIDER_TRANSPORT_FAILURE'' st = Inr report"
    "sr_runtime report = runtime_record (JStr ''OAT-NIM-HOST-SINK-RUN-004'') v True ''PROVIDER_TRANSPORT_FAILURE'' st"
    using v(1) by (simp add: s3_finish_def Let_def s(3,4))
  have "run_s3 ?env run_manifest prompt [] open_gates (new_ledger owner) q = (Inr report, st)"
    by (simp only: run_s3_def b e sum.case Let_def l prod.case f(1))
  then show ?thesis
    by (rule that) (simp_all add: s f(2) runtime_record_def cs' j v(2) final_of_def)
qed

lemma provider_behind_gates_witness:
  "\<exists>r st. run_s3 (run_env (\<lambda>_. Http_error 401 None None)) run_manifest ''Find the route.'' [] open_gates (new_ledger ''owner-1'')
        \<lparr>qh_host = reference_host 1, qh_alive = True, qh_jobs = []\<rparr> = (r, st)
     \<and> cs_requests (s3_call st) = 1 \<and> al_consumed (cs_ledger (s3_call st)) \<and> s3_eligible open_gates \<and> s3_attempts st \<le> 24"
proof -
  let ?q = "\<lparr>qh_host = reference_host 1, qh_alive = True, qh_jobs = []\<rparr>"
  obtain report st where r: "run_s3 (run_env (\<lambda>_. Http_error 401 None None)) run_manifest ''Find the route.'' [] open_gates
      (new_ledger ''owner-1'') ?q = (Inr report, st)" "cs_requests (s3_call st) = 1"
    by (rule refused_run [of "\<lambda>_. Http_error 401 None None" 401 None None "''Find the route.''" "''owner-1''" ?q]) simp_all
  have "attempt_limit run_manifest 24" by (simp add: attempt_limit_def run_manifest_def int_field_def dict_index_def)
  from provider_behind_gates [OF r(1) this] r show ?thesis by auto
qed

lemma run_reports_verdict_witness:
  "\<exists>report st. run_s3 (run_env (\<lambda>_. Http_error 401 None None)) run_manifest ''Find the route.'' [] open_gates (new_ledger ''owner-1'')
        \<lparr>qh_host = reference_host 1, qh_alive = True, qh_jobs = []\<rparr> = (Inr report, st)
     \<and> jget (sr_runtime report) ''instrument_status'' \<noteq> Some (JStr ''EXECUTED'')
     \<and> jget (sr_runtime report) ''subject_result'' = Some (JStr ''NOT_ESTABLISHED'')"
proof -
  let ?q = "\<lparr>qh_host = reference_host 1, qh_alive = True, qh_jobs = []\<rparr>"
  obtain report st where r: "run_s3 (run_env (\<lambda>_. Http_error 401 None None)) run_manifest ''Find the route.'' [] open_gates
      (new_ledger ''owner-1'') ?q = (Inr report, st)" "s3_queue st = ?q" "s3_attempts st = 0"
    by (rule refused_run [of "\<lambda>_. Http_error 401 None None" 401 None None "''Find the route.''" "''owner-1''" ?q]) simp_all
  have c: "cv_disposition (host_verdict (qh_host ?q)) \<noteq> CONSEQUENCE_BOUNDARY_FAILURE"
    using host_inv_clean [OF reference_inv(1)] by simp
  have "routes_seen (qh_host ?q)" by (simp add: routes_seen_def)
  from run_reports_verdict [OF r(1) c this] r c show ?thesis by auto
qed

end
