(* ===== verification/Sequence_Replay.thy ===== *)
theory Sequence_Replay
  imports Sequence_Run
begin

section \<open>Replay from the preserved evidence\<close>

text \<open>
  The replay of \<open>tools/oat_consequence_sequence_runner_004.py\<close>: the authority, the authorizations and the
  stores are rebuilt from an evidence directory, the frozen verifier runs again, and the verdict
  that fails closed is compared with the stored one. The two database files are the tables in them.
  A field that should be text and is not counts as an error.
\<close>

definition REFERENCE_SECRET :: string where
  "REFERENCE_SECRET = ''oat-host-sink-reference-secret''"

record run_dir =
  rd_path :: string
  rd_evidence :: json
  rd_runtime :: "json option"
  rd_facts :: "json option"
  rd_ledger :: "ledger_row list"
  rd_observer :: observer
  rd_files :: directory

subsection \<open>Rebuilding\<close>

definition text_field :: "json \<Rightarrow> string \<Rightarrow> string res" where
  "text_field d k = bindE (jindex d k) (\<lambda>v. case v of JStr s \<Rightarrow> Inr s | _ \<Rightarrow> Inl (TypeError ''text''))"

definition texts_field :: "json \<Rightarrow> string \<Rightarrow> string list res" where
  "texts_field d k = bindE (jindex d k) (\<lambda>v. case v of
     JList xs \<Rightarrow> mapE (\<lambda>x. case x of JStr s \<Rightarrow> Inr s | _ \<Rightarrow> Inl (TypeError ''text'')) xs | _ \<Rightarrow> Inl (TypeError ''list''))"

definition rebuild_state :: "json \<Rightarrow> authority_state res" where
  "rebuild_state epoch =
     bindE (int_field epoch ''epoch'') (\<lambda>n. bindE (int_field epoch ''effective_from'') (\<lambda>from_tick.
     bindE (texts_field epoch ''active_grants'') (\<lambda>active. bindE (texts_field epoch ''revoked_grants'') (\<lambda>revoked.
     bindE (texts_field epoch ''superseded_grants'') (\<lambda>superseded.
       Inr \<lparr>as_epoch = n, as_effective_from = from_tick, as_active = active, as_revoked = revoked, as_superseded = superseded\<rparr>)))))"

definition rebuild_authority :: "json \<Rightarrow> authority_store res" where
  "rebuild_authority r =
     bindE (jindex r ''epochs'') (\<lambda>epochs. case epochs of
        JList es \<Rightarrow> bindE (mapE rebuild_state es) (\<lambda>states. Inr (fold store_add states []))
      | _ \<Rightarrow> Inl (TypeError ''list''))"

definition rebuild_authorization :: "json \<Rightarrow> authorization res" where
  "rebuild_authorization r =
     (if jget_or r ''delegation'' JNull \<notin> {JNull, JStr ''NOT_APPLICABLE''} then
        Inl (SequenceGateError ''replay of delegated authorizations is not bound by this runner'')
      else bindE (text_field r ''authorization_id'') (\<lambda>authorization_id. bindE (text_field r ''grant_id'') (\<lambda>grant_id.
        bindE (text_field r ''decision'') (\<lambda>dec. bindE (text_field r ''tenant_id'') (\<lambda>tenant_id.
        bindE (text_field r ''principal_id'') (\<lambda>principal_id. bindE (text_field r ''agent_id'') (\<lambda>agent_id.
        bindE (text_field r ''release_id'') (\<lambda>release_id. bindE (text_field r ''action_digest'') (\<lambda>action_digest.
        bindE (text_field r ''sink_id'') (\<lambda>sink_id. bindE (text_field r ''scope'') (\<lambda>scope.
        bindE (text_field r ''authority_state_digest'') (\<lambda>state_digest.
        bindE (int_field r ''not_before'') (\<lambda>not_before. bindE (int_field r ''not_after'') (\<lambda>not_after.
        bindE (text_field r ''idempotency_key'') (\<lambda>key. bindE (int_field r ''max_uses'') (\<lambda>max_uses.
        bindE (case jget r ''integrity'' of None \<Rightarrow> Inr [] | Some (JStr s) \<Rightarrow> Inr s | _ \<Rightarrow> Inl (TypeError ''text'')) (\<lambda>integrity.
          Inr \<lparr>au_authorization_id = authorization_id, au_grant_id = grant_id, au_decision = dec, au_tenant_id = tenant_id,
            au_principal_id = principal_id, au_agent_id = agent_id, au_release_id = release_id, au_action_digest = action_digest,
            au_sink_id = sink_id, au_scope = scope, au_authority_state_digest = state_digest, au_not_before = not_before,
            au_not_after = not_after, au_idempotency_key = key, au_max_uses = max_uses, au_delegation = None,
            au_integrity = integrity\<rparr>)))))))))))))))))"

text \<open>The host over the copied stores: what it knows of uses is lost.\<close>

definition reopened :: "protected_sink \<Rightarrow> authority_store \<Rightarrow> ledger_row list \<Rightarrow> observer \<Rightarrow> host" where
  "reopened sink authority ledger ob = (new_host sink authority (new_issuer REFERENCE_SECRET))\<lparr>ho_ledger := ledger, ho_observer := ob\<rparr>"

definition replay_host :: "run_dir \<Rightarrow> host res" where
  "replay_host d =
     bindE (jindex (rd_evidence d) ''authority'') (\<lambda>a. bindE (rebuild_authority a) (\<lambda>authority.
     bindE (jindex (rd_evidence d) ''protected_sink'') (\<lambda>s. bindE (text_field s ''sink_id'') (\<lambda>sink_id.
     bindE (text_field s ''description'') (\<lambda>description.
     bindE (jindex (rd_evidence d) ''authorizations'') (\<lambda>auths.
       (if \<not> is_JObj auths then Inl (AttributeError ''values'')
        else bindE (mapE rebuild_authorization (map snd (jitems auths))) (\<lambda>as.
          Inr (fold (\<lambda>a h. register h a) as
            (reopened \<lparr>ps_sink_id = sink_id, ps_description = description\<rparr> authority (rd_ledger d) (rd_observer d)))))))))))"

subsection \<open>The comparison\<close>

definition compared_fields :: "json \<Rightarrow> json \<Rightarrow> (string \<times> bool) list" where
  "compared_fields recomputed stored = map (\<lambda>k. (k, py_eq (jget_or recomputed k JNull) (jget_or stored k JNull))) FINAL_VERDICT_COMPARED_FIELDS"

definition compared_dict :: "json \<Rightarrow> json \<Rightarrow> json" where
  "compared_dict recomputed stored = JObj (map (\<lambda>(k, m). (k, JObj [(''recomputed'', jget_or recomputed k JNull),
     (''stored'', jget_or stored k JNull), (''matches'', JBool m)])) (compared_fields recomputed stored))"

definition REPLAY_METHOD :: string where
  "REPLAY_METHOD = ''layer A: reconstruct the evidence graph from the preserved stores and re-run the frozen verifier; layer B: re-apply the fail-closed wrapper over the preserved execution facts and compare the FINAL verdict''"

definition replay_from_evidence :: "run_dir \<Rightarrow> string \<Rightarrow> json res" where
  "replay_from_evidence d label =
     bindE (jindex (rd_evidence d) ''subject_verifier_verdict'') (\<lambda>stored_subject.
     (let stored_final = jget_or (rd_evidence d) ''verdict'' stored_subject in
      bindE (execution_facts (rd_path d) (rd_runtime d) (rd_facts d)) (\<lambda>facts.
      bindE (replay_host d) (\<lambda>h.
      (let recomputed = verdict_dict (host_verdict h) in
       bindE (int_field facts ''target_http_attempts'') (\<lambda>attempts.
       bindE (jindex facts ''terminal_provider_failure'') (\<lambda>terminal.
       bindE (fail_closed_verdict recomputed attempts (truthy terminal)) (\<lambda>final.
       bindE (verify_run_sums (rd_files d)) (\<lambda>integrity.
         Inr (JObj [(''artifact'', JStr (label @ ''_REPLAY'')), (''compared_fields'', compared_dict final stored_final),
           (''evidence_integrity'', integrity), (''execution_facts'', facts),
           (''recomputed_final_disposition'', jget_or final ''disposition'' JNull),
           (''recomputed_final_instrument_status'', jget_or final ''instrument_status'' JNull),
           (''recomputed_final_subject_result'', jget_or final ''subject_result'' JNull),
           (''recomputed_subject_disposition'', jget_or recomputed ''disposition'' JNull),
           (''replay_matches_original'', JBool (list_all snd (compared_fields final stored_final))),
           (''replay_method'', JStr REPLAY_METHOD), (''sequence_id'', JStr SEQUENCE_ID),
           (''stored_final_disposition'', jget_or stored_final ''disposition'' JNull),
           (''stored_final_instrument_status'', jget_or stored_final ''instrument_status'' JNull),
           (''stored_final_subject_result'', jget_or stored_final ''subject_result'' JNull),
           (''stored_subject_disposition'', jget_or stored_subject ''disposition'' JNull)]))))))))))"

subsection \<open>Documents read back\<close>

text \<open>A document written with sorted keys reads back as its normal form.\<close>

lemma dict_get_sorted: "dict_get (sort_key fst xs) j = dict_get xs j"
  by (induction xs) (auto simp: dict_get_insort)

lemma jget_nf: "jget (nf d) k = map_option nf (jget d k)"
  by (cases d) (simp_all add: nf_JObj dict_get_sorted dict_get_map_snd)

lemma jindex_nf: "jindex d k = Inr v \<Longrightarrow> jindex (nf d) k = Inr (nf v)"
  by (simp add: jindex_Inr_iff jget_nf)

lemma text_field_nf: "jget d k = Some (JStr s) \<Longrightarrow> text_field (nf d) k = Inr s"
  by (simp add: text_field_def bindE_Inr_iff jindex_Inr_iff jget_nf)

lemma int_field_nf: "jget d k = Some (JInt i) \<Longrightarrow> int_field (nf d) k = Inr i"
  by (simp add: int_field_def bindE_Inr_iff jindex_Inr_iff jget_nf)

lemma texts_field_nf: "jget d k = Some (JStrs ss) \<Longrightarrow> texts_field (nf d) k = Inr ss"
proof -
  assume d: "jget d k = Some (JStrs ss)"
  have n: "nf (JStrs ss) = JList (map JStr ss)" by (simp add: JStrs_def)
  have "mapE (\<lambda>x. case x of JStr s \<Rightarrow> Inr s | _ \<Rightarrow> Inl (TypeError ''text'')) (map JStr ss) = Inr ss" by (induction ss) simp_all
  then show ?thesis using d by (simp add: texts_field_def bindE_Inr_iff jindex_Inr_iff jget_nf n)
qed

lemma rebuild_state_written: "rebuild_state (nf (authority_state_dict s)) = Inr s"
proof -
  have g: "jget (authority_state_dict s) ''epoch'' = Some (JInt (as_epoch s))"
    "jget (authority_state_dict s) ''effective_from'' = Some (JInt (as_effective_from s))"
    "jget (authority_state_dict s) ''active_grants'' = Some (JStrs (as_active s))"
    "jget (authority_state_dict s) ''revoked_grants'' = Some (JStrs (as_revoked s))"
    "jget (authority_state_dict s) ''superseded_grants'' = Some (JStrs (as_superseded s))"
    by (simp_all add: authority_state_dict_def)
  show ?thesis unfolding rebuild_state_def int_field_nf [OF g(1)] int_field_nf [OF g(2)] texts_field_nf [OF g(3)]
    texts_field_nf [OF g(4)] texts_field_nf [OF g(5)] bindE_simps by simp
qed

lemma rebuild_authority_written: "store_ok es \<Longrightarrow> rebuild_authority (nf (store_dict es)) = Inr es"
proof -
  assume ok: "store_ok es"
  have "mapE rebuild_state (map nf (map authority_state_dict es)) = Inr es"
    by (induction es) (simp_all add: rebuild_state_written)
  moreover have "fold store_add es [] = es"
    using fold_store_add [of es "[]"] ok sort_key_sorted [of as_effective_from es] by (simp add: store_ok_def)
  moreover have "jindex (nf (store_dict es)) ''epochs'' = Inr (nf (JList (map authority_state_dict es)))"
    by (rule jindex_nf) (simp add: store_dict_def dict_index_def)
  ultimately show ?thesis by (simp add: rebuild_authority_def comp_def)
qed

lemma rebuild_authorization_written:
  assumes "au_delegation a = None"
  shows "rebuild_authorization (nf (authorization_dict a)) = Inr a"
proof -
  have g: "jget (authorization_dict a) ''authorization_id'' = Some (JStr (au_authorization_id a))"
    "jget (authorization_dict a) ''grant_id'' = Some (JStr (au_grant_id a))"
    "jget (authorization_dict a) ''decision'' = Some (JStr (au_decision a))"
    "jget (authorization_dict a) ''tenant_id'' = Some (JStr (au_tenant_id a))"
    "jget (authorization_dict a) ''principal_id'' = Some (JStr (au_principal_id a))"
    "jget (authorization_dict a) ''agent_id'' = Some (JStr (au_agent_id a))"
    "jget (authorization_dict a) ''release_id'' = Some (JStr (au_release_id a))"
    "jget (authorization_dict a) ''action_digest'' = Some (JStr (au_action_digest a))"
    "jget (authorization_dict a) ''sink_id'' = Some (JStr (au_sink_id a))"
    "jget (authorization_dict a) ''scope'' = Some (JStr (au_scope a))"
    "jget (authorization_dict a) ''authority_state_digest'' = Some (JStr (au_authority_state_digest a))"
    "jget (authorization_dict a) ''idempotency_key'' = Some (JStr (au_idempotency_key a))"
    "jget (authorization_dict a) ''not_before'' = Some (JInt (au_not_before a))"
    "jget (authorization_dict a) ''not_after'' = Some (JInt (au_not_after a))"
    "jget (authorization_dict a) ''max_uses'' = Some (JInt (au_max_uses a))"
    "jget (authorization_dict a) ''integrity'' = Some (JStr (au_integrity a))"
    "jget (authorization_dict a) ''delegation'' = Some (JStr ''NOT_APPLICABLE'')"
    using assms by (simp_all add: authorization_dict_def authorization_payload_def NON_APPLICABLE_def)
  have d: "jget_or (nf (authorization_dict a)) ''delegation'' JNull = JStr ''NOT_APPLICABLE''"
    "jget (nf (authorization_dict a)) ''integrity'' = Some (JStr (au_integrity a))"
    by (simp_all add: jget_or_def jget_nf g)
  show ?thesis
    unfolding rebuild_authorization_def d text_field_nf [OF g(1)] text_field_nf [OF g(2)] text_field_nf [OF g(3)]
      text_field_nf [OF g(4)] text_field_nf [OF g(5)] text_field_nf [OF g(6)] text_field_nf [OF g(7)] text_field_nf [OF g(8)]
      text_field_nf [OF g(9)] text_field_nf [OF g(10)] text_field_nf [OF g(11)] text_field_nf [OF g(12)]
      int_field_nf [OF g(13)] int_field_nf [OF g(14)] int_field_nf [OF g(15)]
    using assms by simp
qed

subsection \<open>What a host must be to be replayed\<close>

text \<open>
  Every authorization is registered once, under its own name, without a delegation, and has not been
  used more often than it allows.
\<close>

definition replayable :: "host \<Rightarrow> bool" where
  "replayable h \<longleftrightarrow> store_ok (ho_authority h) \<and> is_secret (ho_issuer h) = REFERENCE_SECRET
     \<and> distinct (map fst (ho_authorizations h))
     \<and> (\<forall>(k, a) \<in> set (ho_authorizations h). au_authorization_id a = k \<and> au_delegation a = None
          \<and> 0 \<le> au_max_uses a \<and> use_count (ho_issuer h) k \<le> au_max_uses a)"

lemma dict_set_new: "k \<notin> fst ` set d \<Longrightarrow> dict_set k v d = d @ [(k, v)]"
  unfolding dict_set_def by (induction d) auto

lemma register_all:
  "distinct (map fst auths @ map fst (ho_authorizations h)) \<Longrightarrow> \<forall>(k, a) \<in> set auths. au_authorization_id a = k \<Longrightarrow>
     fold (\<lambda>a h. register h a) (map snd auths) h = h\<lparr>ho_authorizations := ho_authorizations h @ auths\<rparr>"
proof (induction auths arbitrary: h)
  case (Cons x auths)
  obtain k a where x: "x = (k, a)" "au_authorization_id a = k" using Cons.prems(2) by (cases x) auto
  have "dict_set k a (ho_authorizations h) = ho_authorizations h @ [(k, a)]"
    using Cons.prems(1) x by (intro dict_set_new) auto
  then have "register h a = h\<lparr>ho_authorizations := ho_authorizations h @ [(k, a)]\<rparr>" by (simp add: register_def x)
  then show ?case using Cons by (simp add: x)
qed simp

subsection \<open>The verdict does not depend on what is lost\<close>

lemma dict_get_map_val: "dict_get (map (\<lambda>(k, a). (k, f k)) d) k = map_option (\<lambda>a. f k) (dict_get d k)"
  by (induction d) auto

lemma same_secret:
  "is_secret i = is_secret j \<Longrightarrow> integrity_dim (Some i) a = integrity_dim (Some j) a"
  by (simp add: integrity_dim_def verify_integrity_def authorization_mac_def)

definition uses_allowed :: "host \<Rightarrow> bool" where
  "uses_allowed h \<longleftrightarrow> (\<forall>k a. dict_get (ho_authorizations h) k = Some a \<longrightarrow> use_count (ho_issuer h) k \<le> au_max_uses a)"

lemma same_verdict:
  assumes "ho_sink h' = ho_sink h" "ho_authority h' = ho_authority h" "ho_ledger h' = ho_ledger h" "ho_observer h' = ho_observer h"
    and auths: "\<And>k. dict_get (ho_authorizations h') k = dict_get (ho_authorizations h) k"
    and secret: "is_secret (ho_issuer h') = is_secret (ho_issuer h)" and "uses_allowed h" "uses_allowed h'"
  shows "host_verdict h' = host_verdict h"
proof -
  let ?ev = "host_evidence h" and ?ev' = "host_evidence h'"
  have ca: "commit_authorization ?ev' c = commit_authorization ?ev c" for c
    using auths by (simp add: commit_authorization_def host_evidence_def split: option.split)
  have rep: "commit_report ?ev' es c = commit_report ?ev es c" for es c
  proof (cases "commit_authorization ?ev c")
    case None
    then show ?thesis using ca [of c] by (simp add: commit_report_def validate_authorization_def)
  next
    case (Some a)
    then obtain k where k: "ce_authorization_ref c = Some k" "dict_get (ho_authorizations h) k = Some a"
      by (auto simp: commit_authorization_def host_evidence_def split: option.splits if_splits)
    have u: "use_dim (dict_get (ev_use_counts (host_evidence g)) k) a = dim ''authorization_use_count'' BOUND []"
      if "uses_allowed g" "dict_get (ho_authorizations g) k = Some a" for g
    proof -
      have "dict_get (ev_use_counts (host_evidence g)) k = Some (use_count (ho_issuer g) k)"
        using that(2) dict_get_map_val [of "use_count (ho_issuer g)" "ho_authorizations g" k] by (simp add: host_evidence_def)
      moreover have "\<not> au_max_uses a < use_count (ho_issuer g) k" using that by (force simp: uses_allowed_def)
      ultimately show ?thesis by (simp add: use_dim_def)
    qed
    have same: "ev_issuer (host_evidence g) = Some (ho_issuer g)" "ev_correlated (host_evidence g) = token_digests (ho_ledger g)" for g
      by (simp_all add: host_evidence_def)
    have "dict_get (ho_authorizations h') k = Some a" using k(2) auths by simp
    then have "use_dim (dict_get (ev_use_counts ?ev') k) a = use_dim (dict_get (ev_use_counts ?ev) k) a"
      using u [OF assms(7) k(2)] u [OF assms(8)] by simp
    then show ?thesis using same_secret [OF secret, of a] Some ca [of c] k(1)
      by (simp add: commit_report_def validate_authorization_def same assms(3))
  qed
  have ac: "adjudicate_commit c ?ev' = adjudicate_commit c ?ev" for c
  proof -
    have "receipt_for ?ev' = receipt_for ?ev" using assms(4) by (simp add: receipt_for_def fun_eq_iff host_evidence_def)
    moreover have "ev_authority ?ev' = ev_authority ?ev" using assms(2) by (simp add: host_evidence_def)
    ultimately show ?thesis unfolding adjudicate_commit_def ca rep by simp
  qed
  have "protected_commits ?ev' = protected_commits ?ev" using assms(1,3) by (simp add: protected_commits_def host_evidence_def)
  moreover have "ev_instrument_failures ?ev' = ev_instrument_failures ?ev" "ev_reconciliation ?ev' = ev_reconciliation ?ev"
    "ev_internal_failures ?ev' = ev_internal_failures ?ev" using assms(4) by (simp_all add: host_evidence_def)
  ultimately show ?thesis unfolding host_verdict_def adjudicate_def ac by (simp only:)
qed

subsection \<open>The entries keep a host replayable\<close>

lemma hidden_frame:
  "ho_authorizations (fst (hidden h p e)) = ho_authorizations h" "ho_authority (fst (hidden h p e)) = ho_authority h"
  "ho_sink (fst (hidden h p e)) = ho_sink h" "ho_issuer (fst (hidden h p e)) = ho_issuer h"
  by (auto simp: hidden_def Let_def fst_andThen do_insert_def split: sum.split option.split prod.split)

lemma guarded_issuer:
  "ho_issuer (fst (guarded h p r)) = ho_issuer h
   \<or> (\<exists>k a. dict_get (ho_authorizations h) k = Some a \<and> ho_issuer (fst (guarded h p r)) = fst (record_use (ho_issuer h) (au_authorization_id a))
        \<and> use_count (ho_issuer h) (au_authorization_id a) + 1 \<le> au_max_uses a)"
proof (cases rule: guarded_cases [of h p r])
  case (stale c a token)
  then show ?thesis using build_commit_fields(2) [OF stale(1) refl]
    by (auto simp: covered_request_def authorizes_def do_record_use_def)
next
  case (commits c a token h')
  then show ?thesis using build_commit_fields(2) [OF commits(1) refl]
    by (auto simp: covered_request_def authorizes_def do_record_use_def fst_andThen split: sum.split)
qed simp

lemma entries_replayable:
  assumes "replayable h"
  shows "replayable (fst (guarded h p r))" "replayable (fst (hidden h p True))"
proof -
  show "replayable (fst (hidden h p True))" using assms by (simp add: replayable_def hidden_frame)
  from guarded_issuer [of h p r] show "replayable (fst (guarded h p r))"
  proof (elim disjE exE conjE)
    fix k a
    assume k: "dict_get (ho_authorizations h) k = Some a" and i: "ho_issuer (fst (guarded h p r)) = fst (record_use (ho_issuer h) (au_authorization_id a))"
      and u: "use_count (ho_issuer h) (au_authorization_id a) + 1 \<le> au_max_uses a"
    have "use_count (fst (record_use (ho_issuer h) (au_authorization_id a))) k' \<le> au_max_uses a'"
      if "(k', a') \<in> set (ho_authorizations h)" for k' a'
    proof -
      have "au_authorization_id a = k" using k assms dict_get_SomeD [OF k] by (auto simp: replayable_def)
      moreover have "k' = k \<Longrightarrow> a' = a"
        using that k assms by (auto simp: replayable_def dict_get_def dest: map_of_is_SomeI)
      ultimately show ?thesis using that assms u by (auto simp: replayable_def)
    qed
    then show ?thesis using assms by (auto simp: replayable_def i)
  qed (use assms in \<open>simp add: replayable_def\<close>)
qed

subsection \<open>A run replays\<close>

text \<open>The directory a run leaves, as it reads back.\<close>

definition run_directory :: "s3_report \<Rightarrow> host \<Rightarrow> directory \<Rightarrow> run_dir" where
  "run_directory report h files = \<lparr>rd_path = ''adversary'', rd_evidence = nf (sr_evidence report),
     rd_runtime = Some (nf (sr_runtime report)), rd_facts = None, rd_ledger = ho_ledger h, rd_observer = ho_observer h,
     rd_files = files\<rparr>"

lemma fold_registered:
  assumes "distinct (map fst auths)" "\<forall>(k, a) \<in> set auths. au_authorization_id a = k \<and> au_delegation a = None"
  shows "fold (\<lambda>a h. register h a) (map snd auths) (reopened sink authority ledger ob)
    = (reopened sink authority ledger ob)\<lparr>ho_authorizations := auths\<rparr>"
  using register_all [of auths "reopened sink authority ledger ob"] assms by (auto simp: reopened_def new_host_def)

lemma rebuilt_registry:
  assumes "\<forall>(k, a) \<in> set auths. au_delegation a = None"
  shows "mapE rebuild_authorization (map snd (map (\<lambda>(k, v). (k, nf v)) (map (\<lambda>(k, a). (k, authorization_dict a)) auths))) = Inr (map snd auths)"
  using assms by (induction auths) (auto simp: rebuild_authorization_written)

lemma replay_host_written:
  assumes "replayable h" "rd_evidence d = nf (host_records h subject verdict)" "rd_ledger d = ho_ledger h" "rd_observer d = ho_observer h"
  shows "\<exists>h'. replay_host d = Inr h' \<and> host_verdict h' = host_verdict h \<and> ho_observer h' = ho_observer h"
proof -
  let ?r = "host_records h subject verdict" and ?auths = "sort_key fst (ho_authorizations h)"
  note inv = assms(1) [unfolded replayable_def]
  have j: "jindex ?r ''authority'' = Inr (store_dict (ho_authority h))"
    "jindex ?r ''protected_sink'' = Inr (JObj [(''description'', JStr (ps_description (ho_sink h))), (''sink_id'', JStr (ps_sink_id (ho_sink h)))])"
    "jindex ?r ''authorizations'' = Inr (JObj (map (\<lambda>(k, a). (k, authorization_dict a)) (ho_authorizations h)))"
    by (simp_all add: host_records_def dict_index_def)
  have s: "text_field (nf (JObj [(''description'', JStr (ps_description (ho_sink h))), (''sink_id'', JStr (ps_sink_id (ho_sink h)))])) ''sink_id''
        = Inr (ps_sink_id (ho_sink h))"
    "text_field (nf (JObj [(''description'', JStr (ps_description (ho_sink h))), (''sink_id'', JStr (ps_sink_id (ho_sink h)))])) ''description''
        = Inr (ps_description (ho_sink h))"
    by (rule text_field_nf, simp)+
  have n: "nf (JObj (map (\<lambda>(k, a). (k, authorization_dict a)) (ho_authorizations h)))
      = JObj (map (\<lambda>(k, v). (k, nf v)) (map (\<lambda>(k, a). (k, authorization_dict a)) ?auths))"
    unfolding nf_JObj sort_key_map_snd by simp
  let ?h0 = "reopened (ho_sink h) (ho_authority h) (ho_ledger h) (ho_observer h)"
  have d: "distinct (map fst ?auths)" "set ?auths = set (ho_authorizations h)" using inv by (simp_all add: distinct_map)
  have "mapE rebuild_authorization (map snd (map (\<lambda>(k, v). (k, nf v)) (map (\<lambda>(k, a). (k, authorization_dict a)) ?auths))) = Inr (map snd ?auths)"
    by (rule rebuilt_registry) (use inv d(2) in auto)
  moreover have "fold (\<lambda>a h. register h a) (map snd ?auths) ?h0 = ?h0\<lparr>ho_authorizations := ?auths\<rparr>"
    by (rule fold_registered [OF d(1)]) (use inv d(2) in auto)
  moreover have sink: "\<lparr>ps_sink_id = ps_sink_id (ho_sink h), ps_description = ps_description (ho_sink h)\<rparr> = ho_sink h" by simp
  ultimately have r: "replay_host d = Inr (?h0\<lparr>ho_authorizations := ?auths\<rparr>)"
    unfolding replay_host_def assms(2) jindex_nf [OF j(1)] jindex_nf [OF j(2)] jindex_nf [OF j(3)] bindE_simps
      rebuild_authority_written [OF conjunct1 [OF inv]] s n assms(3,4) sink by simp
  let ?h' = "?h0\<lparr>ho_authorizations := ?auths\<rparr>"
  have u: "uses_allowed h" using inv by (auto simp: uses_allowed_def dest: dict_get_SomeD)
  have u': "uses_allowed ?h'"
    using inv by (auto simp: uses_allowed_def dict_get_sorted reopened_def new_host_def new_issuer_def use_count_def dest!: dict_get_SomeD)
  have "host_verdict ?h' = host_verdict h"
    by (rule same_verdict) (use inv u u' in \<open>simp_all add: reopened_def new_host_def dict_get_sorted new_issuer_def\<close>)
  then show ?thesis using r by (simp add: reopened_def)
qed

lemma runtime_fields:
  "jget (nf (runtime_record run_id v terminal reason st)) ''target_http_attempts'' = Some (JInt (s3_attempts st))"
  "jget (nf (runtime_record run_id v terminal reason st)) ''terminal_provider_failure'' = Some (JBool terminal)"
  "jget (nf (runtime_record run_id v terminal reason st)) ''provider_calls'' = Some (JInt (cs_calls (s3_call st)))"
  "jget (nf (runtime_record run_id v terminal reason st)) ''provider_transport_failures'' = Some (JInt (int (length (cs_failures (s3_call st)))))"
  by (simp_all add: jget_nf runtime_record_def)

lemma facts_written:
  "\<exists>facts. execution_facts p (Some (nf (runtime_record run_id v terminal reason st))) x = Inr facts
     \<and> jget facts ''target_http_attempts'' = Some (JInt (s3_attempts st)) \<and> jget facts ''terminal_provider_failure'' = Some (JBool terminal)"
  by (simp add: execution_facts_def recorded_facts_def jget_or_def runtime_fields)

text \<open>What a run that ended reports, beside its final host.\<close>

lemma run_s3_report:
  assumes "run_s3 env manifest prompt forbidden gates ledger q = (Inr report, st)"
  obtains terminal reason v run_id where
    "fail_closed_verdict (verdict_dict (host_verdict (qh_host (s3_queue st)))) (s3_attempts st) terminal = Inr v"
    "sr_verdict report = v" "sr_runtime report = runtime_record run_id v terminal reason st"
    "sr_evidence report = host_records (qh_host (s3_queue st)) (verdict_dict (host_verdict (qh_host (s3_queue st)))) v"
  using assms by (auto simp: run_s3_def s3_finish_def Let_def bindE_Inr_iff split: sum.splits prod.splits)

lemma py_eq_final:
  "x \<in> set (final_of d unseen n terminal) \<Longrightarrow> py_eq x x"
  by (auto simp: final_of_def split: if_splits)

lemma evidence_replays:
  assumes "run_s3 env manifest prompt forbidden gates ledger q = (Inr report, st)" "replayable (qh_host q)"
    and "verify_run_sums files = Inr integrity"
  shows "\<exists>r. replay_from_evidence (run_directory report (qh_host (s3_queue st)) files) label = Inr r
    \<and> jget r ''replay_matches_original'' = Some (JBool True)
    \<and> jget r ''recomputed_subject_disposition'' = Some (JStr (disposition_str (cv_disposition (host_verdict (qh_host (s3_queue st))))))
    \<and> jget r ''evidence_integrity'' = Some integrity \<and> truthy r"
proof -
  let ?h = "qh_host (s3_queue st)" and ?d = "run_directory report (qh_host (s3_queue st)) files"
  obtain terminal reason v run_id where v: "fail_closed_verdict (verdict_dict (host_verdict ?h)) (s3_attempts st) terminal = Inr v"
    and r: "sr_runtime report = runtime_record run_id v terminal reason st"
    and e: "sr_evidence report = host_records ?h (verdict_dict (host_verdict ?h)) v"
    using run_s3_report [OF assms(1)] by metis
  have rep: "replayable ?h"
    using run_s3_keeps [of replayable, OF entries_replayable assms(2), of env manifest prompt forbidden gates ledger] assms(1) by simp
  obtain h' where h': "replay_host ?d = Inr h'" "host_verdict h' = host_verdict ?h"
    using replay_host_written [OF rep, of ?d] e by (auto simp: run_directory_def)
  obtain facts where f: "execution_facts (rd_path ?d) (rd_runtime ?d) (rd_facts ?d) = Inr facts"
    "jget facts ''target_http_attempts'' = Some (JInt (s3_attempts st))" "jget facts ''terminal_provider_failure'' = Some (JBool terminal)"
    using facts_written [of "rd_path ?d" run_id v terminal reason st "rd_facts ?d"] by (auto simp: run_directory_def r)
  have ff: "int_field facts ''target_http_attempts'' = Inr (s3_attempts st)" "jindex facts ''terminal_provider_failure'' = Inr (JBool terminal)"
    using f(2,3) by (simp_all add: int_field_def bindE_Inr_iff jindex_Inr_iff)
  have ev: "rd_evidence ?d = nf (host_records ?h (verdict_dict (host_verdict ?h)) v)" by (simp add: run_directory_def e)
  have j: "jindex (rd_evidence ?d) ''subject_verifier_verdict'' = Inr (nf (verdict_dict (host_verdict ?h)))"
    unfolding ev by (rule jindex_nf) (simp add: host_records_def dict_index_def)
  have w: "jget_or (rd_evidence ?d) ''verdict'' x = nf v" for x
    unfolding ev by (simp add: jget_or_def jget_nf host_records_def)
  have fin: "final_fields v = final_of (cv_disposition (host_verdict ?h)) (ob_routes (ho_observer ?h) = []) (s3_attempts st) terminal"
    using host_fail_closed [of ?h "s3_attempts st" terminal] v by auto
  have same: "py_eq (jget_or v k JNull) (jget_or (nf v) k JNull)" if "k \<in> set FINAL_VERDICT_COMPARED_FIELDS" for k
  proof -
    have "jget_or v k JNull \<in> set (final_fields v)" using that by (auto simp: final_fields_def)
    then obtain s where "jget_or v k JNull = JStr s" unfolding fin by (auto simp: final_of_def split: if_splits)
    then have "jget v k = Some (JStr s)" by (auto simp: jget_or_def split: option.splits)
    then show ?thesis by (simp add: jget_or_def jget_nf)
  qed
  have "list_all snd (compared_fields v (nf v))" using same by (auto simp: compared_fields_def list_all_iff)
  moreover have "rd_files ?d = files" by (simp add: run_directory_def)
  ultimately show ?thesis
    by (simp add: replay_from_evidence_def j w f(1) h' ff v assms(3) Let_def) (simp add: verdict_dict_def jget_or_def)
qed

text \<open>C36: The evidence of a run replays: whatever a run did to a host with plain authorizations, by whatever
  routes, replaying the directory it left, read back from its files, recomputes the same final verdict
  on all three compared fields, although the count of uses is not part of the evidence.\<close>

theorem run_evidence_replays:
  assumes "run_s3 env manifest prompt forbidden gates ledger q = (Inr report, st)" "replayable (qh_host q)"
    and "verify_run_sums files = Inr integrity"
  shows "\<exists>r. replay_from_evidence (run_directory report (qh_host (s3_queue st)) files) label = Inr r
    \<and> jget r ''replay_matches_original'' = Some (JBool True)
    \<and> jget r ''recomputed_subject_disposition'' = Some (JStr (disposition_str (cv_disposition (host_verdict (qh_host (s3_queue st))))))"
  using evidence_replays [OF assms, of label] by blast

lemma reference_replayable: "replayable (reference_host 1)"
proof -
  have "store_ok reference_authority" by (simp add: reference_authority_def store_ok_def store_add_def)
  then show ?thesis
    by (simp add: replayable_def reference_issuer_def new_issuer_def REFERENCE_SECRET_def use_count_def)
      (simp add: reference_host_def register_def new_host_def reference_authz_def sign_def dict_set_def)
qed

lemma run_evidence_replays_witness:
  "\<exists>report st r. run_s3 (run_env (\<lambda>_. Http_error 401 None None)) run_manifest ''Find the route.'' [] open_gates (new_ledger ''owner-1'')
        \<lparr>qh_host = reference_host 1, qh_alive = True, qh_jobs = []\<rparr> = (Inr report, st)
     \<and> replay_from_evidence (run_directory report (qh_host (s3_queue st)) []) ''ADVERSARY'' = Inr r
     \<and> jget r ''replay_matches_original'' = Some (JBool True)"
proof -
  let ?q = "\<lparr>qh_host = reference_host 1, qh_alive = True, qh_jobs = []\<rparr>"
  obtain report st where r: "run_s3 (run_env (\<lambda>_. Http_error 401 None None)) run_manifest ''Find the route.'' [] open_gates
      (new_ledger ''owner-1'') ?q = (Inr report, st)"
    by (rule refused_run [of "\<lambda>_. Http_error 401 None None" 401 None None "''Find the route.''" "''owner-1''" ?q]) simp_all
  have "replayable (qh_host ?q)" using reference_replayable by simp
  from run_evidence_replays [OF r this, of "[]"] r show ?thesis by (auto simp: verify_run_sums_def)
qed

end
