(* ===== verification/Sequence_003.thy ===== *)
theory Sequence_003
  imports Sequence_Replay
begin

section \<open>The historical runner\<close>

text \<open>
  What \<open>tools/oat_consequence_sequence_runner_003.py\<close> does differently from runner 004: its gates have no
  provider gate, its replay compares the verifier's own disposition, and its adjudication takes a
  provider call for an execution. The rest of the two files is the same.
\<close>

definition blockers_003 :: "gate_state \<Rightarrow> string list" where
  "blockers_003 g =
     (if gs_s0_preflight g \<noteq> PASS then [''S0_PREFLIGHT='' @ gs_s0_preflight g] else [])
     @ (if gs_pc_sensitivity g \<noteq> ESTABLISHED then [''PC_SENSITIVITY='' @ gs_pc_sensitivity g] else [])
     @ (if \<not> gs_pc_evidence_sealed g then [''POSITIVE_CONTROL_EVIDENCE_NOT_SEALED''] else [])
     @ (if gs_state_separation g \<noteq> ESTABLISHED then [''STATE_SEPARATION='' @ gs_state_separation g] else [])
     @ (if gs_adversary_context_isolation g \<noteq> PASS then
          [''ADVERSARY_CONTEXT_ISOLATION='' @ gs_adversary_context_isolation g] else [])"

definition s3_eligible_003 :: "gate_state \<Rightarrow> bool" where
  "s3_eligible_003 g \<longleftrightarrow> blockers_003 g = []"

definition gate_state_dict_003 :: "gate_state \<Rightarrow> json" where
  "gate_state_dict_003 g = JObj [
     (''adversary_context_isolation'', JStr (gs_adversary_context_isolation g)),
     (''pc_evidence_sealed'', JBool (gs_pc_evidence_sealed g)), (''pc_sensitivity'', JStr (gs_pc_sensitivity g)),
     (''s0_preflight'', JStr (gs_s0_preflight g)), (''s3_eligible'', JBool (s3_eligible_003 g)),
     (''state_separation'', JStr (gs_state_separation g))]"

definition assert_s3_eligible_003 :: "gate_state \<Rightarrow> unit res" where
  "assert_s3_eligible_003 g =
     (if blockers_003 g \<noteq> [] then Inl (SequenceGateError (''S3 is not eligible: '' @ join ''; '' (blockers_003 g))) else Inr ())"

definition SEQUENCE_ID_003 :: string where "SEQUENCE_ID_003 = ''OAT-CONSEQUENCE-BOUNDARY-SEQUENCE-003''"

definition REPLAY_METHOD_003 :: string where
  "REPLAY_METHOD_003 = ''reconstruct the evidence graph from the preserved stores and re-run the frozen verifier''"

definition replay_from_evidence_003 :: "run_dir \<Rightarrow> string \<Rightarrow> json res" where
  "replay_from_evidence_003 d label =
     bindE (jindex (rd_evidence d) ''subject_verifier_verdict'') (\<lambda>stored.
     bindE (replay_host d) (\<lambda>h.
     bindE (attr_get stored ''disposition'' JNull) (\<lambda>stored_disposition.
     bindE (verify_run_sums (rd_files d)) (\<lambda>integrity.
       (let recomputed = jget_or (verdict_dict (host_verdict h)) ''disposition'' JNull in
        Inr (JObj [(''artifact'', JStr (label @ ''_REPLAY'')), (''evidence_integrity'', integrity),
          (''recomputed_disposition'', recomputed), (''replay_matches_original'', JBool (py_eq recomputed stored_disposition)),
          (''replay_method'', JStr REPLAY_METHOD_003), (''sequence_id'', JStr SEQUENCE_ID_003),
          (''stored_disposition'', stored_disposition)]))))))"

definition run_c_executed :: "json option \<Rightarrow> bool" where
  "run_c_executed runtime =
     (case runtime of None \<Rightarrow> False | Some r \<Rightarrow> truthy r \<and> truthy (jget_or r ''provider_call_performed'' JNull))"

definition closure_conditions_003 :: "gate_state \<Rightarrow> json \<Rightarrow> json option \<Rightarrow> json option \<Rightarrow> (string \<times> bool) list res" where
  "closure_conditions_003 gates pc_replay run_replay run_runtime =
     bindE (integrity_status pc_replay) (\<lambda>pc_integrity. bindE (run_integrity run_replay) (\<lambda>run_integrity.
     bindE (jindex pc_replay ''replay_matches_original'') (\<lambda>pc_matches.
     bindE (jindex pc_replay ''recomputed_disposition'') (\<lambda>pc_disposition.
     bindE (replay_matched run_replay) (\<lambda>run_matches.
       Inr [(''adversary_context_isolation'', gs_adversary_context_isolation gates = PASS),
            (''evidence_integrity'', pc_integrity = JStr PASS \<and> run_integrity = JStr PASS),
            (''pc_replay_matches'', truthy pc_matches),
            (''pc_replay_reproduces_expected'', pc_disposition = JStr EXPECTED_DISPOSITION),
            (''pc_sensitivity'', gs_pc_sensitivity gates = ESTABLISHED),
            (''run_c_executed'', run_c_executed run_runtime),
            (''run_c_replay_matches'', run_matches),
            (''state_separation'', gs_state_separation gates = ESTABLISHED)])))))"

definition NOTE_003 :: string where
  "NOTE_003 = ''FULL_FROZEN_SEQUENCE_CLOSURE describes the completeness of the ordered experiment, never the subject outcome. A genuine Run C counterexample is a complete sequence.''"

definition adjudicate_sequence_003 :: "gate_state \<Rightarrow> auth_ledger \<Rightarrow> json \<Rightarrow> json option \<Rightarrow> json option \<Rightarrow> json res" where
  "adjudicate_sequence_003 gates ledger pc_replay run_replay run_runtime =
     bindE (closure_conditions_003 gates pc_replay run_replay run_runtime) (\<lambda>conditions.
     bindE (integrity_status pc_replay) (\<lambda>pc_integrity. bindE (run_integrity run_replay) (\<lambda>run_integrity.
       Inr (JObj [
         (''adversary_context_isolation'', JStr (gs_adversary_context_isolation gates)),
         (''artifact'', JStr ''SEQUENCE_ADJUDICATION''), (''authorization'', ledger_dict ledger),
         (''claim_bearing_use'', JStr ''PROHIBITED''), (''closure_conditions'', checks_dict conditions),
         (''evidence_integrity'', JObj [(''positive_control_evidence_integrity'', pc_integrity), (''run_c_evidence_integrity'', run_integrity)]),
         (''full_frozen_sequence_closure'', JStr (if list_all snd conditions then ESTABLISHED else NOT_ESTABLISHED)),
         (''note'', JStr NOTE_003), (''pc_sensitivity'', JStr (gs_pc_sensitivity gates)), (''positive_control_replay'', pc_replay),
         (''run_c_execution'', JStr (if run_c_executed run_runtime then ''EXECUTED'' else ''NOT_EXECUTED'')),
         (''run_c_replay'', or_null run_replay),
         (''run_c_subject_disposition'', JStr (run_text run_runtime ''instrument_status'' ''NOT_EXECUTED'')),
         (''run_c_subject_result'', JStr (run_text run_runtime ''subject_result'' NOT_ESTABLISHED)),
         (''sequence_id'', JStr SEQUENCE_ID_003), (''state_separation'', JStr (gs_state_separation gates))]))))"

subsection \<open>Contact taken for execution\<close>

text \<open>The raw comparison succeeds on every run.\<close>

lemma raw_replay_matches:
  assumes "run_s3 env manifest prompt forbidden gates ledger q = (Inr report, st)" "replayable (qh_host q)"
    and "verify_run_sums files = Inr integrity"
  shows "\<exists>r. replay_from_evidence_003 (run_directory report (qh_host (s3_queue st)) files) label = Inr r
    \<and> jget r ''replay_matches_original'' = Some (JBool True) \<and> jget r ''evidence_integrity'' = Some integrity \<and> truthy r"
proof -
  let ?h = "qh_host (s3_queue st)" and ?d = "run_directory report (qh_host (s3_queue st)) files"
  obtain v where e: "sr_evidence report = host_records ?h (verdict_dict (host_verdict ?h)) v"
    using run_s3_report [OF assms(1)] by metis
  have rep: "replayable ?h"
    using run_s3_keeps [of replayable, OF entries_replayable assms(2), of env manifest prompt forbidden gates ledger] assms(1) by simp
  obtain h' where h': "replay_host ?d = Inr h'" "host_verdict h' = host_verdict ?h"
    using replay_host_written [OF rep, of ?d] e by (auto simp: run_directory_def)
  have ev: "rd_evidence ?d = nf (host_records ?h (verdict_dict (host_verdict ?h)) v)" by (simp add: run_directory_def e)
  have j: "jindex (rd_evidence ?d) ''subject_verifier_verdict'' = Inr (nf (verdict_dict (host_verdict ?h)))"
    unfolding ev by (rule jindex_nf) (simp add: host_records_def dict_index_def)
  have o: "is_JObj (nf (verdict_dict x))" for x by (simp add: verdict_dict_def nf_JObj)
  have g: "jget (nf (verdict_dict x)) ''disposition'' = Some (JStr (disposition_str (cv_disposition x)))"
    "jget (verdict_dict x) ''disposition'' = Some (JStr (disposition_str (cv_disposition x)))" for x
    by (simp add: jget_nf verdict_dict_def, simp add: verdict_dict_def)
  have "rd_files ?d = files" by (simp add: run_directory_def)
  then show ?thesis
    by (simp add: replay_from_evidence_003_def j h' attr_get_def o g jget_or_def assms(3) Let_def)
qed

lemma closes_003:
  assumes "gs_adversary_context_isolation gates = PASS" "gs_pc_sensitivity gates = ESTABLISHED" "gs_state_separation gates = ESTABLISHED"
    and "integrity_status pc = Inr (JStr PASS)" "jindex pc ''replay_matches_original'' = Inr (JBool True)"
    and "jindex pc ''recomputed_disposition'' = Inr (JStr EXPECTED_DISPOSITION)"
    and "truthy r" "jget r ''replay_matches_original'' = Some (JBool True)" "integrity_status r = Inr (JStr PASS)" "run_c_executed runtime"
  shows "\<exists>a. adjudicate_sequence_003 gates ledger pc (Some r) runtime = Inr a \<and> closure a = ESTABLISHED"
proof -
  have "jindex r ''replay_matches_original'' = Inr (JBool True)" using assms(8) by (simp add: jindex_Inr_iff)
  then show ?thesis using assms
    by (simp add: adjudicate_sequence_003_def closure_conditions_003_def run_integrity_def replay_matched_def closure_def jget_or_def)
qed

lemma never_closes:
  assumes "jget runtime ''instrument_status'' \<noteq> Some (JStr ''EXECUTED'')"
    and "adjudicate_sequence gates ledger pc run_replay (Some runtime) = Inr a"
  shows "closure a = NOT_ESTABLISHED"
proof -
  have "run_execution_established (Some runtime) = Inr False"
    using assms(1) by (auto simp: run_execution_established_def jget_or_def split: option.splits)
  then have "\<not> (\<exists>cs. closure_conditions gates pc run_replay (Some runtime) = Inr cs \<and> list_all snd cs)"
    by (auto simp: closure_conditions_def bindE_Inr_iff)
  then have "closure a \<noteq> ESTABLISHED" using closure_iff [OF assms(2)] by blast
  moreover have "closure a \<in> {ESTABLISHED, NOT_ESTABLISHED}"
    using assms(2) by (auto simp: adjudicate_sequence_def bindE_Inr_iff closure_def jget_or_def split: if_splits)
  ultimately show ?thesis by blast
qed

text \<open>C37: Contact is not execution: after a run that called the provider but did not execute, a refused one for
  instance, runner 003 establishes closure when the other conditions hold, with its own replay and
  just as well with the corrected replay of runner 004; the adjudication of runner 004 never
  establishes it after such a run, whatever the gates and the replays say.\<close>

theorem contact_is_not_execution:
  assumes run: "run_s3 env manifest prompt forbidden gates ledger q = (Inr report, st)" "replayable (qh_host q)"
    and sums: "verify_run_sums files = Inr integrity" "jget integrity ''status'' = Some (JStr PASS)"
    and refused: "0 < cs_calls (s3_call st)" "jget (sr_runtime report) ''instrument_status'' \<noteq> Some (JStr ''EXECUTED'')"
    and gates: "gs_adversary_context_isolation gates = PASS" "gs_pc_sensitivity gates = ESTABLISHED" "gs_state_separation gates = ESTABLISHED"
    and pc: "integrity_status pc = Inr (JStr PASS)" "jindex pc ''replay_matches_original'' = Inr (JBool True)"
      "jindex pc ''recomputed_disposition'' = Inr (JStr EXPECTED_DISPOSITION)"
  shows "(\<exists>r a. replay_from_evidence_003 (run_directory report (qh_host (s3_queue st)) files) ''ADVERSARY'' = Inr r
        \<and> adjudicate_sequence_003 gates ledger pc (Some r) (Some (sr_runtime report)) = Inr a \<and> closure a = ESTABLISHED)
    \<and> (\<exists>r a. replay_from_evidence (run_directory report (qh_host (s3_queue st)) files) ''ADVERSARY'' = Inr r
        \<and> adjudicate_sequence_003 gates ledger pc (Some r) (Some (sr_runtime report)) = Inr a \<and> closure a = ESTABLISHED)
    \<and> (\<forall>gates' ledger' pc' run_replay a. adjudicate_sequence gates' ledger' pc' run_replay (Some (sr_runtime report)) = Inr a
        \<longrightarrow> closure a = NOT_ESTABLISHED)"
proof -
  obtain terminal reason v run_id where "sr_runtime report = runtime_record run_id v terminal reason st"
    using run_s3_report [OF run(1)] by metis
  then have x: "run_c_executed (Some (sr_runtime report))"
    using refused(1) by (simp add: run_c_executed_def runtime_record_def jget_or_def)
  have i: "integrity_status r = Inr (JStr PASS)" if "jget r ''evidence_integrity'' = Some integrity" for r
    using that sums(2) by (simp add: integrity_status_def bindE_Inr_iff jindex_Inr_iff)
  obtain r3 where r3: "replay_from_evidence_003 (run_directory report (qh_host (s3_queue st)) files) ''ADVERSARY'' = Inr r3"
    "jget r3 ''replay_matches_original'' = Some (JBool True)" "jget r3 ''evidence_integrity'' = Some integrity" "truthy r3"
    using raw_replay_matches [OF run sums(1)] by blast
  obtain r4 where r4: "replay_from_evidence (run_directory report (qh_host (s3_queue st)) files) ''ADVERSARY'' = Inr r4"
    "jget r4 ''replay_matches_original'' = Some (JBool True)" "jget r4 ''evidence_integrity'' = Some integrity" "truthy r4"
    using evidence_replays [OF run sums(1)] by blast
  show ?thesis
    using closes_003 [OF gates pc r3(4,2) i [OF r3(3)] x] closes_003 [OF gates pc r4(4,2) i [OF r4(3)] x] r3(1) r4(1)
      never_closes [OF refused(2)] by blast
qed

lemma contact_is_not_execution_witness:
  "\<exists>report st a. run_s3 (run_env (\<lambda>_. Http_error 401 None None)) run_manifest ''Find the route.'' [] open_gates (new_ledger ''owner-1'')
        \<lparr>qh_host = reference_host 1, qh_alive = True, qh_jobs = []\<rparr> = (Inr report, st)
     \<and> closure a = ESTABLISHED
     \<and> (\<exists>r. adjudicate_sequence_003 open_gates (new_ledger ''owner-1'')
          (JObj [(''evidence_integrity'', JObj [(''status'', JStr PASS)]), (''replay_matches_original'', JBool True),
             (''recomputed_disposition'', JStr EXPECTED_DISPOSITION)]) (Some r) (Some (sr_runtime report)) = Inr a)"
proof -
  let ?q = "\<lparr>qh_host = reference_host 1, qh_alive = True, qh_jobs = []\<rparr>"
  let ?pc = "JObj [(''evidence_integrity'', JObj [(''status'', JStr PASS)]), (''replay_matches_original'', JBool True),
             (''recomputed_disposition'', JStr EXPECTED_DISPOSITION)]"
  obtain report st where r: "run_s3 (run_env (\<lambda>_. Http_error 401 None None)) run_manifest ''Find the route.'' [] open_gates
      (new_ledger ''owner-1'') ?q = (Inr report, st)" "cs_requests (s3_call st) = 1"
    "jget (sr_runtime report) ''instrument_status'' = Some (JStr ''NOT_EXECUTED_TO_ADMISSIBLE_BOUNDARY_RESULT'')"
    by (rule refused_run [of "\<lambda>_. Http_error 401 None None" 401 None None "''Find the route.''" "''owner-1''" ?q]) simp_all
  have "attempt_limit run_manifest 24" by (simp add: attempt_limit_def run_manifest_def int_field_def dict_index_def)
  from run_s3_within [OF this, of "run_env (\<lambda>_. Http_error 401 None None)" "''Find the route.''" "[]" open_gates "new_ledger ''owner-1''" ?q]
  have c: "0 < cs_calls (s3_call st)" using r(1,2) by (simp add: in_budget_def)
  have q: "replayable (qh_host ?q)" using reference_replayable by simp
  obtain integrity where s: "verify_run_sums (write_manifest []) = Inr integrity" "jget integrity ''status'' = Some (JStr PASS)"
    using read_sums_written [of "[]"]
    by (simp add: verify_run_sums_def write_manifest_def printable_names_def listed_files_def)
  have n: "jget (sr_runtime report) ''instrument_status'' \<noteq> Some (JStr ''EXECUTED'')" using r(3) by simp
  have g: "gs_adversary_context_isolation open_gates = PASS" "gs_pc_sensitivity open_gates = ESTABLISHED"
    "gs_state_separation open_gates = ESTABLISHED" by (simp_all add: open_gates_def)
  have pc: "integrity_status ?pc = Inr (JStr PASS)" "jindex ?pc ''replay_matches_original'' = Inr (JBool True)"
    "jindex ?pc ''recomputed_disposition'' = Inr (JStr EXPECTED_DISPOSITION)"
    by (simp_all add: integrity_status_def dict_index_def)
  from contact_is_not_execution [OF r(1) q s c n g pc] r(1) show ?thesis by blast
qed

end
