(* ===== verification/Provider_Preflight.thy ===== *)
theory Provider_Preflight
  imports Sequence_Gates Nim_Qualification
begin

section \<open>The provider preflight\<close>

text \<open>
  \<open>tools/oat_nvidia_provider_preflight.py\<close>: the one request that probes the credential, the endpoint, the
  model and the stream, its record, and the check before the record is written. The credential, the
  clock, the time stamp and the HTTP client are arguments; the stream reader is that of the sequence
  runner, which has the same code.
\<close>

definition TOOL_VERSION :: string where "TOOL_VERSION = ''1.0.0''"
definition CREDENTIAL_ENV :: string where "CREDENTIAL_ENV = ''NVIDIA_API_KEY''"
definition PREFLIGHT_PROMPT :: string where "PREFLIGHT_PROMPT = ''Return exactly OK.''"
definition MAX_TOKENS :: int where "MAX_TOKENS = 16"

subsection \<open>Reading the answer\<close>

definition preflight_payloads :: "string \<Rightarrow> string list" where
  "preflight_payloads raw = (case data_payloads (ValueError ''UnicodeDecodeError'') raw of Inl _ \<Rightarrow> [] | Inr ps \<Rightarrow> ps)"

definition preflight_read :: "sse_response \<Rightarrow> string \<times> bool" where
  "preflight_read answer =
     (case answer of Lines ls \<Rightarrow> read_lines [] ls | Whole raw \<Rightarrow> (raw, DONE \<in> set (preflight_payloads raw)))"

fun last_model :: "string \<Rightarrow> string list \<Rightarrow> string" where
  "last_model model [] = model"
| "last_model model (data # ds) =
     (if data = DONE then last_model model ds
      else (case json_loads data of
          Inr (JObj payload) \<Rightarrow>
            (let m = jget_or (JObj payload) ''model'' JNull in last_model (if truthy m then py_str m else model) ds)
        | _ \<Rightarrow> last_model model ds))"

definition returned_model :: "string \<Rightarrow> string" where
  "returned_model raw = last_model [] (preflight_payloads raw)"

definition error_summary :: "json \<Rightarrow> json option" where
  "error_summary value =
     (case value of
        JObj kvs \<Rightarrow> (case jget_or (JObj kvs) ''error'' JNull of
            JObj e \<Rightarrow> Some (JObj [(''type'', jget_or (JObj e) ''type'' JNull), (''code'', jget_or (JObj e) ''code'' JNull)])
          | _ \<Rightarrow> None)
      | _ \<Rightarrow> None)"

fun event_error :: "string list \<Rightarrow> json option" where
  "event_error [] = None"
| "event_error (data # ds) =
     (if data = DONE then event_error ds
      else (case json_loads data of
          Inl _ \<Rightarrow> event_error ds
        | Inr event \<Rightarrow> (case error_summary event of None \<Rightarrow> event_error ds | Some e \<Rightarrow> Some e)))"

definition provider_error :: "string \<Rightarrow> json option" where
  "provider_error raw =
     (case (if utf8_valid raw then json_loads raw else Inl (ValueError ''UnicodeDecodeError'')) of
        Inl _ \<Rightarrow> event_error (preflight_payloads raw)
      | Inr value \<Rightarrow> (case error_summary value of Some e \<Rightarrow> Some e | None \<Rightarrow> event_error (preflight_payloads raw)))"

subsection \<open>The classification\<close>

definition classify :: "int option \<Rightarrow> bool \<Rightarrow> bool \<Rightarrow> string" where
  "classify status done model_ok =
     (if status = Some 401 \<or> status = Some 403 then ''AUTHENTICATION_FAILURE''
      else if status = Some 404 then ''MODEL_OR_ENDPOINT_NOT_FOUND''
      else if status = Some 429 then ''RATE_LIMITED''
      else (case status of
          None \<Rightarrow> ''TRANSPORT_FAILURE''
        | Some s \<Rightarrow>
            if s \<ge> 500 then ''PROVIDER_SERVER_ERROR''
            else if s \<ge> 400 then ''PROVIDER_CLIENT_ERROR''
            else if \<not> done then ''STREAM_INCOMPLETE''
            else if \<not> model_ok then ''MODEL_MISMATCH''
            else ''PROVIDER_TRANSPORT_OK''))"

subsection \<open>The request\<close>

text \<open>
  What the request meets. An answer may break off, with a timeout or another failure, after some of
  its lines; a break after the end marker is not noticed.
\<close>

datatype preflight_outcome =
    Pf_answer int headers sse_response
  | Pf_broken int headers "string list" bool
  | Pf_error int "headers option" "string option"
  | Pf_failed bool
  | Pf_raised string

record preflight_env =
  pf_key :: string
  pf_http :: "string \<Rightarrow> preflight_outcome"
  pf_clock :: "nat \<Rightarrow> rat"
  pf_timestamp :: string

definition preflight_body :: string where
  "preflight_body =
     (let member = (\<lambda>k v. enc_str k @ '':'' @ v) in
      ''{'' @ join '','' [member ''max_tokens'' (dumps (JInt MAX_TOKENS)),
        member ''messages'' (dumps (JList [JObj [(''role'', JStr ''user''), (''content'', JStr PREFLIGHT_PROMPT)]])),
        member ''model'' (dumps (JStr MODEL)), member ''stream'' (dumps (JBool True)), member ''temperature'' (float_repr 0)] @ ''}'')"

definition base_record :: "preflight_env \<Rightarrow> bool \<Rightarrow> (string \<times> json) list" where
  "base_record env credential_present =
     [(''artifact'', JStr ''PROVIDER_PREFLIGHT''), (''claim_bearing_use'', JStr ''PROHIBITED''),
      (''consumes_owner_experiment_authorization'', JBool False), (''credential_environment_variable'', JStr CREDENTIAL_ENV),
      (''credential_present'', JBool credential_present), (''credential_value_persisted'', JBool False),
      (''endpoint'', JStr ENDPOINT), (''frozen_target_touched'', JBool False), (''is_oat_experiment'', JBool False),
      (''model'', JStr MODEL), (''provider'', JStr ''NVIDIA NIM API''), (''timestamp_utc'', JStr (pf_timestamp env)),
      (''tool_id'', JStr PROVIDER_PREFLIGHT_TOOL_ID), (''tool_version'', JStr TOOL_VERSION)]"

text \<open>The status, the headers, the bytes, whether the stream ended, and the reason of a failure.\<close>

record reading =
  rg_status :: "int option"
  rg_headers :: json
  rg_raw :: string
  rg_done :: bool
  rg_reason :: "string option"

definition failure_reason :: "bool \<Rightarrow> string" where
  "failure_reason timed_out = (if timed_out then ''provider call timed out'' else ''could not connect to the provider endpoint'')"

definition reading_of :: "preflight_outcome \<Rightarrow> reading res" where
  "reading_of outcome =
     (case outcome of
        Pf_answer status hs answer \<Rightarrow>
          (let (raw, done) = preflight_read answer in
           Inr \<lparr>rg_status = Some status, rg_headers = allowed_provider_headers (Some hs), rg_raw = raw, rg_done = done, rg_reason = None\<rparr>)
      | Pf_broken status hs ls timed_out \<Rightarrow>
          (let (raw, done) = read_lines [] ls in
           Inr \<lparr>rg_status = Some status, rg_headers = allowed_provider_headers (Some hs), rg_raw = raw, rg_done = done,
                rg_reason = (if done then None else Some (failure_reason timed_out))\<rparr>)
      | Pf_error status hs body \<Rightarrow>
          Inr \<lparr>rg_status = Some status, rg_headers = allowed_provider_headers hs,
               rg_raw = (case body of None \<Rightarrow> [] | Some b \<Rightarrow> b), rg_done = False, rg_reason = None\<rparr>
      | Pf_failed timed_out \<Rightarrow>
          Inr \<lparr>rg_status = None, rg_headers = JObj [], rg_raw = [], rg_done = False, rg_reason = Some (failure_reason timed_out)\<rparr>
      | Pf_raised m \<Rightarrow> Inl (HTTPException m))"

definition model_matches :: "reading \<Rightarrow> bool" where
  "model_matches r \<longleftrightarrow> returned_model (rg_raw r) = MODEL"

definition preflight_ok :: "reading \<Rightarrow> bool" where
  "preflight_ok r \<longleftrightarrow> rg_status r = Some 200 \<and> rg_done r \<and> model_matches r"

definition reading_record :: "preflight_env \<Rightarrow> reading \<Rightarrow> (string \<times> json) list" where
  "reading_record env r =
     base_record env True @ [(''request_digest'', JStr (sha256_hex preflight_body))]
     @ (case rg_reason r of None \<Rightarrow> [] | Some m \<Rightarrow> [(''reason'', JStr m)])
     @ [(''classification'', JStr (classify (rg_status r) (rg_done r) (model_matches r))),
        (''elapsed_ms'', JInt (elapsed_ms (pf_clock env 1) (pf_clock env 0))),
        (''http_status'', case rg_status r of None \<Rightarrow> JNull | Some s \<Rightarrow> JInt s),
        (''preflight_status'', JStr (if preflight_ok r then PASS else FAIL)),
        (''provider_error'', or_null (provider_error (rg_raw r))), (''response_bytes'', JInt (int (length (rg_raw r)))),
        (''response_digest'', JStr (sha256_hex (rg_raw r))), (''response_headers'', rg_headers r),
        (''returned_model'', JStr (returned_model (rg_raw r))), (''returned_model_matches_bound_model'', JBool (model_matches r)),
        (''stream_done_observed'', JBool (rg_done r))]"

definition run_preflight :: "preflight_env \<Rightarrow> (string \<times> json) list res" where
  "run_preflight env =
     (if pf_key env = [] then
        Inr (base_record env False @ [(''classification'', JStr ''CREDENTIAL_ABSENT''), (''http_status'', JNull),
          (''preflight_status'', JStr FAIL), (''reason'', JStr (CREDENTIAL_ENV @ '' is not set in the environment'')),
          (''stream_done_observed'', JBool False)])
      else bindE (reading_of (pf_http env preflight_body)) (\<lambda>r. Inr (reading_record env r)))"

text \<open>\<open>json.dumps(record, sort_keys=True, indent=2, ensure_ascii=False)\<close>.\<close>

fun indented :: "nat \<Rightarrow> json \<Rightarrow> string" where
  "indented n JNull = ''null''"
| "indented n (JBool b) = (if b then ''true'' else ''false'')"
| "indented n (JInt i) = str_of_int i"
| "indented n (JStr s) = enc_str s"
| "indented n (JList xs) = bracketed indent_style n (CHR ''['') (CHR '']'') (map (indented (Suc n)) xs)"
| "indented n (JTuple xs) = bracketed indent_style n (CHR ''['') (CHR '']'') (map (indented (Suc n)) xs)"
| "indented n (JObj kvs) = bracketed indent_style n (CHR ''{'') (CHR ''}'')
     (map (\<lambda>(k, e). enc_str k @ '': '' @ e) (ordered indent_style (map (\<lambda>(k, v). (k, indented (Suc n) v)) kvs)))"

text \<open>The file written and the exit code.\<close>

definition preflight_main :: "preflight_env \<Rightarrow> (string \<times> nat) res" where
  "preflight_main env =
     bindE (run_preflight env) (\<lambda>r.
       (let serialized = indented 0 (JObj r) in
        if pf_key env \<noteq> [] \<and> contains_str (pf_key env) serialized then
          Inl (SystemExit ''refusing to write preflight artifact: credential present in output'')
        else Inr (serialized @ [CHR 0x0A], if dict_get r ''preflight_status'' = Some (JStr PASS) then 0 else 1)))"

subsection \<open>What opens the gate\<close>

lemma reading_record_gets:
  "dict_get (reading_record env r) ''endpoint'' = Some (JStr ENDPOINT)" "dict_get (reading_record env r) ''model'' = Some (JStr MODEL)"
  "dict_get (reading_record env r) ''tool_id'' = Some (JStr PROVIDER_PREFLIGHT_TOOL_ID)"
  "dict_get (reading_record env r) ''preflight_status'' = Some (JStr (if preflight_ok r then PASS else FAIL))"
  "dict_get (reading_record env r) ''stream_done_observed'' = Some (JBool (rg_done r))"
  by (simp_all add: reading_record_def base_record_def split: option.split)

text \<open>C34: The gate opens on a completed answer of the frozen model and on nothing else: a record of the
  preflight passes the qualification's gate exactly when a credential was present, the provider
  answered with status 200, the stream reached its end marker and the last model it named is the
  frozen one; and exactly then the tool exits with 0, if it may write the record.\<close>

theorem preflight_opens_gate:
  assumes "run_preflight env = Inr r"
  shows "(jget (verify_qualification_preflight r) ''status'' = Some (JStr PASS) \<longleftrightarrow>
        pf_key env \<noteq> [] \<and> (\<exists>x. reading_of (pf_http env preflight_body) = Inr x \<and> rg_status x = Some 200 \<and> rg_done x
          \<and> returned_model (rg_raw x) = MODEL))
    \<and> (\<forall>text code. preflight_main env = Inr (text, code) \<longrightarrow>
        (code = 0 \<longleftrightarrow> jget (verify_qualification_preflight r) ''status'' = Some (JStr PASS)))"
proof (cases "pf_key env = []")
  case True
  then have "dict_get r ''preflight_status'' = Some (JStr FAIL)" using assms by (auto simp: run_preflight_def base_record_def)
  moreover from this have "jget (verify_qualification_preflight r) ''status'' \<noteq> Some (JStr PASS)"
    unfolding qualification_gate_iff by (simp add: PASS_def FAIL_def)
  ultimately show ?thesis using True assms by (auto simp: preflight_main_def Let_def PASS_def FAIL_def)
next
  case False
  then obtain x where x: "reading_of (pf_http env preflight_body) = Inr x" "r = reading_record env x"
    using assms by (auto simp: run_preflight_def bindE_Inr_iff)
  have g: "jget (verify_qualification_preflight r) ''status'' = Some (JStr PASS) \<longleftrightarrow> preflight_ok x"
    unfolding qualification_gate_iff x(2) using reading_record_gets [of env x]
    by (auto simp: jget_or_def preflight_ok_def PASS_def FAIL_def)
  have s: "dict_get r ''preflight_status'' = Some (JStr (if preflight_ok x then PASS else FAIL))"
    unfolding x(2) by (rule reading_record_gets)
  show ?thesis unfolding g using False x(1) assms s
    by (auto simp: preflight_main_def Let_def preflight_ok_def model_matches_def PASS_def FAIL_def split: if_splits)
qed

text \<open>The stream of a provider that names its model.\<close>

definition model_doc :: "string \<Rightarrow> json" where
  "model_doc m = JObj [(''choices'', JList []), (''model'', JStr m)]"

lemma model_doc_text:
  assumes "ascii m"
  shows "sound_data (json_text plain_style (model_doc m))" "json_loads (json_text plain_style (model_doc m)) = Inr (model_doc m)"
    "json_text plain_style (model_doc m) \<noteq> DONE"
proof -
  have a: "ascii_doc (model_doc m)" using assms by (simp add: model_doc_def) (simp add: ascii_def)
  have "list_all printable (json_text plain_style (model_doc m))"
    unfolding list_all_iff json_text_def using emit_printable [OF a, of plain_style] by blast
  then show "sound_data (json_text plain_style (model_doc m))"
    by (simp add: sound_data_def plain_line_def) (simp add: json_text_def model_doc_def bracketed_def)
  have "json_loads (json_text plain_style (model_doc m)) = Inr (reread plain_style (model_doc m))"
    by (rule json_text_reads [OF a]) simp
  then show "json_loads (json_text plain_style (model_doc m)) = Inr (model_doc m)"
    by (simp add: model_doc_def ordered_def plain_style_def)
  show "json_text plain_style (model_doc m) \<noteq> DONE" by (simp add: json_text_def model_doc_def bracketed_def DONE_def)
qed

definition model_answer :: "string \<Rightarrow> preflight_outcome" where
  "model_answer m = Pf_answer 200 [] (Lines (stream_lines [json_text plain_style (model_doc m), DONE]))"

lemma model_answer_read:
  assumes "ascii m" "m \<noteq> []"
  shows "\<exists>x. reading_of (model_answer m) = Inr x \<and> rg_status x = Some 200 \<and> rg_done x \<and> returned_model (rg_raw x) = m"
proof -
  let ?d = "json_text plain_style (model_doc m)"
  have s: "list_all sound_data [?d, DONE]"
    using model_doc_text(1) [OF assms(1)] by (simp add: sound_data_def plain_line_def DONE_def printable_def)
  have r: "read_lines [] (stream_lines [?d, DONE]) = (concat (stream_lines [?d, DONE]), True)"
    using read_stream [of "[?d]" "[]"] model_doc_text(1) [OF assms(1)] model_doc_text(3) [OF assms(1)] by auto
  have "returned_model (concat (stream_lines [?d, DONE])) = m"
    using payloads_of_stream [OF s] model_doc_text(2,3) [OF assms(1)] assms(2)
    by (simp add: returned_model_def preflight_payloads_def) (simp add: model_doc_def jget_or_def)
  then show ?thesis using r by (simp add: model_answer_def reading_of_def preflight_read_def)
qed

lemma preflight_opens_gate_witness:
  "\<exists>r. run_preflight \<lparr>pf_key = ''key'', pf_http = \<lambda>_. model_answer MODEL, pf_clock = \<lambda>_. 0, pf_timestamp = ''2026-09-20T00:00:00Z''\<rparr> = Inr r
     \<and> jget (verify_qualification_preflight r) ''status'' = Some (JStr PASS)"
proof -
  let ?env = "\<lparr>pf_key = ''key'', pf_http = \<lambda>_. model_answer MODEL, pf_clock = \<lambda>_. 0, pf_timestamp = ''2026-09-20T00:00:00Z''\<rparr>"
  have "ascii MODEL" "MODEL \<noteq> []" by (simp_all add: ascii_def MODEL_def)
  then obtain x where x: "reading_of (model_answer MODEL) = Inr x" "rg_status x = Some 200" "rg_done x" "returned_model (rg_raw x) = MODEL"
    using model_answer_read by blast
  then have r: "run_preflight ?env = Inr (reading_record ?env x)" by (simp add: run_preflight_def)
  from preflight_opens_gate [OF r] x r show ?thesis by auto
qed

subsection \<open>The written record\<close>

text \<open>What is written never holds the credential; a record without one is written as a failure.\<close>

lemma written_without_credential:
  assumes "preflight_main env = Inr (text, code)"
  shows "(pf_key env \<noteq> [] \<longrightarrow> (\<exists>body. text = body @ [CHR 0x0A] \<and> \<not> contains_str (pf_key env) body)) \<and> (pf_key env = [] \<longrightarrow> code = 1)"
  using assms by (auto simp: preflight_main_def run_preflight_def base_record_def bindE_Inr_iff Let_def PASS_def FAIL_def split: if_splits)

text \<open>
  The status that decides and the classification differ on an answer below 400 that is not 200: the
  record says that the transport is in order, and the gate stays shut.
\<close>

lemma classified_in_order:
  "classify (rg_status r) (rg_done r) (model_matches r) = ''PROVIDER_TRANSPORT_OK'' \<longleftrightarrow>
     (\<exists>s. rg_status r = Some s \<and> s < 400) \<and> rg_done r \<and> model_matches r"
  by (auto simp: classify_def split: option.splits)

text \<open>The sequence runner reads the same fields of the record as the qualification does.\<close>

lemma gates_agree:
  assumes "preflight_checks (JObj r) (JObj p) (JObj spec) = Inr cs"
    and "dict_get p ''endpoint'' = Some (JStr ENDPOINT)" "dict_get p ''model'' = Some (JStr MODEL)"
    and "dict_get spec ''tool_id'' = Some (JStr PROVIDER_PREFLIGHT_TOOL_ID)"
  shows "list_all snd cs \<longleftrightarrow> list_all snd (qualification_checks r)"
proof -
  have e: "py_eq x (JStr y) \<longleftrightarrow> x = JStr y" for x y by (cases x) auto
  have g: "jget_or (JObj r) k JNull = JStr v \<longleftrightarrow> dict_get r k = Some (JStr v)" for k v
    by (simp add: jget_or_def split: option.split)
  show ?thesis using assms(1)
    by (auto simp: preflight_checks_def dict_index_def assms(2-4) e g qualification_checks_def)
qed

end
