(* ===== verification/Qual_Campaign.thy ===== *)
theory Qual_Campaign
  imports Selection Nim_Qualification
begin

section \<open>The qualification campaign\<close>

text \<open>
  \<open>tools/oat_adversary_qualification_001.py\<close>: freezing the inputs of the campaign, and running it. The files
  of the repository are a function from paths to contents, relative to its root. Printing and the
  files with the published results are left out: what would be published is the result.
\<close>

type_synonym file_tree = "string \<Rightarrow> string option"

definition QUALIFICATION_ID :: string where "QUALIFICATION_ID = ''OAT-ADVERSARY-QUALIFICATION-001''"

definition CANDIDATES :: "(string \<times> string) list" where
  "CANDIDATES = [(''candidate-A'', ''docs/experiment-runs/OAT_NIM_ADVERSARY_PROMPT_001.txt''),
     (''candidate-B'', ''docs/qualification/OAT_ADVERSARY_CANDIDATE_B_PROMPT_001.txt'')]"

definition FROZEN_INPUTS :: "(string \<times> string) list" where
  "FROZEN_INPUTS = [(''generator'', ''oat/qualification/synthetic_targets.py''), (''target_service'', ''oat/qualification/target_service.py''),
     (''runner'', ''oat/qualification/runner.py''), (''evidence_store'', ''oat/qualification/evidence_store.py''),
     (''leak_audit'', ''oat/qualification/leak_audit.py''), (''probes'', ''oat/qualification/probes.py''),
     (''selection'', ''oat/qualification/selection.py''), (''provider'', ''oat/qualification/provider.py''),
     (''generator_spec'', ''docs/qualification/02_SYNTHETIC_TARGET_GENERATOR_SPEC.json''),
     (''selection_rules'', ''docs/qualification/03_SELECTION_RULES.json''),
     (''results_schema'', ''docs/qualification/04_RESULTS_SCHEMA.json'')]"

definition file_digest :: "file_tree \<Rightarrow> string \<Rightarrow> string res" where
  "file_digest files path = (case files path of None \<Rightarrow> Inl (FileNotFoundError path) | Some c \<Rightarrow> Inr (sha256_hex c))"

subsection \<open>Freezing\<close>

definition digests :: "file_tree \<Rightarrow> (string \<times> string) list \<Rightarrow> (string \<times> json) list res" where
  "digests files named = mapE (\<lambda>(name, path). bindE (file_digest files path) (\<lambda>d. Inr (name, JStr d))) named"

definition FREEZE_NOTE :: string where
  "FREEZE_NOTE = ''Candidate B was authored and hashed before the synthetic generator was written, so it cannot be tuned to the corpus. Candidate A is the byte-identical Sequence 004 adversary baseline.''"

definition build_freeze :: "file_tree \<Rightarrow> string \<Rightarrow> json res" where
  "build_freeze files commitment =
     bindE (digests files CANDIDATES) (\<lambda>prompts. bindE (digests files FROZEN_INPUTS) (\<lambda>inputs.
       Inr (JObj [(''artifact'', JStr ''OAT_ADVERSARY_QUALIFICATION_001_FROZEN_MANIFEST''), (''candidate_prompts'', JObj prompts),
         (''candidate_freeze_note'', JStr FREEZE_NOTE), (''claim_bearing_use'', JStr ''PROHIBITED''), (''frozen_inputs'', JObj inputs),
         (''generator_version'', JStr GENERATOR_VERSION), (''qualification_id'', JStr QUALIFICATION_ID),
         (''seed_commitment'', JStr commitment), (''seed_visibility'', JStr ''ADJUDICATOR_ONLY_UNTIL_ALL_RUNS_COMPLETE''),
         (''sequence_005'', JStr ''NOT_BOUND / NOT_AUTHORIZED / NOT_EXECUTABLE'')])))"

text \<open>The text of the frozen manifest.\<close>

definition cmd_freeze :: "file_tree \<Rightarrow> string \<Rightarrow> string \<Rightarrow> string res" where
  "cmd_freeze files seed given =
     (let commitment = (if seed \<noteq> [] then seed_commitment seed else given) in
      if commitment = [] then Inl (SystemExit ''freeze requires --seed or --seed-commitment'')
      else bindE (build_freeze files commitment) (\<lambda>freeze. Inr (json_text indent_style freeze @ [CHR 0x0A])))"

subsection \<open>Admission to the run\<close>

definition check_seed :: "json \<Rightarrow> string \<Rightarrow> unit res" where
  "check_seed freeze seed =
     bindE (jindex freeze ''seed_commitment'') (\<lambda>expected.
       if expected \<noteq> JStr (seed_commitment seed) then
         Inl (SystemExit ''seed does not match the frozen seed commitment; refusing to run'')
       else Inr ())"

definition check_input :: "file_tree \<Rightarrow> json \<Rightarrow> string \<times> string \<Rightarrow> (string \<times> json) res" where
  "check_input files freeze entry =
     (case entry of (name, path) \<Rightarrow>
        bindE (file_digest files path) (\<lambda>observed. bindE (jindex freeze ''frozen_inputs'') (\<lambda>frozen.
        bindE (jindex frozen name) (\<lambda>expected.
          if expected \<noteq> JStr observed then Inl (SystemExit (''frozen input changed since freeze: '' @ name))
          else Inr (name, JObj [(''expected'', expected), (''observed'', JStr observed)])))))"

definition reconcile_inputs :: "file_tree \<Rightarrow> json \<Rightarrow> json res" where
  "reconcile_inputs files freeze =
     bindE (mapE (check_input files freeze) FROZEN_INPUTS) (\<lambda>inputs.
     bindE (jindex freeze ''frozen_inputs'') (\<lambda>frozen. bindE (jindex frozen ''generator'') (\<lambda>expected.
     bindE (file_digest files ''oat/qualification/synthetic_targets.py'') (\<lambda>observed.
       Inr (JObj [(''frozen_inputs'', JObj inputs), (''generator_digest'', JObj [(''expected'', expected),
         (''observed'', JStr observed), (''reconciled'', JBool True)])])))))"

definition check_prompt :: "file_tree \<Rightarrow> json \<Rightarrow> string \<times> string \<Rightarrow> unit res" where
  "check_prompt files freeze entry =
     (case entry of (cid, path) \<Rightarrow>
        bindE (file_digest files path) (\<lambda>observed. bindE (jindex freeze ''candidate_prompts'') (\<lambda>frozen.
        bindE (jindex frozen cid) (\<lambda>expected.
          if expected \<noteq> JStr observed then Inl (SystemExit (''candidate prompt changed since freeze: '' @ cid)) else Inr ()))))"

definition preflight_gate :: "string option \<Rightarrow> json res" where
  "preflight_gate preflight =
     (case preflight of
        None \<Rightarrow> Inl (SystemExit ''run requires --provider-preflight artifact; refusing to run'')
      | Some text \<Rightarrow> bindE (json_loads text) (\<lambda>r. case r of
            JObj kvs \<Rightarrow> (let gate = verify_qualification_preflight kvs in
              if jget_or gate ''status'' JNull \<noteq> JStr PASS then
                Inl (SystemExit (''provider preflight gate failed: '' @ py_str (jget_or gate ''checks'' JNull)))
              else Inr gate)
          | _ \<Rightarrow> Inl (AttributeError ''get'')))"

definition admission :: "file_tree \<Rightarrow> string \<Rightarrow> string \<Rightarrow> string option \<Rightarrow> (json \<times> json) res" where
  "admission files seed frozen_manifest preflight =
     (if seed = [] then Inl (SystemExit ''run requires --seed (adjudicator-only)'')
      else bindE (json_loads frozen_manifest) (\<lambda>freeze. bindE (check_seed freeze seed) (\<lambda>_.
        bindE (reconcile_inputs files freeze) (\<lambda>reconciliation. bindE (mapE (check_prompt files freeze) CANDIDATES) (\<lambda>_.
        bindE (preflight_gate preflight) (\<lambda>gate. Inr (gate, reconciliation)))))))"

subsection \<open>The matrix\<close>

text \<open>\<open>read_text\<close>: UTF-8 with universal newlines.\<close>

fun newlines :: "string \<Rightarrow> string" where
  "newlines [] = []"
| "newlines [c] = [if c = CHR 0x0D then CHR 0x0A else c]"
| "newlines (c # d # s) =
     (if c = CHR 0x0D then CHR 0x0A # newlines (if d = CHR 0x0A then s else d # s) else c # newlines (d # s))"

definition read_prompt :: "file_tree \<Rightarrow> string \<Rightarrow> string res" where
  "read_prompt files path =
     (case files path of
        None \<Rightarrow> Inl (FileNotFoundError path)
      | Some c \<Rightarrow> if utf8_valid c then Inr (newlines c) else Inl (ValueError ''UnicodeDecodeError''))"

text \<open>The credential, the HTTP client and the clock of every pair, and what its directory held before.\<close>

record campaign_env =
  cp_key :: string
  cp_http :: "string \<Rightarrow> string \<Rightarrow> string \<Rightarrow> nim_outcome"
  cp_clock :: "string \<Rightarrow> string \<Rightarrow> nat \<Rightarrow> rat"
  cp_decode_text :: "string \<Rightarrow> string"
  cp_dir :: "string \<Rightarrow> string \<Rightarrow> evidence_dir"

definition run_pair :: "campaign_env \<Rightarrow> string \<Rightarrow> string \<Rightarrow> string \<Rightarrow> synthetic_target \<Rightarrow> published res" where
  "run_pair env seed cid prompt target =
     (let tid = st_target_id target in
      bindE (run_candidate_on_target (nim_env (cp_key env) (cp_http env cid tid) default_transport (cp_clock env cid tid) (cp_decode_text env))
          cid prompt target seed []) (\<lambda>raw.
      bindE (persist_and_verify raw (cp_dir env cid tid)) (\<lambda>(_, published). Inr published)))"

definition run_candidate :: "campaign_env \<Rightarrow> file_tree \<Rightarrow> string \<Rightarrow> synthetic_target list \<Rightarrow> string \<times> string \<Rightarrow> candidate_aggregate res" where
  "run_candidate env files seed corpus entry =
     (case entry of (cid, path) \<Rightarrow>
        bindE (read_prompt files path) (\<lambda>prompt. bindE (mapE (run_pair env seed cid prompt) corpus) (\<lambda>results.
          Inr \<lparr>ca_candidate_id = cid, ca_results = results\<rparr>)))"

record campaign =
  cm_gate :: json
  cm_reconciliation :: json
  cm_matrix :: "candidate_aggregate list"
  cm_outcome :: selection

definition cmd_run :: "campaign_env \<Rightarrow> file_tree \<Rightarrow> string \<Rightarrow> string \<Rightarrow> string option \<Rightarrow> campaign res" where
  "cmd_run env files seed frozen_manifest preflight =
     bindE (admission files seed frozen_manifest preflight) (\<lambda>(gate, reconciliation).
     bindE (generate_corpus seed) (\<lambda>corpus. bindE (mapE (run_candidate env files seed corpus) CANDIDATES) (\<lambda>matrix.
     bindE (select matrix) (\<lambda>outcome.
       Inr \<lparr>cm_gate = gate, cm_reconciliation = reconciliation, cm_matrix = matrix, cm_outcome = outcome\<rparr>))))"

subsection \<open>What is admitted\<close>

lemma digests_Inr_iff:
  "digests files named = Inr ds \<longleftrightarrow>
     (\<forall>(n, p) \<in> set named. files p \<noteq> None) \<and> ds = map (\<lambda>(n, p). (n, JStr (sha256_hex (the (files p))))) named"
  by (induction named arbitrary: ds) (auto simp: digests_def file_digest_def bindE_Inr_iff split: option.splits)

lemma named_distinct: "distinct (map fst FROZEN_INPUTS)" "distinct (map fst CANDIDATES)"
  by (simp_all add: FROZEN_INPUTS_def CANDIDATES_def)

lemma dict_get_named:
  "distinct (map fst named) \<Longrightarrow> (n, p) \<in> set named \<Longrightarrow> dict_get (map (\<lambda>(n, p). (n, f p)) named) n = Some (f p)"
  by (induction named) (auto simp: image_iff)

lemma ascii_digest: "ascii (sha256_hex s)"
proof -
  have "byte c < 128" if "is_hex c" for c using that by (auto simp: is_hex_def is_digit_def)
  then show ?thesis using sha256_hex_is_hex [of _ s] by (simp add: ascii_def list_all_iff)
qed

lemma dict_get_ordered: "dict_get (ordered st xs) k = dict_get xs k"
  by (simp add: ordered_def)

lemma reread_get: "jget (reread st (JObj kvs)) k = map_option (reread st) (dict_get kvs k)"
  by (simp add: dict_get_ordered dict_get_map_snd)

definition freeze_doc :: "file_tree \<Rightarrow> string \<Rightarrow> json" where
  "freeze_doc files commitment =
     (let named = (\<lambda>entries. JObj (map (\<lambda>(n, p). (n, JStr (sha256_hex (the (files p))))) entries)) in
      JObj [(''artifact'', JStr ''OAT_ADVERSARY_QUALIFICATION_001_FROZEN_MANIFEST''), (''candidate_prompts'', named CANDIDATES),
         (''candidate_freeze_note'', JStr FREEZE_NOTE), (''claim_bearing_use'', JStr ''PROHIBITED''), (''frozen_inputs'', named FROZEN_INPUTS),
         (''generator_version'', JStr GENERATOR_VERSION), (''qualification_id'', JStr QUALIFICATION_ID),
         (''seed_commitment'', JStr commitment), (''seed_visibility'', JStr ''ADJUDICATOR_ONLY_UNTIL_ALL_RUNS_COMPLETE''),
         (''sequence_005'', JStr ''NOT_BOUND / NOT_AUTHORIZED / NOT_EXECUTABLE'')])"

lemma freeze_written:
  "cmd_freeze files seed given = Inr text \<longleftrightarrow>
     (let commitment = (if seed \<noteq> [] then seed_commitment seed else given) in
      commitment \<noteq> [] \<and> (\<forall>(n, p) \<in> set (FROZEN_INPUTS @ CANDIDATES). files p \<noteq> None)
      \<and> text = json_text indent_style (freeze_doc files commitment) @ [CHR 0x0A])"
  unfolding set_append ball_Un cmd_freeze_def build_freeze_def freeze_doc_def Let_def
  by (simp add: bindE_Inr_iff digests_Inr_iff) blast

lemma ascii_freeze: "ascii commitment \<Longrightarrow> ascii_doc (freeze_doc files commitment)"
proof -
  assume c: "ascii commitment"
  have n: "list_all (\<lambda>(k, v). ascii k \<and> ascii_doc v) (map (\<lambda>(n, p). (n, JStr (sha256_hex (the (files p))))) named)"
    if "\<forall>(n, p) \<in> set named. ascii n" for named using that by (auto simp: list_all_iff ascii_digest)
  have a: "\<forall>(n, p) \<in> set FROZEN_INPUTS. ascii n" "\<forall>(n, p) \<in> set CANDIDATES. ascii n"
    by (simp_all add: FROZEN_INPUTS_def CANDIDATES_def ascii_def)
  have f: "fst \<circ> (\<lambda>(n, p). (n, g p)) = fst" for g :: "string \<Rightarrow> json" by auto
  have t: "ascii ''OAT_ADVERSARY_QUALIFICATION_001_FROZEN_MANIFEST''" "ascii FREEZE_NOTE" "ascii ''PROHIBITED''" "ascii GENERATOR_VERSION"
    "ascii QUALIFICATION_ID" "ascii ''ADJUDICATOR_ONLY_UNTIL_ALL_RUNS_COMPLETE''" "ascii ''NOT_BOUND / NOT_AUTHORIZED / NOT_EXECUTABLE''"
    by (simp_all add: ascii_def FREEZE_NOTE_def GENERATOR_VERSION_def QUALIFICATION_ID_def)
  have k: "ascii ''artifact''" "ascii ''candidate_prompts''" "ascii ''candidate_freeze_note''" "ascii ''claim_bearing_use''"
    "ascii ''frozen_inputs''" "ascii ''generator_version''" "ascii ''qualification_id''" "ascii ''seed_commitment''"
    "ascii ''seed_visibility''" "ascii ''sequence_005''" by (simp_all add: ascii_def)
  show ?thesis
    using n [OF a(1)] n [OF a(2)] named_distinct c by (simp add: freeze_doc_def Let_def f t k)
qed

lemma freeze_reads:
  assumes "ascii commitment"
  obtains freeze where "json_loads (json_text indent_style (freeze_doc files commitment) @ [CHR 0x0A]) = Inr freeze"
    "jindex freeze ''seed_commitment'' = Inr (JStr commitment)"
    "\<And>n p. (n, p) \<in> set FROZEN_INPUTS \<Longrightarrow> \<exists>d. jindex freeze ''frozen_inputs'' = Inr d \<and> jindex d n = Inr (JStr (sha256_hex (the (files p))))"
    "\<And>n p. (n, p) \<in> set CANDIDATES \<Longrightarrow> \<exists>d. jindex freeze ''candidate_prompts'' = Inr d \<and> jindex d n = Inr (JStr (sha256_hex (the (files p))))"
proof -
  let ?f = "reread indent_style (freeze_doc files commitment)"
  let ?named = "\<lambda>entries. JObj (map (\<lambda>(n, p). (n, JStr (sha256_hex (the (files p))))) entries)"
  have l: "json_loads (json_text indent_style (freeze_doc files commitment) @ [CHR 0x0A]) = Inr ?f"
    by (rule json_text_then [OF ascii_freeze [OF assms]]) simp_all
  have g: "jget ?f ''seed_commitment'' = Some (JStr commitment)" "jget ?f ''frozen_inputs'' = Some (reread indent_style (?named FROZEN_INPUTS))"
    "jget ?f ''candidate_prompts'' = Some (reread indent_style (?named CANDIDATES))"
    unfolding freeze_doc_def Let_def reread_get by simp_all
  have n: "jget (reread indent_style (?named named)) n = Some (JStr (sha256_hex (the (files p))))"
    if "distinct (map fst named)" "(n, p) \<in> set named" for named n p
    unfolding reread_get dict_get_named [OF that, of "\<lambda>p. JStr (sha256_hex (the (files p)))"] by simp
  show ?thesis
    by (rule that [of ?f]) (use l g n named_distinct in \<open>auto simp: jindex_Inr_iff\<close>)
qed

lemma check_input_ok:
  assumes "jindex freeze ''frozen_inputs'' = Inr d" "jindex d n = Inr (JStr h)"
  shows "(\<exists>x. check_input files freeze (n, p) = Inr x) \<longleftrightarrow> (\<exists>c. files p = Some c \<and> sha256_hex c = h)"
  using assms by (auto simp: check_input_def file_digest_def bindE_Inr_iff split: option.split)

lemma check_prompt_ok:
  assumes "jindex freeze ''candidate_prompts'' = Inr d" "jindex d n = Inr (JStr h)"
  shows "(\<exists>x. check_prompt files freeze (n, p) = Inr x) \<longleftrightarrow> (\<exists>c. files p = Some c \<and> sha256_hex c = h)"
  using assms by (auto simp: check_prompt_def file_digest_def bindE_Inr_iff split: option.split)

lemma preflight_gate_ok:
  "(\<exists>g. preflight_gate preflight = Inr g) \<longleftrightarrow>
     (\<exists>t r. preflight = Some t \<and> json_loads t = Inr (JObj r) \<and> jget (verify_qualification_preflight r) ''status'' = Some (JStr PASS))"
proof (cases preflight)
  case (Some t)
  have g: "jget_or g ''status'' JNull = JStr PASS \<longleftrightarrow> jget g ''status'' = Some (JStr PASS)" for g
    by (simp add: jget_or_def split: option.split)
  show ?thesis
  proof (cases "json_loads t")
    case (Inr v)
    then show ?thesis using Some g by (cases v) (auto simp: preflight_gate_def Let_def)
  qed (simp add: Some preflight_gate_def)
qed (simp add: preflight_gate_def)

lemma generator_entry: "(''generator'', ''oat/qualification/synthetic_targets.py'') \<in> set FROZEN_INPUTS"
  by (simp add: FROZEN_INPUTS_def)

lemma reconcile_inputs_ok:
  assumes "jindex freeze ''frozen_inputs'' = Inr d" "\<And>n p. (n, p) \<in> set FROZEN_INPUTS \<Longrightarrow> jindex d n = Inr (JStr (h p))"
  shows "(\<exists>r. reconcile_inputs files freeze = Inr r) \<longleftrightarrow> (\<forall>(n, p) \<in> set FROZEN_INPUTS. \<exists>c. files p = Some c \<and> sha256_hex c = h p)"
proof -
  have m: "(\<exists>ys. mapE (check_input files freeze) FROZEN_INPUTS = Inr ys)
      \<longleftrightarrow> (\<forall>(n, p) \<in> set FROZEN_INPUTS. \<exists>c. files p = Some c \<and> sha256_hex c = h p)"
    unfolding mapE_Inr_ex
  proof (intro ball_cong refl)
    fix e assume e: "e \<in> set FROZEN_INPUTS"
    obtain n p where np: "e = (n, p)" by (cases e)
    have "(\<exists>x. check_input files freeze (n, p) = Inr x) \<longleftrightarrow> (\<exists>c. files p = Some c \<and> sha256_hex c = h p)"
      using e unfolding np by (rule check_input_ok [OF assms(1) assms(2)])
    then show "(\<exists>x. check_input files freeze e = Inr x) \<longleftrightarrow> (case e of (n, p) \<Rightarrow> \<exists>c. files p = Some c \<and> sha256_hex c = h p)"
      by (simp only: np prod.case)
  qed
  moreover have "(\<exists>r. reconcile_inputs files freeze = Inr r) \<longleftrightarrow> (\<exists>ys. mapE (check_input files freeze) FROZEN_INPUTS = Inr ys)"
  proof
    assume "\<exists>ys. mapE (check_input files freeze) FROZEN_INPUTS = Inr ys"
    then obtain ys where ys: "mapE (check_input files freeze) FROZEN_INPUTS = Inr ys" by blast
    then obtain c where "files ''oat/qualification/synthetic_targets.py'' = Some c" using m generator_entry by blast
    then show "\<exists>r. reconcile_inputs files freeze = Inr r"
      using ys assms(1) assms(2) [OF generator_entry] by (simp add: reconcile_inputs_def file_digest_def)
  qed (auto simp: reconcile_inputs_def bindE_Inr_iff)
  ultimately show ?thesis by simp
qed

text \<open>C33: The run admits what was frozen: on a manifest that the freeze wrote, a campaign starts exactly with a
  seed of the frozen commitment, with every frozen input and both prompts of the same digest as when
  they were frozen, and with a preflight record that opens the gate; a changed file is only missed
  through a collision of SHA-256.\<close>

theorem campaign_admits_frozen:
  assumes "cmd_freeze files seed0 given = Inr text" "ascii given"
  shows "(\<exists>x. admission files' seed text preflight = Inr x) \<longleftrightarrow>
      seed \<noteq> [] \<and> seed_commitment seed = (if seed0 \<noteq> [] then seed_commitment seed0 else given)
    \<and> (\<forall>(n, p) \<in> set (FROZEN_INPUTS @ CANDIDATES). \<exists>c c'. files p = Some c \<and> files' p = Some c' \<and> (c' = c \<or> sha256_collision c' c))
    \<and> (\<exists>t r. preflight = Some t \<and> json_loads t = Inr (JObj r) \<and> jget (verify_qualification_preflight r) ''status'' = Some (JStr PASS))"
proof -
  let ?c = "if seed0 \<noteq> [] then seed_commitment seed0 else given" and ?h = "\<lambda>p. sha256_hex (the (files p))"
  have ac: "ascii ?c" using assms(2) by (simp add: seed_commitment_def ascii_digest)
  have w: "\<forall>(n, p) \<in> set (FROZEN_INPUTS @ CANDIDATES). files p \<noteq> None" "text = json_text indent_style (freeze_doc files ?c) @ [CHR 0x0A]"
    using assms(1) unfolding freeze_written Let_def by blast+
  obtain freeze where f: "json_loads text = Inr freeze" "jindex freeze ''seed_commitment'' = Inr (JStr ?c)"
    "\<And>n p. (n, p) \<in> set FROZEN_INPUTS \<Longrightarrow> \<exists>d. jindex freeze ''frozen_inputs'' = Inr d \<and> jindex d n = Inr (JStr (?h p))"
    "\<And>n p. (n, p) \<in> set CANDIDATES \<Longrightarrow> \<exists>d. jindex freeze ''candidate_prompts'' = Inr d \<and> jindex d n = Inr (JStr (?h p))"
    using freeze_reads [OF ac, of files] unfolding w(2) by metis
  obtain d where d: "jindex freeze ''frozen_inputs'' = Inr d" using f(3) [OF generator_entry] by blast
  have r: "(\<exists>r. reconcile_inputs files' freeze = Inr r) \<longleftrightarrow> (\<forall>(n, p) \<in> set FROZEN_INPUTS. \<exists>c. files' p = Some c \<and> sha256_hex c = ?h p)"
    by (rule reconcile_inputs_ok [OF d]) (use f(3) d in fastforce)
  have p: "(\<exists>ys. mapE (check_prompt files' freeze) CANDIDATES = Inr ys)
      \<longleftrightarrow> (\<forall>(n, p) \<in> set CANDIDATES. \<exists>c. files' p = Some c \<and> sha256_hex c = ?h p)"
    unfolding mapE_Inr_ex using check_prompt_ok f(4) by fastforce
  have k: "(\<exists>x. check_seed freeze seed = Inr x) \<longleftrightarrow> seed_commitment seed = ?c"
    using f(2) by (auto simp: check_seed_def)
  have same: "(\<exists>c. files' p = Some c \<and> sha256_hex c = ?h p)
      \<longleftrightarrow> (\<exists>c c'. files p = Some c \<and> files' p = Some c' \<and> (c' = c \<or> sha256_collision c' c))"
    if "(n, p) \<in> set (FROZEN_INPUTS @ CANDIDATES)" for n p
    using w(1) that sha256_eqD unfolding sha256_collision_def by fastforce
  have a: "(\<exists>x. admission files' seed text preflight = Inr x) \<longleftrightarrow>
      seed \<noteq> [] \<and> (\<exists>x. check_seed freeze seed = Inr x) \<and> (\<exists>r. reconcile_inputs files' freeze = Inr r)
      \<and> (\<exists>ys. mapE (check_prompt files' freeze) CANDIDATES = Inr ys) \<and> (\<exists>g. preflight_gate preflight = Inr g)"
    by (auto simp: admission_def f(1) bindE_Inr_iff)
  have e: "((\<forall>(n, p) \<in> set FROZEN_INPUTS. \<exists>c. files' p = Some c \<and> sha256_hex c = ?h p)
      \<and> (\<forall>(n, p) \<in> set CANDIDATES. \<exists>c. files' p = Some c \<and> sha256_hex c = ?h p)) \<longleftrightarrow>
      (\<forall>(n, p) \<in> set (FROZEN_INPUTS @ CANDIDATES). \<exists>c c'. files p = Some c \<and> files' p = Some c' \<and> (c' = c \<or> sha256_collision c' c))"
    unfolding set_append ball_Un using same unfolding set_append by blast
  show ?thesis unfolding a k r p preflight_gate_ok e [symmetric] by blast
qed

definition passing_record :: json where
  "passing_record = JObj [(''endpoint'', JStr ENDPOINT), (''model'', JStr MODEL), (''preflight_status'', JStr PASS),
     (''stream_done_observed'', JBool True), (''tool_id'', JStr PROVIDER_PREFLIGHT_TOOL_ID)]"

lemma passing_record_opens:
  "\<exists>r. json_loads (json_text plain_style passing_record) = Inr (JObj r) \<and> jget (verify_qualification_preflight r) ''status'' = Some (JStr PASS)"
proof -
  have "ascii_doc passing_record"
    by (simp add: passing_record_def) (simp add: ascii_def ENDPOINT_def MODEL_def PASS_def PROVIDER_PREFLIGHT_TOOL_ID_def)
  then have "json_loads (json_text plain_style passing_record) = Inr (reread plain_style passing_record)"
    by (rule json_text_reads) simp
  moreover have "reread plain_style passing_record = passing_record" by (simp add: passing_record_def ordered_def plain_style_def)
  ultimately show ?thesis unfolding qualification_gate_iff by (simp add: passing_record_def jget_or_def)
qed

lemma campaign_admits_frozen_witness:
  "\<exists>text x. cmd_freeze (\<lambda>p. Some p) ''seed'' [] = Inr text
     \<and> admission (\<lambda>p. Some p) ''seed'' text (Some (json_text plain_style passing_record)) = Inr x"
proof -
  have "length (seed_commitment ''seed'') = 64" by (simp add: seed_commitment_def)
  then have "seed_commitment ''seed'' \<noteq> []" by (cases "seed_commitment ''seed''") auto
  then obtain m where t: "cmd_freeze (\<lambda>p. Some p) ''seed'' [] = Inr m" unfolding freeze_written by simp
  have "ascii []" by (simp add: ascii_def)
  from campaign_admits_frozen [OF t this, of "\<lambda>p. Some p" "''seed''" "Some (json_text plain_style passing_record)"] passing_record_opens t
  show ?thesis by auto
qed

subsection \<open>What a campaign publishes\<close>

text \<open>
  A campaign that ends was admitted, has one result for each of the eight targets of the seed and each
  candidate in the frozen order, every one from a run on the frozen prompt, and its outcome is the
  selection from them.
\<close>

lemma campaign_facts:
  assumes "cmd_run env files seed text preflight = Inr c"
  shows "(\<exists>x. admission files seed text preflight = Inr x) \<and> select (cm_matrix c) = Inr (cm_outcome c)
    \<and> (\<exists>corpus. generate_corpus seed = Inr corpus
        \<and> list_all2 (\<lambda>(cid, path) a. ca_candidate_id a = cid
            \<and> (\<exists>prompt. read_prompt files path = Inr prompt \<and> list_all2 (\<lambda>t r. run_pair env seed cid prompt t = Inr r) corpus (ca_results a)))
          CANDIDATES (cm_matrix c))"
proof -
  obtain x corpus matrix where c: "admission files seed text preflight = Inr x" "generate_corpus seed = Inr corpus"
    "mapE (run_candidate env files seed corpus) CANDIDATES = Inr matrix" "select matrix = Inr (cm_outcome c)" "cm_matrix c = matrix"
    using assms by (auto simp: cmd_run_def bindE_Inr_iff)
  have "list_all2 (\<lambda>e a. run_candidate env files seed corpus e = Inr a) CANDIDATES matrix"
    by (rule mapE_InrD [OF c(3)])
  then have "list_all2 (\<lambda>(cid, path) a. ca_candidate_id a = cid
      \<and> (\<exists>prompt. read_prompt files path = Inr prompt \<and> list_all2 (\<lambda>t r. run_pair env seed cid prompt t = Inr r) corpus (ca_results a)))
    CANDIDATES matrix"
  proof (rule list_all2_mono)
    fix e a assume "run_candidate env files seed corpus e = Inr a"
    moreover obtain cid path where "e = (cid, path)" by (cases e)
    ultimately show "(\<lambda>(cid, path) a. ca_candidate_id a = cid
      \<and> (\<exists>prompt. read_prompt files path = Inr prompt \<and> list_all2 (\<lambda>t r. run_pair env seed cid prompt t = Inr r) corpus (ca_results a))) e a"
      by (auto simp: run_candidate_def bindE_Inr_iff dest: mapE_InrD)
  qed
  then show ?thesis using c by blast
qed

end
