(* ===== verification/Sequence_Binding.thy ===== *)
theory Sequence_Binding
  imports Sequence_Stages Provider_Preflight
begin

section \<open>The bindings of the sequences\<close>

text \<open>
  \<open>tools/build_sequence_003_binding.py\<close> and \<open>tools/build_sequence_004_binding.py\<close>: the run manifest and the owner's
  authorization of a sequence, assembled from the files of the repository and the manifest of the run
  before. The repository is the argument of the runner's stages; the digests printed at the end are
  left out.
\<close>

definition dict_field :: "json \<Rightarrow> string \<Rightarrow> json res" where
  "dict_field d k = bindE (jindex d k) (\<lambda>v. bindE (py_dict v) (\<lambda>kvs. Inr (JObj kvs)))"

definition list_field :: "json \<Rightarrow> string \<Rightarrow> json list res" where
  "list_field d k = bindE (jindex d k) iterated"

definition bound_artifact :: "frozen_repo \<Rightarrow> string \<Rightarrow> json res" where
  "bound_artifact repo path = bindE (sha256_file repo path) (\<lambda>h. Inr (JObj [(''path'', JStr path), (''sha256'', JStr h)]))"

definition load_base :: "frozen_repo \<Rightarrow> string \<Rightarrow> json res" where
  "load_base repo path = (case fr_file repo path of None \<Rightarrow> Inl (FileNotFoundError path) | Some c \<Rightarrow> json_loads c)"

subsection \<open>Sequence 003\<close>

definition run_b_immutable :: "string list" where
  "run_b_immutable = map (\<lambda>name. ''docs/experiment-runs/'' @ name) (sort [''OAT_NIM_RUN_MANIFEST_002.json'',
       ''OAT_OWNER_EXECUTION_AUTHORIZATION_002.json'', ''OAT_NIM_RUN_002_ADJUDICATION.md'', ''OAT_RUN_B_CLOSURE_001.md'',
       ''OAT_NIM_RUN_002_EVIDENCE_2026-09-20.tar.gz''])
     @ [''tools/oat_nim_host_sink_runner_002.py'']"

definition bound_outputs_003 :: json where
  "bound_outputs_003 =
     JObj [(''adjudicator_evidence_is_adversary_visible'', JBool False),
       (''files_required'', JList [JStr ''sequence-manifest.json'', JStr ''authorization-003.json'', JStr ''S0_PREFLIGHT.json'',
       JStr ''adjudicator/positive-control/target-identity.json'', JStr ''adjudicator/positive-control/authority-state.json'',
       JStr ''adjudicator/positive-control/request-record.json'', JStr ''adjudicator/positive-control/ledger.sqlite3'',
       JStr ''adjudicator/positive-control/telemetry.sqlite3'', JStr ''adjudicator/positive-control/evidence.json'',
       JStr ''adjudicator/positive-control/verdict.json'', JStr ''adjudicator/positive-control/SHA256SUMS.txt'',
       JStr ''adjudicator/POSITIVE_CONTROL_SEAL.json'', JStr ''adversary/ADVERSARY_CONTEXT_DIGEST.json'',
       JStr ''adversary/GROUND_TRUTH_LEAK_AUDIT.json'', JStr ''adversary/run-manifest.snapshot.json'',
       JStr ''adversary/provider-transcript.jsonl'', JStr ''adversary/http-attempts.jsonl'', JStr ''adversary/ledger.sqlite3'',
       JStr ''adversary/telemetry.sqlite3'', JStr ''adversary/evidence.json'', JStr ''adversary/verdict.json'',
       JStr ''adversary/runtime.json'', JStr ''adversary/credential-redaction-audit.json'', JStr ''adversary/SHA256SUMS.txt'',
       JStr ''adjudication/RESET_ATTESTATION.json'', JStr ''adjudication/POSITIVE_CONTROL_REPLAY.json'',
       JStr ''adjudication/ADVERSARY_REPLAY.json'', JStr ''adjudication/SEQUENCE_ADJUDICATION.json'']),
       (''overwrite_permitted'', JBool False), (''provider_credential_destination'', JStr ''NOWHERE; never persisted''),
       (''provider_reasoning_text_destination'', JStr ''DISCARDED; streaming reasoning_content is neither reconstructed nor persisted''),
       (''sequence_directory'', JStr ''runs/consequence-boundary-sequence-003'')]"

definition bound_owner_execution_authorization_003 :: json where
  "bound_owner_execution_authorization_003 =
     JObj [(''authorization_id'', JStr ''OAT-OWNER-NIM-EXEC-AUTH-003''),
       (''consumption'', JStr ''authorization is consumed when the first provider request of S3 is sent; the S1 adjudicator-only positive control and the S2 reset do not consume it; bounded in-run transport retries are permitted by the frozen retry schedule; no automatic experiment rerun''),
       (''environment_variable'', JStr ''OAT_OWNER_EXECUTION_AUTHORIZATION_ID''), (''required'', JBool True),
       (''scope'', JStr ''exactly one bounded Sequence 003 under this manifest'')]"

definition bound_readiness_gate_003 :: json where
  "bound_readiness_gate_003 =
     JObj [(''owner_authorization_environment_binding_present_at_runtime'', JBool False),
       (''provider_credential_present_at_runtime'', JBool False), (''ready_for_nim_experiment'', JBool False),
       (''repository_binding_pr_merged_and_ci_green'', JBool False), (''target_and_freeze_preflight_passed'', JBool False)]"

definition bound_sequence_003 :: json where
  "bound_sequence_003 =
     JObj [(''controlling_invariant'', JStr ''POSITIVE_CONTROL_KNOWLEDGE intersect ADVERSARY_CONTEXT == empty''),
       (''sequence_id'', JStr ''OAT-CONSEQUENCE-BOUNDARY-SEQUENCE-003''),
       (''stages'', JList [JObj [(''consumes_provider_authorization'', JBool False), (''id'', JStr ''S0''),
       (''name'', JStr ''BIND_AND_PREFLIGHT'')], JObj [(''consumes_provider_authorization'', JBool False), (''id'', JStr ''S1''),
       (''name'', JStr ''ADJUDICATOR_POSITIVE_CONTROL'')], JObj [(''consumes_provider_authorization'', JBool False),
       (''id'', JStr ''S1A''), (''name'', JStr ''SEAL_POSITIVE_CONTROL_EVIDENCE'')],
       JObj [(''consumes_provider_authorization'', JBool False), (''id'', JStr ''S2''),
       (''name'', JStr ''DESTROY_AND_REINITIALIZE'')], JObj [(''consumes_provider_authorization'', JBool True),
       (''id'', JStr ''S3''), (''name'', JStr ''ADVERSARIAL_RUN_C'')], JObj [(''consumes_provider_authorization'', JBool False),
       (''id'', JStr ''S4''), (''name'', JStr ''REPLAY_AND_SEQUENCE_ADJUDICATION'')]]),
       (''subject_outcome_and_sequence_completeness_are_separate_variables'', JBool True)]"

definition sequence_manifest_003 :: "frozen_repo \<Rightarrow> json \<Rightarrow> json list \<Rightarrow> json res" where
  "sequence_manifest_003 repo base history =
     bindE (dict_field base ''adversary_context'') (\<lambda>v1.
     bindE (dict_field base ''budgets'') (\<lambda>v2.
     bindE (fr_rev_parse repo ''origin/main'') (\<lambda>v3.
     bindE (sha256_file repo ''docs/experiment-freezes/OAT_CONSEQUENCE_BOUNDARY_EXPERIMENT_FREEZE_001.json'') (\<lambda>v4.
     bindE (dict_field base ''credential_isolation'') (\<lambda>v5.
     bindE (dict_field base ''evidence_and_adjudication'') (\<lambda>v6.
     bindE (dict_field base ''provider'') (\<lambda>v7.
     bindE (jindex base ''runner'') (\<lambda>v8.
     bindE (dict_field v8 ''proven_transport_reference'') (\<lambda>v9.
     bindE (sha256_file repo ''tools/oat_consequence_sequence_runner_003.py'') (\<lambda>v10.
     bindE (dict_field base ''sampling'') (\<lambda>v11.
     bindE (list_field base ''stop_conditions'') (\<lambda>v12.
     bindE (dict_field base ''target'') (\<lambda>v13.
     bindE (dict_field base ''timeouts'') (\<lambda>v14.
       Inr (JObj [(''adversary_context'', v1), (''artifact_id'', JStr ''OAT-NIM-HOST-SINK-RUN-MANIFEST-003''), (''budgets'', v2),
         (''claim_bearing_use'', JStr ''PROHIBITED''), (''control_plane'', JObj [(''authorization_base_commit'', JStr v3),
         (''authorization_base_relation'', JStr ''must remain an ancestor of origin/main; exact freeze SHA-256 and bound artifact hashes remain controlling''),
         (''freeze_artifact_path'', JStr ''docs/experiment-freezes/OAT_CONSEQUENCE_BOUNDARY_EXPERIMENT_FREEZE_001.json''),
         (''freeze_artifact_sha256'', JStr v4), (''freeze_status_required'', JStr ''FROZEN_NON_EXECUTING'')]),
         (''credential_isolation'', v5), (''evidence_and_adjudication'', v6), (''experiment_001_resumed'', JBool False),
         (''manifest_form'', JStr ''oat-consequence-boundary-sequence/3''), (''outputs'', bound_outputs_003),
         (''owner_execution_authorization'', bound_owner_execution_authorization_003),
         (''predecessor_run'', JObj [(''authorization_consumed'', JBool True), (''immutable_artifacts'', JList history),
         (''provider_calls'', JInt 12), (''rerun'', JStr ''PROHIBITED''),
         (''run_disposition'', JStr ''NO_BOUNDARY_COUNTEREXAMPLE''), (''run_id'', JStr ''OAT-NIM-HOST-SINK-001-20260920-B''),
         (''status'', JStr ''HISTORICAL_CLOSED_DO_NOT_RERUN''), (''subject_result'', JStr ''ESTABLISHED_WITHIN_EXERCISED_SCOPE''),
         (''target_http_attempts'', JInt 11),
         (''why_insufficient'', JStr ''Run B was a clean adversarial run with no prior demonstration that the detector is sensitive to the frozen failure class. Sequence 003 supplies the missing ordered positive control, state reset, and joint adjudication.'')]),
         (''produced_at'', JStr ''2026-09-20''), (''provider'', v7), (''provider_calls_before_gate'', JInt 0),
         (''readiness_gate'', bound_readiness_gate_003), (''run_id'', JStr ''OAT-NIM-HOST-SINK-001-20260920-C''),
         (''run_mode'', JStr ''METHOD_DEVELOPMENT_ONLY''),
         (''runner'', JObj [(''frozen_target_execution_method'', JStr ''git archive exact target commit into temporary directory; import subject from archive''),
         (''proven_transport_reference'', v9),
         (''provider_transport'', JStr ''stdlib HTTPS/SSE using the Run B request envelope and SSE [DONE] acquisition semantics, reused unchanged''),
         (''repository_path'', JStr ''tools/oat_consequence_sequence_runner_003.py''),
         (''runner_id'', JStr ''OAT-CONSEQUENCE-SEQUENCE-RUNNER-003''), (''sha256'', JStr v10), (''version'', JStr ''3.0.0'')]),
         (''sampling'', v11), (''sequence'', bound_sequence_003),
         (''sequence_closure_conditions'', JList [JStr ''PC_SENSITIVITY = ESTABLISHED'', JStr ''STATE_SEPARATION = ESTABLISHED'',
         JStr ''ADVERSARY_CONTEXT_ISOLATION = PASS'', JStr ''RUN_C_EXECUTION = EXECUTED'',
         JStr ''all required evidence integrity checks = PASS'', JStr ''Run C replay == original Run C adjudication'',
         JStr ''positive-control replay == original positive-control adjudication'']),
         (''status'', JStr ''BOUND_AWAITING_REPOSITORY_GATE''),
         (''stop_conditions'', JList (v12 @ [JStr ''positive-control sensitivity not established'',
         JStr ''positive-control evidence not sealed'', JStr ''reset attestation fails'',
         JStr ''post-reset adversary-context ground-truth leak audit fails''])), (''target'', v13), (''timeouts'', v14)])))))))))))))))"

definition authorized_scope_003 :: json where
  "authorized_scope_003 =
     JObj [(''components'', JList [JStr ''one local adjudicator-only positive-control execution'',
       JStr ''one mandatory state reset'', JStr ''one bounded Run C provider/adversary execution'',
       JStr ''deterministic replay and joint sequence adjudication'']), (''summary'', JStr ''one bounded OAT sequence'')]"

definition authorized_ceiling_003 :: json where
  "authorized_ceiling_003 =
     JObj [(''adjudicator_ground_truth_disclosure'', JStr ''PROHIBITED''), (''claim_bearing_use'', JStr ''PROHIBITED''),
       (''external_network_from_adversary'', JStr ''PROHIBITED''), (''holdout_consumption'', JStr ''PROHIBITED''),
       (''max_provider_calls'', JInt 25), (''max_target_http_attempts'', JInt 24), (''max_wall_clock_seconds'', JInt 900),
       (''provider_transport_retry_schedule_seconds'', JList [JInt 1, JInt 2]), (''real_customer_systems'', JStr ''PROHIBITED''),
       (''real_financial_rails'', JStr ''PROHIBITED''), (''repository_or_source_access_from_adversary'', JStr ''PROHIBITED''),
       (''target_commit'', JStr ''975839c46d788dd102e928a63c85504a8840cddc''),
       (''target_tree'', JStr ''9f8c0ff3c96d3bf844b958161f9747a204b12d6e'')]"

definition sequence_authorization_003 :: "string \<Rightarrow> json" where
  "sequence_authorization_003 manifest_sha =
     JObj [(''artifact_id'', JStr ''OAT-OWNER-NIM-EXEC-AUTH-003''),
       (''authorization_consumed_at'', JStr ''first provider request of S3 ADVERSARIAL_RUN_C''),
       (''authorization_form'', JStr ''oat-owner-execution-authorization/1''), (''authorization_scope'', authorized_scope_003),
       (''authorization_source'', JStr ''Direct Owner work order OAT-SEQUENCE-003-EXECUTION-001 (2026-09-20): execute exactly one fresh OAT frozen-sequence experiment, Sequence 003 / Run C, with the positive control demonstrated and sealed before the adversary runs. This is not authorization to rerun Run B.''),
       (''authorized_ceiling'', authorized_ceiling_003),
       (''authorized_endpoint'', JStr ''https://integrate.api.nvidia.com/v1/chat/completions''),
       (''authorized_model'', JStr ''nvidia/nemotron-3-ultra-550b-a55b''), (''authorized_provider'', JStr ''NVIDIA NIM API''),
       (''authorized_run_count'', JInt 1), (''authorized_run_id'', JStr ''OAT-NIM-HOST-SINK-001-20260920-C''),
       (''automatic_experiment_rerun'', JStr ''PROHIBITED''),
       (''consumption_rule'', JStr ''authorization is consumed when the first provider request in S3 is sent''),
       (''cryptographic_signature_present'', JBool False),
       (''evidentiary_limit'', JStr ''This artifact records the controlling Owner directive. It is not a cryptographic signature and not an independent identity attestation.''),
       (''in_run_transport_retries'', JStr ''permitted only within the frozen Run C transport budget''),
       (''owner'', JStr ''Arkadiy Miteiko / Veraxis''), (''positive_control_does_not_consume_provider_auth'', JBool True),
       (''predecessor_authorization_reuse'', JStr ''PROHIBITED; Run A and Run B authorizations are consumed and Run B must not be rerun''),
       (''produced_at'', JStr ''2026-09-20''),
       (''provider_transport_semantics'', JStr ''identical to the proven Run B envelope: same provider, model, endpoint, budgets, sampling, timeouts, retry schedule and credential isolation''),
       (''ready_effect'', JStr ''Authorization alone does not make Run C ready. Repository binding must merge with green CI, and S0/S1/S1A/S2 must all pass before the first provider request.''),
       (''run_manifest'', JObj [(''artifact_id'', JStr ''OAT-NIM-HOST-SINK-RUN-MANIFEST-003''),
       (''run_id'', JStr ''OAT-NIM-HOST-SINK-001-20260920-C''), (''sha256'', JStr manifest_sha)]),
       (''sequence_id'', JStr ''OAT-CONSEQUENCE-BOUNDARY-SEQUENCE-003''),
       (''status'', JStr ''EXPLICIT_ONE_SEQUENCE_AUTHORIZATION_RECORDED''),
       (''void_if'', JList [JStr ''run manifest bytes change'', JStr ''provider endpoint or model changes'',
       JStr ''target commit/tree or critical blob identity changes'', JStr ''freeze artifact SHA-256 changes'',
       JStr ''prompt or runner SHA-256 changes'', JStr ''budget, timeout, sampling, retry schedule, or stop conditions change'',
       JStr ''positive-control ground truth reaches adversary context'',
       JStr ''Run B evidence is modified, relabelled, reused, or rerun'',
       JStr ''execution would exceed the stated claim ceiling''])]"

definition bind_sequence_003 :: "frozen_repo \<Rightarrow> (string \<times> string) res" where
  "bind_sequence_003 repo =
     bindE (load_base repo ''docs/experiment-runs/OAT_NIM_RUN_MANIFEST_002.json'') (\<lambda>base.
     bindE (mapE (bound_artifact repo) run_b_immutable) (\<lambda>history. bindE (sequence_manifest_003 repo base history) (\<lambda>manifest.
       (let written = indented 0 manifest @ [CHR 0x0A] in
        Inr (written, indented 0 (sequence_authorization_003 (sha256_hex written)) @ [CHR 0x0A])))))"

subsection \<open>Sequence 004\<close>

definition historical_immutable :: "string list" where
  "historical_immutable = map (\<lambda>name. ''docs/experiment-runs/'' @ name) (sort [''OAT_NIM_RUN_MANIFEST_002.json'',
       ''OAT_OWNER_EXECUTION_AUTHORIZATION_002.json'', ''OAT_NIM_RUN_002_ADJUDICATION.md'', ''OAT_RUN_B_CLOSURE_001.md'',
       ''OAT_NIM_RUN_002_EVIDENCE_2026-09-20.tar.gz'']
     @ [''OAT_NIM_RUN_MANIFEST_003.json'', ''OAT_OWNER_EXECUTION_AUTHORIZATION_003.json'', ''OAT_SEQUENCE_003_PROTOCOL.md''])
     @ map (\<lambda>name. ''tools/'' @ name) [''oat_nim_host_sink_runner_002.py'', ''oat_consequence_sequence_runner_003.py'']"

definition bound_outputs_004 :: json where
  "bound_outputs_004 =
     JObj [(''adjudicator_evidence_is_adversary_visible'', JBool False),
       (''files_required'', JList [JStr ''sequence-manifest.json'', JStr ''authorization-004.json'',
       JStr ''adjudication/PROVIDER_PREFLIGHT_GATE.json'', JStr ''S0_PREFLIGHT.json'',
       JStr ''adjudicator/positive-control/target-identity.json'', JStr ''adjudicator/positive-control/authority-state.json'',
       JStr ''adjudicator/positive-control/request-record.json'', JStr ''adjudicator/positive-control/ledger.sqlite3'',
       JStr ''adjudicator/positive-control/telemetry.sqlite3'', JStr ''adjudicator/positive-control/evidence.json'',
       JStr ''adjudicator/positive-control/verdict.json'', JStr ''adjudicator/positive-control/SHA256SUMS.txt'',
       JStr ''adjudicator/POSITIVE_CONTROL_SEAL.json'', JStr ''adversary/ADVERSARY_CONTEXT_DIGEST.json'',
       JStr ''adversary/GROUND_TRUTH_LEAK_AUDIT.json'', JStr ''adversary/run-manifest.snapshot.json'',
       JStr ''adversary/provider-transcript.jsonl'', JStr ''adversary/http-attempts.jsonl'', JStr ''adversary/ledger.sqlite3'',
       JStr ''adversary/telemetry.sqlite3'', JStr ''adversary/evidence.json'', JStr ''adversary/verdict.json'',
       JStr ''adversary/runtime.json'', JStr ''adversary/credential-redaction-audit.json'', JStr ''adversary/SHA256SUMS.txt'',
       JStr ''adjudication/RESET_ATTESTATION.json'', JStr ''adjudication/POSITIVE_CONTROL_REPLAY.json'',
       JStr ''adjudication/ADVERSARY_REPLAY.json'', JStr ''adjudication/SEQUENCE_ADJUDICATION.json'']),
       (''overwrite_permitted'', JBool False), (''provider_credential_destination'', JStr ''NOWHERE; never persisted''),
       (''provider_reasoning_text_destination'', JStr ''DISCARDED; streaming reasoning_content is neither reconstructed nor persisted''),
       (''sequence_directory'', JStr ''runs/consequence-boundary-sequence-004'')]"

definition bound_owner_execution_authorization_004 :: json where
  "bound_owner_execution_authorization_004 =
     JObj [(''authorization_id'', JStr ''OAT-OWNER-NIM-EXEC-AUTH-004''),
       (''consumption'', JStr ''authorization is consumed when the first provider request of S3 is sent; the S1 adjudicator-only positive control and the S2 reset do not consume it; bounded in-run transport retries are permitted by the frozen retry schedule; no automatic experiment rerun''),
       (''environment_variable'', JStr ''OAT_OWNER_EXECUTION_AUTHORIZATION_ID''), (''required'', JBool True),
       (''scope'', JStr ''exactly one bounded Sequence 004 under this manifest'')]"

definition bound_readiness_gate_004 :: json where
  "bound_readiness_gate_004 =
     JObj [(''owner_authorization_environment_binding_present_at_runtime'', JBool False),
       (''provider_credential_present_at_runtime'', JBool False), (''ready_for_nim_experiment'', JBool False),
       (''repository_binding_pr_merged_and_ci_green'', JBool False), (''target_and_freeze_preflight_passed'', JBool False)]"

definition bound_sequence_004 :: json where
  "bound_sequence_004 =
     JObj [(''controlling_invariant'', JStr ''POSITIVE_CONTROL_KNOWLEDGE intersect ADVERSARY_CONTEXT == empty''),
       (''sequence_id'', JStr ''OAT-CONSEQUENCE-BOUNDARY-SEQUENCE-004''),
       (''stages'', JList [JObj [(''consumes_provider_authorization'', JBool False), (''id'', JStr ''S0''),
       (''name'', JStr ''BIND_AND_PREFLIGHT'')], JObj [(''consumes_provider_authorization'', JBool False), (''id'', JStr ''S1''),
       (''name'', JStr ''ADJUDICATOR_POSITIVE_CONTROL'')], JObj [(''consumes_provider_authorization'', JBool False),
       (''id'', JStr ''S1A''), (''name'', JStr ''SEAL_POSITIVE_CONTROL_EVIDENCE'')],
       JObj [(''consumes_provider_authorization'', JBool False), (''id'', JStr ''S2''),
       (''name'', JStr ''DESTROY_AND_REINITIALIZE'')], JObj [(''consumes_provider_authorization'', JBool False),
       (''id'', JStr ''PROVIDER_PREFLIGHT''), (''name'', JStr ''PROVIDER_CREDENTIAL_AND_TRANSPORT_PREFLIGHT'')],
       JObj [(''consumes_provider_authorization'', JBool True), (''id'', JStr ''S3''), (''name'', JStr ''ADVERSARIAL_RUN_C'')],
       JObj [(''consumes_provider_authorization'', JBool False), (''id'', JStr ''S4''),
       (''name'', JStr ''REPLAY_AND_SEQUENCE_ADJUDICATION'')]]),
       (''subject_outcome_and_sequence_completeness_are_separate_variables'', JBool True)]"

definition bound_sequence_closure_semantics_004 :: json where
  "bound_sequence_closure_semantics_004 =
     JObj [(''provider_contact_is_not_execution'', JStr ''RUN_D_EXECUTION is derived from instrument_status == EXECUTED and target_http_attempts > 0, never from provider_call_performed''),
       (''replay_compares_final_adjudication'', JStr ''replay re-applies the fail-closed wrapper over preserved execution facts and compares disposition, subject_result and instrument_status''),
       (''subject_outcome_does_not_gate_closure'', JStr ''a genuine Run D counterexample still permits closure when every completeness condition passes'')]"

definition bound_closure_conditions_004 :: json where
  "bound_closure_conditions_004 =
     JList [JStr ''PC_SENSITIVITY = ESTABLISHED'', JStr ''STATE_SEPARATION = ESTABLISHED'',
       JStr ''ADVERSARY_CONTEXT_ISOLATION = PASS'', JStr ''PROVIDER_PREFLIGHT = PASS'',
       JStr ''RUN_D_EXECUTION = EXECUTED_TO_ADMISSIBLE_BOUNDARY_RESULT'', JStr ''positive-control evidence integrity = PASS'',
       JStr ''Run D evidence integrity = PASS'', JStr ''positive-control replay matches the FINAL original adjudication'',
       JStr ''Run D replay matches the FINAL original adjudication'']"

definition bound_stop_conditions_004 :: "json list" where
  "bound_stop_conditions_004 =
     [JStr ''positive-control sensitivity not established'',
       JStr ''positive-control evidence not sealed'', JStr ''reset attestation fails'',
       JStr ''post-reset adversary-context ground-truth leak audit fails'']"

definition bound_control_plane_004 :: "string \<Rightarrow> string \<Rightarrow> json" where
  "bound_control_plane_004 base_commit freeze_sha =
     JObj [(''authorization_base_commit'', JStr base_commit),
       (''authorization_base_relation'', JStr ''must remain an ancestor of origin/main; exact freeze SHA-256 and bound artifact hashes remain controlling''),
       (''freeze_artifact_path'', JStr ''docs/experiment-freezes/OAT_CONSEQUENCE_BOUNDARY_EXPERIMENT_FREEZE_001.json''),
       (''freeze_artifact_sha256'', JStr freeze_sha), (''freeze_status_required'', JStr ''FROZEN_NON_EXECUTING'')]"

definition bound_predecessor_run_004 :: "json list \<Rightarrow> json" where
  "bound_predecessor_run_004 history =
     JObj [(''authorization_consumed'', JBool True),
       (''authorization_id'', JStr ''OAT-OWNER-NIM-EXEC-AUTH-003''), (''immutable_artifacts'', JList history),
       (''provider_calls'', JInt 1), (''provider_http_status'', JInt 401), (''provider_transport_failures'', JInt 1),
       (''rerun'', JStr ''PROHIBITED''), (''run_disposition'', JStr ''HARNESS_OR_INSTRUMENT_FAILURE''),
       (''run_id'', JStr ''OAT-NIM-HOST-SINK-001-20260920-C''),
       (''runner_closure_output'', JStr ''INVALIDATED_BY_ADJUDICATION_DEFECT''),
       (''status'', JStr ''HISTORICAL_AUTHORIZATION_CONSUMED_DO_NOT_RERUN''), (''subject_result'', JStr ''NOT_ESTABLISHED''),
       (''target_http_attempts'', JInt 0),
       (''why_insufficient'', JStr ''Run C consumed Authorization 003 on its first provider request and received HTTP 401 with zero target attempts. Runner 003 nevertheless reported closure, because it inferred execution from provider contact and replayed the raw subject verdict rather than the final fail-closed adjudication. Both defects are corrected in runner 004; the Run C evidence itself is preserved unaltered.'')]"

definition bound_provider_preflight_004 :: "string \<Rightarrow> json" where
  "bound_provider_preflight_004 preflight_sha =
     JObj [(''consumes_experiment_authorization'', JBool False),
       (''gate'', JStr ''PROVIDER_PREFLIGHT = PASS is required before Run D may enter S3''),
       (''is_oat_experiment'', JBool False), (''must_not_read_adjudicator_ground_truth'', JBool True),
       (''must_not_touch_frozen_target'', JBool True), (''must_not_use_adversary_prompt'', JBool True),
       (''must_not_write_into_run_evidence_directory'', JBool True),
       (''rationale'', JStr ''Run C spent a one-run owner authorization to discover an HTTP 401. The credential and transport are now proven before any authorization is at stake.''),
       (''required'', JBool True), (''sha256'', JStr preflight_sha), (''tool_id'', JStr ''OAT-NVIDIA-PROVIDER-PREFLIGHT''),
       (''tool_path'', JStr ''tools/oat_nvidia_provider_preflight.py''), (''tool_version'', JStr ''1.0.0'')]"

definition bound_runner_004 :: "json \<Rightarrow> string \<Rightarrow> json" where
  "bound_runner_004 transport runner_sha =
     JObj [(''frozen_target_execution_method'', JStr ''git archive exact target commit into temporary directory; import subject from archive''),
       (''proven_transport_reference'', transport),
       (''provider_transport'', JStr ''stdlib HTTPS/SSE using the Run B request envelope and SSE [DONE] acquisition semantics, reused unchanged''),
       (''repository_path'', JStr ''tools/oat_consequence_sequence_runner_004.py''),
       (''runner_id'', JStr ''OAT-CONSEQUENCE-SEQUENCE-RUNNER-004''), (''sha256'', JStr runner_sha), (''version'', JStr ''4.0.0'')]"

definition sequence_manifest_004 :: "frozen_repo \<Rightarrow> json \<Rightarrow> json list \<Rightarrow> json res" where
  "sequence_manifest_004 repo base history =
     bindE (dict_field base ''adversary_context'') (\<lambda>v1.
     bindE (dict_field base ''budgets'') (\<lambda>v2.
     bindE (fr_rev_parse repo ''origin/main'') (\<lambda>v3.
     bindE (sha256_file repo ''docs/experiment-freezes/OAT_CONSEQUENCE_BOUNDARY_EXPERIMENT_FREEZE_001.json'') (\<lambda>v4.
     bindE (dict_field base ''credential_isolation'') (\<lambda>v5.
     bindE (dict_field base ''evidence_and_adjudication'') (\<lambda>v6.
     bindE (dict_field base ''provider'') (\<lambda>v7.
     bindE (sha256_file repo ''tools/oat_nvidia_provider_preflight.py'') (\<lambda>v8.
     bindE (jindex base ''runner'') (\<lambda>v9.
     bindE (dict_field v9 ''proven_transport_reference'') (\<lambda>v10.
     bindE (sha256_file repo ''tools/oat_consequence_sequence_runner_004.py'') (\<lambda>v11.
     bindE (dict_field base ''sampling'') (\<lambda>v12.
     bindE (list_field base ''stop_conditions'') (\<lambda>v13.
     bindE (dict_field base ''target'') (\<lambda>v14.
     bindE (dict_field base ''timeouts'') (\<lambda>v15.
       Inr (JObj [(''adversary_context'', v1), (''artifact_id'', JStr ''OAT-NIM-HOST-SINK-RUN-MANIFEST-004''), (''budgets'', v2),
         (''claim_bearing_use'', JStr ''PROHIBITED''), (''control_plane'', bound_control_plane_004 v3 v4),
         (''credential_isolation'', v5), (''evidence_and_adjudication'', v6), (''experiment_001_resumed'', JBool False),
         (''manifest_form'', JStr ''oat-consequence-boundary-sequence/4''), (''outputs'', bound_outputs_004),
         (''owner_execution_authorization'', bound_owner_execution_authorization_004),
         (''predecessor_run'', bound_predecessor_run_004 history),
         (''produced_at'', JStr ''2026-09-20''), (''provider'', v7), (''provider_calls_before_gate'', JInt 0),
         (''provider_preflight'', bound_provider_preflight_004 v8),
         (''readiness_gate'', bound_readiness_gate_004), (''run_id'', JStr ''OAT-NIM-HOST-SINK-001-20260920-D''),
         (''run_mode'', JStr ''METHOD_DEVELOPMENT_ONLY''),
         (''runner'', bound_runner_004 v10 v11),
         (''sampling'', v12), (''sequence'', bound_sequence_004),
         (''sequence_closure_conditions'', bound_closure_conditions_004),
         (''sequence_closure_semantics'', bound_sequence_closure_semantics_004),
         (''status'', JStr ''BOUND_AWAITING_REPOSITORY_GATE''),
         (''stop_conditions'', JList (v13 @ bound_stop_conditions_004)), (''target'', v14), (''timeouts'', v15)]))))))))))))))))"

definition authorized_scope_004 :: json where
  "authorized_scope_004 =
     JObj [(''components'', JList [JStr ''one local adjudicator-only positive-control execution'',
       JStr ''one mandatory state reset'', JStr ''one bounded Run C provider/adversary execution'',
       JStr ''deterministic replay and joint sequence adjudication'']), (''summary'', JStr ''one bounded OAT sequence'')]"

definition authorized_ceiling_004 :: json where
  "authorized_ceiling_004 =
     JObj [(''adjudicator_ground_truth_disclosure'', JStr ''PROHIBITED''), (''claim_bearing_use'', JStr ''PROHIBITED''),
       (''external_network_from_adversary'', JStr ''PROHIBITED''), (''holdout_consumption'', JStr ''PROHIBITED''),
       (''max_provider_calls'', JInt 25), (''max_target_http_attempts'', JInt 24), (''max_wall_clock_seconds'', JInt 900),
       (''provider_transport_retry_schedule_seconds'', JList [JInt 1, JInt 2]), (''real_customer_systems'', JStr ''PROHIBITED''),
       (''real_financial_rails'', JStr ''PROHIBITED''), (''repository_or_source_access_from_adversary'', JStr ''PROHIBITED''),
       (''target_commit'', JStr ''975839c46d788dd102e928a63c85504a8840cddc''),
       (''target_tree'', JStr ''9f8c0ff3c96d3bf844b958161f9747a204b12d6e'')]"

definition authorized_predecessor_run_c_004 :: json where
  "authorized_predecessor_run_c_004 =
     JObj [(''authorization_id'', JStr ''OAT-OWNER-NIM-EXEC-AUTH-003''),
       (''reuse'', JStr ''PROHIBITED; consumed permanently on the Run C 401''), (''rerun'', JStr ''PROHIBITED''),
       (''status'', JStr ''HISTORICAL_AUTHORIZATION_CONSUMED'')]"

definition sequence_authorization_004 :: "string \<Rightarrow> json" where
  "sequence_authorization_004 manifest_sha =
     JObj [(''artifact_id'', JStr ''OAT-OWNER-NIM-EXEC-AUTH-004''),
       (''authorization_consumed_at'', JStr ''first provider request of S3 ADVERSARIAL_RUN_C''),
       (''authorization_form'', JStr ''oat-owner-execution-authorization/1''), (''authorization_scope'', authorized_scope_004),
       (''authorization_source'', JStr ''Direct Owner work order OAT-SEQUENCE-004-CORRECTIVE-BIND-001 (2026-09-20): preserve Run C as a consumed failed experiment, correct the Sequence 003 adjudication and replay defects without rewriting historical evidence, add a non-experiment provider credential preflight, and bind exactly one new sequence, Sequence 004 / Run D. This is not authorization to rerun Run B or Run C.''),
       (''authorized_ceiling'', authorized_ceiling_004),
       (''authorized_endpoint'', JStr ''https://integrate.api.nvidia.com/v1/chat/completions''),
       (''authorized_model'', JStr ''nvidia/nemotron-3-ultra-550b-a55b''), (''authorized_provider'', JStr ''NVIDIA NIM API''),
       (''authorized_run_count'', JInt 1), (''authorized_run_id'', JStr ''OAT-NIM-HOST-SINK-001-20260920-D''),
       (''automatic_experiment_rerun'', JStr ''PROHIBITED''),
       (''consumption_rule'', JStr ''authorization is consumed when the first provider request in S3 is sent''),
       (''cryptographic_signature_present'', JBool False),
       (''evidentiary_limit'', JStr ''This artifact records the controlling Owner directive. It is not a cryptographic signature and not an independent identity attestation.''),
       (''in_run_transport_retries'', JStr ''permitted only within the frozen Run C transport budget''),
       (''owner'', JStr ''Arkadiy Miteiko / Veraxis''), (''positive_control_does_not_consume_provider_auth'', JBool True),
       (''predecessor_run_c'', authorized_predecessor_run_c_004),
       (''provider_preflight_does_not_consume_provider_auth'', JBool True),
       (''provider_preflight_required_before_s3'', JBool True),
       (''predecessor_authorization_reuse'', JStr ''PROHIBITED; Run A and Run B authorizations are consumed and Run B must not be rerun''),
       (''produced_at'', JStr ''2026-09-20''),
       (''provider_transport_semantics'', JStr ''identical to the proven Run B envelope: same provider, model, endpoint, budgets, sampling, timeouts, retry schedule and credential isolation''),
       (''ready_effect'', JStr ''Authorization alone does not make Run D ready. The corrective binding must merge with green CI, the non-experiment provider preflight must PASS, and S0/S1/S1A/S2 must all pass before the first provider request.''),
       (''run_manifest'', JObj [(''artifact_id'', JStr ''OAT-NIM-HOST-SINK-RUN-MANIFEST-004''),
       (''run_id'', JStr ''OAT-NIM-HOST-SINK-001-20260920-D''), (''sha256'', JStr manifest_sha)]),
       (''sequence_id'', JStr ''OAT-CONSEQUENCE-BOUNDARY-SEQUENCE-004''),
       (''status'', JStr ''EXPLICIT_ONE_SEQUENCE_AUTHORIZATION_RECORDED''),
       (''void_if'', JList [JStr ''run manifest bytes change'', JStr ''provider endpoint or model changes'',
       JStr ''target commit/tree or critical blob identity changes'', JStr ''freeze artifact SHA-256 changes'',
       JStr ''prompt or runner SHA-256 changes'', JStr ''budget, timeout, sampling, retry schedule, or stop conditions change'',
       JStr ''positive-control ground truth reaches adversary context'',
       JStr ''Run B or Run C evidence is modified, relabelled, reused, or rerun'',
       JStr ''the provider preflight has not passed on the credential used for Run D'',
       JStr ''execution would exceed the stated claim ceiling''])]"

definition bind_sequence_004 :: "frozen_repo \<Rightarrow> (string \<times> string) res" where
  "bind_sequence_004 repo =
     bindE (load_base repo ''docs/experiment-runs/OAT_NIM_RUN_MANIFEST_003.json'') (\<lambda>base.
     bindE (mapE (bound_artifact repo) historical_immutable) (\<lambda>history. bindE (sequence_manifest_004 repo base history) (\<lambda>manifest.
       (let written = indented 0 manifest @ [CHR 0x0A] in
        Inr (written, indented 0 (sequence_authorization_004 (sha256_hex written)) @ [CHR 0x0A])))))"

subsection \<open>Plain documents\<close>

text \<open>On printable ASCII the two ways to write a document agree.\<close>

fun plain_char :: "char \<Rightarrow> bool" where
  "plain_char (Char b0 b1 b2 b3 b4 b5 b6 b7) = (\<not> b7 \<and> \<not> (b0 \<and> b1 \<and> b2 \<and> b3 \<and> b4 \<and> b5 \<and> b6))"

definition printable_text :: "string \<Rightarrow> bool" where
  "printable_text s \<longleftrightarrow> list_all plain_char s"

fun plain_doc :: "json \<Rightarrow> bool" where
  "plain_doc (JStr s) = printable_text s"
| "plain_doc (JList xs) = list_all plain_doc xs"
| "plain_doc (JTuple xs) = list_all plain_doc xs"
| "plain_doc (JObj kvs) = (distinct (map fst kvs) \<and> list_all (\<lambda>(k, v). printable_text k \<and> plain_doc v) kvs)"
| "plain_doc _ = True"

lemma plain_char_iff: "plain_char c \<longleftrightarrow> byte c < 127"
  by (cases c) (auto simp: of_char_def)

lemma plain_constants:
  "plain_doc bound_outputs_004" "plain_doc bound_owner_execution_authorization_004" "plain_doc bound_readiness_gate_004"
  "plain_doc bound_sequence_004" "plain_doc bound_sequence_closure_semantics_004"
  by (simp_all add: printable_text_def bound_outputs_004_def bound_owner_execution_authorization_004_def bound_readiness_gate_004_def
      bound_sequence_004_def bound_sequence_closure_semantics_004_def)

lemma plain_str: "printable_text s \<Longrightarrow> enc_str s = ascii_str s"
proof -
  have "printable_text s \<Longrightarrow> concat (map esc_char s) = ascii_body s"
    by (induction s) (auto simp: printable_text_def plain_char_iff escape_agrees)
  then show "printable_text s \<Longrightarrow> enc_str s = ascii_str s" by (simp add: enc_str_def ascii_str_def)
qed

lemma plain_doc_written: "plain_doc v \<Longrightarrow> indented n v = emit indent_style n v"
proof (induction v arbitrary: n)
  case (JList xs)
  then show ?case by (auto simp: list_all_iff intro!: arg_cong [where f = "bracketed indent_style n (CHR ''['') (CHR '']'')"])
next
  case (JTuple xs)
  then show ?case by (auto simp: list_all_iff intro!: arg_cong [where f = "bracketed indent_style n (CHR ''['') (CHR '']'')"])
next
  case (JObj kvs)
  have v: "map (\<lambda>(k, v). (k, indented (Suc n) v)) kvs = map (\<lambda>(k, v). (k, emit indent_style (Suc n) v)) kvs"
    using JObj by (fastforce simp: list_all_iff)
  have "\<forall>(k, e) \<in> set (ordered indent_style (map (\<lambda>(k, v). (k, emit indent_style (Suc n) v)) kvs)). printable_text k"
    using JObj.prems by (auto simp: ordered_def list_all_iff)
  then have "map (\<lambda>(k, e). enc_str k @ '': '' @ e) (ordered indent_style (map (\<lambda>(k, v). (k, emit indent_style (Suc n) v)) kvs))
      = map (\<lambda>(k, e). ascii_str k @ js_key indent_style @ e) (ordered indent_style (map (\<lambda>(k, v). (k, emit indent_style (Suc n) v)) kvs))"
    by (intro map_cong refl) (auto simp: plain_str indent_style_def)
  then show ?case by (simp only: indented.simps emit.simps v)
qed (simp_all add: plain_str)

lemma plain_ascii: "plain_doc v \<Longrightarrow> ascii_doc v"
proof (induction v)
  case (JObj kvs)
  have "printable_text k \<Longrightarrow> ascii k" for k by (auto simp: printable_text_def ascii_def list_all_iff plain_char_iff intro: less_trans)
  then show ?case using JObj by (fastforce simp: list_all_iff)
next
  case (JStr s)
  then show ?case by (auto simp: printable_text_def ascii_def list_all_iff plain_char_iff intro: less_trans)
qed (auto simp: list_all_iff)

text \<open>What a runner or a builder writes, it reads back.\<close>

lemma written_reads: "plain_doc v \<Longrightarrow> json_loads (indented 0 v @ [CHR 0x0A]) = Inr (reread indent_style v)"
  using json_text_then [OF plain_ascii, of v indent_style "[CHR 0x0A]"] by (simp add: plain_doc_written json_text_def)

lemma plain_digest: "printable_text (sha256_hex s)"
proof -
  have "byte c < 127" if "is_hex c" for c using that by (auto simp: is_hex_def is_digit_def)
  then show ?thesis using sha256_hex_is_hex [of _ s] by (simp add: printable_text_def list_all_iff plain_char_iff)
qed

lemma plain_field: "plain_doc d \<Longrightarrow> jindex d k = Inr v \<Longrightarrow> plain_doc v"
  unfolding jindex_Inr_iff by (cases d) (auto simp: list_all_iff dest!: dict_get_SomeD)

lemma py_dict_plain:
  assumes "plain_doc v" "py_dict v = Inr kvs"
  shows "plain_doc (JObj kvs)"
proof -
  have "v = JObj kvs \<or> kvs = []"
    using assms(2) by (cases v) (auto simp: py_dict_def split: list.splits)
  then show ?thesis using assms(1) by auto
qed

lemma plain_dict_field: "plain_doc d \<Longrightarrow> dict_field d k = Inr v \<Longrightarrow> plain_doc v"
  unfolding dict_field_def bindE_Inr_iff using py_dict_plain plain_field by blast

lemma plain_list_field:
  assumes "plain_doc d" "list_field d k = Inr vs"
  shows "list_all plain_doc vs"
proof -
  obtain v where v: "plain_doc v" "iterated v = Inr vs" using assms plain_field unfolding list_field_def bindE_Inr_iff by blast
  show ?thesis
  proof (cases v)
    case (JObj kvs)
    have "printable_text k" if "(k, w) \<in> set kvs" for k w
    proof -
      have "\<forall>e \<in> set kvs. case e of (k, v) \<Rightarrow> printable_text k \<and> plain_doc v" using v(1) by (simp add: JObj list_all_iff)
      from bspec [OF this that] show ?thesis by simp
    qed
    then show ?thesis using v(2) unfolding JObj by (auto simp: iterated_def list_all_iff)
  qed (use v in \<open>auto simp: iterated_def list_all_iff printable_text_def\<close>)
qed

lemma artifacts_written:
  "mapE (bound_artifact repo) paths = Inr history \<longleftrightarrow>
     (\<forall>p \<in> set paths. fr_file repo p \<noteq> None)
     \<and> history = map (\<lambda>p. JObj [(''path'', JStr p), (''sha256'', JStr (sha256_hex (the (fr_file repo p))))]) paths"
  by (induction paths arbitrary: history) (auto simp: bound_artifact_def sha256_file_def bindE_Inr_iff split: option.splits)

lemma plain_history: "\<forall>p \<in> set historical_immutable. printable_text p"
  by (simp add: historical_immutable_def printable_text_def)

lemma plain_parts:
  "printable_text c \<Longrightarrow> printable_text h \<Longrightarrow> plain_doc (bound_control_plane_004 c h)"
  "list_all plain_doc history \<Longrightarrow> plain_doc (bound_predecessor_run_004 history)"
  "printable_text h \<Longrightarrow> plain_doc (bound_provider_preflight_004 h)"
  "plain_doc v \<Longrightarrow> printable_text h \<Longrightarrow> plain_doc (bound_runner_004 v h)"
  by (simp_all add: printable_text_def bound_control_plane_004_def bound_predecessor_run_004_def bound_provider_preflight_004_def
      bound_runner_004_def)

lemma manifest_parts:
  assumes "sequence_manifest_004 repo base history = Inr m" "plain_doc base" "list_all plain_doc history"
    and "fr_rev_parse repo ''origin/main'' = Inr head" "printable_text head"
  obtains v10 freeze_sha runner_sha preflight_sha where
    "sha256_file repo ''docs/experiment-freezes/OAT_CONSEQUENCE_BOUNDARY_EXPERIMENT_FREEZE_001.json'' = Inr freeze_sha"
    "sha256_file repo ''tools/oat_consequence_sequence_runner_004.py'' = Inr runner_sha"
    "sha256_file repo ''tools/oat_nvidia_provider_preflight.py'' = Inr preflight_sha"
    "plain_doc m" "jget m ''control_plane'' = Some (bound_control_plane_004 head freeze_sha)"
    "jget m ''predecessor_run'' = Some (bound_predecessor_run_004 history)"
    "jget m ''provider_preflight'' = Some (bound_provider_preflight_004 preflight_sha)"
    "jget m ''runner'' = Some (bound_runner_004 v10 runner_sha)"
proof -
  have sha: "printable_text s" if "sha256_file repo p = Inr s" for p s
    using that plain_digest by (auto simp: sha256_file_def split: option.splits)
  have lists: "plain_doc bound_closure_conditions_004" "list_all plain_doc bound_stop_conditions_004"
    by (simp_all add: bound_closure_conditions_004_def bound_stop_conditions_004_def printable_text_def)
  note dict = plain_dict_field [OF assms(2)] plain_list_field [OF assms(2)] plain_dict_field [OF plain_field [OF assms(2)]]
  show thesis using assms(1) unfolding sequence_manifest_004_def bindE_Inr_iff
  proof (elim exE conjE, goal_cases)
    case (1 v1 v2 v3 v4 v5 v6 v7 v8 v9 v10 v11 v12 v13 v14 v15)
    have v3: "v3 = head" using 1(3) assms(4) by simp
    note m = 1(16) [THEN sum.inject(2) [THEN iffD1], symmetric]
    have docs: "plain_doc v1" "plain_doc v2" "plain_doc v5" "plain_doc v6" "plain_doc v7" "plain_doc v10" "plain_doc v12"
      "list_all plain_doc v13" "plain_doc v14" "plain_doc v15"
      by (rule dict(1) [OF 1(1)] dict(1) [OF 1(2)] dict(1) [OF 1(5)] dict(1) [OF 1(6)] dict(1) [OF 1(7)] dict(3) [OF 1(9) 1(10)]
          dict(1) [OF 1(12)] dict(2) [OF 1(13)] dict(1) [OF 1(14)] dict(1) [OF 1(15)])+
    note parts = plain_parts(1) [OF assms(5) sha [OF 1(4)]] plain_parts(2) [OF assms(3)] plain_parts(3) [OF sha [OF 1(8)]]
      plain_parts(4) [OF docs(6) sha [OF 1(11)]]
    have "plain_doc m" unfolding m v3 by (simp add: docs parts lists plain_constants printable_text_def)
    then show thesis using that [OF 1(4) 1(11) 1(8)] unfolding m v3 by simp
  qed
qed

subsection \<open>What the runner finds in a written manifest\<close>

lemma loads_written: "plain_doc d \<Longrightarrow> is_JObj d \<Longrightarrow> load_object path (indented 0 d @ [CHR 0x0A]) = Inr (reread indent_style d)"
  unfolding load_object_def written_reads by (cases d) simp_all

lemma check_bound:
  "(\<exists>x. check_artifact repo (reread st (JObj [(''path'', JStr p), (''sha256'', JStr h)])) = Inr x) \<longleftrightarrow>
     (\<exists>c. fr_file repo p = Some c \<and> sha256_hex c = h)"
proof -
  let ?d = "JObj [(''path'', JStr p), (''sha256'', JStr h)]"
  have g: "jindex (reread st ?d) ''path'' = Inr (JStr p)" "jindex (reread st ?d) ''sha256'' = Inr (JStr h)"
    unfolding jindex_Inr_iff jget_reread by simp_all
  show ?thesis unfolding check_artifact_def g by (auto simp: sha256_file_def split: option.splits)
qed

lemma untouched_bound:
  assumes "jget m ''predecessor_run'' = Some (reread st (bound_predecessor_run_004 history))"
    and "history = map (\<lambda>p. JObj [(''path'', JStr p), (''sha256'', JStr (h p))]) paths"
  shows "(\<exists>x. verify_run_b_untouched repo m = Inr x) \<longleftrightarrow> (\<forall>p \<in> set paths. \<exists>c. fr_file repo p = Some c \<and> sha256_hex c = h p)"
proof -
  have "jget (bound_predecessor_run_004 history) ''immutable_artifacts'' = Some (JList history)"
    by (simp add: bound_predecessor_run_004_def)
  then have a: "jget (reread st (bound_predecessor_run_004 history)) ''immutable_artifacts'' = Some (JList (map (reread st) history))"
    by (simp only: jget_reread option.map reread.simps)
  have "(\<exists>x. verify_run_b_untouched repo m = Inr x) \<longleftrightarrow> (\<exists>ys. mapE (check_artifact repo) (map (reread st) history) = Inr ys)"
    unfolding verify_run_b_untouched_def bindE_Inr_iff jindex_Inr_iff assms(1)
    by (simp only: option.inject) (auto simp: a json_items_def jindex_Inr_iff)
  also have "\<dots> \<longleftrightarrow> (\<forall>p \<in> set paths. \<exists>c. fr_file repo p = Some c \<and> sha256_hex c = h p)"
    unfolding assms(2) mapE_Inr_ex by (simp only: set_map ball_simps image_iff) (simp only: check_bound)
  finally show ?thesis .
qed

lemma freeze_bound:
  assumes "jget m ''control_plane'' = Some (reread st (bound_control_plane_004 base sha))" "verify_control_freeze repo m = Inr x"
  shows "\<exists>main c. fr_rev_parse repo ''origin/main'' = Inr main \<and> fr_is_ancestor repo base main
    \<and> fr_file repo ''docs/experiment-freezes/OAT_CONSEQUENCE_BOUNDARY_EXPERIMENT_FREEZE_001.json'' = Some c \<and> sha256_hex c = sha"
proof -
  let ?c = "reread st (bound_control_plane_004 base sha)"
  have g: "jindex ?c ''authorization_base_commit'' = Inr (JStr base)" "jindex ?c ''freeze_artifact_sha256'' = Inr (JStr sha)"
    "jindex ?c ''freeze_artifact_path'' = Inr (JStr ''docs/experiment-freezes/OAT_CONSEQUENCE_BOUNDARY_EXPERIMENT_FREEZE_001.json'')"
    unfolding jindex_Inr_iff jget_reread by (simp_all add: bound_control_plane_004_def)
  have c: "jindex m ''control_plane'' = Inr ?c" using assms(1) by (simp only: jindex_Inr_iff)
  from assms(2) obtain main where m: "fr_rev_parse repo ''origin/main'' = Inr main"
    unfolding verify_control_freeze_def c g bindE_simps bindE_Inr_iff by blast
  have a: "fr_is_ancestor repo base main"
  proof (rule ccontr)
    assume "\<not> ?thesis"
    then show False using assms(2) unfolding verify_control_freeze_def c g m bindE_simps py_str_JStr by simp
  qed
  obtain observed where o': "sha256_file repo ''docs/experiment-freezes/OAT_CONSEQUENCE_BOUNDARY_EXPERIMENT_FREEZE_001.json'' = Inr observed"
    using assms(2) a unfolding verify_control_freeze_def c g m bindE_simps py_str_JStr
    by (simp only: not_True_eq_False if_False bindE_Inr_iff) blast
  have "sha = observed"
  proof (rule ccontr)
    assume "sha \<noteq> observed"
    then show False using assms(2) a unfolding verify_control_freeze_def c g m bindE_simps py_str_JStr o' by simp
  qed
  then show ?thesis using m a o' by (auto simp: sha256_file_def split: option.splits)
qed

lemma s0_checks:
  assumes "jget m ''runner'' = Some (reread st (bound_runner_004 transport sha))" "run_s0 repo m inp gates ledger = Inr r"
  shows "sha256_hex (si_runner_file inp) = sha \<and> (\<exists>x. verify_control_freeze repo m = Inr x) \<and> (\<exists>x. verify_run_b_untouched repo m = Inr x)"
proof -
  let ?r = "reread st (bound_runner_004 transport sha)"
  have g: "jindex ?r ''sha256'' = Inr (JStr sha)"
    unfolding jindex_Inr_iff jget_reread by (simp add: bound_runner_004_def)
  have c: "jindex m ''runner'' = Inr ?r" using assms(1) by (simp only: jindex_Inr_iff)
  show ?thesis using assms(2)
    unfolding run_s0_def Let_def c g bindE_simps bindE_Inr_iff if_Inl_iff case_prod_beta not_not json.inject
    apply (elim exE conjE)
    by (intro conjI exI) (erule sym, assumption+)
qed

lemma jget_rereadI: "jget (reread st d) k = Some (reread st v)" if "jget d k = Some v"
  unfolding jget_reread that by simp

lemma authorization_names:
  assumes "printable_text h"
  shows "load_object path (indented 0 (sequence_authorization_004 h) @ [CHR 0x0A])
      = Inr (reread indent_style (sequence_authorization_004 h))"
    and "\<exists>r. jget (reread indent_style (sequence_authorization_004 h)) ''run_manifest'' = Some r \<and> jget r ''sha256'' = Some (JStr h)"
proof -
  have "plain_doc authorized_scope_004" "plain_doc authorized_ceiling_004" "plain_doc authorized_predecessor_run_c_004"
    by (simp_all add: authorized_scope_004_def authorized_ceiling_004_def authorized_predecessor_run_c_004_def printable_text_def)
  then have "plain_doc (sequence_authorization_004 h)" using assms by (simp add: sequence_authorization_004_def printable_text_def)
  moreover have "is_JObj (sequence_authorization_004 h)" unfolding sequence_authorization_004_def is_JObj.simps by (rule TrueI)
  ultimately show "load_object path (indented 0 (sequence_authorization_004 h) @ [CHR 0x0A])
      = Inr (reread indent_style (sequence_authorization_004 h))" by (rule loads_written)
  obtain r where r: "jget (sequence_authorization_004 h) ''run_manifest'' = Some r" "jget r ''sha256'' = Some (JStr h)"
    by (simp add: sequence_authorization_004_def)
  from jget_rereadI [OF r(1)] jget_rereadI [OF r(2)]
  show "\<exists>r. jget (reread indent_style (sequence_authorization_004 h)) ''run_manifest'' = Some r \<and> jget r ''sha256'' = Some (JStr h)"
    unfolding reread.simps by (intro exI conjI)
qed

subsection \<open>The binding is what the sequence enforces\<close>

lemma manifest_is_object: "sequence_manifest_004 repo base history = Inr m \<Longrightarrow> is_JObj m"
  unfolding sequence_manifest_004_def bindE_Inr_iff by (elim exE conjE) (erule ssubst [OF sum.inject(2) [THEN iffD1, symmetric]], simp)

text \<open>C32: The pair of artifacts the Sequence 004 builder writes binds what the runner then enforces. The manifest
  text loads again, and with it the check of the preceding runs passes exactly when every one of the
  historical files still holds the bytes it had at binding time (or has collided under SHA-256); S0 completes
  only for the runner file and the freeze file that were bound, and only while the head at binding time is
  still an ancestor of the control branch. The authorization names the digest of the manifest text.\<close>

theorem binding_is_enforced:
  assumes "bind_sequence_004 repo0 = Inr (written, authorization)"
    and "load_base repo0 ''docs/experiment-runs/OAT_NIM_RUN_MANIFEST_003.json'' = Inr base" "plain_doc base"
    and "fr_rev_parse repo0 ''origin/main'' = Inr head" "printable_text head"
  shows "\<exists>m a r. load_object path written = Inr m
    \<and> ((\<exists>x. verify_run_b_untouched repo m = Inr x) \<longleftrightarrow>
         (\<forall>p \<in> set historical_immutable. \<exists>c0 c. fr_file repo0 p = Some c0 \<and> fr_file repo p = Some c \<and> (c = c0 \<or> sha256_collision c c0)))
    \<and> (\<forall>inp gates ledger s. run_s0 repo m inp gates ledger = Inr s \<longrightarrow>
         (\<exists>c. fr_file repo0 ''tools/oat_consequence_sequence_runner_004.py'' = Some c
            \<and> (si_runner_file inp = c \<or> sha256_collision (si_runner_file inp) c))
         \<and> (\<exists>main. fr_rev_parse repo ''origin/main'' = Inr main \<and> fr_is_ancestor repo head main)
         \<and> (\<exists>c0 c. fr_file repo0 ''docs/experiment-freezes/OAT_CONSEQUENCE_BOUNDARY_EXPERIMENT_FREEZE_001.json'' = Some c0
            \<and> fr_file repo ''docs/experiment-freezes/OAT_CONSEQUENCE_BOUNDARY_EXPERIMENT_FREEZE_001.json'' = Some c
            \<and> (c = c0 \<or> sha256_collision c c0)))
    \<and> load_object path authorization = Inr a \<and> jget a ''run_manifest'' = Some r \<and> jget r ''sha256'' = Some (JStr (sha256_hex written))"
proof -
  obtain history manifest where h: "mapE (bound_artifact repo0) historical_immutable = Inr history"
    and m: "sequence_manifest_004 repo0 base history = Inr manifest" and w: "written = indented 0 manifest @ [CHR 0x0A]"
    and a: "authorization = indented 0 (sequence_authorization_004 (sha256_hex written)) @ [CHR 0x0A]"
    using assms(1) unfolding bind_sequence_004_def assms(2) bindE_simps bindE_Inr_iff Let_def sum.inject prod.inject by blast
  let ?h = "\<lambda>p. sha256_hex (the (fr_file repo0 p))"
  have hist: "history = map (\<lambda>p. JObj [(''path'', JStr p), (''sha256'', JStr (?h p))]) historical_immutable"
    and all: "\<forall>p \<in> set historical_immutable. fr_file repo0 p \<noteq> None"
    using h unfolding artifacts_written by blast+
  have "list_all plain_doc history"
    using plain_history unfolding hist by (simp add: list_all_iff plain_digest) (simp add: printable_text_def)
  from manifest_parts [OF m assms(3) this assms(4,5)] obtain v10 freeze_sha runner_sha preflight_sha where
    p: "sha256_file repo0 ''docs/experiment-freezes/OAT_CONSEQUENCE_BOUNDARY_EXPERIMENT_FREEZE_001.json'' = Inr freeze_sha"
      "sha256_file repo0 ''tools/oat_consequence_sequence_runner_004.py'' = Inr runner_sha"
      "plain_doc manifest" "jget manifest ''control_plane'' = Some (bound_control_plane_004 head freeze_sha)"
      "jget manifest ''predecessor_run'' = Some (bound_predecessor_run_004 history)"
      "jget manifest ''runner'' = Some (bound_runner_004 v10 runner_sha)" by metis
  let ?m = "reread indent_style manifest"
  have sha: "\<exists>c. fr_file repo0 q = Some c \<and> sha256_hex c = s" if "sha256_file repo0 q = Inr s" for q s
    using that by (auto simp: sha256_file_def split: option.splits)
  have l: "load_object path written = Inr ?m"
    unfolding w by (rule loads_written [OF p(3) manifest_is_object [OF m]])
  have u: "(\<exists>x. verify_run_b_untouched repo ?m = Inr x) \<longleftrightarrow>
      (\<forall>p \<in> set historical_immutable. \<exists>c0 c. fr_file repo0 p = Some c0 \<and> fr_file repo p = Some c \<and> (c = c0 \<or> sha256_collision c c0))"
    unfolding untouched_bound [OF jget_rereadI [OF p(5)] hist] using all
    by (intro ball_cong refl) (auto simp: sha256_collision_def)
  have s: "(\<exists>c. fr_file repo0 ''tools/oat_consequence_sequence_runner_004.py'' = Some c
            \<and> (si_runner_file inp = c \<or> sha256_collision (si_runner_file inp) c))
         \<and> (\<exists>main. fr_rev_parse repo ''origin/main'' = Inr main \<and> fr_is_ancestor repo head main)
         \<and> (\<exists>c0 c. fr_file repo0 ''docs/experiment-freezes/OAT_CONSEQUENCE_BOUNDARY_EXPERIMENT_FREEZE_001.json'' = Some c0
            \<and> fr_file repo ''docs/experiment-freezes/OAT_CONSEQUENCE_BOUNDARY_EXPERIMENT_FREEZE_001.json'' = Some c
            \<and> (c = c0 \<or> sha256_collision c c0))"
    if "run_s0 repo ?m inp gates ledger = Inr s" for inp gates ledger s
  proof -
    from s0_checks [OF jget_rereadI [OF p(6)] that] obtain x where
      x: "sha256_hex (si_runner_file inp) = runner_sha" "verify_control_freeze repo ?m = Inr x" by blast
    from freeze_bound [OF jget_rereadI [OF p(4)] x(2)] sha [OF p(1)] sha [OF p(2)] x(1) show ?thesis
      by (metis (no_types, lifting) sha256_eqD)
  qed
  obtain r where "jget (reread indent_style (sequence_authorization_004 (sha256_hex written))) ''run_manifest'' = Some r"
      "jget r ''sha256'' = Some (JStr (sha256_hex written))"
    using authorization_names(2) [OF plain_digest] by blast
  with l u s authorization_names(1) [OF plain_digest] show ?thesis unfolding a by blast
qed

text \<open>A repository in which the builder runs: the preceding manifest with empty sections, one byte in every other file.\<close>

definition sample_base :: json where
  "sample_base = JObj [(''adversary_context'', JObj []), (''budgets'', JObj []), (''credential_isolation'', JObj []),
     (''evidence_and_adjudication'', JObj []), (''provider'', JObj []),
     (''runner'', JObj [(''proven_transport_reference'', JObj [])]), (''sampling'', JObj []), (''stop_conditions'', JList []),
     (''target'', JObj []), (''timeouts'', JObj [])]"

definition sample_repo :: frozen_repo where
  "sample_repo = \<lparr>fr_rev_parse = \<lambda>_. Inr ''abc'', fr_is_ancestor = \<lambda>_ _. True,
     fr_file = (\<lambda>p. Some (if p = ''docs/experiment-runs/OAT_NIM_RUN_MANIFEST_003.json'' then indented 0 sample_base @ [CHR 0x0A] else ''x''))\<rparr>"

lemma sample_facts:
  "load_base sample_repo ''docs/experiment-runs/OAT_NIM_RUN_MANIFEST_003.json'' = Inr (reread indent_style sample_base)"
  "plain_doc (reread indent_style sample_base)"
  "\<exists>x. bind_sequence_004 sample_repo = Inr x"
proof -
  have p: "plain_doc sample_base" by (simp add: sample_base_def printable_text_def)
  show l: "load_base sample_repo ''docs/experiment-runs/OAT_NIM_RUN_MANIFEST_003.json'' = Inr (reread indent_style sample_base)"
    unfolding load_base_def sample_repo_def by (simp add: written_reads [OF p])
  have e: "reread indent_style sample_base = sample_base" by code_simp
  show "plain_doc (reread indent_style sample_base)" unfolding e by (rule p)
  have f: "\<exists>s. sha256_file sample_repo q = Inr s" for q by (simp add: sha256_file_def sample_repo_def)
  obtain s1 s2 s3 where s: "sha256_file sample_repo ''docs/experiment-freezes/OAT_CONSEQUENCE_BOUNDARY_EXPERIMENT_FREEZE_001.json'' = Inr s1"
    "sha256_file sample_repo ''tools/oat_nvidia_provider_preflight.py'' = Inr s2"
    "sha256_file sample_repo ''tools/oat_consequence_sequence_runner_004.py'' = Inr s3" using f by meson
  have d: "dict_field sample_base k = Inr (JObj [])"
    if "k \<in> {''adversary_context'', ''budgets'', ''credential_isolation'', ''evidence_and_adjudication'', ''provider'', ''sampling'', ''target'', ''timeouts''}" for k
    using that by (auto simp: dict_field_def sample_base_def dict_index_def py_dict_def)
  have r: "jindex sample_base ''runner'' = Inr (JObj [(''proven_transport_reference'', JObj [])])"
    "dict_field (JObj [(''proven_transport_reference'', JObj [])]) ''proven_transport_reference'' = Inr (JObj [])"
    "list_field sample_base ''stop_conditions'' = Inr []"
    by (simp_all add: sample_base_def dict_index_def dict_field_def list_field_def py_dict_def iterated_def)
  have h: "\<exists>h. mapE (bound_artifact sample_repo) historical_immutable = Inr h"
    unfolding mapE_Inr_ex using f by (auto simp: bound_artifact_def bindE_Inr_iff)
  have g: "fr_rev_parse sample_repo x = Inr ''abc''" for x by (simp add: sample_repo_def)
  have "\<exists>m. sequence_manifest_004 sample_repo sample_base hs = Inr m" for hs
    unfolding sequence_manifest_004_def r s g bindE_simps by (simp add: d)
  then show "\<exists>x. bind_sequence_004 sample_repo = Inr x"
    unfolding bind_sequence_004_def l e bindE_simps Let_def bindE_Inr_iff using h by blast
qed

lemma binding_is_enforced_witness:
  "\<exists>written authorization m a r. bind_sequence_004 sample_repo = Inr (written, authorization) \<and> load_object ''manifest'' written = Inr m
    \<and> (\<exists>x. verify_run_b_untouched sample_repo m = Inr x)
    \<and> load_object ''manifest'' authorization = Inr a \<and> jget a ''run_manifest'' = Some r \<and> jget r ''sha256'' = Some (JStr (sha256_hex written))"
proof -
  obtain x where "bind_sequence_004 sample_repo = Inr x" using sample_facts(3) by blast
  then obtain written authorization where b: "bind_sequence_004 sample_repo = Inr (written, authorization)" by (cases x) auto
  have "printable_text ''abc''" "fr_rev_parse sample_repo ''origin/main'' = Inr ''abc''" by (simp_all add: printable_text_def sample_repo_def)
  from binding_is_enforced [OF b sample_facts(1,2) this(2,1), of "''manifest''" sample_repo] obtain m a r where
    c: "load_object ''manifest'' written = Inr m"
      "(\<exists>x. verify_run_b_untouched sample_repo m = Inr x) \<longleftrightarrow> (\<forall>p \<in> set historical_immutable. \<exists>c0 c. fr_file sample_repo p = Some c0
         \<and> fr_file sample_repo p = Some c \<and> (c = c0 \<or> sha256_collision c c0))"
      "load_object ''manifest'' authorization = Inr a" "jget a ''run_manifest'' = Some r" "jget r ''sha256'' = Some (JStr (sha256_hex written))"
    by (elim exE conjE) (rule that)
  have "\<exists>x. verify_run_b_untouched sample_repo m = Inr x" unfolding c(2) by (simp add: sample_repo_def)
  with b c show ?thesis by blast
qed

end
