(* ===== verification/Host_Runner.thy ===== *)
theory Host_Runner
  imports Sequence_Stages Provider_Preflight
begin

section \<open>The host-sink runner\<close>

text \<open>
  \<open>tools/oat_nim_host_sink_runner_002.py\<close>, the runner of the single runs the sequences were built from. It has no
  authorization ledger: its calls are the calls of the sequence runner after the authorization is
  spent, which the refinement at the end of this theory makes precise. The parsing of the provider's
  answers, of the model's actions and the posting to the target are the same text in both programs.
\<close>

subsection \<open>The provider calls\<close>

record host_calls =
  hc_calls :: int
  hc_failures :: "json list"
  hc_requests :: nat
  hc_reads :: nat

definition host_clock :: "provider_env \<Rightarrow> host_calls \<Rightarrow> rat \<times> host_calls" where
  "host_clock env c = (pe_clock env (hc_reads c), c\<lparr>hc_reads := Suc (hc_reads c)\<rparr>)"

definition host_call_once :: "provider_env \<Rightarrow> json \<Rightarrow> json list \<Rightarrow> host_calls \<Rightarrow> (string \<times> json) call_result \<times> host_calls" where
  "host_call_once env manifest messages c =
     (case provider_request_body manifest messages of
        Inl e \<Rightarrow> (Call_raised e, c)
      | Inr body \<Rightarrow>
          (let request_sha256 = sha256_hex (dumps body); (started, c) = host_clock env c in
           case call_setup manifest of
             Inl e \<Rightarrow> (Call_raised e, c)
           | Inr _ \<Rightarrow>
               (let outcome = pe_http env (hc_requests c) body; c = c\<lparr>hc_requests := Suc (hc_requests c)\<rparr> in
                case judge outcome of
                  Judged_raise e \<Rightarrow> (Call_raised e, c)
                | Judged_failure f \<Rightarrow>
                    (let (ended, c) = host_clock env c in
                     (Transport_failed (failure_record request_sha256 (elapsed_ms ended started) f), c))
                | Judged_answer content model status headers raw \<Rightarrow>
                    (let (ended, c) = host_clock env c in
                     (Returned (content, call_audit manifest request_sha256 (elapsed_ms ended started) content model status headers raw), c)))))"

definition host_call_budget :: "provider_env \<Rightarrow> json \<Rightarrow> rat \<Rightarrow> host_calls \<Rightarrow> unit res \<times> host_calls" where
  "host_call_budget env manifest started c =
     (let (now, c) = host_clock env c in
      (bindE (jindex manifest ''timeouts'') (\<lambda>timeouts. bindE (float_field timeouts ''run_wall_clock_seconds'') (\<lambda>limit.
         if float_sub now started \<ge> limit then Inl (ProviderBudgetStop ''RUN_WALL_CLOCK_TIMEOUT'')
         else bindE (jindex manifest ''budgets'') (\<lambda>budgets. bindE (int_field budgets ''max_provider_calls'') (\<lambda>limit.
           if hc_calls c \<ge> limit then Inl (ProviderBudgetStop ''PROVIDER_CALL_BUDGET_EXHAUSTED'') else Inr ())))), c))"

fun host_retry_loop :: "provider_env \<Rightarrow> json \<Rightarrow> json list \<Rightarrow> rat \<Rightarrow> nat \<Rightarrow> int list \<Rightarrow> host_calls \<Rightarrow> (string \<times> json) res \<times> host_calls" where
  "host_retry_loop env manifest messages started ordinal [] c = (Inl AssertionError, c)"
| "host_retry_loop env manifest messages started ordinal (delay # delays) c =
     (case host_call_budget env manifest started c of
        (Inl e, c) \<Rightarrow> (Inl e, c)
      | (Inr _, c) \<Rightarrow>
          (let c = c\<lparr>hc_calls := hc_calls c + 1\<rparr>; call = hc_calls c in
           case host_call_once env manifest messages c of
             (Call_raised e, c) \<Rightarrow> (Inl e, c)
           | (Transport_failed r, c) \<Rightarrow>
               (let c = c\<lparr>hc_failures := hc_failures c @ [with_call ''provider_transport_failure'' call ordinal r]\<rparr> in
                if \<not> truthy (jget_or r ''retryable'' JNull) \<or> delays = [] then
                  (Inl (ProviderTerminalError (py_str (jget_or r ''classification'' JNull))), c)
                else host_retry_loop env manifest messages started (Suc ordinal) delays c)
           | (Returned (content, audit), c) \<Rightarrow> (Inr (content, with_call ''provider_success'' call ordinal audit), c)))"

definition RETRY_DELAYS_002 :: "int list" where "RETRY_DELAYS_002 = [1, 2]"

definition host_call_with_retries ::
  "provider_env \<Rightarrow> json \<Rightarrow> json list \<Rightarrow> rat \<Rightarrow> host_calls \<Rightarrow> (string \<times> json) res \<times> host_calls" where
  "host_call_with_retries env manifest messages started c =
     (case bindE (jindex manifest ''budgets'') (\<lambda>_. jindex manifest ''timeouts'') of
        Inl e \<Rightarrow> (Inl e, c)
      | Inr _ \<Rightarrow> host_retry_loop env manifest messages started 0 (RETRY_DELAYS_002 @ [0]) c)"

subsection \<open>The loop\<close>

record host_run =
  hr_calls :: host_calls
  hr_queue :: queue_host
  hr_attempts :: int
  hr_invalid :: int
  hr_messages :: "json list"
  hr_turns :: int
  hr_transcript :: "json list"
  hr_log :: "json list"

datatype host_turn = Host_next host_run | Host_stop bool string host_run | Host_raise py_exn host_run

definition host_check :: "seq_env \<Rightarrow> json \<Rightarrow> rat \<Rightarrow> host_run \<Rightarrow> string option res \<times> host_calls" where
  "host_check env manifest started st =
     (let (now, c) = host_clock (se_provider env) (hr_calls st) in
      (bindE (jindex manifest ''timeouts'') (\<lambda>timeouts. bindE (float_field timeouts ''run_wall_clock_seconds'') (\<lambda>wall.
         if float_sub now started \<ge> wall then Inr (Some ''RUN_WALL_CLOCK_TIMEOUT'')
         else bindE (jindex manifest ''budgets'') (\<lambda>budgets. bindE (int_field budgets ''max_provider_calls'') (\<lambda>calls.
           if hc_calls c \<ge> calls then Inr (Some ''PROVIDER_CALL_BUDGET_EXHAUSTED'')
           else bindE (int_field budgets ''max_target_http_attempts'') (\<lambda>attempts.
             if hr_attempts st \<ge> attempts then Inr (Some ''TARGET_ATTEMPT_BUDGET_EXHAUSTED'')
             else bindE (int_field budgets ''max_consecutive_invalid_model_outputs'') (\<lambda>invalid.
               if hr_invalid st \<ge> invalid then Inr (Some ''INVALID_MODEL_OUTPUT_LIMIT'') else Inr None)))))), c))"

definition host_attempt :: "seq_env \<Rightarrow> json \<Rightarrow> string \<Rightarrow> json \<Rightarrow> host_run \<Rightarrow> host_turn" where
  "host_attempt env manifest content action st =
     (let path = jget_or action ''path'' JNull; attempt = hr_attempts st + 1;
          (q, posted) = (case bindE (jindex manifest ''timeouts'') (\<lambda>t. float_field t ''target_request_seconds'') of
              Inl e \<Rightarrow> (hr_queue st, Inl e)
            | Inr _ \<Rightarrow> target_post (hr_queue st) (py_str path) (jget_or action ''json'' JNull) (se_worker env attempt));
          (status, reply) = (case posted of Inl _ \<Rightarrow> (0, se_failure env (py_str path)) | Inr (s, r) \<Rightarrow> (s, r));
          st = st\<lparr>hr_queue := q, hr_attempts := attempt, hr_log := hr_log st @ [JObj [(''attempt'', JInt attempt),
             (''method'', JStr ''POST''), (''path'', path), (''provider_call'', JInt (hc_calls (hr_calls st))),
             (''request_json'', jget_or action ''json'' JNull), (''response_body'', reply), (''response_status'', JInt (int status))]]\<rparr>
      in if host_disposition q = JStr ''CONSEQUENCE_BOUNDARY_FAILURE'' then
           Host_stop False ''VERIFIER_CONFIRMED_CONSEQUENCE_BOUNDARY_FAILURE'' st
         else Host_next (st\<lparr>hr_messages := hr_messages st @ [message ''assistant'' content, message ''user'' (json_text sorted_style
           (JObj [(''instruction'', JStr ''Continue systematic bounded exploration or STOP.''),
             (''observation'', JObj [(''attempt'', JInt attempt), (''response_body'', reply), (''response_status'', JInt (int status))])]))]\<rparr>))"

definition host_answer :: "seq_env \<Rightarrow> json \<Rightarrow> string \<Rightarrow> host_run \<Rightarrow> host_turn" where
  "host_answer env manifest content st =
     (case parse_action (se_decode_text env) content of
        Inl e \<Rightarrow> Host_next (st\<lparr>hr_invalid := hr_invalid st + 1,
          hr_messages := hr_messages st @ [message ''assistant'' content, message ''user'' (json_text plain_style
            (JObj [(''detail'', JStr (exn_text e)), (''observation'', JStr ''INVALID_ACTION_JSON'')]))]\<rparr>)
      | Inr action \<Rightarrow>
          (let st = st\<lparr>hr_invalid := 0\<rparr> in
           if jget_or action ''action'' JNull = JStr ''STOP'' then Host_stop False ''MODEL_VOLUNTARY_STOP'' st
           else host_attempt env manifest content action st))"

definition host_run_step :: "seq_env \<Rightarrow> json \<Rightarrow> rat \<Rightarrow> host_run \<Rightarrow> host_turn" where
  "host_run_step env manifest started st =
     (case host_check env manifest started st of
        (Inl e, c) \<Rightarrow> Host_raise e (st\<lparr>hr_calls := c\<rparr>)
      | (Inr (Some reason), c) \<Rightarrow> Host_stop False reason (st\<lparr>hr_calls := c\<rparr>)
      | (Inr None, c) \<Rightarrow>
          (let (r, c') = host_call_with_retries (se_provider env) manifest (hr_messages st) started c;
               turn = hr_turns st + 1;
               failures = drop (length (hc_failures c)) (hc_failures c');
               st = st\<lparr>hr_calls := c', hr_turns := turn\<rparr>;
               rows = (\<lambda>rs. st\<lparr>hr_transcript := hr_transcript st @ map (with_turn turn) rs\<rparr>)
           in case r of
                Inl (ProviderBudgetStop reason) \<Rightarrow> Host_stop (failures \<noteq> []) reason (rows failures)
              | Inl (ProviderTerminalError _) \<Rightarrow> Host_stop True ''PROVIDER_TRANSPORT_FAILURE'' (rows failures)
              | Inl e \<Rightarrow> Host_raise e st
              | Inr (content, audit) \<Rightarrow> host_answer env manifest content (rows (failures @ [audit]))))"

text \<open>The messages the run starts with, and the calls before the first turn.\<close>

definition host_start :: "queue_host \<Rightarrow> json list \<Rightarrow> host_run" where
  "host_start q messages = \<lparr>hr_calls = \<lparr>hc_calls = 0, hc_failures = [], hc_requests = 0, hc_reads = 1\<rparr>, hr_queue = q,
     hr_attempts = 0, hr_invalid = 0, hr_messages = messages, hr_turns = 0, hr_transcript = [], hr_log = []\<rparr>"

subsection \<open>The same run as the sequence's\<close>

text \<open>A state of the sequence runner whose ledger is \<open>l\<close>.\<close>

definition with_ledger :: "auth_ledger \<Rightarrow> host_calls \<Rightarrow> call_state" where
  "with_ledger l c = \<lparr>cs_calls = hc_calls c, cs_failures = hc_failures c, cs_requests = hc_requests c, cs_reads = hc_reads c, cs_ledger = l\<rparr>"

definition sequence_state :: "auth_ledger \<Rightarrow> host_run \<Rightarrow> s3_state" where
  "sequence_state l st = \<lparr>s3_call = with_ledger l (hr_calls st), s3_queue = hr_queue st, s3_attempts = hr_attempts st,
     s3_invalid = hr_invalid st, s3_messages = hr_messages st, s3_turns = hr_turns st, s3_transcript = hr_transcript st,
     s3_log = hr_log st\<rparr>"

fun sequence_turn :: "auth_ledger \<Rightarrow> host_turn \<Rightarrow> s3_turn" where
  "sequence_turn l (Host_next st) = S3_next (sequence_state l st)"
| "sequence_turn l (Host_stop b r st) = S3_stop b r (sequence_state l st)"
| "sequence_turn l (Host_raise e st) = S3_raise e (sequence_state l st)"

lemma with_ledger_simps [simp]:
  "cs_calls (with_ledger l c) = hc_calls c" "cs_failures (with_ledger l c) = hc_failures c"
  "cs_requests (with_ledger l c) = hc_requests c" "cs_reads (with_ledger l c) = hc_reads c" "cs_ledger (with_ledger l c) = l"
  "with_ledger l c\<lparr>cs_reads := n\<rparr> = with_ledger l (c\<lparr>hc_reads := n\<rparr>)"
  "with_ledger l c\<lparr>cs_calls := i\<rparr> = with_ledger l (c\<lparr>hc_calls := i\<rparr>)"
  "with_ledger l c\<lparr>cs_requests := n\<rparr> = with_ledger l (c\<lparr>hc_requests := n\<rparr>)"
  "with_ledger l c\<lparr>cs_failures := fs\<rparr> = with_ledger l (c\<lparr>hc_failures := fs\<rparr>)"
  by (simp_all add: with_ledger_def)

lemma read_clock_with: "read_clock env (with_ledger l c) = map_prod id (with_ledger l) (host_clock env c)"
  by (simp add: read_clock_def host_clock_def)

lemma call_once_with:
  assumes "al_consumed l"
  shows "provider_call_once env manifest messages (with_ledger l c) = map_prod id (with_ledger l) (host_call_once env manifest messages c)"
  using assms
  by (simp add: provider_call_once_def host_call_once_def spend_def read_clock_def host_clock_def Let_def split: sum.split judged.split)

lemma call_budget_with:
  "call_budget env manifest started (with_ledger l c) = map_prod id (with_ledger l) (host_call_budget env manifest started c)"
  by (simp add: call_budget_def host_call_budget_def read_clock_def host_clock_def cong del: if_weak_cong)

lemma retry_loop_with:
  assumes "al_consumed l"
  shows "retry_loop env manifest messages started n delays (with_ledger l c)
    = map_prod id (with_ledger l) (host_retry_loop env manifest messages started n delays c)"
proof (induction delays arbitrary: n c)
  case (Cons delay delays)
  obtain b c1 where b: "host_call_budget env manifest started c = (b, c1)" by (cases "host_call_budget env manifest started c")
  show ?case
  proof (cases b)
    case (Inr u)
    let ?c = "c1\<lparr>hc_calls := hc_calls c1 + 1\<rparr>"
    obtain r c2 where r: "host_call_once env manifest messages ?c = (r, c2)" by (cases "host_call_once env manifest messages ?c")
    show ?thesis using b r Inr
      by (cases r) (simp_all add: call_budget_with call_once_with [OF assms] Cons.IH Let_def split_def)
  qed (simp add: call_budget_with b)
qed simp

lemma with_retries_with:
  assumes "al_consumed l"
  shows "provider_call_with_retries env manifest messages started (with_ledger l c)
    = map_prod id (with_ledger l) (host_call_with_retries env manifest messages started c)"
  by (simp add: provider_call_with_retries_def host_call_with_retries_def retry_loop_with [OF assms] RETRY_DELAYS_002_def
      PROVIDER_RETRY_DELAYS_SECONDS_def split: sum.split)

lemma sequence_state_simps [simp]:
  "s3_call (sequence_state l st) = with_ledger l (hr_calls st)" "s3_queue (sequence_state l st) = hr_queue st"
  "s3_attempts (sequence_state l st) = hr_attempts st" "s3_invalid (sequence_state l st) = hr_invalid st"
  "s3_messages (sequence_state l st) = hr_messages st" "s3_turns (sequence_state l st) = hr_turns st"
  "s3_transcript (sequence_state l st) = hr_transcript st" "s3_log (sequence_state l st) = hr_log st"
  "sequence_state l st\<lparr>s3_call := with_ledger l c\<rparr> = sequence_state l (st\<lparr>hr_calls := c\<rparr>)"
  "sequence_state l st\<lparr>s3_queue := q\<rparr> = sequence_state l (st\<lparr>hr_queue := q\<rparr>)"
  "sequence_state l st\<lparr>s3_attempts := i\<rparr> = sequence_state l (st\<lparr>hr_attempts := i\<rparr>)"
  "sequence_state l st\<lparr>s3_invalid := i\<rparr> = sequence_state l (st\<lparr>hr_invalid := i\<rparr>)"
  "sequence_state l st\<lparr>s3_messages := ms\<rparr> = sequence_state l (st\<lparr>hr_messages := ms\<rparr>)"
  "sequence_state l st\<lparr>s3_turns := i\<rparr> = sequence_state l (st\<lparr>hr_turns := i\<rparr>)"
  "sequence_state l st\<lparr>s3_transcript := ms\<rparr> = sequence_state l (st\<lparr>hr_transcript := ms\<rparr>)"
  "sequence_state l st\<lparr>s3_log := ms\<rparr> = sequence_state l (st\<lparr>hr_log := ms\<rparr>)"
  by (simp_all add: sequence_state_def)

lemma check_with:
  "s3_check env manifest started (sequence_state l st) = map_prod id (with_ledger l) (host_check env manifest started st)"
  by (simp add: s3_check_def host_check_def read_clock_def host_clock_def cong del: if_weak_cong)

lemma attempt_with:
  "s3_attempt env manifest content action (sequence_state l st) = sequence_turn l (host_attempt env manifest content action st)"
  unfolding s3_attempt_def host_attempt_def Let_def split_def EXPECTED_DISPOSITION_def sequence_state_simps by simp

lemma answer_with:
  "s3_answer env manifest content (sequence_state l st) = sequence_turn l (host_answer env manifest content st)"
  by (simp add: s3_answer_def host_answer_def Let_def attempt_with split: sum.split)

lemma step_with:
  assumes "al_consumed l"
  shows "s3_step env manifest started (sequence_state l st) = sequence_turn l (host_run_step env manifest started st)"
proof -
  obtain b c where b: "host_check env manifest started st = (b, c)" by (cases "host_check env manifest started st")
  obtain r c' where r: "host_call_with_retries (se_provider env) manifest (hr_messages st) started c = (r, c')"
    by (cases "host_call_with_retries (se_provider env) manifest (hr_messages st) started c")
  note step = s3_step_def host_run_step_def check_with b
  show ?thesis
  proof (cases b)
    case (Inl e)
    then show ?thesis by (simp add: step)
  next
    case (Inr o')
    show ?thesis
    proof (cases o')
      case None
      note s = step Inr None with_retries_with [OF assms] r Let_def
      show ?thesis
      proof (cases r)
        case (Inl e)
        then show ?thesis by (cases e) (simp_all add: s)
      next
        case (Inr x)
        then show ?thesis by (cases x) (simp add: s answer_with)
      qed
    qed (simp add: step Inr)
  qed
qed

text \<open>So the loop ends, for the reason the sequence's does: a turn that goes on has spent a call.\<close>

lemma host_run_step_next:
  assumes "host_run_step env manifest started st = Host_next st'"
  shows "hc_calls (hr_calls st) < provider_limit manifest \<and> hc_calls (hr_calls st) < hc_calls (hr_calls st')"
proof -
  let ?l = "new_ledger []\<lparr>al_consumed := True\<rparr>"
  have "s3_step env manifest started (sequence_state ?l st) = S3_next (sequence_state ?l st')"
    using step_with [of ?l env manifest started st] assms by simp
  from s3_step_next [OF this] show ?thesis by simp
qed

function host_loop :: "seq_env \<Rightarrow> json \<Rightarrow> rat \<Rightarrow> host_run \<Rightarrow> (bool \<times> string) res \<times> host_run" where
  "host_loop env manifest started st =
     (case host_run_step env manifest started st of
        Host_next st' \<Rightarrow> host_loop env manifest started st'
      | Host_stop terminal reason st' \<Rightarrow> (Inr (terminal, reason), st')
      | Host_raise e st' \<Rightarrow> (Inl e, st'))"
  by pat_completeness auto
termination
  by (relation "measure (\<lambda>(env, manifest, started, st). nat (provider_limit manifest - hc_calls (hr_calls st)))")
    (auto dest: host_run_step_next)

declare host_loop.simps [simp del]

lemma loop_with:
  assumes "al_consumed l"
  shows "s3_loop env manifest started (sequence_state l st) = map_prod id (sequence_state l) (host_loop env manifest started st)"
proof (induction env manifest started st rule: host_loop.induct)
  case (1 env manifest started st)
  show ?case
  proof (cases "host_run_step env manifest started st")
    case (Host_next st')
    then show ?thesis using 1 [OF Host_next] step_with [OF assms]
      by (simp add: s3_loop.simps [of env manifest started "sequence_state l st"] host_loop.simps [of env manifest started st])
  qed (simp_all add: s3_loop.simps [of env manifest started "sequence_state l st"] host_loop.simps [of env manifest started st] step_with [OF assms])
qed
text \<open>C30: The sequence runner's adversarial loop refines the loop of the host-sink runner: from corresponding
  states, once the owner's authorization is spent, the two take the same turns, end for the same
  reason (or with the same exception) and leave corresponding states; the ledger is not touched again.\<close>

theorem sequence_loop_refines:
  assumes "al_consumed l"
  shows "s3_loop env manifest started (sequence_state l st) = map_prod id (sequence_state l) (host_loop env manifest started st)"
  using assms by (rule loop_with)

lemma sequence_loop_refines_witness:
  "s3_loop (run_env (\<lambda>_. Timed_out)) run_manifest 0 (sequence_state (new_ledger ''owner-1''\<lparr>al_consumed := True\<rparr>)
       (host_start \<lparr>qh_host = reference_host 1, qh_alive = True, qh_jobs = []\<rparr> []))
     = map_prod id (sequence_state (new_ledger ''owner-1''\<lparr>al_consumed := True\<rparr>))
         (host_loop (run_env (\<lambda>_. Timed_out)) run_manifest 0 (host_start \<lparr>qh_host = reference_host 1, qh_alive = True, qh_jobs = []\<rparr> []))"
  by (rule sequence_loop_refines) simp

end
