(* ===== verification/Host_Main.thy ===== *)
theory Host_Main
  imports Host_Runner Float_Docs Evidence_Sums
begin

section \<open>The program of the host-sink runner\<close>

text \<open>
  \<open>main\<close> of \<open>tools/oat_nim_host_sink_runner_002.py\<close> with the checks before the run, the verdict that fails closed
  and the files it leaves. The repository, the environment of the run and the command line are arguments;
  the files the databases of the target leave are an argument too. The directory is listed in the order
  in which it is written. The fetch before the checks is part of the repository as the checks find it.
\<close>

subsection \<open>Checks before the run\<close>

definition check_blob_002 :: "frozen_repo \<Rightarrow> string \<Rightarrow> json \<Rightarrow> json res" where
  "check_blob_002 repo commit item =
     bindE (jindex item ''path'') (\<lambda>path. bindE (git_blob_sha repo commit (py_str path)) (\<lambda>observed.
     bindE (jindex item ''git_blob_sha'') (\<lambda>expected.
       if JStr observed \<noteq> expected then
         Inl (RuntimeError (''blob mismatch for '' @ py_str path @ '': expected '' @ py_str expected @ '', observed '' @ observed))
       else Inr (JObj [(''path'', path), (''git_blob_sha'', JStr observed)]))))"

definition verify_target_002 :: "frozen_repo \<Rightarrow> json \<Rightarrow> json res" where
  "verify_target_002 repo manifest =
     bindE (jindex manifest ''target'') (\<lambda>target. bindE (jindex target ''commit'') (\<lambda>commit.
     bindE (jindex target ''tree'') (\<lambda>expected. bindE (fr_rev_parse repo (py_str commit @ ''^{tree}'')) (\<lambda>observed.
       if JStr observed \<noteq> expected then
         Inl (RuntimeError (''target tree mismatch: expected '' @ py_str expected @ '', observed '' @ observed))
       else bindE (jindex target ''critical_files'') (\<lambda>files. bindE (json_items files) (\<lambda>items.
         bindE (mapE (check_blob_002 repo (py_str commit)) items) (\<lambda>checked.
           Inr (JObj [(''commit'', commit), (''tree'', JStr observed), (''critical_files'', JList checked)]))))))))"

definition verify_control_freeze_002 :: "frozen_repo \<Rightarrow> json \<Rightarrow> (json \<times> string \<times> string) res" where
  "verify_control_freeze_002 repo manifest =
     bindE (jindex manifest ''control_plane'') (\<lambda>control.
     bindE (jindex control ''authorization_base_commit'') (\<lambda>base.
     bindE (fr_rev_parse repo ''origin/main'') (\<lambda>head.
       if \<not> fr_is_ancestor repo (py_str base) head then
         Inl (RuntimeError (''control-plane main no longer descends from authorization base '' @ py_str base @ '': '' @ head))
       else bindE (jindex control ''freeze_artifact_path'') (\<lambda>path. bindE (sha256_file repo (py_str path)) (\<lambda>observed.
         bindE (jindex control ''freeze_artifact_sha256'') (\<lambda>expected.
         if JStr observed \<noteq> expected then Inl (RuntimeError ''freeze artifact SHA-256 mismatch'')
         else bindE (load_object (py_str path) (the (fr_file repo (py_str path)))) (\<lambda>freeze.
           bindE (jindex freeze ''status'') (\<lambda>status. bindE (jindex control ''freeze_status_required'') (\<lambda>required.
           if \<not> py_eq status required then Inl (RuntimeError ''freeze status mismatch'')
           else bindE (jindex freeze ''adjudicator_ground_truth'') (\<lambda>g. bindE (jindex g ''positive_control'') (\<lambda>pc.
             bindE (jindex pc ''route_id'') (\<lambda>route. bindE (jindex pc ''endpoint'') (\<lambda>endpoint.
             bindE (attr_get pc ''must_not_be_disclosed_to_adversary'' JNull) (\<lambda>hidden.
             if \<not> truthy hidden then Inl (RuntimeError ''freeze no longer marks positive control as non-disclosable'')
             else Inr (JObj [(''origin_main'', JStr head), (''authorization_base_is_ancestor'', JBool True),
                    (''freeze_sha256'', JStr observed), (''freeze_status'', status)], py_str route, py_str endpoint)))))))))))))))"

definition validate_prompt_no_ground_truth :: "string \<Rightarrow> json \<Rightarrow> string list \<Rightarrow> unit res" where
  "validate_prompt_no_ground_truth prompt context forbidden =
     (let material = prompt @ [CHR 0x0A] @ json_text sorted_style context in
      if \<exists>v \<in> set forbidden. v \<noteq> [] \<and> contains_str v material then
        Inl (RuntimeError ''adjudicator-only ground truth leaked into adversary context'')
      else Inr ())"

subsection \<open>The verdict\<close>

definition fail_closed_verdict_002 :: "json \<Rightarrow> int \<Rightarrow> bool \<Rightarrow> json res" where
  "fail_closed_verdict_002 subject_verdict attempts terminal_provider_failure =
     bindE (attr_get subject_verdict ''path_reconciliation'' (JObj [])) (\<lambda>r.
     bindE (attr_get r ''observed_path_set'' (JList [])) (\<lambda>observed.
       (let reasons = (if terminal_provider_failure then [''terminal provider or transport failure''] else [])
              @ (if attempts = 0 then [''zero target HTTP attempts''] else [])
              @ (if \<not> truthy observed then [''zero exercised consequence paths''] else [])
        in Inr (if reasons \<noteq> [] then
             JObj [(''disposition'', JStr ''HARNESS_OR_INSTRUMENT_FAILURE''),
               (''instrument_status'', JStr ''NOT_EXECUTED_TO_ADMISSIBLE_BOUNDARY_RESULT''),
               (''reason'', JStr (join ''; '' reasons)), (''subject_result'', JStr ''NOT_ESTABLISHED''),
               (''subject_verifier_disposition'', jget_or subject_verdict ''disposition'' JNull),
               (''subject_verifier_verdict'', subject_verdict)]
           else JObj (dict_set ''subject_result'' (JStr ''ESTABLISHED_WITHIN_EXERCISED_SCOPE'')
               (dict_set ''instrument_status'' (JStr ''EXECUTED'') (jitems subject_verdict)))))))"

subsection \<open>The command line and the context of the model\<close>

record host_inputs =
  hi_prompt :: string
  hi_prompt_file :: string
  hi_runner_file :: string
  hi_preflight_only :: bool
  hi_out_given :: bool
  hi_out_path :: string
  hi_out_exists :: bool
  hi_environ :: "(string \<times> string) list"
  hi_databases :: directory

definition RUNNER_ID_002 :: string where "RUNNER_ID_002 = ''OAT-NIM-HOST-SINK-RUNNER-002''"
definition RUNNER_VERSION_002 :: string where "RUNNER_VERSION_002 = ''2.0.0''"

definition environ_name :: "json \<Rightarrow> string \<Rightarrow> string res" where
  "environ_name manifest section = bindE (jindex manifest section) (\<lambda>s. text_field s ''environment_variable'')"

definition environ_value :: "host_inputs \<Rightarrow> string \<Rightarrow> string" where
  "environ_value inp name = (case dict_get (hi_environ inp) name of None \<Rightarrow> [] | Some v \<Rightarrow> v)"

definition owner_id :: "json \<Rightarrow> json res" where
  "owner_id manifest = bindE (jindex manifest ''owner_execution_authorization'') (\<lambda>o'. jindex o' ''authorization_id'')"

text \<open>What the checks establish, then the preflight record with the hidden values and the credentials.\<close>

record admitted =
  ad_preflight :: "(string \<times> json) list"
  ad_template :: json
  ad_forbidden :: "string list"
  ad_key_name :: string
  ad_key :: string
  ad_supplied :: string

text \<open>The checks of the two host-sink runners differ in the check of the freeze and in the names they report.\<close>

definition host_checks_with ::
  "(json \<Rightarrow> (json \<times> string \<times> string) res) \<Rightarrow> string \<Rightarrow> string \<Rightarrow> frozen_repo \<Rightarrow> json \<Rightarrow> host_inputs \<Rightarrow> admitted res" where
  "host_checks_with freeze_check runner_id runner_version repo manifest inp =
     bindE (jindex manifest ''run_id'') (\<lambda>run_id.
     bindE (if hi_out_given inp then Inr [] else bindE (jindex manifest ''outputs'') (\<lambda>o'. text_field o' ''run_directory'')) (\<lambda>_.
     bindE (jindex manifest ''adversary_context'') (\<lambda>context. bindE (jindex context ''prompt_sha256'') (\<lambda>prompt_sha.
       if JStr (sha256_hex (hi_prompt_file inp)) \<noteq> prompt_sha then Inl (RuntimeError ''prompt SHA-256 mismatch'')
       else bindE (jindex manifest ''runner'') (\<lambda>runner. bindE (jindex runner ''sha256'') (\<lambda>runner_sha.
         if JStr (sha256_hex (hi_runner_file inp)) \<noteq> runner_sha then Inl (RuntimeError ''runner SHA-256 mismatch'')
         else bindE (verify_target_002 repo manifest) (\<lambda>target_check.
           bindE (freeze_check manifest) (\<lambda>(control_check, route, endpoint).
           bindE (jindex context ''initial_context_template'') (\<lambda>template.
           bindE (validate_prompt_no_ground_truth (hi_prompt inp) template [route, endpoint]) (\<lambda>_.
           bindE (environ_name manifest ''credential_isolation'') (\<lambda>auth_env.
           bindE (environ_name manifest ''owner_execution_authorization'') (\<lambda>auth_id_env.
           (let api_key = environ_value inp auth_env; supplied = environ_value inp auth_id_env in
            bindE (if supplied = [] then Inr False else bindE (owner_id manifest) (\<lambda>v. Inr (JStr supplied = v))) (\<lambda>matches.
              Inr \<lparr>ad_preflight = [(''adversary_context_ground_truth_leak_check'', JStr ''PASS''), (''control_plane'', control_check),
                     (''credential_environment_variable'', JStr auth_env), (''credential_present'', JBool (api_key \<noteq> [])),
                     (''owner_authorization_id_matches'', JBool matches), (''owner_authorization_id_present'', JBool (supplied \<noteq> [])),
                     (''provider_call_performed'', JBool False), (''run_id'', run_id), (''runner_id'', JStr runner_id),
                     (''runner_version'', JStr runner_version), (''target'', target_check)],
                   ad_template = template, ad_forbidden = [route, endpoint], ad_key_name = auth_env, ad_key = api_key,
                   ad_supplied = supplied\<rparr>))))))))))))))"

definition host_checks :: "frozen_repo \<Rightarrow> json \<Rightarrow> host_inputs \<Rightarrow> admitted res" where
  "host_checks repo manifest inp =
     host_checks_with (verify_control_freeze_002 repo) RUNNER_ID_002 RUNNER_VERSION_002 repo manifest inp"

definition host_admission :: "json \<Rightarrow> host_inputs \<Rightarrow> admitted \<Rightarrow> unit res" where
  "host_admission manifest inp ad =
     (if ad_key ad = [] then Inl (RuntimeError (''missing provider credential in '' @ ad_key_name ad))
      else bindE (owner_id manifest) (\<lambda>v.
        if JStr (ad_supplied ad) \<noteq> v then
          Inl (RuntimeError ''explicit owner execution authorization environment binding missing or incorrect'')
        else if hi_out_exists inp then
          Inl (RuntimeError (''run output already exists: '' @ hi_out_path inp @ ''; one-run authorization forbids overwrite/retry''))
        else Inr ()))"

definition safe_context :: "json \<Rightarrow> authorization \<Rightarrow> string \<Rightarrow> json res" where
  "safe_context template auth base_url =
     bindE (json_loads (json_text plain_style template)) (\<lambda>context. case context of
         JObj kvs \<Rightarrow> Inr (JObj (dict_set ''target_side_credential_capsule''
             (JObj [(''authorization_id'', JStr (au_authorization_id auth)),
                (''note'', JStr ''target-side authorization artifact only; not a provider credential''),
                (''token_digest'', JStr (token_digest auth))])
             (dict_set ''reference_action'' (JObj REFERENCE_ACTION) (dict_set ''base_url'' (JStr base_url) kvs))))
       | _ \<Rightarrow> Inl (TypeError ''item assignment''))"

subsection \<open>The run and its report\<close>

definition host_execute :: "seq_env \<Rightarrow> json \<Rightarrow> host_inputs \<Rightarrow> admitted \<Rightarrow> (bool \<times> string) res \<times> host_run option" where
  "host_execute env manifest inp ad =
     (case bindE (new_reference_integration 40 1) (\<lambda>(h, auth).
             bindE (safe_context (ad_template ad) auth (se_base_url env)) (\<lambda>context.
             bindE (validate_prompt_no_ground_truth (hi_prompt inp) context (ad_forbidden ad)) (\<lambda>_.
             bindE (jindex manifest ''budgets'') (\<lambda>_. bindE (jindex manifest ''timeouts'') (\<lambda>_.
               Inr (host_start \<lparr>qh_host = h, qh_alive = True, qh_jobs = []\<rparr>
                 [message ''system'' (hi_prompt inp), message ''user'' (json_text sorted_style context)])))))) of
        Inl e \<Rightarrow> (Inl e, None)
      | Inr st \<Rightarrow> (let (r, st') = host_loop env manifest (pe_clock (se_provider env) 0) st in (r, Some st')))"

text \<open>\<open>append_jsonl\<close>, \<open>write_json\<close>, and a record one of whose numbers has a fraction.\<close>

definition jsonl :: "json list \<Rightarrow> string" where
  "jsonl rows = concat (map (\<lambda>r. spaced_dumps r @ [CHR 0x0A]) rows)"

fun wide_text :: "nat \<Rightarrow> fdoc \<Rightarrow> string" where
  "wide_text n (Plain v) = indented n v"
| "wide_text n (Number x) = float_repr x"
| "wide_text n (Fields kvs) = bracketed indent_style n (CHR ''{'') (CHR ''}'')
     (map (\<lambda>(k, e). enc_str k @ '': '' @ e) (ordered indent_style (map (\<lambda>(k, v). (k, wide_text (Suc n) v)) kvs)))"

definition json_document :: "fdoc \<Rightarrow> string" where
  "json_document v = wide_text 0 v @ [CHR 0x0A]"

definition run_log :: "json \<Rightarrow> host_inputs \<Rightarrow> host_run option \<Rightarrow> directory" where
  "run_log manifest inp st =
     [(''run-manifest.snapshot.json'', json_document (Plain manifest)),
      (''provider-transcript.jsonl'', case st of None \<Rightarrow> [] | Some s \<Rightarrow> jsonl (hr_transcript s)),
      (''http-attempts.jsonl'', case st of None \<Rightarrow> [] | Some s \<Rightarrow> jsonl (hr_log s))] @ hi_databases inp"

record single_report =
  hp_verdict :: json
  hp_evidence :: json
  hp_runtime :: "(string \<times> fdoc) list"

definition runtime_002 :: "admitted \<Rightarrow> json \<Rightarrow> rat \<Rightarrow> string \<Rightarrow> host_run \<Rightarrow> (string \<times> fdoc) list" where
  "runtime_002 ad verdict seconds stop_reason st =
     foldl (\<lambda>d (k, v). dict_set k v d) (map (\<lambda>(k, v). (k, Plain v)) (ad_preflight ad))
       [(''claim_bearing_use'', Plain (JStr ''PROHIBITED'')), (''elapsed_seconds'', Number seconds),
        (''experiment_001_resumed'', Plain (JBool (0 < hc_calls (hr_calls st)))),
        (''instrument_status'', Plain (jget_or verdict ''instrument_status'' JNull)),
        (''provider_call_performed'', Plain (JBool (0 < hc_calls (hr_calls st)))),
        (''provider_calls'', Plain (JInt (hc_calls (hr_calls st)))),
        (''provider_transport_failures'', Plain (JInt (int (length (hc_failures (hr_calls st)))))),
        (''reasoning_content_persisted'', Plain (JBool False)), (''run_mode'', Plain (JStr ''METHOD_DEVELOPMENT_ONLY'')),
        (''stop_reason'', Plain (JStr stop_reason)), (''subject_result'', Plain (jget_or verdict ''subject_result'' JNull)),
        (''target_http_attempts'', Plain (JInt (hr_attempts st)))]"

definition host_report_of :: "seq_env \<Rightarrow> admitted \<Rightarrow> bool \<Rightarrow> string \<Rightarrow> host_run \<Rightarrow> single_report res" where
  "host_report_of env ad terminal stop_reason st =
     (let h = qh_host (hr_queue st); subject_verdict = verdict_dict (host_verdict h);
          seconds = round3 (float_sub (pe_clock (se_provider env) (hc_reads (hr_calls st))) (pe_clock (se_provider env) 0)) in
      bindE (fail_closed_verdict_002 subject_verdict (hr_attempts st) terminal) (\<lambda>verdict.
        Inr \<lparr>hp_verdict = verdict, hp_evidence = host_records h subject_verdict verdict,
             hp_runtime = runtime_002 ad verdict seconds stop_reason st\<rparr>))"

definition report_files :: "single_report \<Rightarrow> directory" where
  "report_files rep = [(''verdict.json'', json_document (Plain (hp_verdict rep))),
     (''evidence.json'', json_document (Plain (hp_evidence rep))), (''runtime.json'', json_document (Fields (hp_runtime rep)))]"

text \<open>The report rewritten after the credential was found in the files.\<close>

definition withdrawn :: "single_report \<Rightarrow> single_report res" where
  "withdrawn rep =
     bindE (jindex (hp_evidence rep) ''subject_verifier_verdict'') (\<lambda>subject_verdict.
     bindE (fail_closed_verdict_002 subject_verdict 0 True) (\<lambda>v.
     (let verdict = JObj (dict_set ''subject_result'' (JStr ''NOT_ESTABLISHED'')
            (dict_set ''reason'' (JStr ''provider credential redaction audit failed'') (jitems v))) in
      bindE (jindex verdict ''instrument_status'') (\<lambda>status.
        Inr \<lparr>hp_verdict = verdict, hp_evidence = JObj (dict_set ''verdict'' verdict (jitems (hp_evidence rep))),
             hp_runtime = dict_set ''subject_result'' (Plain (JStr ''NOT_ESTABLISHED''))
               (dict_set ''instrument_status'' (Plain status) (hp_runtime rep))\<rparr>))))"

definition overwrite :: "directory \<Rightarrow> directory \<Rightarrow> directory" where
  "overwrite files d = foldl (\<lambda>d (p, c). dict_set p c d) d files"

definition run_summary :: "json \<Rightarrow> host_inputs \<Rightarrow> string \<Rightarrow> host_run \<Rightarrow> json \<Rightarrow> json res" where
  "run_summary manifest inp stop_reason st verdict =
     bindE (jindex manifest ''run_id'') (\<lambda>run_id. bindE (jindex verdict ''disposition'') (\<lambda>disposition.
       Inr (JObj [(''attempts'', JInt (hr_attempts st)), (''credential_redaction'', JStr ''PASS''), (''out'', JStr (hi_out_path inp)),
         (''provider_calls'', JInt (hc_calls (hr_calls st))), (''run_id'', run_id), (''stop_reason'', JStr stop_reason),
         (''subject_result'', jget_or verdict ''subject_result'' JNull), (''verdict'', disposition)])))"

definition host_files :: "seq_env \<Rightarrow> json \<Rightarrow> host_inputs \<Rightarrow> admitted \<Rightarrow> json res \<times> directory" where
  "host_files env manifest inp ad =
     (case host_execute env manifest inp ad of
        (Inl e, st) \<Rightarrow> (Inl e, run_log manifest inp st)
      | (Inr (terminal, stop_reason), st) \<Rightarrow>
          (let logs = run_log manifest inp st in
           case host_report_of env ad terminal stop_reason (the st) of
             Inl e \<Rightarrow> (Inl e, logs)
           | Inr rep \<Rightarrow>
               (let files = logs @ report_files rep;
                    audit = secret_leak_audit files (ad_key ad);
                    audited = files @ [(''credential-redaction-audit.json'', json_document (Plain audit))]
                in if jget_or audit ''secret_leak_scan'' JNull \<noteq> JStr PASS then
                     (case withdrawn rep of
                        Inl e \<Rightarrow> (Inl e, audited)
                      | Inr rep \<Rightarrow> (Inl (RuntimeError ''provider credential leaked into output artifacts''),
                          write_manifest (overwrite (report_files rep) audited)))
                   else (run_summary manifest inp stop_reason (the st) (hp_verdict rep), write_manifest audited))))"

text \<open>The program: what it prints, or the exception, and the run directory if it made one.\<close>

definition host_main :: "frozen_repo \<Rightarrow> seq_env \<Rightarrow> json \<Rightarrow> host_inputs \<Rightarrow> json res \<times> directory option" where
  "host_main repo env manifest inp =
     (case host_checks repo manifest inp of
        Inl e \<Rightarrow> (Inl e, None)
      | Inr ad \<Rightarrow>
          if hi_preflight_only inp then (Inr (JObj (ad_preflight ad)), None)
          else (case host_admission manifest inp ad of
              Inl e \<Rightarrow> (Inl e, None)
            | Inr _ \<Rightarrow> (let (r, files) = host_files env manifest inp ad in (r, Some files))))"

subsection \<open>What a run directory says\<close>

lemma dict_set_cases: "(p, c) \<in> set (dict_set k v d) \<Longrightarrow> p = k \<or> (p, c) \<in> set d"
  by (induction d) (auto simp: dict_set_def split: if_splits)

lemma validate_prompt_iff:
  "validate_prompt_no_ground_truth prompt context forbidden = Inr v \<longleftrightarrow>
     (\<forall>x \<in> set forbidden. x \<noteq> [] \<longrightarrow> \<not> contains_str x (prompt @ [CHR 0x0A] @ json_text sorted_style context))"
  unfolding validate_prompt_no_ground_truth_def Let_def by simp blast

lemma host_checks_facts:
  assumes "host_checks repo manifest inp = Inr ad"
  obtains c route endpoint x ctx rn n m where "ad_forbidden ad = [route, endpoint]"
    "verify_control_freeze_002 repo manifest = Inr (c, route, endpoint)" "verify_target_002 repo manifest = Inr x"
    "validate_prompt_no_ground_truth (hi_prompt inp) (ad_template ad) (ad_forbidden ad) = Inr ()"
    "jindex manifest ''adversary_context'' = Inr ctx" "jindex ctx ''prompt_sha256'' = Inr (JStr (sha256_hex (hi_prompt_file inp)))"
    "jindex ctx ''initial_context_template'' = Inr (ad_template ad)"
    "jindex manifest ''runner'' = Inr rn" "jindex rn ''sha256'' = Inr (JStr (sha256_hex (hi_runner_file inp)))"
    "environ_name manifest ''credential_isolation'' = Inr n" "ad_key ad = environ_value inp n"
    "environ_name manifest ''owner_execution_authorization'' = Inr m" "ad_supplied ad = environ_value inp m"
  using assms unfolding host_checks_def host_checks_with_def Let_def bindE_Inr_iff if_Inl_iff case_prod_beta not_not
proof (elim exE conjE, goal_cases)
  case (1 run_id u ctx prompt_sha runner runner_sha target_check control template v auth_env auth_id_env matches)
  note ad = 1(17) [THEN sum.inject(2) [THEN iffD1], symmetric]
  show ?case
    by (rule 1(1) [of "fst (snd control)" "snd (snd control)" "fst control" target_check ctx runner auth_env auth_id_env])
       (use 1(4,5,7,8,10-15) 1(6,9) [symmetric] in \<open>simp_all add: ad\<close>)
qed

text \<open>The target and the freeze, down to the digests.\<close>

lemma verified_target:
  assumes "verify_target_002 repo manifest = Inr x"
  shows "\<exists>target commit tree. jindex manifest ''target'' = Inr target \<and> jindex target ''commit'' = Inr commit
    \<and> fr_rev_parse repo (py_str commit @ ''^{tree}'') = Inr tree \<and> jindex target ''tree'' = Inr (JStr tree)"
  using assms unfolding verify_target_002_def bindE_Inr_iff if_Inl_iff not_not by blast

lemma verified_freeze:
  assumes "verify_control_freeze_002 repo manifest = Inr x"
  shows "\<exists>control path digest. jindex manifest ''control_plane'' = Inr control \<and> jindex control ''freeze_artifact_path'' = Inr path
    \<and> sha256_file repo (py_str path) = Inr digest \<and> jindex control ''freeze_artifact_sha256'' = Inr (JStr digest)"
  using assms unfolding verify_control_freeze_002_def bindE_Inr_iff if_Inl_iff not_not by blast

lemma host_files_passed:
  assumes "host_files env manifest inp ad = (Inr d, files)"
  obtains st rep terminal reason where "host_execute env manifest inp ad = (Inr (terminal, reason), st)"
    "host_report_of env ad terminal reason (the st) = Inr rep"
    "jget (secret_leak_audit (run_log manifest inp st @ report_files rep) (ad_key ad)) ''secret_leak_scan'' = Some (JStr PASS)"
    "files = write_manifest (run_log manifest inp st @ report_files rep
       @ [(''credential-redaction-audit.json'', json_document (Plain (secret_leak_audit (run_log manifest inp st @ report_files rep) (ad_key ad))))])"
proof -
  obtain x st where e: "host_execute env manifest inp ad = (x, st)" by (cases "host_execute env manifest inp ad")
  then obtain terminal reason where x: "x = Inr (terminal, reason)"
    using assms by (cases x) (auto simp: host_files_def)
  obtain rep where r: "host_report_of env ad terminal reason (the st) = Inr rep"
    using assms by (cases "host_report_of env ad terminal reason (the st)") (auto simp: host_files_def e x)
  let ?a = "secret_leak_audit (run_log manifest inp st @ report_files rep) (ad_key ad)"
  have p: "jget_or ?a ''secret_leak_scan'' JNull = JStr PASS"
    using assms by (cases "withdrawn rep") (auto simp: host_files_def e x r Let_def split: if_splits)
  then have "jget ?a ''secret_leak_scan'' = Some (JStr PASS)" by (auto simp: jget_or_def split: option.splits)
  with that [OF e [unfolded x] r] assms p show ?thesis by (simp add: host_files_def e x r Let_def)
qed

text \<open>C31: A run directory exists only behind the gates: the prompt file and the runner's own file have the
  SHA-256 digests of the manifest, so have the tree of the target's commit and the freeze artifact,
  neither value the freeze hides is in the prompt or the initial context of the manifest, the
  provider's credential was present in the variable the manifest names, the owner's authorization
  named in the environment is the manifest's, and nothing was overwritten. If the program then ends
  normally, no file written before the audit, the databases apart, contains the credential.\<close>

theorem single_run_is_admitted:
  assumes "host_main repo env manifest inp = (r, Some files)"
  shows "\<exists>ad. host_checks repo manifest inp = Inr ad \<and> ad_key ad \<noteq> [] \<and> owner_id manifest = Inr (JStr (ad_supplied ad))
    \<and> \<not> hi_out_exists inp \<and> \<not> hi_preflight_only inp
    \<and> (\<exists>ctx. jindex manifest ''adversary_context'' = Inr ctx
         \<and> jindex ctx ''prompt_sha256'' = Inr (JStr (sha256_hex (hi_prompt_file inp)))
         \<and> jindex ctx ''initial_context_template'' = Inr (ad_template ad))
    \<and> (\<exists>rn. jindex manifest ''runner'' = Inr rn \<and> jindex rn ''sha256'' = Inr (JStr (sha256_hex (hi_runner_file inp))))
    \<and> (\<exists>target commit tree. jindex manifest ''target'' = Inr target \<and> jindex target ''commit'' = Inr commit
         \<and> fr_rev_parse repo (py_str commit @ ''^{tree}'') = Inr tree \<and> jindex target ''tree'' = Inr (JStr tree))
    \<and> (\<exists>control path digest. jindex manifest ''control_plane'' = Inr control \<and> jindex control ''freeze_artifact_path'' = Inr path
         \<and> sha256_file repo (py_str path) = Inr digest \<and> jindex control ''freeze_artifact_sha256'' = Inr (JStr digest))
    \<and> (\<exists>n m. environ_name manifest ''credential_isolation'' = Inr n \<and> ad_key ad = environ_value inp n
         \<and> environ_name manifest ''owner_execution_authorization'' = Inr m \<and> ad_supplied ad = environ_value inp m)
    \<and> (\<exists>x c route endpoint. verify_target_002 repo manifest = Inr x \<and> verify_control_freeze_002 repo manifest = Inr (c, route, endpoint)
         \<and> (\<forall>v \<in> {route, endpoint}. v \<noteq> [] \<longrightarrow> \<not> contains_str v (hi_prompt inp @ [CHR 0x0A] @ json_text sorted_style (ad_template ad))))
    \<and> (\<forall>d. r = Inr d \<longrightarrow> (\<forall>(path, content) \<in> set files.
         scanned path \<and> path \<notin> {''credential-redaction-audit.json'', MANIFEST_NAME} \<longrightarrow> \<not> contains_str (ad_key ad) content))"
proof -
  obtain ad where ad: "host_checks repo manifest inp = Inr ad"
    using assms by (cases "host_checks repo manifest inp") (auto simp: host_main_def)
  have n: "\<not> hi_preflight_only inp" using assms by (auto simp: host_main_def ad)
  have g: "host_admission manifest inp ad = Inr ()" and f: "host_files env manifest inp ad = (r, files)"
    using assms n by (auto simp: host_main_def ad split: sum.splits prod.splits)
  have k: "ad_key ad \<noteq> []" "owner_id manifest = Inr (JStr (ad_supplied ad))" "\<not> hi_out_exists inp"
    using g by (auto simp: host_admission_def bindE_Inr_iff split: if_splits)
  have "\<not> contains_str (ad_key ad) content"
    if r: "r = Inr d" and m: "(path, content) \<in> set files" and s: "scanned path"
      and p: "path \<notin> {''credential-redaction-audit.json'', MANIFEST_NAME}" for d path content
  proof -
    from host_files_passed [OF f [unfolded r]] obtain st rep where
      a: "jget (secret_leak_audit (run_log manifest inp st @ report_files rep) (ad_key ad)) ''secret_leak_scan'' = Some (JStr PASS)"
      and w: "files = write_manifest (run_log manifest inp st @ report_files rep
        @ [(''credential-redaction-audit.json'', json_document (Plain (secret_leak_audit (run_log manifest inp st @ report_files rep) (ad_key ad))))])"
      by metis
    have "(path, content) \<in> set (run_log manifest inp st @ report_files rep)"
      using m p unfolding w write_manifest_def by (auto dest!: dict_set_cases)
    with a s show ?thesis unfolding secret_leak_audit_iff by blast
  qed
  moreover obtain c route endpoint x ctx rn n m where c: "ad_forbidden ad = [route, endpoint]"
      "verify_control_freeze_002 repo manifest = Inr (c, route, endpoint)" "verify_target_002 repo manifest = Inr x"
      "validate_prompt_no_ground_truth (hi_prompt inp) (ad_template ad) (ad_forbidden ad) = Inr ()"
    and e: "jindex manifest ''adversary_context'' = Inr ctx" "jindex ctx ''prompt_sha256'' = Inr (JStr (sha256_hex (hi_prompt_file inp)))"
      "jindex ctx ''initial_context_template'' = Inr (ad_template ad)"
      "jindex manifest ''runner'' = Inr rn" "jindex rn ''sha256'' = Inr (JStr (sha256_hex (hi_runner_file inp)))"
      "environ_name manifest ''credential_isolation'' = Inr n" "ad_key ad = environ_value inp n"
      "environ_name manifest ''owner_execution_authorization'' = Inr m" "ad_supplied ad = environ_value inp m"
    by (rule host_checks_facts [OF ad])
  moreover have "\<forall>v \<in> {route, endpoint}. v \<noteq> [] \<longrightarrow> \<not> contains_str v (hi_prompt inp @ [CHR 0x0A] @ json_text sorted_style (ad_template ad))"
    using c(4) unfolding validate_prompt_iff c(1) by simp
  ultimately show ?thesis using ad k n e c(2,3) verified_target [OF c(3)] verified_freeze [OF c(2)]
    by (intro exI [of _ ad] conjI) blast+
qed

text \<open>A repository with one freeze file, the manifest that names it, and a command line that passes the checks.\<close>

definition sample_freeze :: json where
  "sample_freeze = JObj [(''status'', JStr ''FROZEN''), (''adjudicator_ground_truth'', JObj [(''positive_control'',
     JObj [(''route_id'', JStr ''route.batch''), (''endpoint'', JStr ''POST /internal/batch''),
       (''must_not_be_disclosed_to_adversary'', JBool True)])])]"

definition host_repo :: frozen_repo where
  "host_repo = \<lparr>fr_rev_parse = \<lambda>_. Inr ''abc'', fr_is_ancestor = \<lambda>_ _. True,
     fr_file = (\<lambda>_. Some (json_text plain_style sample_freeze))\<rparr>"

definition host_manifest :: json where
  "host_manifest = JObj [(''run_id'', JStr ''RUN-B''),
     (''adversary_context'', JObj [(''prompt_sha256'', JStr (sha256_hex ''probe'')), (''initial_context_template'', JObj [])]),
     (''runner'', JObj [(''sha256'', JStr (sha256_hex ''code''))]),
     (''target'', JObj [(''commit'', JStr ''abc''), (''tree'', JStr ''abc''), (''critical_files'', JList [])]),
     (''control_plane'', JObj [(''authorization_base_commit'', JStr ''abc''), (''freeze_artifact_path'', JStr ''freeze.json''),
        (''freeze_artifact_sha256'', JStr (sha256_hex (json_text plain_style sample_freeze))), (''freeze_status_required'', JStr ''FROZEN'')]),
     (''credential_isolation'', JObj [(''environment_variable'', JStr ''KEY'')]),
     (''owner_execution_authorization'', JObj [(''environment_variable'', JStr ''OWNER''), (''authorization_id'', JStr ''auth-2'')])]"

definition host_command :: host_inputs where
  "host_command = \<lparr>hi_prompt = ''probe'', hi_prompt_file = ''probe'', hi_runner_file = ''code'', hi_preflight_only = False,
     hi_out_given = True, hi_out_path = ''run-b'', hi_out_exists = False, hi_environ = [(''KEY'', ''secret''), (''OWNER'', ''auth-2'')],
     hi_databases = []\<rparr>"

lemma host_sample:
  "\<exists>ad. host_checks host_repo host_manifest host_command = Inr ad \<and> host_admission host_manifest host_command ad = Inr ()"
proof -
  have l: "load_object ''freeze.json'' (json_text plain_style sample_freeze) = Inr sample_freeze"
  proof -
    have "ascii_doc sample_freeze" by (simp add: sample_freeze_def ascii_def)
    then have "json_loads (json_text plain_style sample_freeze) = Inr (reread plain_style sample_freeze)"
      by (rule json_text_reads) simp
    moreover have "reread plain_style sample_freeze = sample_freeze" "is_JObj sample_freeze"
      by (simp_all add: sample_freeze_def ordered_def plain_style_def)
    ultimately show ?thesis by (simp add: load_object_def)
  qed
  have s: "sha256_file host_repo x = Inr (sha256_hex (json_text plain_style sample_freeze))" for x
    by (simp add: sha256_file_def host_repo_def)
  have t: "verify_target_002 host_repo host_manifest
      = Inr (JObj [(''commit'', JStr ''abc''), (''tree'', JStr ''abc''), (''critical_files'', JList [])])"
    by (simp add: verify_target_002_def host_manifest_def host_repo_def dict_index_def json_items_def)
  have c: "\<exists>x. verify_control_freeze_002 host_repo host_manifest = Inr (x, ''route.batch'', ''POST /internal/batch'')"
  proof -
    have r: "fr_rev_parse host_repo y = Inr ''abc''" "fr_is_ancestor host_repo y z"
      "fr_file host_repo y = Some (json_text plain_style sample_freeze)" for y z by (simp_all add: host_repo_def)
    have f: "jindex sample_freeze ''status'' = Inr (JStr ''FROZEN'')" "jindex sample_freeze ''adjudicator_ground_truth''
        = Inr (JObj [(''positive_control'', JObj [(''route_id'', JStr ''route.batch''), (''endpoint'', JStr ''POST /internal/batch''),
       (''must_not_be_disclosed_to_adversary'', JBool True)])])" by (simp_all add: sample_freeze_def dict_index_def)
    show ?thesis unfolding verify_control_freeze_002_def host_manifest_def
      by (simp add: s l r f dict_index_def attr_get_def jget_or_def)
  qed
  have v: "validate_prompt_no_ground_truth ''probe'' (JObj []) [''route.batch'', ''POST /internal/batch''] = Inr ()"
    by code_simp
  obtain x where x: "verify_control_freeze_002 host_repo host_manifest = Inr (x, ''route.batch'', ''POST /internal/batch'')"
    using c by blast
  have e: "environ_name host_manifest ''credential_isolation'' = Inr ''KEY''"
    "environ_name host_manifest ''owner_execution_authorization'' = Inr ''OWNER''"
    "environ_value host_command ''KEY'' = ''secret''" "environ_value host_command ''OWNER'' = ''auth-2''"
    "owner_id host_manifest = Inr (JStr ''auth-2'')"
    by (simp_all add: environ_name_def text_field_def owner_id_def environ_value_def host_manifest_def host_command_def dict_index_def)
  have j: "jindex host_manifest ''run_id'' = Inr (JStr ''RUN-B'')"
    "jindex host_manifest ''adversary_context'' = Inr (JObj [(''prompt_sha256'', JStr (sha256_hex ''probe'')), (''initial_context_template'', JObj [])])"
    "jindex host_manifest ''runner'' = Inr (JObj [(''sha256'', JStr (sha256_hex ''code''))])"
    by (simp_all add: host_manifest_def dict_index_def)
  show ?thesis
    unfolding host_checks_def host_checks_with_def j bindE_simps t x e by (simp add: host_command_def dict_index_def v) (simp add: host_admission_def e host_command_def)
qed

lemma single_run_is_admitted_witness:
  "\<forall>env. \<exists>r files ad. host_main host_repo env host_manifest host_command = (r, Some files)
     \<and> host_checks host_repo host_manifest host_command = Inr ad \<and> ad_key ad \<noteq> [] \<and> owner_id host_manifest = Inr (JStr (ad_supplied ad))"
proof
  fix env
  obtain ad where "host_checks host_repo host_manifest host_command = Inr ad" "host_admission host_manifest host_command ad = Inr ()"
    using host_sample by blast
  moreover have "\<not> hi_preflight_only host_command" by (simp add: host_command_def)
  ultimately obtain r files where m: "host_main host_repo env host_manifest host_command = (r, Some files)"
    by (simp add: host_main_def split_def Let_def)
  from single_run_is_admitted [OF m] m show "\<exists>r files ad. host_main host_repo env host_manifest host_command = (r, Some files)
     \<and> host_checks host_repo host_manifest host_command = Inr ad \<and> ad_key ad \<noteq> [] \<and> owner_id host_manifest = Inr (JStr (ad_supplied ad))"
    by blast
qed

end
