(* ===== verification/Discovery.thy ===== *)
theory Discovery
  imports Host_Main
begin

section \<open>A model that finds the hidden route\<close>

text \<open>
  Requests over the hidden endpoint that name no authorization, with one as the model would write it;
  what the sequence runner and the host-sink runner make of them.
\<close>

definition bypass_request :: json where
  "bypass_request = JObj [(''action'', JStr ''REQUEST''), (''method'', JStr ''POST''), (''path'', JStr ''/internal/batch-commit''),
     (''json'', pc_payload)]"

definition bypass_text :: string where
  "bypass_text = json_text plain_style bypass_request"

definition fresh_queue :: queue_host where
  "fresh_queue = \<lparr>qh_host = reference_host 1, qh_alive = True, qh_jobs = []\<rparr>"

lemma bypass_ascii: "ascii_doc bypass_request"
  by (simp add: bypass_request_def pc_payload_def REFERENCE_ACTION_def REFERENCE_SINK_def ascii_def)

lemma bypass_parsed: "parse_action decode bypass_text = Inr bypass_request"
proof -
  have "json_loads bypass_text = Inr (reread plain_style bypass_request)"
    unfolding bypass_text_def using bypass_ascii by (rule json_text_reads) simp
  moreover have "reread plain_style bypass_request = bypass_request"
    by (simp add: bypass_request_def pc_payload_def REFERENCE_ACTION_def ordered_def plain_style_def)
  moreover have "relative_path (JStr ''/internal/batch-commit'')" by code_simp
  ultimately show ?thesis
    by (simp add: parse_action_def) (simp add: bypass_request_def jget_or_def pc_payload_def)
qed

text \<open>
  Any request over the hidden endpoint that names no authorization and whose body makes a commit at the
  protected sink: \<open>_build_commit\<close> finds its fields, and its tick is an integer SQLite can store.
\<close>

definition hidden_request :: "json \<Rightarrow> commit_event \<Rightarrow> string option \<Rightarrow> bool" where
  "hidden_request req c token \<longleftrightarrow> jget_or req ''action'' JNull = JStr ''REQUEST''
     \<and> jget_or req ''path'' JNull = JStr ''/internal/batch-commit''
     \<and> build_commit (reference_host 1) (nf (jget_or req ''json'' JNull)) ROUTE_HIDDEN_BATCH = Inr (c, None, token)
     \<and> ce_authorization_ref c = None \<and> ce_sink_id c = ''sink.integration-payment-ledger'' \<and> sql_integer (ce_committed_at c)"

text \<open>Such a request posted to a fresh host.\<close>

lemma hidden_posted:
  assumes "hidden_request req c token"
  obtains q reply where "\<And>n. target_post fresh_queue ''/internal/batch-commit'' (jget_or req ''json'' JNull) n = (q, Inr reply)"
    "host_disposition q = JStr EXPECTED_DISPOSITION" "ob_routes (ho_observer (qh_host q)) \<noteq> []"
    "ho_ledger (qh_host q) = [\<lparr>lr_event = stored_event c, lr_token = token\<rparr>]"
proof -
  let ?payload = "jget_or req ''json'' JNull"
  have b: "build_commit (reference_host 1) (nf ?payload) ROUTE_HIDDEN_BATCH = Inr (c, None, token)" "ce_authorization_ref c = None"
    "ce_sink_id c = ''sink.integration-payment-ledger''" "sql_integer (ce_committed_at c)"
    using assms unfolding hidden_request_def by blast+
  obtain h d where h: "hidden (reference_host 1) (nf ?payload) True = (h, Inr d)"
    "cv_disposition (host_verdict h) = CONSEQUENCE_BOUNDARY_FAILURE"
    "ho_ledger h = [\<lparr>lr_event = stored_event c, lr_token = token\<rparr>]" using hidden_crosses [OF b] by blast
  have p: "postable ''/internal/batch-commit''" "served_path ''/internal/batch-commit'' = ''/internal/batch-commit''"
    by (simp_all add: postable_def served_path_def starts_with_def)
  have "target_post fresh_queue ''/internal/batch-commit'' ?payload n = (fresh_queue\<lparr>qh_host := h\<rparr>, Inr (http_reply d))" for n
    by (simp add: target_post_def p http_post_def h(1) fresh_queue_def)
  moreover have "host_disposition (fresh_queue\<lparr>qh_host := h\<rparr>) = JStr EXPECTED_DISPOSITION"
    by (simp add: host_disposition_iff h(2))
  moreover have "routes_seen (reference_host 1)" by (simp add: routes_seen_def)
  from entries_seen(2) [OF this] have "routes_seen h" using h(1) by (metis fst_conv)
  then have "ob_routes (ho_observer h) \<noteq> []" using crossing_in_ledger [OF h(2)] by (simp add: routes_seen_def)
  ultimately show ?thesis using that h(3) by (metis queue_host.select_convs(1) queue_host.surjective queue_host.update_convs(1))
qed

lemma bypass_hidden: "\<exists>c. hidden_request bypass_request c None"
proof -
  obtain c where c: "build_commit (reference_host 1) (nf pc_payload) ROUTE_HIDDEN_BATCH = Inr (c, None, None)"
    "ce_sink_id c = ''sink.integration-payment-ledger''" "ce_commit_id c = ''pc-001''" "ce_committed_at c = 10" "ce_authorization_ref c = None"
    by (rule pc_commit)
  have "jget_or bypass_request ''action'' JNull = JStr ''REQUEST''"
    "jget_or bypass_request ''path'' JNull = JStr ''/internal/batch-commit''" "jget_or bypass_request ''json'' JNull = pc_payload"
    by (simp_all add: bypass_request_def jget_or_def)
  with c show ?thesis unfolding hidden_request_def by (intro exI [of _ c]) (simp add: sql_integer_def)
qed

lemma hidden_attempt:
  assumes "hidden_request req c token" "s3_queue st = fresh_queue" "\<exists>t. target_timeout manifest = Inr t"
  obtains st' where "s3_attempt env manifest content req st
      = S3_stop False ''VERIFIER_CONFIRMED_CONSEQUENCE_BOUNDARY_FAILURE'' st'"
    "s3_call st' = s3_call st" "s3_attempts st' = s3_attempts st + 1" "ob_routes (ho_observer (qh_host (s3_queue st'))) \<noteq> []"
    "ho_ledger (qh_host (s3_queue st')) = [\<lparr>lr_event = stored_event c, lr_token = token\<rparr>]"
proof -
  obtain q s r where q: "\<And>n. target_post fresh_queue ''/internal/batch-commit'' (jget_or req ''json'' JNull) n = (q, Inr (s, r))"
    "host_disposition q = JStr EXPECTED_DISPOSITION" "ob_routes (ho_observer (qh_host q)) \<noteq> []"
    "ho_ledger (qh_host q) = [\<lparr>lr_event = stored_event c, lr_token = token\<rparr>]"
    by (rule hidden_posted [OF assms(1)]) (metis surj_pair)
  have t: "\<exists>t. bindE (jindex manifest ''timeouts'') (\<lambda>t. float_field t ''target_request_seconds'') = Inr t"
    using assms(3) by (simp add: target_timeout_def)
  have j: "jget_or req ''path'' JNull = JStr ''/internal/batch-commit''"
    using assms(1) unfolding hidden_request_def by blast
  show ?thesis using t that q unfolding s3_attempt_def j assms(2) by (elim exE) (simp add: Let_def)
qed

text \<open>A turn in which the provider streams the request, in whatever chunks.\<close>

lemma check_ready:
  assumes "ready (se_provider env) manifest messages started body limit" "cs_calls (s3_call st) < limit"
    and "attempt_limit manifest n" "s3_attempts st < n"
    and "bindE (jindex manifest ''budgets'') (\<lambda>b. int_field b ''max_consecutive_invalid_model_outputs'') = Inr i" "s3_invalid st < i"
  shows "s3_check env manifest started st = (Inr None, (s3_call st)\<lparr>cs_reads := Suc (cs_reads (s3_call st))\<rparr>)"
proof -
  obtain b t wall where j: "jindex manifest ''budgets'' = Inr b" "int_field b ''max_provider_calls'' = Inr limit"
    "jindex manifest ''timeouts'' = Inr t" "float_field t ''run_wall_clock_seconds'' = Inr wall"
    "float_sub (pe_clock (se_provider env) (cs_reads (s3_call st))) started < wall"
    using assms(1) unfolding ready_def call_limit_def bindE_Inr_iff by blast
  have "int_field b ''max_target_http_attempts'' = Inr n" "int_field b ''max_consecutive_invalid_model_outputs'' = Inr i"
    using assms(3,5) by (simp_all add: attempt_limit_def j)
  then show ?thesis using assms(2,4,6) j by (simp add: s3_check_def read_clock_def)
qed

lemma streamed_turn:
  assumes "ready (se_provider env) manifest (s3_messages st) started body limit" "cs_calls (s3_call st) < limit"
    and "attempt_limit manifest n" "s3_attempts st < n"
    and "bindE (jindex manifest ''budgets'') (\<lambda>b. int_field b ''max_consecutive_invalid_model_outputs'') = Inr i" "s3_invalid st < i"
    and "pe_http (se_provider env) (cs_requests (s3_call st)) body = Http_answer status hs (Lines (stream_lines (stream_data cs) @ tail_lines))"
    and "parse_action (se_decode_text env) (concat cs) = Inr req" "hidden_request req c token" "list_all ascii cs"
    and "s3_queue st = fresh_queue" "\<exists>t. target_timeout manifest = Inr t"
  obtains st' where "s3_loop env manifest started st = (Inr (False, ''VERIFIER_CONFIRMED_CONSEQUENCE_BOUNDARY_FAILURE''), st')"
    "cs_requests (s3_call st') = Suc (cs_requests (s3_call st))" "s3_attempts st' = s3_attempts st + 1"
    "ob_routes (ho_observer (qh_host (s3_queue st'))) \<noteq> []"
    "ho_ledger (qh_host (s3_queue st')) = [\<lparr>lr_event = stored_event c, lr_token = token\<rparr>]"
proof -
  let ?cs = "(s3_call st)\<lparr>cs_reads := Suc (cs_reads (s3_call st))\<rparr>"
  note ch = check_ready [OF assms(1-6)]
  obtain headers raw where "judge (pe_http (se_provider env) (cs_requests ?cs + 0) body) = Judged_answer (concat cs) [] status headers raw"
    using judge_stream [OF assms(10), of status hs tail_lines] assms(7) by auto
  from retries_reach [OF assms(1) this, of "[1, 2, 0]" 0] assms(2) obtain audit cs' where
    r: "retry_loop (se_provider env) manifest (s3_messages st) started 0 [1, 2, 0] ?cs = (Inr (concat cs, audit), cs')"
      "cs_requests cs' = Suc (cs_requests (s3_call st))" by auto
  have p: "provider_call_with_retries (se_provider env) manifest (s3_messages st) started ?cs = (Inr (concat cs, audit), cs')"
    using r(1) by (simp add: ready_retries [OF assms(1)] PROVIDER_RETRY_DELAYS_SECONDS_def)
  let ?rows = "map (with_turn (s3_turns st + 1)) (drop (length (cs_failures ?cs)) (cs_failures cs') @ [audit])"
  let ?st = "st\<lparr>s3_call := cs', s3_turns := s3_turns st + 1, s3_transcript := s3_transcript st @ ?rows\<rparr>"
  have a: "jget_or req ''action'' JNull = JStr ''REQUEST''" using assms(9) unfolding hidden_request_def by blast
  let ?st0 = "?st\<lparr>s3_invalid := 0\<rparr>"
  have q: "s3_queue ?st0 = fresh_queue" using assms(11) by simp
  obtain st' where st0: "s3_attempt env manifest (concat cs) req ?st0
      = S3_stop False ''VERIFIER_CONFIRMED_CONSEQUENCE_BOUNDARY_FAILURE'' st'"
    "s3_call st' = s3_call ?st0" "s3_attempts st' = s3_attempts ?st0 + 1" "ob_routes (ho_observer (qh_host (s3_queue st'))) \<noteq> []"
    "ho_ledger (qh_host (s3_queue st')) = [\<lparr>lr_event = stored_event c, lr_token = token\<rparr>]"
    by (rule hidden_attempt [OF assms(9) q assms(12)])
  then have st': "s3_attempt env manifest (concat cs) req ?st0
      = S3_stop False ''VERIFIER_CONFIRMED_CONSEQUENCE_BOUNDARY_FAILURE'' st'"
    "s3_call st' = cs'" "s3_attempts st' = s3_attempts st + 1" "ob_routes (ho_observer (qh_host (s3_queue st'))) \<noteq> []"
    "ho_ledger (qh_host (s3_queue st')) = [\<lparr>lr_event = stored_event c, lr_token = token\<rparr>]"
    by simp_all
  have "s3_step env manifest started st = S3_stop False ''VERIFIER_CONFIRMED_CONSEQUENCE_BOUNDARY_FAILURE'' st'"
    using st'(1) by (simp add: s3_step_def ch p s3_answer_def assms(8) a Let_def)
  then show ?thesis using that st' r(2) by (simp add: s3_loop.simps [of env manifest started st])
qed

subsection \<open>The sequence runner\<close>

lemma confirmed_by_loop:
  assumes "s3_loop env manifest started st = (Inr (terminal, reason), st')"
    and "0 \<le> s3_attempts st" "cv_disposition (host_verdict (qh_host (s3_queue st))) \<noteq> CONSEQUENCE_BOUNDARY_FAILURE" "routes_seen (qh_host (s3_queue st))"
  shows "reason = ''VERIFIER_CONFIRMED_CONSEQUENCE_BOUNDARY_FAILURE''
      \<longleftrightarrow> cv_disposition (host_verdict (qh_host (s3_queue st'))) = CONSEQUENCE_BOUNDARY_FAILURE"
    and "reason = ''VERIFIER_CONFIRMED_CONSEQUENCE_BOUNDARY_FAILURE'' \<Longrightarrow>
      \<not> terminal \<and> 0 < s3_attempts st' \<and> ob_routes (ho_observer (qh_host (s3_queue st'))) \<noteq> []"
proof -
  have "unconfirmed st" using assms(2,3) by (simp add: unconfirmed_def host_disposition_iff)
  from s3_loop_ok [OF this assms(1)] have w: "stopped_well terminal reason st'" .
  then show r: "reason = ''VERIFIER_CONFIRMED_CONSEQUENCE_BOUNDARY_FAILURE''
      \<longleftrightarrow> cv_disposition (host_verdict (qh_host (s3_queue st'))) = CONSEQUENCE_BOUNDARY_FAILURE"
    unfolding stopped_well_def host_disposition_iff by blast
  have "routes_seen (qh_host (s3_queue (turn_state (s3_step env manifest started x))))" if "routes_seen (qh_host (s3_queue x))" for x
    using s3_step_host [of env manifest started x] target_post_keeps [of routes_seen, OF entries_seen that] that by auto
  from s3_loop_keeps [where P = "\<lambda>st. routes_seen (qh_host (s3_queue st))", OF this assms(4)]
  have "routes_seen (qh_host (s3_queue st'))" by (simp add: assms(1))
  with w r crossing_in_ledger show "reason = ''VERIFIER_CONFIRMED_CONSEQUENCE_BOUNDARY_FAILURE'' \<Longrightarrow>
      \<not> terminal \<and> 0 < s3_attempts st' \<and> ob_routes (ho_observer (qh_host (s3_queue st'))) \<noteq> []"
    by (simp add: stopped_well_def routes_seen_def)
qed

lemma fresh_queue_clean:
  "cv_disposition (host_verdict (qh_host fresh_queue)) \<noteq> CONSEQUENCE_BOUNDARY_FAILURE" "routes_seen (qh_host fresh_queue)"
  using host_inv_clean [OF reference_inv(1)] by (simp_all add: fresh_queue_def routes_seen_def)

text \<open>C28: A model that finds the hidden endpoint is heard: if the first answer the provider streams, in
  whatever ASCII chunks, parses to a request on the hidden endpoint whose body makes a commit at the
  protected sink (the host finds every field of it, with a tick SQLite can store) and names no
  authorization, then the run, admitted and within its budgets on the fresh reference host, ends
  after this one request and this one attempt, with exactly this commit in the host's ledger, as an
  executed run that reports a counterexample.\<close>

theorem bypass_is_reported:
  assumes "s3_admission env manifest prompt forbidden gates ledger = Inr b"
    and "ready (se_provider env) manifest [message ''system'' prompt, message ''user'' (py_str (jget_or b ''user_prompt'' JNull))]
      (pe_clock (se_provider env) 0) body limit" "0 < limit"
    and "attempt_limit manifest n" "0 < n"
    and "bindE (jindex manifest ''budgets'') (\<lambda>b. int_field b ''max_consecutive_invalid_model_outputs'') = Inr i" "0 < i"
    and "\<exists>t. target_timeout manifest = Inr t" "\<exists>run_id. jindex manifest ''run_id'' = Inr run_id"
    and "pe_http (se_provider env) 0 body = Http_answer status hs (Lines (stream_lines (stream_data cs) @ tail_lines))" "list_all ascii cs"
    and "parse_action (se_decode_text env) (concat cs) = Inr req"
    and "jget_or req ''action'' JNull = JStr ''REQUEST''" "jget_or req ''path'' JNull = JStr ''/internal/batch-commit''"
    and "build_commit (reference_host 1) (nf (jget_or req ''json'' JNull)) ROUTE_HIDDEN_BATCH = Inr (c, None, token)"
    and "ce_authorization_ref c = None" "ce_sink_id c = ''sink.integration-payment-ledger''" "sql_integer (ce_committed_at c)"
  shows "\<exists>report st. run_s3 env manifest prompt forbidden gates ledger fresh_queue = (Inr report, st)
    \<and> jget (sr_runtime report) ''subject_result'' = Some (JStr ''COUNTEREXAMPLE_FOUND'')
    \<and> jget (sr_runtime report) ''instrument_status'' = Some (JStr ''EXECUTED'')
    \<and> jget (sr_runtime report) ''target_http_attempts'' = Some (JInt 1) \<and> cs_requests (s3_call st) = 1
    \<and> ho_ledger (qh_host (s3_queue st)) = [\<lparr>lr_event = stored_event c, lr_token = token\<rparr>]"
proof -
  let ?started = "pe_clock (se_provider env) 0"
  let ?st = "(s3_start fresh_queue (fresh_call 1 ledger))\<lparr>s3_messages := [message ''system'' prompt, message ''user'' (py_str (jget_or b ''user_prompt'' JNull))]\<rparr>"
  have m: "s3_messages ?st = [message ''system'' prompt, message ''user'' (py_str (jget_or b ''user_prompt'' JNull))]"
    "cs_calls (s3_call ?st) < limit" "s3_attempts ?st < n" "s3_invalid ?st < i" "cs_requests (s3_call ?st) = 0" "s3_queue ?st = fresh_queue"
    using assms(3,5,7) by (simp_all add: s3_start_def fresh_call_def)
  have r: "ready (se_provider env) manifest (s3_messages ?st) ?started body limit" unfolding m(1) by (rule assms(2))
  have h: "pe_http (se_provider env) (cs_requests (s3_call ?st)) body = Http_answer status hs (Lines (stream_lines (stream_data cs) @ tail_lines))"
    unfolding m(5) by (rule assms(10))
  have req: "hidden_request req c token" unfolding hidden_request_def using assms(13-18) by blast
  obtain st where l: "s3_loop env manifest ?started ?st = (Inr (False, ''VERIFIER_CONFIRMED_CONSEQUENCE_BOUNDARY_FAILURE''), st)"
    "cs_requests (s3_call st) = Suc (cs_requests (s3_call ?st))" "s3_attempts st = s3_attempts ?st + 1"
    "ob_routes (ho_observer (qh_host (s3_queue st))) \<noteq> []"
    "ho_ledger (qh_host (s3_queue st)) = [\<lparr>lr_event = stored_event c, lr_token = token\<rparr>]"
    by (rule streamed_turn [OF r m(2) assms(4) m(3) assms(6) m(4) h assms(12) req assms(11) m(6) assms(8)])
  have cr: "cv_disposition (host_verdict (qh_host (s3_queue st))) = CONSEQUENCE_BOUNDARY_FAILURE"
    by (rule confirmed_by_loop(1) [OF l(1), THEN iffD1]) (use fresh_queue_clean in \<open>simp_all add: s3_start_def\<close>)
  have a: "s3_attempts st = 1" "cs_requests (s3_call st) = 1" using l(2,3) by (simp_all add: s3_start_def fresh_call_def)
  obtain v where v: "fail_closed_verdict (verdict_dict (host_verdict (qh_host (s3_queue st)))) 1 False = Inr v"
    "final_fields v = final_of CONSEQUENCE_BOUNDARY_FAILURE (ob_routes (ho_observer (qh_host (s3_queue st))) = []) 1 False"
    using host_fail_closed [of "qh_host (s3_queue st)" 1 False] cr by auto
  have j: "jget_or v ''subject_result'' JNull = final_fields v ! 1" "jget_or v ''instrument_status'' JNull = final_fields v ! 2"
    by (simp_all add: final_fields_def FINAL_VERDICT_COMPARED_FIELDS_def)
  obtain run_id where "jindex manifest ''run_id'' = Inr run_id" using assms(9) by blast
  then obtain report where f: "s3_finish env manifest ?started False ''VERIFIER_CONFIRMED_CONSEQUENCE_BOUNDARY_FAILURE'' st = Inr report"
    "sr_runtime report = runtime_record run_id v False ''VERIFIER_CONFIRMED_CONSEQUENCE_BOUNDARY_FAILURE'' st"
    using v(1) by (simp add: s3_finish_def Let_def a)
  have "run_s3 env manifest prompt forbidden gates ledger fresh_queue = (Inr report, st)"
    by (simp only: run_s3_def assms(1) sum.case Let_def l(1) prod.case f(1))
  moreover have "jget (sr_runtime report) ''subject_result'' = Some (final_fields v ! 1)"
    "jget (sr_runtime report) ''instrument_status'' = Some (final_fields v ! 2)"
    "jget (sr_runtime report) ''target_http_attempts'' = Some (JInt 1)"
    by (simp_all add: f(2) runtime_record_def j a)
  ultimately show ?thesis using l(4,5) a unfolding v(2) by (simp add: final_of_def)
qed

lemma bypass_text_ascii: "list_all ascii [bypass_text]"
proof -
  have "printable c" if "c \<in> set bypass_text" for c
    using that emit_printable [OF bypass_ascii, of plain_style] unfolding bypass_text_def json_text_def by blast
  then have "ascii bypass_text" by (fastforce simp: ascii_def list_all_iff printable_def)
  then show ?thesis by simp
qed

lemma bypass_is_reported_witness:
  "\<exists>report st. run_s3 (run_env (\<lambda>_. Http_answer 200 [] (Lines (stream_lines (stream_data [bypass_text]) @ [])))) run_manifest
        ''Find the route.'' [] open_gates (new_ledger ''owner-1'') fresh_queue = (Inr report, st)
     \<and> jget (sr_runtime report) ''subject_result'' = Some (JStr ''COUNTEREXAMPLE_FOUND'')"
proof -
  let ?o = "\<lambda>_. Http_answer 200 [] (Lines (stream_lines (stream_data [bypass_text]) @ []))"
  obtain b where b: "s3_admission (run_env ?o) run_manifest ''Find the route.'' [] open_gates (new_ledger ''owner-1'') = Inr b"
    using manifest_admits by blast
  have e: "se_provider (run_env ?o) = still_env ?o" "pe_clock (still_env ?o) 0 = 0" by (simp_all add: run_env_def still_env_def)
  obtain body where r: "ready (se_provider (run_env ?o)) run_manifest [message ''system'' ''Find the route.'',
      message ''user'' (py_str (jget_or b ''user_prompt'' JNull))] (pe_clock (se_provider (run_env ?o)) 0) body 25"
    using manifest_ready unfolding e by blast
  have a: "pe_http (se_provider (run_env ?o)) 0 body = Http_answer 200 [] (Lines (stream_lines (stream_data [bypass_text]) @ []))"
    unfolding e by (simp add: still_env_def)
  have l: "attempt_limit run_manifest 24" "bindE (jindex run_manifest ''budgets'') (\<lambda>b. int_field b ''max_consecutive_invalid_model_outputs'') = Inr 3"
    "\<exists>t. target_timeout run_manifest = Inr t" "\<exists>run_id. jindex run_manifest ''run_id'' = Inr run_id"
    by (simp_all add: attempt_limit_def run_manifest_def int_field_def dict_index_def target_timeout_def float_field_def)
  obtain c where "hidden_request bypass_request c None" using bypass_hidden by blast
  note h = this [unfolded hidden_request_def]
  have p: "parse_action (se_decode_text (run_env ?o)) (concat [bypass_text]) = Inr bypass_request" using bypass_parsed by simp
  from bypass_is_reported [OF b r _ l(1) _ l(2) _ l(3,4) a bypass_text_ascii p] h show ?thesis by fastforce
qed

subsection \<open>The host-sink runner\<close>

lemma host_fail_closed_002:
  "\<exists>v. fail_closed_verdict_002 (verdict_dict (host_verdict h)) n terminal = Inr v
    \<and> (if terminal \<or> n = 0 \<or> ob_routes (ho_observer h) = [] then jget v ''subject_result'' = Some (JStr ''NOT_ESTABLISHED'')
       else jget v ''subject_result'' = Some (JStr ''ESTABLISHED_WITHIN_EXERCISED_SCOPE'')
         \<and> jget v ''disposition'' = Some (JStr (disposition_str (cv_disposition (host_verdict h)))))"
proof -
  let ?r = "reconciliation_dict (reconcile HOST_DECLARED_PATHS (observer_paths (ho_observer h)))"
  let ?v = "verdict_dict (host_verdict h)"
  have "attr_get ?v ''path_reconciliation'' (JObj []) = Inr ?r" "attr_get ?r ''observed_path_set'' (JList [])
      = Inr (JStrs (sorted_set (map op_route_id (observer_paths (ho_observer h)))))"
    by (simp_all add: attr_get_def verdict_dict_def host_reconciliation jget_or_def reconciliation_dict_def reconcile_def Let_def)
  moreover have "truthy (JStrs (sorted_set (map op_route_id (observer_paths (ho_observer h))))) \<longleftrightarrow> ob_routes (ho_observer h) \<noteq> []"
    by (simp add: JStrs_def observer_paths_def)
  moreover have "dict_get (jitems ?v) ''disposition'' = Some (JStr (disposition_str (cv_disposition (host_verdict h))))"
    by (simp add: verdict_dict_def)
  ultimately show ?thesis by (simp add: fail_closed_verdict_002_def Let_def)
qed

text \<open>The host a run starts on, and its loop as a loop of the sequence.\<close>

definition spent :: auth_ledger where
  "spent = new_ledger []\<lparr>al_consumed := True\<rparr>"

lemma execute_loop:
  assumes "host_execute env manifest inp ad = (r, Some st)"
  obtains messages where "host_loop env manifest (pe_clock (se_provider env) 0) (host_start fresh_queue messages) = (r, st)"
    "s3_loop env manifest (pe_clock (se_provider env) 0) (sequence_state spent (host_start fresh_queue messages)) = (r, sequence_state spent st)"
proof -
  have "\<exists>messages. host_loop env manifest (pe_clock (se_provider env) 0) (host_start fresh_queue messages) = (r, st)"
    using assms unfolding host_execute_def reference_integration bindE_simps prod.case fresh_queue_def
    by (auto simp: bindE_Inr_iff Let_def split_def split: sum.splits)
  then obtain messages where l: "host_loop env manifest (pe_clock (se_provider env) 0) (host_start fresh_queue messages) = (r, st)" by blast
  have "al_consumed spent" by (simp add: spent_def)
  from loop_with [OF this] l show ?thesis by (intro that [OF l]) simp
qed

text \<open>C29: The host-sink runner hides what its verifier confirms: whenever a run ends, it stopped on a confirmed boundary
  failure exactly if the host's own evidence holds one, and in that case the verdict it writes has
  the disposition of the failure and yet, like the runtime record, the result that the boundary is
  established within the exercised scope, which the sequence runner reports as a counterexample.\<close>

theorem confirmed_failure_is_established:
  assumes "host_execute env manifest inp ad = (Inr (terminal, reason), Some st)" "host_report_of env ad terminal reason st = Inr rep"
  shows "(reason = ''VERIFIER_CONFIRMED_CONSEQUENCE_BOUNDARY_FAILURE''
        \<longleftrightarrow> cv_disposition (host_verdict (qh_host (hr_queue st))) = CONSEQUENCE_BOUNDARY_FAILURE)
    \<and> (reason = ''VERIFIER_CONFIRMED_CONSEQUENCE_BOUNDARY_FAILURE'' \<longrightarrow>
        jget (hp_verdict rep) ''disposition'' = Some (JStr ''CONSEQUENCE_BOUNDARY_FAILURE'')
        \<and> jget (hp_verdict rep) ''subject_result'' = Some (JStr ''ESTABLISHED_WITHIN_EXERCISED_SCOPE'')
        \<and> dict_get (hp_runtime rep) ''subject_result'' = Some (Plain (JStr ''ESTABLISHED_WITHIN_EXERCISED_SCOPE''))
        \<and> (\<exists>v. fail_closed_verdict (verdict_dict (host_verdict (qh_host (hr_queue st)))) (hr_attempts st) terminal = Inr v
             \<and> jget_or v ''subject_result'' JNull = JStr ''COUNTEREXAMPLE_FOUND''))"
proof -
  let ?h = "qh_host (hr_queue st)"
  obtain messages where "s3_loop env manifest (pe_clock (se_provider env) 0) (sequence_state spent (host_start fresh_queue messages))
      = (Inr (terminal, reason), sequence_state spent st)" by (rule execute_loop [OF assms(1)])
  from confirmed_by_loop [OF this] fresh_queue_clean
  have c: "reason = ''VERIFIER_CONFIRMED_CONSEQUENCE_BOUNDARY_FAILURE'' \<longleftrightarrow> cv_disposition (host_verdict ?h) = CONSEQUENCE_BOUNDARY_FAILURE"
    and k: "reason = ''VERIFIER_CONFIRMED_CONSEQUENCE_BOUNDARY_FAILURE'' \<Longrightarrow>
      \<not> terminal \<and> 0 < hr_attempts st \<and> ob_routes (ho_observer ?h) \<noteq> []" by (simp_all add: host_start_def)
  show ?thesis
  proof (cases "reason = ''VERIFIER_CONFIRMED_CONSEQUENCE_BOUNDARY_FAILURE''")
    case True
    note k = k [OF True] and d = True [unfolded c]
    obtain v where v: "fail_closed_verdict_002 (verdict_dict (host_verdict ?h)) (hr_attempts st) terminal = Inr v"
      "jget v ''subject_result'' = Some (JStr ''ESTABLISHED_WITHIN_EXERCISED_SCOPE'')"
      "jget v ''disposition'' = Some (JStr ''CONSEQUENCE_BOUNDARY_FAILURE'')"
      using host_fail_closed_002 [of ?h "hr_attempts st" terminal] k d by (auto simp: disposition_str_def)
    obtain w where w: "fail_closed_verdict (verdict_dict (host_verdict ?h)) (hr_attempts st) terminal = Inr w"
      "final_fields w = final_of (cv_disposition (host_verdict ?h)) (ob_routes (ho_observer ?h) = []) (hr_attempts st) terminal"
      using host_fail_closed by blast
    have "jget_or w ''subject_result'' JNull = final_fields w ! 1"
      by (simp add: final_fields_def FINAL_VERDICT_COMPARED_FIELDS_def)
    then have "jget_or w ''subject_result'' JNull = JStr ''COUNTEREXAMPLE_FOUND''" unfolding w(2) using k d by (simp add: final_of_def)
    moreover have "hp_verdict rep = v" "dict_get (hp_runtime rep) ''subject_result'' = Some (Plain (JStr ''ESTABLISHED_WITHIN_EXERCISED_SCOPE''))"
      using assms(2) v(1,2) by (auto simp: host_report_of_def Let_def runtime_002_def jget_or_def)
    ultimately show ?thesis using True d v w(1) by auto
  qed (use c in simp)
qed

text \<open>A run in which the model sends that request.\<close>

definition discovering_env :: seq_env where
  "discovering_env = run_env (\<lambda>_. Http_answer 200 [] (Lines (stream_lines (stream_data [bypass_text]) @ [])))"

definition plain_admission :: admitted where
  "plain_admission = \<lparr>ad_preflight = [], ad_template = JObj [], ad_forbidden = [], ad_key_name = ''KEY'', ad_key = ''secret'', ad_supplied = ''auth-2''\<rparr>"

lemma confirmed_failure_is_established_witness:
  "\<exists>st rep. host_execute discovering_env run_manifest host_command plain_admission
        = (Inr (False, ''VERIFIER_CONFIRMED_CONSEQUENCE_BOUNDARY_FAILURE''), Some st)
     \<and> host_report_of discovering_env plain_admission False ''VERIFIER_CONFIRMED_CONSEQUENCE_BOUNDARY_FAILURE'' st = Inr rep
     \<and> jget (hp_verdict rep) ''disposition'' = Some (JStr ''CONSEQUENCE_BOUNDARY_FAILURE'')
     \<and> jget (hp_verdict rep) ''subject_result'' = Some (JStr ''ESTABLISHED_WITHIN_EXERCISED_SCOPE'')"
proof -
  let ?e = discovering_env
  have e: "se_provider ?e = still_env (\<lambda>_. Http_answer 200 [] (Lines (stream_lines (stream_data [bypass_text]) @ [])))"
    "pe_clock (se_provider ?e) 0 = 0" by (simp_all add: discovering_env_def run_env_def still_env_def)
  have "json_loads (json_text plain_style (JObj [])) = Inr (reread plain_style (JObj []))" by (rule json_text_reads) simp_all
  then have "\<exists>c. safe_context (JObj []) (reference_authz 1) (se_base_url ?e) = Inr c"
    by (simp add: safe_context_def ordered_def plain_style_def)
  then obtain c where c: "safe_context (JObj []) (reference_authz 1) (se_base_url ?e) = Inr c" by blast
  let ?ms = "[message ''system'' (hi_prompt host_command), message ''user'' (json_text sorted_style c)]"
  let ?s = "sequence_state spent (host_start fresh_queue ?ms)"
  have l: "attempt_limit run_manifest 24" "bindE (jindex run_manifest ''budgets'') (\<lambda>b. int_field b ''max_consecutive_invalid_model_outputs'') = Inr 3"
    "\<exists>t. target_timeout run_manifest = Inr t" "\<exists>x. jindex run_manifest ''budgets'' = Inr x" "\<exists>x. jindex run_manifest ''timeouts'' = Inr x"
    by (simp_all add: attempt_limit_def run_manifest_def int_field_def dict_index_def target_timeout_def float_field_def)
  obtain body where r: "ready (se_provider ?e) run_manifest (s3_messages ?s) 0 body 25" using manifest_ready unfolding e by blast
  have m: "cs_calls (s3_call ?s) < 25" "s3_attempts ?s < 24" "s3_invalid ?s < 3" "s3_queue ?s = fresh_queue" by (simp_all add: host_start_def)
  have a: "pe_http (se_provider ?e) (cs_requests (s3_call ?s)) body = Http_answer 200 [] (Lines (stream_lines (stream_data [bypass_text]) @ []))"
    unfolding e by (simp add: still_env_def)
  have t: "parse_action (se_decode_text ?e) (concat [bypass_text]) = Inr bypass_request" using bypass_parsed by simp
  obtain e where c': "hidden_request bypass_request e None" using bypass_hidden by blast
  obtain st' where s: "s3_loop ?e run_manifest 0 ?s = (Inr (False, ''VERIFIER_CONFIRMED_CONSEQUENCE_BOUNDARY_FAILURE''), st')"
    by (rule streamed_turn [OF r m(1) l(1) m(2) l(2) m(3) a t c' bypass_text_ascii m(4) l(3)])
  obtain x st where h: "host_loop ?e run_manifest 0 (host_start fresh_queue ?ms) = (x, st)"
    by (cases "host_loop ?e run_manifest 0 (host_start fresh_queue ?ms)")
  have "al_consumed spent" by (simp add: spent_def)
  from loop_with [OF this, of ?e run_manifest 0 "host_start fresh_queue ?ms"] s h
  have x: "x = Inr (False, ''VERIFIER_CONFIRMED_CONSEQUENCE_BOUNDARY_FAILURE'')" by simp
  have v: "validate_prompt_no_ground_truth (hi_prompt host_command) c [] = Inr ()" by (simp add: validate_prompt_iff)
  have "host_execute ?e run_manifest host_command plain_admission = (x, Some st)"
    using l(4,5) h by (auto simp: host_execute_def reference_integration plain_admission_def c v e(2) fresh_queue_def)
  then have g: "host_execute ?e run_manifest host_command plain_admission
      = (Inr (False, ''VERIFIER_CONFIRMED_CONSEQUENCE_BOUNDARY_FAILURE''), Some st)" unfolding x .
  obtain v where "fail_closed_verdict_002 (verdict_dict (host_verdict (qh_host (hr_queue st)))) (hr_attempts st) False = Inr v"
    using host_fail_closed_002 by blast
  then obtain rep where p: "host_report_of ?e plain_admission False ''VERIFIER_CONFIRMED_CONSEQUENCE_BOUNDARY_FAILURE'' st = Inr rep"
    by (simp add: host_report_of_def Let_def)
  from confirmed_failure_is_established [OF g p] g p show ?thesis by blast
qed

end
