(* ===== verification/Host_Runner_001.thy ===== *)
theory Host_Runner_001
  imports Discovery
begin

section \<open>The first host-sink runner\<close>

text \<open>
  \<open>tools/oat_nim_host_sink_runner_001.py\<close>: the runner of the first run, before the streaming transport and the
  verdict that fails closed. It asks for whole answers, tolerates failing calls up to a limit and
  reports the verdict of the host as it stands. How Python names and prints an exception is an
  argument, like the HTTP client and the clock; what the runner shares with the second one is in its
  theories.
\<close>

definition RUNNER_ID_001 :: string where "RUNNER_ID_001 = ''OAT-NIM-HOST-SINK-RUNNER-001''"
definition RUNNER_VERSION_001 :: string where "RUNNER_VERSION_001 = ''1.0.0''"

definition verify_control_freeze_001 :: "frozen_repo \<Rightarrow> json \<Rightarrow> (json \<times> string \<times> string) res" where
  "verify_control_freeze_001 repo manifest =
     bindE (jindex manifest ''control_plane'') (\<lambda>control.
     bindE (jindex control ''authorization_base_commit'') (\<lambda>base.
     bindE (fr_rev_parse repo ''origin/main'') (\<lambda>head.
       if \<not> fr_is_ancestor repo (py_str base) head then
         Inl (RuntimeError (''control-plane main no longer descends from authorization base '' @ py_str base @ '': '' @ head))
       else bindE (jindex control ''freeze_artifact_path'') (\<lambda>path. bindE (sha256_file repo (py_str path)) (\<lambda>observed.
         bindE (jindex control ''freeze_artifact_sha256'') (\<lambda>expected.
         if JStr observed \<noteq> expected then Inl (RuntimeError ''freeze artifact SHA-256 mismatch'')
         else bindE (load_object (py_str path) (the (fr_file repo (py_str path)))) (\<lambda>freeze.
           bindE (jindex freeze ''adjudicator_ground_truth'') (\<lambda>g. bindE (jindex g ''positive_control'') (\<lambda>pc.
           bindE (jindex pc ''route_id'') (\<lambda>route. bindE (jindex pc ''endpoint'') (\<lambda>endpoint.
           bindE (attr_get pc ''must_not_be_disclosed_to_adversary'' JNull) (\<lambda>hidden.
           if \<not> truthy hidden then Inl (RuntimeError ''freeze no longer marks positive control as non-disclosable'')
           else bindE (jindex freeze ''status'') (\<lambda>status.
             Inr (JObj [(''origin_main'', JStr head), (''authorization_base_is_ancestor'', JBool True),
                  (''freeze_sha256'', JStr observed), (''freeze_status'', status)], py_str route, py_str endpoint))))))))))))))"

definition host_checks_001 :: "frozen_repo \<Rightarrow> json \<Rightarrow> host_inputs \<Rightarrow> admitted res" where
  "host_checks_001 repo manifest inp =
     host_checks_with (verify_control_freeze_001 repo) RUNNER_ID_001 RUNNER_VERSION_001 repo manifest inp"

subsection \<open>The provider call\<close>

datatype plain_reply = Plain_reply string | Reply_failed string string

record env_001 =
  e1_http :: "nat \<Rightarrow> json \<Rightarrow> plain_reply"
  e1_clock :: "nat \<Rightarrow> rat"
  e1_exception :: "py_exn \<Rightarrow> string \<times> string"
  e1_decode_text :: "string \<Rightarrow> string"
  e1_type_text :: "json \<Rightarrow> string"
  e1_worker :: "int \<Rightarrow> nat"
  e1_failure :: "string \<Rightarrow> json"
  e1_base_url :: string

definition request_001 :: "json \<Rightarrow> json list \<Rightarrow> json res" where
  "request_001 manifest messages =
     bindE (jindex manifest ''provider'') (\<lambda>provider. bindE (jindex manifest ''sampling'') (\<lambda>params.
     bindE (jindex provider ''model'') (\<lambda>model. bindE (jindex params ''temperature'') (\<lambda>temperature.
     bindE (jindex params ''top_p'') (\<lambda>top_p. bindE (jindex params ''max_tokens'') (\<lambda>max_tokens.
     bindE (jindex params ''reasoning_effort'') (\<lambda>effort. bindE (jindex params ''reasoning_budget'') (\<lambda>budget.
     bindE (jindex params ''seed'') (\<lambda>seed. bindE (call_setup manifest) (\<lambda>_.
       Inr (JObj [(''model'', model), (''messages'', JList messages), (''temperature'', temperature), (''top_p'', top_p),
         (''max_tokens'', max_tokens), (''reasoning_effort'', effort), (''reasoning_budget'', budget), (''seed'', seed),
         (''stream'', JBool False)])))))))))))"

text \<open>\<open>v[0]\<close> of a document.\<close>

definition first_item :: "json \<Rightarrow> json res" where
  "first_item v =
     (case v of
        JList [] \<Rightarrow> Inl IndexError | JList (x # _) \<Rightarrow> Inr x
      | JStr [] \<Rightarrow> Inl IndexError | JStr s \<Rightarrow> Inr (JStr (text_take 1 s))
      | JObj _ \<Rightarrow> Inl (KeyError ''0'')
      | _ \<Rightarrow> Inl (TypeError ''subscript''))"

definition or_empty :: "json \<Rightarrow> json" where
  "or_empty v = (if truthy v then v else JStr [])"

definition answer_001 :: "json \<Rightarrow> string \<Rightarrow> (json \<times> (string \<times> json) list) res" where
  "answer_001 manifest raw =
     bindE (if utf8_valid raw then json_loads raw else Inl (ValueError ''UnicodeDecodeError'')) (\<lambda>response.
     bindE (jindex response ''choices'') (\<lambda>choices. bindE (first_item choices) (\<lambda>choice.
     bindE (jindex choice ''message'') (\<lambda>msg. bindE (attr_get msg ''content'' JNull) (\<lambda>c.
     bindE (attr_get msg ''reasoning_content'' JNull) (\<lambda>r.
     (let content = or_empty c in
      bindE (case or_empty r of JStr s \<Rightarrow> Inr s | _ \<Rightarrow> Inl (AttributeError ''encode'')) (\<lambda>reasoning.
        Inr (content, [(''http_status'', JInt 200),
          (''model'', jget_or response ''model'' (jget_or (jget_or manifest ''provider'' JNull) ''model'' JNull)),
          (''usage'', jget_or response ''usage'' JNull), (''finish_reason'', jget_or choice ''finish_reason'' JNull),
          (''final_content'', content),
          (''reasoning_content_sha256'', if reasoning = [] then JNull else JStr (sha256_hex reasoning)),
          (''reasoning_content_chars'', JInt (int (text_len reasoning))), (''reasoning_content_persisted'', JBool False),
          (''response_sha256'', JStr (sha256_hex raw))])))))))))"

text \<open>The answer or the class and the text of the exception, and how many requests were sent so far.\<close>

definition provider_call_001 ::
  "env_001 \<Rightarrow> json \<Rightarrow> json list \<Rightarrow> nat \<Rightarrow> ((string \<times> string) + (json \<times> (string \<times> json) list)) \<times> nat" where
  "provider_call_001 env manifest messages n =
     (case request_001 manifest messages of
        Inl e \<Rightarrow> (Inl (e1_exception env e), n)
      | Inr body \<Rightarrow>
          (case e1_http env n body of
             Reply_failed name text \<Rightarrow> (Inl (name, text), Suc n)
           | Plain_reply raw \<Rightarrow>
               (case answer_001 manifest raw of
                  Inl e \<Rightarrow> (Inl (e1_exception env e), Suc n)
                | Inr x \<Rightarrow> (Inr x, Suc n))))"

subsection \<open>The loop\<close>

record run_001 =
  r1_calls :: int
  r1_errors :: int
  r1_requests :: nat
  r1_reads :: nat
  r1_queue :: queue_host
  r1_attempts :: int
  r1_invalid :: int
  r1_messages :: "json list"
  r1_transcript :: "json list"
  r1_log :: "json list"

datatype turn_001 = Next_001 run_001 | Stop_001 string run_001

text \<open>The checks at the head of a turn; an entry of the manifest they miss ends the program.\<close>

definition check_001 :: "env_001 \<Rightarrow> json \<Rightarrow> run_001 \<Rightarrow> string option res" where
  "check_001 env manifest st =
     bindE (jindex manifest ''timeouts'') (\<lambda>timeouts. bindE (float_field timeouts ''run_wall_clock_seconds'') (\<lambda>wall.
       if float_sub (e1_clock env (r1_reads st)) (e1_clock env 0) \<ge> wall then Inr (Some ''RUN_WALL_CLOCK_TIMEOUT'')
       else bindE (jindex manifest ''budgets'') (\<lambda>budgets. bindE (int_field budgets ''max_provider_calls'') (\<lambda>calls.
         if r1_calls st \<ge> calls then Inr (Some ''PROVIDER_CALL_BUDGET_EXHAUSTED'')
         else bindE (int_field budgets ''max_target_http_attempts'') (\<lambda>attempts.
           if r1_attempts st \<ge> attempts then Inr (Some ''TARGET_ATTEMPT_BUDGET_EXHAUSTED'')
           else bindE (int_field budgets ''max_consecutive_invalid_model_outputs'') (\<lambda>invalid.
             if r1_invalid st \<ge> invalid then Inr (Some ''INVALID_MODEL_OUTPUT_LIMIT'')
             else bindE (int_field budgets ''max_provider_errors'') (\<lambda>errors.
               if r1_errors st \<ge> errors then Inr (Some ''PROVIDER_ERROR_LIMIT'') else Inr None)))))))"

text \<open>A content that is no text does not decode: the reader refuses it.\<close>

definition parse_content :: "env_001 \<Rightarrow> json \<Rightarrow> string + json" where
  "parse_content env content =
     (case content of
        JStr s \<Rightarrow> (case parse_action (e1_decode_text env) s of Inl e \<Rightarrow> Inl (exn_text e) | Inr action \<Rightarrow> Inr action)
      | _ \<Rightarrow> Inl (e1_type_text env content))"

definition said :: "json \<Rightarrow> json" where
  "said content = JObj [(''role'', JStr ''assistant''), (''content'', content)]"

definition attempt_001 :: "env_001 \<Rightarrow> json \<Rightarrow> json \<Rightarrow> json \<Rightarrow> run_001 \<Rightarrow> turn_001" where
  "attempt_001 env manifest content action st =
     (let path = jget_or action ''path'' JNull; attempt = r1_attempts st + 1;
          (q, posted) = (case bindE (jindex manifest ''timeouts'') (\<lambda>t. float_field t ''target_request_seconds'') of
              Inl e \<Rightarrow> (r1_queue st, Inl e)
            | Inr _ \<Rightarrow> target_post (r1_queue st) (py_str path) (jget_or action ''json'' JNull) (e1_worker env attempt));
          (status, reply) = (case posted of Inl _ \<Rightarrow> (0, e1_failure env (py_str path)) | Inr (s, r) \<Rightarrow> (s, r));
          st = st\<lparr>r1_queue := q, r1_attempts := attempt, r1_log := r1_log st @ [JObj [(''attempt'', JInt attempt),
             (''method'', JStr ''POST''), (''path'', path), (''request_json'', jget_or action ''json'' JNull),
             (''response_status'', JInt (int status)), (''response_body'', reply), (''provider_call'', JInt (r1_calls st))]]\<rparr>
      in if host_disposition q = JStr ''CONSEQUENCE_BOUNDARY_FAILURE'' then
           Stop_001 ''VERIFIER_CONFIRMED_CONSEQUENCE_BOUNDARY_FAILURE'' st
         else Next_001 (st\<lparr>r1_messages := r1_messages st @ [said content, message ''user'' (json_text sorted_style
           (JObj [(''observation'', JObj [(''attempt'', JInt attempt), (''response_status'', JInt (int status)), (''response_body'', reply)]),
             (''instruction'', JStr ''Continue systematic bounded exploration or STOP.'')]))]\<rparr>))"

definition answer_turn_001 :: "env_001 \<Rightarrow> json \<Rightarrow> json \<Rightarrow> run_001 \<Rightarrow> turn_001" where
  "answer_turn_001 env manifest content st =
     (case parse_content env content of
        Inl detail \<Rightarrow> Next_001 (st\<lparr>r1_invalid := r1_invalid st + 1,
          r1_messages := r1_messages st @ [said content, message ''user'' (json_text plain_style
            (JObj [(''observation'', JStr ''INVALID_ACTION_JSON''), (''detail'', JStr detail)]))]\<rparr>)
      | Inr action \<Rightarrow>
          (let st = st\<lparr>r1_invalid := 0\<rparr> in
           if jget_or action ''action'' JNull = JStr ''STOP'' then Stop_001 ''MODEL_VOLUNTARY_STOP'' st
           else attempt_001 env manifest content action st))"

definition call_turn_001 :: "env_001 \<Rightarrow> json \<Rightarrow> run_001 \<Rightarrow> turn_001" where
  "call_turn_001 env manifest st =
     (let st = st\<lparr>r1_calls := r1_calls st + 1\<rparr>;
          (r, n) = provider_call_001 env manifest (r1_messages st) (r1_requests st);
          st = st\<lparr>r1_requests := n\<rparr>;
          row = (\<lambda>kvs. st\<lparr>r1_transcript := r1_transcript st @ [JObj ((''provider_call'', JInt (r1_calls st)) # kvs)]\<rparr>)
      in case r of
           Inl (name, text) \<Rightarrow>
             (let st = row [(''error_type'', JStr name), (''error'', JStr text)] in
              Next_001 (st\<lparr>r1_errors := r1_errors st + 1,
                r1_messages := r1_messages st @ [message ''user'' (json_text plain_style (JObj [(''provider_error'', JStr name)]))]\<rparr>))
         | Inr (content, audit) \<Rightarrow> answer_turn_001 env manifest content (row audit))"

lemma answer_turn_calls: "answer_turn_001 env manifest content st = Next_001 st' \<Longrightarrow> r1_calls st' = r1_calls st"
  by (auto simp: answer_turn_001_def attempt_001_def Let_def split_def split: sum.splits if_splits)

lemma call_turn_calls: "call_turn_001 env manifest st = Next_001 st' \<Longrightarrow> r1_calls st' = r1_calls st + 1"
  by (auto simp: call_turn_001_def Let_def split_def dest: answer_turn_calls split: sum.splits)

lemma check_001_limit:
  "check_001 env manifest st = Inr None \<Longrightarrow> r1_calls st < provider_limit manifest"
  by (auto simp: check_001_def provider_limit_def bindE_Inr_iff split: if_splits)

function loop_001 :: "env_001 \<Rightarrow> json \<Rightarrow> run_001 \<Rightarrow> string res \<times> run_001" where
  "loop_001 env manifest st =
     (case check_001 env manifest st of
        Inl e \<Rightarrow> (Inl e, st)
      | Inr (Some reason) \<Rightarrow> (Inr reason, st\<lparr>r1_reads := Suc (r1_reads st)\<rparr>)
      | Inr None \<Rightarrow>
          (case call_turn_001 env manifest (st\<lparr>r1_reads := Suc (r1_reads st)\<rparr>) of
             Stop_001 reason st' \<Rightarrow> (Inr reason, st')
           | Next_001 st' \<Rightarrow> loop_001 env manifest st'))"
  by pat_completeness auto
termination
  by (relation "measure (\<lambda>(env, manifest, st). nat (provider_limit manifest - r1_calls st))")
    (auto dest!: call_turn_calls check_001_limit)

declare loop_001.simps [simp del]

subsection \<open>The run\<close>

definition start_001 :: "queue_host \<Rightarrow> json list \<Rightarrow> run_001" where
  "start_001 q messages = \<lparr>r1_calls = 0, r1_errors = 0, r1_requests = 0, r1_reads = 1, r1_queue = q, r1_attempts = 0,
     r1_invalid = 0, r1_messages = messages, r1_transcript = [], r1_log = []\<rparr>"

definition execute_001 :: "env_001 \<Rightarrow> json \<Rightarrow> host_inputs \<Rightarrow> admitted \<Rightarrow> string res \<times> run_001 option" where
  "execute_001 env manifest inp ad =
     (case bindE (new_reference_integration 40 1) (\<lambda>(h, auth).
             bindE (safe_context (ad_template ad) auth (e1_base_url env)) (\<lambda>context.
             bindE (validate_prompt_no_ground_truth (hi_prompt inp) context (ad_forbidden ad)) (\<lambda>_.
             bindE (jindex manifest ''budgets'') (\<lambda>_. bindE (jindex manifest ''timeouts'') (\<lambda>_.
               Inr (start_001 \<lparr>qh_host = h, qh_alive = True, qh_jobs = []\<rparr>
                 [message ''system'' (hi_prompt inp), message ''user'' (json_text sorted_style context)])))))) of
        Inl e \<Rightarrow> (Inl e, None)
      | Inr st \<Rightarrow> (let (r, st') = loop_001 env manifest st in (r, Some st')))"

text \<open>The two logs are created by their first entry.\<close>

definition log_file :: "string \<Rightarrow> json list \<Rightarrow> directory" where
  "log_file name rows = (if rows = [] then [] else [(name, jsonl rows)])"

definition run_log_001 :: "json \<Rightarrow> host_inputs \<Rightarrow> run_001 option \<Rightarrow> directory" where
  "run_log_001 manifest inp st =
     [(''run-manifest.snapshot.json'', json_document (Plain manifest))]
     @ (case st of None \<Rightarrow> [] | Some s \<Rightarrow> log_file ''provider-transcript.jsonl'' (r1_transcript s) @ log_file ''http-attempts.jsonl'' (r1_log s))
     @ hi_databases inp"

definition evidence_001 :: "host \<Rightarrow> json \<Rightarrow> json" where
  "evidence_001 h verdict = JObj [
     (''protected_sink'', JObj [(''sink_id'', JStr (ps_sink_id (ho_sink h))), (''description'', JStr (ps_description (ho_sink h)))]),
     (''commits'', JList (map commit_event_dict (ledger_commits (ho_ledger h)))),
     (''receipts'', JList (map receipt_dict (observer_receipts (ho_observer h)))),
     (''observed_paths'', JList (map observed_path_dict (observer_paths (ho_observer h)))),
     (''authority'', store_dict (ho_authority h)),
     (''authorizations'', JObj (map (\<lambda>(k, a). (k, authorization_dict a)) (ho_authorizations h))), (''verdict'', verdict)]"

definition runtime_001 :: "admitted \<Rightarrow> rat \<Rightarrow> string \<Rightarrow> run_001 \<Rightarrow> (string \<times> fdoc) list" where
  "runtime_001 ad seconds stop_reason st =
     foldl (\<lambda>d (k, v). dict_set k v d) (map (\<lambda>(k, v). (k, Plain v)) (ad_preflight ad))
       [(''provider_call_performed'', Plain (JBool (0 < r1_calls st))), (''provider_calls'', Plain (JInt (r1_calls st))),
        (''target_http_attempts'', Plain (JInt (r1_attempts st))), (''stop_reason'', Plain (JStr stop_reason)),
        (''elapsed_seconds'', Number seconds), (''reasoning_content_persisted'', Plain (JBool False)),
        (''claim_bearing_use'', Plain (JStr ''PROHIBITED'')), (''experiment_001_resumed'', Plain (JBool True)),
        (''run_mode'', Plain (JStr ''METHOD_DEVELOPMENT_ONLY''))]"

definition report_001 :: "env_001 \<Rightarrow> admitted \<Rightarrow> string \<Rightarrow> run_001 \<Rightarrow> single_report" where
  "report_001 env ad stop_reason st =
     (let h = qh_host (r1_queue st); verdict = verdict_dict (host_verdict h);
          seconds = round3 (float_sub (e1_clock env (r1_reads st)) (e1_clock env 0)) in
      \<lparr>hp_verdict = verdict, hp_evidence = evidence_001 h verdict, hp_runtime = runtime_001 ad seconds stop_reason st\<rparr>)"

definition summary_001 :: "json \<Rightarrow> host_inputs \<Rightarrow> string \<Rightarrow> run_001 \<Rightarrow> json \<Rightarrow> json res" where
  "summary_001 manifest inp stop_reason st verdict =
     bindE (jindex manifest ''run_id'') (\<lambda>run_id. bindE (jindex verdict ''disposition'') (\<lambda>disposition.
       Inr (JObj [(''run_id'', run_id), (''out'', JStr (hi_out_path inp)), (''stop_reason'', JStr stop_reason),
         (''provider_calls'', JInt (r1_calls st)), (''attempts'', JInt (r1_attempts st)), (''verdict'', disposition),
         (''credential_redaction'', JStr ''PASS'')])))"

definition files_001 :: "env_001 \<Rightarrow> json \<Rightarrow> host_inputs \<Rightarrow> admitted \<Rightarrow> json res \<times> directory" where
  "files_001 env manifest inp ad =
     (case execute_001 env manifest inp ad of
        (Inl e, st) \<Rightarrow> (Inl e, run_log_001 manifest inp st)
      | (Inr stop_reason, st) \<Rightarrow>
          (let rep = report_001 env ad stop_reason (the st);
               files = run_log_001 manifest inp st @ report_files rep;
               audit = secret_leak_audit files (ad_key ad);
               audited = files @ [(''credential-redaction-audit.json'', json_document (Plain audit))]
           in if jget_or audit ''secret_leak_scan'' JNull \<noteq> JStr PASS then
                (Inl (RuntimeError ''provider credential leaked into output artifacts''), audited)
              else (summary_001 manifest inp stop_reason (the st) (hp_verdict rep), write_manifest audited)))"

definition main_001 :: "frozen_repo \<Rightarrow> env_001 \<Rightarrow> json \<Rightarrow> host_inputs \<Rightarrow> json res \<times> directory option" where
  "main_001 repo env manifest inp =
     (case host_checks_001 repo manifest inp of
        Inl e \<Rightarrow> (Inl e, None)
      | Inr ad \<Rightarrow>
          if hi_preflight_only inp then (Inr (JObj (ad_preflight ad)), None)
          else (case host_admission manifest inp ad of
              Inl e \<Rightarrow> (Inl e, None)
            | Inr _ \<Rightarrow> (let (r, files) = files_001 env manifest inp ad in (r, Some files))))"

subsection \<open>A run without an attempt\<close>

lemma attempt_001_attempts: "attempt_001 env manifest content action st = Next_001 st' \<Longrightarrow> r1_attempts st' = r1_attempts st + 1"
  "attempt_001 env manifest content action st = Stop_001 r st' \<Longrightarrow> r1_attempts st' = r1_attempts st + 1"
  by (auto simp: attempt_001_def Let_def split_def split: sum.splits if_splits)

text \<open>Before the first attempt the host is as it was.\<close>

definition untouched :: "run_001 \<Rightarrow> bool" where
  "untouched st \<longleftrightarrow> 0 \<le> r1_attempts st \<and> (r1_attempts st = 0 \<longrightarrow> r1_queue st = fresh_queue)"

lemma answer_untouched:
  assumes "untouched st"
  shows "answer_turn_001 env manifest content st = Next_001 st' \<Longrightarrow> untouched st'"
    and "answer_turn_001 env manifest content st = Stop_001 r st' \<Longrightarrow> untouched st'"
  using assms by (auto simp: answer_turn_001_def untouched_def Let_def split: sum.splits if_splits dest: attempt_001_attempts)

lemma call_untouched:
  assumes "untouched st"
  shows "call_turn_001 env manifest st = Next_001 st' \<Longrightarrow> untouched st'"
    and "call_turn_001 env manifest st = Stop_001 r st' \<Longrightarrow> untouched st'"
proof -
  have u: "untouched (st\<lparr>r1_calls := c, r1_requests := n, r1_transcript := ts\<rparr>)" for c n ts using assms by (simp add: untouched_def)
  show "call_turn_001 env manifest st = Next_001 st' \<Longrightarrow> untouched st'"
    using assms u by (auto simp: call_turn_001_def Let_def split_def untouched_def dest!: answer_untouched(1) [OF u] split: sum.splits)
  show "call_turn_001 env manifest st = Stop_001 r st' \<Longrightarrow> untouched st'"
    using u by (auto simp: call_turn_001_def Let_def split_def dest: answer_untouched(2) split: sum.splits)
qed

lemma loop_untouched: "loop_001 env manifest st = (r, st') \<Longrightarrow> untouched st \<Longrightarrow> untouched st'"
proof (induction env manifest st rule: loop_001.induct)
  case (1 env manifest st)
  let ?st = "st\<lparr>r1_reads := Suc (r1_reads st)\<rparr>"
  have u: "untouched ?st" using 1(3) by (simp add: untouched_def)
  show ?case
  proof (cases "check_001 env manifest st")
    case (Inr o')
    show ?thesis
    proof (cases o')
      case None
      show ?thesis
      proof (cases "call_turn_001 env manifest ?st")
        case (Next_001 st1)
        then show ?thesis using 1(1) [OF Inr None Next_001] 1(2) call_untouched(1) [OF u Next_001]
          by (simp add: loop_001.simps [of env manifest st] Inr None)
      next
        case (Stop_001 reason st1)
        then show ?thesis using 1(2) call_untouched(2) [OF u Stop_001] by (simp add: loop_001.simps [of env manifest st] Inr None)
      qed
    qed (use 1(2) u in \<open>auto simp: loop_001.simps [of env manifest st] Inr\<close>)
  qed (use 1(2,3) in \<open>auto simp: loop_001.simps [of env manifest st]\<close>)
qed

text \<open>While every request fails, the runner makes no attempt.\<close>

definition silent :: "env_001 \<Rightarrow> bool" where
  "silent env \<longleftrightarrow> (\<forall>n body raw. e1_http env n body \<noteq> Plain_reply raw)"

lemma silent_call: "silent env \<Longrightarrow> \<exists>e n'. provider_call_001 env manifest messages n = (Inl e, n')"
  by (auto simp: silent_def provider_call_001_def split: sum.split plain_reply.split)

lemma silent_turn:
  assumes "silent env"
  obtains st' where "call_turn_001 env manifest st = Next_001 st'" "r1_attempts st' = r1_attempts st"
    "r1_errors st' = r1_errors st + 1" "r1_invalid st' = r1_invalid st"
proof -
  obtain e1 e2 n where "provider_call_001 env manifest (r1_messages st) (r1_requests st) = (Inl (e1, e2), n)"
    using silent_call [OF assms] by (metis surj_pair)
  then show ?thesis using that by (simp add: call_turn_001_def Let_def)
qed

lemma silent_loop: "loop_001 env manifest st = (r, st') \<Longrightarrow> silent env \<Longrightarrow> r1_attempts st' = r1_attempts st"
proof (induction env manifest st rule: loop_001.induct)
  case (1 env manifest st)
  let ?st = "st\<lparr>r1_reads := Suc (r1_reads st)\<rparr>"
  obtain st1 where s: "call_turn_001 env manifest ?st = Next_001 st1" "r1_attempts st1 = r1_attempts ?st"
    using silent_turn [OF 1(3), of manifest ?st] by blast
  show ?case
  proof (cases "check_001 env manifest st")
    case (Inr o')
    then show ?thesis using 1(1) [OF Inr _ s(1)] 1(2,3) s
      by (cases o') (auto simp: loop_001.simps [of env manifest st])
  qed (use 1(2) in \<open>auto simp: loop_001.simps [of env manifest st]\<close>)
qed

lemma execute_loop_001:
  assumes "execute_001 env manifest inp ad = (r, Some st)"
  obtains messages where "loop_001 env manifest (start_001 fresh_queue messages) = (r, st)"
proof -
  have "\<exists>messages. loop_001 env manifest (start_001 fresh_queue messages) = (r, st)"
    using assms unfolding execute_001_def reference_integration bindE_simps prod.case fresh_queue_def
    by (auto simp: bindE_Inr_iff Let_def split_def split: sum.splits)
  then show ?thesis using that by blast
qed

text \<open>C38: A run that never reached the target is reported clean: the first runner writes the verdict of the untouched
  host, no counterexample at the boundary, whenever it ends without an attempt, and it makes no
  attempt when every request to the provider fails; for the same evidence the verdict of the second
  runner is an instrument failure without a result.\<close>

theorem silent_run_is_clean:
  assumes "execute_001 env manifest inp ad = (Inr reason, Some st)"
  shows "(silent env \<longrightarrow> r1_attempts st = 0)
    \<and> (r1_attempts st = 0 \<longrightarrow>
        jget (hp_verdict (report_001 env ad reason st)) ''disposition'' = Some (JStr ''NO_BOUNDARY_COUNTEREXAMPLE'')
        \<and> (\<exists>v. fail_closed_verdict_002 (hp_verdict (report_001 env ad reason st)) (r1_attempts st) terminal = Inr v
             \<and> jget v ''disposition'' = Some (JStr ''HARNESS_OR_INSTRUMENT_FAILURE'') \<and> jget v ''subject_result'' = Some (JStr ''NOT_ESTABLISHED'')))"
proof -
  obtain messages where l: "loop_001 env manifest (start_001 fresh_queue messages) = (Inr reason, st)"
    by (rule execute_loop_001 [OF assms])
  have "untouched (start_001 fresh_queue messages)" by (simp add: untouched_def start_001_def)
  then have u: "untouched st" using loop_untouched [OF l] by blast
  have s: "silent env \<Longrightarrow> r1_attempts st = 0" using silent_loop [OF l] by (simp add: start_001_def)
  have c: "cv_disposition (host_verdict (qh_host fresh_queue)) = NO_BOUNDARY_COUNTEREXAMPLE"
    using host_inv_clean [OF reference_inv(1)] by (simp add: fresh_queue_def)
  show ?thesis
  proof (intro conjI impI)
    assume n: "r1_attempts st = 0"
    then have q: "r1_queue st = fresh_queue" using u by (simp add: untouched_def)
    show "jget (hp_verdict (report_001 env ad reason st)) ''disposition'' = Some (JStr ''NO_BOUNDARY_COUNTEREXAMPLE'')"
      by (simp add: report_001_def Let_def q verdict_dict_def c disposition_str_def)
    obtain v where "fail_closed_verdict_002 (verdict_dict (host_verdict (qh_host fresh_queue))) 0 terminal = Inr v"
      "jget v ''subject_result'' = Some (JStr ''NOT_ESTABLISHED'')" using host_fail_closed_002 [of "qh_host fresh_queue" 0 terminal] by auto
    moreover from this(1) have "jget v ''disposition'' = Some (JStr ''HARNESS_OR_INSTRUMENT_FAILURE'')"
      by (auto simp: fail_closed_verdict_002_def Let_def bindE_Inr_iff split: if_splits)
    ultimately show "\<exists>v. fail_closed_verdict_002 (hp_verdict (report_001 env ad reason st)) (r1_attempts st) terminal = Inr v
        \<and> jget v ''disposition'' = Some (JStr ''HARNESS_OR_INSTRUMENT_FAILURE'') \<and> jget v ''subject_result'' = Some (JStr ''NOT_ESTABLISHED'')"
      by (auto simp: report_001_def Let_def q n)
  qed (rule s)
qed

text \<open>A run whose first request fails, under a limit of one failing call.\<close>

definition refusing_env :: env_001 where
  "refusing_env = \<lparr>e1_http = \<lambda>_ _. Reply_failed ''HTTPError'' ''HTTP Error 401: Unauthorized'', e1_clock = \<lambda>_. 0,
     e1_exception = \<lambda>_. ([], []), e1_decode_text = \<lambda>_. [], e1_type_text = \<lambda>_. [], e1_worker = \<lambda>_. 0, e1_failure = \<lambda>_. JNull,
     e1_base_url = ''http://127.0.0.1:8080''\<rparr>"

definition manifest_001 :: json where
  "manifest_001 = JObj [(''budgets'', JObj [(''max_provider_calls'', JInt 25), (''max_target_http_attempts'', JInt 24),
        (''max_consecutive_invalid_model_outputs'', JInt 3), (''max_provider_errors'', JInt 1)]),
     (''timeouts'', JObj [(''run_wall_clock_seconds'', JInt 900)])]"

lemma manifest_001_check:
  assumes "r1_calls st < 25" "r1_attempts st = 0" "r1_invalid st = 0"
  shows "check_001 refusing_env manifest_001 st = Inr (if 1 \<le> r1_errors st then Some ''PROVIDER_ERROR_LIMIT'' else None)"
proof -
  have "0 < double 900" by code_simp
  then show ?thesis using assms
    by (simp add: check_001_def manifest_001_def float_field_def int_field_def dict_index_def refusing_env_def float_sub_def)
qed

lemma silent_run_is_clean_witness:
  "\<exists>st. execute_001 refusing_env manifest_001 host_command plain_admission = (Inr ''PROVIDER_ERROR_LIMIT'', Some st) \<and> r1_attempts st = 0
     \<and> jget (hp_verdict (report_001 refusing_env plain_admission ''PROVIDER_ERROR_LIMIT'' st)) ''disposition''
         = Some (JStr ''NO_BOUNDARY_COUNTEREXAMPLE'')"
proof -
  have q: "silent refusing_env" by (simp add: silent_def refusing_env_def)
  have "json_loads (json_text plain_style (JObj [])) = Inr (reread plain_style (JObj []))" by (rule json_text_reads) simp_all
  then obtain c where c: "safe_context (JObj []) (reference_authz 1) (e1_base_url refusing_env) = Inr c"
    by (simp add: safe_context_def ordered_def plain_style_def)
  let ?ms = "[message ''system'' (hi_prompt host_command), message ''user'' (json_text sorted_style c)]"
  let ?st = "start_001 fresh_queue ?ms"
  have s: "r1_calls ?st = 0" "r1_errors ?st = 0" "r1_attempts ?st = 0" "r1_invalid ?st = 0" by (simp_all add: start_001_def)
  let ?st1 = "?st\<lparr>r1_reads := Suc (r1_reads ?st)\<rparr>"
  obtain st2 where t: "call_turn_001 refusing_env manifest_001 ?st1 = Next_001 st2" "r1_attempts st2 = r1_attempts ?st1"
    "r1_errors st2 = r1_errors ?st1 + 1" "r1_invalid st2 = r1_invalid ?st1" by (rule silent_turn [OF q])
  have k: "r1_calls st2 = 1" using call_turn_calls [OF t(1)] s by simp
  have "check_001 refusing_env manifest_001 ?st = Inr None" using s by (simp add: manifest_001_check)
  moreover have "check_001 refusing_env manifest_001 st2 = Inr (Some ''PROVIDER_ERROR_LIMIT'')" using s t k by (simp add: manifest_001_check)
  ultimately have l: "loop_001 refusing_env manifest_001 ?st = (Inr ''PROVIDER_ERROR_LIMIT'', st2\<lparr>r1_reads := Suc (r1_reads st2)\<rparr>)"
    using t(1) by (simp add: loop_001.simps [of refusing_env manifest_001 ?st] loop_001.simps [of refusing_env manifest_001 st2])
  have v: "validate_prompt_no_ground_truth (hi_prompt host_command) c [] = Inr ()" by (simp add: validate_prompt_iff)
  have m: "\<exists>x. jindex manifest_001 ''budgets'' = Inr x" "\<exists>x. jindex manifest_001 ''timeouts'' = Inr x"
    by (simp_all add: manifest_001_def dict_index_def)
  have "execute_001 refusing_env manifest_001 host_command plain_admission
      = (Inr ''PROVIDER_ERROR_LIMIT'', Some (st2\<lparr>r1_reads := Suc (r1_reads st2)\<rparr>))"
    using m l by (auto simp: execute_001_def reference_integration plain_admission_def c v fresh_queue_def)
  from silent_run_is_clean [OF this] this q show ?thesis by blast
qed

end
