(* ===== verification/Run_Directory.thy ===== *)
theory Run_Directory
  imports Checksums Dry_Run Consequence_Replay Provider_Preflight
begin

section \<open>Run directories\<close>

text \<open>
  The files a run leaves behind: \<open>write_run_package\<close>, \<open>write_sha256sums\<close>, \<open>strip_runtime_from_run_dir\<close> and
  \<open>verify_sha256sums\<close> of \<open>oat/pipeline.py\<close>, \<open>read_json\<close> and \<open>write_json\<close> of \<open>oat/manifest.py\<close>, the replay of a
  directory with \<open>_scenario_source\<close> (\<open>oat/replay.py\<close>), and the package file of \<open>oat/evidence/replay.py\<close>.
  The world of a command is the run directories by path, each a list of its entries, and what was printed.
  An operation may raise; what it did before remains. The scenarios, which the operations only read, are
  given by their path.
\<close>

subsection \<open>Documents\<close>

lemma indented_written: "indented n v = write_doc raw_body indent_style n v"
proof (induction v arbitrary: n)
  case (JObj kvs)
  then have "map (\<lambda>(k, v). (k, indented (Suc n) v)) kvs = map (\<lambda>(k, v). (k, write_doc raw_body indent_style (Suc n) v)) kvs"
    by fastforce
  moreover have "js_key indent_style = '': ''" by (simp add: indent_style_def)
  moreover have "enc_str k = quoted raw_body k" for k by (simp add: enc_str_def quoted_def)
  ultimately show ?case by (simp only: indented.simps write_doc.simps)
qed (auto simp: enc_str_def quoted_def cong: map_cong)

text \<open>A document no dictionary of which has a key twice.\<close>

definition keys_once :: "json \<Rightarrow> bool" where
  "keys_once v = fine_doc (\<lambda>_. True) v"

lemma keys_once_simps [simp]:
  "keys_once (JStr s)" "keys_once JNull" "keys_once (JBool b)" "keys_once (JInt i)"
  "keys_once (JList xs) = (\<forall>x \<in> set xs. keys_once x)" "keys_once (JTuple xs) = (\<forall>x \<in> set xs. keys_once x)"
  "keys_once (JObj kvs) = (distinct (map fst kvs) \<and> (\<forall>(k, v) \<in> set kvs. keys_once v))"
  by (auto simp: keys_once_def list_all_iff)

lemma indented_reads: "keys_once v \<Longrightarrow> json_loads (indented 0 v @ [CHR 0x0A]) = Inr (reread indent_style v)"
  using raw_writer.text_reads [of v indent_style "[CHR 0x0A]"] styles_ok(3) by (simp add: keys_once_def indented_written)

text \<open>What is read has every key once and no tuples.\<close>

fun json_doc :: "json \<Rightarrow> bool" where
  "json_doc (JTuple _) = False"
| "json_doc (JList xs) = (\<forall>x \<in> set xs. json_doc x)"
| "json_doc (JObj kvs) = (distinct (map fst kvs) \<and> (\<forall>(k, v) \<in> set kvs. json_doc v))"
| "json_doc _ = True"

lemma json_doc_once: "json_doc v \<Longrightarrow> keys_once v"
  by (induction v) auto

lemma dict_set_once:
  assumes "distinct (map fst d)" "\<forall>(k, v) \<in> set d. P v" "P x"
  shows "distinct (map fst (dict_set j x d)) \<and> (\<forall>(k, v) \<in> set (dict_set j x d). P v)"
proof -
  have "set (dict_set j x d) \<subseteq> insert (j, x) (set d)" for d :: "('a \<times> 'b) list"
    by (induction d) (auto simp: dict_set_def)
  moreover have "distinct (map fst (dict_set j x d))" using assms(1) by (simp add: dict_set_def distinct_update)
  ultimately show ?thesis using assms(2,3) by blast
qed

lemma built_once:
  assumes "distinct (map fst d)" "\<forall>(k, v) \<in> set d. P v" "\<forall>(k, v) \<in> set kvs. P v"
  shows "distinct (map fst (foldl (\<lambda>d (k, v). dict_set k v d) d kvs)) \<and> (\<forall>(k, v) \<in> set (foldl (\<lambda>d (k, v). dict_set k v d) d kvs). P v)"
  using assms
proof (induction kvs arbitrary: d)
  case (Cons kv kvs)
  obtain k v where kv: "kv = (k, v)" by fastforce
  with Cons.prems have "P v" by simp
  from dict_set_once [OF Cons.prems(1,2) this, of k] Cons.prems(3) Cons.IH [of "dict_set k v d"] show ?case
    by (simp add: kv)
qed simp

lemma read_object_doc:
  "\<forall>(k, x) \<in> set kvs. json_doc x \<Longrightarrow> json_doc (JObj (foldl (\<lambda>d (k, v). dict_set k v d) [] kvs))"
  unfolding json_doc.simps by (rule built_once) simp_all

lemma read_doc:
  "read_value n s = Some (v, r) \<Longrightarrow> json_doc v"
  "read_elements n s = Some (vs, r) \<Longrightarrow> \<forall>x \<in> set vs. json_doc x"
  "read_members n s = Some (kvs, r) \<Longrightarrow> \<forall>(k, x) \<in> set kvs. json_doc x"
proof (induction n s and n s and n s arbitrary: v r and vs r and kvs r rule: read_value_read_elements_read_members.induct)
  case (2 n s)
  then show ?case
    by (auto simp: read_value.simps read_word_def Let_def simp del: json_doc.simps(3) intro!: read_object_doc
        split: list.splits if_splits) (simp, fastforce)
next
  case (4 n s)
  then show ?case
    by (simp add: read_elements.simps split: option.splits list.splits if_splits prod.splits)
      (auto split: option.splits list.splits if_splits prod.splits)
next
  case (6 n s)
  then show ?case
    by (simp add: read_members.simps split: option.splits list.splits if_splits prod.splits)
      (auto split: option.splits list.splits if_splits prod.splits, fastforce)
qed (simp_all add: read_value.simps read_elements.simps read_members.simps)

lemma loads_doc: "json_loads s = Inr v \<Longrightarrow> json_doc v"
  unfolding json_loads_def by (auto simp del: read_value.simps split: option.splits if_splits dest!: read_doc(1))

subsection \<open>The world of a command\<close>

record world =
  wd_dirs :: "(string, file_entry list) dict"
  wd_out :: "string list"

type_synonym 'a io = "world \<Rightarrow> 'a res \<times> world"

definition give :: "'a \<Rightarrow> 'a io" where
  "give x w = (Inr x, w)"

definition attempt :: "'a res \<Rightarrow> 'a io" where
  "attempt r w = (r, w)"

definition andthen :: "'a io \<Rightarrow> ('a \<Rightarrow> 'b io) \<Rightarrow> 'b io" where
  "andthen m f w = (case m w of (Inl e, w') \<Rightarrow> (Inl e, w') | (Inr x, w') \<Rightarrow> f x w')"

fun each :: "('a \<Rightarrow> unit io) \<Rightarrow> 'a list \<Rightarrow> unit io" where
  "each f [] = give ()"
| "each f (x # xs) = andthen (f x) (\<lambda>_. each f xs)"

text \<open>\<open>print\<close>, and a directory's entries.\<close>

definition say :: "string \<Rightarrow> unit io" where
  "say line w = (Inr (), w\<lparr>wd_out := wd_out w @ [line]\<rparr>)"

definition dir_entries :: "string \<Rightarrow> file_entry list io" where
  "dir_entries dir w = (case dict_get (wd_dirs w) dir of None \<Rightarrow> (Inl (FileNotFoundError dir), w) | Some files \<Rightarrow> (Inr files, w))"

definition join_path :: "string \<Rightarrow> string \<Rightarrow> string" where
  "join_path dir name = dir @ ''/'' @ name"

definition file_content :: "string \<Rightarrow> string \<Rightarrow> file_entry list \<Rightarrow> string res" where
  "file_content dir name files =
     (case find_file files name of
        None \<Rightarrow> Inl (FileNotFoundError (join_path dir name))
      | Some f \<Rightarrow> if fe_is_file f then Inr (fe_content f) else Inl (IsADirectoryError (join_path dir name)))"

definition decoded_json :: "string \<Rightarrow> json res" where
  "decoded_json content = (if utf8_valid content then json_loads content else Inl (ValueError ''UnicodeDecodeError''))"

text \<open>\<open>read_json\<close>, and \<open>Path.is_file\<close>, of a file in a directory.\<close>

definition read_json_at :: "string \<Rightarrow> string \<Rightarrow> json io" where
  "read_json_at dir name w =
     (case dict_get (wd_dirs w) dir of
        None \<Rightarrow> (Inl (FileNotFoundError (join_path dir name)), w)
      | Some files \<Rightarrow> (bindE (file_content dir name files) decoded_json, w))"

definition is_file_in :: "file_entry list \<Rightarrow> string \<Rightarrow> bool" where
  "is_file_in files name \<longleftrightarrow> (case find_file files name of None \<Rightarrow> False | Some f \<Rightarrow> fe_is_file f)"

text \<open>Writing creates the directory when it is missing. Text that cannot be encoded leaves the file empty.\<close>

definition put_entry :: "string \<Rightarrow> string \<Rightarrow> file_entry list \<Rightarrow> file_entry list" where
  "put_entry name content files =
     (let new = \<lparr>fe_path = name, fe_is_file = True, fe_content = content\<rparr> in
      if find_file files name = None then files @ [new]
      else map (\<lambda>f. if fe_path f = name then new else f) files)"

definition make_dir :: "string \<Rightarrow> unit io" where
  "make_dir dir w =
     (Inr (), if dict_get (wd_dirs w) dir = None then w\<lparr>wd_dirs := dict_set dir [] (wd_dirs w)\<rparr> else w)"

definition put_file :: "string \<Rightarrow> string \<Rightarrow> string \<Rightarrow> unit io" where
  "put_file dir name content w =
     (case dict_get (wd_dirs w) dir of
        None \<Rightarrow> (Inl (FileNotFoundError (join_path dir name)), w)
      | Some files \<Rightarrow>
          if find_file files name \<noteq> None \<and> \<not> is_file_in files name then (Inl (IsADirectoryError (join_path dir name)), w)
          else if \<not> utf8_valid content then
            (Inl (ValueError ''UnicodeEncodeError''), w\<lparr>wd_dirs := dict_set dir (put_entry name [] files) (wd_dirs w)\<rparr>)
          else (Inr (), w\<lparr>wd_dirs := dict_set dir (put_entry name content files) (wd_dirs w)\<rparr>))"

definition write_json_at :: "string \<Rightarrow> string \<Rightarrow> json \<Rightarrow> unit io" where
  "write_json_at dir name v =
     andthen (make_dir dir) (\<lambda>_. put_file dir name (indented 0 v @ [CHR 0x0A]))"

subsection \<open>The run package\<close>

definition write_sha256sums :: "string \<Rightarrow> json io" where
  "write_sha256sums dir =
     andthen (dir_entries dir) (\<lambda>files.
     andthen (write_json_at dir SUMS_NAME (JObj (sums_of files))) (\<lambda>_. give (JObj (sums_of files))))"

definition RUN_FILES :: "string list" where
  "RUN_FILES = [''manifest.json'', ''witness.json'', ''verifier-result.json'']"

definition write_run_package :: "string \<Rightarrow> oat_run \<Rightarrow> string io" where
  "write_run_package dir run =
     andthen (make_dir dir) (\<lambda>_.
     andthen (write_json_at dir ''manifest.json'' (or_manifest run)) (\<lambda>_.
     andthen (write_json_at dir ''witness.json'' (or_witness run)) (\<lambda>_.
     andthen (write_json_at dir ''verifier-result.json'' (or_result run)) (\<lambda>_.
     andthen (write_sha256sums dir) (\<lambda>_. give dir)))))"

text \<open>\<open>key in document\<close>: a key of a dictionary, an element of a list, a part of a string.\<close>

definition member_of :: "string \<Rightarrow> json \<Rightarrow> bool res" where
  "member_of key document =
     (case document of
        JObj kvs \<Rightarrow> Inr (key \<in> fst ` set kvs)
      | JList xs \<Rightarrow> Inr (JStr key \<in> set xs)
      | JTuple xs \<Rightarrow> Inr (JStr key \<in> set xs)
      | JStr s \<Rightarrow> Inr (contains_str key s)
      | _ \<Rightarrow> Inl (TypeError ''argument is not iterable''))"

definition ends_with :: "string \<Rightarrow> string \<Rightarrow> bool" where
  "ends_with s t \<longleftrightarrow> starts_with (rev s) (rev t)"

text \<open>The rewriting loop, over the names found at its start; it returns the names it rewrote.\<close>

fun strip_loop :: "string \<Rightarrow> string list \<Rightarrow> string list \<Rightarrow> string list io" where
  "strip_loop dir [] rewritten = give rewritten"
| "strip_loop dir (name # names) rewritten =
     (if name = SUMS_NAME then strip_loop dir names rewritten
      else
        andthen (read_json_at dir name) (\<lambda>document.
        andthen (attempt (member_of ''runtime'' document)) (\<lambda>found.
          if found then
            andthen (write_json_at dir name (strip_noncanonical document)) (\<lambda>_.
              strip_loop dir names (rewritten @ [name]))
          else strip_loop dir names rewritten)))"

definition strip_runtime_from_run_dir :: "string \<Rightarrow> string list io" where
  "strip_runtime_from_run_dir dir =
     andthen (dir_entries dir) (\<lambda>files.
     andthen (strip_loop dir (sort (map fe_path (filter (\<lambda>f. ends_with (fe_path f) ''.json'') files))) []) (\<lambda>rewritten.
     andthen (write_sha256sums dir) (\<lambda>_. give rewritten)))"

definition verify_run_dir :: "string \<Rightarrow> sums_report io" where
  "verify_run_dir dir w =
     (case dict_get (wd_dirs w) dir of
        None \<Rightarrow> (verify_sha256sums [] None, w)
      | Some files \<Rightarrow>
          (if is_file_in files SUMS_NAME then
             bindE (bindE (file_content dir SUMS_NAME files) decoded_json) (\<lambda>doc. verify_sha256sums files (Some doc))
           else verify_sha256sums files None, w))"

subsection \<open>The replay of a directory\<close>

text \<open>The scenarios by path: the documents beside one, and its name among them.\<close>

record command_env =
  cm_host :: oat_env
  cm_scenario :: "string \<Rightarrow> documents \<times> string"

definition scenario_exists :: "command_env \<Rightarrow> string \<Rightarrow> bool" where
  "scenario_exists env path \<longleftrightarrow> (case cm_scenario env path of (docs, name) \<Rightarrow> dict_get docs name \<noteq> None)"

definition scenario_source :: "command_env \<Rightarrow> json \<Rightarrow> string \<Rightarrow> string res" where
  "scenario_source env manifest dir =
     bindE (attr_get manifest ''runtime'' (JObj [])) (\<lambda>runtime. bindE (attr_get runtime ''scenario_source'' JNull) (\<lambda>source.
       if truthy source \<and> scenario_exists env (py_str source) then Inr (py_str source)
       else bindE (jindex manifest ''scenario'') (\<lambda>sc. bindE (str_field sc ''name'') (\<lambda>name.
         (let fallback = ''scenarios/rb001/'' @ name in
          if scenario_exists env fallback then Inr fallback
          else Inl (ReplayError (''cannot locate scenario source '' @ repr_str name @ '' for run '' @ dir)))))))"

definition load_at :: "command_env \<Rightarrow> string \<Rightarrow> scenario_package_rec res" where
  "load_at env path = (case cm_scenario env path of (docs, name) \<Rightarrow> load_scenario_package (cm_host env) docs name)"

definition replay_dir :: "command_env \<Rightarrow> string \<Rightarrow> bool \<Rightarrow> json io" where
  "replay_dir env dir write =
     andthen (read_json_at dir ''manifest.json'') (\<lambda>manifest.
     andthen (read_json_at dir ''witness.json'') (\<lambda>witness.
     andthen (read_json_at dir ''verifier-result.json'') (\<lambda>result.
     andthen (attempt (bindE (scenario_source env manifest dir) (load_at env))) (\<lambda>p.
     andthen (attempt (replay_run (cm_host env) (sp_scenario p) manifest witness result)) (\<lambda>r.
     andthen (if write then write_json_at dir ''replay-result.json'' r else give ()) (\<lambda>_. give r))))))"

definition run_at :: "command_env \<Rightarrow> string \<Rightarrow> oat_run res" where
  "run_at env path =
     (case cm_scenario env path of (docs, name) \<Rightarrow>
        run_pipeline (cm_host env) docs path name (grid_identity DEFAULT_MAX_CANDIDATES) (grid_propose DEFAULT_MAX_CANDIDATES))"

definition run_scenario_at :: "command_env \<Rightarrow> string \<Rightarrow> string option \<Rightarrow> oat_run io" where
  "run_scenario_at env path out =
     andthen (attempt (run_at env path)) (\<lambda>run.
     andthen (case out of None \<Rightarrow> give () | Some dir \<Rightarrow> andthen (write_run_package dir run) (\<lambda>_. give ())) (\<lambda>_. give run))"

subsection \<open>The package of a consequence scenario\<close>

definition PACKAGE_NAME :: string where "PACKAGE_NAME = ''consequence-run.json''"

definition write_package :: "(string \<times> json) list \<Rightarrow> string \<Rightarrow> string io" where
  "write_package package dir =
     andthen (make_dir dir) (\<lambda>_.
     andthen (put_file dir PACKAGE_NAME (indented 0 (JObj package) @ [CHR 0x0A])) (\<lambda>_. give (join_path dir PACKAGE_NAME)))"

definition read_package :: "string \<Rightarrow> json io" where
  "read_package dir = read_json_at dir PACKAGE_NAME"

subsection \<open>Outcomes\<close>

lemma andthen_Inr_iff:
  "andthen m f w = (Inr y, w'') \<longleftrightarrow> (\<exists>x w'. m w = (Inr x, w') \<and> f x w' = (Inr y, w''))"
  by (auto simp: andthen_def split: prod.splits sum.splits)

lemma andthen_InrE:
  assumes "andthen m f w = (Inr y, w'')"
  obtains x w' where "m w = (Inr x, w')" "f x w' = (Inr y, w'')"
  using assms by (auto simp: andthen_Inr_iff)

lemma basic_Inr_iff:
  "give x w = (Inr y, w') \<longleftrightarrow> y = x \<and> w' = w" "attempt r w = (Inr y, w') \<longleftrightarrow> r = Inr y \<and> w' = w"
  by (auto simp: give_def attempt_def)

text \<open>An operation that changes no file, and whose results lie in a set; one that always ends with a result.\<close>

definition quiet :: "'a io \<Rightarrow> 'a set \<Rightarrow> bool" where
  "quiet m S \<longleftrightarrow> (\<forall>w y w'. m w = (Inr y, w') \<longrightarrow> wd_dirs w' = wd_dirs w \<and> y \<in> S)"

definition prints :: "'a io \<Rightarrow> 'a \<Rightarrow> bool" where
  "prints m x \<longleftrightarrow> (\<forall>w. \<exists>w'. m w = (Inr x, w') \<and> wd_dirs w' = wd_dirs w)"

lemma quiet_intros:
  "quiet (give x) {x}" "quiet (attempt r) {y. r = Inr y}" "quiet (say line) UNIV"
  "quiet m UNIV \<Longrightarrow> (\<And>x. quiet (f x) S) \<Longrightarrow> quiet (andthen m f) S"
  by (fastforce simp: quiet_def basic_Inr_iff andthen_Inr_iff say_def)+

lemma quiet_mono: "quiet m S \<Longrightarrow> S \<subseteq> T \<Longrightarrow> quiet m T"
  by (auto simp: quiet_def)

lemma quiet_any: "quiet (give x) UNIV" "quiet (attempt r) UNIV"
  by (rule quiet_mono [OF quiet_intros(1) subset_UNIV], rule quiet_mono [OF quiet_intros(2) subset_UNIV])

lemma quiet_each: "(\<And>x. quiet (f x) UNIV) \<Longrightarrow> quiet (each f xs) UNIV"
  by (induction xs) (simp_all add: quiet_any quiet_intros(4))

lemma quietD: "quiet m S \<Longrightarrow> m w = (Inr y, w') \<Longrightarrow> wd_dirs w' = wd_dirs w \<and> y \<in> S"
  by (auto simp: quiet_def)

lemma prints_intros:
  "prints (give x) x" "prints (say line) ()" "prints (attempt (Inr x)) x"
  by (simp_all add: prints_def give_def say_def attempt_def)

lemma prints_andthen:
  assumes "prints m x" "prints (f x) y"
  shows "prints (andthen m f) y"
  unfolding prints_def
proof
  fix w
  obtain w1 where "m w = (Inr x, w1)" "wd_dirs w1 = wd_dirs w" using assms(1) unfolding prints_def by blast
  moreover obtain w2 where "f x w1 = (Inr y, w2)" "wd_dirs w2 = wd_dirs w1" using assms(2) unfolding prints_def by blast
  ultimately show "\<exists>w'. andthen m f w = (Inr y, w') \<and> wd_dirs w' = wd_dirs w" by (simp add: andthen_def)
qed

lemma prints_each: "(\<And>x. prints (f x) ()) \<Longrightarrow> prints (each f xs) ()"
  by (induction xs) (auto intro: prints_intros prints_andthen)

lemma prints_result: "prints m x \<Longrightarrow> \<exists>w'. m w = (Inr x, w')"
  unfolding prints_def by blast

text \<open>The document in a file.\<close>

definition doc_at :: "(string, file_entry list) dict \<Rightarrow> string \<Rightarrow> string \<Rightarrow> json res" where
  "doc_at dirs dir name =
     (case dict_get dirs dir of
        None \<Rightarrow> Inl (FileNotFoundError (join_path dir name)) | Some files \<Rightarrow> bindE (file_content dir name files) decoded_json)"

lemma read_json_at_eq: "read_json_at dir name w = (doc_at (wd_dirs w) dir name, w)"
  by (simp add: read_json_at_def doc_at_def split: option.split)

lemma find_put: "find_file (put_entry name c files) n
    = (if n = name then Some \<lparr>fe_path = name, fe_is_file = True, fe_content = c\<rparr> else find_file files n)"
proof -
  have "find_file (xs @ [f]) n = (case find_file xs n of None \<Rightarrow> if fe_path f = n then Some f else None | Some g \<Rightarrow> Some g)" for xs f
    by (induction xs) auto
  moreover have "find_file (map (\<lambda>f. if fe_path f = name then new else f) xs) n
      = (if n = name then (if find_file xs name = None then None else Some new) else find_file xs n)"
    if "fe_path new = name" for xs new
    using that by (induction xs) auto
  ultimately show ?thesis by (auto simp: put_entry_def Let_def split: option.splits)
qed

lemma paths_put: "map fe_path (put_entry name c files)
    = (if find_file files name = None then map fe_path files @ [name] else map fe_path files)"
  by (simp add: put_entry_def Let_def comp_def if_distrib [of fe_path] cong: if_cong)

lemma find_None_iff: "find_file files name = None \<longleftrightarrow> name \<notin> fe_path ` set files"
  by (induction files) auto

lemma distinct_put: "distinct (map fe_path files) \<Longrightarrow> distinct (map fe_path (put_entry name c files))"
  unfolding paths_put by (auto simp: find_None_iff)

lemma put_file_Inr:
  assumes "put_file dir name c w = (Inr u, w')"
  obtains files where "dict_get (wd_dirs w) dir = Some files" "utf8_valid c" "wd_out w' = wd_out w"
    "dict_get (wd_dirs w') dir = Some (put_entry name c files)"
  using assms by (auto simp: put_file_def split: option.splits if_splits)

lemma write_json_at_Inr:
  assumes "write_json_at dir name v w = (Inr u, w')" "dict_get (wd_dirs w) dir = Some files"
  shows "utf8_valid (indented 0 v @ [CHR 0x0A])" "dict_get (wd_dirs w') dir = Some (put_entry name (indented 0 v @ [CHR 0x0A]) files)"
  using assms by (auto simp: write_json_at_def andthen_Inr_iff make_dir_def elim!: put_file_Inr)

text \<open>What is written is read back, and the other files stay.\<close>

lemma doc_kept:
  assumes "write_json_at dir name v w = (Inr u, w')" "dict_get (wd_dirs w) dir = Some files" "n \<noteq> name"
  shows "doc_at (wd_dirs w') dir n = doc_at (wd_dirs w) dir n"
  using write_json_at_Inr [OF assms(1,2)] assms(2,3) by (simp add: doc_at_def file_content_def find_put)

lemma doc_written:
  assumes "write_json_at dir name v w = (Inr u, w')" "dict_get (wd_dirs w) dir = Some files" "keys_once v"
  shows "doc_at (wd_dirs w') dir name = Inr (reread indent_style v)"
  using write_json_at_Inr [OF assms(1,2)] indented_reads [OF assms(3)]
  by (simp add: doc_at_def file_content_def find_put decoded_json_def)

lemma doc_at_doc: "doc_at dirs dir name = Inr d \<Longrightarrow> json_doc d"
  by (auto simp: doc_at_def bindE_Inr_iff decoded_json_def loads_doc split: option.splits if_splits)

subsection \<open>Digests of rewritten documents\<close>

lemma sort_key_again: "sort_key f (sort_key f xs) = sort_key f xs"
  by (simp add: sort_key_id_if_sorted)

lemma dumps_reread: "dumps (reread st v) = dumps v"
proof (induction v)
  case (JObj kvs)
  let ?r = "map (\<lambda>(k, v). (k, reread st v)) kvs"
  have "sort_key fst (ordered st ?r) = map (\<lambda>(k, v). (k, reread st v)) (sort_key fst kvs)"
    by (simp add: ordered_def sort_key_again sort_key_map_snd)
  moreover have "map enc_item (map (\<lambda>(k, v). (k, reread st v)) (sort_key fst kvs)) = map enc_item (sort_key fst kvs)"
    unfolding map_map using JObj by (intro map_cong refl) (force simp: enc_item_def)
  ultimately show ?case by (simp only: reread.simps dumps_JObj)
qed (auto cong: map_cong)

fun runtime_free :: "json \<Rightarrow> bool" where
  "runtime_free (JList xs) = (\<forall>x \<in> set xs. runtime_free x)"
| "runtime_free (JObj kvs) = (\<forall>(k, v) \<in> set kvs. k \<noteq> ''runtime'' \<and> runtime_free v)"
| "runtime_free _ = True"

lemma runtime_free_strip: "runtime_free v \<Longrightarrow> strip_noncanonical v = v"
proof (induction v)
  case (JObj kvs)
  then have "filter (\<lambda>(k, v). k \<notin> set NONCANONICAL_KEYS) kvs = kvs"
    by (auto simp: filter_id_conv NONCANONICAL_KEYS_def)
  moreover have "\<forall>kv \<in> set kvs. (\<lambda>(k, v). (k, strip_noncanonical v)) kv = kv" using JObj by fastforce
  ultimately show ?case by (simp add: map_idI)
qed (auto intro: map_idI)

lemma stripped_free: "json_doc v \<Longrightarrow> runtime_free (strip_noncanonical v) \<and> json_doc (strip_noncanonical v)"
proof (induction v)
  case (JObj kvs)
  have "distinct (map fst (map (\<lambda>(k, v). (k, strip_noncanonical v)) (filter P kvs)))" for P
    using JObj.prems by (simp add: comp_def case_prod_beta distinct_map_filter)
  with JObj show ?case by (fastforce simp: NONCANONICAL_KEYS_def)
qed auto

lemma reread_free: "json_doc v \<Longrightarrow> runtime_free v \<Longrightarrow> runtime_free (reread st v)"
proof (induction v)
  case (JObj kvs)
  then have "\<forall>(k, x) \<in> set (map (\<lambda>(k, v). (k, reread st v)) kvs). k \<noteq> ''runtime'' \<and> runtime_free x" by fastforce
  then show ?case unfolding reread.simps runtime_free.simps ordered_props(1) .
qed auto

lemma rewritten_digest:
  assumes "json_doc d"
  shows "digest_object (reread st (strip_noncanonical d)) = digest_object d"
proof -
  note f = stripped_free [OF assms]
  have "strip_noncanonical (reread st (strip_noncanonical d)) = reread st (strip_noncanonical d)"
    using f by (intro runtime_free_strip reread_free) auto
  then show ?thesis by (simp add: digest_object_def canonical_bytes_def dumps_reread)
qed

subsection \<open>Fresh checksums\<close>

lemma sums_once: "distinct (map fe_path files) \<Longrightarrow> keys_once (JObj (sums_of files))"
proof -
  assume "distinct (map fe_path files)"
  then have "distinct (map fe_path (sort_key fe_path files))"
    by (metis mset_eq_imp_distinct_iff mset_map mset_sort)
  then show ?thesis by (auto simp: sums_of_def comp_def distinct_map_filter)
qed

lemma verify_reread:
  "verify_sha256sums files (Some (reread indent_style (JObj (sums_of fs)))) = verify_sha256sums files (Some (JObj (sums_of fs)))"
proof -
  define rec where "rec = map (\<lambda>f. (fe_path f, JStr (digest_file f)))
        (filter (\<lambda>f. fe_is_file f \<and> fe_path f \<noteq> SUMS_NAME) (sort_key fe_path fs))"
  have s: "jindex (JObj (sums_of fs)) ''files'' = Inr (JObj rec)"
    by (simp add: sums_of_def dict_index_def rec_def)
  have "map (\<lambda>(k, v). (k, reread indent_style v)) rec = rec" by (simp add: rec_def)
  then have "reread indent_style (JObj rec) = JObj (sort_key fst rec)"
    by (simp only: reread.simps) (simp add: ordered_def indent_style_def)
  then have r: "jindex (reread indent_style (JObj (sums_of fs))) ''files'' = Inr (JObj (sort_key fst rec))"
    using s by (simp only: jindex_Inr_iff jget_reread option.map)
  show ?thesis
    unfolding verify_sha256sums_def option.case s r by (simp add: sort_key_again Let_def)
qed

lemma written_sums:
  assumes "write_sha256sums dir w = (Inr v, w')" "dict_get (wd_dirs w) dir = Some files" "distinct (map fe_path files)"
  shows "\<exists>rep. verify_run_dir dir w' = (Inr rep, w') \<and> sm_ok rep"
    and "n \<noteq> SUMS_NAME \<Longrightarrow> doc_at (wd_dirs w') dir n = doc_at (wd_dirs w) dir n"
    and "\<exists>c. dict_get (wd_dirs w') dir = Some (put_entry SUMS_NAME c files)"
proof -
  have w: "write_json_at dir SUMS_NAME (JObj (sums_of files)) w = (Inr (), w')"
    using assms(1,2) by (auto simp: write_sha256sums_def andthen_Inr_iff dir_entries_def basic_Inr_iff)
  note f = write_json_at_Inr [OF w assms(2)]
  show "n \<noteq> SUMS_NAME \<Longrightarrow> doc_at (wd_dirs w') dir n = doc_at (wd_dirs w) dir n"
    by (rule doc_kept [OF w assms(2)])
  show "\<exists>c. dict_get (wd_dirs w') dir = Some (put_entry SUMS_NAME c files)" using f(2) by blast
  let ?files' = "put_entry SUMS_NAME (indented 0 (JObj (sums_of files)) @ [CHR 0x0A]) files"
  obtain rep where rep: "verify_sha256sums ?files' (Some (JObj (sums_of files))) = Inr rep"
    "sm_ok rep \<longleftrightarrow> (\<forall>f \<in> set (covered files). intact ?files' f)"
    using verify_sums_report by blast
  have "intact ?files' f" if "f \<in> set (covered files)" for f
    using that find_file_Some_iff [OF assms(3), of "fe_path f" f] by (simp add: covered_def intact_def find_put)
  moreover have "verify_run_dir dir w' = (Inr rep, w')"
  proof -
    define D where "D = JObj (sums_of files)"
    have "verify_sha256sums (put_entry SUMS_NAME (indented 0 D @ [CHR 0x0A]) files) (Some (reread indent_style D)) = Inr rep"
      using rep(1) verify_reread unfolding D_def by simp
    with f [folded D_def] indented_reads [OF sums_once [OF assms(3), folded D_def]] show ?thesis
      by (simp add: verify_run_dir_def is_file_in_def find_put file_content_def decoded_json_def)
  qed
  ultimately show "\<exists>rep. verify_run_dir dir w' = (Inr rep, w') \<and> sm_ok rep" using rep(2) by blast
qed

subsection \<open>Stripping\<close>

lemma doc_at_names: "doc_at dirs dir n = Inr d \<Longrightarrow> dict_get dirs dir = Some files \<Longrightarrow> n \<in> fe_path ` set files"
  using find_None_iff [of files n] by (auto simp: doc_at_def bindE_Inr_iff file_content_def split: option.splits)

lemma dict_get_absent: "k \<notin> fst ` set kvs \<Longrightarrow> dict_get kvs k = None"
  by (simp add: dict_get_def map_of_eq_None_iff)

lemma no_member: "member_of ''runtime'' d = Inr False \<Longrightarrow> jget d ''runtime'' = None"
  by (cases d) (simp_all add: member_of_def dict_get_absent)

lemma stripped_no_runtime: "json_doc d \<Longrightarrow> jget (reread st (strip_noncanonical d)) ''runtime'' = None"
proof -
  assume "json_doc d"
  note f = stripped_free [OF this]
  have "runtime_free v \<Longrightarrow> jget v ''runtime'' = None" for v
    by (cases v) (auto intro!: dict_get_absent)
  then show ?thesis using f by (simp add: jget_reread)
qed

lemma strip_loop_keeps:
  assumes "strip_loop dir names done w = (Inr r, w')" "dict_get (wd_dirs w) dir = Some files" "distinct (map fe_path files)"
  shows "(\<exists>files'. dict_get (wd_dirs w') dir = Some files' \<and> map fe_path files' = map fe_path files)
    \<and> (\<forall>n d. doc_at (wd_dirs w) dir n = Inr d \<longrightarrow>
         (\<exists>d'. doc_at (wd_dirs w') dir n = Inr d' \<and> digest_object d' = digest_object d
           \<and> (jget d ''runtime'' = None \<or> n \<in> set names \<and> n \<noteq> SUMS_NAME \<longrightarrow> jget d' ''runtime'' = None)))"
  using assms
proof (induction names arbitrary: "done" w files)
  case (Cons name names)
  show ?case
  proof (cases "name = SUMS_NAME")
    case True
    with Cons.prems have "strip_loop dir names done w = (Inr r, w')" by simp
    note ih = Cons.IH [OF this Cons.prems(2,3)]
    have "n \<in> set (name # names) \<and> n \<noteq> SUMS_NAME \<longleftrightarrow> n \<in> set names \<and> n \<noteq> SUMS_NAME" for n
      using True by auto
    then show ?thesis using ih by presburger
  next
    case False
    with Cons.prems(1) obtain d0 found where d0: "doc_at (wd_dirs w) dir name = Inr d0" "member_of ''runtime'' d0 = Inr found"
      and step: "(if found then andthen (write_json_at dir name (strip_noncanonical d0)) (\<lambda>_. strip_loop dir names (done @ [name]))
          else strip_loop dir names done) w = (Inr r, w')"
      by (auto simp: andthen_Inr_iff read_json_at_eq basic_Inr_iff)
    show ?thesis
    proof (cases found)
      case f: False
      with step have "strip_loop dir names done w = (Inr r, w')" by simp
      note ih = Cons.IH [OF this Cons.prems(2,3)]
      have "\<exists>d'. doc_at (wd_dirs w') dir n = Inr d' \<and> digest_object d' = digest_object d
           \<and> (jget d ''runtime'' = None \<or> n \<in> set (name # names) \<and> n \<noteq> SUMS_NAME \<longrightarrow> jget d' ''runtime'' = None)"
        if d: "doc_at (wd_dirs w) dir n = Inr d" for n d
      proof -
        obtain d' where d': "doc_at (wd_dirs w') dir n = Inr d'" "digest_object d' = digest_object d"
          "jget d ''runtime'' = None \<or> n \<in> set names \<and> n \<noteq> SUMS_NAME \<Longrightarrow> jget d' ''runtime'' = None"
          using ih d by meson
        have "jget d ''runtime'' = None" if "n = name" using d d0 no_member f that by simp
        then have "n \<in> set (name # names) \<and> n \<noteq> SUMS_NAME \<Longrightarrow> jget d' ''runtime'' = None"
          using d'(3) by (cases "n = name") simp_all
        with d' show ?thesis by (intro exI [of _ d']) simp
      qed
      with ih show ?thesis by blast
    next
      case True
      with step obtain w1 where w1: "write_json_at dir name (strip_noncanonical d0) w = (Inr (), w1)"
        "strip_loop dir names (done @ [name]) w1 = (Inr r, w')" by (auto simp: andthen_Inr_iff)
      have j: "json_doc d0" "keys_once (strip_noncanonical d0)"
        using doc_at_doc [OF d0(1)] stripped_free json_doc_once by blast+
      note f1 = write_json_at_Inr(2) [OF w1(1) Cons.prems(2)]
      have paths: "map fe_path (put_entry name c files) = map fe_path files" for c
        using doc_at_names [OF d0(1) Cons.prems(2)] by (auto simp: paths_put find_None_iff)
      note docs = doc_written [OF w1(1) Cons.prems(2) j(2)] doc_kept [OF w1(1) Cons.prems(2)]
      from Cons.IH [OF w1(2) f1] Cons.prems(3) have ih: "\<exists>files'. dict_get (wd_dirs w') dir = Some files' \<and> map fe_path files' = map fe_path files"
        "doc_at (wd_dirs w1) dir n = Inr d \<Longrightarrow> \<exists>d'. doc_at (wd_dirs w') dir n = Inr d' \<and> digest_object d' = digest_object d
           \<and> (jget d ''runtime'' = None \<or> n \<in> set names \<and> n \<noteq> SUMS_NAME \<longrightarrow> jget d' ''runtime'' = None)" for n d
        by (simp_all add: paths)
      have "\<exists>d'. doc_at (wd_dirs w') dir n = Inr d' \<and> digest_object d' = digest_object d
           \<and> (jget d ''runtime'' = None \<or> n \<in> set (name # names) \<and> n \<noteq> SUMS_NAME \<longrightarrow> jget d' ''runtime'' = None)"
        if d: "doc_at (wd_dirs w) dir n = Inr d" for n d
      proof (cases "n = name")
        case n: True
        then have e: "d = d0" using d d0(1) by simp
        obtain d' where d': "doc_at (wd_dirs w') dir name = Inr d'" "digest_object d' = digest_object d0" "jget d' ''runtime'' = None"
          using ih(2) [OF docs(1)] stripped_no_runtime [OF j(1), of indent_style] rewritten_digest [OF j(1), of indent_style] by auto
        then show ?thesis unfolding n e by (intro exI [of _ d']) simp
      next
        case n: False
        from ih(2) [OF docs(2) [OF n, unfolded d]] n show ?thesis by simp
      qed
      with ih(1) show ?thesis by blast
    qed
  qed
qed (auto simp: basic_Inr_iff)

lemma strip_keeps:
  assumes "strip_runtime_from_run_dir dir w = (Inr names, w')" "dict_get (wd_dirs w) dir = Some files" "distinct (map fe_path files)"
  shows "(\<exists>rep. verify_run_dir dir w' = (Inr rep, w') \<and> sm_ok rep)
    \<and> (\<exists>files'. dict_get (wd_dirs w') dir = Some files' \<and> distinct (map fe_path files'))
    \<and> (\<forall>n d. n \<noteq> SUMS_NAME \<longrightarrow> doc_at (wd_dirs w) dir n = Inr d \<longrightarrow>
         (\<exists>d'. doc_at (wd_dirs w') dir n = Inr d' \<and> digest_object d' = digest_object d
           \<and> (ends_with n ''.json'' \<longrightarrow> jget d' ''runtime'' = None)))"
proof -
  let ?names = "sort (map fe_path (filter (\<lambda>f. ends_with (fe_path f) ''.json'') files))"
  from assms(1,2) obtain r w1 v where l: "strip_loop dir ?names [] w = (Inr r, w1)" "write_sha256sums dir w1 = (Inr v, w')"
    by (auto simp: strip_runtime_from_run_dir_def andthen_Inr_iff dir_entries_def basic_Inr_iff)
  note k = strip_loop_keeps [OF l(1) assms(2,3)]
  then obtain files1 where f1: "dict_get (wd_dirs w1) dir = Some files1" "distinct (map fe_path files1)"
    using assms(3) by fastforce
  note s = written_sums [OF l(2) f1]
  have "\<exists>d'. doc_at (wd_dirs w') dir n = Inr d' \<and> digest_object d' = digest_object d
           \<and> (ends_with n ''.json'' \<longrightarrow> jget d' ''runtime'' = None)"
    if n: "n \<noteq> SUMS_NAME" and d: "doc_at (wd_dirs w) dir n = Inr d" for n d
  proof -
    have "ends_with n ''.json'' \<Longrightarrow> n \<in> set ?names" using doc_at_names [OF d assms(2)] by auto
    with k d n s(2) [OF n] show ?thesis by metis
  qed
  with s(1,3) f1(2) show ?thesis using distinct_put by metis
qed

end
