(* ===== verification/Command_Line.thy ===== *)
theory Command_Line
  imports Run_Directory
begin

section \<open>The command line\<close>

text \<open>
  \<open>oat/cli.py\<close>: what each command does to the run directories, what it prints and its exit code. The
  parsing of the arguments is left out: a handler is given them. A command that raises ends with that
  exception, which is no exit code of its own.
\<close>

definition labelled :: "string \<Rightarrow> string \<Rightarrow> unit io" where
  "labelled label value = say (label @ ''= '' @ value)"

definition banner :: "unit io" where
  "banner = andthen (say (''STATUS = '' @ RUN_MODE)) (\<lambda>_. say (''CLAIM_BEARING_USE = '' @ CLAIM_BEARING_USE))"

definition emit_json :: "json \<Rightarrow> bool \<Rightarrow> unit io" where
  "emit_json payload as_json = (if as_json then say (indented 0 payload) else give ())"

definition py_bool :: "bool \<Rightarrow> string" where
  "py_bool b = (if b then ''True'' else ''False'')"

text \<open>\<open>print(f"label = {d['key']}")\<close>.\<close>

definition show_field :: "string \<Rightarrow> json \<Rightarrow> string \<Rightarrow> unit io" where
  "show_field label d key = andthen (attempt (str_field d key)) (labelled label)"

text \<open>\<open>for x in d['key']\<close>.\<close>

definition items_of :: "json \<Rightarrow> string \<Rightarrow> json list io" where
  "items_of d key = attempt (bindE (jindex d key) iterated)"

definition sums_doc :: "sums_report \<Rightarrow> json" where
  "sums_doc rep = JObj [(''ok'', JBool (sm_ok rep)), (''detail'', JStrs (sm_detail rep)), (''checked'', JInt (int (sm_checked rep)))]"

definition sums_line :: "sums_report \<Rightarrow> string" where
  "sums_line rep = py_bool (sm_ok rep) @ '' ('' @ str_of_nat (sm_checked rep) @ '' files)''"

subsection \<open>Runs of the reference boundary\<close>

text \<open>\<open>_load_witness\<close>: a run directory, or a witness file with perhaps a manifest beside it.\<close>

definition load_witness :: "string \<Rightarrow> string \<Rightarrow> (json \<times> json option) io" where
  "load_witness parent name w =
     (let path = join_path parent name in
      if dict_get (wd_dirs w) path \<noteq> None then
        andthen (read_json_at path ''witness.json'') (\<lambda>witness.
        andthen (read_json_at path ''manifest.json'') (\<lambda>manifest. give (witness, Some manifest))) w
      else
        andthen (read_json_at parent name) (\<lambda>witness.
          if (case dict_get (wd_dirs w) parent of None \<Rightarrow> False | Some files \<Rightarrow> is_file_in files ''manifest.json'') then
            andthen (read_json_at parent ''manifest.json'') (\<lambda>manifest. give (witness, Some manifest))
          else give (witness, None)) w)"

definition verdict_code :: "json \<Rightarrow> nat res" where
  "verdict_code result =
     bindE (jindex result ''disposition'') (\<lambda>d. Inr (if d \<noteq> JStr DISPOSITION_REJECTED then 0 else 3))"

definition cmd_oat_run :: "command_env \<Rightarrow> string \<Rightarrow> string option \<Rightarrow> bool \<Rightarrow> nat io" where
  "cmd_oat_run env path out as_json =
     andthen (run_scenario_at env path out) (\<lambda>run.
     andthen banner (\<lambda>_.
     andthen (labelled ''scenario          '' (or_scenario_id run)) (\<lambda>_.
     andthen (show_field ''disposition       '' (or_result run) ''disposition'') (\<lambda>_.
     andthen (show_field ''computational     '' (or_result run) ''computational_result'') (\<lambda>_.
     andthen (attempt (jindex (or_witness run) ''search'')) (\<lambda>s.
     andthen (show_field ''candidates        '' s ''candidates_explored'') (\<lambda>_.
     andthen (show_field ''witness digest    '' (or_result run) ''witness_digest'') (\<lambda>_.
     andthen (show_field ''evidence digest   '' (or_result run) ''evidence_digest'') (\<lambda>_.
     andthen (case out of Some dir \<Rightarrow> if dir \<noteq> [] then labelled ''run package       '' dir else give () | None \<Rightarrow> give ()) (\<lambda>_.
     andthen (labelled ''claim ceiling     '' CLAIM_CEILING) (\<lambda>_.
     andthen (emit_json (or_result run) as_json) (\<lambda>_.
     attempt (verdict_code (or_result run))))))))))))))"

definition cmd_verify :: "command_env \<Rightarrow> string \<Rightarrow> string \<Rightarrow> bool \<Rightarrow> nat io" where
  "cmd_verify env parent name as_json =
     andthen (load_witness parent name) (\<lambda>(witness, manifest).
     andthen (attempt (v1_verify (cm_host env) witness manifest None)) (\<lambda>result.
     andthen banner (\<lambda>_.
     andthen (show_field ''scenario          '' result ''scenario_id'') (\<lambda>_.
     andthen (show_field ''disposition       '' result ''disposition'') (\<lambda>_.
     andthen (show_field ''rejection reason  '' result ''rejection_reason'') (\<lambda>_.
     andthen (show_field ''evidence digest   '' result ''evidence_digest'') (\<lambda>_.
     andthen (items_of result ''predicate_trace'') (\<lambda>trace.
     andthen (each (\<lambda>e. andthen (attempt (str_field e ''predicate'')) (\<lambda>p. andthen (attempt (str_field e ''result'')) (\<lambda>r.
         say (''  predicate '' @ p @ '' -> '' @ r)))) trace) (\<lambda>_.
     andthen (items_of result ''detail'') (\<lambda>detail.
     andthen (each (\<lambda>line. say (''  detail: '' @ py_str line)) detail) (\<lambda>_.
     andthen (emit_json result as_json) (\<lambda>_.
     attempt (verdict_code result)))))))))))))"

text \<open>The printed part of a command, with its exit code.\<close>

definition replay_printed :: "json \<Rightarrow> bool \<Rightarrow> nat io" where
  "replay_printed result as_json =
     andthen banner (\<lambda>_.
     andthen (show_field ''scenario          '' result ''scenario_id'') (\<lambda>_.
     andthen (show_field ''adversary used    '' result ''adversary_used'') (\<lambda>_.
     andthen (show_field ''disposition       '' result ''disposition'') (\<lambda>_.
     andthen (show_field ''evidence digest   '' result ''recomputed_evidence_digest'') (\<lambda>_.
     andthen (show_field ''replay ok         '' result ''replay_ok'') (\<lambda>_.
     andthen (emit_json result as_json) (\<lambda>_.
     attempt (bindE (jindex result ''replay_ok'') (\<lambda>ok. Inr (if truthy ok then 0 else 4))))))))))"

definition cmd_replay :: "command_env \<Rightarrow> string \<Rightarrow> bool \<Rightarrow> bool \<Rightarrow> nat io" where
  "cmd_replay env dir write as_json =
     andthen (replay_dir env dir write) (\<lambda>result.
     andthen (if write then andthen (write_sha256sums dir) (\<lambda>_. give ()) else give ()) (\<lambda>_.
     replay_printed result as_json))"

text \<open>\<open>_field\<close>: a nested field for display.\<close>

fun field :: "json \<Rightarrow> string list \<Rightarrow> string" where
  "field d [] = py_str d"
| "field d (key # path) =
     (case d of
        JObj kvs \<Rightarrow> (case dict_get kvs key of None \<Rightarrow> ''<unavailable>'' | Some v \<Rightarrow> field v path)
      | _ \<Rightarrow> ''<unavailable>'')"

definition identity_of :: "json \<Rightarrow> string \<Rightarrow> string" where
  "identity_of manifest part = field manifest [part, ''id''] @ '' '' @ field manifest [part, ''version'']"

definition inspect_printed :: "sums_report \<Rightarrow> json \<Rightarrow> json \<Rightarrow> json \<Rightarrow> bool \<Rightarrow> nat io" where
  "inspect_printed checked manifest witness result as_json =
     andthen banner (\<lambda>_.
     andthen (labelled ''scenario          '' (field manifest [''scenario'', ''id''])) (\<lambda>_.
     andthen (labelled ''enforcement path  '' (field manifest [''scenario'', ''enforcement_path''])) (\<lambda>_.
     andthen (labelled ''boundary          '' (identity_of manifest ''boundary'')) (\<lambda>_.
     andthen (labelled ''falsifier         '' (identity_of manifest ''falsifier'')) (\<lambda>_.
     andthen (labelled ''adversary         '' (identity_of manifest ''adversary'')) (\<lambda>_.
     andthen (labelled ''verifier          '' (identity_of manifest ''verifier'')) (\<lambda>_.
     andthen (labelled ''manifest digest   '' (field witness [''manifest_digest''])) (\<lambda>_.
     andthen (labelled ''disposition       '' (field result [''disposition''])) (\<lambda>_.
     andthen (labelled ''evidence digest   '' (field result [''evidence_digest''])) (\<lambda>_.
     andthen (labelled ''sha256sums ok     '' (sums_line checked)) (\<lambda>_.
     andthen (each (\<lambda>line. say (''  detail: '' @ line)) (sm_detail checked)) (\<lambda>_.
     andthen (labelled ''claim ceiling     '' CLAIM_CEILING) (\<lambda>_.
     andthen (emit_json (JObj [(''manifest'', manifest), (''verifier_result'', result), (''sha256sums'', sums_doc checked)]) as_json) (\<lambda>_.
     give (if sm_ok checked then 0 else 5)))))))))))))))"

definition cmd_inspect :: "string \<Rightarrow> bool \<Rightarrow> nat io" where
  "cmd_inspect dir as_json =
     andthen (verify_run_dir dir) (\<lambda>checked.
     andthen (read_json_at dir ''manifest.json'') (\<lambda>manifest.
     andthen (read_json_at dir ''witness.json'') (\<lambda>witness.
     andthen (read_json_at dir ''verifier-result.json'') (\<lambda>result.
     inspect_printed checked manifest witness result as_json))))"

definition RUN_DIR_NOTICE :: string where
  "RUN_DIR_NOTICE = join [CHR 0x0A] [
     ''# METHOD_DEVELOPMENT_ONLY'', [], replicate 3 (CHR 0x60) @ ''text'', ''STATUS = METHOD_DEVELOPMENT_ONLY'', ''CLAIM_BEARING_USE = PROHIBITED'',
     ''CLAIM_BEARING_TRIAL_AUTHORIZED = FALSE'', replicate 3 (CHR 0x60), [],
     ''This directory is a generated development run package against a **synthetic**'',
     ''reference boundary. It is not claim-bearing evidence, and no artifact in it may'',
     ''be promoted into a claim-bearing trial: after the constitutional gates pass,'',
     ''the applicable trial must be rerun from a newly frozen manifest.'', [],
     ''Regenerate with '' @ [CHR 0x60] @ ''make demo'' @ [CHR 0x60] @ ''; check with '' @ [CHR 0x60] @ ''oat inspect'' @ [CHR 0x60] @ '' and '' @ [CHR 0x60] @ ''oat replay'' @ [CHR 0x60] @ ''.'', []]"

definition demo_printed :: "string \<Rightarrow> oat_run \<Rightarrow> json \<Rightarrow> string list \<Rightarrow> sums_report \<Rightarrow> nat io" where
  "demo_printed dir run replay stripped checked =
     andthen banner (\<lambda>_.
     andthen (labelled ''reference run     '' dir) (\<lambda>_.
     andthen (labelled ''scenario          '' (or_scenario_id run)) (\<lambda>_.
     andthen (show_field ''disposition       '' (or_result run) ''disposition'') (\<lambda>_.
     andthen (show_field ''replay ok         '' replay ''replay_ok'') (\<lambda>_.
     andthen (labelled ''sha256sums ok     '' (sums_line checked)) (\<lambda>_.
     andthen (labelled ''runtime stripped  '' (str_of_nat (length stripped) @ '' files (canonical evidence only)'')) (\<lambda>_.
     attempt (bindE (jindex replay ''replay_ok'') (\<lambda>ok. Inr (if truthy ok \<and> sm_ok checked then 0 else 6))))))))))"

definition cmd_demo :: "command_env \<Rightarrow> string \<Rightarrow> string \<Rightarrow> nat io" where
  "cmd_demo env path dir =
     andthen (run_scenario_at env path (Some dir)) (\<lambda>run.
     andthen (replay_dir env dir True) (\<lambda>replay.
     andthen (put_file dir ''README_METHOD_DEVELOPMENT_ONLY.md'' RUN_DIR_NOTICE) (\<lambda>_.
     andthen (strip_runtime_from_run_dir dir) (\<lambda>stripped.
     andthen (write_sha256sums dir) (\<lambda>_.
     andthen (verify_run_dir dir) (\<lambda>checked.
     demo_printed dir run replay stripped checked))))))"

text \<open>
  The dry run with its run directory: the package, and the report beside it. Its replay is the one of
  \<open>run_dry_run\<close>, of the documents just written; the two scenarios lie in one directory.
\<close>

definition dry_run_at :: "command_env \<Rightarrow> string \<Rightarrow> string \<Rightarrow> string option \<Rightarrow> json io" where
  "dry_run_at env vuln control out =
     (case (cm_scenario env vuln, cm_scenario env control) of
        ((docs, name), (_, other)) \<Rightarrow>
          andthen (case out of None \<Rightarrow> give ()
             | Some dir \<Rightarrow> andthen (attempt (scripted_run (cm_host env) docs vuln name)) (\<lambda>run.
                 andthen (write_run_package dir run) (\<lambda>_. give ()))) (\<lambda>_.
          andthen (attempt (run_dry_run (cm_host env) docs (vuln, name) (control, other) (out \<noteq> None))) (\<lambda>report.
          andthen (case out of None \<Rightarrow> give () | Some dir \<Rightarrow> write_json_at dir ''dryrun-report.json'' report) (\<lambda>_.
          give report))))"

definition cmd_dryrun :: "command_env \<Rightarrow> string \<Rightarrow> string \<Rightarrow> string option \<Rightarrow> bool \<Rightarrow> nat io" where
  "cmd_dryrun env vuln control out as_json =
     andthen (dry_run_at env vuln control out) (\<lambda>report.
     andthen banner (\<lambda>_.
     andthen (show_field ''target            '' report ''target'') (\<lambda>_.
     andthen (show_field ''transport         '' report ''transport'') (\<lambda>_.
     andthen (show_field ''provider run      '' report ''provider_run_occurred'') (\<lambda>_.
     andthen (show_field ''subject exposed   '' report ''veip_subject_exposed'') (\<lambda>_.
     andthen (items_of report ''checks'') (\<lambda>checks.
     andthen (each (\<lambda>e. andthen (attempt (jindex e ''passed'')) (\<lambda>passed. andthen (attempt (str_field e ''check'')) (\<lambda>c.
         andthen (attempt (str_field e ''observed'')) (\<lambda>observed.
           say (''  ['' @ (if truthy passed then ''PASS'' else ''FAIL'') @ ''] '' @ c @ '' -> '' @ observed))))) checks) (\<lambda>_.
     andthen (show_field ''dry run ok        '' report ''dryrun_ok'') (\<lambda>_.
     andthen (emit_json report as_json) (\<lambda>_.
     attempt (bindE (jindex report ''dryrun_ok'') (\<lambda>ok. Inr (if truthy ok then 0 else 7)))))))))))))"

subsection \<open>Consequence scenarios\<close>

text \<open>\<open>str(exc).strip('"')\<close> of a \<open>KeyError\<close>.\<close>

definition strip_quotes :: "string \<Rightarrow> string" where
  "strip_quotes s = (let f = dropWhile (\<lambda>c. c = CHR 0x22) in rev (f (rev (f s))))"

definition cmd_consequence_run :: "string \<Rightarrow> string option \<Rightarrow> bool \<Rightarrow> nat io" where
  "cmd_consequence_run name out as_json =
     andthen banner (\<lambda>_ w.
       (case run_scenario name of
          Inl (KeyError m) \<Rightarrow> andthen (say (strip_quotes (repr_str m))) (\<lambda>_. give 2) w
        | r \<Rightarrow>
          andthen (attempt r) (\<lambda>package.
          andthen (attempt (dict_index package ''verdict'')) (\<lambda>verdict.
          andthen (show_field ''scenario    '' (JObj package) ''scenario'') (\<lambda>_.
          andthen (show_field ''disposition '' verdict ''disposition'') (\<lambda>_.
          andthen (show_field ''reason      '' verdict ''reason'') (\<lambda>_.
          andthen (show_field ''evidence    '' (JObj package) ''evidence_digest'') (\<lambda>_.
          andthen (case out of
               Some dir \<Rightarrow> if dir \<noteq> [] then andthen (write_package package dir) (labelled ''written     '') else give ()
             | None \<Rightarrow> give ()) (\<lambda>_.
          andthen (emit_json (JObj package) as_json) (\<lambda>_. give 0)))))))) w))"

text \<open>The package of a stored run; \<open>verify_package\<close> reads its items.\<close>

definition report_check :: "string \<Rightarrow> bool \<times> string \<Rightarrow> bool \<Rightarrow> nat io" where
  "report_check label outcome as_json =
     (case outcome of (ok, detail) \<Rightarrow>
        andthen (say (label @ '' = '' @ (if ok then ''PASS'' else ''FAIL''))) (\<lambda>_.
        andthen (say detail) (\<lambda>_.
        andthen (emit_json (JObj [(label, JBool ok), (''detail'', JStr detail)]) as_json) (\<lambda>_.
        give (if ok then 0 else 1)))))"

definition cmd_consequence_verify :: "string \<Rightarrow> bool \<Rightarrow> nat io" where
  "cmd_consequence_verify dir as_json =
     andthen banner (\<lambda>_.
     andthen (read_package dir) (\<lambda>package.
     andthen (attempt (if is_JObj package then Inr (verify_package (jitems package)) else Inl (AttributeError ''get''))) (\<lambda>outcome.
     report_check ''verify'' outcome as_json)))"

definition cmd_consequence_replay :: "string \<Rightarrow> bool \<Rightarrow> nat io" where
  "cmd_consequence_replay dir as_json =
     andthen banner (\<lambda>_.
     andthen (read_package dir) (\<lambda>package.
     andthen (attempt (bindE (jindex package ''scenario'') (\<lambda>name.
        (case name of
           JStr s \<Rightarrow> replay_scenario s package
         | JList _ \<Rightarrow> Inl (TypeError ''unhashable type'')
         | JObj _ \<Rightarrow> Inl (TypeError ''unhashable type'')
         | _ \<Rightarrow> Inl (KeyError (''unknown scenario '' @ py_repr name))))))  (\<lambda>outcome.
     report_check ''replay'' outcome as_json)))"

text \<open>Declared and observed routes of a stored run.\<close>

definition PATH_KEYS :: "string list" where
  "PATH_KEYS = [''declared_path_set'', ''observed_path_set'', ''unknown_observed_paths'', ''unexercised_declared_paths'']"

definition padded :: "nat \<Rightarrow> string \<Rightarrow> string" where
  "padded n s = s @ replicate (n - length s) (CHR '' '')"

definition joined_texts :: "json list \<Rightarrow> string res" where
  "joined_texts vs = bindE (mapE (\<lambda>v. case v of JStr s \<Rightarrow> Inr s | _ \<Rightarrow> Inl (TypeError ''join'')) vs) (\<lambda>ts. Inr (join '', '' ts))"

definition path_line :: "json \<Rightarrow> string \<Rightarrow> string res" where
  "path_line reconciliation key =
     bindE (attr_get reconciliation key JNull) (\<lambda>values.
     bindE (if truthy values then bindE (iterated values) joined_texts else Inr ''(none)'') (\<lambda>shown.
       Inr (padded 28 key @ '' = '' @ shown)))"

definition cmd_paths_inspect :: "string \<Rightarrow> bool \<Rightarrow> nat io" where
  "cmd_paths_inspect dir as_json =
     andthen banner (\<lambda>_.
     andthen (read_package dir) (\<lambda>package.
     andthen (attempt (bindE (jindex package ''verdict'') (\<lambda>v. bindE (jindex v ''path_reconciliation'') (\<lambda>r.
        Inr (if truthy r then r else JObj []))))) (\<lambda>reconciliation.
     andthen (each (\<lambda>key. andthen (attempt (path_line reconciliation key)) say) PATH_KEYS) (\<lambda>_.
     andthen (say ([CHR 0x0A] @ ''A declared inventory is evidence about what the designers believed.'' @ [CHR 0x0A] @
        ''It is not ground truth about what the agent can reach.'')) (\<lambda>_.
     andthen (emit_json reconciliation as_json) (\<lambda>_. give 0))))))"

subsection \<open>What the commands leave behind\<close>

lemma quiet_parts:
  "quiet (labelled l v) UNIV" "quiet banner UNIV" "quiet (emit_json p b) UNIV" "quiet (show_field l d k) UNIV"
  unfolding labelled_def banner_def emit_json_def show_field_def
  by (intro quiet_intros quiet_any | simp add: quiet_intros quiet_any)+

lemma prints_parts:
  "prints (labelled l v) ()" "prints banner ()" "prints (emit_json p b) ()"
  unfolding labelled_def banner_def emit_json_def by (auto intro: prints_intros prints_andthen)

lemma replay_printed_code:
  "quiet (replay_printed result js) {y. bindE (jindex result ''replay_ok'') (\<lambda>ok. Inr (if truthy ok then 0 else 4)) = Inr y}"
  unfolding replay_printed_def by (intro quiet_intros quiet_parts)

lemma cmd_replay_parts:
  assumes "cmd_replay env dir True js w = (Inr code, w')"
  obtains result w1 w2 ok v where "replay_dir env dir True w = (Inr result, w1)" "write_sha256sums dir w1 = (Inr v, w2)"
    "wd_dirs w' = wd_dirs w2" "jindex result ''replay_ok'' = Inr ok" "code = (if truthy ok then 0 else 4)"
proof -
  obtain result w1 where r: "replay_dir env dir True w = (Inr result, w1)"
    and t: "andthen (if True then andthen (write_sha256sums dir) (\<lambda>_. give ()) else give ()) (\<lambda>_. replay_printed result js) w1 = (Inr code, w')"
    using assms unfolding cmd_replay_def by (rule andthen_InrE)
  obtain v w2 where s: "write_sha256sums dir w1 = (Inr v, w2)" and p: "replay_printed result js w2 = (Inr code, w')"
    using t by (auto simp: andthen_Inr_iff basic_Inr_iff)
  from quietD [OF replay_printed_code p] that [OF r s] show thesis by (auto simp: bindE_Inr_iff)
qed

lemma replay_dir_parts:
  assumes "replay_dir env dir True w = (Inr result, w1)"
  obtains a b c where "write_json_at dir ''replay-result.json'' result w = (Inr (), w1)"
    "doc_at (wd_dirs w) dir ''manifest.json'' = Inr a" "doc_at (wd_dirs w) dir ''witness.json'' = Inr b"
    "doc_at (wd_dirs w) dir ''verifier-result.json'' = Inr c"
proof -
  have "\<exists>a b c. write_json_at dir ''replay-result.json'' result w = (Inr (), w1) \<and> doc_at (wd_dirs w) dir ''manifest.json'' = Inr a
      \<and> doc_at (wd_dirs w) dir ''witness.json'' = Inr b \<and> doc_at (wd_dirs w) dir ''verifier-result.json'' = Inr c"
    using assms by (auto simp: replay_dir_def andthen_Inr_iff read_json_at_eq basic_Inr_iff)
  then show thesis by (elim exE conjE) (rule that)
qed

lemma inspect_code:
  assumes "verify_run_dir dir w = (Inr rep, w)" "doc_at (wd_dirs w) dir ''manifest.json'' = Inr a"
    "doc_at (wd_dirs w) dir ''witness.json'' = Inr b" "doc_at (wd_dirs w) dir ''verifier-result.json'' = Inr c"
  shows "\<exists>w'. cmd_inspect dir js w = (Inr (if sm_ok rep then 0 else 5), w')"
proof -
  have "prints (inspect_printed rep a b c js) (if sm_ok rep then 0 else 5)"
    unfolding inspect_printed_def by (rule prints_andthen prints_parts prints_each prints_intros)+
  moreover have "cmd_inspect dir js w = inspect_printed rep a b c js w"
    by (simp add: cmd_inspect_def andthen_def assms read_json_at_eq)
  ultimately show ?thesis by (simp add: prints_result)
qed

lemma verify_same_dirs:
  assumes "verify_run_dir dir w = (Inr rep, w)" "wd_dirs w' = wd_dirs w"
  shows "verify_run_dir dir w' = (Inr rep, w')"
  using assms by (auto simp: verify_run_dir_def split: option.splits)

text \<open>The directory after a replay that writes, and after a demonstration.\<close>

lemma replay_leaves:
  assumes "cmd_replay env dir True js w = (Inr code, w')" "dict_get (wd_dirs w) dir = Some files" "distinct (map fe_path files)"
  shows "code \<in> {0, 4}"
    and "n \<noteq> ''replay-result.json'' \<Longrightarrow> n \<noteq> SUMS_NAME \<Longrightarrow> doc_at (wd_dirs w') dir n = doc_at (wd_dirs w) dir n"
    and "\<exists>w''. cmd_inspect dir js' w' = (Inr 0, w'')"
proof -
  obtain result w1 w2 ok v where r: "replay_dir env dir True w = (Inr result, w1)" "write_sha256sums dir w1 = (Inr v, w2)"
    "wd_dirs w' = wd_dirs w2" "jindex result ''replay_ok'' = Inr ok" "code = (if truthy ok then 0 else 4)"
    by (rule cmd_replay_parts [OF assms(1)])
  show "code \<in> {0, 4}" by (simp add: r(5))
  obtain a b c where d: "write_json_at dir ''replay-result.json'' result w = (Inr (), w1)"
    "doc_at (wd_dirs w) dir ''manifest.json'' = Inr a" "doc_at (wd_dirs w) dir ''witness.json'' = Inr b"
    "doc_at (wd_dirs w) dir ''verifier-result.json'' = Inr c"
    by (rule replay_dir_parts [OF r(1)])
  note s = written_sums [OF r(2) write_json_at_Inr(2) [OF d(1) assms(2)] distinct_put [OF assms(3)]]
  show kept: "doc_at (wd_dirs w') dir n = doc_at (wd_dirs w) dir n" if "n \<noteq> ''replay-result.json''" "n \<noteq> SUMS_NAME" for n
    using s(2) [OF that(2)] doc_kept [OF d(1) assms(2) that(1)] r(3) by simp
  obtain rep where rep: "verify_run_dir dir w2 = (Inr rep, w2)" "sm_ok rep" using s(1) by blast
  have names: "''manifest.json'' \<noteq> ''replay-result.json''" "''manifest.json'' \<noteq> SUMS_NAME"
    "''witness.json'' \<noteq> ''replay-result.json''" "''witness.json'' \<noteq> SUMS_NAME"
    "''verifier-result.json'' \<noteq> ''replay-result.json''" "''verifier-result.json'' \<noteq> SUMS_NAME"
    by (simp_all add: SUMS_NAME_def)
  note docs = d(2) [folded kept [OF names(1,2)]] d(3) [folded kept [OF names(3,4)]] d(4) [folded kept [OF names(5,6)]]
  from inspect_code [OF verify_same_dirs [OF rep(1) r(3)] docs, of js'] rep(2) show "\<exists>w''. cmd_inspect dir js' w' = (Inr 0, w'')"
    by simp
qed

text \<open>C39: A replay that writes covers tampering up: whatever the run directory holds and whatever its checksum
  file says of it, the command replaces the checksum file by one of the present files, also when the replay
  fails with exit code 4; every other document stays as it is, and the inspection of the directory
  then reports that all checksums agree and ends with exit code 0.\<close>

theorem replay_reseals_directory:
  assumes "cmd_replay env dir True js w = (Inr code, w')" "dict_get (wd_dirs w) dir = Some files" "distinct (map fe_path files)"
  shows "code \<in> {0, 4} \<and> (\<exists>w''. cmd_inspect dir js' w' = (Inr 0, w''))
    \<and> (\<forall>n. n \<noteq> ''replay-result.json'' \<and> n \<noteq> SUMS_NAME \<longrightarrow> doc_at (wd_dirs w') dir n = doc_at (wd_dirs w) dir n)"
  using replay_leaves [OF assms] by blast

text \<open>C40: Stripping the runtime metadata of a run directory keeps its evidence: every document that could
  be read can still be read and has the digest it had, no JSON file has a top-level runtime entry any
  more, and the new checksum file agrees with the rewritten files.\<close>

theorem stripping_keeps_digests:
  assumes "strip_runtime_from_run_dir dir w = (Inr names, w')" "dict_get (wd_dirs w) dir = Some files" "distinct (map fe_path files)"
  shows "(\<forall>n d. n \<noteq> SUMS_NAME \<longrightarrow> doc_at (wd_dirs w) dir n = Inr d \<longrightarrow>
         (\<exists>d'. doc_at (wd_dirs w') dir n = Inr d' \<and> digest_object d' = digest_object d
           \<and> (ends_with n ''.json'' \<longrightarrow> jget d' ''runtime'' = None)))
    \<and> (\<exists>rep. verify_run_dir dir w' = (Inr rep, w') \<and> sm_ok rep)"
  using strip_keeps [OF assms] by blast

end
