(* ===== verification/Command_Samples.thy ===== *)
theory Command_Samples
  imports Command_Line
begin

section \<open>Run directories by example\<close>

text \<open>
  What is written for valid text is valid text, so that writing succeeds; and a tampered run directory
  to apply the theorems on the commands to.
\<close>

lemma utf8_append: "utf8_valid a \<Longrightarrow> utf8_valid (a @ b) = utf8_valid b"
proof (induction a rule: utf8_valid.induct)
  case (2 a s)
  then show ?case by (auto split: if_splits list.splits)
qed simp

lemma utf8_one: "byte c < 128 \<Longrightarrow> utf8_valid [c]"
  by simp

lemma utf8_join: "utf8_valid sep \<Longrightarrow> \<forall>x \<in> set xs. utf8_valid x \<Longrightarrow> utf8_valid (join sep xs)"
  by (induction xs rule: induct_list012) (simp_all add: utf8_append)

lemma utf8_new_line: "utf8_valid (new_line st n)"
  by (rule utf8_ascii) (auto simp: new_line_def list_all_iff split: option.split)

lemma utf8_bracketed:
  assumes "utf8_valid (js_item st)" "byte l < 128" "byte r < 128" "\<forall>x \<in> set xs. utf8_valid x"
  shows "utf8_valid (bracketed st n l r xs)"
proof -
  have s: "utf8_valid (js_item st @ new_line st (Suc n))" by (simp add: utf8_append assms(1) utf8_new_line)
  show ?thesis
    using utf8_join [OF s assms(4)] by (simp add: bracketed_def assms(2,3) utf8_append utf8_new_line)
qed

lemma utf8_raw_body: "utf8_valid s \<Longrightarrow> utf8_valid (raw_body s)"
proof (induction s rule: utf8_valid.induct)
  case (2 a s)
  have high: "esc_char c = [c]" if "128 \<le> byte c" for c using that by (simp add: esc_char_def Let_def)
  have low: "utf8_valid (esc_char c)" if "byte c < 128" for c
  proof (rule utf8_ascii)
    have "byte (hex_digit k) < 128" if "k < 16" for k using that by (simp add: hex_digit_def Let_def)
    then show "list_all (\<lambda>c. byte c < 128) (esc_char c)" using that by (simp add: esc_char_def hex4_def Let_def)
  qed
  show ?case
  proof (cases "byte a < 128")
    case True
    with 2 low show ?thesis by (simp add: utf8_append)
  next
    case False
    with 2 show ?thesis
      by (auto simp: high continuation_def split: if_splits list.splits)
  qed
qed simp

lemma utf8_enc: "utf8_valid s \<Longrightarrow> utf8_valid (enc_str s)"
  by (simp add: enc_str_def utf8_append utf8_raw_body)

lemma utf8_int: "utf8_valid (str_of_int i)"
proof -
  have "list_all (\<lambda>c. byte c < 128) (str_of_nat k)" for k
    using str_of_nat_digits [of k] by (fastforce simp: list_all_iff is_digit_def)
  then show ?thesis by (intro utf8_ascii) (simp add: str_of_int_def)
qed

lemma utf8_indented: "fine_doc utf8_valid v \<Longrightarrow> utf8_valid (indented n v)"
proof (induction v arbitrary: n)
  case (JObj kvs)
  have i: "utf8_valid (js_item indent_style)" by (simp add: indent_style_def)
  have "utf8_valid (enc_str k @ '': '' @ e)" if ke: "(k, e) \<in> set (ordered indent_style (map (\<lambda>(k, v). (k, indented (Suc n) v)) kvs))" for k e
  proof -
    obtain v where "(k, v) \<in> set kvs" "e = indented (Suc n) v" using ke unfolding ordered_props(1) by auto
    with JObj show ?thesis by (fastforce simp: utf8_append utf8_enc list_all_iff)
  qed
  then show ?case by (simp only: indented.simps) (intro utf8_bracketed i; force)
next
  case (JList xs)
  have i: "utf8_valid (js_item indent_style)" by (simp add: indent_style_def)
  from JList show ?case by (simp only: indented.simps) (intro utf8_bracketed i; simp add: list_all_iff)
next
  case (JTuple xs)
  have i: "utf8_valid (js_item indent_style)" by (simp add: indent_style_def)
  from JTuple show ?case by (simp only: indented.simps) (intro utf8_bracketed i; simp add: list_all_iff)
qed (simp_all add: utf8_enc utf8_int)

lemma utf8_file: "fine_doc utf8_valid v \<Longrightarrow> utf8_valid (indented 0 v @ [CHR 0x0A])"
  by (simp add: utf8_append utf8_indented)

lemma utf8_digest: "utf8_valid (digest_bytes s)"
proof -
  have "utf8_valid (sha256_hex s)"
    using sha256_hex_is_hex [of _ s] by (intro utf8_ascii) (fastforce simp: list_all_iff is_hex_def is_digit_def)
  then show ?thesis by (simp add: digest_bytes_def DIGEST_ALGORITHM_def)
qed

lemma utf8_sums: "distinct (map fe_path files) \<Longrightarrow> \<forall>f \<in> set files. utf8_valid (fe_path f) \<Longrightarrow> fine_doc utf8_valid (JObj (sums_of files))"
  using sums_once [of files]
  by (auto simp: sums_of_def list_all_iff RUN_MODE_def CLAIM_BEARING_USE_def utf8_digest digest_file_def)

subsection \<open>A tampered run directory\<close>

text \<open>
  The verifier's result says that there is no counterexample, and the checksum file is of another one.
\<close>

definition tampered_manifest :: json where
  "tampered_manifest = JObj [
     (''boundary'', JObj [(''id'', JStr ''RB-001''), (''version'', JStr ''0.1.0'')]),
     (''falsifier'', falsifier_identity),
     (''scenario'', JObj [(''id'', JStr ''RB-001-VULN-A''), (''name'', JStr ''VULN-A.json'')])]"

definition tampered_witness :: json where
  "tampered_witness = JObj [
     (''trace'', JObj [(''variation'', variation_dict vuln_a_baseline)]),
     (''adversary'', JObj []),
     (''search'', JObj [(''transcript'', JList []), (''selected_candidate_index'', JInt 0)]),
     (''trace_digest'', JStr ''x'')]"

definition tampered_result :: json where
  "tampered_result = JObj [(''disposition'', JStr ''NO_COUNTEREXAMPLE''), (''evidence_digest'', JStr ''x'')]"

definition tampered_sums :: json where
  "tampered_sums = JObj [(''files'', JObj [(''verifier-result.json'', JStr ''x'')])]"

definition plain_file :: "string \<Rightarrow> json \<Rightarrow> file_entry" where
  "plain_file name v = \<lparr>fe_path = name, fe_is_file = True, fe_content = json_text plain_style v\<rparr>"

definition tampered_files :: "file_entry list" where
  "tampered_files = [plain_file ''manifest.json'' tampered_manifest, plain_file ''witness.json'' tampered_witness,
     plain_file ''verifier-result.json'' tampered_result, plain_file SUMS_NAME tampered_sums]"

definition tampered_world :: world where
  "tampered_world = \<lparr>wd_dirs = [(''run'', tampered_files)], wd_out = []\<rparr>"

definition sample_env :: command_env where
  "sample_env = \<lparr>cm_host = lenient_host ''3.12'', cm_scenario = \<lambda>path. (rb001_documents, ''VULN-A.json'')\<rparr>"

lemma plain_file_read:
  assumes "ascii_doc v" "reread plain_style v = v"
  shows "decoded_json (json_text plain_style v) = Inr v"
proof -
  have "list_all (\<lambda>c. byte c < 128) (json_text plain_style v)"
    using emit_printable [OF assms(1), of plain_style] by (fastforce simp: json_text_def list_all_iff printable_def)
  then show ?thesis
    using json_text_reads [OF assms(1), of plain_style] assms(2) by (simp add: decoded_json_def utf8_ascii)
qed

lemma ascii_file_digest: "ascii (digest_bytes s)"
  using sha256_hex_is_hex [of _ s]
  by (fastforce simp: ascii_def digest_bytes_def DIGEST_ALGORITHM_def list_all_iff is_hex_def is_digit_def)

lemma tampered_ascii:
  "ascii_doc tampered_manifest" "ascii_doc tampered_witness" "ascii_doc tampered_result" "ascii_doc tampered_sums"
  by (simp_all add: tampered_manifest_def tampered_witness_def tampered_result_def tampered_sums_def falsifier_identity_def
      falsifier_digest_def digest_object_def ascii_file_digest variation_dict_def)
    (simp_all add: ascii_def FALSIFIER_ID_def FALSIFIER_VERSION_def)

lemma tampered_reread:
  "reread plain_style tampered_manifest = tampered_manifest" "reread plain_style tampered_witness = tampered_witness"
  "reread plain_style tampered_result = tampered_result" "reread plain_style tampered_sums = tampered_sums"
  by (simp_all add: tampered_manifest_def tampered_witness_def tampered_result_def tampered_sums_def falsifier_identity_def
      variation_dict_def ordered_def plain_style_def)

lemma tampered_docs:
  "doc_at (wd_dirs tampered_world) ''run'' ''manifest.json'' = Inr tampered_manifest"
  "doc_at (wd_dirs tampered_world) ''run'' ''witness.json'' = Inr tampered_witness"
  "doc_at (wd_dirs tampered_world) ''run'' ''verifier-result.json'' = Inr tampered_result"
  "doc_at (wd_dirs tampered_world) ''run'' SUMS_NAME = Inr tampered_sums"
  using plain_file_read [OF tampered_ascii(1) tampered_reread(1)] plain_file_read [OF tampered_ascii(2) tampered_reread(2)]
    plain_file_read [OF tampered_ascii(3) tampered_reread(3)] plain_file_read [OF tampered_ascii(4) tampered_reread(4)]
  by (simp_all add: doc_at_def tampered_world_def tampered_files_def plain_file_def file_content_def SUMS_NAME_def)

lemma tampered_entries:
  "dict_get (wd_dirs tampered_world) ''run'' = Some tampered_files" "distinct (map fe_path tampered_files)"
  by (simp_all add: tampered_world_def tampered_files_def plain_file_def SUMS_NAME_def)

text \<open>The inspection notices it.\<close>

lemma digest_not_x: "digest_bytes s \<noteq> ''x''"
  by (simp add: digest_bytes_def DIGEST_ALGORITHM_def)

lemma tampered_noticed: "\<exists>w'. cmd_inspect ''run'' js tampered_world = (Inr 5, w')"
proof -
  have f: "find_file tampered_files ''verifier-result.json'' = Some (plain_file ''verifier-result.json'' tampered_result)"
    by (simp add: tampered_files_def plain_file_def)
  have "sum_complaint tampered_files (''verifier-result.json'', JStr ''x'') \<noteq> []"
    using digest_not_x by (simp add: sum_complaint_def f plain_file_def digest_file_def)
  then obtain rep where rep: "verify_sha256sums tampered_files (Some tampered_sums) = Inr rep" "\<not> sm_ok rep"
    by (simp add: verify_sha256sums_def tampered_sums_def dict_index_def Let_def)
  have "is_file_in tampered_files SUMS_NAME" "bindE (file_content ''run'' SUMS_NAME tampered_files) decoded_json = Inr tampered_sums"
    using tampered_docs(4) tampered_entries(1)
    by (simp_all add: is_file_in_def tampered_files_def plain_file_def SUMS_NAME_def doc_at_def)
  then have "verify_run_dir ''run'' tampered_world = (Inr rep, tampered_world)"
    by (simp add: verify_run_dir_def tampered_entries(1) rep(1))
  from inspect_code [OF this tampered_docs(1-3), of js] rep(2) show ?thesis by simp
qed

subsection \<open>Its replay\<close>

lemma write_succeeds:
  assumes "dict_get (wd_dirs w) dir = Some files" "find_file files name = None \<or> is_file_in files name" "fine_doc utf8_valid v"
  shows "\<exists>w'. write_json_at dir name v w = (Inr (), w')"
  using assms(1,2) utf8_file [OF assms(3)]
  by (auto simp: write_json_at_def andthen_def make_dir_def put_file_def)

definition replay_ready :: "json \<Rightarrow> bool" where
  "replay_ready r \<longleftrightarrow> fine_doc utf8_valid r \<and> jindex r ''replay_ok'' = Inr (JBool False)
     \<and> (\<exists>a b c d. jindex r ''scenario_id'' = Inr a \<and> jindex r ''adversary_used'' = Inr b \<and> jindex r ''disposition'' = Inr c
          \<and> jindex r ''recomputed_evidence_digest'' = Inr d)"

lemma runtime_valid: "fine_doc utf8_valid (JObj (runtime_metadata (lenient_host ''3.12'') []))"
  by (simp add: runtime_metadata_def dict_update_def dict_set_def lenient_host_def OAT_VERSION_def digest_source_tree_def
      digest_object_def utf8_digest Let_def)

lemma tampered_variation: "variation_of tampered_witness = Inr vuln_a_baseline"
  by (simp add: variation_of_def tampered_witness_def variation_dict_def int_field_def dict_index_def vuln_a_baseline_def)

lemma tampered_replayed:
  "\<exists>r. replay_run (lenient_host ''3.12'') vuln_a_rb tampered_manifest tampered_witness tampered_result = Inr r \<and> replay_ready r"
proof -
  let ?env = "lenient_host ''3.12''" and ?t = "execute vuln_a_rb vuln_a_baseline" and ?e = "evaluation_of vuln_a_rb vuln_a_baseline"
  have sid: "rs_scenario_id vuln_a_rb = ''RB-001-VULN-A''" by (simp add: vuln_a_rb_def family_rb_def)
  have m: "jindex tampered_manifest ''scenario'' = Inr (JObj [(''id'', JStr (rs_scenario_id vuln_a_rb)), (''name'', JStr ''VULN-A.json'')])"
    "jindex tampered_manifest ''falsifier'' = Inr falsifier_identity"
    "jindex tampered_manifest ''boundary'' = Inr (JObj [(''id'', JStr ''RB-001''), (''version'', JStr ''0.1.0'')])"
    by (simp_all add: tampered_manifest_def dict_index_def sid)
  have ids: "str_field (JObj ((''id'', JStr i) # rest)) ''id'' = Inr i" for i rest
    by (simp add: str_field_def dict_index_def)
  obtain fd where fd: "falsifier_identity = JObj fd" using identity_equal(3) by blast
  obtain w where w: "build_witness tampered_manifest ?t ?e [] [] 0 = Inr w"
    by (simp add: build_witness_def m ids fd py_dict_def del: jindex.simps)
  obtain kvs where o: "tampered_manifest = JObj kvs" by (simp add: tampered_manifest_def)
  have "says (v1_verify ?env (JObj w) (Some tampered_manifest) None) DISPOSITION_COUNTEREXAMPLE"
    using own_witness_says [OF w [unfolded o] m(1,2) [unfolded o], of ?env] vuln_a_is_cex by (simp add: o lenient_host_def)
  then obtain result where res: "v1_verify ?env (JObj w) (Some tampered_manifest) None = Inr result"
    "jindex result ''disposition'' = Inr (JStr DISPOSITION_COUNTEREXAMPLE)"
    by (auto simp: says_def str_field_def bindE_Inr_iff jindex_Inr_iff)
  from agree_verify [OF refl, of ?env "JObj w" "Some tampered_manifest" None] res(1) obtain d q where
    q: "v1_result ?env d (JObj w) q = Inr result" by (auto simp: agree_def)
  note f = v1_result_fields [OF q]
  have s: "jindex tampered_witness ''adversary'' = Inr (JObj [])"
    "jindex tampered_witness ''search'' = Inr (JObj [(''transcript'', JList []), (''selected_candidate_index'', JInt 0)])"
    "str_field tampered_witness ''trace_digest'' = Inr ''x''" "str_field tampered_result ''evidence_digest'' = Inr ''x''"
    "str_field tampered_result ''disposition'' = Inr ''NO_COUNTEREXAMPLE''"
    "jindex (JObj [(''transcript'', JList []), (''selected_candidate_index'', JInt 0)]) ''transcript'' = Inr (JList [])"
    "int_field (JObj [(''transcript'', JList []), (''selected_candidate_index'', JInt 0)]) ''selected_candidate_index'' = Inr 0"
    by (simp_all add: tampered_witness_def tampered_result_def str_field_def int_field_def dict_index_def)
  have g: "str_field result ''evidence_digest'' = Inr (digest_object (JObj (v1_evidence d (JObj w) q)))" "str_field result ''disposition'' = Inr d"
    "d = DISPOSITION_COUNTEREXAMPLE"
    using f(1,2) res(2) by (simp_all add: str_field_def)
  have pd: "py_dict (JObj []) = Inr []" by simp
  have "\<exists>r. replay_run ?env vuln_a_rb tampered_manifest tampered_witness tampered_result = Inr r
     \<and> r = projr (replay_run ?env vuln_a_rb tampered_manifest tampered_witness tampered_result)"
    by (simp add: replay_run_def Let_def tampered_variation s pd w res(1) g f m ids del: jindex.simps)
  then show ?thesis
    using runtime_valid
    by (simp add: replay_run_def Let_def tampered_variation s pd w res(1) g f m ids sid replay_ready_def dict_index_def
        digest_object_def digest_not_x utf8_digest RUN_MODE_def CLAIM_BEARING_USE_def DISPOSITION_COUNTEREXAMPLE_def del: jindex.simps(2,3,4,5,6,7))
qed

lemma report_ends:
  assumes "replay_ready r"
  shows "\<exists>w'. replay_printed r js w = (Inr 4, w') \<and> wd_dirs w' = wd_dirs w"
proof -
  obtain a b c d where f: "jindex r ''scenario_id'' = Inr a" "jindex r ''adversary_used'' = Inr b" "jindex r ''disposition'' = Inr c"
    "jindex r ''recomputed_evidence_digest'' = Inr d" "jindex r ''replay_ok'' = Inr (JBool False)"
    using assms by (auto simp: replay_ready_def)
  have sf: "prints (show_field l r k) ()" if "jindex r k = Inr x" for l k x
    unfolding show_field_def str_field_def that by (auto intro: prints_andthen prints_intros prints_parts)
  have "prints (attempt (bindE (jindex r ''replay_ok'') (\<lambda>ok. Inr (if truthy ok then 0 else 4)))) (4 :: nat)"
    unfolding f(5) by (simp add: prints_intros)
  then have "prints (replay_printed r js) 4"
    unfolding replay_printed_def using f by (intro prints_andthen [where x = "()"] prints_parts sf)
  then show ?thesis unfolding prints_def by blast
qed

lemma tampered_replays: "\<exists>w'. cmd_replay sample_env ''run'' True js tampered_world = (Inr 4, w')"
proof -
  obtain r where r: "replay_run (lenient_host ''3.12'') vuln_a_rb tampered_manifest tampered_witness tampered_result = Inr r"
    "replay_ready r" using tampered_replayed by blast
  obtain p where p: "load_scenario_package (lenient_host ''3.12'') rb001_documents ''VULN-A.json'' = Inr p" "sp_scenario p = vuln_a_rb"
    using vuln_a_loads by blast
  have source: "scenario_source sample_env tampered_manifest ''run'' = Inr ''scenarios/rb001/VULN-A.json''"
    by (simp add: scenario_source_def tampered_manifest_def attr_get_def jget_or_def str_field_def dict_index_def
        scenario_exists_def sample_env_def rb001_documents_def)
  have l: "bindE (scenario_source sample_env tampered_manifest ''run'') (load_at sample_env) = Inr p"
    unfolding source by (simp add: load_at_def sample_env_def p(1))
  have absent: "find_file tampered_files ''replay-result.json'' = None"
    by (simp add: tampered_files_def plain_file_def SUMS_NAME_def)
  obtain w1 where w1: "write_json_at ''run'' ''replay-result.json'' r tampered_world = (Inr (), w1)"
    using write_succeeds [OF tampered_entries(1)] absent r(2) unfolding replay_ready_def by blast
  have rd: "replay_dir sample_env ''run'' True tampered_world = (Inr r, w1)"
    using r(1) w1 by (simp add: replay_dir_def andthen_def read_json_at_eq tampered_docs attempt_def l p(2) give_def)
      (simp add: sample_env_def andthen_def give_def)
  obtain c where f1: "dict_get (wd_dirs w1) ''run'' = Some (put_entry ''replay-result.json'' c tampered_files)"
    using write_json_at_Inr(2) [OF w1 tampered_entries(1)] by blast
  let ?files = "put_entry ''replay-result.json'' c tampered_files"
  have "is_file_in ?files SUMS_NAME"
    by (simp add: is_file_in_def find_put) (simp add: SUMS_NAME_def tampered_files_def plain_file_def)
  moreover have "fine_doc utf8_valid (JObj (sums_of ?files))"
    by (rule utf8_sums [OF distinct_put [OF tampered_entries(2)]])
      (auto simp: put_entry_def tampered_files_def plain_file_def SUMS_NAME_def)
  ultimately obtain w2 where "write_json_at ''run'' SUMS_NAME (JObj (sums_of ?files)) w1 = (Inr (), w2)"
    using write_succeeds [OF f1] by blast
  then have ws: "write_sha256sums ''run'' w1 = (Inr (JObj (sums_of ?files)), w2)"
    by (simp add: write_sha256sums_def andthen_def dir_entries_def f1 give_def)
  obtain w3 where "replay_printed r js w2 = (Inr 4, w3)" using report_ends [OF r(2)] by blast
  then show ?thesis
    by (simp add: cmd_replay_def andthen_def rd ws give_def)
qed

lemma replay_reseals_directory_witness:
  "\<exists>w1 w' w2. cmd_inspect ''run'' False tampered_world = (Inr 5, w1)
     \<and> cmd_replay sample_env ''run'' True False tampered_world = (Inr 4, w')
     \<and> cmd_inspect ''run'' False w' = (Inr 0, w2)"
proof -
  obtain w' where r: "cmd_replay sample_env ''run'' True False tampered_world = (Inr 4, w')" using tampered_replays by blast
  from replay_reseals_directory [OF r tampered_entries, of False] tampered_noticed [of False] r show ?thesis by blast
qed

subsection \<open>A directory with runtime metadata\<close>

definition runtime_manifest :: json where
  "runtime_manifest = JObj [(''runtime'', JObj [(''python_version'', JStr ''3.12'')]), (''run_mode'', JStr RUN_MODE)]"

definition runtime_world :: world where
  "runtime_world = \<lparr>wd_dirs = [(''run'', [plain_file ''manifest.json'' runtime_manifest])], wd_out = []\<rparr>"

lemma runtime_entries:
  "dict_get (wd_dirs runtime_world) ''run'' = Some [plain_file ''manifest.json'' runtime_manifest]"
  "doc_at (wd_dirs runtime_world) ''run'' ''manifest.json'' = Inr runtime_manifest"
proof -
  have "ascii_doc runtime_manifest" "reread plain_style runtime_manifest = runtime_manifest"
    by (simp_all add: runtime_manifest_def ascii_def RUN_MODE_def ordered_def plain_style_def)
  note r = plain_file_read [OF this]
  show "dict_get (wd_dirs runtime_world) ''run'' = Some [plain_file ''manifest.json'' runtime_manifest]"
    by (simp add: runtime_world_def)
  show "doc_at (wd_dirs runtime_world) ''run'' ''manifest.json'' = Inr runtime_manifest"
    using r by (simp add: doc_at_def runtime_world_def plain_file_def file_content_def)
qed

lemma runtime_stripped: "\<exists>w'. strip_runtime_from_run_dir ''run'' runtime_world = (Inr [''manifest.json''], w')"
proof -
  let ?files = "[plain_file ''manifest.json'' runtime_manifest]"
  have names: "sort (map fe_path (filter (\<lambda>f. ends_with (fe_path f) ''.json'') ?files)) = [''manifest.json'']"
    by (simp add: plain_file_def ends_with_def starts_with_def)
  have m: "member_of ''runtime'' runtime_manifest = Inr True" by (simp add: member_of_def runtime_manifest_def)
  have "strip_noncanonical runtime_manifest = JObj [(''run_mode'', JStr RUN_MODE)]"
    by (simp add: runtime_manifest_def NONCANONICAL_KEYS_def)
  then have v: "fine_doc utf8_valid (strip_noncanonical runtime_manifest)" by (simp add: RUN_MODE_def)
  have present: "is_file_in ?files ''manifest.json''" by (simp add: is_file_in_def plain_file_def)
  obtain w1 where w1: "write_json_at ''run'' ''manifest.json'' (strip_noncanonical runtime_manifest) runtime_world = (Inr (), w1)"
    using write_succeeds [OF runtime_entries(1) disjI2 [OF present] v] by blast
  have loop: "strip_loop ''run'' [''manifest.json''] [] runtime_world = (Inr [''manifest.json''], w1)"
    by (simp add: SUMS_NAME_def andthen_def read_json_at_eq runtime_entries(2) attempt_def m)
      (simp add: andthen_def w1 give_def)
  obtain c where f1: "dict_get (wd_dirs w1) ''run'' = Some (put_entry ''manifest.json'' c ?files)"
    using write_json_at_Inr(2) [OF w1 runtime_entries(1)] by blast
  have e: "put_entry ''manifest.json'' c ?files = [\<lparr>fe_path = ''manifest.json'', fe_is_file = True, fe_content = c\<rparr>]"
    by (simp add: put_entry_def plain_file_def)
  have "fine_doc utf8_valid (JObj (sums_of (put_entry ''manifest.json'' c ?files)))"
    unfolding e by (rule utf8_sums) simp_all
  moreover have "find_file (put_entry ''manifest.json'' c ?files) SUMS_NAME = None" unfolding e by (simp add: SUMS_NAME_def)
  ultimately obtain w2 where "write_json_at ''run'' SUMS_NAME (JObj (sums_of (put_entry ''manifest.json'' c ?files))) w1 = (Inr (), w2)"
    using write_succeeds [OF f1] by blast
  then have "write_sha256sums ''run'' w1 = (Inr (JObj (sums_of (put_entry ''manifest.json'' c ?files))), w2)"
    by (simp add: write_sha256sums_def andthen_def dir_entries_def f1 give_def)
  then show ?thesis
    by (simp only: strip_runtime_from_run_dir_def andthen_def dir_entries_def runtime_entries(1) option.case prod.case sum.case
        names loop) (simp add: give_def)
qed

lemma stripping_keeps_digests_witness:
  "\<exists>w' d. strip_runtime_from_run_dir ''run'' runtime_world = (Inr [''manifest.json''], w')
     \<and> doc_at (wd_dirs w') ''run'' ''manifest.json'' = Inr d \<and> digest_object d = digest_object runtime_manifest
     \<and> jget d ''runtime'' = None"
proof -
  obtain w' where r: "strip_runtime_from_run_dir ''run'' runtime_world = (Inr [''manifest.json''], w')"
    using runtime_stripped by blast
  have "distinct (map fe_path [plain_file ''manifest.json'' runtime_manifest])" by simp
  note k = stripping_keeps_digests [OF r runtime_entries(1) this, THEN conjunct1, rule_format, OF _ runtime_entries(2)]
  have "''manifest.json'' \<noteq> SUMS_NAME" "ends_with ''manifest.json'' ''.json''"
    by (simp_all add: SUMS_NAME_def ends_with_def starts_with_def)
  with k r show ?thesis by blast
qed

end
