(* ===== verification/Spec2Isabelle.thy ===== *)
theory Spec2Isabelle
  imports Oat_Prelude Hash_Lib Canonical Py_Json Authority Action_Model Authorization Commit_Gate
    Payment_Sink Path_Sets Consequence_Verdict Evidence_Graph Consequence_Scenarios
    Consequence_Replay Scenario_Outcomes Rb001 Adversaries V1_Verifier Trial Pipeline Checksums
    Dry_Run Host_Sink Host_History Host_Steps Host_Locks Host_Queue Host_Witnesses Provenance
    Json_Text Json_Roundtrip Py_Float Probes Synthetic_Targets Target_Service Leak_Audit Qual_Runner
    Sha_Manifest Float_Docs Evidence_Store Evidence_Replay Selection Nim_Qualification
    Nim_Stream Nim_Transport Evidence_Sums Sequence_Gates Sequence_Run Sequence_Replay Sequence_003
    Sequence_Stages Provider_Preflight Qual_Campaign Sequence_Binding Host_Runner Host_Main Discovery
    Host_Runner_001 Run_Directory Command_Line Command_Samples
begin

text \<open>
  OAT (Open Authority Trials) examines whether an action that has consequences was covered by an
  authority at the moment it was committed. This development models its Python code and proves what
  the parts promise, one by one and together.

  \<^bold>\<open>The program.\<close> An \<^emph>\<open>authority\<close> is a history of epochs with delegations (\<open>oat/authority\<close>); an
  \<^emph>\<open>authorization\<close> binds one exact action to it and is signed by an issuer. A \<^emph>\<open>sink\<close> commits actions:
  the payment sink in memory (\<open>oat/consequence/sink.py\<close>) and the SQLite host behind HTTP, a queue and a
  hidden batch route (\<open>oat/integration/host_sink.py\<close>); its guarded entry, the interlock, admits only
  what an authorization covers, its other entry commits without asking. An observer counts and
  receipts what was committed. The \<^emph>\<open>verifier\<close> (\<open>oat/verifier\<close>) decides from preserved evidence
  whether a boundary was crossed, \<^emph>\<open>replay\<close> (\<open>oat/evidence\<close>, \<open>oat/replay.py\<close>) decides it again
  from a sealed package, and a \<^emph>\<open>trial\<close> (\<open>oat/trial.py\<close>, \<open>oat/pipeline.py\<close>) has an \<^emph>\<open>adversary\<close> search a
  scenario of the reference boundary RB-001 for a counterexample. A \<^emph>\<open>qualification campaign\<close>
  (\<open>oat/qualification\<close>) measures adversaries on generated, flawed targets and selects one. A
  \<^emph>\<open>sequence\<close> (the runners under \<open>tools\<close>) first shows that the verifier sees a planted crossing, seals
  and resets, then lets a model attack the host behind its gates, replays both from their evidence
  and adjudicates them together.

  \<^bold>\<open>Theories.\<close> Shared: \<open>Oat_Prelude\<close> (results, dictionaries, text), \<open>Hash_Lib\<close> (SHA-256 and HMAC,
  written out), \<open>Canonical\<close> (\<open>oat/canonical.py\<close>, \<open>oat/digest.py\<close>), \<open>Py_Json\<close> and \<open>Json_Text\<close> with
  \<open>Json_Roundtrip\<close> (operations on documents; \<open>json.dumps\<close> and \<open>json.loads\<close>), \<open>Py_Float\<close> and
  \<open>Float_Docs\<close> (doubles and their text), \<open>Commit_Gate\<close> (the locale of a ledger behind an interlock,
  interpreted for the payment sink and for the host). Authority and commits: \<open>Authority\<close>,
  \<open>Action_Model\<close>, \<open>Authorization\<close>, \<open>Payment_Sink\<close>, \<open>Path_Sets\<close> (\<open>oat/paths\<close>),
  \<open>Consequence_Verdict\<close> (\<open>oat/verifier/consequence.py\<close>), \<open>Evidence_Graph\<close>, \<open>Consequence_Scenarios\<close>,
  \<open>Consequence_Replay\<close>, \<open>Scenario_Outcomes\<close>. The host: \<open>Host_Sink\<close> (tables and the two entries),
  \<open>Host_History\<close> (requests in sequence), \<open>Host_Steps\<close> (requests interleaved at the statements that
  touch shared state), \<open>Host_Locks\<close> (the locks of both stores, with transactions that are open, committed or
  rolled back, and their refinement to the atomic steps), \<open>Host_Queue\<close> (worker and HTTP replies), \<open>Host_Witnesses\<close>. Trials: \<open>Rb001\<close>,
  \<open>Adversaries\<close>, \<open>V1_Verifier\<close>, \<open>Trial\<close>, \<open>Pipeline\<close> (manifest, witness, search and replay), \<open>Checksums\<close>,
  \<open>Dry_Run\<close>, \<open>Provenance\<close>. Qualification: \<open>Probes\<close>, \<open>Synthetic_Targets\<close>, \<open>Target_Service\<close>,
  \<open>Leak_Audit\<close>, \<open>Qual_Runner\<close>, \<open>Sha_Manifest\<close>, \<open>Evidence_Store\<close>, \<open>Evidence_Replay\<close>, \<open>Selection\<close>,
  \<open>Nim_Qualification\<close> (\<open>oat/qualification/provider.py\<close>). Sequences: \<open>Nim_Stream\<close> and \<open>Nim_Transport\<close> (event
  streams, calls, retries and the authorization ledger), \<open>Evidence_Sums\<close>, \<open>Sequence_Gates\<close> (gates, ground-truth
  audit, joint adjudication), \<open>Sequence_Run\<close> (the adversarial run), \<open>Sequence_Replay\<close>, \<open>Sequence_Stages\<close>
  (the other stages and their order) for \<open>tools/oat_consequence_sequence_runner_004.py\<close>, and
  \<open>Sequence_003\<close> for what its predecessor did otherwise.
  The single runs the sequences grew out of: \<open>Host_Runner\<close> (transport, turns and loop) and \<open>Host_Main\<close>
  (checks before the run, verdict, files) for \<open>tools/oat_nim_host_sink_runner_002.py\<close>, \<open>Host_Runner_001\<close>
  for its predecessor, \<open>Discovery\<close> for what both runners make of a model that finds the hidden entry. The
  tools around a run: \<open>Provider_Preflight\<close> (\<open>tools/oat_nvidia_provider_preflight.py\<close>), whose record the
  gates of a sequence and a campaign read, \<open>Qual_Campaign\<close> (\<open>tools/oat_adversary_qualification_001.py\<close>) and
  \<open>Sequence_Binding\<close> (\<open>tools/build_sequence_003_binding.py\<close>, \<open>tools/build_sequence_004_binding.py\<close>), whose
  documents bind the digests that the gates compare.
  The command line: \<open>Run_Directory\<close> (files of a run: written, sealed, stripped, replayed), \<open>Command_Line\<close>
  (\<open>oat/cli.py\<close>: each command with its output and exit code) and \<open>Command_Samples\<close> (directories by example).

  \<^bold>\<open>How the state corresponds.\<close> A dataclass is a record with the same fields behind a prefix, an
  enumeration a datatype or its string constants, a \<open>dict\<close> an association list in insertion order, a
  string its UTF-8 bytes, a Python integer an \<open>int\<close>, a finite float the rational it stands for. A raised
  exception is the \<open>Inl\<close> of a sum with one constructor per class. A method that changes its object is a
  function that returns the changed record. What is not in the repository (the JSON schema validator,
  the provider, the clock, the source tree that is hashed) is an argument.

  \<^bold>\<open>What is shown.\<close> That a bypass is always found and an admitted commit is cleared (this theory);
  that each ledger keeps its invariant and spends keys and uses at most as often as allowed, also when
  the host's threads interleave, and that its locks neither block nor leak; what unlocked uses cost when
  requests race; the exact condition of every verdict;
  that signatures, digests and sealed packages determine what they bind, up to an explicit collision
  of SHA-256, which is never assumed away; that runs and packages replay; that a campaign run is
  fail-closed and bounded, its published replay flag is exactly characterised, and its selection applies
  the frozen limits and order; that the provider of a sequence stands behind every gate and its calls stay
  in their budget, that a run's evidence replays to its verdict, and that closure means an executed run; that freezes,
  bindings and preflight records admit what they name; what a command leaves in a run directory. Several theorems state behaviour that the code's documents do not
  intend; they are listed as findings in the manifest of this development.

  \<^bold>\<open>Bounds and fuel.\<close> Loops over data are structural recursions, the loops of the runners terminate by
  their budget of provider calls. Fuel occurs once, in the JSON reader, with twice the length of the text and
  two more: enough for every text \<open>json.dumps\<close> writes, which \<open>Json_Roundtrip\<close> proves. SHA-256 is
  computed block by block over 32-bit words, which wrap.

  \<^bold>\<open>Not modelled.\<close> Sockets, HTTP header parsing, subprocesses, argument parsing, and what the tools
  under \<open>tools\<close> print; the lookup of JSON schemas; float literals, \<open>NaN\<close> and \<open>Infinity\<close> in JSON text that is read (the reader refuses
  them, a streamed event with one is skipped, and evidence documents with floats are read back as they
  are); the byte layout of the evidence files of a run between writing and replay, which sees the documents with
  their keys sorted; lone surrogates; dictionary keys that are not strings; non-ASCII letter case; SQLite's own file
  locks, which one process with a lock per store does not contend for. Extracting the frozen target with git and importing
  it: a run meets it as the host model. A command of the command line is given its arguments; the two
  scenarios of a dry run lie in one directory.
\<close>

section \<open>Properties across components\<close>

subsection \<open>The interlock and the verifier agree\<close>

text \<open>C2: What the interlock admits, the verifier clears: a commit the guarded entry admitted is
  found clean later on evidence that records its receipt, the authorization it was admitted with,
  the correlated token, a use count within the limit and the authority's epochs, even when the
  store has since grown by epochs that start after the commit.\<close>

theorem admitted_commit_is_cleared:
  assumes "il_outcome (snd (submit s c (Some a) (Some t))) = ADMITTED"
    and "ce_authorization_ref c = Some (au_authorization_id a)" "au_authorization_id a \<noteq> []"
    and "receipt_for ev (ce_commit_id c) \<noteq> None"
    and "dict_get (ev_authorizations ev) (au_authorization_id a) = Some a"
    and "store_ok (pk_authority s)" "\<forall>e \<in> set es. ce_committed_at c < as_effective_from e"
    and "ev_authority ev = Some (fold store_add es (pk_authority s))"
    and "ev_issuer ev = Some i" "is_secret i = is_secret (pk_issuer s)"
    and "dict_get (ev_use_counts ev) (au_authorization_id a) = Some n" "n \<le> au_max_uses a"
    and "dict_get (ev_correlated ev) (ce_commit_id c) = Some t"
  shows "cf_disposition (adjudicate_commit c ev) = NO_BOUNDARY_COUNTEREXAMPLE"
proof -
  from assms(1) obtain st where st: "store_at (pk_authority s) (ce_committed_at c) = Some st"
    and auth: "authorizes a c st (pk_issuer s) (use_count (pk_issuer s) (au_authorization_id a) + 1) t"
    by (auto simp: submit_admitted_iff submit_justified_def)
  have "store_at (fold store_add es (pk_authority s)) (ce_committed_at c) = Some st"
    using epochs.future_adds [OF assms(6,7)] st by simp
  moreover have "verify_integrity i a = verify_integrity (pk_issuer s) a"
    using authorization_mac_secret [OF assms(10)] by (simp add: verify_integrity_def)
  then have "authorizes a c st i n t" using auth assms(12) by (simp add: authorizes_def)
  ultimately show ?thesis
    unfolding finding_clean_iff using assms by (simp add: commit_authorization_def)
qed

lemma admitted_commit_is_cleared_witness:
  "cf_disposition (adjudicate_commit (base_commit ''c1'' ''route.api-guarded'') base_evidence)
     = NO_BOUNDARY_COUNTEREXAMPLE"
proof -
  let ?s = "base_run ''c1'' ''route.api-guarded''" let ?c = "base_commit ''c1'' ''route.api-guarded''"
  have ev: "ev_authorizations base_evidence = [(''authz-0001'', base_auth)]"
    "ev_authority base_evidence = Some base_authority" "ev_issuer base_evidence = Some (pk_issuer ?s)"
    "ev_use_counts base_evidence = [(''authz-0001'', 1)]"
    "ev_correlated base_evidence = [(''c1'', token_digest base_auth)]"
    "ev_receipts base_evidence = [commit_receipt 1 ?c]"
    by (simp_all add: base_evidence_def with_evidence_def mk_result_def)
  have r: "receipt_for base_evidence (ce_commit_id ?c) \<noteq> None"
    by (simp add: receipt_for_def ev commit_receipt_def)
  have ok: "store_ok base_authority" by (simp add: base_authority_def)
  have m: "(1 :: int) \<le> au_max_uses base_auth" by (simp add: ref_auth_def)
  have sec: "is_secret (pk_issuer ?s) = is_secret (new_issuer SECRET)" by (simp add: new_issuer_def)
  show ?thesis
  proof (rule admitted_commit_is_cleared)
    show "il_outcome (snd (submit new_sink ?c (Some base_auth) (Some (token_digest base_auth)))) = ADMITTED"
      by (rule base_admitted)
    show "receipt_for base_evidence (ce_commit_id ?c) \<noteq> None" by (rule r)
    show "ev_issuer base_evidence = Some (pk_issuer ?s)" by (rule ev)
    show "ev_authority base_evidence = Some (fold store_add [] (pk_authority new_sink))" by (simp add: ev)
    show "is_secret (pk_issuer ?s) = is_secret (pk_issuer new_sink)" using sec by simp
    show "(1 :: int) \<le> au_max_uses base_auth" by (rule m)
  qed (simp_all add: ev ok)
qed

text \<open>C1: What goes around the interlock is found: when a commit without an authorization reaches the
  protected sink on the unguarded path, and the evidence is the sink's own ledger and receipts with
  the authority's epochs and working instruments, the verdict is a boundary failure, whatever else
  the sink committed.\<close>

theorem bypass_is_a_counterexample:
  assumes "ce_authorization_ref c = None" "ce_sink_id c = ps_sink_id (ev_protected_sink ev)"
    and "ev_commits ev = ss_commits (pk_state (sink_run rs (commit_unguarded s c)))"
    and "ev_receipts ev = ss_receipts (pk_state (sink_run rs (commit_unguarded s c)))"
    and "sink_inv s" "ev_authority ev \<noteq> None" "ev_instrument_failures ev = []"
  shows "cv_disposition (adjudicate ev) = CONSEQUENCE_BOUNDARY_FAILURE"
proof -
  let ?u = "commit_unguarded s c" let ?s = "sink_run rs ?u"
  have inv: "sink_inv ?s" using assms(5) by (intro sink_inv_run sink_inv_unguarded)
  have "c \<in> set (ss_commits (pk_state ?u))" by (simp add: commit_unguarded_def)
  then have c': "c \<in> set (ss_commits (pk_state ?s))" by (rule subsetD [OF sink_run_extends])
  then have c: "c \<in> set (ev_commits ev)" by (simp only: assms(3))
  have "receipt_for ev (ce_commit_id c) \<noteq> None"
    unfolding receipt_for_def assms(4) by (rule receipt_of_commit [OF inv c'])
  moreover obtain epochs where "ev_authority ev = Some epochs" using assms(6) by blast
  moreover have "commit_authorization ev c = None" by (simp add: commit_authorization_def assms(1))
  then have "mismatches (commit_report ev epochs c) \<noteq> []"
    by (simp add: commit_report_def validate_authorization_def mismatches_def)
  ultimately show ?thesis
    using c assms(1,2,7) unfolding crossing_run_iff finding_crossing_iff
    by (auto simp: protected_commits_def protects_def)
qed

lemma bypass_is_a_counterexample_witness:
  "cv_disposition (adjudicate (evidence_from_scenario (mk_result ''bypass'' (commit_unguarded new_sink
     ((base_commit ''c1'' ''route.batch'')\<lparr>ce_authorization_ref := None\<rparr>)))))
   = CONSEQUENCE_BOUNDARY_FAILURE"
  by (rule bypass_is_a_counterexample [where rs = "[]" and s = new_sink
        and c = "(base_commit ''c1'' ''route.batch'')\<lparr>ce_authorization_ref := None\<rparr>"])
    (simp_all add: mk_result_def sink_run_def base_commit_def SINK_def new_sink_def commit_unguarded_def
      new_payment_sink_def sink_inv_def)

end
